(* ===== verification/Prelude.thy ===== *)
theory Prelude
  imports Main "HOL-Library.Word"
begin

text \<open>
  Shared vocabulary of the development: the machine integer types of
  \<open>source/types.h\<close> as fixed-width words, the fact collections the component
  theories add to, and generic lemmas on words and lists that several
  components use.  Nothing in this theory models a particular source file.
\<close>

unbundle bit_operations_syntax

section \<open>Machine integers\<close>

type_synonym u8 = "8 word"
type_synonym u16 = "16 word"
type_synonym u32 = "32 word"
type_synonym u64 = "64 word"

text \<open>
  Signed types carry the same bits; \<open>sint\<close> reads them.  The synonyms record
  which reading the source uses.
\<close>

type_synonym s16 = "16 word"
type_synonym s32 = "32 word"
type_synonym s64 = "64 word"

section \<open>Fact collections\<close>

text \<open>
  \<open>bitfield\<close> holds the equations that evaluate bit-field reads and writes,
  \<open>bound_intros\<close> the monotone bounds of emitted code and buffers.
\<close>

named_theorems bitfield
named_theorems bound_intros

section \<open>Words\<close>

lemma u32_eqI_bits:
  fixes x y :: u32
  assumes "\<And>n. n < 32 \<Longrightarrow> bit x n = bit y n"
  shows "x = y"
  by (rule bit_word_eqI) (simp add: assms)

lemma nat_less_32_cases:
  fixes n :: nat
  assumes "n < 32"
  shows "n \<in> {0,1,2,3,4,5,6,7,8,9,10,11,12,13,14,15,16,17,18,19,20,21,22,23,24,25,26,27,28,29,30,31}"
  using assms by (simp only: insert_iff empty_iff) arith

text \<open>
  Two 32-bit words are equal when their bits are, one equation per position:
  the shape in which the simplifier can evaluate closed positions.
\<close>

lemma u32_eq_by_bits:
  fixes x y :: u32
  assumes "bit x 0 = bit y 0" "bit x 1 = bit y 1" "bit x 2 = bit y 2" "bit x 3 = bit y 3"
    "bit x 4 = bit y 4" "bit x 5 = bit y 5" "bit x 6 = bit y 6" "bit x 7 = bit y 7"
    "bit x 8 = bit y 8" "bit x 9 = bit y 9" "bit x 10 = bit y 10" "bit x 11 = bit y 11"
    "bit x 12 = bit y 12" "bit x 13 = bit y 13" "bit x 14 = bit y 14" "bit x 15 = bit y 15"
    "bit x 16 = bit y 16" "bit x 17 = bit y 17" "bit x 18 = bit y 18" "bit x 19 = bit y 19"
    "bit x 20 = bit y 20" "bit x 21 = bit y 21" "bit x 22 = bit y 22" "bit x 23 = bit y 23"
    "bit x 24 = bit y 24" "bit x 25 = bit y 25" "bit x 26 = bit y 26" "bit x 27 = bit y 27"
    "bit x 28 = bit y 28" "bit x 29 = bit y 29" "bit x 30 = bit y 30" "bit x 31 = bit y 31"
  shows "x = y"
proof (rule u32_eqI_bits)
  fix n :: nat
  assume "n < 32"
  then have "n \<in> {0,1,2,3,4,5,6,7,8,9,10,11,12,13,14,15,16,17,18,19,20,21,22,23,24,25,26,27,28,29,30,31}"
    by (rule nat_less_32_cases)
  then show "bit x n = bit y n"
    using assms by (elim insertE) simp_all
qed

text \<open>Page and offset split an address.\<close>

lemma page_plus_offset: "(w AND NOT 0xFFF) + (w AND 0xFFF) = (w :: u64)"
proof -
  have "(w AND NOT 0xFFF) AND (w AND 0xFFF) = 0"
    by (rule bit_word_eqI) (auto simp: bit_simps)
  then have "(w AND NOT 0xFFF) + (w AND 0xFFF) = (w AND NOT 0xFFF) OR (w AND 0xFFF)"
    by (simp only: disjunctive_add_eq_or)
  also have "\<dots> = w"
    by (rule bit_word_eqI) (auto simp: bit_simps)
  finally show ?thesis .
qed

text \<open>
  Sign extension of the low \<open>n\<close> bits, as a signed integer: the reading an
  architecture gives to an immediate field.
\<close>

definition sext :: "nat \<Rightarrow> 'a::len word \<Rightarrow> int" where
  "sext n w = signed_take_bit (n - 1) (uint w)"

lemma sext_take_bit:
  assumes "0 < n"
  shows "sext n (take_bit n w) = sext n (w :: 'a::len word)"
  using assms by (auto simp: sext_def unsigned_take_bit_eq signed_take_bit_take_bit)

lemma signed_take_bit_small:
  fixes k :: int
  assumes "- (2 ^ n) \<le> k" "k < 2 ^ n"
  shows "signed_take_bit n k = k"
  using assms by (rule signed_take_bit_int_eq_self)

end
