(* ===== verification/Bit_Fields.thy ===== *)
theory Bit_Fields
  imports Prelude
begin

text \<open>
  The bit-field layer of the code generator: \<open>exl::util::Mask\<close> and
  \<open>exl::util::BitSet\<close> (\<open>source/lib/util/math/bitset.hpp\<close>), instantiated at
  \<open>InstType = uint\<close> as \<open>source/lib/armv8.hpp\<close> does, the \<open>ACCESSOR\<close>
  getters and setters built on them, and \<open>SignExtend\<close>
  (\<open>source/lib/util/math/sign_extend.hpp\<close>).  The contract of one accessor is
  the locale \<open>accessor\<close>.
\<close>

section \<open>Masks and bit sets\<close>

text \<open>
  \<open>Mask<uint, Low, High>::Value()\<close> computes \<open>((1 << Count) - 1) << Low\<close> in a
  32-bit \<open>int\<close> and returns it as \<open>uint\<close>; on bits this is the same word.
\<close>

definition Mask_Value :: "nat \<Rightarrow> nat \<Rightarrow> u32" where
  "Mask_Value Low High = (let base = push_bit (High - Low) 1 - 1 in push_bit Low base)"

definition BitsOf :: "nat \<Rightarrow> nat \<Rightarrow> u32 \<Rightarrow> u32" where
  "BitsOf Low High m_Data = (let value = m_Data AND Mask_Value Low High in drop_bit Low value)"

definition SetBits :: "nat \<Rightarrow> nat \<Rightarrow> u32 \<Rightarrow> u32 \<Rightarrow> u32" where
  "SetBits Low High value m_Data =
     (let m_Data = m_Data AND NOT (Mask_Value Low High);
          v = push_bit Low value;
          v = v AND Mask_Value Low High
      in m_Data OR v)"

text \<open>A constructor body is a sequence of setter calls, in program order.\<close>

primrec set_fields :: "(nat \<times> nat \<times> u32) list \<Rightarrow> u32 \<Rightarrow> u32" where
  "set_fields [] w = w"
| "set_fields (f # fs) w =
     (case f of (Low, High, value) \<Rightarrow> set_fields fs (SetBits Low High value w))"

text \<open>
  \<open>SignExtend<Bits>(value)\<close> stores \<open>value\<close> in a signed bit field of \<open>Bits\<close> bits
  of a 64-bit integer and masks the sign-extended result back to \<open>Bits\<close> bits.
\<close>

definition SignExtend :: "nat \<Rightarrow> 'a::len word \<Rightarrow> 'a word" where
  "SignExtend Bits value =
     (let m_Extended = word_of_int (signed_take_bit (Bits - 1) (sint value)) :: 64 word
      in ucast (m_Extended AND (push_bit Bits 1 - 1)))"

section \<open>Bits of the results\<close>

lemma Mask_Value_mask: "Mask_Value lo hi = push_bit lo (mask (hi - lo))"
  by (simp add: Mask_Value_def mask_eq_decr_exp push_bit_eq_mult)

lemma bit_Mask_Value [bitfield]:
  "bit (Mask_Value lo hi) n \<longleftrightarrow> n < 32 \<and> lo \<le> n \<and> n < hi"
  by (auto simp: Mask_Value_mask bit_simps)

lemma bit_SetBits [bitfield]:
  "bit (SetBits lo hi v w) n \<longleftrightarrow>
     n < 32 \<and> (if lo \<le> n \<and> n < hi then bit v (n - lo) else bit w n)"
  by (auto simp: SetBits_def Mask_Value_mask bit_simps)

lemma bit_BitsOf [bitfield]:
  "bit (BitsOf lo hi w) n \<longleftrightarrow> lo + n < hi \<and> bit w (lo + n)"
  by (auto simp: BitsOf_def Mask_Value_mask bit_simps dest: bit_imp_le_length)

lemma set_fields_append [simp]:
  "set_fields (xs @ ys) w = set_fields ys (set_fields xs w)"
  by (induction xs arbitrary: w) (auto split: prod.splits)

lemma BitsOf_take_bit: "BitsOf lo hi w = take_bit (hi - lo) (drop_bit lo w)"
  by (rule bit_word_eqI) (auto simp: bitfield bit_simps)

lemma SignExtend_take_bit:
  fixes v :: "'a::len word"
  assumes "0 < n" "n \<le> LENGTH('a)" "n \<le> 64"
  shows "SignExtend n v = take_bit n v"
proof (rule bit_word_eqI)
  fix k
  assume k: "k < LENGTH('a)"
  have m: "(push_bit n 1 - 1 :: 64 word) = mask n"
    by (simp add: mask_eq_decr_exp push_bit_eq_mult)
  have j: "k = LENGTH('a) - Suc 0" if "k < n" "LENGTH('a) - Suc 0 \<le> k"
    using that assms k by linarith
  have n: "n - Suc 0 = k" if "k < n" "n - Suc 0 \<le> k"
    using that by linarith
  show "bit (SignExtend n v) k = bit (take_bit n v) k"
    unfolding SignExtend_def Let_def m using assms k j n
    by (cases "k < n") (auto simp: bit_simps min_def)
qed

section \<open>The contract of an accessor\<close>

text \<open>
  \<open>ACCESSOR(name, low, high)\<close> gives a getter and a setter of one field.  What
  the encoders rely on: a getter returns what the setter stored, truncated to
  the width; the last write wins; a field does not depend on what is written
  outside it.
\<close>

locale accessor =
  fixes getf :: "u32 \<Rightarrow> u32" and setf :: "u32 \<Rightarrow> u32 \<Rightarrow> u32" and width :: nat
  assumes get_set: "getf (setf v w) = take_bit width v"
    and set_set: "setf v (setf u w) = setf v w"
    and set_get: "setf (getf w) w = w"
begin

lemma set_idem: "setf v (setf v w) = setf v w"
  by (rule set_set)

lemma get_set_small: "take_bit width v = v \<Longrightarrow> getf (setf v w) = v"
  by (simp add: get_set)

lemma set_inj: "setf u w = setf v w \<Longrightarrow> take_bit width u = take_bit width v"
  by (metis get_set)

lemma set_eq_iff: "setf v w = w \<longleftrightarrow> take_bit width v = getf w"
  by (metis get_set set_get set_set)

end

locale accessor_pair =
  a: accessor geta seta wa + b: accessor getb setb wb
  for geta seta wa getb setb wb +
  assumes set_commute: "seta u (setb v w) = setb v (seta u w)"
begin

lemma geta_setb: "geta (setb v w) = geta w"
  by (metis a.get_set a.set_get set_commute)

lemma getb_seta: "getb (seta v w) = getb w"
  by (metis b.get_set b.set_get set_commute)

end

lemma accessor_bits:
  assumes "lo < hi" "hi \<le> 32"
  shows "accessor (BitsOf lo hi) (SetBits lo hi) (hi - lo)"
proof
  fix u v w :: u32
  show "BitsOf lo hi (SetBits lo hi v w) = take_bit (hi - lo) v"
    using assms by (intro bit_word_eqI) (auto simp: bitfield bit_simps)
  show "SetBits lo hi v (SetBits lo hi u w) = SetBits lo hi v w"
    by (rule bit_word_eqI) (auto simp: bitfield)
  show "SetBits lo hi (BitsOf lo hi w) w = w"
    by (rule bit_word_eqI) (auto simp: bitfield)
qed

lemma SetBits_commute:
  assumes "hi \<le> lo' \<or> hi' \<le> lo"
  shows "SetBits lo hi u (SetBits lo' hi' v w) = SetBits lo' hi' v (SetBits lo hi u w)"
  using assms by (intro bit_word_eqI) (auto simp: bitfield)

text \<open>The fields every encoder shares: the destination and first source register.\<close>

interpretation Rd: accessor "BitsOf 0 5" "SetBits 0 5" 5
  using accessor_bits [of 0 5] by simp

interpretation Rn: accessor "BitsOf 5 10" "SetBits 5 10" 5
  using accessor_bits [of 5 10] by simp

interpretation Imm26: accessor "BitsOf 0 26" "SetBits 0 26" 26
  using accessor_bits [of 0 26] by simp

interpretation RdRn: accessor_pair "BitsOf 0 5" "SetBits 0 5" 5 "BitsOf 5 10" "SetBits 5 10" 5
  by unfold_locales (rule SetBits_commute, simp)

end
