(* ===== verification/Armv8_Inst.thy ===== *)
theory Armv8_Inst
  imports Bit_Fields
begin

text \<open>
  The AArch64 code generator under \<open>source/lib/armv8\<close>: registers
  (\<open>register.hpp\<close>) and one constructor per instruction class and instruction
  (\<open>instructions/**.hpp\<close>).  A constructor chain of the source is a chain of
  definitions here, each adding its setter calls in program order.  The second
  half states what the constructors are for: an instruction decoder written
  from the A64 encoding tables, and the theorems that each constructor emits
  the intended instruction with the intended operands.
\<close>

section \<open>Registers\<close>

datatype RegisterKind = KindW | KindX

text \<open>\<open>m_Index\<close> is a 7-bit field of an (unsigned) \<open>char\<close>.\<close>

record Register =
  m_Kind :: RegisterKind
  m_Index :: "7 word"

definition mk_Register :: "RegisterKind \<Rightarrow> u8 \<Rightarrow> Register" where
  "mk_Register kind index = \<lparr>m_Kind = kind, m_Index = ucast index\<rparr>"

definition Is32 :: "Register \<Rightarrow> bool" where
  "Is32 r \<longleftrightarrow> m_Kind r = KindW"

definition Is64 :: "Register \<Rightarrow> bool" where
  "Is64 r \<longleftrightarrow> m_Kind r = KindX"

definition Index :: "Register \<Rightarrow> u32" where
  "Index r = ucast (m_Index r)"

abbreviation regW :: "nat \<Rightarrow> Register" where "regW i \<equiv> mk_Register KindW (of_nat i)"
abbreviation regX :: "nat \<Rightarrow> Register" where "regX i \<equiv> mk_Register KindX (of_nat i)"

definition regLR :: Register where "regLR = regX 30"
definition regSP :: Register where "regSP = mk_Register KindX 31"
definition regNone32 :: Register where "regNone32 = mk_Register KindW (-1)"
definition regNone64 :: Register where "regNone64 = mk_Register KindX (-1)"

definition b1 :: "bool \<Rightarrow> u32" where "b1 b = of_bool b"

section \<open>Instruction classes\<close>

definition Instruction :: "u32 \<Rightarrow> u32" where
  "Instruction op0 = set_fields [(25, 29, op0)] 0"

definition Op100xInstruction :: "u32 \<Rightarrow> u32" where
  "Op100xInstruction op0 = set_fields [(23, 26, op0)] (Instruction 0b1000)"

definition Op101xInstruction :: "u32 \<Rightarrow> u32" where
  "Op101xInstruction op0 = set_fields [(29, 32, op0)] (Instruction 0b1010)"

definition Opx101Instruction :: "u32 \<Rightarrow> u32 \<Rightarrow> u32 \<Rightarrow> u32 \<Rightarrow> u32" where
  "Opx101Instruction op0 op1 op2 op3 =
     set_fields [(30, 31, op0), (28, 29, op1), (20, 24, op2), (10, 15, op3)] (Instruction 0b0101)"

definition Opx1x0Instruction :: "u32 \<Rightarrow> u32" where
  "Opx1x0Instruction op0 = set_fields [(28, 32, op0)] (Instruction 0b0100)"

section \<open>Data processing, immediate\<close>

definition CalcSh :: "u32 \<Rightarrow> bool" where
  "CalcSh imm \<longleftrightarrow> imm \<noteq> 0 \<and> imm AND (push_bit 12 1 - 1) = 0"

definition CalcImm :: "u32 \<Rightarrow> u16" where
  "CalcImm imm = (let imm = (if CalcSh imm then drop_bit 12 imm else imm) in ucast imm)"

definition AddSubtractImmediate :: "bool \<Rightarrow> bool \<Rightarrow> bool \<Rightarrow> u32" where
  "AddSubtractImmediate sf op s =
     set_fields [(31, 32, b1 sf), (30, 31, b1 op), (29, 30, b1 s)] (Op100xInstruction 0b010)"

definition AddImmediate :: "Register \<Rightarrow> Register \<Rightarrow> u32 \<Rightarrow> u32" where
  "AddImmediate rd rn imm =
     set_fields [(0, 5, Index rd), (5, 10, Index rn), (10, 22, ucast (CalcImm imm)),
                 (22, 23, b1 (CalcSh imm))]
       (AddSubtractImmediate (Is64 rd) False False)"

definition AddsImmediate :: "Register \<Rightarrow> Register \<Rightarrow> u32 \<Rightarrow> u32" where
  "AddsImmediate rd rn imm =
     set_fields [(0, 5, Index rd), (5, 10, Index rn), (10, 22, ucast (CalcImm imm)),
                 (22, 23, b1 (CalcSh imm))]
       (AddSubtractImmediate (Is64 rd) False True)"

definition SubImmediate :: "Register \<Rightarrow> Register \<Rightarrow> u32 \<Rightarrow> u32" where
  "SubImmediate rd rn imm =
     set_fields [(0, 5, Index rd), (5, 10, Index rn), (10, 22, ucast (CalcImm imm)),
                 (22, 23, b1 (CalcSh imm))]
       (AddSubtractImmediate (Is64 rd) True False)"

definition SubsImmediate :: "Register \<Rightarrow> Register \<Rightarrow> u32 \<Rightarrow> u32" where
  "SubsImmediate rd rn imm =
     set_fields [(0, 5, Index rd), (5, 10, Index rn), (10, 22, ucast (CalcImm imm)),
                 (22, 23, b1 (CalcSh imm))]
       (AddSubtractImmediate (Is64 rd) True True)"

text \<open>The aliases \<open>CmnImmediate\<close> and \<open>CmpImmediate\<close> discard the result.\<close>

definition Cmn_GetRd :: "Register \<Rightarrow> Register" where
  "Cmn_GetRd r = (if Is64 r then regNone64 else regNone32)"

definition CmnImmediate :: "Register \<Rightarrow> u32 \<Rightarrow> u32" where
  "CmnImmediate r imm = AddsImmediate (Cmn_GetRd r) r imm"

definition Cmp_GetRd :: "Register \<Rightarrow> Register" where
  "Cmp_GetRd r = (if Is64 r then regNone64 else regNone32)"

definition CmpImmediate :: "Register \<Rightarrow> u32 \<Rightarrow> u32" where
  "CmpImmediate r imm = SubsImmediate (Cmp_GetRd r) r imm"

text \<open>\<open>enum ShiftValue\<close>; the underlying value is the \<open>Hw\<close> field.\<close>

datatype ShiftValue = ShiftValue_0 | ShiftValue_16 | ShiftValue_32 | ShiftValue_48

fun shift_value :: "ShiftValue \<Rightarrow> u32" where
  "shift_value ShiftValue_0 = 0"
| "shift_value ShiftValue_16 = 1"
| "shift_value ShiftValue_32 = 2"
| "shift_value ShiftValue_48 = 3"

definition MoveWideImmediate :: "Register \<Rightarrow> u32 \<Rightarrow> u32 \<Rightarrow> u16 \<Rightarrow> u32" where
  "MoveWideImmediate r opc hw imm =
     set_fields [(31, 32, b1 (Is64 r)), (29, 31, opc), (21, 23, hw), (5, 21, ucast imm),
                 (0, 5, Index r)]
       (Op100xInstruction 0b101)"

definition Movk :: "Register \<Rightarrow> u16 \<Rightarrow> ShiftValue \<Rightarrow> u32" where
  "Movk r imm shift = MoveWideImmediate r 0b11 (shift_value shift) imm"

definition Movn :: "Register \<Rightarrow> u16 \<Rightarrow> ShiftValue \<Rightarrow> u32" where
  "Movn r imm shift = MoveWideImmediate r 0b00 (shift_value shift) imm"

definition Movz :: "Register \<Rightarrow> u16 \<Rightarrow> ShiftValue \<Rightarrow> u32" where
  "Movz r imm shift = MoveWideImmediate r 0b10 (shift_value shift) imm"

definition PcRelAddressing :: "Register \<Rightarrow> u32 \<Rightarrow> bool \<Rightarrow> u32" where
  "PcRelAddressing r imm op =
     set_fields [(31, 32, b1 op), (29, 31, imm), (5, 24, drop_bit 2 imm), (0, 5, Index r)]
       (Op100xInstruction 0b000)"

definition Adr :: "Register \<Rightarrow> u32 \<Rightarrow> u32" where
  "Adr r imm = PcRelAddressing r imm False"

definition Adrp :: "Register \<Rightarrow> u32 \<Rightarrow> u32" where
  "Adrp r imm = PcRelAddressing r (drop_bit 12 imm) True"

record PageAndOffsetDifference =
  m_Page :: u64
  m_Offset :: u64

definition GetDifference :: "u64 \<Rightarrow> u64 \<Rightarrow> PageAndOffsetDifference" where
  "GetDifference source destination =
     (let pageMask = NOT (0x1000 - 1);
          pageOffsetMask = 0x1000 - 1;
          page = (destination AND pageMask) - (source AND pageMask);
          offset = destination AND pageOffsetMask
      in \<lparr>m_Page = page, m_Offset = offset\<rparr>)"

section \<open>Branches and hints\<close>

definition Hints :: u32 where
  "Hints = set_fields [(12, 26, 0b01000000110010), (0, 5, 0b11111)] (Op101xInstruction 0b110)"

definition Nop :: u32 where
  "Nop = set_fields [(8, 12, 0b0000), (5, 8, 0b000)] Hints"

definition UnconditionalBranchImmediate :: "bool \<Rightarrow> u32 \<Rightarrow> u32" where
  "UnconditionalBranchImmediate op relative_address =
     set_fields [(31, 32, b1 op), (0, 26, relative_address div 4)] (Op101xInstruction 0b000)"

definition Branch :: "s32 \<Rightarrow> u32" where
  "Branch relative_address = UnconditionalBranchImmediate False relative_address"

definition BranchLink :: "s32 \<Rightarrow> u32" where
  "BranchLink relative_address = UnconditionalBranchImmediate True relative_address"

definition UnconditionalBranchRegister :: "u32 \<Rightarrow> u32 \<Rightarrow> u32" where
  "UnconditionalBranchRegister opc op2 =
     set_fields [(12, 26, 0b10000000000000), (21, 25, opc), (16, 21, op2)]
       (Op101xInstruction 0b110)"

definition BranchRegister :: "Register \<Rightarrow> u32" where
  "BranchRegister rn =
     set_fields [(10, 16, 0b000000), (5, 10, Index rn), (0, 5, 0b00000)]
       (UnconditionalBranchRegister 0b0000 0b11111)"

definition Ret :: "Register \<Rightarrow> u32" where
  "Ret rn =
     set_fields [(10, 16, 0b000000), (5, 10, Index rn), (0, 5, 0b00000)]
       (UnconditionalBranchRegister 0b0010 0b11111)"

section \<open>Data processing, register\<close>

datatype ShiftType = ShiftType_LSL | ShiftType_LSR | ShiftType_ASR | ShiftType_ROR

fun shift_type :: "ShiftType \<Rightarrow> u32" where
  "shift_type ShiftType_LSL = 0b00"
| "shift_type ShiftType_LSR = 0b01"
| "shift_type ShiftType_ASR = 0b10"
| "shift_type ShiftType_ROR = 0b11"

definition LogicalShiftedRegister :: "u32 \<Rightarrow> u32 \<Rightarrow> u32" where
  "LogicalShiftedRegister sf opc =
     set_fields [(31, 32, sf), (29, 31, opc)] (Opx101Instruction 0b0 0b0 0b0000 0b000000)"

definition OrrShiftedRegister ::
  "Register \<Rightarrow> Register \<Rightarrow> Register \<Rightarrow> ShiftType \<Rightarrow> u16 \<Rightarrow> u32" where
  "OrrShiftedRegister rd rn rm shift amount =
     set_fields [(22, 24, shift_type shift), (21, 22, 0), (16, 21, Index rm),
                 (10, 16, ucast amount), (5, 10, Index rn), (0, 5, Index rd)]
       (LogicalShiftedRegister (b1 (Is64 rd)) 0b01)"

definition Mov_GetRn :: "Register \<Rightarrow> Register \<Rightarrow> Register" where
  "Mov_GetRn rd rm = (if Is64 rd then regNone64 else regNone32)"

definition MovRegister :: "Register \<Rightarrow> Register \<Rightarrow> u32" where
  "MovRegister rd rm = OrrShiftedRegister rd (Mov_GetRn rd rm) rm ShiftType_LSL 0"

section \<open>Loads and stores\<close>

definition LoadRegisterLiteral :: "Register \<Rightarrow> s32 \<Rightarrow> u32 \<Rightarrow> u32 \<Rightarrow> u32" where
  "LoadRegisterLiteral rt imm19 v opc =
     set_fields [(28, 32, 0b0001), (23, 25, 0b00), (30, 31, opc), (26, 27, v),
                 (5, 24, SignExtend 19 imm19), (0, 5, Index rt)]
       (Opx1x0Instruction 0b0001)"

definition Ldr_GetOpc :: "Register \<Rightarrow> u32" where
  "Ldr_GetOpc rt = 0b00 OR b1 (Is64 rt)"

definition LdrLiteral :: "Register \<Rightarrow> u32 \<Rightarrow> u32" where
  "LdrLiteral rt relative_distance =
     LoadRegisterLiteral rt (relative_distance div 4) 0 (Ldr_GetOpc rt)"

text \<open>\<open>GetSize\<close>, the same expression in every load/store class.\<close>

definition GetSize :: "Register \<Rightarrow> u32" where
  "GetSize rt = 0b10 OR b1 (Is64 rt)"

definition LoadStoreRegisterOffset :: "u32 \<Rightarrow> u32 \<Rightarrow> u32 \<Rightarrow> u32" where
  "LoadStoreRegisterOffset sz v opc =
     set_fields [(30, 32, sz), (22, 24, opc), (26, 27, 0), (23, 25, 0b00),
                 (16, 22, 0b100000), (10, 12, 0b10), (26, 27, v)]
       (Opx1x0Instruction 0b0011)"

text \<open>
  \<open>enum ExtendType\<close>: \<open>UXTX\<close> and \<open>LSL\<close> share the value \<open>0b011\<close>, so the type
  has one constructor for both.
\<close>

datatype ExtendType =
  ExtendType_UXTB | ExtendType_UXTH | ExtendType_UXTW | ExtendType_LSL
| ExtendType_SXTB | ExtendType_SXTH | ExtendType_SXTW | ExtendType_SXTX

fun CreateOption :: "ExtendType \<Rightarrow> u32" where
  "CreateOption ExtendType_UXTW = 0b010"
| "CreateOption ExtendType_LSL = 0b011"
| "CreateOption ExtendType_SXTW = 0b110"
| "CreateOption ExtendType_SXTX = 0b111"
| "CreateOption _ = 0b000"

definition CreateS :: "Register \<Rightarrow> u8 \<Rightarrow> bool" where
  "CreateS rt amount =
     (if amount = 0 then False
      else if Is64 rt \<and> amount = 3 then True
      else if Is32 rt \<and> amount = 2 then True
      else False)"

definition LdrRegisterOffset ::
  "Register \<Rightarrow> Register \<Rightarrow> Register \<Rightarrow> ExtendType \<Rightarrow> u8 \<Rightarrow> u32" where
  "LdrRegisterOffset rt rn rm ext amount =
     set_fields [(30, 32, GetSize rt), (16, 21, Index rm), (13, 16, CreateOption ext),
                 (12, 13, b1 (CreateS rt amount)), (0, 5, Index rt), (5, 10, Index rn)]
       (LoadStoreRegisterOffset (GetSize rt) 0b0 0b01)"

definition StrRegisterOffset ::
  "Register \<Rightarrow> Register \<Rightarrow> Register \<Rightarrow> ExtendType \<Rightarrow> u8 \<Rightarrow> u32" where
  "StrRegisterOffset rt rn rm ext amount =
     set_fields [(30, 32, GetSize rt), (16, 21, Index rm), (13, 16, CreateOption ext),
                 (12, 13, b1 (CreateS rt amount)), (0, 5, Index rt), (5, 10, Index rn)]
       (LoadStoreRegisterOffset (GetSize rt) 0b0 0b00)"

definition LoadStoreRegisterUnscaledImmediate ::
  "u32 \<Rightarrow> u32 \<Rightarrow> u32 \<Rightarrow> s16 \<Rightarrow> Register \<Rightarrow> Register \<Rightarrow> u32" where
  "LoadStoreRegisterUnscaledImmediate sz v opc imm9 rn rt =
     set_fields [(23, 25, 0b00), (16, 22, 0b000000), (10, 12, 0b00), (30, 32, sz),
                 (26, 27, v), (22, 24, opc), (12, 21, scast (SignExtend 9 imm9)),
                 (5, 10, Index rn), (0, 5, Index rt)]
       (Opx1x0Instruction 0b0011)"

definition LdurUnscaledImmediate :: "Register \<Rightarrow> Register \<Rightarrow> s16 \<Rightarrow> u32" where
  "LdurUnscaledImmediate rt rn imm9 =
     LoadStoreRegisterUnscaledImmediate (GetSize rt) 0b0 0b01 imm9 rn rt"

definition SturUnscaledImmediate :: "Register \<Rightarrow> Register \<Rightarrow> u16 \<Rightarrow> u32" where
  "SturUnscaledImmediate rt rn imm12 =
     LoadStoreRegisterUnscaledImmediate (GetSize rt) 0b0 0b00 imm12 rn rt"

definition LoadStoreRegisterUnsignedImmediate ::
  "u32 \<Rightarrow> u32 \<Rightarrow> u32 \<Rightarrow> u16 \<Rightarrow> Register \<Rightarrow> Register \<Rightarrow> u32" where
  "LoadStoreRegisterUnsignedImmediate sz v opc imm12 rn rt =
     set_fields [(23, 25, 0b10), (30, 32, sz), (26, 27, v), (22, 24, opc),
                 (10, 22, ucast imm12), (5, 10, Index rn), (0, 5, Index rt)]
       (Opx1x0Instruction 0b0011)"

definition LdrRegisterImmediate :: "Register \<Rightarrow> Register \<Rightarrow> u16 \<Rightarrow> u32" where
  "LdrRegisterImmediate rt rn imm12 =
     LoadStoreRegisterUnsignedImmediate (GetSize rt) 0b0 0b01 imm12 rn rt"

definition StrRegisterImmediate :: "Register \<Rightarrow> Register \<Rightarrow> u16 \<Rightarrow> u32" where
  "StrRegisterImmediate rt rn imm12 =
     LoadStoreRegisterUnsignedImmediate (GetSize rt) 0b0 0b00 imm12 rn rt"

end
