(* ===== verification/Armv8_Decode.thy ===== *)
theory Armv8_Decode
  imports Armv8_Inst
begin

text \<open>
  The specification side of the code generator: an instruction decoder written
  from the A64 encoding tables (fixed bits and operand fields of each class),
  and the address arithmetic the architecture gives to PC-relative operands.
  The theorems say that the constructors of \<open>Armv8_Inst\<close> emit the intended
  instruction: decoding inverts encoding.
\<close>

section \<open>Decoded instructions\<close>

type_synonym regnum = "5 word"

datatype a64 =
    AddSubImm bool bool bool bool "12 word" regnum regnum \<comment> \<open>sf op S sh imm12 rn rd\<close>
  | MoveWide bool "2 word" "2 word" u16 regnum            \<comment> \<open>sf opc hw imm16 rd\<close>
  | PcRel bool "2 word" "19 word" regnum                  \<comment> \<open>page immlo immhi rd\<close>
  | BrImm bool "26 word"                                  \<comment> \<open>link imm26\<close>
  | BrCond "19 word" "4 word"                             \<comment> \<open>imm19 cond\<close>
  | CmpBr bool bool "19 word" regnum                      \<comment> \<open>sf nonzero imm19 rt\<close>
  | TestBr bool bool "5 word" "14 word" regnum            \<comment> \<open>b5 nonzero b40 imm14 rt\<close>
  | BrReg "4 word" regnum                                 \<comment> \<open>opc rn\<close>
  | HintInst "4 word" "3 word"                            \<comment> \<open>CRm op2\<close>
  | LdrLit "2 word" bool "19 word" regnum                 \<comment> \<open>opc V imm19 rt\<close>
  | LdStUnscaled "2 word" bool "2 word" "9 word" regnum regnum \<comment> \<open>size V opc imm9 rn rt\<close>
  | LdStOffset "2 word" bool "2 word" regnum "3 word" bool regnum regnum
      \<comment> \<open>size V opc rm option S rn rt\<close>
  | LdStUnsigned "2 word" bool "2 word" "12 word" regnum regnum \<comment> \<open>size V opc imm12 rn rt\<close>
  | LogShift bool "2 word" "2 word" bool regnum "6 word" regnum regnum
      \<comment> \<open>sf opc shift N rm imm6 rn rd\<close>

text \<open>\<open>fld lo w\<close> is the field of \<open>w\<close> that starts at bit \<open>lo\<close>, at the width of the result.\<close>

definition fld :: "nat \<Rightarrow> u32 \<Rightarrow> 'a::len word" where
  "fld lo w = ucast (drop_bit lo w)"

definition a64_decode :: "u32 \<Rightarrow> a64 option" where
  "a64_decode w =
     (if w AND 0x1F800000 = 0x11000000 then
        Some (AddSubImm (bit w 31) (bit w 30) (bit w 29) (bit w 22) (fld 10 w) (fld 5 w) (fld 0 w))
      else if w AND 0x1F800000 = 0x12800000 then
        Some (MoveWide (bit w 31) (fld 29 w) (fld 21 w) (fld 5 w) (fld 0 w))
      else if w AND 0x1F000000 = 0x10000000 then
        Some (PcRel (bit w 31) (fld 29 w) (fld 5 w) (fld 0 w))
      else if w AND 0x7C000000 = 0x14000000 then
        Some (BrImm (bit w 31) (fld 0 w))
      else if w AND 0xFF000010 = 0x54000000 then
        Some (BrCond (fld 5 w) (fld 0 w))
      else if w AND 0x7E000000 = 0x34000000 then
        Some (CmpBr (bit w 31) (bit w 24) (fld 5 w) (fld 0 w))
      else if w AND 0x7E000000 = 0x36000000 then
        Some (TestBr (bit w 31) (bit w 24) (fld 19 w) (fld 5 w) (fld 0 w))
      else if w AND 0xFE1FFC1F = 0xD61F0000 then
        Some (BrReg (fld 21 w) (fld 5 w))
      else if w AND 0xFFFFF01F = 0xD503201F then
        Some (HintInst (fld 8 w) (fld 5 w))
      else if w AND 0x3B000000 = 0x18000000 then
        Some (LdrLit (fld 30 w) (bit w 26) (fld 5 w) (fld 0 w))
      else if w AND 0x3B200C00 = 0x38000000 then
        Some (LdStUnscaled (fld 30 w) (bit w 26) (fld 22 w) (fld 12 w) (fld 5 w) (fld 0 w))
      else if w AND 0x3B200C00 = 0x38200800 then
        Some (LdStOffset (fld 30 w) (bit w 26) (fld 22 w) (fld 16 w) (fld 13 w) (bit w 12)
                (fld 5 w) (fld 0 w))
      else if w AND 0x3B000000 = 0x39000000 then
        Some (LdStUnsigned (fld 30 w) (bit w 26) (fld 22 w) (fld 10 w) (fld 5 w) (fld 0 w))
      else if w AND 0x1F000000 = 0x0A000000 then
        Some (LogShift (bit w 31) (fld 29 w) (fld 22 w) (bit w 21) (fld 16 w) (fld 10 w)
                (fld 5 w) (fld 0 w))
      else None)"

text \<open>The register number an operand contributes to a 5-bit field.\<close>

definition rnum :: "Register \<Rightarrow> regnum" where
  "rnum r = ucast (m_Index r)"

section \<open>Field extraction\<close>

lemma fld_SetBits_same [bitfield]:
  "lo \<le> 32 \<Longrightarrow> hi \<le> 32 \<Longrightarrow> hi = lo + LENGTH('a) \<Longrightarrow>
     (fld lo (SetBits lo hi v w) :: 'a::len word) = ucast v"
  by (rule bit_word_eqI) (auto simp: fld_def bitfield bit_simps)

lemma fld_SetBits_other [bitfield]:
  "hi \<le> lo' \<or> lo' + LENGTH('a) \<le> lo \<Longrightarrow>
     (fld lo' (SetBits lo hi v w) :: 'a::len word) = fld lo' w"
  by (rule bit_word_eqI) (auto simp: fld_def bitfield bit_simps dest: bit_imp_le_length)

lemma u32_eq_iff_bits:
  fixes x y :: u32
  shows "x = y \<longleftrightarrow>
    bit x 31 = bit y 31 \<and> bit x 30 = bit y 30 \<and> bit x 29 = bit y 29 \<and> bit x 28 = bit y 28 \<and>
    bit x 27 = bit y 27 \<and> bit x 26 = bit y 26 \<and> bit x 25 = bit y 25 \<and> bit x 24 = bit y 24 \<and>
    bit x 23 = bit y 23 \<and> bit x 22 = bit y 22 \<and> bit x 21 = bit y 21 \<and> bit x 20 = bit y 20 \<and>
    bit x 19 = bit y 19 \<and> bit x 18 = bit y 18 \<and> bit x 17 = bit y 17 \<and> bit x 16 = bit y 16 \<and>
    bit x 15 = bit y 15 \<and> bit x 14 = bit y 14 \<and> bit x 13 = bit y 13 \<and> bit x 12 = bit y 12 \<and>
    bit x 11 = bit y 11 \<and> bit x 10 = bit y 10 \<and> bit x 9 = bit y 9 \<and> bit x 8 = bit y 8 \<and>
    bit x 7 = bit y 7 \<and> bit x 6 = bit y 6 \<and> bit x 5 = bit y 5 \<and> bit x 4 = bit y 4 \<and>
    bit x 3 = bit y 3 \<and> bit x 2 = bit y 2 \<and> bit x 1 = bit y 1 \<and> bit x 0 = bit y 0"
  by (rule iffI, simp, elim conjE, rule u32_eq_by_bits)

lemma ucast_Index [bitfield]: "(ucast (Index r) :: 5 word) = rnum r"
  by (rule bit_word_eqI) (auto simp: Index_def rnum_def bit_simps)

lemma bit_b1 [bitfield]: "bit (b1 b) n \<longleftrightarrow> n = 0 \<and> b"
  by (auto simp: b1_def bit_1_iff)

lemma bit_and_u32 [bitfield]: "bit (x AND y) n \<longleftrightarrow> bit x n \<and> bit (y :: u32) n"
  by (rule bit_and_iff)

text \<open>Everything the simplifier needs to run the decoder on an encoder's result.\<close>

lemmas class_defs =
  Instruction_def Op100xInstruction_def Op101xInstruction_def Opx101Instruction_def
  Opx1x0Instruction_def AddSubtractImmediate_def MoveWideImmediate_def PcRelAddressing_def
  Hints_def UnconditionalBranchImmediate_def UnconditionalBranchRegister_def
  LogicalShiftedRegister_def LoadRegisterLiteral_def LoadStoreRegisterOffset_def
  LoadStoreRegisterUnscaledImmediate_def LoadStoreRegisterUnsignedImmediate_def

lemma ucast_ucast_u32 [bitfield]:
  fixes x :: "'c::len word"
  assumes "LENGTH('b) \<le> 32 \<or> LENGTH('c) \<le> 32"
  shows "(ucast (ucast x :: u32) :: 'b::len word) = ucast x"
  using assms by (intro bit_word_eqI) (auto simp: bit_simps dest: bit_imp_le_length)

lemma ucast_take_bit_low [bitfield]:
  "LENGTH('b) \<le> n \<Longrightarrow> (ucast (take_bit n (x :: 'a::len word)) :: 'b::len word) = ucast x"
  by (rule bit_word_eqI) (auto simp: bit_simps)

lemma ucast_scast_low [bitfield]:
  fixes x :: s16
  assumes "LENGTH('b) \<le> 16"
  shows "(ucast (scast x :: u32) :: 'b::len word) = ucast x"
proof (rule bit_word_eqI)
  fix n
  assume "n < LENGTH('b)"
  with assms have "n = 15 \<or> n < 15" "n < 16" by auto
  then show "bit (ucast (scast x :: u32) :: 'b word) n = bit (ucast x :: 'b word) n"
    by (auto simp: bit_simps min_def)
qed

lemma bit_fld: "bit (fld lo w :: 'a::len word) n \<longleftrightarrow> n < LENGTH('a) \<and> bit w (lo + n)"
  by (auto simp: fld_def bit_simps dest: bit_imp_le_length)

text \<open>Two-bit fields that several setters touch are compared bit by bit.\<close>

lemma word2_eq_iff_bits:
  fixes x y :: "2 word"
  shows "x = y \<longleftrightarrow> bit x 0 = bit y 0 \<and> bit x 1 = bit y 1"
proof
  assume h: "bit x 0 = bit y 0 \<and> bit x 1 = bit y 1"
  show "x = y"
  proof (rule bit_word_eqI)
    fix n assume "n < LENGTH(2)"
    then have "n = 0 \<or> n = 1" by auto
    with h show "bit x n = bit y n" by auto
  qed
qed simp

lemmas two_bits = word2_eq_iff_bits bit_fld bit_simps b1_def

lemmas decode_simps = a64_decode_def class_defs u32_eq_iff_bits bitfield

section \<open>Decoding inverts the constructors\<close>

lemma decode_AddImmediate:
  "a64_decode (AddImmediate rd rn imm) =
     Some (AddSubImm (Is64 rd) False False (CalcSh imm) (ucast (CalcImm imm)) (rnum rn) (rnum rd))"
  by (simp add: AddImmediate_def decode_simps)

lemma decode_AddsImmediate:
  "a64_decode (AddsImmediate rd rn imm) =
     Some (AddSubImm (Is64 rd) False True (CalcSh imm) (ucast (CalcImm imm)) (rnum rn) (rnum rd))"
  by (simp add: AddsImmediate_def decode_simps)

lemma decode_SubImmediate:
  "a64_decode (SubImmediate rd rn imm) =
     Some (AddSubImm (Is64 rd) True False (CalcSh imm) (ucast (CalcImm imm)) (rnum rn) (rnum rd))"
  by (simp add: SubImmediate_def decode_simps)

lemma decode_SubsImmediate:
  "a64_decode (SubsImmediate rd rn imm) =
     Some (AddSubImm (Is64 rd) True True (CalcSh imm) (ucast (CalcImm imm)) (rnum rn) (rnum rd))"
  by (simp add: SubsImmediate_def decode_simps)

lemma decode_Movz:
  "a64_decode (Movz r imm sh) = Some (MoveWide (Is64 r) 2 (ucast (shift_value sh)) imm (rnum r))"
  by (simp add: Movz_def decode_simps)

lemma decode_Movk:
  "a64_decode (Movk r imm sh) = Some (MoveWide (Is64 r) 3 (ucast (shift_value sh)) imm (rnum r))"
  by (simp add: Movk_def decode_simps)

lemma decode_Movn:
  "a64_decode (Movn r imm sh) = Some (MoveWide (Is64 r) 0 (ucast (shift_value sh)) imm (rnum r))"
  by (simp add: Movn_def decode_simps)

lemma decode_Adr:
  "a64_decode (Adr r imm) = Some (PcRel False (ucast imm) (ucast (drop_bit 2 imm)) (rnum r))"
  by (simp add: Adr_def decode_simps)

lemma decode_Adrp:
  "a64_decode (Adrp r imm) =
     Some (PcRel True (ucast (drop_bit 12 imm)) (ucast (drop_bit 14 imm)) (rnum r))"
  by (simp add: Adrp_def decode_simps)

lemma decode_Branch:
  "a64_decode (Branch rel) = Some (BrImm False (ucast (rel div 4)))"
  by (simp add: Branch_def decode_simps)

lemma decode_BranchLink:
  "a64_decode (BranchLink rel) = Some (BrImm True (ucast (rel div 4)))"
  by (simp add: BranchLink_def decode_simps)

lemma decode_BranchRegister:
  "a64_decode (BranchRegister rn) = Some (BrReg 0 (rnum rn))"
  by (simp add: BranchRegister_def decode_simps)

lemma decode_Ret:
  "a64_decode (Ret rn) = Some (BrReg 2 (rnum rn))"
  by (simp add: Ret_def decode_simps)

lemma decode_Nop: "a64_decode Nop = Some (HintInst 0 0)"
  by (simp add: Nop_def decode_simps)

lemma decode_OrrShiftedRegister:
  "a64_decode (OrrShiftedRegister rd rn rm sh amount) =
     Some (LogShift (Is64 rd) 1 (ucast (shift_type sh)) False (rnum rm) (ucast amount)
             (rnum rn) (rnum rd))"
  by (simp add: OrrShiftedRegister_def decode_simps)

lemma decode_LdrLiteral:
  "a64_decode (LdrLiteral rt dist) =
     Some (LdrLit (of_bool (Is64 rt)) False (ucast (dist div 4)) (rnum rt))"
  by (cases "Is64 rt")
    (simp_all add: LdrLiteral_def Ldr_GetOpc_def SignExtend_take_bit decode_simps two_bits)

lemma decode_LdrRegisterOffset:
  "a64_decode (LdrRegisterOffset rt rn rm ext amount) =
     Some (LdStOffset (if Is64 rt then 3 else 2) False 1 (rnum rm) (ucast (CreateOption ext))
             (CreateS rt amount) (rnum rn) (rnum rt))"
  by (cases "Is64 rt")
    (simp_all add: LdrRegisterOffset_def GetSize_def decode_simps two_bits)

lemma decode_StrRegisterOffset:
  "a64_decode (StrRegisterOffset rt rn rm ext amount) =
     Some (LdStOffset (if Is64 rt then 3 else 2) False 0 (rnum rm) (ucast (CreateOption ext))
             (CreateS rt amount) (rnum rn) (rnum rt))"
  by (cases "Is64 rt")
    (simp_all add: StrRegisterOffset_def GetSize_def decode_simps two_bits)

lemma decode_LdurUnscaledImmediate:
  "a64_decode (LdurUnscaledImmediate rt rn imm) =
     Some (LdStUnscaled (if Is64 rt then 3 else 2) False 1 (ucast imm) (rnum rn) (rnum rt))"
  by (cases "Is64 rt")
    (simp_all add: LdurUnscaledImmediate_def GetSize_def SignExtend_take_bit decode_simps
       two_bits)

lemma decode_SturUnscaledImmediate:
  "a64_decode (SturUnscaledImmediate rt rn imm) =
     Some (LdStUnscaled (if Is64 rt then 3 else 2) False 0 (ucast imm) (rnum rn) (rnum rt))"
  by (cases "Is64 rt")
    (simp_all add: SturUnscaledImmediate_def GetSize_def SignExtend_take_bit decode_simps
       two_bits)

lemma decode_LdrRegisterImmediate:
  "a64_decode (LdrRegisterImmediate rt rn imm) =
     Some (LdStUnsigned (if Is64 rt then 3 else 2) False 1 (ucast imm) (rnum rn) (rnum rt))"
  by (cases "Is64 rt")
    (simp_all add: LdrRegisterImmediate_def GetSize_def decode_simps two_bits)

lemma decode_StrRegisterImmediate:
  "a64_decode (StrRegisterImmediate rt rn imm) =
     Some (LdStUnsigned (if Is64 rt then 3 else 2) False 0 (ucast imm) (rnum rn) (rnum rt))"
  by (cases "Is64 rt")
    (simp_all add: StrRegisterImmediate_def GetSize_def decode_simps two_bits)

end
