(* ===== verification/Armv8_Operands.thy ===== *)
theory Armv8_Operands
  imports Armv8_Decode
begin

text \<open>
  What the emitted operands mean to the processor: branch targets, literal and
  page addresses, shifted immediates.  The theorems say under which ranges the
  constructors of \<open>Armv8_Inst\<close> reach the address or value they were given.
\<close>

section \<open>Operand readings of the architecture\<close>

definition br_target :: "u64 \<Rightarrow> 'n::len word \<Rightarrow> u64" where
  "br_target pc imm = pc + of_int (4 * sint imm)"

definition pcrel_imm :: "2 word \<Rightarrow> 19 word \<Rightarrow> int" where
  "pcrel_imm immlo immhi = 4 * sint immhi + uint immlo"

definition adr_result :: "u64 \<Rightarrow> 2 word \<Rightarrow> 19 word \<Rightarrow> u64" where
  "adr_result pc immlo immhi = pc + of_int (pcrel_imm immlo immhi)"

definition adrp_result :: "u64 \<Rightarrow> 2 word \<Rightarrow> 19 word \<Rightarrow> u64" where
  "adrp_result pc immlo immhi = (pc AND NOT 0xFFF) + of_int (4096 * pcrel_imm immlo immhi)"

definition addsub_operand :: "bool \<Rightarrow> 12 word \<Rightarrow> u64" where
  "addsub_operand sh imm12 = push_bit (if sh then 12 else 0) (ucast imm12)"

definition movz_result :: "2 word \<Rightarrow> u16 \<Rightarrow> u64" where
  "movz_result hw imm = push_bit (16 * unat hw) (ucast imm)"

definition movk_result :: "u64 \<Rightarrow> 2 word \<Rightarrow> u16 \<Rightarrow> u64" where
  "movk_result old hw imm =
     (old AND NOT (push_bit (16 * unat hw) (mask 16))) OR push_bit (16 * unat hw) (ucast imm)"

section \<open>Scaled signed immediates\<close>

lemma div4_drop_bit: "(w :: 'a::len word) div 4 = drop_bit 2 w" if "2 < LENGTH('a)"
proof -
  have "(4 :: 'a word) = 2 ^ 2" by simp
  then show ?thesis by (metis drop_bit_eq_div)
qed

lemma sint_scaled_imm:
  fixes rel :: s32
  assumes n: "LENGTH('n::len) \<le> 30"
    and lo: "- (2 ^ (LENGTH('n) + 1)) \<le> sint rel" and hi: "sint rel < 2 ^ (LENGTH('n) + 1)"
  shows "sint (ucast (rel div 4) :: 'n word) = sint rel div 4"
proof -
  have d: "rel div 4 = drop_bit 2 rel"
    by (rule div4_drop_bit) simp
  have b: "(ucast (rel div 4) :: 'n word) = word_of_int (drop_bit 2 (sint rel))"
  proof (rule bit_word_eqI)
    fix k
    assume "k < LENGTH('n)"
    with n have "k = 29 \<or> k < 29" "k < 30" by auto
    then show "bit (ucast (rel div 4) :: 'n word) k = bit (word_of_int (drop_bit 2 (sint rel)) :: 'n word) k"
      by (cases "k = 29") (simp_all add: d bit_simps)
  qed
  have e: "drop_bit 2 (sint rel) = sint rel div 4"
    by (simp add: drop_bit_eq_div)
  have p: "(2 :: int) ^ (LENGTH('n) + 1) = 4 * 2 ^ (LENGTH('n) - 1)"
    by (cases "LENGTH('n)") (simp_all add: power_add)
  have "- (2 ^ (LENGTH('n) - 1)) \<le> sint rel div 4" "sint rel div 4 < 2 ^ (LENGTH('n) - 1)"
    using lo hi unfolding p by auto
  then show ?thesis
    unfolding b e sint_sbintrunc' by (rule signed_take_bit_int_eq_self)
qed

lemma br_target_scaled:
  fixes rel :: s32
  assumes "LENGTH('n::len) \<le> 30" "sint rel mod 4 = 0"
    and "- (2 ^ (LENGTH('n) + 1)) \<le> sint rel" "sint rel < 2 ^ (LENGTH('n) + 1)"
  shows "br_target pc (ucast (rel div 4) :: 'n word) = pc + scast rel"
proof -
  have "4 * sint (ucast (rel div 4) :: 'n word) = sint rel"
    unfolding sint_scaled_imm [OF assms(1,3,4)] using assms(2) by presburger
  then show ?thesis
    unfolding br_target_def scast_eq by simp
qed

text \<open>
  The 26-bit branch: every multiple of four within 128 MiB either way is reached.
\<close>

lemma Branch_reaches:
  assumes "sint rel mod 4 = 0" "- (2 ^ 27) \<le> sint rel" "sint rel < 2 ^ 27"
  shows "\<exists>imm26. a64_decode (Branch rel) = Some (BrImm False imm26) \<and>
                 br_target pc imm26 = pc + scast rel"
  using br_target_scaled [where 'n = 26 and rel = rel and pc = pc] assms
  by (simp add: decode_Branch)

lemma BranchLink_reaches:
  assumes "sint rel mod 4 = 0" "- (2 ^ 27) \<le> sint rel" "sint rel < 2 ^ 27"
  shows "\<exists>imm26. a64_decode (BranchLink rel) = Some (BrImm True imm26) \<and>
                 br_target pc imm26 = pc + scast rel"
  using br_target_scaled [where 'n = 26 and rel = rel and pc = pc] assms
  by (simp add: decode_BranchLink)

lemma LdrLiteral_reaches:
  assumes "sint dist mod 4 = 0" "- (2 ^ 20) \<le> sint dist" "sint dist < 2 ^ 20"
  shows "\<exists>imm19. a64_decode (LdrLiteral rt dist) =
                   Some (LdrLit (of_bool (Is64 rt)) False imm19 (rnum rt)) \<and>
                 br_target pc imm19 = pc + scast dist"
  using br_target_scaled [where 'n = 19 and rel = dist and pc = pc] assms
  by (simp add: decode_LdrLiteral)

section \<open>Shifted 12-bit immediates\<close>

text \<open>An immediate has an add/subtract encoding when 12 bits at shift 0 or 12 hold it.\<close>

definition addsub_encodable :: "u32 \<Rightarrow> bool" where
  "addsub_encodable imm \<longleftrightarrow> imm < 2 ^ 12 \<or> (imm AND 0xFFF = 0 \<and> imm < 2 ^ 24)"

lemma CalcSh_mask: "CalcSh imm \<longleftrightarrow> imm \<noteq> 0 \<and> take_bit 12 imm = 0"
proof -
  have "(push_bit 12 1 - 1 :: u32) = mask 12"
    by (simp add: mask_eq_decr_exp push_bit_eq_mult)
  then show ?thesis
    by (simp add: CalcSh_def take_bit_eq_mask)
qed

lemma and_FFF: "(w :: 'a::len word) AND 0xFFF = take_bit 12 w"
proof -
  have "(0xFFF :: 'a word) = mask 12" by (simp add: mask_eq_decr_exp)
  then show ?thesis by (simp add: take_bit_eq_mask)
qed

lemma addsub_operand_bits:
  "bit (addsub_operand (CalcSh imm) (ucast (CalcImm imm))) n \<longleftrightarrow>
     (if CalcSh imm then 12 \<le> n \<and> n < 24 else n < 12) \<and> bit imm n"
  by (auto simp: addsub_operand_def CalcImm_def bit_simps dest: bit_imp_le_length)

lemma take_bit_self_bits:
  fixes w :: "'a::len word"
  shows "take_bit k w = w \<longleftrightarrow> (\<forall>n. k \<le> n \<longrightarrow> \<not> bit w n)"
  by (auto simp: bit_eq_iff bit_simps) (metis bit_imp_le_length not_le)+

lemma less_two_power_bits:
  fixes w :: "'a::len word"
  assumes "unat (2 ^ k :: 'a word) = 2 ^ k"
  shows "w < 2 ^ k \<longleftrightarrow> (\<forall>n. k \<le> n \<longrightarrow> \<not> bit w n)"
proof -
  have "w < 2 ^ k \<longleftrightarrow> take_bit k (unat w) = unat w"
    using assms by (simp add: word_less_nat_alt take_bit_nat_eq_self_iff)
  also have "\<dots> \<longleftrightarrow> take_bit k w = w"
    by (simp add: unsigned_take_bit_eq [symmetric] word_unat_eq_iff)
  finally show ?thesis
    by (simp only: take_bit_self_bits)
qed

lemma addsub_operand_eq_iff:
  "addsub_operand (CalcSh imm) (ucast (CalcImm imm)) = ucast imm \<longleftrightarrow>
     (\<forall>n. (if CalcSh imm then 24 \<le> n else 12 \<le> n) \<longrightarrow> \<not> bit imm n)"
    (is "?l = _ \<longleftrightarrow> ?r")
proof -
  have low: "\<not> bit imm n" if "CalcSh imm" "n < 12" for n
    using that by (auto simp: CalcSh_mask bit_eq_iff [of "take_bit 12 imm" 0] bit_simps)
  have l64: "n < 64" if "bit imm n" for n
    using bit_imp_le_length [OF that] by simp
  have "?l = ucast imm \<longleftrightarrow> (\<forall>n. bit ?l n = bit (ucast imm :: u64) n)"
    by (auto intro: bit_word_eqI)
  also have "\<dots> \<longleftrightarrow> ?r"
    using low by (auto simp: addsub_operand_bits bit_ucast_iff) (metis l64 not_le)+
  finally show ?thesis .
qed

lemma addsub_operand_correct:
  "addsub_operand (CalcSh imm) (ucast (CalcImm imm)) = ucast imm \<longleftrightarrow> addsub_encodable imm"
proof (cases "CalcSh imm")
  case True
  then have "\<not> imm < 2 ^ 12"
    using less_two_power_bits [of 12 imm]
    by (auto simp: CalcSh_mask bit_eq_iff [of imm 0] bit_eq_iff [of "take_bit 12 imm"] bit_simps
        not_le)
  moreover have "addsub_operand (CalcSh imm) (ucast (CalcImm imm)) = ucast imm \<longleftrightarrow> imm < 2 ^ 24"
    using addsub_operand_eq_iff [of imm] less_two_power_bits [of 24 imm] True by simp
  ultimately show ?thesis
    using True unfolding addsub_encodable_def and_FFF CalcSh_mask by blast
next
  case False
  then have "addsub_operand (CalcSh imm) (ucast (CalcImm imm)) = ucast imm \<longleftrightarrow> imm < 2 ^ 12"
    using addsub_operand_eq_iff [of imm] less_two_power_bits [of 12 imm] by simp
  moreover have "imm = 0 \<Longrightarrow> imm < 2 ^ 12" by simp
  ultimately show ?thesis
    using False unfolding addsub_encodable_def and_FFF CalcSh_mask by blast
qed

section \<open>Page addressing\<close>

text \<open>
  \<open>Adrp\<close> shifts a 32-bit page difference right by 12, so the 21-bit immediate it
  builds has its top bit clear: it reads as a non-negative page count.
\<close>

lemma pcrel_imm_adrp:
  "pcrel_imm (ucast (drop_bit 12 (d :: u32))) (ucast (drop_bit 14 d)) = uint d div 4096"
proof -
  have s: "sint (ucast (drop_bit 14 d) :: 19 word) = uint d div 2 ^ 14"
  proof -
    have "(ucast (drop_bit 14 d) :: 19 word) = word_of_int (drop_bit 14 (uint d))"
      by (rule bit_word_eqI) (auto simp: bit_simps)
    moreover have "- (2 ^ 18) \<le> uint d div 2 ^ 14" "uint d div 2 ^ 14 < 2 ^ 18"
      using uint_lt2p [of d] div_int_pos_iff [of "uint d" "2 ^ 14"] by auto
    ultimately show ?thesis
      by (simp add: sint_sbintrunc' drop_bit_eq_div signed_take_bit_int_eq_self del: of_int_uint)
  qed
  have u: "uint (ucast (drop_bit 12 d) :: 2 word) = (uint d div 2 ^ 12) mod 4"
  proof -
    have "uint (ucast (drop_bit 12 d) :: 2 word) = take_bit 2 (drop_bit 12 (uint d))"
      by (rule bit_eqI) (auto simp: bit_simps dest: bit_imp_le_length)
    then show ?thesis by (simp add: take_bit_eq_mod drop_bit_eq_div)
  qed
  show ?thesis
    unfolding pcrel_imm_def s u using zdiv_zmult2_eq [of 4 "uint d" 4096] by simp
qed

text \<open>
  The pair of an \<open>Adrp\<close> and an \<open>AddImmediate\<close> built from \<open>GetDifference\<close> adds
  page and offset back.
\<close>

lemma offset_encodable: "addsub_encodable (ucast (w AND 0xFFF :: u64))"
proof -
  have "(ucast (w AND 0xFFF :: u64) :: u32) = take_bit 12 (ucast w)"
    unfolding and_FFF by (rule bit_word_eqI) (auto simp: bit_simps)
  moreover have "take_bit 12 (ucast w :: u32) < 2 ^ 12"
    using less_two_power_bits [of 12 "take_bit 12 (ucast w :: u32)"] by (simp add: bit_simps)
  ultimately show ?thesis
    by (simp add: addsub_encodable_def)
qed

definition page_diff :: "u64 \<Rightarrow> u64 \<Rightarrow> u64" where
  "page_diff source destination = (destination AND NOT 0xFFF) - (source AND NOT 0xFFF)"

lemma GetDifference_eq:
  "m_Page (GetDifference source destination) = page_diff source destination"
  "m_Offset (GetDifference source destination) = destination AND 0xFFF"
  by (simp_all add: GetDifference_def page_diff_def)

lemma page_eq_mult: "w AND NOT 0xFFF = 4096 * drop_bit 12 (w :: u64)"
proof -
  have "w AND NOT 0xFFF = push_bit 12 (drop_bit 12 w)"
  proof (rule bit_word_eqI)
    fix n
    assume "n < LENGTH(64)"
    moreover have "(0xFFF :: u64) = mask 12" by (simp add: mask_eq_decr_exp)
    ultimately show "bit (w AND NOT 0xFFF) n = bit (push_bit 12 (drop_bit 12 w)) n"
      by (auto simp only: bit_and_iff bit_not_iff bit_mask_iff bit_push_bit_iff bit_drop_bit_eq
          possible_bit_word comp_def le_add_diff_inverse)
  qed
  then show ?thesis by (simp add: push_bit_eq_mult mult.commute)
qed

lemma page_diff_mult: "page_diff s d = 4096 * (drop_bit 12 d - drop_bit 12 s)"
  unfolding page_diff_def page_eq_mult by (simp add: algebra_simps)

lemma page_diff_low: "uint (ucast (page_diff s d) :: u32) mod 4096 = 0"
proof -
  have "uint (ucast (page_diff s d) :: u32) mod 4096 = uint (page_diff s d) mod 4096"
    by (simp add: unsigned_ucast_eq take_bit_eq_mod mod_mod_cancel)
  also have "\<dots> = 0"
    unfolding page_diff_mult uint_mult_lem uint_word_ariths(3) by (simp add: mod_mod_cancel)
  finally show ?thesis .
qed

definition adrl_result :: "u64 \<Rightarrow> u64 \<Rightarrow> u64" where
  "adrl_result source destination =
     (let diff = GetDifference source destination;
          page = ucast (m_Page diff) :: u32; off = ucast (m_Offset diff) :: u32
      in adrp_result source (ucast (drop_bit 12 page)) (ucast (drop_bit 14 page))
           + addsub_operand (CalcSh off) (ucast (CalcImm off)))"

lemma adrl_result_eq:
  "adrl_result s d = d - (page_diff s d - take_bit 32 (page_diff s d))"
proof -
  let ?u = "ucast (page_diff s d) :: u32"
  have "4096 * (uint ?u div 4096) = uint ?u"
    using page_diff_low [of s d] by (metis add.right_neutral mult_div_mod_eq)
  then have a: "adrp_result s (ucast (drop_bit 12 ?u)) (ucast (drop_bit 14 ?u)) =
      (s AND NOT 0xFFF) + of_int (uint ?u)"
    by (simp only: adrp_result_def pcrel_imm_adrp)
  have b: "(of_int (uint ?u) :: u64) = take_bit 32 (page_diff s d)"
    by (rule bit_word_eqI) (auto simp: bit_simps)
  have c: "addsub_operand (CalcSh (ucast (d AND 0xFFF))) (ucast (CalcImm (ucast (d AND 0xFFF)))) = d AND 0xFFF"
  proof -
    have "(ucast (ucast (d AND 0xFFF) :: u32) :: u64) = d AND 0xFFF"
      unfolding and_FFF by (rule bit_word_eqI) (auto simp: bit_simps)
    then show ?thesis
      using addsub_operand_correct [of "ucast (d AND 0xFFF)"] offset_encodable [of d] by simp
  qed
  have e: "(s AND NOT 0xFFF) = d - (d AND 0xFFF) - page_diff s d"
    using page_plus_offset [of d] by (simp add: page_diff_def algebra_simps)
  show ?thesis
    unfolding adrl_result_def Let_def GetDifference_eq a b c e by (simp add: algebra_simps)
qed

lemma adrl_result_correct_iff: "adrl_result s d = d \<longleftrightarrow> page_diff s d < 2 ^ 32"
proof -
  have "adrl_result s d = d \<longleftrightarrow> take_bit 32 (page_diff s d) = page_diff s d"
    unfolding adrl_result_eq by auto
  also have "\<dots> \<longleftrightarrow> page_diff s d < 2 ^ 32"
  proof -
    have "page_diff s d < 2 ^ 32 \<longleftrightarrow> (\<forall>n. 32 \<le> n \<longrightarrow> \<not> bit (page_diff s d) n)"
      by (rule less_two_power_bits) simp
    then show ?thesis by (simp only: take_bit_self_bits)
  qed
  finally show ?thesis .
qed

section \<open>Wide moves\<close>

lemma movz_movk_32:
  "movk_result (movz_result (ucast (shift_value ShiftValue_0)) lo)
     (ucast (shift_value ShiftValue_32)) hi = push_bit 32 (ucast hi) OR ucast lo"
  by (rule bit_word_eqI)
    (auto simp: movk_result_def movz_result_def bit_simps dest: bit_imp_le_length)

lemma movz_16: "movz_result (ucast (shift_value ShiftValue_16)) hi = push_bit 16 (ucast hi)"
  by (simp add: movz_result_def)

section \<open>Properties\<close>


text \<open>
  the immediate that \<open>AddImmediate\<close> and \<open>SubImmediate\<close> encode is the immediate
  they were asked for exactly when it fits in 12 bits, or in 24 bits with the low
  12 clear; every other immediate is silently truncated to a different value.
\<close>

lemma add_sub_immediate_exact_iff:
  "\<exists>sh imm12.
     a64_decode (AddImmediate rd rn imm) =
       Some (AddSubImm (Is64 rd) False False sh imm12 (rnum rn) (rnum rd)) \<and>
     a64_decode (SubImmediate rd rn imm) =
       Some (AddSubImm (Is64 rd) True False sh imm12 (rnum rn) (rnum rd)) \<and>
     (addsub_operand sh imm12 = ucast imm \<longleftrightarrow> imm < 2 ^ 12 \<or> (imm AND 0xFFF = 0 \<and> imm < 2 ^ 24))"
  using addsub_operand_correct [of imm]
  by (auto simp: decode_AddImmediate decode_SubImmediate addsub_encodable_def)

end
