(* ===== verification/Patcher.thy ===== *)
theory Patcher
  imports Armv8_Operands
begin

text \<open>
  The code patchers of \<open>source/lib/patch\<close>.  The game image is mapped twice, read
  only at \<open>m_Ro\<close> and writable at \<open>m_Rw\<close>; both views name the same bytes, so the
  store is indexed by the offset into the image and every access through the
  writable view goes through \<open>RwFromAddr\<close>.  Cache maintenance
  (\<open>armDCacheFlush\<close>, \<open>armICacheInvalidate\<close>) is recorded as a log of ranges.
\<close>

section \<open>Pages and byte store\<close>

record Pages =
  m_Ro :: u64
  m_Rw :: u64

type_synonym store = "u64 \<Rightarrow> u8"

definition AddrFromRo :: "Pages \<Rightarrow> u64 \<Rightarrow> u64" where
  "AddrFromRo p ro = ro - m_Ro p"

definition AddrFromRw :: "Pages \<Rightarrow> u64 \<Rightarrow> u64" where
  "AddrFromRw p rw = rw - m_Rw p"

definition RoFromAddr :: "Pages \<Rightarrow> u64 \<Rightarrow> u64" where
  "RoFromAddr p addr = m_Ro p + addr"

definition RwFromAddr :: "Pages \<Rightarrow> u64 \<Rightarrow> u64" where
  "RwFromAddr p addr = m_Rw p + addr"

text \<open>\<open>At<T>(offset) = value\<close>: the object representation is stored at the writable view.\<close>

fun store_bytes :: "store \<Rightarrow> u64 \<Rightarrow> u8 list \<Rightarrow> store" where
  "store_bytes m a [] = m"
| "store_bytes m a (b # bs) = store_bytes (m(a := b)) (a + 1) bs"

definition At_store :: "Pages \<Rightarrow> store \<Rightarrow> u64 \<Rightarrow> u8 list \<Rightarrow> store" where
  "At_store p m offset bs = store_bytes m (AddrFromRw p (RwFromAddr p offset)) bs"

definition u32_bytes :: "u32 \<Rightarrow> u8 list" where
  "u32_bytes w = [ucast w, ucast (drop_bit 8 w), ucast (drop_bit 16 w), ucast (drop_bit 24 w)]"

definition load_u32 :: "store \<Rightarrow> u64 \<Rightarrow> u32" where
  "load_u32 m a =
     ucast (m a) OR push_bit 8 (ucast (m (a + 1))) OR push_bit 16 (ucast (m (a + 2)))
       OR push_bit 24 (ucast (m (a + 3)))"

text \<open>One cache maintenance range: writable address, read-only address, length.\<close>

type_synonym flush = "u64 \<times> u64 \<times> u64"

section \<open>The stream patcher\<close>

record StreamPatcher =
  s_Start :: u64
  s_Current :: u64
  s_mem :: store
  s_flushes :: "flush list"

definition mk_StreamPatcher :: "store \<Rightarrow> u64 \<Rightarrow> StreamPatcher" where
  "mk_StreamPatcher m start = \<lparr>s_Start = start, s_Current = start, s_mem = m, s_flushes = []\<rparr>"

definition Stream_DoneNothing :: "StreamPatcher \<Rightarrow> bool" where
  "Stream_DoneNothing s \<longleftrightarrow> s_Start s = s_Current s"

definition Stream_Flush :: "Pages \<Rightarrow> StreamPatcher \<Rightarrow> StreamPatcher" where
  "Stream_Flush p s =
     (if Stream_DoneNothing s then s
      else let ro = RoFromAddr p (s_Start s);
               rw = RwFromAddr p (s_Start s);
               sz = s_Current s - s_Start s
           in s\<lparr>s_flushes := s_flushes s @ [(rw, ro, sz)], s_Start := s_Start s + sz\<rparr>)"

definition RelativeAddressFromBase :: "StreamPatcher \<Rightarrow> u64 \<Rightarrow> u64" where
  "RelativeAddressFromBase s address = address - s_Current s"

definition RelativeAddressFromPointer :: "Pages \<Rightarrow> StreamPatcher \<Rightarrow> u64 \<Rightarrow> u64" where
  "RelativeAddressFromPointer p s ptr = AddrFromRo p ptr - s_Current s"

definition Stream_Write :: "Pages \<Rightarrow> u8 list \<Rightarrow> StreamPatcher \<Rightarrow> StreamPatcher" where
  "Stream_Write p bs s =
     s\<lparr>s_mem := At_store p (s_mem s) (s_Current s) bs,
       s_Current := s_Current s + of_nat (length bs)\<rparr>"

definition Stream_SeekRel :: "Pages \<Rightarrow> u64 \<Rightarrow> StreamPatcher \<Rightarrow> StreamPatcher" where
  "Stream_SeekRel p address s =
     (if address = 0 then s
      else let address = address + s_Current s;
               s = Stream_Flush p s
           in s\<lparr>s_Start := address, s_Current := address\<rparr>)"

definition Stream_Seek :: "Pages \<Rightarrow> u64 \<Rightarrow> StreamPatcher \<Rightarrow> StreamPatcher" where
  "Stream_Seek p address s = Stream_SeekRel p (RelativeAddressFromBase s address) s"

definition Stream_SeekPtr :: "Pages \<Rightarrow> u64 \<Rightarrow> StreamPatcher \<Rightarrow> StreamPatcher" where
  "Stream_SeekPtr p ptr s = Stream_SeekRel p (RelativeAddressFromPointer p s ptr) s"

text \<open>The destructor.\<close>

definition Stream_Destroy :: "Pages \<Rightarrow> StreamPatcher \<Rightarrow> StreamPatcher" where
  "Stream_Destroy p s = Stream_Flush p s"

section \<open>The code patcher\<close>

definition WriteInst :: "Pages \<Rightarrow> u32 \<Rightarrow> StreamPatcher \<Rightarrow> StreamPatcher" where
  "WriteInst p inst s = Stream_Write p (u32_bytes inst) s"

definition BranchInstRel :: "Pages \<Rightarrow> u64 \<Rightarrow> StreamPatcher \<Rightarrow> StreamPatcher" where
  "BranchInstRel p address s = WriteInst p (Branch (ucast address)) s"

definition BranchLinkInstRel :: "Pages \<Rightarrow> u64 \<Rightarrow> StreamPatcher \<Rightarrow> StreamPatcher" where
  "BranchLinkInstRel p address s = WriteInst p (BranchLink (ucast address)) s"

definition BranchInst :: "Pages \<Rightarrow> u64 \<Rightarrow> StreamPatcher \<Rightarrow> StreamPatcher" where
  "BranchInst p address s = BranchInstRel p (RelativeAddressFromBase s address) s"

definition BranchLinkInst :: "Pages \<Rightarrow> u64 \<Rightarrow> StreamPatcher \<Rightarrow> StreamPatcher" where
  "BranchLinkInst p address s = BranchLinkInstRel p (RelativeAddressFromBase s address) s"

definition BranchInstPtr :: "Pages \<Rightarrow> u64 \<Rightarrow> StreamPatcher \<Rightarrow> StreamPatcher" where
  "BranchInstPtr p ptr s = BranchInstRel p (RelativeAddressFromPointer p s ptr) s"

definition BranchLinkInstPtr :: "Pages \<Rightarrow> u64 \<Rightarrow> StreamPatcher \<Rightarrow> StreamPatcher" where
  "BranchLinkInstPtr p ptr s = BranchLinkInstRel p (RelativeAddressFromPointer p s ptr) s"

section \<open>The random access patcher\<close>

definition UINTPTR_MAX :: u64 where "UINTPTR_MAX = - 1"

record RandomAccessPatcher =
  m_Lowest :: u64
  m_Highest :: u64
  r_mem :: store
  r_flushes :: "flush list"

definition mk_RandomAccessPatcher :: "store \<Rightarrow> RandomAccessPatcher" where
  "mk_RandomAccessPatcher m =
     \<lparr>m_Lowest = UINTPTR_MAX, m_Highest = UINTPTR_MAX, r_mem = m, r_flushes = []\<rparr>"

definition IsUnset :: "RandomAccessPatcher \<Rightarrow> bool" where
  "IsUnset r \<longleftrightarrow> m_Lowest r = UINTPTR_MAX \<or> m_Highest r = UINTPTR_MAX"

definition SetLowest :: "u64 \<Rightarrow> RandomAccessPatcher \<Rightarrow> RandomAccessPatcher" where
  "SetLowest addr r =
     (if IsUnset r then r\<lparr>m_Lowest := addr\<rparr> else r\<lparr>m_Lowest := min (m_Lowest r) addr\<rparr>)"

definition SetHighest :: "u64 \<Rightarrow> RandomAccessPatcher \<Rightarrow> RandomAccessPatcher" where
  "SetHighest addr r =
     (if IsUnset r then r\<lparr>m_Highest := addr\<rparr> else r\<lparr>m_Highest := max (m_Highest r) addr\<rparr>)"

definition Random_Write :: "Pages \<Rightarrow> u64 \<Rightarrow> u8 list \<Rightarrow> RandomAccessPatcher \<Rightarrow> RandomAccessPatcher" where
  "Random_Write p addr bs r =
     (let r = SetLowest addr r;
          r = SetHighest (addr + of_nat (length bs)) r
      in r\<lparr>r_mem := At_store p (r_mem r) addr bs\<rparr>)"

text \<open>\<open>Patch<T>(addr, args...)\<close> for an instruction \<open>T\<close>.\<close>

definition PatchInst :: "Pages \<Rightarrow> u64 \<Rightarrow> u32 \<Rightarrow> RandomAccessPatcher \<Rightarrow> RandomAccessPatcher" where
  "PatchInst p addr inst r = Random_Write p addr (u32_bytes inst) r"

definition Random_Flush :: "Pages \<Rightarrow> RandomAccessPatcher \<Rightarrow> RandomAccessPatcher" where
  "Random_Flush p r =
     (if IsUnset r then r
      else let ro = RoFromAddr p (m_Lowest r);
               rw = RwFromAddr p (m_Lowest r);
               sz = m_Highest r - m_Lowest r
           in r\<lparr>r_flushes := r_flushes r @ [(rw, ro, sz)]\<rparr>)"

definition Random_Destroy :: "Pages \<Rightarrow> RandomAccessPatcher \<Rightarrow> RandomAccessPatcher" where
  "Random_Destroy p r = Random_Flush p r"

section \<open>Stored instructions read back\<close>

lemma store_bytes_other:
  "length bs \<le> unat (x - a) \<Longrightarrow> store_bytes m a bs x = m x"
proof (induction bs arbitrary: m a)
  case (Cons b bs)
  then have ne: "x - a \<noteq> 0" by auto
  then have "unat (x - (a + 1)) = unat (x - a) - 1"
    using unat_minus_one [OF ne] by (simp add: diff_diff_eq)
  with Cons ne show ?case by auto
qed simp

lemma store_bytes_change:
  "store_bytes m a bs x \<noteq> m x \<Longrightarrow> unat (x - a) < length bs"
  using store_bytes_other [of bs x a m] by (meson not_le)

lemma At_store_eq: "At_store p m a bs = store_bytes m a bs"
  by (simp add: At_store_def AddrFromRw_def RwFromAddr_def)

lemma At_store_change:
  "At_store p m a bs x \<noteq> m x \<Longrightarrow> unat (x - a) < length bs"
  unfolding At_store_eq by (rule store_bytes_change)

lemma load_u32_stored: "load_u32 (store_bytes m a (u32_bytes w)) a = w"
  by (rule u32_eq_by_bits) (simp_all add: load_u32_def u32_bytes_def bit_simps add.assoc)

lemma length_u32_bytes [simp]: "length (u32_bytes w) = 4"
  by (simp add: u32_bytes_def)

lemma unat_of_nat_u64: "n < 2 ^ 64 \<Longrightarrow> unat (of_nat n :: u64) = n"
  by (simp add: unat_of_nat take_bit_nat_eq_self)

section \<open>Cache maintenance covers every write\<close>

text \<open>
  The operations of a client of the stream patcher, and the whole life of a
  patcher: construction, operations, destructor.
\<close>

datatype stream_op = Op_Write "u8 list" | Op_SeekRel u64 | Op_Flush

fun stream_step :: "Pages \<Rightarrow> stream_op \<Rightarrow> StreamPatcher \<Rightarrow> StreamPatcher" where
  "stream_step p (Op_Write bs) s = Stream_Write p bs s"
| "stream_step p (Op_SeekRel d) s = Stream_SeekRel p d s"
| "stream_step p Op_Flush s = Stream_Flush p s"

definition stream_life :: "Pages \<Rightarrow> store \<Rightarrow> u64 \<Rightarrow> stream_op list \<Rightarrow> StreamPatcher" where
  "stream_life p m start ops = Stream_Destroy p (fold (stream_step p) ops (mk_StreamPatcher m start))"

fun op_bytes :: "stream_op \<Rightarrow> nat" where
  "op_bytes (Op_Write bs) = length bs"
| "op_bytes _ = 0"

text \<open>A maintenance range covers an offset when both views of the offset lie in it.\<close>

definition covers :: "Pages \<Rightarrow> u64 \<Rightarrow> flush \<Rightarrow> bool" where
  "covers p a f = (case f of (rw, ro, sz) \<Rightarrow> RwFromAddr p a - rw < sz \<and> RoFromAddr p a - ro < sz)"

definition covered :: "Pages \<Rightarrow> flush list \<Rightarrow> u64 \<Rightarrow> bool" where
  "covered p fs a = list_ex (covers p a) fs"

lemma covered_append [simp]: "covered p (xs @ ys) a \<longleftrightarrow> covered p xs a \<or> covered p ys a"
  by (simp add: covered_def)

lemma covered_single [simp]:
  "covered p [(RwFromAddr p b, RoFromAddr p b, sz)] a \<longleftrightarrow> a - b < sz"
  by (simp add: covered_def covers_def RwFromAddr_def RoFromAddr_def)

definition stream_inv :: "Pages \<Rightarrow> store \<Rightarrow> nat \<Rightarrow> StreamPatcher \<Rightarrow> bool" where
  "stream_inv p m0 n s \<longleftrightarrow>
     unat (s_Current s - s_Start s) \<le> n \<and>
     (\<forall>a. s_mem s a \<noteq> m0 a \<longrightarrow>
        covered p (s_flushes s) a \<or> a - s_Start s < s_Current s - s_Start s)"

lemma stream_inv_init: "stream_inv p m 0 (mk_StreamPatcher m start)"
  by (simp add: stream_inv_def mk_StreamPatcher_def)

lemma stream_inv_flush:
  assumes "stream_inv p m0 n s"
  shows "stream_inv p m0 n (Stream_Flush p s) \<and>
         s_Start (Stream_Flush p s) = s_Current (Stream_Flush p s) \<and>
         (\<forall>a. s_mem s a \<noteq> m0 a \<longrightarrow> covered p (s_flushes (Stream_Flush p s)) a) \<and>
         s_mem (Stream_Flush p s) = s_mem s"
  using assms by (auto simp: stream_inv_def Stream_Flush_def Stream_DoneNothing_def Let_def)

lemma unat_diff_step:
  fixes x c st :: u64
  assumes "unat (x - c) < k" "unat (c - st) + k < 2 ^ 64"
  shows "x - st < c + of_nat k - st"
proof -
  have x: "x - st = (x - c) + (c - st)" and c: "c + of_nat k - st = of_nat k + (c - st)"
    by simp_all
  have k: "unat (of_nat k :: u64) = k"
    using assms(2) by (intro unat_of_nat_u64) simp
  have "unat ((x - c) + (c - st)) = unat (x - c) + unat (c - st)"
    using assms by (subst unat_add_lem [symmetric]) simp
  moreover have "unat (of_nat k + (c - st)) = k + unat (c - st)"
    using assms(2) k by (subst unat_add_lem [THEN iffD1]) simp_all
  ultimately show ?thesis
    using assms(1) unfolding x c word_less_nat_alt by simp
qed

lemma stream_inv_write:
  assumes inv: "stream_inv p m0 n s" and b: "n + length bs < 2 ^ 64"
  shows "stream_inv p m0 (n + length bs) (Stream_Write p bs s)"
proof -
  let ?d = "s_Current s - s_Start s"
  have k: "unat (of_nat (length bs) :: u64) = length bs"
    using b by (intro unat_of_nat_u64) simp
  have d: "unat ?d + length bs < 2 ^ 64" and dn: "unat ?d \<le> n"
    using inv b by (auto simp: stream_inv_def)
  have e: "s_Current s + of_nat (length bs) - s_Start s = ?d + of_nat (length bs)" by simp
  have sz: "unat (?d + of_nat (length bs)) = unat ?d + length bs"
    using d k by (subst unat_add_lem [THEN iffD1]) simp_all
  have grow: "a - s_Start s < s_Current s + of_nat (length bs) - s_Start s"
    if "a - s_Start s < ?d" for a
    using that sz unfolding e word_less_nat_alt by simp
  have new: "a - s_Start s < s_Current s + of_nat (length bs) - s_Start s"
    if "At_store p (s_mem s) (s_Current s) bs a \<noteq> s_mem s a" for a
    using At_store_change [OF that] d by (rule unat_diff_step)
  have mem: "covered p (s_flushes s) a \<or>
      a - s_Start s < s_Current s + of_nat (length bs) - s_Start s"
    if ch: "At_store p (s_mem s) (s_Current s) bs a \<noteq> m0 a" for a
  proof (cases "At_store p (s_mem s) (s_Current s) bs a = s_mem s a")
    case True
    with ch inv grow [of a] show ?thesis by (auto simp: stream_inv_def)
  next
    case False
    then show ?thesis using new [of a] by blast
  qed
  show ?thesis
    using mem dn sz unfolding stream_inv_def Stream_Write_def by (simp add: e)
qed

lemma stream_inv_seek:
  assumes "stream_inv p m0 n s"
  shows "stream_inv p m0 n (Stream_SeekRel p d s)"
  using assms stream_inv_flush [OF assms]
  by (auto simp: Stream_SeekRel_def stream_inv_def Let_def)

lemma stream_inv_fold:
  assumes "stream_inv p m0 n s" "n + sum_list (map op_bytes ops) < 2 ^ 64"
  shows "stream_inv p m0 (n + sum_list (map op_bytes ops)) (fold (stream_step p) ops s)"
  using assms
proof (induction ops arbitrary: n s)
  case (Cons x ops)
  have "stream_inv p m0 (n + op_bytes x) (stream_step p x s)"
    using Cons.prems
    by (cases x) (auto intro: stream_inv_write stream_inv_seek simp: stream_inv_flush)
  then show ?case
    using Cons.IH [of "n + op_bytes x"] Cons.prems by (simp add: add.assoc)
qed simp

lemma stream_life_covered:
  assumes "sum_list (map op_bytes ops) < 2 ^ 64"
    and "s_mem (stream_life p m start ops) a \<noteq> m a"
  shows "covered p (s_flushes (stream_life p m start ops)) a"
  using stream_inv_flush [OF stream_inv_fold [OF stream_inv_init [of p m start]]] assms
  by (auto simp: stream_life_def Stream_Destroy_def)

text \<open>The random access patcher keeps one range, the hull of all its writes.\<close>

definition random_run :: "Pages \<Rightarrow> store \<Rightarrow> (u64 \<times> u8 list) list \<Rightarrow> RandomAccessPatcher" where
  "random_run p m ws = fold (\<lambda>(addr, bs). Random_Write p addr bs) ws (mk_RandomAccessPatcher m)"

definition random_inv :: "store \<Rightarrow> RandomAccessPatcher \<Rightarrow> bool" where
  "random_inv m0 r \<longleftrightarrow>
     (IsUnset r \<longrightarrow> r_mem r = m0 \<and> m_Lowest r = UINTPTR_MAX \<and> m_Highest r = UINTPTR_MAX) \<and>
     (\<forall>a. r_mem r a \<noteq> m0 a \<longrightarrow> m_Lowest r \<le> a \<and> a < m_Highest r)"

lemma in_written:
  fixes addr :: u64
  assumes "unat (a - addr) < k" "unat addr + k < 2 ^ 64"
  shows "addr \<le> a \<and> a < addr + of_nat k"
proof -
  have "unat (of_nat k :: u64) = k"
    using assms(2) by (intro unat_of_nat_u64) simp
  then have hi: "unat (addr + of_nat k) = unat addr + k"
    using assms(2) by (subst unat_add_lem [THEN iffD1]) simp_all
  have "unat (addr + (a - addr)) = unat addr + unat (a - addr)"
    using assms by (subst unat_add_lem [THEN iffD1]) simp_all
  then have "unat a = unat addr + unat (a - addr)" by simp
  then show ?thesis
    using assms(1) hi by (simp add: word_le_nat_alt word_less_nat_alt)
qed

lemma random_inv_write:
  assumes inv: "random_inv m0 r" and b: "unat addr + length bs < 2 ^ 64 - 1"
  shows "random_inv m0 (Random_Write p addr bs r) \<and> \<not> IsUnset (Random_Write p addr bs r)"
proof -
  let ?h = "addr + of_nat (length bs) :: u64"
  have k: "unat (of_nat (length bs) :: u64) = length bs"
    using b by (intro unat_of_nat_u64) simp
  have h: "unat ?h = unat addr + length bs"
    using b k by (subst unat_add_lem [THEN iffD1]) simp_all
  have ne: "?h \<noteq> UINTPTR_MAX" "addr \<noteq> UINTPTR_MAX"
    using b h
    by (auto simp: UINTPTR_MAX_def word_unat_eq_iff unsigned_minus_1_eq_mask mask_eq_exp_minus_1)
  have new: "addr \<le> a \<and> a < ?h" if "At_store p (r_mem r) addr bs a \<noteq> r_mem r a" for a
    using At_store_change [OF that] b by (intro in_written) simp_all
  show ?thesis
  proof (cases "IsUnset r")
    case True
    then show ?thesis
      using inv ne new
      by (auto simp: random_inv_def Random_Write_def SetLowest_def SetHighest_def IsUnset_def Let_def)
  next
    case False
    have "min (m_Lowest r) addr \<le> a \<and> a < max (m_Highest r) ?h"
      if "At_store p (r_mem r) addr bs a \<noteq> m0 a" for a
      using that new [of a] inv by (cases "At_store p (r_mem r) addr bs a = r_mem r a")
        (auto simp: random_inv_def min_le_iff_disj less_max_iff_disj)
    then show ?thesis
      using False ne
      by (auto simp: random_inv_def Random_Write_def SetLowest_def SetHighest_def IsUnset_def Let_def
          min_def max_def)
  qed
qed

lemma random_inv_run:
  assumes "\<And>addr bs. (addr, bs) \<in> set ws \<Longrightarrow> unat addr + length bs < 2 ^ 64 - 1"
  shows "random_inv m (random_run p m ws)"
proof -
  have "random_inv m (fold (\<lambda>(addr, bs). Random_Write p addr bs) ws r)" if "random_inv m r" for r
    using that assms
  proof (induction ws arbitrary: r)
    case (Cons w ws)
    then show ?case
      using random_inv_write [of m r "fst w" "snd w" p] by (cases w) auto
  qed simp
  moreover have "random_inv m (mk_RandomAccessPatcher m)"
    by (simp add: random_inv_def mk_RandomAccessPatcher_def)
  ultimately show ?thesis by (simp add: random_run_def)
qed

lemma random_destroy_covered:
  assumes "random_inv m r" "r_mem r a \<noteq> m a"
  shows "covered p (r_flushes (Random_Destroy p r)) a"
proof -
  have "a - m_Lowest r < m_Highest r - m_Lowest r"
    using assms
    by (auto simp: random_inv_def word_less_nat_alt word_le_nat_alt unat_sub_if')
  then show ?thesis
    using assms by (auto simp: Random_Destroy_def Random_Flush_def random_inv_def Let_def)
qed

section \<open>Branches written into the image\<close>

lemma WriteInst_reads:
  "load_u32 (s_mem (WriteInst p inst s)) (s_Current s) = inst"
  by (simp add: WriteInst_def Stream_Write_def At_store_eq load_u32_stored)

lemma narrow_displacement:
  fixes d :: s64
  assumes "- (2 ^ 31) \<le> sint d" "sint d < 2 ^ 31"
  shows "sint (ucast d :: s32) = sint d" "scast (ucast d :: s32) = d"
proof -
  have "(ucast d :: s32) = word_of_int (sint d)"
    by (rule bit_word_eqI) (auto simp: bit_simps min_def)
  then have "sint (ucast d :: s32) = signed_take_bit 31 (sint d)"
    by (simp only: sint_sbintrunc') simp
  then show s: "sint (ucast d :: s32) = sint d"
    using signed_take_bit_small [of 31 "sint d"] assms by simp
  show "scast (ucast d :: s32) = d"
    unfolding scast_eq s by simp
qed

lemma BranchRel_written:
  assumes "sint d mod 4 = 0" "- (2 ^ 27) \<le> sint d" "sint d < 2 ^ 27"
  shows "\<exists>imm26. a64_decode (load_u32 (s_mem (BranchInstRel p d s)) (s_Current s)) =
                   Some (BrImm False imm26) \<and> br_target pc imm26 = pc + d"
    and "\<exists>imm26. a64_decode (load_u32 (s_mem (BranchLinkInstRel p d s)) (s_Current s)) =
                   Some (BrImm True imm26) \<and> br_target pc imm26 = pc + d"
  using Branch_reaches [of "ucast d" pc] BranchLink_reaches [of "ucast d" pc]
    narrow_displacement [of d] assms
  by (simp_all add: BranchInstRel_def BranchLinkInstRel_def WriteInst_reads)

section \<open>Properties\<close>

text \<open>
  C1: whatever sequence of writes, seeks and flushes a client performs, once the
  stream patcher is destroyed every byte of the image it changed lies in a range
  that was cleaned from the data cache (through the writable view) and invalidated
  in the instruction cache (through the read-only view), so no stale code runs.
\<close>

theorem stream_patcher_coherent:
  assumes "sum_list (map op_bytes ops) < 2 ^ 64"
    and "s_mem (stream_life p m start ops) a \<noteq> m a"
  shows "\<exists>(rw, ro, sz) \<in> set (s_flushes (stream_life p m start ops)).
           RwFromAddr p a - rw < sz \<and> RoFromAddr p a - ro < sz"
  using stream_life_covered [OF assms]
  by (auto simp: covered_def covers_def list_ex_iff split: prod.splits)

theorem stream_patcher_coherent_witness:
  "\<exists>(rw, ro, sz) \<in> set (s_flushes (stream_life \<lparr>m_Ro = 0x8000000, m_Rw = 0x50000000\<rparr>
       (\<lambda>_. 0) 0x100 [Op_Write [1, 2, 3, 4], Op_SeekRel 0x10, Op_Write [5]])).
     RwFromAddr \<lparr>m_Ro = 0x8000000, m_Rw = 0x50000000\<rparr> 0x114 - rw < sz \<and>
     RoFromAddr \<lparr>m_Ro = 0x8000000, m_Rw = 0x50000000\<rparr> 0x114 - ro < sz"
proof -
  have "s_mem (stream_life \<lparr>m_Ro = 0x8000000, m_Rw = 0x50000000\<rparr> (\<lambda>_. 0) 0x100
      [Op_Write [1, 2, 3, 4], Op_SeekRel 0x10, Op_Write [5]]) 0x114 \<noteq> 0"
    by code_simp
  then show ?thesis
    using stream_patcher_coherent [where
        ops = "[Op_Write [1, 2, 3, 4], Op_SeekRel 0x10, Op_Write [5]]" and
        p = "\<lparr>m_Ro = 0x8000000, m_Rw = 0x50000000\<rparr>" and m = "\<lambda>_. 0" and
        start = "0x100" and a = "0x114"] by simp
qed

text \<open>
  the random access patcher flushes one range, from the lowest address written
  to the end of the highest write.  As long as no write ends at the top of the
  address space (where the bounds' unset marker lives), every byte it changed lies
  in that range when it is destroyed.
\<close>

lemma random_patcher_coherent:
  assumes "list_all (\<lambda>(addr, bs). unat addr + length bs < 2 ^ 64 - 1) ws"
    and "r_mem (random_run p m ws) a \<noteq> m a"
  shows "\<exists>(rw, ro, sz) \<in> set (r_flushes (Random_Destroy p (random_run p m ws))).
           RwFromAddr p a - rw < sz \<and> RoFromAddr p a - ro < sz"
proof -
  have "random_inv m (random_run p m ws)"
    using assms(1) by (intro random_inv_run) (auto simp: list_all_iff)
  from random_destroy_covered [OF this assms(2)] show ?thesis
    by (auto simp: covered_def covers_def list_ex_iff split: prod.splits)
qed

text \<open>
  a branch or branch-with-link that the code patcher writes, to an absolute
  pointer or to an offset of the image, decodes at the place it was written to a
  branch whose target is that pointer, for every word-aligned target within
  128 MiB of the instruction.
\<close>

lemma code_patcher_branches_reach:
  assumes "sint (dest - RoFromAddr p (s_Current s)) mod 4 = 0"
    and "- (2 ^ 27) \<le> sint (dest - RoFromAddr p (s_Current s))"
    and "sint (dest - RoFromAddr p (s_Current s)) < 2 ^ 27"
  shows "\<exists>imm b_imm.
    a64_decode (load_u32 (s_mem (BranchInstPtr p dest s)) (s_Current s)) = Some (BrImm False imm) \<and>
    a64_decode (load_u32 (s_mem (BranchLinkInstPtr p dest s)) (s_Current s)) = Some (BrImm True imm) \<and>
    a64_decode (load_u32 (s_mem (BranchInst p (AddrFromRo p dest) s)) (s_Current s)) = Some (BrImm False b_imm) \<and>
    a64_decode (load_u32 (s_mem (BranchLinkInst p (AddrFromRo p dest) s)) (s_Current s)) = Some (BrImm True b_imm) \<and>
    br_target (RoFromAddr p (s_Current s)) imm = dest \<and>
    br_target (RoFromAddr p (s_Current s)) b_imm = dest"
proof -
  have d: "RelativeAddressFromPointer p s dest = dest - RoFromAddr p (s_Current s)"
    "RelativeAddressFromBase s (AddrFromRo p dest) = dest - RoFromAddr p (s_Current s)"
    by (simp_all add: RelativeAddressFromPointer_def RelativeAddressFromBase_def AddrFromRo_def
        RoFromAddr_def)
  show ?thesis
    using BranchRel_written [OF assms, of p s "RoFromAddr p (s_Current s)"]
    by (auto simp: BranchInstPtr_def BranchLinkInstPtr_def BranchInst_def BranchLinkInst_def d
        BranchInstRel_def BranchLinkInstRel_def WriteInst_reads decode_Branch decode_BranchLink)
qed

end
