(* ===== verification/Hook_Relocate.thy ===== *)
theory Hook_Relocate
  imports Patcher
begin

text \<open>
  The instruction relocator of the inline hooks,
  \<open>source/lib/hook/nx64/hook_impl.cpp\<close>: the words at the head of a hooked function
  are copied to a trampoline, and every PC-relative instruction among them is
  rewritten so that it still means the address it meant in its old place.
  Memory is word-granular and physical; \<open>ph\<close> is the address translation the two
  views (\<open>rw\<close> writable, \<open>rx\<close> executable) of the hook pools go through.
\<close>

section \<open>Memory\<close>

type_synonym wmem = "u64 \<Rightarrow> u32"
type_synonym view = "u64 \<Rightarrow> u64"

definition rd :: "view \<Rightarrow> wmem \<Rightarrow> u64 \<Rightarrow> u32" where
  "rd ph m a = m (ph a)"

definition wr :: "view \<Rightarrow> u64 \<Rightarrow> u32 \<Rightarrow> wmem \<Rightarrow> wmem" where
  "wr ph a w m = m(ph a := w)"

section \<open>The fixing context\<close>

definition MaxInstructions :: nat where "MaxInstructions = 5"
definition TrampolineSize :: nat where "TrampolineSize = MaxInstructions * 10"
definition MaxReferences :: nat where "MaxReferences = MaxInstructions * 2"
definition Aarch64Nop :: u32 where "Aarch64Nop = 0xd503201f"

record fix_info =
  bprx :: u64
  bprw :: u64
  ls :: nat
  ad :: u32

record insns_info =
  insu :: u64
  fmap :: "fix_info list"

record fixctx =
  basep :: s64
  endp :: s64
  dat :: "insns_info list"

text \<open>The five in/out parameters of every fixer, and memory.\<close>

record fixst =
  inprw :: u64
  inprx :: u64
  outprw :: u64
  outprx :: u64
  ctx :: fixctx
  fmem :: wmem

definition is_in_fixing_range :: "fixctx \<Rightarrow> s64 \<Rightarrow> bool" where
  "is_in_fixing_range c absolute_addr \<longleftrightarrow>
     sint (basep c) \<le> sint absolute_addr \<and> sint absolute_addr < sint (endp c)"

definition get_ref_ins_index :: "fixctx \<Rightarrow> s64 \<Rightarrow> nat" where
  "get_ref_ins_index c absolute_addr = unat ((absolute_addr - basep c) div 4)"

definition reset_current_ins :: "nat \<Rightarrow> u64 \<Rightarrow> fixst \<Rightarrow> fixst" where
  "reset_current_ins idx outp s =
     s\<lparr>ctx := (ctx s)\<lparr>dat := (dat (ctx s))[idx := (dat (ctx s) ! idx)\<lparr>insu := outp\<rparr>]\<rparr>\<rparr>"

definition get_and_set_current_index :: "u64 \<Rightarrow> u64 \<Rightarrow> fixst \<Rightarrow> nat \<times> fixst" where
  "get_and_set_current_index inp outp s =
     (let current_idx = get_ref_ins_index (ctx s) inp
      in (current_idx, reset_current_ins current_idx outp s))"

text \<open>The first free slot of a fix list; with none free the reference is lost.\<close>

fun insert_first_free :: "fix_info \<Rightarrow> fix_info list \<Rightarrow> fix_info list" where
  "insert_first_free new [] = []"
| "insert_first_free new (f # fs) =
     (if bprw f = 0 then new # fs else f # insert_first_free new fs)"

definition insert_fix_map :: "nat \<Rightarrow> u64 \<Rightarrow> u64 \<Rightarrow> nat \<Rightarrow> u32 \<Rightarrow> fixst \<Rightarrow> fixst" where
  "insert_fix_map idx rw rx l a s =
     s\<lparr>ctx := (ctx s)\<lparr>dat := (dat (ctx s))[idx := (dat (ctx s) ! idx)\<lparr>fmap :=
         insert_first_free \<lparr>bprx = rx, bprw = rw, ls = l, ad = a\<rparr> (fmap (dat (ctx s) ! idx))\<rparr>]\<rparr>\<rparr>"

definition fixed_word :: "view \<Rightarrow> wmem \<Rightarrow> u64 \<Rightarrow> fix_info \<Rightarrow> u32" where
  "fixed_word ph m ins f =
     rd ph m (bprx f) OR (push_bit (ls f) (signed_drop_bit 2 (ucast (ins - bprx f) :: s32)) AND ad f)"

fun process_entries :: "view \<Rightarrow> u64 \<Rightarrow> fix_info list \<Rightarrow> wmem \<Rightarrow> fix_info list \<times> wmem" where
  "process_entries ph ins [] m = ([], m)"
| "process_entries ph ins (f # fs) m =
     (if bprw f = 0 then (f # fs, m)
      else let m = wr ph (bprw f) (fixed_word ph m ins f) m;
               (fs', m) = process_entries ph ins fs m
           in (f\<lparr>bprw := 0, bprx := 0\<rparr> # fs', m))"

definition process_fix_map :: "view \<Rightarrow> nat \<Rightarrow> fixst \<Rightarrow> fixst" where
  "process_fix_map ph idx s =
     (let d = dat (ctx s) ! idx;
          (fs, m) = process_entries ph (insu d) (fmap d) (fmem s)
      in s\<lparr>ctx := (ctx s)\<lparr>dat := (dat (ctx s))[idx := d\<lparr>fmap := fs\<rparr>]\<rparr>, fmem := m\<rparr>)"

section \<open>Output\<close>

text \<open>
  \<open>*(*outprw)++ = w; (*outprx)++\<close>, and the stores of a whole stub followed by the
  advance of both output pointers past it.
\<close>

definition emit :: "view \<Rightarrow> u32 \<Rightarrow> fixst \<Rightarrow> fixst" where
  "emit ph w s =
     s\<lparr>fmem := wr ph (outprw s) w (fmem s), outprw := outprw s + 4, outprx := outprx s + 4\<rparr>"

primrec emit_words :: "view \<Rightarrow> u32 list \<Rightarrow> fixst \<Rightarrow> fixst" where
  "emit_words ph [] s = s"
| "emit_words ph (w # ws) s = emit_words ph ws (emit ph w s)"

text \<open>The two words \<open>memcpy\<close> or a 64-bit store writes for an address.\<close>

definition addr_words :: "u64 \<Rightarrow> u32 list" where
  "addr_words a = [ucast a, ucast (drop_bit 32 a)]"

definition emit_nop_reset :: "view \<Rightarrow> nat \<Rightarrow> fixst \<Rightarrow> fixst" where
  "emit_nop_reset ph idx s = (let s = emit ph Aarch64Nop s in reset_current_ins idx (outprx s) s)"

definition next_in :: "fixst \<Rightarrow> fixst" where
  "next_in s = s\<lparr>inprx := inprx s + 4, inprw := inprw s + 4\<rparr>"

definition llabs :: "s64 \<Rightarrow> int" where
  "llabs x = \<bar>sint x\<bar>"

section \<open>B and BL\<close>

definition fix_branch_imm :: "view \<Rightarrow> fixst \<Rightarrow> bool \<times> fixst" where
  "fix_branch_imm ph s =
     (let mbits = 6; mask = 0xfc000000; rmask = 0x03ffffff; op_b = 0x14000000; op_bl = 0x94000000;
          ins = rd ph (fmem s) (inprw s);
          opc = ins AND mask
      in if opc = op_b \<or> opc = op_bl then
           let (current_idx, s) = get_and_set_current_index (inprx s) (outprx s) s;
               absolute_addr = inprx s + scast (signed_drop_bit (mbits - 2) (push_bit mbits ins));
               new_pc_offset = signed_drop_bit 2 (absolute_addr - outprx s);
               special_fix_type = is_in_fixing_range (ctx s) absolute_addr;
               s = (if \<not> special_fix_type \<and> llabs new_pc_offset \<ge> uint (drop_bit 1 rmask :: u32) then
                      let b_aligned = ((outprx s + 8) AND 7 = 0)
                      in if opc = op_b then
                           let s = (if \<not> b_aligned then emit_nop_reset ph current_idx s else s)
                           in emit_words ph ([0x58000051, 0xd61f0220] @ addr_words absolute_addr) s
                         else
                           let s = (if b_aligned then emit_nop_reset ph current_idx s else s)
                           in emit_words ph ([0x58000071, 0x1000009e, 0xd61f0220] @ addr_words absolute_addr) s
                    else
                      let (new_pc_offset, s) =
                            (if special_fix_type then
                               let ref_idx = get_ref_ins_index (ctx s) absolute_addr
                               in if ref_idx \<le> current_idx then
                                    (signed_drop_bit 2 (insu (dat (ctx s) ! ref_idx) - outprx s), s)
                                  else (0, insert_fix_map ref_idx (outprw s) (outprx s) 0 rmask s)
                             else (new_pc_offset, s))
                      in emit ph (opc OR (ucast new_pc_offset AND NOT mask)) s)
           in (True, process_fix_map ph current_idx (next_in s))
         else (False, s))"

section \<open>B.cond, CBZ, CBNZ, TBZ, TBNZ\<close>

definition cond_lmask :: "u32 \<Rightarrow> u32 option" where
  "cond_lmask ins =
     (if ins AND 0xff000010 = 0x54000000 then Some 0xff00001f
      else let opc = ins AND 0x7f000000
           in if opc = 0x34000000 \<or> opc = 0x35000000 then Some 0xff00001f
              else if opc = 0x36000000 \<or> opc = 0x37000000 then Some 0xfff8001f
              else None)"

definition fix_cond_comp_test_branch :: "view \<Rightarrow> fixst \<Rightarrow> bool \<times> fixst" where
  "fix_cond_comp_test_branch ph s =
     (let lsb = 5; ins = rd ph (fmem s) (inprw s)
      in case cond_lmask ins of
           None \<Rightarrow> (False, s)
         | Some lmask \<Rightarrow>
             let (current_idx, s) = get_and_set_current_index (inprx s) (outprx s) s;
                 absolute_addr = inprx s + ucast (drop_bit (lsb - 2) (ins AND NOT lmask));
                 new_pc_offset = signed_drop_bit 2 (absolute_addr - outprx s);
                 special_fix_type = is_in_fixing_range (ctx s) absolute_addr;
                 s = (if \<not> special_fix_type \<and>
                         llabs new_pc_offset \<ge> uint (drop_bit (lsb + 1) (NOT lmask)) then
                        let s = (if (outprx s + 16) AND 7 \<noteq> 0 then
                                   emit ph Aarch64Nop (reset_current_ins current_idx (outprx s) s)
                                 else s)
                        in emit_words ph ([(push_bit lsb (drop_bit 2 8) AND NOT lmask) OR (ins AND lmask),
                              0x14000005, 0x58000051, 0xd61f0220] @ addr_words absolute_addr) s
                      else
                        let (new_pc_offset, s) =
                              (if special_fix_type then
                                 let ref_idx = get_ref_ins_index (ctx s) absolute_addr
                                 in if ref_idx \<le> current_idx then
                                      (signed_drop_bit 2 (insu (dat (ctx s) ! ref_idx) - outprx s), s)
                                    else (0, insert_fix_map ref_idx (outprw s) (outprx s) lsb (NOT lmask) s)
                               else (new_pc_offset, s))
                        in emit ph ((ucast (push_bit lsb new_pc_offset) AND NOT lmask) OR (ins AND lmask)) s)
             in (True, process_fix_map ph current_idx (next_in s)))"

section \<open>Literal loads\<close>

text \<open>
  The padding loops emit \<open>nop\<close>s until a bit test on the output address clears.
  On a word-aligned output they stop within three steps; on any other they never
  do, which the fuel makes the value \<open>None\<close>.
\<close>

fun pad_literal :: "view \<Rightarrow> nat \<Rightarrow> u64 \<Rightarrow> fixst \<Rightarrow> fixst option" where
  "pad_literal ph 0 faligned s = None"
| "pad_literal ph (Suc fuel) faligned s =
     (if (outprx s + 8) AND faligned \<noteq> 0
      then pad_literal ph fuel faligned (emit ph Aarch64Nop s)
      else Some s)"

fun pad_offset :: "view \<Rightarrow> nat \<Rightarrow> u64 \<Rightarrow> s64 \<Rightarrow> s64 \<Rightarrow> fixst \<Rightarrow> (s64 \<times> fixst) option" where
  "pad_offset ph 0 faligned absolute_addr new_pc_offset s = None"
| "pad_offset ph (Suc fuel) faligned absolute_addr new_pc_offset s =
     (if new_pc_offset AND faligned \<noteq> 0
      then let s = emit ph Aarch64Nop s;
               new_pc_offset = signed_drop_bit 2 (absolute_addr - outprx s)
           in pad_offset ph fuel faligned absolute_addr new_pc_offset s
      else Some (new_pc_offset, s))"

definition pad_fuel :: nat where "pad_fuel = 4"

text \<open>The opcode tests: the mask under which the load is rewritten and its alignment.\<close>

definition loadlit_class :: "u32 \<Rightarrow> (u32 \<times> u64) option" where
  "loadlit_class ins =
     (let mask_30 = 0x40000000; mask_31 = 0x80000000;
          faligned = (if ins AND mask_30 \<noteq> 0 then 7 else 3)
      in if ins AND 0xbf000000 = 0x18000000 then Some (0xbf000000, faligned)
         else let faligned = (if faligned \<noteq> 7 then (if ins AND mask_31 \<noteq> 0 then 15 else 3) else faligned)
              in if ins AND 0x3f000000 = 0x1c000000 then Some (0x3f000000, faligned)
                 else if ins AND 0xff000000 = 0x98000000 then Some (0xff000000, 7)
                 else None)"

text \<open>\<open>memcpy(*outprw, absolute_addr, 4 * n)\<close>: the words are read before any is written.\<close>

definition read_words :: "view \<Rightarrow> wmem \<Rightarrow> u64 \<Rightarrow> nat \<Rightarrow> u32 list" where
  "read_words ph m a n = map (\<lambda>k. rd ph m (a + 4 * of_nat k)) [0..<n]"

definition fix_loadlit :: "view \<Rightarrow> fixst \<Rightarrow> (bool \<times> fixst) option" where
  "fix_loadlit ph s =
     (let ins = rd ph (fmem s) (inprw s)
      in if ins AND 0xff000000 = 0xd8000000 then
           let (current_idx, s) = get_and_set_current_index (inprx s) (outprx s) s
           in Some (True, next_in (process_fix_map ph current_idx s))
         else
           let msb = 8; lsb = 5; lmask = 0xff00001f
           in case loadlit_class ins of
                None \<Rightarrow> Some (False, s)
              | Some (op_mask, faligned) \<Rightarrow>
                  let (current_idx, s) = get_and_set_current_index (inprx s) (outprx s) s;
                      absolute_addr = inprx s +
                        ucast (signed_drop_bit (msb + lsb - 2) (push_bit msb ins) AND NOT 3);
                      new_pc_offset = signed_drop_bit 2 (absolute_addr - outprx s);
                      special_fix_type = is_in_fixing_range (ctx s) absolute_addr
                  in if special_fix_type \<or>
                        llabs new_pc_offset + uint ((faligned + 1 - 4) div 4) \<ge>
                          uint (drop_bit (lsb + 1) (NOT lmask :: u32))
                     then case pad_literal ph pad_fuel faligned s of
                            None \<Rightarrow> None
                          | Some s \<Rightarrow>
                              let s = reset_current_ins current_idx (outprx s) s;
                                  ns = ucast ((faligned + 1) div 4) :: u32;
                                  s = emit_words ph [(push_bit lsb (drop_bit 2 8) AND NOT op_mask) OR (ins AND lmask),
                                        0x14000001 + ns] s;
                                  s = emit_words ph (read_words ph (fmem s) absolute_addr (unat ns)) s
                              in Some (True, process_fix_map ph current_idx (next_in s))
                     else case pad_offset ph pad_fuel (drop_bit 2 faligned) absolute_addr new_pc_offset s of
                            None \<Rightarrow> None
                          | Some (new_pc_offset, s) \<Rightarrow>
                              let s = reset_current_ins current_idx (outprx s) s;
                                  s = emit ph ((ucast (push_bit lsb new_pc_offset) AND NOT op_mask) OR (ins AND lmask)) s
                              in Some (True, process_fix_map ph current_idx (next_in s)))"

section \<open>ADR and ADRP\<close>

definition adr_lsb_bytes :: "u32 \<Rightarrow> u32" where
  "adr_lsb_bytes ins = drop_bit 30 (push_bit 1 ins)"

definition fix_pcreladdr :: "view \<Rightarrow> fixst \<Rightarrow> bool \<times> fixst" where
  "fix_pcreladdr ph s =
     (let msb = 8; lsb = 5; mask = 0x9f000000; rmask = 0x0000001f; lmask = 0xff00001f;
          fmask = 0x00ffffff; max_val = 0x001fffff; op_adr = 0x10000000; op_adrp = 0x90000000;
          ins = rd ph (fmem s) (inprw s);
          load_abs = 0x58000000 OR (push_bit lsb (drop_bit 2 8) AND NOT mask) OR (ins AND rmask)
      in if ins AND mask = op_adr then
           let (current_idx, s) = get_and_set_current_index (inprx s) (outprx s) s;
               absolute_addr = inprx s +
                 (ucast (signed_drop_bit (msb + lsb - 2) (push_bit msb ins) AND NOT 3)
                    OR ucast (adr_lsb_bytes ins));
               new_pc_offset = absolute_addr - outprx s;
               special_fix_type = is_in_fixing_range (ctx s) absolute_addr;
               s = (if \<not> special_fix_type \<and> llabs new_pc_offset \<ge> uint (drop_bit 1 max_val :: u32) then
                      let s = (if (outprx s + 8) AND 7 \<noteq> 0 then emit_nop_reset ph current_idx s else s)
                      in emit_words ph ([load_abs, 0x14000003] @ addr_words absolute_addr) s
                    else
                      let (new_pc_offset, s) =
                            (if special_fix_type then
                               let ref_idx = get_ref_ins_index (ctx s) (absolute_addr AND NOT 3)
                               in if ref_idx \<le> current_idx then
                                    (insu (dat (ctx s) ! ref_idx) - outprx s, s)
                                  else (0, insert_fix_map ref_idx (outprw s) (outprx s) lsb fmask s)
                             else (new_pc_offset, s))
                      in emit ph ((ucast (push_bit (lsb - 2) new_pc_offset) AND fmask) OR (ins AND lmask)) s)
           in (True, next_in (process_fix_map ph current_idx s))
         else if ins AND mask = op_adrp then
           let (current_idx, s) = get_and_set_current_index (inprx s) (outprw s) s;
               absolute_addr = (inprx s AND NOT 0xfff) +
                 ucast (push_bit 12 ((signed_drop_bit (msb + lsb - 2) (push_bit msb ins) AND NOT 3)
                                        OR adr_lsb_bytes ins));
               s = (if is_in_fixing_range (ctx s) absolute_addr then emit ph ins s
                    else
                      let s = (if (outprx s + 8) AND 7 \<noteq> 0 then emit_nop_reset ph current_idx s else s)
                      in emit_words ph ([load_abs, 0x14000003] @ addr_words absolute_addr) s)
           in (True, next_in (process_fix_map ph current_idx s))
         else (False, s))"

section \<open>A whole prologue\<close>

definition copy_plain :: "view \<Rightarrow> fixst \<Rightarrow> fixst" where
  "copy_plain ph s =
     (let (current_idx, s) = get_and_set_current_index (inprx s) (outprx s) s;
          s = process_fix_map ph current_idx s
      in next_in (emit ph (rd ph (fmem s) (inprw s)) s))"

definition fix_one :: "view \<Rightarrow> fixst \<Rightarrow> fixst option" where
  "fix_one ph s =
     (case fix_branch_imm ph s of (True, s) \<Rightarrow> Some s
      | (False, s) \<Rightarrow>
     (case fix_cond_comp_test_branch ph s of (True, s) \<Rightarrow> Some s
      | (False, s) \<Rightarrow>
     (case fix_loadlit ph s of None \<Rightarrow> None
      | Some (True, s) \<Rightarrow> Some s
      | Some (False, s) \<Rightarrow>
     (case fix_pcreladdr ph s of (True, s) \<Rightarrow> Some s
      | (False, s) \<Rightarrow> Some (copy_plain ph s)))))"

primrec fix_loop :: "view \<Rightarrow> nat \<Rightarrow> fixst \<Rightarrow> fixst option" where
  "fix_loop ph 0 s = Some s"
| "fix_loop ph (Suc count) s =
     (case fix_one ph s of None \<Rightarrow> None | Some s \<Rightarrow> fix_loop ph count s)"

text \<open>The jump back to the first instruction that was not copied.\<close>

definition fix_tail :: "view \<Rightarrow> fixst \<Rightarrow> fixst" where
  "fix_tail ph s =
     (let mask = 0x03ffffff :: u64;
          callback = inprx s;
          pc_offset = signed_drop_bit 2 (callback - outprx s)
      in if llabs pc_offset \<ge> uint (drop_bit 1 mask) then
           let s = (if (outprx s + 8) AND 7 \<noteq> 0 then emit ph Aarch64Nop s else s)
           in emit_words ph ([0x58000051, 0xd61f0220] @ addr_words callback) s
         else emit ph (ucast (0x14000000 OR (pc_offset AND mask))) s)"

definition empty_insns_info :: insns_info where
  "empty_insns_info =
     \<lparr>insu = 0, fmap = replicate MaxReferences \<lparr>bprx = 0, bprw = 0, ls = 0, ad = 0\<rparr>\<rparr>"

definition fix_start :: "u64 \<Rightarrow> u64 \<Rightarrow> nat \<Rightarrow> u64 \<Rightarrow> u64 \<Rightarrow> wmem \<Rightarrow> fixst" where
  "fix_start inrw inrx count outrw outrx m =
     \<lparr>inprw = inrw, inprx = inrx, outprw = outrw, outprx = outrx,
      ctx = \<lparr>basep = inrx, endp = inrx + 4 * of_nat count,
             dat = replicate MaxInstructions empty_insns_info\<rparr>,
      fmem = m\<rparr>"

text \<open>The result carries \<open>total\<close>, the number of bytes whose cache lines are flushed.\<close>

definition fix_instructions ::
    "view \<Rightarrow> u64 \<Rightarrow> u64 \<Rightarrow> nat \<Rightarrow> u64 \<Rightarrow> u64 \<Rightarrow> wmem \<Rightarrow> (fixst \<times> u64) option" where
  "fix_instructions ph inrw inrx count outrw outrx m =
     (case fix_loop ph count (fix_start inrw inrx count outrw outrx m) of
        None \<Rightarrow> None
      | Some s \<Rightarrow> let s = fix_tail ph s in Some (s, (outprx s - outrx) div 4 * 4))"

end
