(* ===== verification/Hook_Bounds.thy ===== *)
theory Hook_Bounds
  imports Hook_Relocate
begin

text \<open>
  The relocator stays inside its trampoline slot: padding terminates on
  word-aligned output, every fixer emits at most nine words, and memory changes
  only in the words emitted, the later patches of forward references included.
\<close>

section \<open>What has been emitted so far\<close>

definition slots :: "view \<Rightarrow> u64 \<Rightarrow> nat \<Rightarrow> u64 set" where
  "slots ph rw n = (\<lambda>k. ph (rw + 4 * of_nat k)) ` {..<n}"

lemma slots_mono: "n \<le> k \<Longrightarrow> slots ph rw n \<subseteq> slots ph rw k"
  by (auto simp: slots_def)

definition ref_ok :: "view \<Rightarrow> u64 set \<Rightarrow> fix_info \<Rightarrow> bool" where
  "ref_ok ph A f \<longleftrightarrow> bprw f = 0 \<or> ph (bprw f) \<in> A"

definition refs_in :: "view \<Rightarrow> u64 set \<Rightarrow> fixctx \<Rightarrow> bool" where
  "refs_in ph A c \<longleftrightarrow> (\<forall>d \<in> set (dat c). \<forall>f \<in> set (fmap d). ref_ok ph A f)"

definition emitted :: "view \<Rightarrow> u64 \<Rightarrow> u64 \<Rightarrow> wmem \<Rightarrow> nat \<Rightarrow> fixst \<Rightarrow> bool" where
  "emitted ph rw rx m0 n s \<longleftrightarrow> length (dat (ctx s)) = MaxInstructions \<and>
     outprw s = rw + 4 * of_nat n \<and> outprx s = rx + 4 * of_nat n \<and>
     (\<forall>a. a \<notin> slots ph rw n \<longrightarrow> fmem s a = m0 a) \<and> refs_in ph (slots ph rw n) (ctx s)"

definition at_most :: "view \<Rightarrow> u64 \<Rightarrow> u64 \<Rightarrow> wmem \<Rightarrow> nat \<Rightarrow> fixst \<Rightarrow> bool" where
  "at_most ph rw rx m0 n s \<longleftrightarrow> (\<exists>k\<le>n. emitted ph rw rx m0 k s)"

lemma at_most_mono: "at_most ph rw rx m0 n s \<Longrightarrow> n \<le> k \<Longrightarrow> at_most ph rw rx m0 k s"
  unfolding at_most_def using le_trans by blast

lemma refs_in_mono: "refs_in ph A c \<Longrightarrow> A \<subseteq> B \<Longrightarrow> refs_in ph B c"
  unfolding refs_in_def ref_ok_def by blast

lemma refs_in_update:
  assumes "refs_in ph A c"
    and "\<And>f. idx < length (dat c) \<Longrightarrow> f \<in> set (fmap d) \<Longrightarrow> ref_ok ph A f"
  shows "refs_in ph A (c\<lparr>dat := (dat c)[idx := d]\<rparr>)"
proof (cases "idx < length (dat c)")
  case True
  then show ?thesis
    using assms set_update_subset_insert [of "dat c" idx d] by (fastforce simp: refs_in_def)
next
  case False
  then show ?thesis using assms(1) by (simp add: refs_in_def list_update_beyond)
qed

lemma refs_in_nth:
  assumes "refs_in ph A c" "idx < length (dat c)" "f \<in> set (fmap (dat c ! idx))"
  shows "ref_ok ph A f"
  using assms nth_mem [of idx "dat c"] unfolding refs_in_def by blast

lemma emitted_emit:
  assumes "emitted ph rw rx m0 n s"
  shows "emitted ph rw rx m0 (Suc n) (emit ph w s)"
proof -
  have "ph (rw + 4 * of_nat n) \<in> slots ph rw (Suc n)"
    by (auto simp: slots_def)
  moreover have "slots ph rw n \<subseteq> slots ph rw (Suc n)"
    by (rule slots_mono) simp
  ultimately show ?thesis
    using assms by (auto simp: emitted_def emit_def wr_def algebra_simps intro: refs_in_mono)
qed

lemma emitted_reset:
  assumes "emitted ph rw rx m0 n s"
  shows "emitted ph rw rx m0 n (reset_current_ins idx a s)"
  using assms by (auto simp: emitted_def reset_current_ins_def
      intro!: refs_in_update intro: refs_in_nth)

lemma insert_first_free_set:
  "f \<in> set (insert_first_free new fs) \<Longrightarrow> f = new \<or> f \<in> set fs"
  by (induction fs) (auto split: if_splits)

text \<open>A reference is recorded for the word that is emitted next.\<close>

lemma emitted_insert_emit:
  assumes "emitted ph rw rx m0 n s" and s': "s' = insert_fix_map idx (outprw s) x l a s"
  shows "emitted ph rw rx m0 (Suc n) (emit ph w s')"
proof -
  let ?A = "slots ph rw (Suc n)"
  have here: "ph (outprw s) \<in> ?A"
    using assms(1) by (auto simp: slots_def emitted_def)
  have sub: "slots ph rw n \<subseteq> ?A"
    by (rule slots_mono) simp
  have r: "refs_in ph ?A (ctx s)"
    using assms(1) refs_in_mono [OF _ sub] by (simp add: emitted_def)
  have "refs_in ph ?A (ctx s')"
    unfolding s' insert_fix_map_def
    using here r refs_in_nth [OF r, of idx]
    by (auto intro!: refs_in_update dest!: insert_first_free_set simp: ref_ok_def [of _ _ "\<lparr>bprx = _, bprw = _, ls = _, ad = _\<rparr>"])
  then show ?thesis
    using assms(1) sub here
    by (auto simp: emitted_def emit_def wr_def s' insert_fix_map_def algebra_simps)
qed

lemma process_entries_spec:
  assumes "\<forall>f \<in> set fs. ref_ok ph A f"
  shows "(\<forall>f \<in> set (fst (process_entries ph i fs m)). ref_ok ph A f) \<and>
         (\<forall>a. a \<notin> A \<longrightarrow> snd (process_entries ph i fs m) a = m a)"
  using assms
proof (induction ph i fs m rule: process_entries.induct)
  case (2 ph ins f fs m)
  show ?case
  proof (cases "bprw f = 0")
    case False
    have m: "\<forall>a. a \<notin> A \<longrightarrow> wr ph (bprw f) (fixed_word ph m ins f) m a = m a"
      using False "2.prems" by (auto simp: wr_def ref_ok_def)
    have z: "ref_ok ph A (f\<lparr>bprw := 0, bprx := 0\<rparr>)" by (simp add: ref_ok_def)
    from "2.IH" [OF False refl] "2.prems" m z False show ?thesis
      by (simp add: Let_def case_prod_unfold)
  qed (use "2.prems" in simp)
qed simp

lemma emitted_process:
  assumes e: "emitted ph rw rx m0 n s" and i': "idx < MaxInstructions"
  shows "emitted ph rw rx m0 n (process_fix_map ph idx s)"
proof -
  let ?A = "slots ph rw n" and ?d = "dat (ctx s) ! idx"
  have r: "refs_in ph ?A (ctx s)" and i: "idx < length (dat (ctx s))"
    using e i' by (simp_all add: emitted_def)
  obtain fs m where p: "process_entries ph (insu ?d) (fmap ?d) (fmem s) = (fs, m)"
    by fastforce
  have q: "(\<forall>f \<in> set fs. ref_ok ph ?A f) \<and> (\<forall>a. a \<notin> ?A \<longrightarrow> m a = fmem s a)"
    using process_entries_spec [of "fmap ?d" ph ?A "insu ?d" "fmem s"] refs_in_nth [OF r i] p
    by auto
  have "refs_in ph ?A ((ctx s)\<lparr>dat := (dat (ctx s))[idx := ?d\<lparr>fmap := fs\<rparr>]\<rparr>)"
    using q by (intro refs_in_update [OF r]) simp
  then show ?thesis
    using e q by (simp add: emitted_def process_fix_map_def p)
qed

section \<open>Bounds of the output operations\<close>

text \<open>
  Backward rules: to stay within \<open>N\<close> words after an operation, stay within what
  it leaves of \<open>N\<close> before it.
\<close>

lemma at_most_emit [bound_intros]:
  "1 \<le> N \<Longrightarrow> at_most ph rw rx m0 (N - 1) s \<Longrightarrow> at_most ph rw rx m0 N (emit ph w s)"
  unfolding at_most_def using emitted_emit by (metis Suc_le_mono Suc_pred' le_trans less_eq_Suc_le One_nat_def)

lemma at_most_emit_words [bound_intros]:
  "length ws \<le> N \<Longrightarrow> at_most ph rw rx m0 (N - length ws) s \<Longrightarrow>
     at_most ph rw rx m0 N (emit_words ph ws s)"
proof (induction ws arbitrary: s)
  case (Cons w ws)
  have "at_most ph rw rx m0 (N - length ws) (emit ph w s)"
    using Cons.prems by (intro at_most_emit) simp_all
  then show ?case
    using Cons.IH Cons.prems(1) by simp
qed simp

lemma at_most_reset [bound_intros]:
  "at_most ph rw rx m0 N s \<Longrightarrow> at_most ph rw rx m0 N (reset_current_ins idx a s)"
  unfolding at_most_def using emitted_reset by blast

lemma at_most_emit_nop_reset [bound_intros]:
  "1 \<le> N \<Longrightarrow> at_most ph rw rx m0 (N - 1) s \<Longrightarrow> at_most ph rw rx m0 N (emit_nop_reset ph idx s)"
  unfolding emit_nop_reset_def Let_def by (intro at_most_reset at_most_emit)

lemma at_most_insert_emit [bound_intros]:
  "1 \<le> N \<and> at_most ph rw rx m0 (N - 1) s \<and> o' = outprw s \<Longrightarrow>
     at_most ph rw rx m0 N (emit ph w (insert_fix_map idx o' x l a s))"
  unfolding at_most_def using emitted_insert_emit [OF _ refl]
  by (metis Suc_le_mono Suc_pred' le_trans less_eq_Suc_le One_nat_def)

lemma at_most_process [bound_intros]:
  "idx < MaxInstructions \<Longrightarrow> at_most ph rw rx m0 N s \<Longrightarrow>
     at_most ph rw rx m0 N (process_fix_map ph idx s)"
  unfolding at_most_def using emitted_process by blast

lemma at_most_next [bound_intros]:
  "at_most ph rw rx m0 N s \<Longrightarrow> at_most ph rw rx m0 N (next_in s)"
  unfolding at_most_def emitted_def next_in_def by simp

lemma at_most_if [bound_intros]:
  "(c \<Longrightarrow> at_most ph rw rx m0 N a) \<Longrightarrow> (\<not> c \<Longrightarrow> at_most ph rw rx m0 N b) \<Longrightarrow>
     at_most ph rw rx m0 N (if c then a else b)"
  by simp

text \<open>What the operations leave alone.\<close>

lemma keep_reset [simp]:
  "inprx (reset_current_ins i a s) = inprx s" "basep (ctx (reset_current_ins i a s)) = basep (ctx s)"
  "outprw (reset_current_ins i a s) = outprw s" "outprx (reset_current_ins i a s) = outprx s"
  "fmem (reset_current_ins i a s) = fmem s" "inprw (reset_current_ins i a s) = inprw s"
  "endp (ctx (reset_current_ins i a s)) = endp (ctx s)"
  by (simp_all add: reset_current_ins_def)

lemma keep_emit [simp]:
  "inprx (emit ph w s) = inprx s" "ctx (emit ph w s) = ctx s" "inprw (emit ph w s) = inprw s"
  "outprw (emit ph w s) = outprw s + 4" "outprx (emit ph w s) = outprx s + 4"
  by (simp_all add: emit_def)

lemma keep_emit_words [simp]:
  "inprx (emit_words ph ws s) = inprx s" "ctx (emit_words ph ws s) = ctx s"
  "inprw (emit_words ph ws s) = inprw s"
  "outprw (emit_words ph ws s) = outprw s + 4 * of_nat (length ws)"
  "outprx (emit_words ph ws s) = outprx s + 4 * of_nat (length ws)"
  by (induction ws arbitrary: s) (simp_all add: algebra_simps)

lemma keep_emit_nop_reset [simp]:
  "inprx (emit_nop_reset ph i s) = inprx s" "basep (ctx (emit_nop_reset ph i s)) = basep (ctx s)"
  "outprw (emit_nop_reset ph i s) = outprw s + 4" "outprx (emit_nop_reset ph i s) = outprx s + 4"
  "inprw (emit_nop_reset ph i s) = inprw s"
  by (simp_all add: emit_nop_reset_def Let_def)

lemma keep_insert [simp]:
  "inprx (insert_fix_map i w x l a s) = inprx s"
  "basep (ctx (insert_fix_map i w x l a s)) = basep (ctx s)"
  "inprw (insert_fix_map i w x l a s) = inprw s" "outprx (insert_fix_map i w x l a s) = outprx s"
  "outprw (insert_fix_map i w x l a s) = outprw s" "fmem (insert_fix_map i w x l a s) = fmem s"
  by (simp_all add: insert_fix_map_def)

lemma keep_process [simp]:
  "inprx (process_fix_map ph i s) = inprx s" "basep (ctx (process_fix_map ph i s)) = basep (ctx s)"
  "inprw (process_fix_map ph i s) = inprw s" "outprx (process_fix_map ph i s) = outprx s"
  "outprw (process_fix_map ph i s) = outprw s"
  by (simp_all add: process_fix_map_def Let_def split: prod.splits)

lemma keep_next [simp]:
  "inprx (next_in s) = inprx s + 4" "ctx (next_in s) = ctx s" "inprw (next_in s) = inprw s + 4"
  "outprx (next_in s) = outprx s" "outprw (next_in s) = outprw s" "fmem (next_in s) = fmem s"
  by (simp_all add: next_in_def)

lemma length_addr_words [simp]: "length (addr_words a) = 2"
  by (simp add: addr_words_def)

lemma length_read_words [simp]: "length (read_words ph m a n) = n"
  by (simp add: read_words_def)

section \<open>Every fixer emits at most nine words\<close>

text \<open>
  A step handled an instruction: it emitted at most \<open>k\<close> words and moved to the next.
\<close>

definition fixed_within :: "view \<Rightarrow> u64 \<Rightarrow> u64 \<Rightarrow> wmem \<Rightarrow> nat \<Rightarrow> fixst \<Rightarrow> fixst \<Rightarrow> bool" where
  "fixed_within ph rw rx m0 N s s' \<longleftrightarrow>
     at_most ph rw rx m0 N s' \<and> inprx s' = inprx s + 4 \<and> inprw s' = inprw s + 4 \<and>
     basep (ctx s') = basep (ctx s)"

lemma fix_branch_imm_within:
  assumes "at_most ph rw rx m0 n s" "get_ref_ins_index (ctx s) (inprx s) < MaxInstructions"
    and "fix_branch_imm ph s = (b, s')"
  shows "if b then fixed_within ph rw rx m0 (n + 9) s s' else s' = s"
  using assms
  by (simp add: fix_branch_imm_def get_and_set_current_index_def fixed_within_def Let_def
        split: if_split_asm)
    (auto intro!: bound_intros elim: at_most_mono)

lemma fix_cond_within:
  assumes "at_most ph rw rx m0 n s" "get_ref_ins_index (ctx s) (inprx s) < MaxInstructions"
    and "fix_cond_comp_test_branch ph s = (b, s')"
  shows "if b then fixed_within ph rw rx m0 (n + 9) s s' else s' = s"
  using assms
  by (simp add: fix_cond_comp_test_branch_def get_and_set_current_index_def fixed_within_def Let_def
        split: if_split_asm option.splits)
    (auto intro!: bound_intros elim: at_most_mono)

lemma fix_pcreladdr_within:
  assumes "at_most ph rw rx m0 n s" "get_ref_ins_index (ctx s) (inprx s) < MaxInstructions"
    and "fix_pcreladdr ph s = (b, s')"
  shows "if b then fixed_within ph rw rx m0 (n + 9) s s' else s' = s"
  using assms
  by (simp add: fix_pcreladdr_def get_and_set_current_index_def fixed_within_def Let_def
        split: if_split_asm)
    (auto intro!: bound_intros elim: at_most_mono)

lemma copy_plain_within:
  assumes "at_most ph rw rx m0 n s" "get_ref_ins_index (ctx s) (inprx s) < MaxInstructions"
  shows "fixed_within ph rw rx m0 (n + 9) s (copy_plain ph s)"
  using assms
  by (simp add: copy_plain_def get_and_set_current_index_def fixed_within_def Let_def)
    (auto intro!: bound_intros elim: at_most_mono)

section \<open>The padding loops\<close>

lemma and_15_add: "((x :: u64) + y) AND 15 = ((x AND 15) + (y AND 15)) AND 15"
proof -
  have m: "(15 :: u64) = mask 4" by (simp add: mask_eq_decr_exp)
  have u: "uint (take_bit 4 w) = uint w mod 16" for w :: u64
    using unsigned_take_bit_eq [of 4 w, where 'a = int] by (simp only: take_bit_eq_mod) simp
  have p: "uint (v + w) mod 16 = (uint v + uint w) mod 16" for v w :: u64
    by (simp add: uint_word_ariths mod_mod_cancel)
  show ?thesis
    unfolding m take_bit_eq_mask [symmetric]
    by (simp only: word_uint_eq_iff u p mod_add_eq)
qed

lemma and_15_cases:
  obtains "(x :: u64) AND 15 \<in> {0, 1, 2, 3, 4, 5, 6, 7, 8, 9, 10, 11, 12, 13, 14, 15}"
proof -
  have m: "(15 :: u64) = mask 4" by (simp add: mask_eq_decr_exp)
  have "unat (x AND 15) < 16"
    unfolding m take_bit_eq_mask [symmetric]
    using take_bit_nat_less_exp [of 4 "unat x"] by (simp add: unsigned_take_bit_eq)
  then have "unat (x AND 15) \<in> {0, 1, 2, 3, 4, 5, 6, 7, 8, 9, 10, 11, 12, 13, 14, 15}"
    by (simp only: insert_iff empty_iff) arith
  then show ?thesis
    by (intro that) (auto simp: word_unat_eq_iff)
qed

lemma and_15_sub: "(x :: u64) AND 3 = (x AND 15) AND 3" "x AND 7 = (x AND 15) AND 7"
  by (simp_all add: and.assoc)

text \<open>
  The number of \<open>nop\<close>s: the address bits above the word offset count down to zero.
\<close>

definition pad_count :: "u64 \<Rightarrow> u64 \<Rightarrow> nat" where
  "pad_count faligned x = unat (drop_bit 2 ((- x) AND faligned))"

lemma pad_step:
  assumes "(x :: u64) AND 3 = 0" "faligned \<in> {3, 7, 15}"
  shows "pad_count faligned x \<le> 3" "4 * pad_count faligned x < unat faligned + 1"
    and "x AND faligned = 0 \<longleftrightarrow> pad_count faligned x = 0"
    and "x AND faligned \<noteq> 0 \<Longrightarrow> pad_count faligned x = Suc (pad_count faligned (x + 4))"
proof -
  have n: "(- x) AND 15 = (16 - (x AND 15)) AND 15"
    using and_15_add [of "- x" x] by (cases rule: and_15_cases [of x]; cases rule: and_15_cases [of "- x"]) auto
  have p: "(- (x + 4)) AND 15 = ((- x AND 15) + 12) AND 15"
    using and_15_add [of "- x" "- 4"] by simp
  have f: "w AND faligned = (w AND 15) AND faligned" for w :: u64
    using assms(2) by (auto simp: and.assoc)
  have x: "x AND 15 \<in> {0, 4, 8, 12}"
    using assms(1) unfolding and_15_sub(1) [of x] by (cases rule: and_15_cases [of x]) auto
  have s: "(x + 4) AND 15 = ((x AND 15) + 4) AND 15"
    using and_15_add [of x 4] by simp
  show "pad_count faligned x \<le> 3" "4 * pad_count faligned x < unat faligned + 1"
    "x AND faligned = 0 \<longleftrightarrow> pad_count faligned x = 0"
    "x AND faligned \<noteq> 0 \<Longrightarrow> pad_count faligned x = Suc (pad_count faligned (x + 4))"
    using x assms(2)
    unfolding pad_count_def f [of "- x"] f [of x] f [of "- (x + 4)"] p n
    by (auto simp: drop_bit_eq_div)
qed

lemma pad_literal_eq:
  assumes "outprx s AND 3 = 0" "faligned \<in> {3, 7, 15}" "pad_count faligned (outprx s + 8) < fuel"
  shows "pad_literal ph fuel faligned s =
           Some (emit_words ph (replicate (pad_count faligned (outprx s + 8)) Aarch64Nop) s)"
  using assms
proof (induction fuel arbitrary: s)
  case (Suc fuel)
  let ?x = "outprx s + 8"
  have al: "w AND 3 = 0 \<Longrightarrow> (w + 4) AND 3 = 0" for w :: u64
    using and_15_add [of w 4] unfolding and_15_sub(1) [of "w + 4"] and_15_sub(1) [of w]
    by (cases rule: and_15_cases [of w]) auto
  have x: "?x AND 3 = 0"
    using al [of "outprx s"] al [of "outprx s + 4"] Suc.prems(1) by (simp add: add.assoc)
  show ?case
  proof (cases "?x AND faligned = 0")
    case True
    then show ?thesis using pad_step(3) [OF x Suc.prems(2)] by simp
  next
    case False
    then have "pad_count faligned ?x = Suc (pad_count faligned (?x + 4))"
      by (rule pad_step(4) [OF x Suc.prems(2)])
    moreover have "outprx (emit ph Aarch64Nop s) + 8 = ?x + 4" by simp
    ultimately show ?thesis
      using False Suc.IH [of "emit ph Aarch64Nop s"] Suc.prems al [of "outprx s"] by simp
  qed
qed simp

text \<open>
  The other loop tests the word offset itself, which falls by one at each step.
\<close>

lemma asr2_and_3: "signed_drop_bit 2 (x :: s64) AND 3 = drop_bit 2 (x AND 15)"
proof (rule bit_word_eqI)
  fix n
  assume "n < LENGTH(64)"
  moreover have "(3 :: u64) = mask 2" "(15 :: u64) = mask 4" by (simp_all add: mask_eq_decr_exp)
  ultimately show "bit (signed_drop_bit 2 x AND 3) n = bit (drop_bit 2 (x AND 15)) n"
    by (auto simp only: bit_and_iff bit_mask_iff bit_drop_bit_eq bit_signed_drop_bit_iff comp_def)
      (auto simp: min_def)
qed

lemma pad_offset_eq:
  assumes "signed_drop_bit 2 (a - (outprx s + 4 * of_nat j)) AND msk = 0"
    and "\<And>i. i < j \<Longrightarrow> signed_drop_bit 2 (a - (outprx s + 4 * of_nat i)) AND msk \<noteq> 0"
    and "j < fuel"
  shows "pad_offset ph fuel msk a (signed_drop_bit 2 (a - outprx s)) s =
           Some (signed_drop_bit 2 (a - (outprx s + 4 * of_nat j)), emit_words ph (replicate j Aarch64Nop) s)"
  using assms
proof (induction j arbitrary: s fuel)
  case 0
  then show ?case by (cases fuel) simp_all
next
  case (Suc j)
  obtain k where k: "fuel = Suc k" "j < k" using Suc.prems(3) by (cases fuel) auto
  let ?s = "emit ph Aarch64Nop s"
  have e: "outprx ?s + 4 * of_nat i = outprx s + 4 * of_nat (Suc i)" for i
    by (simp add: algebra_simps)
  have "pad_offset ph k msk a (signed_drop_bit 2 (a - outprx ?s)) ?s =
      Some (signed_drop_bit 2 (a - (outprx s + 4 * of_nat (Suc j))), emit_words ph (replicate j Aarch64Nop) ?s)"
    using Suc.IH [of ?s k] Suc.prems(1) Suc.prems(2) [of "Suc _"] k unfolding e by blast
  then show ?case
    using Suc.prems(2) [of 0] k by (simp add: Let_def)
qed

lemma asr2_and:
  assumes "faligned \<in> {3, 7, 15}"
  shows "signed_drop_bit 2 (x :: s64) AND drop_bit 2 faligned = drop_bit 2 (x AND 15) AND drop_bit 2 faligned"
  using assms unfolding asr2_and_3 [symmetric] by (auto simp: drop_bit_eq_div and.assoc)

definition pad_stop :: "u64 \<Rightarrow> u64 \<Rightarrow> nat \<Rightarrow> bool" where
  "pad_stop v faligned j \<longleftrightarrow>
     drop_bit 2 ((v + (16 - 4 * of_nat j)) AND 15) AND drop_bit 2 faligned = 0"

lemma pad_stop_table:
  "\<forall>v \<in> {0, 1, 2, 3, 4, 5, 6, 7, 8, 9, 10, 11, 12, 13, 14, 15}. \<forall>f \<in> {3, 7, 15}.
     \<exists>j \<in> {0, 1, 2, 3}. 4 * j < unat f + 1 \<and> pad_stop v f j \<and>
       (\<forall>i \<in> {0, 1, 2, 3}. i < j \<longrightarrow> \<not> pad_stop v f i)"
  by code_simp

lemma pad_offset_total:
  assumes f: "faligned \<in> {3, 7, 15}"
  shows "\<exists>j. 4 * j < unat faligned + 1 \<and> j \<le> 3 \<and>
     signed_drop_bit 2 (a - (outprx s + 4 * of_nat j)) AND drop_bit 2 faligned = 0 \<and>
     pad_offset ph pad_fuel (drop_bit 2 faligned) a (signed_drop_bit 2 (a - outprx s)) s =
       Some (signed_drop_bit 2 (a - (outprx s + 4 * of_nat j)), emit_words ph (replicate j Aarch64Nop) s)"
proof -
  let ?v = "(a - outprx s) AND 15"
  let ?P = "\<lambda>j. signed_drop_bit 2 (a - (outprx s + 4 * of_nat j)) AND drop_bit 2 faligned = 0"
  have P: "?P j \<longleftrightarrow> pad_stop ?v faligned j" if "j \<in> {0, 1, 2, 3}" for j
  proof -
    have "(a - (outprx s + 4 * of_nat j)) AND 15 = (?v + ((- 4 * of_nat j) AND 15)) AND 15"
      using and_15_add [of "a - outprx s" "- 4 * of_nat j"] by (simp add: algebra_simps)
    also have "\<dots> = (?v + (16 - 4 * of_nat j)) AND 15"
      using that and_15_add [of ?v "- 4 * of_nat j"] and_15_add [of ?v "16 - 4 * of_nat j"]
      by auto
    finally show ?thesis by (simp add: asr2_and [OF f] pad_stop_def)
  qed
  have "?v \<in> {0, 1, 2, 3, 4, 5, 6, 7, 8, 9, 10, 11, 12, 13, 14, 15}"
    by (rule and_15_cases [of "a - outprx s"])
  then obtain j where j: "j \<in> {0, 1, 2, 3 :: nat}" "4 * j < unat faligned + 1" "pad_stop ?v faligned j"
    "\<forall>i \<in> {0, 1, 2, 3}. i < j \<longrightarrow> \<not> pad_stop ?v faligned i"
    using pad_stop_table f by meson
  have "\<not> ?P i" if "i < j" for i
  proof -
    have "i \<in> {0, 1, 2, 3}" using that j(1) by auto
    with j(4) that P show ?thesis by blast
  qed
  then show ?thesis
    using j P [OF j(1)] pad_offset_eq [of a s j "drop_bit 2 faligned" pad_fuel ph]
    by (intro exI [of _ j]) (auto simp: pad_fuel_def)
qed

section \<open>The whole prologue\<close>

lemma loadlit_class_aligned:
  "loadlit_class ins = Some (op_mask, faligned) \<Longrightarrow> faligned \<in> {3, 7, 15}"
  by (auto simp: loadlit_class_def Let_def split: if_splits)

lemma faligned_words:
  assumes "faligned \<in> {3, 7, 15 :: u64}" "4 * j < unat faligned + 1"
  shows "j + 2 + unat (ucast ((faligned + 1) div 4) :: u32) \<le> 9" "j \<le> 8"
  using assms by auto

lemma fix_loadlit_within:
  assumes am: "at_most ph rw rx m0 n s" and idx: "get_ref_ins_index (ctx s) (inprx s) < MaxInstructions"
    and al: "outprx s AND 3 = 0"
  shows "\<exists>b s'. fix_loadlit ph s = Some (b, s') \<and>
           (if b then fixed_within ph rw rx m0 (n + 9) s s' else s' = s)"
proof (cases "rd ph (fmem s) (inprw s) AND 0xff000000 = 0xd8000000")
  case True
  let ?i = "get_ref_ins_index (ctx s) (inprx s)"
  let ?r = "next_in (process_fix_map ph ?i (reset_current_ins ?i (outprx s) s))"
  have "fix_loadlit ph s = Some (True, ?r)"
    using True by (simp add: fix_loadlit_def get_and_set_current_index_def Let_def)
  moreover have "at_most ph rw rx m0 (n + 9) ?r"
    using at_most_mono [OF am, of "n + 9"] idx by (auto intro!: bound_intros)
  ultimately show ?thesis by (intro exI [of _ True]) (simp add: fixed_within_def)
next
  case no: False
  let ?ins = "rd ph (fmem s) (inprw s)"
  show ?thesis
  proof (cases "loadlit_class ?ins")
    case None
    then have "fix_loadlit ph s = Some (False, s)"
      using no by (simp add: fix_loadlit_def Let_def)
    then show ?thesis by auto
  next
    case (Some p)
    then obtain op_mask faligned where c: "loadlit_class ?ins = Some (op_mask, faligned)"
      by (cases p) auto
    have f: "faligned \<in> {3, 7, 15}" by (rule loadlit_class_aligned [OF c])
    let ?i = "get_ref_ins_index (ctx s) (inprx s)"
    let ?s = "reset_current_ins ?i (outprx s) s"
    let ?j = "pad_count faligned (outprx s + 8)"
    have a8: "(outprx s + 8) AND 3 = 0"
      using al and_15_add [of "outprx s" 8] unfolding and_15_sub(1) [of "outprx s + 8"] and_15_sub(1) [of "outprx s"]
      by (cases rule: and_15_cases [of "outprx s"]) auto
    have lit: "pad_literal ph pad_fuel faligned ?s =
        Some (emit_words ph (replicate ?j Aarch64Nop) ?s)"
      using pad_literal_eq [of ?s faligned pad_fuel ph] al f pad_step(1) [OF a8 f]
      by (simp add: pad_fuel_def)
    note w = faligned_words [OF f pad_step(2) [OF a8 f]]
    define A where "A = inprx s + ucast (signed_drop_bit (8 + 5 - 2) (push_bit 8 ?ins) AND NOT 3)"
    obtain k where k: "4 * k < unat faligned + 1"
      and off: "pad_offset ph pad_fuel (drop_bit 2 faligned) A (signed_drop_bit 2 (A - outprx s)) ?s =
       Some (signed_drop_bit 2 (A - (outprx s + 4 * of_nat k)), emit_words ph (replicate k Aarch64Nop) ?s)"
      using pad_offset_total [OF f, of A ?s ph] by auto
    define X where "X = emit_words ph [(push_bit 5 (drop_bit 2 8) AND NOT op_mask) OR (?ins AND 0xff00001f),
        0x14000001 + ucast ((faligned + 1) div 4)]
      (reset_current_ins ?i (outprx s + 4 * of_nat ?j) (emit_words ph (replicate ?j Aarch64Nop) ?s))"
    define X' where "X' = process_fix_map ph ?i (next_in
      (emit_words ph (read_words ph (fmem X) A (unat (ucast ((faligned + 1) div 4) :: u32))) X))"
    define Y where "Y = process_fix_map ph ?i (next_in (emit ph
      ((ucast (push_bit 5 (signed_drop_bit 2 (A - (outprx s + 4 * of_nat k)))) AND NOT op_mask) OR (?ins AND 0xff00001f))
      (reset_current_ins ?i (outprx s + 4 * of_nat k) (emit_words ph (replicate k Aarch64Nop) ?s))))"
    have run: "fix_loadlit ph s = Some (True, X') \<or> fix_loadlit ph s = Some (True, Y)"
      using lit off unfolding X'_def X_def Y_def A_def
      by (simp only: fix_loadlit_def Let_def get_and_set_current_index_def prod.case no if_False c
          option.case keep_reset if_split_eq1 simp_thms)
        (simp only: keep_emit_words length_replicate keep_reset option.case prod.case, blast)
    have X: "at_most ph rw rx m0 (n + 9 - unat (ucast ((faligned + 1) div 4) :: u32)) X"
      unfolding X_def using w am by (intro bound_intros) (simp_all, auto elim: at_most_mono)
    have kX: "inprx X = inprx s" "inprw X = inprw s" "basep (ctx X) = basep (ctx s)"
      by (simp_all add: X_def)
    have "fixed_within ph rw rx m0 (n + 9) s X'"
      unfolding X'_def fixed_within_def using X w idx
      by (auto intro!: bound_intros simp: kX)
    moreover have "fixed_within ph rw rx m0 (n + 9) s Y"
      unfolding Y_def fixed_within_def using faligned_words(2) [OF f k] am idx
      by (auto intro!: bound_intros elim: at_most_mono)
    ultimately show ?thesis
      using run by auto
  qed
qed

lemma fix_one_within:
  assumes am: "at_most ph rw rx m0 n s" and idx: "get_ref_ins_index (ctx s) (inprx s) < MaxInstructions"
    and al: "outprx s AND 3 = 0"
  shows "\<exists>s'. fix_one ph s = Some s' \<and> fixed_within ph rw rx m0 (n + 9) s s'"
proof (cases "fst (fix_branch_imm ph s)")
  case True
  then show ?thesis
    using fix_branch_imm_within [OF am idx] by (auto simp: fix_one_def split: prod.splits bool.splits)
next
  case b: False
  then have b: "fix_branch_imm ph s = (False, s)"
    using fix_branch_imm_within [OF am idx] by (cases "fix_branch_imm ph s") auto
  show ?thesis
  proof (cases "fst (fix_cond_comp_test_branch ph s)")
    case True
    then show ?thesis
      using fix_cond_within [OF am idx] b by (auto simp: fix_one_def split: prod.splits bool.splits)
  next
    case False
    then have c: "fix_cond_comp_test_branch ph s = (False, s)"
      using fix_cond_within [OF am idx] by (cases "fix_cond_comp_test_branch ph s") auto
    obtain r s' where l: "fix_loadlit ph s = Some (r, s')"
      "if r then fixed_within ph rw rx m0 (n + 9) s s' else s' = s"
      using fix_loadlit_within [OF am idx al] by blast
    show ?thesis
    proof (cases r)
      case True
      then show ?thesis using b c l by (simp add: fix_one_def)
    next
      case False
      then show ?thesis
        using b c l fix_pcreladdr_within [OF am idx] copy_plain_within [OF am idx]
        by (cases "fix_pcreladdr ph s") (fastforce simp: fix_one_def split: bool.splits)
    qed
  qed
qed

text \<open>Every emitted word is four bytes, so the output stays word aligned.\<close>

lemma aligned_4: "((w :: u64) + 4 * of_nat k) AND 3 = w AND 3"
proof (induction k)
  case (Suc k)
  have "((v :: u64) + 4) AND 3 = v AND 3" for v
    using and_15_add [of v 4] unfolding and_15_sub(1) [of "v + 4"] and_15_sub(1) [of v]
    by (cases rule: and_15_cases [of v]) auto
  from this [of "w + 4 * of_nat k"] Suc show ?case by (simp add: algebra_simps)
qed simp

lemma index_of_step:
  assumes "i < MaxInstructions" "basep c = b"
  shows "get_ref_ins_index c (b + 4 * of_nat i) < MaxInstructions"
proof -
  have "i \<in> {0, 1, 2, 3, 4}" using assms by (auto simp: MaxInstructions_def)
  then have "get_ref_ins_index c (b + 4 * of_nat i) = i"
    using assms by (auto simp: get_ref_ins_index_def)
  with assms show ?thesis by simp
qed

lemma fix_loop_within:
  assumes "at_most ph rw rx m0 n s" "rx AND 3 = 0" "i + count \<le> MaxInstructions"
    and "inprx s = basep (ctx s) + 4 * of_nat i"
  shows "\<exists>s'. fix_loop ph count s = Some s' \<and> at_most ph rw rx m0 (n + 9 * count) s' \<and>
           inprx s' = inprx s + 4 * of_nat count"
  using assms
proof (induction count arbitrary: n s i)
  case (Suc count)
  have "outprx s AND 3 = 0"
    using Suc.prems(1,2) by (auto simp: at_most_def emitted_def aligned_4)
  then obtain s' where s': "fix_one ph s = Some s'" "fixed_within ph rw rx m0 (n + 9) s s'"
    using fix_one_within [OF Suc.prems(1)] index_of_step [of i "ctx s"] Suc.prems(3,4) by auto
  then obtain s'' where "fix_loop ph count s' = Some s''" "at_most ph rw rx m0 (n + 9 + 9 * count) s''"
    "inprx s'' = inprx s' + 4 * of_nat count"
    using Suc.IH [of "n + 9" s' "Suc i"] Suc.prems by (auto simp: fixed_within_def algebra_simps)
  with s' show ?case by (simp add: fixed_within_def algebra_simps)
qed simp

lemma fix_start_at_most: "at_most ph rw rx m 0 (fix_start inrw inrx count rw rx m)"
  by (simp add: at_most_def emitted_def fix_start_def slots_def refs_in_def ref_ok_def
      empty_insns_info_def)

lemma fix_tail_within:
  assumes "at_most ph rw rx m0 n s"
  shows "at_most ph rw rx m0 (n + 5) (fix_tail ph s)"
  using assms by (auto simp: fix_tail_def Let_def intro!: bound_intros elim: at_most_mono)

lemma fix_instructions_within:
  assumes "rx AND 3 = 0" "count \<le> MaxInstructions"
  shows "\<exists>s total. fix_instructions ph inrw inrx count rw rx m = Some (s, total) \<and>
           at_most ph rw rx m (9 * count + 5) s"
proof -
  let ?s = "fix_start inrw inrx count rw rx m"
  have "inprx ?s = basep (ctx ?s) + 4 * of_nat 0" by (simp add: fix_start_def)
  with fix_loop_within [OF fix_start_at_most [of ph rw rx m inrw inrx count] assms(1), of 0 count] assms(2)
  obtain s' where "fix_loop ph count ?s = Some s'" "at_most ph rw rx m (9 * count) s'" by auto
  then show ?thesis
    using fix_tail_within by (simp add: fix_instructions_def Let_def)
qed

lemma total_bytes:
  assumes "at_most ph rw rx m N s" "N < 2 ^ 60"
  shows "unat ((outprx s - rx) div 4 * 4) \<le> 4 * N"
proof -
  obtain k where k: "k \<le> N" "outprx s - rx = 4 * of_nat k"
    using assms(1) by (auto simp: at_most_def emitted_def)
  have "unat (4 * of_nat k :: u64) = 4 * k"
    using k(1) assms(2) unat_of_nat_u64 [of "4 * k"] by simp
  then have "unat ((outprx s - rx) div 4 * 4) \<le> 4 * k"
    unfolding k(2) by (simp add: unat_word_ariths unat_div)
  with k(1) show ?thesis by simp
qed

section \<open>Properties\<close>

text \<open>
  C4: relocating a hook's prologue (at most five instructions, word-aligned
  trampoline) always completes; it emits at most the 50 words of one trampoline
  slot, final jump included, and changes no memory outside the slot, not even when
  it patches forward references recorded by earlier instructions.
\<close>

theorem relocation_stays_in_slot:
  assumes "outrx AND 3 = 0" "count \<le> MaxInstructions"
  shows "\<exists>s total. fix_instructions ph inrw inrx count outrw outrx m = Some (s, total) \<and>
           unat total \<le> 4 * TrampolineSize \<and>
           (\<forall>a. (\<forall>k < TrampolineSize. a \<noteq> ph (outrw + 4 * of_nat k)) \<longrightarrow> fmem s a = m a)"
proof -
  obtain s total where s: "fix_instructions ph inrw inrx count outrw outrx m = Some (s, total)"
    "at_most ph outrw outrx m (9 * count + 5) s"
    using fix_instructions_within [OF assms] by blast
  have t: "total = (outprx s - outrx) div 4 * 4"
    using s(1) by (auto simp: fix_instructions_def Let_def split: option.splits)
  have a: "at_most ph outrw outrx m TrampolineSize s"
    using at_most_mono [OF s(2)] assms(2) by (simp add: TrampolineSize_def MaxInstructions_def)
  then obtain k where "k \<le> TrampolineSize" "\<forall>a. a \<notin> slots ph outrw k \<longrightarrow> fmem s a = m a"
    by (auto simp: at_most_def emitted_def)
  then have "\<forall>a. a \<notin> slots ph outrw TrampolineSize \<longrightarrow> fmem s a = m a"
    using slots_mono [of k TrampolineSize ph outrw] by blast
  then show ?thesis
    using s(1) total_bytes [OF a] unfolding t
    by (auto simp: slots_def TrampolineSize_def MaxInstructions_def)
qed

theorem relocation_stays_in_slot_witness:
  "\<exists>s total. fix_instructions id 0x8000000 0x8000000 5 0x50000000 0x50000000 (\<lambda>_. 0x94000001)
       = Some (s, total) \<and> unat total \<le> 4 * TrampolineSize \<and> fmem s 0x8000000 = 0x94000001"
proof -
  let ?m = "(\<lambda>_. 0x94000001) :: wmem"
  have "\<forall>k \<in> set [0..<TrampolineSize]. (0x8000000 :: u64) \<noteq> id (0x50000000 + 4 * of_nat k)"
    by code_simp
  then have n: "\<forall>k < TrampolineSize. (0x8000000 :: u64) \<noteq> id (0x50000000 + 4 * of_nat k)"
    by simp
  have p: "(0x50000000 :: u64) AND 3 = 0" "5 \<le> MaxInstructions"
    by (simp_all add: MaxInstructions_def)
  from relocation_stays_in_slot [OF p, of id "0x8000000" "0x8000000" "0x50000000" ?m]
  obtain s total where s: "fix_instructions id 0x8000000 0x8000000 5 0x50000000 0x50000000 ?m = Some (s, total)"
    "unat total \<le> 4 * TrampolineSize"
    "\<forall>a. (\<forall>k < TrampolineSize. a \<noteq> id (0x50000000 + 4 * of_nat k)) \<longrightarrow> fmem s a = ?m a"
    by (elim exE conjE) (rule that)
  from s(3) n have "fmem s 0x8000000 = ?m 0x8000000" by blast
  with s show ?thesis by blast
qed

end
