(* ===== verification/Hook_Semantics.thy ===== *)
theory Hook_Semantics
  imports Hook_Bounds
begin

text \<open>
  What relocated code does when the processor runs it.  \<open>a64_step\<close> executes one
  instruction of the classes the relocator reads and writes; the theorems run the
  words each fixer of \<open>Hook_Relocate\<close> emits and compare the outcome with the
  original instruction at its original address.
\<close>

section \<open>Executing relocated code\<close>

record cpu =
  pc :: u64
  xr :: "regnum \<Rightarrow> u64"
  flags :: "4 word \<Rightarrow> bool"

definition getx :: "cpu \<Rightarrow> regnum \<Rightarrow> u64" where
  "getx c r = (if r = 31 then 0 else xr c r)"

definition setx :: "regnum \<Rightarrow> u64 \<Rightarrow> cpu \<Rightarrow> cpu" where
  "setx r v c = (if r = 31 then c else c\<lparr>xr := (xr c)(r := v)\<rparr>)"

definition load64 :: "view \<Rightarrow> wmem \<Rightarrow> u64 \<Rightarrow> u64" where
  "load64 ph m a = ucast (rd ph m a) OR push_bit 32 (ucast (rd ph m (a + 4)))"

definition adv :: "cpu \<Rightarrow> cpu" where
  "adv c = c\<lparr>pc := pc c + 4\<rparr>"

definition branch_if :: "bool \<Rightarrow> u64 \<Rightarrow> cpu \<Rightarrow> cpu" where
  "branch_if b target c = (if b then c\<lparr>pc := target\<rparr> else adv c)"

text \<open>The value a literal load of each \<open>opc\<close> puts in its register.\<close>

definition lit_value :: "view \<Rightarrow> wmem \<Rightarrow> 2 word \<Rightarrow> u64 \<Rightarrow> u64" where
  "lit_value ph m opc a =
     (if opc = 0 then ucast (rd ph m a) else if opc = 1 then load64 ph m a else scast (rd ph m a))"

fun a64_exec :: "view \<Rightarrow> wmem \<Rightarrow> a64 \<Rightarrow> cpu \<Rightarrow> cpu option" where
  "a64_exec ph m (BrImm link imm) c =
     Some ((if link then setx 30 (pc c + 4) c else c)\<lparr>pc := br_target (pc c) imm\<rparr>)"
| "a64_exec ph m (BrReg opc rn) c =
     Some ((if opc = 1 then setx 30 (pc c + 4) c else c)\<lparr>pc := getx c rn\<rparr>)"
| "a64_exec ph m (HintInst crm op2) c = Some (adv c)"
| "a64_exec ph m (BrCond imm cond) c = Some (branch_if (flags c cond) (br_target (pc c) imm) c)"
| "a64_exec ph m (CmpBr sf nz imm rt) c =
     (let v = (if sf then getx c rt else take_bit 32 (getx c rt))
      in Some (branch_if ((v = 0) \<noteq> nz) (br_target (pc c) imm) c))"
| "a64_exec ph m (TestBr b5 nz b40 imm rt) c =
     Some (branch_if (bit (getx c rt) (unat b40 + (if b5 then 32 else 0)) = nz) (br_target (pc c) imm) c)"
| "a64_exec ph m (PcRel page immlo immhi rdst) c =
     Some (adv (setx rdst (if page then adrp_result (pc c) immlo immhi
                           else adr_result (pc c) immlo immhi) c))"
| "a64_exec ph m (LdrLit opc v imm rt) c =
     (if v then None else if opc = 3 then Some (adv c)
      else Some (adv (setx rt (lit_value ph m opc (br_target (pc c) imm)) c)))"
| "a64_exec ph m _ c = None"

definition a64_step :: "view \<Rightarrow> wmem \<Rightarrow> cpu \<Rightarrow> cpu option" where
  "a64_step ph m c =
     (case a64_decode (rd ph m (pc c)) of None \<Rightarrow> None | Some i \<Rightarrow> a64_exec ph m i c)"

primrec a64_run :: "view \<Rightarrow> wmem \<Rightarrow> nat \<Rightarrow> cpu \<Rightarrow> cpu option" where
  "a64_run ph m 0 c = Some c"
| "a64_run ph m (Suc n) c =
     (case a64_step ph m c of None \<Rightarrow> None | Some c \<Rightarrow> a64_run ph m n c)"

section \<open>Reading back what was emitted\<close>

text \<open>
  The two views of a slot: the same words, each in a place of its own.
\<close>

definition dual :: "view \<Rightarrow> u64 \<Rightarrow> u64 \<Rightarrow> nat \<Rightarrow> bool" where
  "dual ph rw rx n \<longleftrightarrow>
     (\<forall>k < n. ph (rx + 4 * of_nat k) = ph (rw + 4 * of_nat k)) \<and>
     inj_on (\<lambda>k. ph (rw + 4 * of_nat k)) {..<n}"

primrec write_words :: "view \<Rightarrow> u64 \<Rightarrow> u32 list \<Rightarrow> wmem \<Rightarrow> wmem" where
  "write_words ph a [] m = m"
| "write_words ph a (w # ws) m = write_words ph (a + 4) ws (wr ph a w m)"

primrec code_at :: "view \<Rightarrow> wmem \<Rightarrow> u64 \<Rightarrow> u32 list \<Rightarrow> bool" where
  "code_at ph m a [] \<longleftrightarrow> True"
| "code_at ph m a (w # ws) \<longleftrightarrow> rd ph m a = w \<and> code_at ph m (a + 4) ws"

lemma fmem_emit [simp]: "fmem (emit ph w s) = wr ph (outprw s) w (fmem s)"
  by (simp add: emit_def)

lemma fmem_emit_words [simp]: "fmem (emit_words ph ws s) = write_words ph (outprw s) ws (fmem s)"
  by (induction ws arbitrary: s) simp_all

lemma fmem_emit_nop_reset [simp]:
  "fmem (emit_nop_reset ph i s) = wr ph (outprw s) Aarch64Nop (fmem s)"
  by (simp add: emit_nop_reset_def Let_def)

lemma write_words_other:
  assumes "\<forall>k < length ws. p \<noteq> ph (a + 4 * of_nat k)"
  shows "write_words ph a ws m p = m p"
  using assms
proof (induction ws arbitrary: a m)
  case (Cons w ws)
  have "\<forall>k < length ws. p \<noteq> ph (a + 4 + 4 * of_nat k)"
    using Cons.prems by (auto simp: algebra_simps dest: spec [of _ "Suc _"])
  moreover have "p \<noteq> ph a" using Cons.prems by force
  ultimately show ?case using Cons.IH by (simp add: wr_def)
qed simp

lemma code_at_nth: "code_at ph m a ws \<longleftrightarrow> (\<forall>k < length ws. rd ph m (a + 4 * of_nat k) = ws ! k)"
proof (induction ws arbitrary: a)
  case (Cons w ws)
  show ?case
    by (auto simp: Cons.IH less_Suc_eq_0_disj algebra_simps)
qed simp

lemma write_words_nth:
  assumes "inj_on (\<lambda>k. ph (a + 4 * of_nat k)) {..<length ws}" "i < length ws"
  shows "write_words ph a ws m (ph (a + 4 * of_nat i)) = ws ! i"
  using assms
proof (induction ws arbitrary: a m i)
  case (Cons w ws)
  have sh: "(\<lambda>k. ph (a + 4 + 4 * of_nat k)) = (\<lambda>k. ph (a + 4 * of_nat k)) \<circ> Suc"
    by (auto simp: algebra_simps)
  have inj: "inj_on (\<lambda>k. ph (a + 4 + 4 * of_nat k)) {..<length ws}"
    unfolding sh using Cons.prems(1) by (intro comp_inj_on inj_on_subset [OF Cons.prems(1)]) auto
  show ?case
  proof (cases i)
    case 0
    have "\<forall>k < length ws. ph a \<noteq> ph (a + 4 + 4 * of_nat k)"
      using inj_onD [OF Cons.prems(1), of 0 "Suc _"] by (auto simp: algebra_simps)
    then show ?thesis using 0 by (simp add: write_words_other wr_def)
  next
    case (Suc j)
    then show ?thesis
      using Cons.IH [OF inj, of j] Cons.prems(2) by (simp add: algebra_simps)
  qed
qed simp

lemma dual_mono: "dual ph rw rx n \<Longrightarrow> k \<le> n \<Longrightarrow> dual ph rw rx k"
  by (auto simp: dual_def inj_on_def)

lemma code_at_written:
  assumes "dual ph rw rx n" "length ws \<le> n"
  shows "code_at ph (write_words ph rw ws m) rx ws"
  using dual_mono [OF assms] write_words_nth [of ph rw ws _ m]
  by (auto simp: code_at_nth rd_def dual_def)

section \<open>Decoding the stub words\<close>

lemma stub_words [bitfield]:
  "a64_decode Aarch64Nop = Some (HintInst 0 0)"
  "a64_decode 0x58000051 = Some (LdrLit 1 False 2 17)"
  "a64_decode 0x58000071 = Some (LdrLit 1 False 3 17)"
  "a64_decode 0x1000009e = Some (PcRel False 0 4 30)"
  "a64_decode 0xd61f0220 = Some (BrReg 0 17)"
  "a64_decode 0x14000005 = Some (BrImm False 5)"
  "a64_decode 0x14000003 = Some (BrImm False 3)"
  by code_simp+

lemma stub_targets [bitfield]:
  "br_target a (2 :: 19 word) = a + 8" "br_target a (3 :: 19 word) = a + 12"
  "br_target a (5 :: 26 word) = a + 20" "br_target a (3 :: 26 word) = a + 12"
  "adr_result a 0 4 = a + 16"
  by (simp_all add: br_target_def adr_result_def pcrel_imm_def)

lemma load64_addr_words [bitfield]:
  "rd ph m a = ucast (w :: u64) \<Longrightarrow> rd ph m (a + 4) = ucast (drop_bit 32 w) \<Longrightarrow> load64 ph m a = w"
  unfolding load64_def by (intro bit_word_eqI) (auto simp: bit_simps)

lemma cpu_simps [simp]:
  "pc (setx r v c) = pc c" "flags (setx r v c) = flags c" "pc (adv c) = pc c + 4"
  "xr (adv c) = xr c" "flags (adv c) = flags c"
  "xr (setx r v c) x = (if x = r \<and> r \<noteq> 31 then v else xr c x)"
  by (simp_all add: setx_def adv_def)

lemma getx_adv [simp]: "getx (adv c) r = getx c r"
  by (simp add: getx_def)

lemma getx_setx [simp]: "getx (setx r v c) x = (if x = r \<and> r \<noteq> 31 then v else getx c x)"
  by (simp add: getx_def)

lemma getx_pc [simp]: "getx (c\<lparr>pc := a\<rparr>) r = getx c r"
  by (simp add: getx_def)

lemma setx_pc [simp]: "setx r v (c\<lparr>pc := a\<rparr>) = (setx r v c)\<lparr>pc := a\<rparr>"
  by (simp add: setx_def)

lemma a64_run_numeral [simp]:
  "a64_run ph m (numeral k) c =
     (case a64_step ph m c of None \<Rightarrow> None | Some c \<Rightarrow> a64_run ph m (pred_numeral k) c)"
  by (simp add: numeral_eq_Suc)

text \<open>
  No earlier instruction refers forward to this one, so \<open>process_fix_map\<close> has
  nothing to patch.
\<close>

definition pending_at :: "nat \<Rightarrow> fixst \<Rightarrow> bool" where
  "pending_at i s \<longleftrightarrow> i < length (dat (ctx s)) \<and>
     (case fmap (dat (ctx s) ! i) of [] \<Rightarrow> True | f # _ \<Rightarrow> bprw f = 0)"

lemma pending_at_reset [simp]: "pending_at i (reset_current_ins j a s) = pending_at i s"
  by (cases "j < length (dat (ctx s))")
    (auto simp: pending_at_def reset_current_ins_def nth_list_update)

lemma pending_at_emit [simp]:
  "pending_at i (emit ph w s) = pending_at i s" "pending_at i (emit_words ph ws s) = pending_at i s"
  "pending_at i (next_in s) = pending_at i s"
  by (simp_all add: pending_at_def)

lemma pending_at_emit_nop_reset [simp]:
  "pending_at i (emit_nop_reset ph j s) = pending_at i s"
  by (simp add: emit_nop_reset_def Let_def)

lemma fmem_process_none:
  assumes "pending_at i s"
  shows "fmem (process_fix_map ph i s) = fmem s"
  using assms by (cases "fmap (dat (ctx s) ! i)") (auto simp: pending_at_def process_fix_map_def)

section \<open>B and BL\<close>

definition stub_x17 :: "u64 \<Rightarrow> u32 list" where
  "stub_x17 target = [0x58000051, 0xd61f0220] @ addr_words target"

definition stub_x17_link :: "u64 \<Rightarrow> u32 list" where
  "stub_x17_link target = [0x58000071, 0x1000009e, 0xd61f0220] @ addr_words target"

lemma run_stub_x17:
  assumes "code_at ph m (pc c) (stub_x17 target)"
  shows "a64_run ph m 2 c = Some ((setx 17 target c)\<lparr>pc := target\<rparr>)"
  using assms
  by (simp add: stub_x17_def addr_words_def a64_step_def bitfield lit_value_def
      adv_def add.assoc)

lemma run_stub_x17_link:
  assumes "code_at ph m (pc c) (stub_x17_link target)"
  shows "a64_run ph m 3 c = Some ((setx 30 (pc c + 20) (setx 17 target c))\<lparr>pc := target\<rparr>)"
  using assms
  by (simp add: stub_x17_link_def addr_words_def a64_step_def bitfield lit_value_def
      adv_def add.assoc)

text \<open>What \<open>fix_branch_imm\<close> writes for a branch out of the prologue.\<close>

definition branch_far :: "s64 \<Rightarrow> bool" where
  "branch_far new_pc_offset \<longleftrightarrow> llabs new_pc_offset \<ge> 0x1ffffff"

definition branch_code :: "u32 \<Rightarrow> u64 \<Rightarrow> u64 \<Rightarrow> u32 list" where
  "branch_code opc target out =
     (let off = signed_drop_bit 2 (target - out); b_aligned = ((out + 8) AND 7 = 0)
      in if branch_far off
         then if opc = 0x14000000 then (if b_aligned then [] else [Aarch64Nop]) @ stub_x17 target
              else (if b_aligned then [Aarch64Nop] else []) @ stub_x17_link target
         else [opc OR (ucast off AND NOT 0xfc000000)])"

lemma branch_offset_bits:
  assumes "n < 64"
  shows "bit (scast (signed_drop_bit 4 (push_bit 6 ins) :: s32) :: u64) n =
        bit (push_bit 2 (scast (fld 0 ins :: 26 word)) :: u64) n"
proof -
  have l: "bit (scast (signed_drop_bit 4 (push_bit 6 ins) :: s32) :: u64) n =
      (if n < 2 then False else if n < 28 then bit ins (n - 2) else bit ins 25)"
    using assms by (auto simp: bit_simps min_def)
  have r: "bit (push_bit 2 (scast (fld 0 ins :: 26 word)) :: u64) n =
      (if n < 2 then False else if n < 27 then bit ins (n - 2) else bit ins 25)"
    using assms by (auto simp: bit_simps min_def fld_def)
  have "n < 28 \<Longrightarrow> \<not> n < 27 \<Longrightarrow> n - 2 = 25" by arith
  then show ?thesis unfolding l r by (cases "n < 28"; cases "n < 27") simp_all
qed

lemma branch_offset:
  "(scast (signed_drop_bit 4 (push_bit 6 ins) :: s32) :: u64) = of_int (4 * sint (fld 0 ins :: 26 word))"
proof -
  have "(scast (signed_drop_bit 4 (push_bit 6 ins) :: s32) :: u64) = push_bit 2 (scast (fld 0 ins :: 26 word))"
    by (rule bit_word_eqI, rule branch_offset_bits, simp)
  then show ?thesis by (simp add: push_bit_eq_mult mult.commute)
qed

lemma fix_branch_imm_code:
  assumes "rd ph (fmem s) (inprw s) = ins" "ins AND 0xfc000000 = opc" "opc \<in> {0x14000000, 0x94000000}"
    and t: "target = br_target (inprx s) (fld 0 ins :: 26 word)"
    and "\<not> is_in_fixing_range (ctx s) target"
    and p: "pending_at (get_ref_ins_index (ctx s) (inprx s)) s"
  shows "\<exists>s'. fix_branch_imm ph s = (True, s') \<and>
     fmem s' = write_words ph (outprw s) (branch_code opc target (outprx s)) (fmem s) \<and>
     outprx s' = outprx s + 4 * of_nat (length (branch_code opc target (outprx s)))"
proof -
  have r: "is_in_fixing_range (ctx (reset_current_ins i a s)) x = is_in_fixing_range (ctx s) x" for i a x
    by (simp add: is_in_fixing_range_def)
  have t': "inprx s + scast (signed_drop_bit 4 (push_bit 6 ins) :: s32) = target"
    unfolding branch_offset t br_target_def by simp
  show ?thesis
    using assms t'
    by (auto simp: fix_branch_imm_def get_and_set_current_index_def Let_def r branch_code_def
        branch_far_def fmem_process_none stub_x17_def stub_x17_link_def)
qed

lemma not_opc_mask: "(w :: u32) AND NOT 0xfc000000 = take_bit 26 w"
proof -
  have "(NOT 0xfc000000 :: u32) = mask 26" by code_simp
  then show ?thesis by (simp only: take_bit_eq_mask)
qed

lemma fld_or: "(fld lo (v OR w) :: 'a::len word) = fld lo v OR fld lo w"
  by (rule bit_word_eqI) (auto simp: fld_def bit_simps)

lemma decode_branch_bits:
  "a64_decode (0x14000000 OR take_bit 26 w) = Some (BrImm False (ucast w))"
  "a64_decode (0x94000000 OR take_bit 26 w) = Some (BrImm True (ucast w))"
proof -
  have f: "(fld 0 (0x14000000 :: u32) :: 26 word) = 0" "(fld 0 (0x94000000 :: u32) :: 26 word) = 0"
    by code_simp+
  have g: "(fld 0 (take_bit 26 w) :: 26 word) = ucast w"
    by (rule bit_word_eqI) (auto simp: fld_def bit_simps)
  show "a64_decode (0x14000000 OR take_bit 26 w) = Some (BrImm False (ucast w))"
    "a64_decode (0x94000000 OR take_bit 26 w) = Some (BrImm True (ucast w))"
    by (simp_all add: a64_decode_def u32_eq_iff_bits bit_and_u32 bit_simps fld_or f g)
qed

lemma decode_branch_near:
  assumes "opc \<in> {0x14000000, 0x94000000 :: u32}"
  shows "a64_decode (opc OR (ucast (off :: s64) AND NOT 0xfc000000)) =
           Some (BrImm (opc = 0x94000000) (ucast off))"
  using assms decode_branch_bits [of "ucast off"] unfolding not_opc_mask
  by (auto simp: ucast_ucast_u32)

lemma br_target_near:
  fixes d :: s64
  assumes "d AND 3 = 0" "- (2 ^ LENGTH('n::len)) \<le> 2 * sint (signed_drop_bit 2 d)"
    "2 * sint (signed_drop_bit 2 d) < 2 ^ LENGTH('n)" "LENGTH('n) \<le> 62"
  shows "br_target a (ucast (signed_drop_bit 2 d) :: 'n word) = a + d"
proof -
  let ?o = "signed_drop_bit 2 d"
  have p: "(2 :: int) ^ LENGTH('n) = 2 * 2 ^ (LENGTH('n) - 1)"
    by (cases "LENGTH('n)") simp_all
  have "(ucast ?o :: 'n word) = word_of_int (sint ?o)"
    using assms(4) by (intro bit_word_eqI) (auto simp: bit_simps min_def)
  then have "sint (ucast ?o :: 'n word) = signed_take_bit (LENGTH('n) - 1) (sint ?o)"
    by (simp only: sint_sbintrunc')
  also have "\<dots> = sint ?o"
    using assms(2,3) unfolding p by (intro signed_take_bit_int_eq_self) simp_all
  finally have s: "sint (ucast ?o :: 'n word) = sint ?o" .
  have "(4 * of_int (sint ?o) :: u64) = push_bit 2 ?o"
    by (simp add: push_bit_eq_mult)
  also have "\<dots> = d"
  proof (rule bit_word_eqI)
    fix n
    assume n: "n < LENGTH(64)"
    have "\<not> bit d k" if "k < 2" for k
    proof -
      have "bit (d AND 3) k = bit d k"
        using that by (cases k) (auto simp: bit_simps less_Suc_eq numeral_2_eq_2)
      with assms(1) show ?thesis by simp
    qed
    show "bit (push_bit 2 ?o) n = bit d n"
    proof (cases "n < 2")
      case True
      then show ?thesis using \<open>\<And>k. k < 2 \<Longrightarrow> \<not> bit d k\<close> by (simp add: bit_push_bit_iff)
    next
      case False
      then obtain k where "n = k + 2" by (metis add.commute le_Suc_ex not_less)
      with n show ?thesis by (auto simp: bit_simps)
    qed
  qed
  finally show ?thesis
    unfolding br_target_def s by simp
qed

text \<open>
  Running the emitted words, from the first of them, performs the branch: control
  is at the target, the link register names the word after the stub, and no
  register but the scratch register \<open>X17\<close> has changed.
\<close>

definition same_but_x17 :: "cpu \<Rightarrow> cpu \<Rightarrow> bool" where
  "same_but_x17 c c' \<longleftrightarrow> flags c' = flags c \<and> (\<forall>r. r \<noteq> 17 \<longrightarrow> xr c' r = xr c r)"

definition reaches :: "view \<Rightarrow> wmem \<Rightarrow> cpu \<Rightarrow> (cpu \<Rightarrow> bool) \<Rightarrow> bool" where
  "reaches ph m c P \<longleftrightarrow> (\<exists>n c'. a64_run ph m n c = Some c' \<and> P c')"

lemma reachesI: "a64_run ph m n c = Some c' \<Longrightarrow> P c' \<Longrightarrow> reaches ph m c P"
  unfolding reaches_def by blast

lemma reaches_mono: "reaches ph m c P \<Longrightarrow> (\<And>c'. P c' \<Longrightarrow> Q c') \<Longrightarrow> reaches ph m c Q"
  unfolding reaches_def by blast

lemma branch_code_runs:
  assumes o: "opc \<in> {0x14000000, 0x94000000}" and al: "(target - pc c) AND 3 = 0"
    and code: "code_at ph m (pc c) (branch_code opc target (pc c))"
  shows "reaches ph m c (\<lambda>c'. pc c' = target \<and>
     same_but_x17 (if opc = 0x94000000
                   then setx 30 (pc c + 4 * of_nat (length (branch_code opc target (pc c)))) c else c) c')"
proof -
  let ?off = "signed_drop_bit 2 (target - pc c)"
  consider (near) "\<not> branch_far ?off" | (b) "branch_far ?off" "opc = 0x14000000"
    | (bl) "branch_far ?off" "opc = 0x94000000"
    using o by blast
  then show ?thesis
  proof cases
    case near
    then have r: "- (2 ^ LENGTH(26)) \<le> 2 * sint ?off" "2 * sint ?off < 2 ^ LENGTH(26)"
      by (auto simp: branch_far_def llabs_def)
    have "a64_run ph m 1 c =
        Some ((if opc = 0x94000000 then setx 30 (pc c + 4) c else c)\<lparr>pc := target\<rparr>)"
      using near code br_target_near [OF al r, of "pc c"] decode_branch_near [OF o]
      by (simp add: branch_code_def a64_step_def)
    then show ?thesis
      using near by (elim reachesI) (auto simp: same_but_x17_def branch_code_def)
  next
    case b
    show ?thesis
    proof (cases "(pc c + 8) AND 7 = 0")
      case True
      then have "a64_run ph m 2 c = Some ((setx 17 target c)\<lparr>pc := target\<rparr>)"
        using b code by (intro run_stub_x17) (simp add: branch_code_def)
      then show ?thesis
        using b by (elim reachesI) (auto simp: same_but_x17_def)
    next
      case False
      then have w: "rd ph m (pc c) = Aarch64Nop" "code_at ph m (pc (adv c)) (stub_x17 target)"
        using b code by (simp_all add: branch_code_def)
      have "a64_step ph m c = Some (adv c)"
        by (simp add: a64_step_def w(1) stub_words)
      moreover note run_stub_x17 [OF w(2)]
      ultimately have "a64_run ph m (Suc 2) c = Some ((setx 17 target (adv c))\<lparr>pc := target\<rparr>)"
        by (simp only: a64_run.simps option.case)
      then show ?thesis
        using b by (elim reachesI) (auto simp: same_but_x17_def)
    qed
  next
    case bl
    show ?thesis
    proof (cases "(pc c + 8) AND 7 = 0")
      case False
      then have "a64_run ph m 3 c = Some ((setx 30 (pc c + 20) (setx 17 target c))\<lparr>pc := target\<rparr>)"
        using bl code by (intro run_stub_x17_link) (simp add: branch_code_def)
      then show ?thesis
        using bl False by (elim reachesI) (auto simp: same_but_x17_def branch_code_def stub_x17_link_def)
    next
      case True
      then have w: "rd ph m (pc c) = Aarch64Nop" "code_at ph m (pc (adv c)) (stub_x17_link target)"
        using bl code by (simp_all add: branch_code_def)
      have "a64_step ph m c = Some (adv c)"
        by (simp add: a64_step_def w(1) stub_words)
      moreover note run_stub_x17_link [OF w(2)]
      ultimately have "a64_run ph m (Suc 3) c =
          Some ((setx 30 (pc (adv c) + 20) (setx 17 target (adv c)))\<lparr>pc := target\<rparr>)"
        by (simp only: a64_run.simps option.case)
      then show ?thesis
        using bl True by (elim reachesI) (auto simp: same_but_x17_def branch_code_def stub_x17_link_def)
    qed
  qed
qed

lemma branch_code_length: "length (branch_code opc target out) \<le> 6"
  by (auto simp: branch_code_def Let_def stub_x17_def stub_x17_link_def)

lemma decode_BrImm_fields:
  assumes "a64_decode ins = Some (BrImm link imm)"
  shows "ins AND 0xfc000000 = (if link then 0x94000000 else 0x14000000)" "imm = fld 0 ins"
proof -
  have b: "link = bit ins 31" "imm = fld 0 ins" "ins AND 0x7C000000 = 0x14000000"
    using assms by (auto simp: a64_decode_def split: if_splits)
  then show "imm = fld 0 ins" by simp
  have "bit ins 30 = False" "bit ins 29 = False" "bit ins 28" "bit ins 27 = False" "bit ins 26"
    using b(3) unfolding u32_eq_iff_bits by (simp_all add: bit_and_u32)
  then show "ins AND 0xfc000000 = (if link then 0x94000000 else 0x14000000)"
    unfolding b(1) by (auto simp: u32_eq_iff_bits bit_and_u32)
qed

section \<open>B.cond, CBZ, CBNZ, TBZ, TBNZ\<close>

fun cond_sint :: "a64 \<Rightarrow> int" where
  "cond_sint (BrCond imm c) = sint imm"
| "cond_sint (CmpBr sf nz imm rt) = sint imm"
| "cond_sint (TestBr b5 nz b40 imm rt) = sint imm"
| "cond_sint _ = 0"

fun cond_uint :: "a64 \<Rightarrow> int" where
  "cond_uint (BrCond imm c) = uint imm"
| "cond_uint (CmpBr sf nz imm rt) = uint imm"
| "cond_uint (TestBr b5 nz b40 imm rt) = uint imm"
| "cond_uint _ = 0"

fun cond_taken :: "a64 \<Rightarrow> cpu \<Rightarrow> bool" where
  "cond_taken (BrCond imm cond) c = flags c cond"
| "cond_taken (CmpBr sf nz imm rt) c =
     (((if sf then getx c rt else take_bit 32 (getx c rt)) = 0) \<noteq> nz)"
| "cond_taken (TestBr b5 nz b40 imm rt) c = (bit (getx c rt) (unat b40 + (if b5 then 32 else 0)) = nz)"
| "cond_taken _ c = False"

fun set_imm :: "u32 \<Rightarrow> a64 \<Rightarrow> a64" where
  "set_imm x (BrCond imm c) = BrCond (fld 5 x) c"
| "set_imm x (CmpBr sf nz imm rt) = CmpBr sf nz (fld 5 x) rt"
| "set_imm x (TestBr b5 nz b40 imm rt) = TestBr b5 nz b40 (fld 5 x) rt"
| "set_imm x i = i"

fun is_cond :: "a64 \<Rightarrow> bool" where
  "is_cond (BrCond imm c) = True"
| "is_cond (CmpBr sf nz imm rt) = True"
| "is_cond (TestBr b5 nz b40 imm rt) = True"
| "is_cond _ = False"

lemma cond_taken_set_imm [simp]: "cond_taken (set_imm x i) c = cond_taken i c"
  by (cases i) simp_all

lemma exec_cond:
  "is_cond i \<Longrightarrow> a64_exec ph m i c =
     Some (branch_if (cond_taken i c) (pc c + of_int (4 * cond_sint i)) c)"
  by (cases i) (simp_all add: Let_def br_target_def)

text \<open>The bits an instruction and its relocated copy share, and the field they do not.\<close>

lemma not_lmasks: "NOT 0xff00001f = (0x00ffffe0 :: u32)" "NOT 0xfff8001f = (0x0007ffe0 :: u32)"
  by code_simp+

lemma fld_and: "(fld lo (v AND w) :: 'a::len word) = fld lo v AND fld lo w"
  by (rule bit_word_eqI) (auto simp: fld_def bit_simps)

lemma decode_bcond:
  "ins AND 0xff000010 = 0x54000000 \<Longrightarrow> a64_decode ins = Some (BrCond (fld 5 ins) (fld 0 ins))"
  by (simp add: a64_decode_def u32_eq_iff_bits bit_and_u32)

lemma decode_cb:
  "ins AND 0x7f000000 = 0x34000000 \<Longrightarrow> a64_decode ins = Some (CmpBr (bit ins 31) False (fld 5 ins) (fld 0 ins))"
  "ins AND 0x7f000000 = 0x35000000 \<Longrightarrow> a64_decode ins = Some (CmpBr (bit ins 31) True (fld 5 ins) (fld 0 ins))"
  by (simp_all add: a64_decode_def u32_eq_iff_bits bit_and_u32)

lemma decode_tb:
  "ins AND 0x7f000000 = 0x36000000 \<Longrightarrow>
     a64_decode ins = Some (TestBr (bit ins 31) False (fld 19 ins) (fld 5 ins) (fld 0 ins))"
  "ins AND 0x7f000000 = 0x37000000 \<Longrightarrow>
     a64_decode ins = Some (TestBr (bit ins 31) True (fld 19 ins) (fld 5 ins) (fld 0 ins))"
  by (simp_all add: a64_decode_def u32_eq_iff_bits bit_and_u32)

text \<open>A word that keeps the \<open>lmask\<close> bits of \<open>ins\<close> and takes its displacement from \<open>x\<close>.\<close>

definition redirected :: "u32 \<Rightarrow> u32 \<Rightarrow> u32 \<Rightarrow> u32" where
  "redirected lmask x ins = (x AND NOT lmask) OR (ins AND lmask)"

lemma bit_redirected: "bit (redirected lmask x ins) n \<longleftrightarrow> (if bit lmask n then bit ins n else n < 32 \<and> bit x n)"
  by (auto simp: redirected_def bit_simps dest: bit_imp_le_length)

lemma redirected_and:
  "(redirected lmask x ins) AND m = ins AND m" if "m AND lmask = m"
proof (rule bit_word_eqI)
  fix n
  have "bit m n \<Longrightarrow> bit lmask n"
    using arg_cong [OF that, of "\<lambda>w. bit w n"] by (simp add: bit_and_u32)
  then show "bit (redirected lmask x ins AND m) n = bit (ins AND m) n"
    by (auto simp: bit_and_u32 bit_redirected)
qed

lemma bit_lmasks:
  "bit (0xff00001f :: u32) n \<longleftrightarrow> n < 5 \<or> 24 \<le> n \<and> n < 32"
  "bit (0xfff8001f :: u32) n \<longleftrightarrow> n < 5 \<or> 19 \<le> n \<and> n < 32"
proof -
  have a: "0xff00001f = (mask 5 OR push_bit 24 (mask 8) :: u32)"
    "0xfff8001f = (mask 5 OR push_bit 19 (mask 13) :: u32)" by code_simp+
  show "bit (0xff00001f :: u32) n \<longleftrightarrow> n < 5 \<or> 24 \<le> n \<and> n < 32"
    "bit (0xfff8001f :: u32) n \<longleftrightarrow> n < 5 \<or> 19 \<le> n \<and> n < 32"
    unfolding a by (auto simp add: bit_or_iff bit_push_bit_iff bit_mask_iff)
qed

lemma fld_redirected_19:
  "(fld 5 (redirected 0xff00001f x ins) :: 19 word) = fld 5 x"
  "(fld 0 (redirected 0xff00001f x ins) :: 5 word) = fld 0 ins"
  "(fld 0 (redirected 0xff00001f x ins) :: 4 word) = fld 0 ins"
  "bit (redirected 0xff00001f x ins) 31 = bit ins 31"
  by ((rule bit_word_eqI)?, simp only: bit_fld bit_redirected bit_lmasks, auto)+

lemma fld_redirected_14:
  "(fld 5 (redirected 0xfff8001f x ins) :: 14 word) = fld 5 x"
  "(fld 0 (redirected 0xfff8001f x ins) :: 5 word) = fld 0 ins"
  "(fld 19 (redirected 0xfff8001f x ins) :: 5 word) = fld 19 ins"
  "bit (redirected 0xfff8001f x ins) 31 = bit ins 31"
  by ((rule bit_word_eqI)?, simp only: bit_fld bit_redirected bit_lmasks, auto)+

lemma cond_decode:
  assumes "cond_lmask ins = Some lmask"
  shows "\<exists>i. a64_decode ins = Some i \<and> is_cond i \<and> (\<forall>x. a64_decode (redirected lmask x ins) = Some (set_imm x i))"
proof -
  consider (bc) "ins AND 0xff000010 = 0x54000000" "lmask = 0xff00001f"
    | (cbz) "ins AND 0x7f000000 = 0x34000000" "lmask = 0xff00001f"
    | (cbnz) "ins AND 0x7f000000 = 0x35000000" "lmask = 0xff00001f"
    | (tbz) "ins AND 0x7f000000 = 0x36000000" "lmask = 0xfff8001f"
    | (tbnz) "ins AND 0x7f000000 = 0x37000000" "lmask = 0xfff8001f"
    using assms by (auto simp: cond_lmask_def Let_def split: if_splits)
  then show ?thesis
  proof cases
    case bc
    then show ?thesis
      using decode_bcond [of "redirected lmask _ ins"] decode_bcond [OF bc(1)]
      by (simp add: redirected_and fld_redirected_19)
  next
    case cbz
    then show ?thesis
      using decode_cb(1) [of "redirected lmask _ ins"] decode_cb(1) [OF cbz(1)]
      by (simp add: redirected_and fld_redirected_19)
  next
    case cbnz
    then show ?thesis
      using decode_cb(2) [of "redirected lmask _ ins"] decode_cb(2) [OF cbnz(1)]
      by (simp add: redirected_and fld_redirected_19)
  next
    case tbz
    then show ?thesis
      using decode_tb(1) [of "redirected lmask _ ins"] decode_tb(1) [OF tbz(1)]
      by (simp add: redirected_and fld_redirected_14)
  next
    case tbnz
    then show ?thesis
      using decode_tb(2) [of "redirected lmask _ ins"] decode_tb(2) [OF tbnz(1)]
      by (simp add: redirected_and fld_redirected_14)
  qed
qed

text \<open>What \<open>fix_cond_comp_test_branch\<close> writes for a target out of the prologue.\<close>

definition cond_far :: "u32 \<Rightarrow> s64 \<Rightarrow> bool" where
  "cond_far lmask new_pc_offset \<longleftrightarrow> llabs new_pc_offset \<ge> uint (drop_bit 6 (NOT lmask))"

definition cond_code :: "u32 \<Rightarrow> u32 \<Rightarrow> u64 \<Rightarrow> u64 \<Rightarrow> u32 list" where
  "cond_code lmask ins target out =
     (let off = signed_drop_bit 2 (target - out)
      in if cond_far lmask off
         then (if (out + 16) AND 7 \<noteq> 0 then [Aarch64Nop] else []) @
              [redirected lmask 64 ins, 0x14000005] @ stub_x17 target
         else [redirected lmask (ucast (push_bit 5 off)) ins])"

lemma cond_code_length: "length (cond_code lmask ins target out) \<le> 7"
  by (auto simp: cond_code_def Let_def stub_x17_def)

lemma range_reset [simp]:
  "is_in_fixing_range (ctx (reset_current_ins i a s)) x = is_in_fixing_range (ctx s) x"
  by (simp add: is_in_fixing_range_def)

lemma fix_cond_code:
  assumes i: "rd ph (fmem s) (inprw s) = ins" and l: "cond_lmask ins = Some lmask"
    and t: "target = inprx s + ucast (drop_bit 3 (ins AND NOT lmask))"
    and r: "\<not> is_in_fixing_range (ctx s) target"
    and p: "pending_at (get_ref_ins_index (ctx s) (inprx s)) s"
  shows "\<exists>s'. fix_cond_comp_test_branch ph s = (True, s') \<and>
     fmem s' = write_words ph (outprw s) (cond_code lmask ins target (outprx s)) (fmem s) \<and>
     outprx s' = outprx s + 4 * of_nat (length (cond_code lmask ins target (outprx s)))"
  using i l r p t [symmetric]
  by (simp add: fix_cond_comp_test_branch_def get_and_set_current_index_def Let_def cond_code_def
      cond_far_def fmem_process_none stub_x17_def redirected_def)

lemma cond_far_bits:
  "uint (drop_bit 6 (NOT 0xff00001f :: u32)) = 2 ^ 18 - 1"
  "uint (drop_bit 6 (NOT 0xfff8001f :: u32)) = 2 ^ 13 - 1"
  by code_simp+

lemma cond_lmask_cases:
  assumes "cond_lmask ins = Some lmask" "a64_decode ins = Some i"
  shows "(\<exists>imm. lmask = 0xff00001f \<and> cond_uint i = uint (imm :: 19 word) \<and> cond_sint i = sint imm \<and> imm = fld 5 ins \<and>
             (\<forall>x. cond_sint (set_imm x i) = sint (fld 5 x :: 19 word))) \<or>
         (\<exists>imm. lmask = 0xfff8001f \<and> cond_uint i = uint (imm :: 14 word) \<and> cond_sint i = sint imm \<and> imm = fld 5 ins \<and>
             (\<forall>x. cond_sint (set_imm x i) = sint (fld 5 x :: 14 word)))"
proof -
  consider (bc) "ins AND 0xff000010 = 0x54000000" "lmask = 0xff00001f"
    | (cbz) "ins AND 0x7f000000 = 0x34000000" "lmask = 0xff00001f"
    | (cbnz) "ins AND 0x7f000000 = 0x35000000" "lmask = 0xff00001f"
    | (tbz) "ins AND 0x7f000000 = 0x36000000" "lmask = 0xfff8001f"
    | (tbnz) "ins AND 0x7f000000 = 0x37000000" "lmask = 0xfff8001f"
    using assms(1) by (auto simp: cond_lmask_def Let_def split: if_splits)
  then show ?thesis
    using assms(2) decode_bcond [of ins] decode_cb [of ins] decode_tb [of ins]
    by cases auto
qed

text \<open>The displacement the relocator reads: the field as an unsigned number of words.\<close>

lemma cond_displacement:
  assumes "cond_lmask ins = Some lmask" "a64_decode ins = Some i"
  shows "(ucast (drop_bit 3 (ins AND NOT lmask)) :: u64) = of_int (4 * cond_uint i)"
proof -
  have b: "bit (ucast (drop_bit 3 (ins AND NOT L)) :: u64) n \<longleftrightarrow> n < 64 \<and> bit ins (3 + n) \<and> \<not> bit L (3 + n)" for L n
    by (auto simp: bit_simps dest: bit_imp_le_length)
  have f: "bit (push_bit 2 (ucast (fld 5 ins :: 'n::len word)) :: u64) n \<longleftrightarrow>
      n < 64 \<and> 2 \<le> n \<and> n < LENGTH('n) + 2 \<and> bit ins (3 + n)" for n
    by (cases "n < 2") (auto simp: bit_simps bit_fld dest!: le_Suc_ex [of 2 n, unfolded not_less [symmetric]])
  have e: "(ucast (drop_bit 3 (ins AND NOT 0xff00001f)) :: u64) = push_bit 2 (ucast (fld 5 ins :: 19 word))"
    by (rule bit_word_eqI, simp only: b f bit_lmasks) (auto dest: bit_imp_le_length)
  have e': "(ucast (drop_bit 3 (ins AND NOT 0xfff8001f)) :: u64) = push_bit 2 (ucast (fld 5 ins :: 14 word))"
    by (rule bit_word_eqI, simp only: b f bit_lmasks) (auto dest: bit_imp_le_length)
  show ?thesis
    using cond_lmask_cases [OF assms] e e' by (auto simp: push_bit_eq_mult mult.commute)
qed

lemma ucast_push5: "(fld 5 (ucast (push_bit 5 (off :: s64))) :: 'a::len word) = ucast off" if "LENGTH('a) \<le> 27"
  using that by (intro bit_word_eqI) (auto simp: bit_fld bit_simps)

lemma fld_64: "(fld 5 64 :: 19 word) = 2" "(fld 5 64 :: 14 word) = 2"
  by code_simp+

text \<open>
  Running the emitted words: a taken branch is at the target, one not taken is at
  the word after the emitted code.
\<close>

lemma cond_code_runs:
  assumes l: "cond_lmask ins = Some lmask" and d: "a64_decode ins = Some i"
    and al: "(target - pc c) AND 3 = 0"
    and code: "code_at ph m (pc c) (cond_code lmask ins target (pc c))"
  shows "reaches ph m c (\<lambda>c'. same_but_x17 c c' \<and>
     pc c' = (if cond_taken i c then target
              else pc c + 4 * of_nat (length (cond_code lmask ins target (pc c)))))"
proof -
  let ?off = "signed_drop_bit 2 (target - pc c)"
  have ic: "is_cond i" and dec: "\<And>x. a64_decode (redirected lmask x ins) = Some (set_imm x i)"
    using cond_decode [OF l] d by auto
  have isc: "is_cond (set_imm x i)" for x using ic by (cases i) simp_all
  show ?thesis
  proof (cases "cond_far lmask ?off")
    case False
    have t: "pc c + of_int (4 * cond_sint (set_imm (ucast (push_bit 5 ?off)) i)) = target"
      using cond_lmask_cases [OF l d]
    proof (elim disjE exE conjE)
      fix imm :: "19 word"
      assume h: "lmask = 0xff00001f" "\<forall>x. cond_sint (set_imm x i) = sint (fld 5 x :: 19 word)"
      then have "llabs ?off < 2 ^ 18 - 1"
        using False by (simp only: cond_far_def cond_far_bits not_le)
      then have "br_target (pc c) (ucast ?off :: 19 word) = pc c + (target - pc c)"
        using al by (intro br_target_near) (auto simp: llabs_def)
      then show ?thesis using h by (simp add: ucast_push5 br_target_def)
    next
      fix imm :: "14 word"
      assume h: "lmask = 0xfff8001f" "\<forall>x. cond_sint (set_imm x i) = sint (fld 5 x :: 14 word)"
      then have "llabs ?off < 2 ^ 13 - 1"
        using False by (simp only: cond_far_def cond_far_bits not_le)
      then have "br_target (pc c) (ucast ?off :: 14 word) = pc c + (target - pc c)"
        using al by (intro br_target_near) (auto simp: llabs_def)
      then show ?thesis using h by (simp add: ucast_push5 br_target_def)
    qed
    have "a64_run ph m 1 c = Some (branch_if (cond_taken i c) target c)"
      using False code dec exec_cond [OF isc, of ph m "ucast (push_bit 5 ?off)" c] t
      by (simp add: cond_code_def a64_step_def)
    then show ?thesis
      using False by (elim reachesI) (auto simp: same_but_x17_def branch_if_def cond_code_def)
  next
    case True
    let ?stub = "[redirected lmask 64 ins, 0x14000005] @ stub_x17 target"
    have two: "cond_sint (set_imm 64 i) = 2"
      using cond_lmask_cases [OF l d] by (auto simp: fld_64)
    have stub: "reaches ph m d (\<lambda>c'. same_but_x17 d c' \<and>
        pc c' = (if cond_taken i d then target else pc d + 24))"
      if "code_at ph m (pc d) ?stub" for d
    proof (cases "cond_taken i d")
      case taken: True
      let ?d = "d\<lparr>pc := pc d + 8\<rparr>"
      have "a64_step ph m d = Some ?d"
        using that dec exec_cond [OF isc, of ph m 64 d] taken
        by (simp add: a64_step_def two branch_if_def)
      moreover have "a64_run ph m 2 ?d = Some ((setx 17 target ?d)\<lparr>pc := target\<rparr>)"
        using that by (intro run_stub_x17) (simp add: add.assoc)
      ultimately have "a64_run ph m (Suc 2) d = Some ((setx 17 target ?d)\<lparr>pc := target\<rparr>)"
        by (simp only: a64_run.simps option.case)
      then show ?thesis
        using taken by (elim reachesI) (auto simp: same_but_x17_def)
    next
      case not_taken: False
      have "a64_run ph m 2 d = Some (d\<lparr>pc := pc d + 24\<rparr>)"
        using that dec exec_cond [OF isc, of ph m 64 d] not_taken
        by (simp add: a64_step_def branch_if_def bitfield adv_def)
      then show ?thesis
        using not_taken by (elim reachesI) (auto simp: same_but_x17_def)
    qed
    show ?thesis
    proof (cases "(pc c + 16) AND 7 = 0")
      case al0: True
      then have "reaches ph m c (\<lambda>c'. same_but_x17 c c' \<and>
          pc c' = (if cond_taken i c then target else pc c + 24))"
        using code True by (intro stub) (simp add: cond_code_def)
      then show ?thesis
        using True al0 by (cases "cond_taken i c") (simp_all add: cond_code_def stub_x17_def)
    next
      case al1: False
      then have w: "rd ph m (pc c) = Aarch64Nop" "code_at ph m (pc (adv c)) ?stub"
        using code True by (simp_all add: cond_code_def)
      have st: "a64_step ph m c = Some (adv c)"
        by (simp add: a64_step_def w(1) stub_words)
      have tk: "cond_taken i (adv c) = cond_taken i c" by (cases i) simp_all
      obtain n c' where "a64_run ph m n (adv c) = Some c'" "same_but_x17 (adv c) c'"
        "pc c' = (if cond_taken i c then target else pc c + 28)"
        using stub [OF w(2)] by (auto simp: reaches_def tk)
      moreover then have "a64_run ph m (Suc n) c = Some c'" using st by simp
      ultimately show ?thesis
        using True al1 by (elim reachesI) (auto simp: same_but_x17_def cond_code_def stub_x17_def)
    qed
  qed
qed

section \<open>ADR and ADRP\<close>

definition adr_far :: "s64 \<Rightarrow> bool" where
  "adr_far new_pc_offset \<longleftrightarrow> llabs new_pc_offset \<ge> 0xfffff"

definition load_abs :: "u32 \<Rightarrow> u32" where
  "load_abs ins = 0x58000000 OR (64 AND NOT 0x9f000000) OR (ins AND 0x1f)"

definition adr_stub :: "u32 \<Rightarrow> u64 \<Rightarrow> u64 \<Rightarrow> u32 list" where
  "adr_stub ins target out =
     (if (out + 8) AND 7 \<noteq> 0 then [Aarch64Nop] else []) @ [load_abs ins, 0x14000003] @ addr_words target"

definition adr_code :: "u32 \<Rightarrow> u64 \<Rightarrow> u64 \<Rightarrow> u32 list" where
  "adr_code ins target out =
     (if adr_far (target - out) then adr_stub ins target out
      else [(ucast (push_bit 3 (target - out)) AND 0x00ffffff) OR (ins AND 0xff00001f)])"

definition adr_displacement :: "u32 \<Rightarrow> u32" where
  "adr_displacement ins = (signed_drop_bit 11 (push_bit 8 ins) AND NOT 3) OR adr_lsb_bytes ins"

lemma adr_displacement_eq:
  "adr_displacement ins = word_of_int (pcrel_imm (fld 29 ins) (fld 5 ins))"
proof -
  have hi: "(signed_drop_bit 11 (push_bit 8 ins) AND NOT 3 :: u32) = push_bit 2 (scast (fld 5 ins :: 19 word))"
  proof (rule bit_word_eqI)
    fix n :: nat
    assume "n < LENGTH(32)"
    have m: "bit (3 :: u32) k \<longleftrightarrow> k < 2" for k
    proof -
      have "(3 :: u32) = mask 2" by (simp add: mask_eq_decr_exp)
      then show ?thesis by (simp only: bit_mask_iff) auto
    qed
    have l: "bit (signed_drop_bit 11 (push_bit 8 ins) AND NOT 3 :: u32) n \<longleftrightarrow>
        2 \<le> n \<and> (if n < 21 then bit ins (3 + n) else bit ins 23)"
      using \<open>n < LENGTH(32)\<close> by (simp only: bit_and_iff bit_not_iff m) (auto simp: bit_simps min_def)
    have r: "bit (push_bit 2 (scast (fld 5 ins :: 19 word)) :: u32) n \<longleftrightarrow>
        2 \<le> n \<and> (if n < 20 then bit ins (3 + n) else bit ins 23)"
      using \<open>n < LENGTH(32)\<close>
      by (cases "n < 2") (auto simp: bit_simps bit_fld min_def dest!: le_Suc_ex [of 2 n, unfolded not_less [symmetric]])
    have "n < 21 \<longleftrightarrow> n < 20 \<or> n = 20" by arith
    then show "bit (signed_drop_bit 11 (push_bit 8 ins) AND NOT 3 :: u32) n =
        bit (push_bit 2 (scast (fld 5 ins :: 19 word)) :: u32) n"
      unfolding l r by (cases "n = 20") simp_all
  qed
  have lo: "adr_lsb_bytes ins = ucast (fld 29 ins :: 2 word)"
    by (rule bit_word_eqI, simp only: adr_lsb_bytes_def bit_drop_bit_eq bit_push_bit_iff bit_ucast_iff
        bit_fld comp_def) (auto dest: bit_imp_le_length)
  have "push_bit 2 (scast (fld 5 ins :: 19 word)) AND (ucast (fld 29 ins :: 2 word) :: u32) = 0"
    by (rule bit_word_eqI) (auto simp: bit_simps dest!: bit_imp_le_length [of "fld 29 ins :: 2 word"])
  then have "adr_displacement ins = push_bit 2 (scast (fld 5 ins :: 19 word)) + ucast (fld 29 ins :: 2 word)"
    unfolding adr_displacement_def hi lo by (simp add: disjunctive_add_eq_or)
  then show ?thesis by (simp add: pcrel_imm_def push_bit_eq_mult mult.commute)
qed

lemma load_abs_decode: "a64_decode (load_abs ins) = Some (LdrLit 1 False 2 (fld 0 ins))"
proof -
  have e: "load_abs ins = 0x58000040 OR take_bit 5 ins"
  proof -
    have m: "(0x1f :: u32) = mask 5" by (simp add: mask_eq_decr_exp)
    have k: "(0x58000000 OR (64 AND NOT 0x9f000000)) = (0x58000040 :: u32)" by code_simp
    show ?thesis
      unfolding load_abs_def or.assoc [symmetric] k unfolding m take_bit_eq_mask ..
  qed
  have f: "(fld 0 (0x58000040 OR take_bit 5 ins) :: 5 word) = fld 0 ins"
    "(fld 5 (0x58000040 OR take_bit 5 ins) :: 19 word) = 2"
    "(fld 30 (0x58000040 OR take_bit 5 ins) :: 2 word) = 1"
  proof -
    have "(fld 0 (0x58000040 :: u32) :: 5 word) = 0" "(fld 5 (0x58000040 :: u32) :: 19 word) = 2"
      "(fld 30 (0x58000040 :: u32) :: 2 word) = 1" by code_simp+
    moreover have "(fld 0 (take_bit 5 ins) :: 5 word) = fld 0 ins"
      by (rule bit_word_eqI) (auto simp: bit_fld bit_simps)
    moreover have "(fld 5 (take_bit 5 ins) :: 19 word) = 0"
      by (rule bit_word_eqI) (auto simp: bit_fld bit_simps)
    moreover have "(fld 30 (take_bit 5 ins) :: 2 word) = 0"
      by (rule bit_word_eqI) (auto simp: bit_fld bit_simps)
    ultimately show "(fld 0 (0x58000040 OR take_bit 5 ins) :: 5 word) = fld 0 ins"
      "(fld 5 (0x58000040 OR take_bit 5 ins) :: 19 word) = 2"
      "(fld 30 (0x58000040 OR take_bit 5 ins) :: 2 word) = 1"
      unfolding fld_or by simp_all
  qed
  show ?thesis
    unfolding e by (simp add: a64_decode_def u32_eq_iff_bits bit_and_u32 bit_simps f)
qed

definition after_load :: "regnum \<Rightarrow> u64 \<Rightarrow> u64 \<Rightarrow> cpu \<Rightarrow> cpu" where
  "after_load r v out' c = (setx r v c)\<lparr>pc := out'\<rparr>"

lemma run_load_abs:
  assumes "code_at ph m (pc c) ([load_abs ins, 0x14000003] @ addr_words target)"
  shows "a64_run ph m 2 c = Some (after_load (fld 0 ins) target (pc c + 16) c)"
  using assms load_abs_decode [of ins]
  by (simp add: addr_words_def a64_step_def bitfield lit_value_def adv_def add.assoc after_load_def)

lemma adr_stub_runs:
  assumes code: "code_at ph m (pc c) (adr_stub ins target (pc c))"
  shows "reaches ph m c (\<lambda>c'. c' =
     after_load (fld 0 ins) target (pc c + 4 * of_nat (length (adr_stub ins target (pc c)))) c)"
proof (cases "(pc c + 8) AND 7 = 0")
  case True
  then show ?thesis
    using code by (intro reachesI [OF run_load_abs]) (simp_all add: adr_stub_def)
next
  case False
  then have w: "rd ph m (pc c) = Aarch64Nop"
    "code_at ph m (pc (adv c)) ([load_abs ins, 0x14000003] @ addr_words target)"
    using code by (simp_all add: adr_stub_def)
  have "a64_step ph m c = Some (adv c)" by (simp add: a64_step_def w(1) stub_words)
  moreover note run_load_abs [OF w(2)]
  ultimately have "a64_run ph m (Suc 2) c = Some (after_load (fld 0 ins) target (pc (adv c) + 16) (adv c))"
    by (simp only: a64_run.simps option.case)
  then show ?thesis
    using False by (elim reachesI) (simp add: adr_stub_def after_load_def adv_def)
qed

text \<open>The near form of \<open>ADR\<close>, for a displacement that is a multiple of four.\<close>

lemma decode_adr_near:
  assumes i: "ins AND 0x9f000000 = 0x10000000" and z: "(off :: u64) AND 3 = 0"
  shows "a64_decode ((ucast (push_bit 3 off) AND 0x00ffffff) OR (ins AND 0xff00001f)) =
           Some (PcRel False (fld 29 ins) (ucast (signed_drop_bit 2 off)) (fld 0 ins))"
proof -
  let ?w = "(ucast (push_bit 3 off) AND 0x00ffffff) OR (ins AND 0xff00001f) :: u32"
  have m3: "bit (3 :: u64) k \<longleftrightarrow> k < 2" for k
  proof -
    have "(3 :: u64) = mask 2" by (simp add: mask_eq_decr_exp)
    then show ?thesis by (simp only: bit_mask_iff) auto
  qed
  have z2: "\<not> bit off k" if "k < 2" for k
    using arg_cong [OF z, of "\<lambda>w. bit w k"] that unfolding bit_and_iff m3 by simp
  have m24: "bit (0x00ffffff :: u32) k \<longleftrightarrow> k < 24" for k
  proof -
    have "(0x00ffffff :: u32) = mask 24" by (simp add: mask_eq_decr_exp)
    then show ?thesis by (simp only: bit_mask_iff) auto
  qed
  have b: "bit ?w n \<longleftrightarrow> (if n < 5 then bit ins n else if n < 24 then bit off (n - 3) else bit ins n)" for n
    using z2 [of "n - 3"] by (simp only: bit_or_iff bit_and_iff m24 bit_lmasks bit_ucast_iff bit_push_bit_iff)
      (auto dest: bit_imp_le_length)
  have f: "(fld 0 ?w :: 5 word) = fld 0 ins" "(fld 29 ?w :: 2 word) = fld 29 ins"
    "(fld 5 ?w :: 19 word) = ucast (signed_drop_bit 2 off)"
    by (rule bit_word_eqI; simp only: bit_fld b; auto simp: bit_simps min_def)+
  have "?w AND 0x9f000000 = ins AND 0x9f000000"
  proof (rule bit_word_eqI)
    fix n
    have "\<not> bit (0x9f000000 :: u32) n" if "n < 24"
    proof -
      have "(0x9f000000 :: u32) = push_bit 24 0x9f" by simp
      with that show ?thesis by (simp only: bit_push_bit_iff) simp
    qed
    then show "bit (?w AND 0x9f000000) n = bit (ins AND 0x9f000000) n"
      unfolding bit_and_u32 b by auto
  qed
  then have w: "?w AND 0x9f000000 = 0x10000000" using i by simp
  have d: "a64_decode v = Some (PcRel False (fld 29 v) (fld 5 v) (fld 0 v))"
    if "v AND 0x9f000000 = 0x10000000" for v
    using that by (simp add: a64_decode_def u32_eq_iff_bits bit_and_u32)
  show ?thesis unfolding d [OF w] f ..
qed

lemma fix_pcreladdr_adr_code:
  assumes i: "rd ph (fmem s) (inprw s) = ins" "ins AND 0x9f000000 = 0x10000000"
    and t: "target = inprx s + ucast (adr_displacement ins)"
    and r: "\<not> is_in_fixing_range (ctx s) target"
    and p: "pending_at (get_ref_ins_index (ctx s) (inprx s)) s"
  shows "\<exists>s'. fix_pcreladdr ph s = (True, s') \<and>
     fmem s' = write_words ph (outprw s) (adr_code ins target (outprx s)) (fmem s) \<and>
     outprx s' = outprx s + 4 * of_nat (length (adr_code ins target (outprx s)))"
proof -
  have t': "inprx s + (ucast (signed_drop_bit 11 (push_bit 8 ins) AND NOT 3) OR ucast (adr_lsb_bytes ins)) = target"
  proof -
    have "(ucast (signed_drop_bit 11 (push_bit 8 ins) AND NOT 3) OR ucast (adr_lsb_bytes ins) :: u64) =
        ucast (adr_displacement ins)"
      unfolding adr_displacement_def by (rule bit_word_eqI) (auto simp: bit_simps)
    then show ?thesis unfolding t by simp
  qed
  show ?thesis
    using i r p t'
    by (simp add: fix_pcreladdr_def get_and_set_current_index_def Let_def adr_code_def adr_far_def
        fmem_process_none adr_stub_def load_abs_def)
qed

lemma fix_pcreladdr_adrp_code:
  assumes i: "rd ph (fmem s) (inprw s) = ins" "ins AND 0x9f000000 = 0x90000000"
    and t: "target = (inprx s AND NOT 0xfff) + ucast (push_bit 12 (adr_displacement ins))"
    and r: "\<not> is_in_fixing_range (ctx s) target"
    and p: "pending_at (get_ref_ins_index (ctx s) (inprx s)) s"
  shows "\<exists>s'. fix_pcreladdr ph s = (True, s') \<and>
     fmem s' = write_words ph (outprw s) (adr_stub ins target (outprx s)) (fmem s) \<and>
     outprx s' = outprx s + 4 * of_nat (length (adr_stub ins target (outprx s)))"
proof -
  have t': "(inprx s AND NOT 0xfff) +
      ucast (push_bit 12 ((signed_drop_bit 11 (push_bit 8 ins) AND NOT 3) OR adr_lsb_bytes ins)) = target"
    unfolding t adr_displacement_def ..
  show ?thesis
    using i r p t'
    by (simp add: fix_pcreladdr_def get_and_set_current_index_def Let_def
        fmem_process_none adr_stub_def load_abs_def)
qed

section \<open>The jump back\<close>

definition tail_far :: "s64 \<Rightarrow> bool" where
  "tail_far pc_offset \<longleftrightarrow> llabs pc_offset \<ge> 0x1ffffff"

definition tail_code :: "u64 \<Rightarrow> u64 \<Rightarrow> u32 list" where
  "tail_code callback out =
     (let off = signed_drop_bit 2 (callback - out)
      in if tail_far off then (if (out + 8) AND 7 \<noteq> 0 then [Aarch64Nop] else []) @ stub_x17 callback
         else [0x14000000 OR take_bit 26 (ucast off)])"

lemma tail_word:
  "ucast (0x14000000 OR (off AND 0x03ffffff) :: s64) = (0x14000000 OR take_bit 26 (ucast off) :: u32)"
proof -
  have "(0x03ffffff :: u64) = mask 26" by (simp add: mask_eq_decr_exp)
  then have "ucast (0x14000000 OR (off AND 0x03ffffff) :: s64) = (ucast (0x14000000 OR take_bit 26 off :: s64) :: u32)"
    by (simp only: take_bit_eq_mask)
  also have "\<dots> = ucast (0x14000000 :: s64) OR ucast (take_bit 26 off)"
    by (rule bit_word_eqI) (auto simp: bit_simps)
  also have "\<dots> = 0x14000000 OR take_bit 26 (ucast off)"
    by (intro arg_cong2 [where f = "(OR)"] bit_word_eqI) (auto simp: bit_simps)
  finally show ?thesis .
qed

lemma fix_tail_code:
  "fmem (fix_tail ph s) = write_words ph (outprw s) (tail_code (inprx s) (outprx s)) (fmem s)"
  by (simp add: fix_tail_def tail_code_def Let_def tail_far_def stub_x17_def tail_word)

lemma tail_code_runs:
  assumes al: "(callback - pc c) AND 3 = 0"
    and code: "code_at ph m (pc c) (tail_code callback (pc c))"
  shows "reaches ph m c (\<lambda>c'. pc c' = callback \<and> same_but_x17 c c')"
proof -
  have "code_at ph m (pc c) (branch_code 0x14000000 callback (pc c))"
    using code unfolding branch_code_def tail_code_def tail_far_def branch_far_def not_opc_mask
    by (auto simp: Let_def split: if_splits)
  from branch_code_runs [OF _ al this] show ?thesis by simp
qed

section \<open>Prologues without PC-relative instructions\<close>

definition plain :: "u32 \<Rightarrow> bool" where
  "plain w \<longleftrightarrow> w AND 0xfc000000 \<noteq> 0x14000000 \<and> w AND 0xfc000000 \<noteq> 0x94000000 \<and>
     cond_lmask w = None \<and> w AND 0xff000000 \<noteq> 0xd8000000 \<and> loadlit_class w = None \<and>
     w AND 0x9f000000 \<noteq> 0x10000000 \<and> w AND 0x9f000000 \<noteq> 0x90000000"

lemma fix_one_plain: "plain (rd ph (fmem s) (inprw s)) \<Longrightarrow> fix_one ph s = Some (copy_plain ph s)"
  by (simp add: plain_def fix_one_def fix_branch_imm_def fix_cond_comp_test_branch_def
      fix_loadlit_def fix_pcreladdr_def)

lemma pending_at_process:
  assumes "pending_at i s" "pending_at j s"
  shows "pending_at j (process_fix_map ph i s)"
proof -
  have "process_entries ph a (fmap (dat (ctx s) ! i)) m = (fmap (dat (ctx s) ! i), m)" for a m
    using assms(1) by (cases "fmap (dat (ctx s) ! i)") (simp_all add: pending_at_def)
  then show ?thesis
    using assms by (auto simp: pending_at_def process_fix_map_def nth_list_update)
qed

lemma copy_plain_effect:
  assumes "pending_at (get_ref_ins_index (ctx s) (inprx s)) s"
  shows "fmem (copy_plain ph s) = wr ph (outprw s) (rd ph (fmem s) (inprw s)) (fmem s)"
    "outprw (copy_plain ph s) = outprw s + 4" "outprx (copy_plain ph s) = outprx s + 4"
    "inprw (copy_plain ph s) = inprw s + 4" "inprx (copy_plain ph s) = inprx s + 4"
    "basep (ctx (copy_plain ph s)) = basep (ctx s)"
    "pending_at j s \<Longrightarrow> pending_at j (copy_plain ph s)"
  using assms
  by (simp_all add: copy_plain_def get_and_set_current_index_def Let_def fmem_process_none
      pending_at_process)

lemma fix_loop_plain:
  assumes "list_all plain ws" "length ws + i \<le> MaxInstructions"
    and "\<And>k. k < length ws \<Longrightarrow> rd ph (fmem s) (inprw s + 4 * of_nat k) = ws ! k"
    and "\<And>k j. k < length ws \<Longrightarrow> j < length ws \<Longrightarrow> ph (inprw s + 4 * of_nat k) \<noteq> ph (outprw s + 4 * of_nat j)"
    and "\<And>j. j < MaxInstructions \<Longrightarrow> pending_at j s"
    and "inprx s = basep (ctx s) + 4 * of_nat i"
  shows "\<exists>s'. fix_loop ph (length ws) s = Some s' \<and>
     fmem s' = write_words ph (outprw s) ws (fmem s) \<and>
     outprw s' = outprw s + 4 * of_nat (length ws) \<and> outprx s' = outprx s + 4 * of_nat (length ws) \<and>
     inprx s' = inprx s + 4 * of_nat (length ws)"
  using assms
proof (induction ws arbitrary: s i)
  case (Cons w ws)
  let ?s = "copy_plain ph s"
  have w: "rd ph (fmem s) (inprw s) = w" using Cons.prems(3) [of 0] by simp
  have "get_ref_ins_index (ctx s) (inprx s) < MaxInstructions"
    using index_of_step [of i "ctx s"] Cons.prems(2,6) by simp
  then have p: "pending_at (get_ref_ins_index (ctx s) (inprx s)) s" by (rule Cons.prems(5))
  note e = copy_plain_effect [OF p, where ph = ph]
  have pd: "pending_at j ?s" if "j < MaxInstructions" for j
    using e(7) Cons.prems(5) [OF that] .
  have one: "fix_one ph s = Some ?s" using fix_one_plain [of ph s] Cons.prems(1) w by simp
  have sh: "a + 4 + 4 * of_nat k = a + 4 * of_nat (Suc k)" for a :: u64 and k
    by (simp add: algebra_simps)
  have r: "rd ph (fmem ?s) (inprw ?s + 4 * of_nat k) = ws ! k" if "k < length ws" for k
  proof -
    have "ph (inprw s + 4 * of_nat (Suc k)) \<noteq> ph (outprw s)"
      using Cons.prems(4) [of "Suc k" 0] that by simp
    then show ?thesis
      using Cons.prems(3) [of "Suc k"] that unfolding e sh rd_def wr_def by simp
  qed
  obtain s' where "fix_loop ph (length ws) ?s = Some s'"
    "fmem s' = write_words ph (outprw s + 4) ws (wr ph (outprw s) w (fmem s))"
    "outprw s' = outprw s + 4 + 4 * of_nat (length ws)"
    "outprx s' = outprx s + 4 + 4 * of_nat (length ws)" "inprx s' = inprx s + 4 + 4 * of_nat (length ws)"
    using Cons.IH [of "Suc i" ?s] Cons.prems(1,2,6) pd r Cons.prems(4) [of "Suc _" "Suc _"]
    unfolding e(1-6) w sh by (auto simp: algebra_simps)
  then show ?case using one by (simp add: sh algebra_simps)
qed simp

lemma write_words_append:
  "write_words ph a (xs @ ys) m = write_words ph (a + 4 * of_nat (length xs)) ys (write_words ph a xs m)"
  by (induction xs arbitrary: a m) (simp_all add: algebra_simps)

lemma code_at_append:
  "code_at ph m a (xs @ ys) \<longleftrightarrow> code_at ph m a xs \<and> code_at ph m (a + 4 * of_nat (length xs)) ys"
  by (induction xs arbitrary: a) (simp_all add: algebra_simps)

lemma tail_code_length: "length (tail_code callback out) \<le> 5"
  by (auto simp: tail_code_def Let_def stub_x17_def)

lemma replicate_MaxReferences: "replicate MaxReferences x = x # replicate 9 x"
  by (simp add: MaxReferences_def MaxInstructions_def numeral_eq_Suc)

lemma pending_at_start: "j < MaxInstructions \<Longrightarrow> pending_at j (fix_start a b n c d m)"
  by (simp add: pending_at_def fix_start_def empty_insns_info_def replicate_MaxReferences)

section \<open>Properties\<close>

lemma and_3_add_mult: "((w :: u64) + 4 * x) AND 3 = w AND 3"
  using aligned_4 [of w "unat x"] by simp

lemma dual_id:
  assumes "n < 2 ^ 62"
  shows "dual id a a n"
proof -
  have "i = j" if "i < n" "j < n" "a + 4 * of_nat i = a + 4 * of_nat j" for i j
  proof -
    have "(of_nat (4 * i) :: u64) = of_nat (4 * j)" using that(3) by simp
    then have "unat (of_nat (4 * i) :: u64) = unat (of_nat (4 * j) :: u64)" by simp
    then show ?thesis
      using that assms unat_of_nat_u64 [of "4 * i"] unat_of_nat_u64 [of "4 * j"] by simp
  qed
  then show ?thesis by (auto simp: dual_def inj_on_def)
qed

text \<open>
  C5: a \<open>B\<close> or \<open>BL\<close> out of the prologue is relocated faithfully.  Whatever the
  distance and alignment, running the emitted words from the first one performs
  the original branch: control is at the original target, for \<open>BL\<close> the link
  register names the next trampoline word, and no other register except the
  scratch register X17 has changed.
\<close>

theorem relocated_branch_behaves:
  assumes "a64_decode (rd ph (fmem s) (inprw s)) = Some (BrImm link imm)"
    and "\<not> is_in_fixing_range (ctx s) (br_target (inprx s) imm)"
    and "pending_at (get_ref_ins_index (ctx s) (inprx s)) s"
    and "dual ph (outprw s) (outprx s) 6"
    and "(inprx s - outprx s) AND 3 = 0"
    and "pc c = outprx s"
  shows "\<exists>s'. fix_branch_imm ph s = (True, s') \<and>
     reaches ph (fmem s') c (\<lambda>c'. pc c' = br_target (inprx s) imm \<and>
       same_but_x17 (if link then setx 30 (outprx s') c else c) c')"
proof -
  let ?ins = "rd ph (fmem s) (inprw s)"
  let ?opc = "(if link then 0x94000000 else 0x14000000) :: u32"
  let ?t = "br_target (inprx s) imm"
  note f = decode_BrImm_fields [OF assms(1)]
  have o: "?opc \<in> {0x14000000, 0x94000000}" by simp
  obtain s' where s': "fix_branch_imm ph s = (True, s')"
    "fmem s' = write_words ph (outprw s) (branch_code ?opc ?t (outprx s)) (fmem s)"
    "outprx s' = outprx s + 4 * of_nat (length (branch_code ?opc ?t (outprx s)))"
    using fix_branch_imm_code [OF refl f(1) o _ assms(2,3)] f(2) by blast
  have code: "code_at ph (fmem s') (pc c) (branch_code ?opc ?t (pc c))"
    using code_at_written [OF assms(4) branch_code_length] by (simp add: s'(2) assms(6))
  have "?t - pc c = (inprx s - outprx s) + 4 * of_int (sint imm)"
    by (simp add: br_target_def assms(6))
  then have al: "(?t - pc c) AND 3 = 0"
    using and_3_add_mult [of "inprx s - outprx s"] assms(5) by simp
  show ?thesis
    using branch_code_runs [OF o al code] s'(1,3) by (cases link) (auto simp: assms(6))
qed

theorem relocated_branch_behaves_witness:
  "\<exists>s'. fix_branch_imm id (fix_start 0x8000000 0x8000000 1 0x50000004 0x50000004 (\<lambda>_. 0x97ffff00)) = (True, s') \<and>
     reaches id (fmem s') \<lparr>pc = 0x50000004, xr = (\<lambda>_. 0), flags = (\<lambda>_. False)\<rparr>
       (\<lambda>c'. pc c' = 0x7fffc00 \<and> xr c' 30 = outprx s')"
proof -
  let ?s = "fix_start 0x8000000 0x8000000 1 0x50000004 0x50000004 (\<lambda>_. 0x97ffff00)"
  let ?c = "\<lparr>pc = 0x50000004, xr = (\<lambda>_. 0), flags = (\<lambda>_. False)\<rparr> :: cpu"
  have d: "a64_decode (rd id (fmem ?s) (inprw ?s)) = Some (BrImm True 0x3ffff00)"
    and r: "\<not> is_in_fixing_range (ctx ?s) (br_target (inprx ?s) (0x3ffff00 :: 26 word))"
    and p: "pending_at (get_ref_ins_index (ctx ?s) (inprx ?s)) ?s"
    and a: "(inprx ?s - outprx ?s) AND 3 = 0"
    and t: "br_target (inprx ?s) (0x3ffff00 :: 26 word) = 0x7fffc00"
    by code_simp+
  have "dual id (outprw ?s) (outprx ?s) 6"
    using dual_id [of 6 "0x50000004"] by (simp add: fix_start_def)
  moreover have "pc ?c = outprx ?s" by (simp add: fix_start_def)
  ultimately obtain s' where "fix_branch_imm id ?s = (True, s')"
    "reaches id (fmem s') ?c (\<lambda>c'. pc c' = 0x7fffc00 \<and>
       same_but_x17 (if True then setx 30 (outprx s') ?c else ?c) c')"
    using relocated_branch_behaves [OF d r p _ a, of ?c] unfolding t by blast
  moreover from this(2) have "reaches id (fmem s') ?c (\<lambda>c'. pc c' = 0x7fffc00 \<and> xr c' 30 = outprx s')"
    by (rule reaches_mono) (simp add: same_but_x17_def)
  ultimately show ?thesis by blast
qed

lemma is_cond_lmask:
  assumes "a64_decode ins = Some i" "is_cond i"
  shows "cond_lmask ins \<noteq> None"
proof -
  have "ins AND 0xff000010 = 0x54000000 \<or> ins AND 0x7e000000 = 0x34000000 \<or> ins AND 0x7e000000 = 0x36000000"
    using assms by (auto simp: a64_decode_def split: if_splits)
  moreover have "ins AND 0x7f000000 = 0x34000000 \<or> ins AND 0x7f000000 = 0x35000000"
    if "ins AND 0x7e000000 = 0x34000000"
    using that by (simp add: u32_eq_iff_bits bit_and_u32)
  moreover have "ins AND 0x7f000000 = 0x36000000 \<or> ins AND 0x7f000000 = 0x37000000"
    if "ins AND 0x7e000000 = 0x36000000"
    using that by (simp add: u32_eq_iff_bits bit_and_u32)
  ultimately show ?thesis by (auto simp: cond_lmask_def Let_def)
qed

lemma uint_sint_displacement:
  fixes imm :: "'n::len word"
  assumes "LENGTH('n) \<le> 60"
  shows "(of_int (4 * uint imm) = (of_int (4 * sint imm) :: u64)) \<longleftrightarrow> 0 \<le> sint imm"
proof
  assume "0 \<le> sint imm"
  moreover have "sint imm < 2 ^ LENGTH('n)"
  proof -
    have "(2 :: int) ^ (LENGTH('n) - 1) \<le> 2 ^ LENGTH('n)" by (intro power_increasing) simp_all
    with sint_lt [of imm] show ?thesis by linarith
  qed
  ultimately have "uint imm = sint imm"
    unfolding uint_sint by (rule take_bit_int_eq_self)
  then show "of_int (4 * uint imm) = (of_int (4 * sint imm) :: u64)" by simp
next
  assume e: "of_int (4 * uint imm) = (of_int (4 * sint imm) :: u64)"
  show "0 \<le> sint imm"
  proof (rule ccontr)
    assume n: "\<not> 0 \<le> sint imm"
    have p: "(2 :: int) ^ LENGTH('n) \<le> 2 ^ 60" "(2 :: int) ^ (LENGTH('n) - 1) \<le> 2 ^ 60"
      using assms by (intro power_increasing; simp)+
    have g: "- (2 ^ (LENGTH('n) - 1)) \<le> sint imm" by (rule sint_ge)
    have q: "8 * 2 ^ 60 < (2 :: int) ^ 64" by simp
    have u: "uint imm < 2 ^ LENGTH('n)" "0 \<le> uint imm" by (rule uint_lt2p, rule uint_ge_0)
    have k: "0 < 4 * uint imm - 4 * sint imm" using n u(2) by linarith
    have k': "4 * uint imm - 4 * sint imm < 2 ^ 64" using g q u(1) p by linarith
    have "(of_int (4 * uint imm - 4 * sint imm) :: u64) = 0" using e by simp
    then have "2 ^ 64 dvd 4 * uint imm - 4 * sint imm"
      by (simp only: word_of_int_eq_0_iff) simp
    with k k' show False using zdvd_not_zless by blast
  qed
qed

lemma cond_uint_sint:
  assumes "is_cond i"
  shows "(of_int (4 * cond_uint i) = (of_int (4 * cond_sint i) :: u64)) \<longleftrightarrow> 0 \<le> cond_sint i"
proof (cases i)
  case (BrCond imm c)
  then show ?thesis using uint_sint_displacement [of imm] by simp
next
  case (CmpBr sf nz imm rt)
  then show ?thesis using uint_sint_displacement [of imm] by simp
next
  case (TestBr b5 nz b40 imm rt)
  then show ?thesis using uint_sint_displacement [of imm] by simp
qed (use assms in simp_all)

text \<open>
  C6: a conditional branch, compare-and-branch or test-and-branch out of the
  prologue keeps its condition, and when it is not taken control continues with
  the next trampoline word.  When it is taken, control reaches the old address
  plus the displacement field read as an unsigned number; that is the original
  target exactly for forward branches.  (A backward one is sent ahead instead:
  the field is not sign-extended.)
\<close>

theorem relocated_conditional_behaves:
  assumes "a64_decode (rd ph (fmem s) (inprw s)) = Some i" and "is_cond i"
    and "\<not> is_in_fixing_range (ctx s) (inprx s + of_int (4 * cond_uint i))"
    and "pending_at (get_ref_ins_index (ctx s) (inprx s)) s"
    and "dual ph (outprw s) (outprx s) 7"
    and "(inprx s - outprx s) AND 3 = 0"
    and "pc c = outprx s"
  shows "\<exists>s'. fix_cond_comp_test_branch ph s = (True, s') \<and>
     reaches ph (fmem s') c (\<lambda>c'. same_but_x17 c c' \<and>
       pc c' = (if cond_taken i c then inprx s + of_int (4 * cond_uint i) else outprx s')) \<and>
     (inprx s + of_int (4 * cond_uint i) = inprx s + of_int (4 * cond_sint i) \<longleftrightarrow> 0 \<le> cond_sint i)"
proof -
  let ?ins = "rd ph (fmem s) (inprw s)"
  let ?t = "inprx s + of_int (4 * cond_uint i) :: u64"
  obtain lmask where l: "cond_lmask ?ins = Some lmask"
    using is_cond_lmask [OF assms(1,2)] by blast
  obtain s' where s': "fix_cond_comp_test_branch ph s = (True, s')"
    "fmem s' = write_words ph (outprw s) (cond_code lmask ?ins ?t (outprx s)) (fmem s)"
    "outprx s' = outprx s + 4 * of_nat (length (cond_code lmask ?ins ?t (outprx s)))"
    using fix_cond_code [OF refl l _ assms(3,4)] cond_displacement [OF l assms(1)] by auto
  have code: "code_at ph (fmem s') (pc c) (cond_code lmask ?ins ?t (pc c))"
    using code_at_written [OF assms(5) cond_code_length] by (simp add: s'(2) assms(7))
  have "?t - pc c = (inprx s - outprx s) + 4 * of_int (cond_uint i)"
    by (simp add: assms(7))
  then have al: "(?t - pc c) AND 3 = 0"
    using and_3_add_mult [of "inprx s - outprx s"] assms(6) by (simp only:)
  show ?thesis
    using cond_code_runs [OF l assms(1) al code] s'(1,3) cond_uint_sint [OF assms(2)]
    by (auto simp: assms(7))
qed

theorem relocated_conditional_behaves_witness:
  "\<exists>s'. fix_cond_comp_test_branch id (fix_start 0x8000000 0x8000000 1 0x50000004 0x50000004 (\<lambda>_. 0xb4000080)) = (True, s') \<and>
     reaches id (fmem s') \<lparr>pc = 0x50000004, xr = (\<lambda>_. 0), flags = (\<lambda>_. False)\<rparr>
       (\<lambda>c'. pc c' = 0x8000010)"
proof -
  let ?s = "fix_start 0x8000000 0x8000000 1 0x50000004 0x50000004 (\<lambda>_. 0xb4000080)"
  let ?c = "\<lparr>pc = 0x50000004, xr = (\<lambda>_. 0), flags = (\<lambda>_. False)\<rparr> :: cpu"
  let ?i = "CmpBr True False 4 0"
  have d: "a64_decode (rd id (fmem ?s) (inprw ?s)) = Some ?i"
    and r: "\<not> is_in_fixing_range (ctx ?s) (inprx ?s + of_int (4 * cond_uint ?i))"
    and p: "pending_at (get_ref_ins_index (ctx ?s) (inprx ?s)) ?s"
    and a: "(inprx ?s - outprx ?s) AND 3 = 0"
    and t: "inprx ?s + of_int (4 * cond_uint ?i) = 0x8000010"
    and k: "cond_taken ?i ?c" "is_cond ?i"
    by code_simp+
  have "dual id (outprw ?s) (outprx ?s) 7"
    using dual_id [of 7 "0x50000004"] by (simp add: fix_start_def)
  moreover have "pc ?c = outprx ?s" by (simp add: fix_start_def)
  ultimately obtain s' where "fix_cond_comp_test_branch id ?s = (True, s')"
    "reaches id (fmem s') ?c (\<lambda>c'. same_but_x17 ?c c' \<and>
       pc c' = (if cond_taken ?i ?c then 0x8000010 else outprx s'))"
    using relocated_conditional_behaves [OF d k(2) r p _ a, of ?c] unfolding t by blast
  moreover from this(2) have "reaches id (fmem s') ?c (\<lambda>c'. pc c' = 0x8000010)"
    by (rule reaches_mono) (use k(1) in simp)
  ultimately show ?thesis by blast
qed

lemma decode_PcRel_fields:
  assumes "a64_decode ins = Some (PcRel page immlo immhi rt)"
  shows "ins AND 0x9f000000 = (if page then 0x90000000 else 0x10000000)"
    "immlo = fld 29 ins" "immhi = fld 5 ins" "rt = fld 0 ins"
proof -
  have b: "ins AND 0x1F000000 = 0x10000000" "page = bit ins 31" "immlo = fld 29 ins" "immhi = fld 5 ins" "rt = fld 0 ins"
    using assms by (auto simp: a64_decode_def split: if_splits)
  show "immlo = fld 29 ins" "immhi = fld 5 ins" "rt = fld 0 ins" by (fact b)+
  show "ins AND 0x9f000000 = (if page then 0x90000000 else 0x10000000)"
    using b(1) unfolding b(2) u32_eq_iff_bits by (auto simp: bit_and_u32)
qed

lemma ucast_word_of_int_32: "(ucast (word_of_int k :: u32) :: u64) = of_int (k mod 2 ^ 32)"
  unfolding take_bit_eq_mod [symmetric] by (rule bit_word_eqI) (auto simp: bit_simps)

lemma ucast_displacement:
  assumes "- (2 ^ 32) \<le> k" "k < 2 ^ 32"
  shows "(ucast (word_of_int k :: u32) = (of_int k :: u64)) \<longleftrightarrow> 0 \<le> k"
proof -
  note e = ucast_word_of_int_32 [of k]
  show ?thesis
  proof (cases "0 \<le> k")
    case True
    then show ?thesis using e assms by simp
  next
    case False
    then have "k mod 2 ^ 32 = k + 2 ^ 32"
      using assms mod_pos_pos_trivial [of "k + 2 ^ 32" "2 ^ 32"] by simp
    then have "(ucast (word_of_int k :: u32) :: u64) = of_int k + of_int (2 ^ 32)"
      using e by simp
    moreover have "(of_int (2 ^ 32) :: u64) \<noteq> 0" by simp
    ultimately show ?thesis using False by simp
  qed
qed

lemma pcrel_imm_bounds: "- (2 ^ 20) \<le> pcrel_imm immlo immhi" "pcrel_imm immlo immhi < 2 ^ 20"
  using sint_ge [of immhi] sint_lt [of immhi] uint_lt2p [of immlo]
  unfolding pcrel_imm_def by (simp_all, insert uint_ge_0 [of immlo], linarith)

definition pcrel_target :: "bool \<Rightarrow> u64 \<Rightarrow> int \<Rightarrow> u64" where
  "pcrel_target page a k =
     (if page then (a AND NOT 0xfff) + ucast (word_of_int (4096 * k) :: u32)
      else a + ucast (word_of_int k :: u32))"

lemma pcrel_target_iff:
  "pcrel_target page a (pcrel_imm immlo immhi) =
     (if page then adrp_result a immlo immhi else adr_result a immlo immhi)
   \<longleftrightarrow> 0 \<le> pcrel_imm immlo immhi"
proof -
  have "(ucast (word_of_int (4096 * pcrel_imm immlo immhi) :: u32) =
      (of_int (4096 * pcrel_imm immlo immhi) :: u64)) \<longleftrightarrow> 0 \<le> pcrel_imm immlo immhi"
    using pcrel_imm_bounds [of immlo immhi] by (subst ucast_displacement) simp_all
  moreover have "(ucast (word_of_int (pcrel_imm immlo immhi) :: u32) =
      (of_int (pcrel_imm immlo immhi) :: u64)) \<longleftrightarrow> 0 \<le> pcrel_imm immlo immhi"
    using pcrel_imm_bounds [of immlo immhi] by (intro ucast_displacement) simp_all
  ultimately show ?thesis
    unfolding pcrel_target_def adrp_result_def adr_result_def by (simp del: of_int_mult)
qed

lemma adr_near_runs:
  assumes i: "ins AND 0x9f000000 = 0x10000000" and z: "(target - pc c) AND 3 = 0"
    and lo: "(fld 29 ins :: 2 word) = 0" and near: "\<not> adr_far (target - pc c)"
    and code: "code_at ph m (pc c) (adr_code ins target (pc c))"
  shows "reaches ph m c (\<lambda>c'. c' = after_load (fld 0 ins) target (pc c + 4) c)"
proof -
  let ?off = "target - pc c"
  have b: "- (2 ^ 20) < sint ?off" "sint ?off < 2 ^ 20"
    using near by (auto simp: adr_far_def llabs_def)
  have d: "sint (signed_drop_bit 2 ?off) = sint ?off div 4"
    by (simp add: sint_signed_drop_bit_eq drop_bit_eq_div)
  have t: "br_target (pc c) (ucast (signed_drop_bit 2 ?off) :: 19 word) = pc c + ?off"
    by (rule br_target_near [OF z]) (use b in \<open>simp_all add: d\<close>)
  have r: "adr_result (pc c) (fld 29 ins) (ucast (signed_drop_bit 2 ?off)) = target"
    using t by (simp add: adr_result_def pcrel_imm_def lo br_target_def)
  have "a64_run ph m 1 c = Some (after_load (fld 0 ins) target (pc c + 4) c)"
    using code near decode_adr_near [OF i z] r
    by (simp add: adr_code_def a64_step_def after_load_def adv_def)
  then show ?thesis by (rule reachesI) simp
qed



text \<open>
  the trampoline of a prologue of at most five instructions none of which is
  PC-relative holds the instructions unchanged, in order, followed by code that
  returns to the first instruction that was not moved, clobbering at most X17.
\<close>

lemma plain_prologue_trampoline:
  assumes "list_all plain ws" "length ws \<le> MaxInstructions"
    and "code_at ph m inrw ws"
    and "\<And>k j. k < length ws \<Longrightarrow> j < length ws \<Longrightarrow> ph (inrw + 4 * of_nat k) \<noteq> ph (outrw + 4 * of_nat j)"
    and "dual ph outrw outrx 10"
    and "(inrx - outrx) AND 3 = 0"
  shows "\<exists>s total. fix_instructions ph inrw inrx (length ws) outrw outrx m = Some (s, total) \<and>
     code_at ph (fmem s) outrx ws \<and>
     (\<forall>c. pc c = outrx + 4 * of_nat (length ws) \<longrightarrow>
        reaches ph (fmem s) c (\<lambda>c'. pc c' = inrx + 4 * of_nat (length ws) \<and> same_but_x17 c c'))"
proof -
  let ?n = "4 * of_nat (length ws) :: u64"
  let ?s = "fix_start inrw inrx (length ws) outrw outrx m"
  let ?tail = "tail_code (inrx + ?n) (outrx + ?n)"
  have st: "inprw ?s = inrw" "inprx ?s = inrx" "outprw ?s = outrw" "outprx ?s = outrx" "fmem ?s = m"
    "basep (ctx ?s) = inrx"
    by (simp_all add: fix_start_def)
  obtain s' where s': "fix_loop ph (length ws) ?s = Some s'" "fmem s' = write_words ph outrw ws m"
    "outprw s' = outrw + ?n" "outprx s' = outrx + ?n" "inprx s' = inrx + ?n"
    using fix_loop_plain [OF assms(1), of 0 ph ?s] assms(2,3,4) pending_at_start
    unfolding st code_at_nth by auto
  have f: "fmem (fix_tail ph s') = write_words ph outrw (ws @ ?tail) m"
    by (simp add: fix_tail_code s' write_words_append)
  have "length (ws @ ?tail) \<le> 10"
    using assms(2) tail_code_length [of "inrx + ?n" "outrx + ?n"] by (simp add: MaxInstructions_def)
  from code_at_written [OF assms(5) this, of m]
  have c: "code_at ph (fmem (fix_tail ph s')) outrx ws"
    "code_at ph (fmem (fix_tail ph s')) (outrx + ?n) ?tail"
    unfolding f code_at_append by simp_all
  have "reaches ph (fmem (fix_tail ph s')) d (\<lambda>c'. pc c' = inrx + ?n \<and> same_but_x17 d c')"
    if "pc d = outrx + ?n" for d
    using tail_code_runs [of "inrx + ?n" d ph "fmem (fix_tail ph s')"] c(2) assms(6) that
    by (simp add: algebra_simps)
  with c(1) s'(1) show ?thesis
    by (auto simp: fix_instructions_def Let_def)
qed

end
