(* ===== verification/Hook_Pool.thy ===== *)
theory Hook_Pool
  imports Hook_Semantics
begin

text \<open>
  Installing hooks: the trampoline pool (\<open>AllocForTrampoline\<close>), the entry patch
  (\<open>HookFuncImpl\<close>), \<open>Hook\<close> (\<open>source/lib/hook/nx64/hook_impl.cpp\<close>) and the inline
  hook entries (\<open>source/lib/hook/nx64/inline_impl.cpp\<close>).  The writable alias the
  kernel maps for a hooked address (\<open>RwPages\<close>) is the parameter \<open>rw_of\<close>; the
  assembly entry points \<open>exl_inline_hook_impl\<close> and \<open>exl_inline_float_hook_impl\<close>
  are the parameter \<open>impl_addr\<close>.
\<close>

section \<open>Constants and state\<close>

definition JitSize :: nat where "JitSize = 0x4000"
definition InlinePoolSize :: nat where "InlinePoolSize = 0x4000"
definition HookPoolSize :: nat where "HookPoolSize = JitSize"
definition HookMax :: nat where "HookMax = HookPoolSize div (TrampolineSize * 4)"

text \<open>\<open>struct Entry\<close>: four instructions and a callback pointer.\<close>

definition sizeof_Entry :: nat where "sizeof_Entry = 4 * 4 + 8"
definition InlinePoolCount :: nat where "InlinePoolCount = InlinePoolSize div sizeof_Entry"

datatype hook_error =
  HookNull | CallbackNull | HookTrampolineAllocFail | HookFailed | RelocationDiverged

record hook_state =
  h_index :: s32
  jit_ro :: u64
  jit_rw :: u64
  s_EntryIndex :: u64
  ijit_ro :: u64
  ijit_rw :: u64
  h_mem :: wmem

section \<open>The trampoline pool\<close>

definition AllocForTrampoline :: "hook_state \<Rightarrow> hook_state \<times> (hook_error + u64 \<times> u64)" where
  "AllocForTrampoline h =
     (let index = h_index h + 1;
          h = h\<lparr>h_index := index\<rparr>;
          i = unat index
      in if i > HookMax then (h, Inl HookTrampolineAllocFail)
         else let slot = of_nat (i * (TrampolineSize * 4))
              in (h, Inr (jit_ro h + slot, jit_rw h + slot)))"

section \<open>Patching the entry\<close>

text \<open>
  \<open>None\<close> stands for a relocation that does not return.  The instruction count is
  five when the address literal would otherwise be misaligned.
\<close>

definition HookFuncImpl :: "view \<Rightarrow> (u64 \<Rightarrow> u64) \<Rightarrow> u64 \<Rightarrow> u64 \<Rightarrow> u64 \<Rightarrow> u64 \<Rightarrow> wmem \<Rightarrow> (bool \<times> wmem) option" where
  "HookFuncImpl ph rw_of symbol replace rxtr rwtr m =
     (let mask = 0x03ffffff :: u64;
          pc_offset = signed_drop_bit 2 (replace - symbol)
      in if llabs pc_offset \<ge> uint (drop_bit 1 mask) then
           let count = (if (symbol + 8) AND 7 \<noteq> 0 then 5 else 4);
               original = rw_of symbol
           in if rxtr \<noteq> 0 \<and> TrampolineSize < count * 10 then Some (False, m)
              else case (if rxtr \<noteq> 0
                         then map_option (fmem \<circ> fst) (fix_instructions ph original symbol count rwtr rxtr m)
                         else Some m) of
                     None \<Rightarrow> None
                   | Some m \<Rightarrow>
                       let (m, original) = (if count = 5 then (wr ph original Aarch64Nop m, original + 4)
                                            else (m, original));
                           m = wr ph original 0x58000051 m;
                           m = wr ph (original + 4) 0xd61f0220 m;
                           m = wr ph (original + 8) (ucast replace) m;
                           m = wr ph (original + 12) (ucast (drop_bit 32 replace)) m
                       in Some (True, m)
         else
           let original = rw_of symbol
           in if rwtr \<noteq> 0 \<and> TrampolineSize < 1 * 10 then Some (False, m)
              else case (if rwtr \<noteq> 0
                         then map_option (fmem \<circ> fst) (fix_instructions ph original symbol 1 rwtr rxtr m)
                         else Some m) of
                     None \<Rightarrow> None
                   | Some m \<Rightarrow>
                       Some (True, wr ph original (ucast (0x14000000 OR (pc_offset AND mask))) m))"

definition Hook :: "view \<Rightarrow> (u64 \<Rightarrow> u64) \<Rightarrow> u64 \<Rightarrow> u64 \<Rightarrow> bool \<Rightarrow> hook_state \<Rightarrow> hook_state \<times> (hook_error + u64)" where
  "Hook ph rw_of hook callback do_trampoline h =
     (if hook = 0 then (h, Inl HookNull)
      else if callback = 0 then (h, Inl CallbackNull)
      else case (if do_trampoline then AllocForTrampoline h else (h, Inr (0, 0))) of
             (h, Inl e) \<Rightarrow> (h, Inl e)
           | (h, Inr (rxtrampoline, rwtrampoline)) \<Rightarrow>
               (case HookFuncImpl ph rw_of hook callback rxtrampoline rwtrampoline (h_mem h) of
                  None \<Rightarrow> (h, Inl RelocationDiverged)
                | Some (False, m) \<Rightarrow> (h\<lparr>h_mem := m\<rparr>, Inl HookFailed)
                | Some (True, m) \<Rightarrow> (h\<lparr>h_mem := m\<rparr>, Inr rxtrampoline)))"

section \<open>Inline hooks\<close>

definition lrBackupOffset :: s16 where "lrBackupOffset = - 0x10"

definition inline_entry :: "u64 \<Rightarrow> u64 \<Rightarrow> u64 \<Rightarrow> u32 list" where
  "inline_entry impl entryCb trampoline =
     [SturUnscaledImmediate regLR regSP lrBackupOffset,
      BranchLink (ucast (impl - (entryCb + 1 * 4))),
      LdurUnscaledImmediate regLR regSP lrBackupOffset,
      Branch (ucast (trampoline - (entryCb + 3 * 4)))]"

definition HookInline ::
    "view \<Rightarrow> (u64 \<Rightarrow> u64) \<Rightarrow> (bool \<Rightarrow> u64) \<Rightarrow> u64 \<Rightarrow> u64 \<Rightarrow> bool \<Rightarrow> hook_state \<Rightarrow> hook_state \<times> (hook_error + unit)" where
  "HookInline ph rw_of impl_addr hook callback capture_floats h =
     (if s_EntryIndex h \<ge> of_nat InlinePoolCount then (h, Inl HookTrampolineAllocFail)
      else
        let entryRx = ijit_ro h + of_nat sizeof_Entry * s_EntryIndex h;
            entryRw = ijit_rw h + of_nat sizeof_Entry * s_EntryIndex h;
            h = h\<lparr>s_EntryIndex := s_EntryIndex h + 1\<rparr>;
            entryCb = entryRx
        in case Hook ph rw_of hook entryCb True h of
             (h, Inl e) \<Rightarrow> (h, Inl e)
           | (h, Inr trampoline) \<Rightarrow>
               let impl = impl_addr capture_floats;
                   m = write_words ph entryRw (inline_entry impl entryCb trampoline) (h_mem h);
                   m = write_words ph (entryRw + 16) (addr_words callback) m
               in (h\<lparr>h_mem := m\<rparr>, Inr ()))"

section \<open>What an installed hook does\<close>

lemma HookFuncImpl_entry:
  assumes "HookFuncImpl ph rw_of symbol replace rxtr rwtr m = Some (True, m')"
  shows "\<exists>m1. m' = write_words ph (rw_of symbol) (tail_code replace symbol) m1"
  using assms
  by (auto simp: HookFuncImpl_def Let_def tail_code_def tail_far_def stub_x17_def addr_words_def
      tail_word add.assoc split: if_splits option.splits)

lemma Hook_entry:
  assumes "Hook ph rw_of hook callback t h = (h', Inr tr)"
  shows "\<exists>m1. h_mem h' = write_words ph (rw_of hook) (tail_code callback hook) m1"
  using assms HookFuncImpl_entry
  by (fastforce simp: Hook_def split: if_splits prod.splits sum.splits option.splits bool.splits)

text \<open>
  C3: once \<open>Hook\<close> has returned, calling the hooked function runs the callback: from
  the hooked address control reaches the callback with every register except the
  scratch register X17 intact, at any distance, with or without a trampoline.
\<close>

theorem hook_redirects_to_callback:
  assumes "Hook ph rw_of hook callback t h = (h', Inr tr)"
    and "dual ph (rw_of hook) hook 5"
    and "(callback - hook) AND 3 = 0"
    and "pc c = hook"
  shows "reaches ph (h_mem h') c (\<lambda>c'. pc c' = callback \<and> same_but_x17 c c')"
proof -
  obtain m1 where "h_mem h' = write_words ph (rw_of hook) (tail_code callback hook) m1"
    using Hook_entry [OF assms(1)] by blast
  then have "code_at ph (h_mem h') (pc c) (tail_code callback (pc c))"
    using code_at_written [OF assms(2) tail_code_length] by (simp add: assms(4))
  then show ?thesis
    using assms(3,4) by (intro tail_code_runs) simp_all
qed

theorem hook_redirects_to_callback_witness:
  "reaches id (h_mem (fst (Hook id id 0x8000000 0x50000000 False
       \<lparr>h_index = -1, jit_ro = 0, jit_rw = 0, s_EntryIndex = 0, ijit_ro = 0, ijit_rw = 0, h_mem = (\<lambda>_. 0)\<rparr>)))
     \<lparr>pc = 0x8000000, xr = (\<lambda>_. 0), flags = (\<lambda>_. False)\<rparr> (\<lambda>c'. pc c' = 0x50000000)"
proof -
  let ?h = "\<lparr>h_index = -1, jit_ro = 0, jit_rw = 0, s_EntryIndex = 0, ijit_ro = 0, ijit_rw = 0,
      h_mem = (\<lambda>_. 0)\<rparr> :: hook_state"
  let ?c = "\<lparr>pc = 0x8000000, xr = (\<lambda>_. 0), flags = (\<lambda>_. False)\<rparr> :: cpu"
  have "snd (Hook id id 0x8000000 0x50000000 False ?h) = Inr 0"
    by code_simp
  then have h: "Hook id id 0x8000000 0x50000000 False ?h =
      (fst (Hook id id 0x8000000 0x50000000 False ?h), Inr 0)"
    by (metis prod.collapse)
  have "dual id (id 0x8000000) 0x8000000 5"
    using dual_id [of 5 "0x8000000"] by simp
  then show ?thesis
    by (intro reaches_mono [OF hook_redirects_to_callback [OF h, of ?c]]) simp_all
qed

section \<open>The trampoline pool\<close>

lemma hook_constants:
  "HookMax = 81" "InlinePoolCount = 682" "TrampolineSize = 50" "HookPoolSize = 16384"
  by (simp_all add: HookMax_def InlinePoolCount_def TrampolineSize_def HookPoolSize_def JitSize_def
      MaxInstructions_def InlinePoolSize_def sizeof_Entry_def)

lemma AllocForTrampoline_index: "h_index (fst (AllocForTrampoline h)) = h_index h + 1"
  "jit_ro (fst (AllocForTrampoline h)) = jit_ro h" "jit_rw (fst (AllocForTrampoline h)) = jit_rw h"
  by (simp_all add: AllocForTrampoline_def Let_def)

lemma allocs_index:
  "h_index (((fst \<circ> AllocForTrampoline) ^^ n) h) = h_index h + of_nat n \<and>
   jit_ro (((fst \<circ> AllocForTrampoline) ^^ n) h) = jit_ro h \<and>
   jit_rw (((fst \<circ> AllocForTrampoline) ^^ n) h) = jit_rw h"
  by (induction n) (simp_all add: AllocForTrampoline_index)

text \<open>
  C8: successive trampolines are successive 200-byte slots of the pool, in both
  views alike.  The pool holds 81 slots, and a slot lies inside it exactly for the
  first 81 calls; the allocator however refuses only from the 83rd call on, so the
  82nd trampoline it hands out extends past the end of the pool.
\<close>

theorem trampoline_slots:
  assumes "h_index h = - 1" "n < 2 ^ 32"
  shows "snd (AllocForTrampoline (((fst \<circ> AllocForTrampoline) ^^ n) h)) =
           (if n \<le> HookMax then Inr (jit_ro h + 200 * of_nat n, jit_rw h + 200 * of_nat n)
            else Inl HookTrampolineAllocFail) \<and>
         (200 * n + 200 \<le> HookPoolSize \<longleftrightarrow> n < HookMax)"
proof -
  have "unat (of_nat n :: s32) = n"
    using assms(2) by (simp add: unat_of_nat take_bit_nat_eq_self)
  then show ?thesis
    using allocs_index [of n h] assms(1)
    by (auto simp: AllocForTrampoline_def Let_def hook_constants mult.commute)
qed

theorem trampoline_slots_witness:
  "\<exists>h. h_index h = - 1 \<and> snd (AllocForTrampoline (((fst \<circ> AllocForTrampoline) ^^ 81) h)) =
     Inr (jit_ro h + 16200, jit_rw h + 16200)"
proof -
  let ?h = "\<lparr>h_index = -1, jit_ro = 0, jit_rw = 0, s_EntryIndex = 0, ijit_ro = 0, ijit_rw = 0,
      h_mem = (\<lambda>_. 0)\<rparr> :: hook_state"
  have "snd (AllocForTrampoline (((fst \<circ> AllocForTrampoline) ^^ 81) ?h)) = Inr (jit_ro ?h + 16200, jit_rw ?h + 16200)"
    using trampoline_slots [of ?h 81] by (simp add: hook_constants)
  then show ?thesis by (intro exI [of _ ?h]) simp
qed

section \<open>Inline hook entries\<close>

text \<open>A displacement a 26-bit branch can hold.\<close>

definition branch_range :: "s64 \<Rightarrow> bool" where
  "branch_range d \<longleftrightarrow> sint d mod 4 = 0 \<and> - (2 ^ 27) \<le> sint d \<and> sint d < 2 ^ 27"

lemma Branch_range_reaches:
  assumes "branch_range d"
  shows "\<exists>imm. a64_decode (Branch (ucast d)) = Some (BrImm False imm) \<and> br_target a imm = a + d"
    and "\<exists>imm. a64_decode (BranchLink (ucast d)) = Some (BrImm True imm) \<and> br_target a imm = a + d"
  using assms Branch_reaches [of "ucast d" a] BranchLink_reaches [of "ucast d" a] narrow_displacement [of d]
  by (simp_all add: branch_range_def)

lemma inline_entry_length [simp]: "length (inline_entry impl cb tr) = 4"
  by (simp add: inline_entry_def)

lemma HookInline_written:
  assumes "HookInline ph rw_of impl_addr hook callback fl h = (h', Inr ())"
    and "rx = ijit_ro h + 24 * s_EntryIndex h" and "rw = ijit_rw h + 24 * s_EntryIndex h"
  shows "\<exists>tr m. snd (Hook ph rw_of hook rx True (h\<lparr>s_EntryIndex := s_EntryIndex h + 1\<rparr>)) = Inr tr \<and>
     h_mem h' = write_words ph rw (inline_entry (impl_addr fl) rx tr @ addr_words callback) m \<and>
     s_EntryIndex h < of_nat InlinePoolCount"
  using assms
  by (auto simp: HookInline_def Let_def sizeof_Entry_def write_words_append not_le
      split: if_splits prod.splits sum.splits)

lemma decode_lr_save:
  "a64_decode (SturUnscaledImmediate regLR regSP lrBackupOffset) = Some (LdStUnscaled 3 False 0 (- 16) 31 30)"
  "a64_decode (LdurUnscaledImmediate regLR regSP lrBackupOffset) = Some (LdStUnscaled 3 False 1 (- 16) 31 30)"
  by code_simp+

text \<open>
  an inline hook's entry is the code its name promises, provided its pool lies
  within branch range of the hook implementation and the trampoline: it saves LR
  at SP - 16, calls the implementation, restores LR from the same place and
  branches to the trampoline of the hooked instruction; the callback pointer the
  implementation will read is the two words after it.
\<close>

lemma inline_hook_entry:
  assumes "HookInline ph rw_of impl_addr hook callback fl h = (h', Inr ())"
    and "rx = ijit_ro h + 24 * s_EntryIndex h" and "rw = ijit_rw h + 24 * s_EntryIndex h"
    and "dual ph rw rx 6"
    and "branch_range (impl_addr fl - (rx + 4))"
    and "\<And>tr. snd (Hook ph rw_of hook rx True (h\<lparr>s_EntryIndex := s_EntryIndex h + 1\<rparr>)) = Inr tr \<Longrightarrow>
           branch_range (tr - (rx + 12))"
  shows "\<exists>tr call jump.
     snd (Hook ph rw_of hook rx True (h\<lparr>s_EntryIndex := s_EntryIndex h + 1\<rparr>)) = Inr tr \<and>
     a64_decode (rd ph (h_mem h') rx) = Some (LdStUnscaled 3 False 0 (- 16) 31 30) \<and>
     a64_decode (rd ph (h_mem h') (rx + 4)) = Some (BrImm True call) \<and>
     a64_decode (rd ph (h_mem h') (rx + 8)) = Some (LdStUnscaled 3 False 1 (- 16) 31 30) \<and>
     a64_decode (rd ph (h_mem h') (rx + 12)) = Some (BrImm False jump) \<and>
     br_target (rx + 4) call = impl_addr fl \<and> br_target (rx + 12) jump = tr \<and>
     load64 ph (h_mem h') (rx + 16) = callback"
proof -
  obtain tr m where w: "snd (Hook ph rw_of hook rx True (h\<lparr>s_EntryIndex := s_EntryIndex h + 1\<rparr>)) = Inr tr"
    "h_mem h' = write_words ph rw (inline_entry (impl_addr fl) rx tr @ addr_words callback) m"
    using HookInline_written [OF assms(1,2,3)] by blast
  have "code_at ph (h_mem h') rx (inline_entry (impl_addr fl) rx tr @ addr_words callback)"
    unfolding w(2) by (rule code_at_written [OF assms(4)]) simp
  then have c: "rd ph (h_mem h') rx = SturUnscaledImmediate regLR regSP lrBackupOffset"
    "rd ph (h_mem h') (rx + 4) = BranchLink (ucast (impl_addr fl - (rx + 4)))"
    "rd ph (h_mem h') (rx + 8) = LdurUnscaledImmediate regLR regSP lrBackupOffset"
    "rd ph (h_mem h') (rx + 12) = Branch (ucast (tr - (rx + 12)))"
    "rd ph (h_mem h') (rx + 16) = ucast callback" "rd ph (h_mem h') (rx + 16 + 4) = ucast (drop_bit 32 callback)"
    by (simp_all add: inline_entry_def addr_words_def add.assoc)
  show ?thesis
    using w(1) Branch_range_reaches(2) [OF assms(5), of "rx + 4"]
      Branch_range_reaches(1) [OF assms(6) [OF w(1)], of "rx + 12"]
      load64_addr_words [OF c(5,6)] decode_lr_save
    unfolding c by auto
qed

lemma HookFuncImpl_total:
  assumes "rxtr AND 3 = 0"
  shows "\<exists>m'. HookFuncImpl ph rw_of symbol replace rxtr rwtr m = Some (True, m')"
proof -
  have "\<exists>s t. fix_instructions ph (rw_of symbol) symbol n rwtr rxtr m = Some (s, t)"
    if "n \<in> {1, 4, 5}" for n
  proof -
    have "n \<le> MaxInstructions" using that by (auto simp: MaxInstructions_def)
    from fix_instructions_within [OF assms this] show ?thesis by blast
  qed
  then have "\<exists>s t. fix_instructions ph (rw_of symbol) symbol 1 rwtr rxtr m = Some (s, t)"
    "\<exists>s t. fix_instructions ph (rw_of symbol) symbol 4 rwtr rxtr m = Some (s, t)"
    "\<exists>s t. fix_instructions ph (rw_of symbol) symbol 5 rwtr rxtr m = Some (s, t)"
    by blast+
  then show ?thesis
    by (auto simp: HookFuncImpl_def Let_def hook_constants)
qed

lemma Hook_total:
  assumes "hook \<noteq> 0" "callback \<noteq> 0" "unat (h_index h + 1) \<le> HookMax" "jit_ro h AND 3 = 0"
  shows "\<exists>h'. Hook ph rw_of hook callback True h = (h', Inr (jit_ro h + 200 * of_nat (unat (h_index h + 1))))"
proof -
  let ?rx = "jit_ro h + 200 * of_nat (unat (h_index h + 1))"
  have "jit_ro h + 4 * (50 * of_nat (unat (h_index h + 1))) AND 3 = 0"
    using assms(4) by (simp only: and_3_add_mult)
  then have "?rx AND 3 = 0" by simp
  from HookFuncImpl_total [OF this] show ?thesis
    using assms(1-3)
    by (fastforce simp: Hook_def AllocForTrampoline_def Let_def hook_constants mult.commute
        split: option.splits)
qed

text \<open>
  installing a hook with a trampoline never fails while the pool has slots left:
  for non-null arguments and a word-aligned pool the relocation terminates, the
  checks of the size of the trampoline pass, and the result is the next slot.
\<close>

lemma hook_install_succeeds:
  assumes "hook \<noteq> 0" "callback \<noteq> 0" "unat (h_index h + 1) \<le> HookMax" "jit_ro h AND 3 = 0"
  shows "\<exists>h'. Hook ph rw_of hook callback True h = (h', Inr (jit_ro h + 200 * of_nat (unat (h_index h + 1))))
    \<and> h_index h' = h_index h + 1"
  using Hook_total [OF assms, of ph rw_of]
  by (auto simp: Hook_def AllocForTrampoline_def Let_def split: if_splits option.splits bool.splits)

definition witness_hooks :: hook_state where
  "witness_hooks = \<lparr>h_index = -1, jit_ro = 0x50000000, jit_rw = 0x50000000, s_EntryIndex = 0,
     ijit_ro = 0x50010000, ijit_rw = 0x50010000, h_mem = (\<lambda>_. 0xa9bf7bfd)\<rparr>"

end
