(* ===== verification/Floating.thy ===== *)
theory Floating
  imports Prelude Complex_Main "HOL-Library.Log_Nat"
begin

text \<open>
  The binary floating-point arithmetic of the C++ the configuration code uses:
  \<open>float\<close> and \<open>double\<close> as exact rationals with infinities and NaN, every
  operation rounded to nearest, ties to even, with gradual underflow and
  overflow.  The two zeros are identified: nothing in the modelled code tells
  them apart.  The second half proves the rounding laws the components use:
  monotonicity, exactness on representable values and the relative error bound.
\<close>

section \<open>Values and rounding\<close>

datatype fp = Fin rat | PInf | NInf | NaN

text \<open>The exponent of a positive rational: \<open>2 powi e \<le> x < 2 powi (e + 1)\<close>.\<close>

definition ilog2 :: "rat \<Rightarrow> int" where
  "ilog2 x =
     (if 1 \<le> x then int (floorlog 2 (nat \<lfloor>x\<rfloor>)) - 1
      else - int (floorlog 2 (nat (\<lceil>1 / x\<rceil> - 1))))"

definition round_even :: "rat \<Rightarrow> int" where
  "round_even x =
     (let f = \<lfloor>x\<rfloor>; r = x - of_int f in
      if r < 1 / 2 then f else if 1 / 2 < r then f + 1 else if even f then f else f + 1)"

text \<open>The distance of neighbouring values of a format with \<open>p\<close> significant bits.\<close>

definition quantum :: "int \<Rightarrow> int \<Rightarrow> rat \<Rightarrow> rat" where
  "quantum p emin x = 2 powi (max (ilog2 \<bar>x\<bar>) emin - (p - 1))"

definition rnd :: "int \<Rightarrow> int \<Rightarrow> rat \<Rightarrow> rat" where
  "rnd p emin x =
     (if x = 0 then 0
      else of_int (round_even (x / quantum p emin x)) * quantum p emin x)"

definition with_range :: "int \<Rightarrow> rat \<Rightarrow> fp" where
  "with_range emax r =
     (if 2 powi (emax + 1) \<le> r then PInf else if r \<le> - (2 powi (emax + 1)) then NInf else Fin r)"

definition to_f32 :: "rat \<Rightarrow> fp" where "to_f32 x = with_range 127 (rnd 24 (- 126) x)"
definition to_f64 :: "rat \<Rightarrow> fp" where "to_f64 x = with_range 1023 (rnd 53 (- 1022) x)"

section \<open>Comparisons and library functions\<close>

fun fp_less :: "fp \<Rightarrow> fp \<Rightarrow> bool" where
  "fp_less (Fin x) (Fin y) = (x < y)"
| "fp_less NaN _ = False"
| "fp_less _ NaN = False"
| "fp_less NInf y = (y \<noteq> NInf)"
| "fp_less x PInf = (x \<noteq> PInf)"
| "fp_less _ _ = False"

definition fp_leq :: "fp \<Rightarrow> fp \<Rightarrow> bool" where
  "fp_leq x y = (x \<noteq> NaN \<and> y \<noteq> NaN \<and> \<not> fp_less y x)"

text \<open>\<open>std::clamp\<close>: both tests are \<open><\<close>, so a NaN argument is returned.\<close>

definition clamp :: "fp \<Rightarrow> fp \<Rightarrow> fp \<Rightarrow> fp" where
  "clamp v lo hi = (if fp_less v lo then lo else if fp_less hi v then hi else v)"

definition isfinite :: "fp \<Rightarrow> bool" where "isfinite v = (case v of Fin _ \<Rightarrow> True | _ \<Rightarrow> False)"

text \<open>\<open>std::round\<close>: to the nearest integer, ties away from zero.\<close>

definition round_away :: "rat \<Rightarrow> int" where
  "round_away x = (if 0 \<le> x then \<lfloor>x + 1 / 2\<rfloor> else - \<lfloor>1 / 2 - x\<rfloor>)"

fun fp_round :: "fp \<Rightarrow> fp" where
  "fp_round (Fin x) = Fin (of_int (round_away x))"
| "fp_round v = v"

definition trunc :: "rat \<Rightarrow> int" where
  "trunc x = (if 0 \<le> x then \<lfloor>x\<rfloor> else \<lceil>x\<rceil>)"

text \<open>
  Conversion to an integer type of range \<open>lo .. hi\<close>.  C++ leaves a value out of
  range undefined; the target's conversion instruction (FCVTZU, FCVTZS)
  truncates, saturates and maps NaN to zero.
\<close>

fun fp_to_int :: "int \<Rightarrow> int \<Rightarrow> fp \<Rightarrow> int" where
  "fp_to_int lo hi (Fin x) = max lo (min hi (trunc x))"
| "fp_to_int lo hi PInf = hi"
| "fp_to_int lo hi NInf = lo"
| "fp_to_int lo hi NaN = 0"

definition fp_to_u32 :: "fp \<Rightarrow> u32" where "fp_to_u32 v = word_of_int (fp_to_int 0 (2 ^ 32 - 1) v)"
definition fp_to_s32 :: "fp \<Rightarrow> s32" where
  "fp_to_s32 v = word_of_int (fp_to_int (- (2 ^ 31)) (2 ^ 31 - 1) v)"

fun f64_to_f32 :: "fp \<Rightarrow> fp" where
  "f64_to_f32 (Fin x) = to_f32 x"
| "f64_to_f32 v = v"

text \<open>
  Multiplication and division by a positive finite constant, rounded by \<open>r\<close> to
  the format of the operands.
\<close>

fun fp_mul :: "(rat \<Rightarrow> fp) \<Rightarrow> fp \<Rightarrow> rat \<Rightarrow> fp" where
  "fp_mul r (Fin x) k = r (x * k)"
| "fp_mul r v k = v"

fun fp_div :: "(rat \<Rightarrow> fp) \<Rightarrow> fp \<Rightarrow> rat \<Rightarrow> fp" where
  "fp_div r (Fin x) k = r (x / k)"
| "fp_div r v k = v"

section \<open>Rounding laws\<close>

lemma powi_2_pos [simp]: "0 < (2 :: rat) powi e"
  by (simp add: zero_less_power_int)

lemma powi_2_mono: "i \<le> j \<Longrightarrow> (2 :: rat) powi i \<le> 2 powi j"
  by (simp add: power_int_increasing)

lemma ilog2_bounds:
  assumes "0 < x"
  shows "2 powi ilog2 x \<le> x \<and> x < 2 powi (ilog2 x + 1)"
proof (cases "1 \<le> x")
  case True
  define n where "n = nat \<lfloor>x\<rfloor>"
  have n: "0 < n" "of_nat n \<le> x" "x < of_nat n + 1"
    using True unfolding n_def by (simp_all add: le_floor_iff) linarith+
  define k where "k = floorlog 2 n"
  have k: "0 < k" using n(1) by (simp add: k_def floorlog_def)
  have b: "2 ^ (k - 1) \<le> n" "n < 2 ^ k"
    using floorlog_bounds[of n 2] n(1) by (simp_all add: k_def)
  have i: "ilog2 x = int k - 1" using True by (simp add: ilog2_def k_def n_def)
  have p1: "(2 :: rat) powi (int k - 1) = 2 ^ (k - 1)"
    using k by (simp add: power_int_def nat_diff_distrib)
  have p2: "(2 :: rat) powi (int k - 1 + 1) = 2 ^ k" by (simp add: power_int_def)
  have "(2 :: rat) ^ (k - 1) \<le> of_nat n"
    using b(1) by (metis of_nat_le_iff of_nat_numeral of_nat_power)
  moreover have "of_nat n + 1 \<le> (2 :: rat) ^ k"
    using b(2) by (metis Suc_leI of_nat_Suc of_nat_le_iff of_nat_numeral of_nat_power add.commute)
  ultimately show ?thesis unfolding i p1 p2 using n by linarith
next
  case False
  define y where "y = 1 / x"
  have y: "1 < y" using False assms by (simp add: y_def)
  define n where "n = nat (\<lceil>y\<rceil> - 1)"
  have n0: "0 < n" using y unfolding n_def by (simp add: less_ceiling_iff)
  have n: "of_nat n < y" "y \<le> of_nat n + 1"
    using y unfolding n_def by (simp_all add: of_nat_nat) linarith+
  define k where "k = floorlog 2 n"
  have b: "2 ^ (k - 1) \<le> n" "n < 2 ^ k"
    using floorlog_bounds[of n 2] n0 by (simp_all add: k_def)
  have k: "0 < k" using n0 by (simp add: k_def floorlog_def)
  have i: "ilog2 x = - int k" using False by (simp add: ilog2_def k_def n_def y_def)
  have l: "(2 :: rat) ^ (k - 1) < y"
    using b(1) n(1) by (metis le_less_trans of_nat_le_iff of_nat_numeral of_nat_power)
  have "of_nat n + 1 \<le> (2 :: rat) ^ k"
    using b(2) by (metis Suc_leI of_nat_Suc of_nat_le_iff of_nat_numeral of_nat_power add.commute)
  then have u: "y \<le> 2 ^ k" using n by linarith
  have x: "x = 1 / y" by (simp add: y_def)
  have lx: "1 / 2 ^ k \<le> x" using u y unfolding x by (simp add: frac_le)
  have ux: "x < 1 / 2 ^ (k - 1)" using l y unfolding x by (simp add: divide_strict_left_mono)
  have p1: "(2 :: rat) powi (- int k) = 1 / 2 ^ k" by (simp add: power_int_minus power_int_of_nat divide_inverse)
  have "- int k + 1 = - int (k - 1)" using k by simp
  then have p2: "(2 :: rat) powi (- int k + 1) = 1 / 2 ^ (k - 1)"
    by (simp only: power_int_minus power_int_of_nat divide_inverse mult_1)
  show ?thesis unfolding i p1 p2 using lx ux by simp
qed

lemma round_even_cases:
  shows "round_even x = \<lfloor>x\<rfloor> \<or> round_even x = \<lfloor>x\<rfloor> + 1"
    and "\<bar>of_int (round_even x) - x\<bar> \<le> 1 / 2"
proof -
  have "of_int \<lfloor>x\<rfloor> \<le> x" "x < of_int \<lfloor>x\<rfloor> + 1" by linarith+
  then show "round_even x = \<lfloor>x\<rfloor> \<or> round_even x = \<lfloor>x\<rfloor> + 1"
    and "\<bar>of_int (round_even x) - x\<bar> \<le> 1 / 2"
    by (auto simp: round_even_def Let_def abs_le_iff)
qed

lemma round_even_of_int [simp]: "round_even (of_int k) = k"
  by (simp add: round_even_def)

lemma round_even_unique:
  assumes "\<bar>of_int k - x\<bar> < 1 / 2"
  shows "round_even x = k"
proof -
  have "\<bar>of_int k - of_int (round_even x)\<bar> < (1 :: rat)"
    using assms round_even_cases(2)[of x] by linarith
  then have "\<bar>k - round_even x\<bar> < 1" by linarith
  then show ?thesis by simp
qed

lemma round_even_mono:
  assumes "x \<le> y"
  shows "round_even x \<le> round_even y"
proof (cases "\<lfloor>x\<rfloor> = \<lfloor>y\<rfloor>")
  case True
  then show ?thesis using assms by (simp add: round_even_def Let_def)
next
  case False
  then have "\<lfloor>x\<rfloor> + 1 \<le> \<lfloor>y\<rfloor>" using floor_mono[OF assms] by linarith
  then show ?thesis using round_even_cases(1)[of x] round_even_cases(1)[of y] by linarith
qed

lemma quantum_pos [simp]: "0 < quantum p emin x"
  by (simp add: quantum_def)

lemma quantum_nonzero [simp]: "quantum p emin x \<noteq> 0"
  using quantum_pos[of p emin x] by linarith

lemma ilog2_less:
  assumes "0 < x" "x < 2 powi e"
  shows "ilog2 x < e"
proof (rule ccontr)
  assume "\<not> ilog2 x < e"
  then have "(2 :: rat) powi e \<le> 2 powi ilog2 x" by (intro powi_2_mono) simp
  with ilog2_bounds[OF assms(1)] assms(2) show False by linarith
qed

lemma ilog2_mono:
  assumes "0 < x" "x \<le> y"
  shows "ilog2 x \<le> ilog2 y"
proof -
  have "0 < y" using assms by linarith
  then have "x < 2 powi (ilog2 y + 1)" using ilog2_bounds[of y] assms by linarith
  then show ?thesis using ilog2_less[OF assms(1)] by fastforce
qed

lemma ilog2_unique:
  assumes "2 powi e \<le> x" "x < 2 powi (e + 1)"
  shows "ilog2 x = e"
proof -
  have x: "0 < x" using assms(1) less_le_trans[OF powi_2_pos] by blast
  have "ilog2 x < e + 1" using x assms(2) by (rule ilog2_less)
  moreover have "\<not> ilog2 x + 1 \<le> e"
    using powi_2_mono[of "ilog2 x + 1" e] ilog2_bounds[OF x] assms(1) by linarith
  ultimately show ?thesis by linarith
qed

text \<open>Evaluation of a rounding at a known exponent.\<close>

lemma rnd_at_exponent:
  assumes "2 powi e \<le> x" "x < 2 powi (e + 1)" "emin \<le> e"
  shows "rnd p emin x = of_int (round_even (x / 2 powi (e - (p - 1)))) * 2 powi (e - (p - 1))"
proof -
  have "0 < x" using assms(1) less_le_trans[OF powi_2_pos] by blast
  then show ?thesis using ilog2_unique[OF assms(1,2)] assms(3) by (simp add: rnd_def quantum_def max_def)
qed

text \<open>The values of a format, apart from its upper range.\<close>

definition representable :: "int \<Rightarrow> int \<Rightarrow> rat \<Rightarrow> bool" where
  "representable p emin x =
     (\<exists>m e. x = of_int m * 2 powi e \<and> \<bar>m\<bar> < 2 ^ nat p \<and> emin - (p - 1) \<le> e)"

lemma rnd_exact:
  assumes "representable p emin x" "0 < p"
  shows "rnd p emin x = x"
proof (cases "x = 0")
  case False
  obtain m e where x: "x = of_int m * 2 powi e" and m: "\<bar>m\<bar> < 2 ^ nat p" and e: "emin - (p - 1) \<le> e"
    using assms(1) unfolding representable_def by blast
  have "of_int \<bar>m\<bar> < (2 :: rat) ^ nat p" using m by (metis of_int_less_iff of_int_numeral of_int_power)
  then have "\<bar>x\<bar> < 2 ^ nat p * 2 powi e" by (simp add: x abs_mult)
  also have "\<dots> = 2 powi (p + e)" using assms(2) by (subst power_int_add) (simp_all add: power_int_def)
  finally have "ilog2 \<bar>x\<bar> < p + e" using False by (intro ilog2_less) simp_all
  then have d: "0 \<le> e - (max (ilog2 \<bar>x\<bar>) emin - (p - 1))" using e by simp
  define d' where "d' = nat (e - (max (ilog2 \<bar>x\<bar>) emin - (p - 1)))"
  have "x / quantum p emin x = of_int m * 2 powi (e - (max (ilog2 \<bar>x\<bar>) emin - (p - 1)))"
    unfolding quantum_def by (subst (1) x) (simp add: power_int_diff)
  also have "\<dots> = of_int (m * 2 ^ d')" using d by (simp add: d'_def power_int_def)
  finally have q: "x / quantum p emin x = of_int (m * 2 ^ d')" .
  then have "of_int (m * 2 ^ d') * quantum p emin x = x"
    by (metis nonzero_eq_divide_eq quantum_nonzero)
  then show ?thesis unfolding rnd_def q using False by (simp del: of_int_mult of_int_power)
qed (simp add: rnd_def)

lemma rnd_nonneg:
  assumes "0 \<le> x"
  shows "0 \<le> rnd p emin x"
proof -
  have "0 \<le> x / quantum p emin x" using assms by (simp add: less_imp_le)
  then have "0 \<le> round_even (x / quantum p emin x)" using round_even_mono[of 0 "x / quantum p emin x"] round_even_of_int[of 0] by simp
  then show ?thesis by (simp add: rnd_def less_imp_le)
qed

lemma rnd_nonpos:
  assumes "x \<le> 0"
  shows "rnd p emin x \<le> 0"
proof -
  have "x / quantum p emin x \<le> 0" using assms by (simp add: divide_nonpos_pos)
  then have "round_even (x / quantum p emin x) \<le> 0" using round_even_mono[of "x / quantum p emin x" 0] round_even_of_int[of 0] by simp
  then show ?thesis by (simp add: rnd_def mult_nonpos_nonneg less_imp_le)
qed

lemma rnd_mono:
  assumes "0 \<le> x" "x \<le> y" "0 < p"
  shows "rnd p emin x \<le> rnd p emin y"
proof (cases "x = 0")
  case True
  then show ?thesis using rnd_nonneg[of y] assms by (simp add: rnd_def[of _ _ 0])
next
  case False
  then have pos: "0 < x" "0 < y" using assms by linarith+
  have le: "max (ilog2 x) emin \<le> max (ilog2 y) emin" using ilog2_mono[OF pos(1) assms(2)] by linarith
  show ?thesis
  proof (cases "max (ilog2 x) emin = max (ilog2 y) emin")
    case True
    then have q: "quantum p emin x = quantum p emin y" using pos by (simp add: quantum_def)
    have "x / quantum p emin y \<le> y / quantum p emin y" using assms by (simp add: divide_right_mono less_imp_le)
    then have "round_even (x / quantum p emin y) \<le> round_even (y / quantum p emin y)" by (rule round_even_mono)
    then show ?thesis using pos unfolding rnd_def q by (simp add: mult_right_mono less_imp_le)
  next
    case False
    then have less: "max (ilog2 x) emin < ilog2 y" using le by linarith
    define E where "E = max (ilog2 x) emin + 1"
    have E: "E \<le> ilog2 y" "x < 2 powi E"
    proof -
      show "E \<le> ilog2 y" using less unfolding E_def by linarith
      have "(2 :: rat) powi (ilog2 x + 1) \<le> 2 powi E" by (rule powi_2_mono) (simp add: E_def)
      then show "x < 2 powi E" using ilog2_bounds[OF pos(1)] by linarith
    qed
    have half: "a / 2 powi (c - (p - 1)) = a / 2 powi c * 2 ^ nat (p - 1)" for a :: rat and c
      using assms(3) by (subst power_int_diff) (simp_all add: power_int_def)
    have unscale: "2 ^ nat (p - 1) * 2 powi (c - (p - 1)) = (2 :: rat) powi c" for c
      using assms(3) by (subst power_int_diff) (simp_all add: power_int_def)
    have qx: "quantum p emin x = 2 powi (E - 1 - (p - 1))" using pos by (simp add: quantum_def E_def)
    have qy: "quantum p emin y = 2 powi (ilog2 y - (p - 1))" using pos less by (simp add: quantum_def)
    have two: "(2 :: rat) powi E = 2 * 2 powi (E - 1)" by (simp add: power_int_diff)
    have "x / quantum p emin x \<le> of_int (2 * 2 ^ nat (p - 1))"
      unfolding qx half using E(2) two by (simp add: pos_divide_le_eq mult.commute)
    then have "round_even (x / quantum p emin x) \<le> 2 * 2 ^ nat (p - 1)"
      using round_even_mono round_even_of_int by metis
    then have "rnd p emin x \<le> of_int (2 * 2 ^ nat (p - 1)) * quantum p emin x"
      using pos unfolding rnd_def by (simp add: mult_right_mono less_imp_le del: of_int_mult of_int_power)
    also have "\<dots> = 2 powi E" unfolding qx two using unscale[of "E - 1"] by simp
    also have "\<dots> \<le> 2 powi ilog2 y" using E by (intro powi_2_mono)
    also have "\<dots> = of_int (2 ^ nat (p - 1)) * quantum p emin y"
      unfolding qy using unscale[of "ilog2 y"] by simp
    also have "\<dots> \<le> rnd p emin y"
    proof -
      have "of_int (2 ^ nat (p - 1)) \<le> y / quantum p emin y"
        unfolding qy half using ilog2_bounds[OF pos(2)] by (simp add: pos_le_divide_eq)
      then have "2 ^ nat (p - 1) \<le> round_even (y / quantum p emin y)"
        using round_even_mono round_even_of_int by metis
      then show ?thesis using pos unfolding rnd_def
        by (simp add: mult_right_mono less_imp_le del: of_int_power)
    qed
    finally show ?thesis .
  qed
qed

lemma rnd_error:
  assumes "2 powi emin \<le> \<bar>x\<bar>"
  shows "\<bar>rnd p emin x - x\<bar> \<le> \<bar>x\<bar> * 2 powi (- p)"
proof -
  have x: "0 < \<bar>x\<bar>" using assms less_le_trans[OF powi_2_pos] by blast
  have "emin < ilog2 \<bar>x\<bar> + 1"
  proof (rule ccontr)
    assume "\<not> ?thesis"
    then have "(2 :: rat) powi (ilog2 \<bar>x\<bar> + 1) \<le> 2 powi emin" by (intro powi_2_mono) simp
    with ilog2_bounds[OF x] assms show False by linarith
  qed
  then have q: "quantum p emin x = 2 powi (ilog2 \<bar>x\<bar> - (p - 1))" by (simp add: quantum_def max_def)
  have e: "ilog2 \<bar>x\<bar> - (p - 1) = ilog2 \<bar>x\<bar> + (1 + - p)" by simp
  have "quantum p emin x = 2 powi ilog2 \<bar>x\<bar> * (2 * 2 powi (- p))"
    unfolding q e by (subst power_int_add, simp)+ simp
  also have "\<dots> \<le> \<bar>x\<bar> * (2 * 2 powi (- p))" using ilog2_bounds[OF x] by (intro mult_right_mono) (simp_all add: less_imp_le)
  finally have qb: "quantum p emin x / 2 \<le> \<bar>x\<bar> * 2 powi (- p)" by simp
  define r where "r = of_int (round_even (x / quantum p emin x)) - x / quantum p emin x"
  have r: "\<bar>r\<bar> \<le> 1 / 2" unfolding r_def by (rule round_even_cases(2))
  have "rnd p emin x - x = r * quantum p emin x"
    using x unfolding rnd_def r_def by (simp add: left_diff_distrib)
  then have "\<bar>rnd p emin x - x\<bar> \<le> 1 / 2 * quantum p emin x"
    using r by (simp add: abs_mult less_imp_le mult_right_mono)
  then show ?thesis using qb by simp
qed

text \<open>The two formats: exact values and squeezing between exact values.\<close>

lemma representable_quotient:
  assumes "\<bar>m\<bar> < 2 ^ nat p" "emin - (p - 1) \<le> - int k"
  shows "representable p emin (of_int m / 2 ^ k)"
  unfolding representable_def
  using assms by (intro exI[of _ m] exI[of _ "- int k"]) (simp add: power_int_minus divide_inverse power_int_of_nat)

lemma rnd24_quotient:
  assumes "\<bar>m\<bar> < 16777216" "k \<le> 149"
  shows "rnd 24 (- 126) (of_int m / 2 ^ k) = of_int m / 2 ^ k"
  using assms by (intro rnd_exact representable_quotient) simp_all

lemma rnd24_of_nat: "n < 16777216 \<Longrightarrow> rnd 24 (- 126) (of_nat n) = of_nat n"
  using rnd24_quotient[of "int n" 0] by simp

lemma rnd53_of_int: "\<bar>m\<bar> < 9007199254740992 \<Longrightarrow> rnd 53 (- 1022) (of_int m) = of_int m"
  using rnd_exact[OF representable_quotient[of m 53 "- 1022" 0]] by simp

lemma with_range_Fin:
  assumes "- (2 ^ 64) < r" "r < 2 ^ 64" "63 \<le> emax"
  shows "with_range emax r = Fin r"
proof -
  have "(2 :: rat) ^ 64 = 2 powi 64" by (simp add: power_int_def)
  also have "\<dots> \<le> 2 powi (emax + 1)" using assms(3) by (intro powi_2_mono) simp
  finally have "(2 :: rat) ^ 64 \<le> 2 powi (emax + 1)" .
  then show ?thesis using assms by (auto simp: with_range_def)
qed

lemma to_f32_of_nat: "n < 16777216 \<Longrightarrow> to_f32 (of_nat n) = Fin (of_nat n)"
proof -
  assume n: "n < 16777216"
  then have "(of_nat n :: rat) < of_nat 16777216" by (simp only: of_nat_less_iff)
  then have "(of_nat n :: rat) < 2 ^ 64" by simp
  moreover have "- (2 ^ 64) < (of_nat n :: rat)" by (rule less_le_trans[of _ 0]) simp_all
  ultimately show ?thesis using n by (simp add: to_f32_def rnd24_of_nat with_range_Fin)
qed

lemma to_f32_between:
  assumes "0 \<le> a" "a \<le> x" "x \<le> b" "b < 2 ^ 64"
    and "rnd 24 (- 126) a = a" "rnd 24 (- 126) b = b"
  obtains y where "to_f32 x = Fin y" "a \<le> y" "y \<le> b"
proof -
  define y where "y = rnd 24 (- 126) x"
  have "a \<le> y" "y \<le> b" unfolding y_def
    using rnd_mono[of a x 24 "- 126"] rnd_mono[of x b 24 "- 126"] assms by simp_all
  then show thesis using that assms by (simp add: to_f32_def y_def with_range_Fin)
qed

end
