(* ===== verification/Config_Types.thy ===== *)
theory Config_Types
  imports Floating
begin

text \<open>
  The configuration of \<open>source/program/config.hpp\<close>: \<open>PatchConfig\<close> with its nested
  structures and default values, the season event flags of the macro
  \<open>D3HACK_SEASON_EVENT_FLAGS\<close>, and the methods of \<open>ResolutionHackConfig\<close>.  The
  lemmas show that the output size computed in single precision is the exact
  16:9 size, and that a handheld scale is always normalised to a step of five
  percent between 40 and 100, or to zero.
\<close>

section \<open>Season event flags\<close>

datatype season_flag =
    IgrEnabled | AnniversaryEnabled | EasterEggWorldEnabled | DoubleRiftKeystones
  | DoubleBloodShards | DoubleTreasureGoblins | DoubleBountyBags | RoyalGrandeur
  | LegacyOfNightmares | TriunesWill | Pandemonium | KanaiPowers | TrialsOfTempests
  | ShadowClones | FourthKanaisCubeSlot | EtherealItems | SoulShards | SwarmRifts
  | SanctifiedItems | DarkAlchemy | NestingPortals

text \<open>One row per macro entry: name, default_config, default_map, legacy key.\<close>

definition D3HACK_SEASON_EVENT_FLAGS :: "(season_flag \<times> string \<times> bool \<times> bool \<times> string) list" where
  "D3HACK_SEASON_EVENT_FLAGS =
     [(IgrEnabled, ''IgrEnabled'', False, False, ''''),
      (AnniversaryEnabled, ''AnniversaryEnabled'', False, False, ''''),
      (EasterEggWorldEnabled, ''EasterEggWorldEnabled'', False, False, ''''),
      (DoubleRiftKeystones, ''DoubleRiftKeystones'', True, False, ''''),
      (DoubleBloodShards, ''DoubleBloodShards'', True, False, ''''),
      (DoubleTreasureGoblins, ''DoubleTreasureGoblins'', True, False, ''''),
      (DoubleBountyBags, ''DoubleBountyBags'', True, False, ''''),
      (RoyalGrandeur, ''RoyalGrandeur'', False, False, ''''),
      (LegacyOfNightmares, ''LegacyOfNightmares'', False, False, ''''),
      (TriunesWill, ''TriunesWill'', False, False, ''''),
      (Pandemonium, ''Pandemonium'', False, False, ''''),
      (KanaiPowers, ''KanaiPowers'', False, False, ''''),
      (TrialsOfTempests, ''TrialsOfTempests'', False, False, ''''),
      (ShadowClones, ''ShadowClones'', False, False, ''''),
      (FourthKanaisCubeSlot, ''FourthKanaisCubeSlot'', False, False, ''''),
      (EtherealItems, ''EtherealItems'', False, False, ''EthrealItems''),
      (SoulShards, ''SoulShards'', False, False, ''''),
      (SwarmRifts, ''SwarmRifts'', False, False, ''''),
      (SanctifiedItems, ''SanctifiedItems'', False, False, ''''),
      (DarkAlchemy, ''DarkAlchemy'', True, True, ''''),
      (NestingPortals, ''NestingPortals'', False, False, '''')]"

text \<open>A structure with one \<open>bool\<close> per flag is a function on the flags.\<close>

type_synonym season_flags = "season_flag \<Rightarrow> bool"

definition flag_row :: "season_flag \<Rightarrow> string \<times> bool \<times> bool \<times> string" where
  "flag_row f = the (map_of D3HACK_SEASON_EVENT_FLAGS f)"

definition default_config :: season_flags where
  "default_config f = (case flag_row f of (_, d, _, _) \<Rightarrow> d)"

definition default_map :: season_flags where
  "default_map f = (case flag_row f of (_, _, d, _) \<Rightarrow> d)"

section \<open>Structures and defaults\<close>

datatype SeasonEventMapMode = MapOnly | OverlayConfig | Disabled

record ExtraConfig =
  window_left :: s32
  window_top :: s32
  window_width :: s32
  window_height :: s32
  ui_opt_width :: s32
  ui_opt_height :: s32
  render_width :: s32
  render_height :: s32
  refresh_rate :: s32
  bit_depth :: s32
  msaa_level :: s32

definition kUnset :: int where "kUnset = - 1"
definition kMaxDimension :: int where "kMaxDimension = 16384"
definition kMaxRefreshRate :: int where "kMaxRefreshRate = 1000"
definition kMaxBitDepth :: int where "kMaxBitDepth = 64"
definition kMaxMsaaLevel :: int where "kMaxMsaaLevel = 16"

definition default_extra :: ExtraConfig where
  "default_extra =
     \<lparr>window_left = - 1, window_top = - 1, window_width = - 1, window_height = - 1,
      ui_opt_width = - 1, ui_opt_height = - 1, render_width = - 1, render_height = - 1,
      refresh_rate = - 1, bit_depth = - 1, msaa_level = - 1\<rparr>"

record ResolutionHackConfig =
  rh_active :: bool
  target_resolution :: u32
  min_res_scale :: fp
  max_res_scale :: fp
  spoof_docked :: bool
  exp_scheduler :: bool
  output_handheld_scale :: fp
  clamp_texture_resolution :: u32
  rh_extra :: ExtraConfig

definition kClampTextureResolutionDefault :: u32 where "kClampTextureResolutionDefault = 1152"
definition kClampTextureResolutionMin :: u32 where "kClampTextureResolutionMin = 100"
definition kClampTextureResolutionMax :: u32 where "kClampTextureResolutionMax = 9999"

definition default_resolution_hack :: ResolutionHackConfig where
  "default_resolution_hack =
     \<lparr>rh_active = True, target_resolution = 1080, min_res_scale = Fin 85, max_res_scale = Fin 100,
      spoof_docked = False, exp_scheduler = True, output_handheld_scale = Fin 80,
      clamp_texture_resolution = kClampTextureResolutionDefault, rh_extra = default_extra\<rparr>"

record seasons_config =
  sea_active :: bool
  allow_online :: bool
  current_season :: u32
  spoof_ptr :: bool

definition default_seasons :: seasons_config where
  "default_seasons = \<lparr>sea_active = True, allow_online = False, current_season = 30, spoof_ptr = False\<rparr>"

record rifts_config =
  cr_active :: bool
  cr_random :: bool
  range_start :: u32
  range_end :: u32

definition default_rifts :: rifts_config where
  "default_rifts = \<lparr>cr_active = False, cr_random = True, range_start = 0, range_end = 20\<rparr>"

record events_config =
  ev_active :: bool
  SeasonMapMode :: SeasonEventMapMode
  ev_flags :: season_flags

definition default_events :: events_config where
  "default_events = \<lparr>ev_active = True, SeasonMapMode = Disabled, ev_flags = default_config\<rparr>"

record cheats_config =
  rc_active :: bool
  move_speed :: fp
  attack_speed :: fp
  floating_damage_color :: bool
  guaranteed_legendaries :: bool
  drop_anything :: bool
  instant_portal :: bool
  no_cooldowns :: bool
  instant_craft_actions :: bool
  any_gem_any_slot :: bool
  auto_pickup :: bool
  equip_any_slot :: bool
  unlock_all_difficulties :: bool
  easy_kill_damage :: bool
  infinite_mp :: bool
  cube_no_consume :: bool
  gem_upgrade_always :: bool
  gem_upgrade_speed :: bool
  gem_upgrade_lvl150 :: bool
  equip_multi_legendary :: bool
  super_god_mode :: bool
  extra_gr_orbs_elites :: bool

definition default_cheats :: cheats_config where
  "default_cheats =
     \<lparr>rc_active = True, move_speed = Fin (5 / 2), attack_speed = Fin 1,
      floating_damage_color = False, guaranteed_legendaries = False, drop_anything = False,
      instant_portal = True, no_cooldowns = False, instant_craft_actions = True,
      any_gem_any_slot = False, auto_pickup = False, equip_any_slot = False,
      unlock_all_difficulties = True, easy_kill_damage = False, infinite_mp = True,
      cube_no_consume = False, gem_upgrade_always = False, gem_upgrade_speed = True,
      gem_upgrade_lvl150 = False, equip_multi_legendary = True, super_god_mode = False,
      extra_gr_orbs_elites = False\<rparr>"

record overlays_config =
  ov_active :: bool
  buildlocker_watermark :: bool
  ddm_labels :: bool
  fps_label :: bool
  var_res_label :: bool

definition default_overlays :: overlays_config where
  "default_overlays =
     \<lparr>ov_active = True, buildlocker_watermark = False, ddm_labels = True, fps_label = False,
      var_res_label = True\<rparr>"

record loot_config =
  lm_active :: bool
  DisableAncientDrops :: bool
  DisablePrimalAncientDrops :: bool
  DisableTormentDrops :: bool
  DisableTormentCheck :: bool
  SuppressGiftGeneration :: bool
  ForcedILevel :: s32
  TieredLootRunLevel :: s32
  AncientRank :: string
  AncientRankValue :: s32

definition default_loot :: loot_config where
  "default_loot =
     \<lparr>lm_active = False, DisableAncientDrops = False, DisablePrimalAncientDrops = False,
      DisableTormentDrops = False, DisableTormentCheck = False, SuppressGiftGeneration = True,
      ForcedILevel = 0, TieredLootRunLevel = 0, AncientRank = ''Primal'', AncientRankValue = 2\<rparr>"

record debug_config =
  db_active :: bool
  enable_crashes :: bool
  enable_pubfile_dump :: bool
  enable_error_traces :: bool
  enable_debug_flags :: bool
  tagnx :: bool
  enable_exception_handler :: bool
  enable_oe_notification_hook :: bool
  log_oe_notification_messages :: bool

definition default_debug :: debug_config where
  "default_debug =
     \<lparr>db_active = True, enable_crashes = False, enable_pubfile_dump = False,
      enable_error_traces = True, enable_debug_flags = False, tagnx = False,
      enable_exception_handler = False, enable_oe_notification_hook = False,
      log_oe_notification_messages = False\<rparr>"

record gui_config =
  gui_enabled :: bool
  gui_visible :: bool
  allow_left_stick_passthrough :: bool
  language_override :: string

definition default_gui :: gui_config where
  "default_gui =
     \<lparr>gui_enabled = True, gui_visible = False, allow_left_stick_passthrough = False,
      language_override = ''''\<rparr>"

record PatchConfig =
  initialized :: bool
  defaults_only :: bool
  seasons :: seasons_config
  challenge_rifts :: rifts_config
  events :: events_config
  rare_cheats :: cheats_config
  resolution_hack :: ResolutionHackConfig
  overlays :: overlays_config
  loot_modifiers :: loot_config
  debug :: debug_config
  gui :: gui_config

definition default_PatchConfig :: PatchConfig where
  "default_PatchConfig =
     \<lparr>initialized = False, defaults_only = True, seasons = default_seasons,
      challenge_rifts = default_rifts, events = default_events, rare_cheats = default_cheats,
      resolution_hack = default_resolution_hack, overlays = default_overlays,
      loot_modifiers = default_loot, debug = default_debug, gui = default_gui\<rparr>"

section \<open>Methods of ResolutionHackConfig\<close>

definition kAspectRatio :: rat where "kAspectRatio = rnd 24 (- 126) (16 / 9)"
definition kHandheldScaleMin :: fp where "kHandheldScaleMin = Fin 40"
definition kHandheldScaleMax :: fp where "kHandheldScaleMax = Fin 100"
definition kHandheldScaleStep :: rat where "kHandheldScaleStep = 5"
definition kHandheldScaleDefault :: fp where "kHandheldScaleDefault = Fin 80"

definition WidthForHeight :: "u32 \<Rightarrow> u32" where
  "WidthForHeight height = fp_to_u32 (fp_mul to_f32 (to_f32 (of_nat (unat height))) kAspectRatio)"

definition AlignEven :: "u32 \<Rightarrow> u32" where "AlignEven value = value AND NOT 1"

definition SetTargetRes :: "u32 \<Rightarrow> ResolutionHackConfig \<Rightarrow> ResolutionHackConfig" where
  "SetTargetRes height c = c\<lparr>target_resolution := height\<rparr>"

definition OutputHeightPx :: "ResolutionHackConfig \<Rightarrow> u32" where
  "OutputHeightPx c = AlignEven (target_resolution c)"

definition OutputWidthPx :: "ResolutionHackConfig \<Rightarrow> u32" where
  "OutputWidthPx c = AlignEven (WidthForHeight (OutputHeightPx c))"

definition NormalizeHandheldScale :: "fp \<Rightarrow> fp" where
  "NormalizeHandheldScale value0 =
     (if fp_leq value0 (Fin 0) then Fin 0
      else
        let value1 = clamp value0 kHandheldScaleMin kHandheldScaleMax;
            value2 = (if 0 < kHandheldScaleStep
                      then fp_mul to_f32 (fp_round (fp_div to_f32 value1 kHandheldScaleStep)) kHandheldScaleStep
                      else value1)
        in clamp value2 kHandheldScaleMin kHandheldScaleMax)"

text \<open>The literal \<open>0.01f\<close>.\<close>

definition percent :: rat where "percent = rnd 24 (- 126) (1 / 100)"

definition HandheldScaleFraction :: "ResolutionHackConfig \<Rightarrow> fp" where
  "HandheldScaleFraction c =
     (if fp_leq (output_handheld_scale c) (Fin 0) then fp_mul to_f32 kHandheldScaleDefault percent
      else fp_mul to_f32 (clamp (output_handheld_scale c) kHandheldScaleMin kHandheldScaleMax) percent)"

definition OutputHandheldHeightPx :: "ResolutionHackConfig \<Rightarrow> u32" where
  "OutputHandheldHeightPx c =
     (let scale = HandheldScaleFraction c in
      if fp_leq scale (Fin 0) then 0
      else
        let scaled = (case to_f32 (of_nat (unat (target_resolution c))) of
                        Fin t \<Rightarrow> fp_mul to_f32 scale t | v \<Rightarrow> v)
        in AlignEven (word_of_int (fp_to_int (- (2 ^ 63)) (2 ^ 63 - 1) (fp_round scaled))))"

definition OutputHandheldWidthPx :: "ResolutionHackConfig \<Rightarrow> u32" where
  "OutputHandheldWidthPx c = WidthForHeight (OutputHandheldHeightPx c)"

definition ClampTexturesEnabled :: "ResolutionHackConfig \<Rightarrow> bool" where
  "ClampTexturesEnabled c = (clamp_texture_resolution c \<noteq> 0)"

definition ClampTextureHeightPx :: "ResolutionHackConfig \<Rightarrow> u32" where
  "ClampTextureHeightPx c = clamp_texture_resolution c"

definition ClampTextureWidthPx :: "ResolutionHackConfig \<Rightarrow> u32" where
  "ClampTextureWidthPx c = WidthForHeight (ClampTextureHeightPx c)"

section \<open>Output sizes\<close>

lemma kAspectRatio_value: "kAspectRatio = 14913081 / 8388608"
proof -
  have "round_even (134217728 / 9) = 14913081" by (rule round_even_unique) simp
  then show ?thesis
    unfolding kAspectRatio_def
    by (subst rnd_at_exponent[of 0]) (simp_all add: power_int_def power_divide)
qed

lemma WidthForHeight_exact:
  assumes "unat h \<le> 16384"
  shows "unat (WidthForHeight h) = 16 * unat h div 9"
proof -
  define n where "n = unat h"
  define w where "w = 16 * n div 9"
  have n: "n \<le> 16384" using assms by (simp add: n_def)
  have w: "9 * w \<le> 16 * n" "16 * n \<le> 9 * w + 8" "w \<le> 29127" using n by (simp_all add: w_def)
  have wr: "9 * (of_nat w :: rat) \<le> 16 * of_nat n" "16 * (of_nat n :: rat) \<le> 9 * of_nat w + 8"
    "(of_nat w :: rat) \<le> 29127" "(of_nat n :: rat) \<le> 16384"
    using of_nat_mono[OF w(1), where 'a = rat] of_nat_mono[OF w(2), where 'a = rat]
      of_nat_mono[OF w(3), where 'a = rat] of_nat_mono[OF n, where 'a = rat] by simp_all
  define x where "x = (of_nat n :: rat) * kAspectRatio"
  define b where "b = (of_int (16 * int w + 15) :: rat) / 2 ^ 4"
  have lo: "of_nat w \<le> x" and hi: "x \<le> b"
    using wr by (simp_all add: x_def b_def kAspectRatio_value)
  have ra: "rnd 24 (- 126) (of_nat w :: rat) = of_nat w" using w by (intro rnd24_of_nat) simp
  have rb: "rnd 24 (- 126) b = b" unfolding b_def using w by (intro rnd24_quotient) simp_all
  have b64: "b < 2 ^ 64" using wr by (simp add: b_def)
  obtain y where y: "to_f32 x = Fin y" "of_nat w \<le> y" "y \<le> b"
    using to_f32_between[OF _ lo hi b64 ra rb] by auto
  have "y < of_nat w + 1" using y(3) by (simp add: b_def)
  with y(2) have "\<lfloor>y\<rfloor> = int w" by (intro floor_unique) simp_all
  moreover have "0 \<le> y" using y(2) by (meson of_nat_0_le_iff order_trans)
  ultimately have "fp_to_int 0 (2 ^ 32 - 1) (to_f32 x) = int w" using w by (simp add: y(1) trunc_def)
  moreover have "to_f32 (of_nat n) = Fin (of_nat n)" using n by (intro to_f32_of_nat) simp
  ultimately have "WidthForHeight h = word_of_int (int w)"
    by (simp add: WidthForHeight_def fp_to_u32_def x_def n_def)
  then have "unat (WidthForHeight h) = w" using w(3) by (simp add: unsigned_of_nat take_bit_nat_eq_self)
  then show ?thesis by (simp add: w_def n_def)
qed

lemma unat_AlignEven: "unat (AlignEven v) = 2 * (unat v div 2)"
proof -
  have a: "v AND NOT 1 = push_bit 1 (drop_bit 1 v)"
  proof (rule bit_word_eqI)
    fix n
    assume "n < LENGTH(32)"
    then show "bit (v AND NOT 1) n = bit (push_bit 1 (drop_bit 1 v)) n"
      by (cases n) (simp_all add: bit_and_iff bit_not_iff bit_1_iff bit_simps Suc_eq_plus1_left
          del: One_nat_def)
  qed
  have "unat v < 4294967296" using unsigned_less[of v, where 'a = nat] by simp
  then have "2 * (unat v div 2) < 4294967296" by simp
  then show ?thesis
    unfolding AlignEven_def a
    by (simp only: unsigned_push_bit_eq unsigned_drop_bit_eq)
      (simp add: push_bit_eq_mult drop_bit_eq_div take_bit_nat_eq_self)
qed

text \<open>
  The docked output size is the exact 16:9 size of the target height, in even
  pixels: the height is the target rounded down to even, the width is
  16 * height / 9 rounded down to even, although the code computes it with a
  single-precision aspect ratio.
\<close>
lemma output_size_16_9:
  assumes "unat (target_resolution c) \<le> 16384"
  shows "unat (OutputHeightPx c) = 2 * (unat (target_resolution c) div 2)
       \<and> unat (OutputWidthPx c) = 2 * (16 * unat (OutputHeightPx c) div 9 div 2)"
proof -
  have h: "unat (OutputHeightPx c) = 2 * (unat (target_resolution c) div 2)"
    by (simp add: OutputHeightPx_def unat_AlignEven)
  then have "unat (OutputHeightPx c) \<le> 16384" using assms by linarith
  then show ?thesis using h by (simp add: OutputWidthPx_def unat_AlignEven WidthForHeight_exact)
qed

section \<open>Handheld scale\<close>

lemma fp_leq_Fin [simp]: "fp_leq (Fin x) (Fin y) = (x \<le> y)"
  by (auto simp: fp_leq_def)

lemma clamp_Fin: "lo \<le> hi \<Longrightarrow> clamp (Fin x) (Fin lo) (Fin hi) = Fin (max lo (min hi x))"
  by (auto simp: clamp_def)

lemma clamp_cases:
  assumes "lo \<le> hi" "v \<noteq> NaN"
  obtains x where "clamp v (Fin lo) (Fin hi) = Fin x" "lo \<le> x" "x \<le> hi"
proof -
  have "\<exists>x. clamp v (Fin lo) (Fin hi) = Fin x \<and> lo \<le> x \<and> x \<le> hi"
    using assms by (cases v) (auto simp: clamp_def)
  then show thesis using that by blast
qed

lemma clamp_NaN [simp]: "clamp NaN lo hi = NaN"
  by (cases hi) (simp_all add: clamp_def)

lemma round_away_bounds:
  assumes "of_int a \<le> x" "x \<le> of_int b" "0 \<le> a"
  shows "a \<le> round_away x" "round_away x \<le> b" "\<bar>of_int (round_away x) - x\<bar> \<le> 1 / 2"
proof -
  have x: "0 \<le> x" using assms by (metis of_int_0_le_iff order_trans)
  then have r: "round_away x = \<lfloor>x + 1 / 2\<rfloor>" by (simp add: round_away_def)
  show "a \<le> round_away x" "round_away x \<le> b" "\<bar>of_int (round_away x) - x\<bar> \<le> 1 / 2"
    unfolding r using assms by (linarith | simp add: le_floor_iff)+
qed

text \<open>The value of a scale already between the two bounds.\<close>

lemma NormalizeHandheldScale_inside:
  assumes "40 \<le> x" "x \<le> 100"
  obtains k where "NormalizeHandheldScale (Fin x) = Fin (of_int (5 * k))" "8 \<le> k" "k \<le> 20"
    and "\<bar>of_int (5 * k) - x\<bar> \<le> 5 / 2 + 1 / 100000"
proof -
  have r8: "rnd 24 (- 126) 8 = 8" and r20: "rnd 24 (- 126) 20 = 20"
    using rnd24_of_nat[of 8] rnd24_of_nat[of 20] by simp_all
  define y where "y = rnd 24 (- 126) (x / 5)"
  have y: "8 \<le> y" "y \<le> 20"
    using rnd_mono[of 8 "x / 5" 24 "- 126"] rnd_mono[of "x / 5" 20 24 "- 126"] assms r8 r20
    by (simp_all add: y_def)
  have "\<bar>y - x / 5\<bar> \<le> \<bar>x / 5\<bar> * 2 powi (- 24)"
  proof -
    have "(2 :: rat) powi (- 126) \<le> 2 powi 0" by (rule powi_2_mono) simp
    then show ?thesis using assms unfolding y_def by (intro rnd_error) simp
  qed
  also have "\<dots> \<le> 20 * 2 powi (- 24)" using assms by (intro mult_right_mono) simp_all
  finally have err: "\<bar>y - x / 5\<bar> \<le> 20 * 2 powi (- 24)" .
  have p24: "(2 :: rat) powi (- 24) = 1 / 16777216" by (simp add: power_int_def power_divide)
  define k where "k = round_away y"
  have k: "8 \<le> k" "k \<le> 20" "\<bar>of_int k - y\<bar> \<le> 1 / 2"
    using round_away_bounds[of 8 y 20] y by (simp_all add: k_def)
  have yF: "to_f32 (x / 5) = Fin y"
    using y by (simp add: to_f32_def y_def with_range_Fin)
  have "to_f32 (of_nat (nat (5 * k))) = Fin (of_nat (nat (5 * k)))" using k by (intro to_f32_of_nat) simp
  then have kF: "to_f32 (of_int k * 5) = Fin (of_int (5 * k))" using k by (simp add: of_nat_nat mult.commute)
  have kr: "(8 :: rat) \<le> of_int k" "of_int k \<le> (20 :: rat)" using k by simp_all
  have "NormalizeHandheldScale (Fin x) = Fin (of_int (5 * k))"
    using assms kr by (simp add: NormalizeHandheldScale_def kHandheldScaleMin_def kHandheldScaleMax_def
        kHandheldScaleStep_def clamp_Fin yF kF Let_def flip: k_def)
  moreover have "\<bar>of_int (5 * k) - x\<bar> \<le> 5 / 2 + 1 / 100000"
  proof -
    have "\<bar>y - x / 5\<bar> \<le> 20 / 16777216" using err by (simp add: p24)
    then have "\<bar>5 * of_int k - x\<bar> \<le> 5 / 2 + 1 / 100000" using k(3) by linarith
    then show ?thesis by simp
  qed
  ultimately show thesis using that k by blast
qed

lemma NormalizeHandheldScale_clamps:
  "\<not> fp_leq v (Fin 0) \<Longrightarrow>
     NormalizeHandheldScale v = NormalizeHandheldScale (clamp v (Fin 40) (Fin 100))"
  by (cases v) (auto simp: NormalizeHandheldScale_def kHandheldScaleMin_def kHandheldScaleMax_def
      clamp_def fp_leq_def Let_def)

lemma NormalizeHandheldScale_NaN [simp]: "NormalizeHandheldScale NaN = NaN"
  by (simp add: NormalizeHandheldScale_def fp_leq_def Let_def kHandheldScaleStep_def)

lemma NormalizeHandheldScale_zero [simp]: "fp_leq v (Fin 0) \<Longrightarrow> NormalizeHandheldScale v = Fin 0"
  by (simp add: NormalizeHandheldScale_def)

text \<open>The multiples of five are fixed points.\<close>

lemma NormalizeHandheldScale_step:
  assumes "8 \<le> k" "k \<le> 20"
  shows "NormalizeHandheldScale (Fin (of_int (5 * k))) = Fin (of_int (5 * k))"
proof -
  have "(40 :: rat) \<le> of_int (5 * k)" "of_int (5 * k) \<le> (100 :: rat)" using assms by simp_all
  then obtain j where j: "NormalizeHandheldScale (Fin (of_int (5 * k))) = Fin (of_int (5 * j))"
    "\<bar>of_int (5 * j) - of_int (5 * k)\<bar> \<le> (5 / 2 + 1 / 100000 :: rat)"
    by (rule NormalizeHandheldScale_inside)
  from j(2) have "\<bar>of_int (5 * (j - k))\<bar> < (5 :: rat)" by simp
  then have "\<bar>5 * (j - k)\<bar> < 5" by linarith
  then have "j = k" by simp
  with j(1) show ?thesis by simp
qed

text \<open>
  A handheld scale is always normalised to automatic (zero) or to a multiple
  of five percent between 40 and 100: every value up to zero becomes zero, every
  other value becomes the step nearest to its clamped value (within the rounding
  of one single-precision division), normalising again changes nothing, and only
  NaN stays NaN.
\<close>
lemma handheld_scale_steps:
  assumes "v \<noteq> NaN"
  shows "(fp_leq v (Fin 0) \<longrightarrow> NormalizeHandheldScale v = Fin 0)
       \<and> (\<not> fp_leq v (Fin 0) \<longrightarrow>
            (\<exists>k \<in> {8..20}. \<exists>x. clamp v (Fin 40) (Fin 100) = Fin x
               \<and> NormalizeHandheldScale v = Fin (of_int (5 * k))
               \<and> \<bar>of_int (5 * k) - x\<bar> \<le> 5 / 2 + 1 / 100000))
       \<and> NormalizeHandheldScale (NormalizeHandheldScale v) = NormalizeHandheldScale v
       \<and> NormalizeHandheldScale NaN = NaN"
proof (cases "fp_leq v (Fin 0)")
  case True
  then show ?thesis by simp
next
  case False
  obtain x where x: "clamp v (Fin 40) (Fin 100) = Fin x" "40 \<le> x" "x \<le> 100"
    using clamp_cases[of 40 100 v] assms by auto
  obtain k where k: "NormalizeHandheldScale (Fin x) = Fin (of_int (5 * k))" "8 \<le> k" "k \<le> 20"
    "\<bar>of_int (5 * k) - x\<bar> \<le> 5 / 2 + 1 / 100000"
    using NormalizeHandheldScale_inside[OF x(2,3)] by blast
  have v: "NormalizeHandheldScale v = Fin (of_int (5 * k))"
    using NormalizeHandheldScale_clamps[OF False] x(1) k(1) by simp
  have "NormalizeHandheldScale (NormalizeHandheldScale v) = NormalizeHandheldScale v"
    unfolding v using k(2,3) by (rule NormalizeHandheldScale_step)
  moreover have "k \<in> {8..20}" using k(2,3) by simp
  ultimately show ?thesis using False v x(1) k(4) by auto
qed

text \<open>The scale as a fraction never exceeds one.\<close>

lemma percent_bounds: "0 < percent" "percent \<le> 10737418 / 1073741824"
proof -
  have "round_even (536870912 / 50) = 10737418" by (rule round_even_unique) simp
  then have "percent = 10737418 / 1073741824"
    unfolding percent_def
    by (subst rnd_at_exponent[of "- 7"]) (simp_all add: power_int_def power_divide)
  then show "0 < percent" "percent \<le> 10737418 / 1073741824" by simp_all
qed

lemma to_f32_scale_percent:
  assumes "0 < x" "x \<le> 100"
  obtains y where "to_f32 (x * percent) = Fin y" "0 \<le> y" "y \<le> 1"
proof -
  have "x * percent \<le> 100 * (10737418 / 1073741824)"
    using assms percent_bounds by (intro mult_mono) simp_all
  then have "x * percent \<le> 1 + 1 / 2 ^ 26" by simp
  moreover have "rnd 24 (- 126) (1 + 1 / 2 ^ 26) = 1"
  proof -
    have "round_even ((1 + 1 / 2 ^ 26) * 8388608) = 8388608" by (rule round_even_unique) simp
    then show ?thesis by (subst rnd_at_exponent[of 0]) (simp_all add: power_int_def power_divide)
  qed
  ultimately have "rnd 24 (- 126) (x * percent) \<le> 1"
    using rnd_mono[of "x * percent" "1 + 1 / 2 ^ 26" 24 "- 126"] assms percent_bounds by simp
  moreover have "0 \<le> rnd 24 (- 126) (x * percent)"
    using assms percent_bounds by (intro rnd_nonneg) simp
  ultimately show thesis using that by (simp add: to_f32_def with_range_Fin)
qed

lemma handheld_height:
  assumes "output_handheld_scale c \<noteq> NaN" "unat (target_resolution c) < 16777216"
  shows "unat (OutputHandheldHeightPx c) \<le> unat (OutputHeightPx c)
       \<and> even (unat (OutputHandheldHeightPx c))"
proof -
  define t where "t = unat (target_resolution c)"
  obtain x where x: "HandheldScaleFraction c = to_f32 (x * percent)" "0 < x" "x \<le> 100"
  proof (cases "fp_leq (output_handheld_scale c) (Fin 0)")
    case True
    then show thesis using that[of 80] by (simp add: HandheldScaleFraction_def kHandheldScaleDefault_def)
  next
    case False
    obtain z where "clamp (output_handheld_scale c) (Fin 40) (Fin 100) = Fin z" "40 \<le> z" "z \<le> 100"
      using clamp_cases[of 40 100 "output_handheld_scale c"] assms(1) by auto
    then show thesis using that[of z] False
      by (simp add: HandheldScaleFraction_def kHandheldScaleMin_def kHandheldScaleMax_def)
  qed
  obtain y where y: "HandheldScaleFraction c = Fin y" "0 \<le> y" "y \<le> 1"
    using to_f32_scale_percent[OF x(2,3)] x(1) by metis
  have tF: "to_f32 (of_nat t) = Fin (of_nat t)" using assms(2) by (intro to_f32_of_nat) (simp add: t_def)
  have rt: "rnd 24 (- 126) (of_nat t) = of_nat t" using assms(2) by (intro rnd24_of_nat) (simp add: t_def)
  have "y * of_nat t \<le> 1 * of_nat t" using y by (intro mult_right_mono) simp_all
  then have up: "y * of_nat t \<le> of_nat t" by simp
  have lo: "0 \<le> y * of_nat t" using y by simp
  have "(of_nat t :: rat) < of_nat 16777216" using assms(2) by (simp only: of_nat_less_iff t_def)
  then have t64: "(of_nat t :: rat) < 2 ^ 64" by simp
  obtain s where s: "to_f32 (y * of_nat t) = Fin s" "0 \<le> s" "s \<le> of_nat t"
    using to_f32_between[OF _ lo up t64 _ rt] by (auto simp: rnd_def)
  define k where "k = round_away s"
  have k: "0 \<le> k" "k \<le> int t" using round_away_bounds[of 0 s "int t"] s by (simp_all add: k_def)
  have kt: "k < 16777216" using k assms(2) unfolding t_def by linarith
  have "fp_to_int (- (2 ^ 63)) (2 ^ 63 - 1) (fp_round (Fin s)) = k"
    using k kt by (simp add: trunc_def flip: k_def)
  then have h: "OutputHandheldHeightPx c = (if y \<le> 0 then 0 else AlignEven (word_of_int k))"
    using y s(1) tF by (simp add: OutputHandheldHeightPx_def Let_def flip: t_def)
  have "unat (word_of_int k :: u32) = nat k"
    using k(1) kt by (simp add: unsigned_of_int take_bit_int_eq_self)
  then have "unat (AlignEven (word_of_int k)) = 2 * (nat k div 2)" by (simp add: unat_AlignEven)
  moreover have "nat k \<le> t" using k by simp
  then have "nat k div 2 \<le> t div 2" by (rule div_le_mono)
  ultimately show ?thesis by (simp add: h OutputHeightPx_def unat_AlignEven t_def)
qed

text \<open>
  With any scale but NaN, the handheld output is even and never exceeds the
  docked output of the same target.
\<close>
lemma handheld_within_docked:
  assumes "output_handheld_scale c \<noteq> NaN" "unat (target_resolution c) < 16777216"
  shows "unat (OutputHandheldHeightPx c) \<le> unat (OutputHeightPx c)
       \<and> even (unat (OutputHandheldHeightPx c))"
  by (rule handheld_height[OF assms])

end
