(* ===== verification/Config_Schema.thy ===== *)
theory Config_Schema
  imports Config_Types
begin

text \<open>
  The settings schema of \<open>source/program/config_schema.cpp\<close>: one entry per setting
  with its section, key, aliases, kind, bounds and accessors, the lookups over the
  table, and the two loops that read the settings from a TOML table and write them
  back.  The TOML library is a submodule: its operations are the fields of
  \<open>toml\<close>, an argument of every definition that uses them, and \<open>toml_laws\<close> states
  the behaviour of them the code relies on.
\<close>

section \<open>The TOML library\<close>

text \<open>
  Tables \<open>'t\<close>, nodes \<open>'n\<close>.  \<open>n_bool\<close>, \<open>n_double\<close>, \<open>n_s64\<close> and \<open>n_string\<close> are
  \<open>node->value<T>()\<close>; \<open>n_as_table\<close> is \<open>is_table\<close> and \<open>as_table\<close>; \<open>t_assign\<close> is a
  write to a table through the pointer \<open>doc.get(key)->as_table()\<close>.
\<close>

record ('t, 'n) toml =
  t_empty :: 't
  t_get :: "'t \<Rightarrow> string \<Rightarrow> 'n option"
  t_insert :: "'t \<Rightarrow> string \<Rightarrow> 'n \<Rightarrow> 't"
  t_assign :: "'t \<Rightarrow> string \<Rightarrow> 'n \<Rightarrow> 't"
  n_as_table :: "'n \<Rightarrow> 't option"
  n_bool :: "'n \<Rightarrow> bool option"
  n_double :: "'n \<Rightarrow> fp option"
  n_s64 :: "'n \<Rightarrow> s64 option"
  n_string :: "'n \<Rightarrow> string option"
  of_table :: "'t \<Rightarrow> 'n"
  of_bool :: "bool \<Rightarrow> 'n"
  of_double :: "fp \<Rightarrow> 'n"
  of_s64 :: "s64 \<Rightarrow> 'n"
  of_string :: "string \<Rightarrow> 'n"

text \<open>
  The documented behaviour: \<open>insert\<close> adds a key and leaves a present one alone,
  and a node gives back the value it was made from.  An integer may or may not be
  readable as a \<open>double\<close>.
\<close>

definition toml_laws :: "('t, 'n) toml \<Rightarrow> bool" where
  "toml_laws T \<longleftrightarrow>
     (\<forall>k. t_get T (t_empty T) k = None)
   \<and> (\<forall>t k n k'. t_get T (t_insert T t k n) k' =
        (if k' = k \<and> t_get T t k = None then Some n else t_get T t k'))
   \<and> (\<forall>t k n k'. t_get T t k \<noteq> None \<longrightarrow>
        t_get T (t_assign T t k n) k' = (if k' = k then Some n else t_get T t k'))
   \<and> (\<forall>t. n_as_table T (of_table T t) = Some t)
   \<and> (\<forall>b. n_bool T (of_bool T b) = Some b)
   \<and> (\<forall>d. n_double T (of_double T d) = Some d)
   \<and> (\<forall>i. n_s64 T (of_s64 T i) = Some i)
   \<and> (\<forall>i. n_double T (of_s64 T i) = None \<or> n_double T (of_s64 T i) = Some (to_f64 (of_int (sint i))))
   \<and> (\<forall>s. n_string T (of_string T s) = Some s)"

section \<open>Entries\<close>

datatype ValueKind = BoolKind | U32Kind | FloatKind | StringKind
datatype RestartPolicy = RuntimeSafe | RestartRequired

record Entry =
  e_section :: string
  e_key :: string
  e_keys :: "string list"
  e_kind :: ValueKind
  e_restart :: RestartPolicy
  e_tr_label :: string
  e_label_fallback :: string
  e_omit_if_empty :: bool
  e_min_f :: rat
  e_max_f :: rat
  e_step_f :: rat
  e_min_u :: u32
  e_max_u :: u32
  e_step_u :: u32
  e_get_bool :: "(PatchConfig \<Rightarrow> bool) option"
  e_set_bool :: "(PatchConfig \<Rightarrow> bool \<Rightarrow> PatchConfig) option"
  e_get_u32 :: "(PatchConfig \<Rightarrow> u32) option"
  e_set_u32 :: "(PatchConfig \<Rightarrow> u32 \<Rightarrow> PatchConfig) option"
  e_parse_u32_str :: "(string \<Rightarrow> u32 \<Rightarrow> u32) option"
  e_get_float :: "(PatchConfig \<Rightarrow> fp) option"
  e_set_float :: "(PatchConfig \<Rightarrow> fp \<Rightarrow> PatchConfig) option"
  e_parse_float_str :: "(string \<Rightarrow> fp \<Rightarrow> fp) option"
  e_get_string :: "(PatchConfig \<Rightarrow> string) option"
  e_set_string :: "(PatchConfig \<Rightarrow> string \<Rightarrow> PatchConfig) option"

text \<open>The default member initialisers of \<open>struct Entry\<close>.\<close>

definition base_entry :: Entry where
  "base_entry =
     \<lparr>e_section = '''', e_key = '''', e_keys = [], e_kind = BoolKind, e_restart = RestartRequired,
      e_tr_label = '''', e_label_fallback = '''', e_omit_if_empty = False,
      e_min_f = 0, e_max_f = 0, e_step_f = 0, e_min_u = 0, e_max_u = 0, e_step_u = 0,
      e_get_bool = None, e_set_bool = None, e_get_u32 = None, e_set_u32 = None,
      e_parse_u32_str = None, e_get_float = None, e_set_float = None, e_parse_float_str = None,
      e_get_string = None, e_set_string = None\<rparr>"

section \<open>Strings\<close>

definition isspace :: "char \<Rightarrow> bool" where
  "isspace ch = (let n = (of_char ch :: nat) in n = 32 \<or> (9 \<le> n \<and> n \<le> 13))"

definition isdigit :: "char \<Rightarrow> bool" where
  "isdigit ch = (let n = (of_char ch :: nat) in 48 \<le> n \<and> n \<le> 57)"

definition tolower :: "char \<Rightarrow> char" where
  "tolower ch = (let n = (of_char ch :: nat) in if 65 \<le> n \<and> n \<le> 90 then char_of (n + 32) else ch)"

definition NormalizeKey :: "string \<Rightarrow> string" where
  "NormalizeKey input =
     map tolower (filter (\<lambda>ch. \<not> (isspace ch \<or> ch = CHR ''_'' \<or> ch = CHR ''-'')) input)"

text \<open>
  \<open>std::from_chars\<close> for a decimal \<open>u32\<close>: the longest run of digits and the rest
  of the input; \<open>None\<close> when there is none or the value does not fit.
\<close>

definition from_chars_u32 :: "string \<Rightarrow> (u32 \<times> string) option" where
  "from_chars_u32 s =
     (let digits = takeWhile isdigit s;
          value = foldl (\<lambda>a d. 10 * a + (of_char d - 48)) (0 :: nat) digits
      in if digits = [] \<or> 2 ^ 32 \<le> value then None else Some (of_nat value, dropWhile isdigit s))"

definition ParseResolutionHackOutputTarget :: "string \<Rightarrow> u32 \<Rightarrow> u32" where
  "ParseResolutionHackOutputTarget input fallback =
     (let normalized = NormalizeKey input in
      if normalized = [] then fallback
      else if normalized \<in> set [''default'', ''unchanged''] then 900
      else if normalized \<in> set [''720'', ''720p''] then 720
      else if normalized \<in> set [''900'', ''900p''] then 900
      else if normalized \<in> set [''1080'', ''1080p'', ''fhd''] then 1080
      else if normalized \<in> set [''1440'', ''1440p'', ''2k'', ''qhd''] then 1440
      else if normalized \<in> set [''2160'', ''2160p'', ''4k'', ''uhd''] then 2160
      else case from_chars_u32 normalized of
             Some (value, rest) \<Rightarrow> if rest = [] \<and> 0 < value then value else fallback
           | None \<Rightarrow> fallback)"

section \<open>Reading nodes\<close>

definition FindSection :: "('t, 'n) toml \<Rightarrow> 't \<Rightarrow> string \<Rightarrow> 't option" where
  "FindSection T doc key = Option.bind (t_get T doc key) (n_as_table T)"

text \<open>\<open>ReadValue<T>\<close>, for the reader \<open>value\<close> of the type \<open>T\<close>.\<close>

fun ReadValue :: "('t, 'n) toml \<Rightarrow> ('n \<Rightarrow> 'a option) \<Rightarrow> 't \<Rightarrow> string list \<Rightarrow> 'a option" where
  "ReadValue T value table [] = None"
| "ReadValue T value table (key # keys) =
     (case Option.bind (t_get T table key) value of
        Some v \<Rightarrow> Some v
      | None \<Rightarrow> ReadValue T value table keys)"

fun ReadNumber :: "('t, 'n) toml \<Rightarrow> 't \<Rightarrow> string list \<Rightarrow> fp option" where
  "ReadNumber T table [] = None"
| "ReadNumber T table (key # keys) =
     (case t_get T table key of
        None \<Rightarrow> ReadNumber T table keys
      | Some node \<Rightarrow>
          (case n_double T node of
             Some v \<Rightarrow> Some v
           | None \<Rightarrow>
               (case n_s64 T node of
                  Some i \<Rightarrow> Some (to_f64 (of_int (sint i)))
                | None \<Rightarrow> ReadNumber T table keys)))"

section \<open>Key aliases\<close>

definition kKeysSectionEnabled :: "string list" where
  "kKeysSectionEnabled =
     [''SectionEnabled'',
      ''Enabled'',
      ''Active'']"
definition kKeysBuildLockerWatermark :: "string list" where
  "kKeysBuildLockerWatermark =
     [''BuildLockerWatermark'',
      ''BuildlockerWatermark'']"
definition kKeysDdmLabels :: "string list" where "kKeysDdmLabels = [''DDMLabels'', ''DebugLabels'']"
definition kKeysFpsLabel :: "string list" where "kKeysFpsLabel = [''FPSLabel'', ''DrawFPSLabel'']"
definition kKeysVarResLabel :: "string list" where
  "kKeysVarResLabel =
     [''VariableResLabel'',
      ''VarResLabel'',
      ''DrawVariableResolutionLabel'']"
definition kKeysTagNx :: "string list" where
  "kKeysTagNx =
     [''SpoofNetworkFunctions'',
      ''SpoofNetwork'',
      ''TagNX'']"
definition kKeysLanguage :: "string list" where
  "kKeysLanguage =
     [''Language'',
      ''Lang'',
      ''Locale'']"
definition kKeysAcknowledgeJester :: "string list" where
  "kKeysAcknowledgeJester =
     [''Acknowledge_god_jester'']"
definition kKeysPubfileDump :: "string list" where
  "kKeysPubfileDump =
     [''EnablePubFileDump'',
      ''PubFileDump'']"
definition kKeysErrorTraces :: "string list" where
  "kKeysErrorTraces =
     [''EnableErrorTraces'',
      ''ErrorTraces'']"
definition kKeysDebugFlags :: "string list" where
  "kKeysDebugFlags =
     [''EnableDebugFlags'',
      ''DebugFlags'']"
definition kKeysExceptionHandler :: "string list" where
  "kKeysExceptionHandler =
     [''EnableExceptionHandler'',
      ''ExceptionHandler'']"
definition kKeysOeNotificationHook :: "string list" where
  "kKeysOeNotificationHook =
     [''EnableOeNotificationHook'',
      ''OeNotificationHook'']"
definition kKeysLogOeNotifications :: "string list" where
  "kKeysLogOeNotifications =
     [''LogOeNotificationMessages'',
      ''LogNotificationMessages'']"
definition kKeysGuiEnabled :: "string list" where
  "kKeysGuiEnabled =
     [''Enabled'',
      ''SectionEnabled'',
      ''Active'']"
definition kKeysGuiVisible :: "string list" where
  "kKeysGuiVisible =
     [''Visible'',
      ''Show'',
      ''WindowVisible'']"
definition kKeysGuiLeftStick :: "string list" where
  "kKeysGuiLeftStick =
     [''AllowLeftStickPassthrough'',
      ''LeftStickPassthrough'',
      ''AllowLeftStickThrough'']"
definition kKeysReshackSpoofDocked :: "string list" where
  "kKeysReshackSpoofDocked =
     [''SpoofDocked'',
      ''SpoofDock'',
      ''DockedSpoof'']"
definition kKeysReshackExpScheduler :: "string list" where
  "kKeysReshackExpScheduler =
     [''ExperimentalScheduler'',
      ''ExpScheduler'',
      ''ExperimentalScheduling'',
      ''ExpScheduling'']"
definition kKeysReshackOutputTarget :: "string list" where
  "kKeysReshackOutputTarget =
     [''OutputTarget'',
      ''OutputHeight'',
      ''Height'',
      ''OutputVertical'',
      ''Vertical'',
      ''OutputRes'',
      ''OutputResolution'',
      ''OutputWidth'',
      ''Width'']"
definition kKeysReshackMinResScale :: "string list" where
  "kKeysReshackMinResScale =
     [''MinScale'',
      ''MinimumScale'',
      ''MinResScale'',
      ''MinimumResScale'',
      ''MinResolutionScale'',
      ''MinimumResolutionScale'']"
definition kKeysReshackMaxResScale :: "string list" where
  "kKeysReshackMaxResScale =
     [''MaxScale'',
      ''MaximumScale'',
      ''MaxResScale'',
      ''MaximumResScale'',
      ''MaxResolutionScale'',
      ''MaximumResolutionScale'']"
definition kKeysReshackOutputHandheldScale :: "string list" where
  "kKeysReshackOutputHandheldScale =
     [''OutputHandheldScale'',
      ''HandheldScale'',
      ''HandheldOutputScale'']"
definition kKeysReshackClampTextureResolution :: "string list" where
  "kKeysReshackClampTextureResolution =
     [''ClampTextureResolution'',
      ''ClampTextureHeight'',
      ''ClampTexture'',
      ''ClampTextureRes'']"

section \<open>Accessors\<close>

definition GetOverlaysActive :: "PatchConfig \<Rightarrow> bool" where "GetOverlaysActive cfg = ov_active (overlays cfg)"
definition SetOverlaysActive :: "PatchConfig \<Rightarrow> bool \<Rightarrow> PatchConfig" where
  "SetOverlaysActive cfg v = cfg\<lparr>overlays := (overlays cfg)\<lparr>ov_active := v\<rparr>\<rparr>"
definition GetOverlaysBuildLocker :: "PatchConfig \<Rightarrow> bool" where "GetOverlaysBuildLocker cfg = buildlocker_watermark (overlays cfg)"
definition SetOverlaysBuildLocker :: "PatchConfig \<Rightarrow> bool \<Rightarrow> PatchConfig" where
  "SetOverlaysBuildLocker cfg v = cfg\<lparr>overlays := (overlays cfg)\<lparr>buildlocker_watermark := v\<rparr>\<rparr>"
definition GetOverlaysDdm :: "PatchConfig \<Rightarrow> bool" where "GetOverlaysDdm cfg = ddm_labels (overlays cfg)"
definition SetOverlaysDdm :: "PatchConfig \<Rightarrow> bool \<Rightarrow> PatchConfig" where
  "SetOverlaysDdm cfg v = cfg\<lparr>overlays := (overlays cfg)\<lparr>ddm_labels := v\<rparr>\<rparr>"
definition GetOverlaysFps :: "PatchConfig \<Rightarrow> bool" where "GetOverlaysFps cfg = fps_label (overlays cfg)"
definition SetOverlaysFps :: "PatchConfig \<Rightarrow> bool \<Rightarrow> PatchConfig" where
  "SetOverlaysFps cfg v = cfg\<lparr>overlays := (overlays cfg)\<lparr>fps_label := v\<rparr>\<rparr>"
definition GetOverlaysVarRes :: "PatchConfig \<Rightarrow> bool" where "GetOverlaysVarRes cfg = var_res_label (overlays cfg)"
definition SetOverlaysVarRes :: "PatchConfig \<Rightarrow> bool \<Rightarrow> PatchConfig" where
  "SetOverlaysVarRes cfg v = cfg\<lparr>overlays := (overlays cfg)\<lparr>var_res_label := v\<rparr>\<rparr>"
definition GetGuiEnabled :: "PatchConfig \<Rightarrow> bool" where "GetGuiEnabled cfg = gui_enabled (gui cfg)"
definition SetGuiEnabled :: "PatchConfig \<Rightarrow> bool \<Rightarrow> PatchConfig" where
  "SetGuiEnabled cfg v = cfg\<lparr>gui := (gui cfg)\<lparr>gui_enabled := v\<rparr>\<rparr>"
definition GetGuiVisible :: "PatchConfig \<Rightarrow> bool" where "GetGuiVisible cfg = gui_visible (gui cfg)"
definition SetGuiVisible :: "PatchConfig \<Rightarrow> bool \<Rightarrow> PatchConfig" where
  "SetGuiVisible cfg v = cfg\<lparr>gui := (gui cfg)\<lparr>gui_visible := v\<rparr>\<rparr>"
definition GetGuiLeftStickPass :: "PatchConfig \<Rightarrow> bool" where "GetGuiLeftStickPass cfg = allow_left_stick_passthrough (gui cfg)"
definition SetGuiLeftStickPass :: "PatchConfig \<Rightarrow> bool \<Rightarrow> PatchConfig" where
  "SetGuiLeftStickPass cfg v = cfg\<lparr>gui := (gui cfg)\<lparr>allow_left_stick_passthrough := v\<rparr>\<rparr>"
definition GetGuiLanguage :: "PatchConfig \<Rightarrow> string" where "GetGuiLanguage cfg = language_override (gui cfg)"
definition SetGuiLanguage :: "PatchConfig \<Rightarrow> string \<Rightarrow> PatchConfig" where
  "SetGuiLanguage cfg v = cfg\<lparr>gui := (gui cfg)\<lparr>language_override := v\<rparr>\<rparr>"
definition GetDebugActive :: "PatchConfig \<Rightarrow> bool" where "GetDebugActive cfg = db_active (debug cfg)"
definition SetDebugActive :: "PatchConfig \<Rightarrow> bool \<Rightarrow> PatchConfig" where
  "SetDebugActive cfg v = cfg\<lparr>debug := (debug cfg)\<lparr>db_active := v\<rparr>\<rparr>"
definition GetDebugEnableCrashes :: "PatchConfig \<Rightarrow> bool" where "GetDebugEnableCrashes cfg = enable_crashes (debug cfg)"
definition SetDebugEnableCrashes :: "PatchConfig \<Rightarrow> bool \<Rightarrow> PatchConfig" where
  "SetDebugEnableCrashes cfg v = cfg\<lparr>debug := (debug cfg)\<lparr>enable_crashes := v\<rparr>\<rparr>"
definition GetDebugPubfileDump :: "PatchConfig \<Rightarrow> bool" where "GetDebugPubfileDump cfg = enable_pubfile_dump (debug cfg)"
definition SetDebugPubfileDump :: "PatchConfig \<Rightarrow> bool \<Rightarrow> PatchConfig" where
  "SetDebugPubfileDump cfg v = cfg\<lparr>debug := (debug cfg)\<lparr>enable_pubfile_dump := v\<rparr>\<rparr>"
definition GetDebugErrorTraces :: "PatchConfig \<Rightarrow> bool" where "GetDebugErrorTraces cfg = enable_error_traces (debug cfg)"
definition SetDebugErrorTraces :: "PatchConfig \<Rightarrow> bool \<Rightarrow> PatchConfig" where
  "SetDebugErrorTraces cfg v = cfg\<lparr>debug := (debug cfg)\<lparr>enable_error_traces := v\<rparr>\<rparr>"
definition GetDebugDebugFlags :: "PatchConfig \<Rightarrow> bool" where "GetDebugDebugFlags cfg = enable_debug_flags (debug cfg)"
definition SetDebugDebugFlags :: "PatchConfig \<Rightarrow> bool \<Rightarrow> PatchConfig" where
  "SetDebugDebugFlags cfg v = cfg\<lparr>debug := (debug cfg)\<lparr>enable_debug_flags := v\<rparr>\<rparr>"
definition GetDebugTagNx :: "PatchConfig \<Rightarrow> bool" where "GetDebugTagNx cfg = tagnx (debug cfg)"
definition SetDebugTagNx :: "PatchConfig \<Rightarrow> bool \<Rightarrow> PatchConfig" where
  "SetDebugTagNx cfg v = cfg\<lparr>debug := (debug cfg)\<lparr>tagnx := v\<rparr>\<rparr>"
definition GetDebugExceptionHandler :: "PatchConfig \<Rightarrow> bool" where "GetDebugExceptionHandler cfg = enable_exception_handler (debug cfg)"
definition SetDebugExceptionHandler :: "PatchConfig \<Rightarrow> bool \<Rightarrow> PatchConfig" where
  "SetDebugExceptionHandler cfg v = cfg\<lparr>debug := (debug cfg)\<lparr>enable_exception_handler := v\<rparr>\<rparr>"
definition GetDebugOeNotificationHook :: "PatchConfig \<Rightarrow> bool" where "GetDebugOeNotificationHook cfg = enable_oe_notification_hook (debug cfg)"
definition SetDebugOeNotificationHook :: "PatchConfig \<Rightarrow> bool \<Rightarrow> PatchConfig" where
  "SetDebugOeNotificationHook cfg v = cfg\<lparr>debug := (debug cfg)\<lparr>enable_oe_notification_hook := v\<rparr>\<rparr>"
definition GetDebugLogOeNotifications :: "PatchConfig \<Rightarrow> bool" where "GetDebugLogOeNotifications cfg = log_oe_notification_messages (debug cfg)"
definition SetDebugLogOeNotifications :: "PatchConfig \<Rightarrow> bool \<Rightarrow> PatchConfig" where
  "SetDebugLogOeNotifications cfg v = cfg\<lparr>debug := (debug cfg)\<lparr>log_oe_notification_messages := v\<rparr>\<rparr>"
definition GetReshackActive :: "PatchConfig \<Rightarrow> bool" where "GetReshackActive cfg = rh_active (resolution_hack cfg)"
definition SetReshackActive :: "PatchConfig \<Rightarrow> bool \<Rightarrow> PatchConfig" where
  "SetReshackActive cfg v = cfg\<lparr>resolution_hack := (resolution_hack cfg)\<lparr>rh_active := v\<rparr>\<rparr>"
definition GetReshackSpoofDocked :: "PatchConfig \<Rightarrow> bool" where "GetReshackSpoofDocked cfg = spoof_docked (resolution_hack cfg)"
definition SetReshackSpoofDocked :: "PatchConfig \<Rightarrow> bool \<Rightarrow> PatchConfig" where
  "SetReshackSpoofDocked cfg v = cfg\<lparr>resolution_hack := (resolution_hack cfg)\<lparr>spoof_docked := v\<rparr>\<rparr>"
definition GetReshackExpScheduler :: "PatchConfig \<Rightarrow> bool" where "GetReshackExpScheduler cfg = exp_scheduler (resolution_hack cfg)"
definition SetReshackExpScheduler :: "PatchConfig \<Rightarrow> bool \<Rightarrow> PatchConfig" where
  "SetReshackExpScheduler cfg v = cfg\<lparr>resolution_hack := (resolution_hack cfg)\<lparr>exp_scheduler := v\<rparr>\<rparr>"
definition GetReshackOutputTarget :: "PatchConfig \<Rightarrow> u32" where "GetReshackOutputTarget cfg = target_resolution (resolution_hack cfg)"
definition GetReshackOutputHandheldScale :: "PatchConfig \<Rightarrow> fp" where "GetReshackOutputHandheldScale cfg = output_handheld_scale (resolution_hack cfg)"
definition GetReshackMinResScale :: "PatchConfig \<Rightarrow> fp" where "GetReshackMinResScale cfg = min_res_scale (resolution_hack cfg)"
definition GetReshackMaxResScale :: "PatchConfig \<Rightarrow> fp" where "GetReshackMaxResScale cfg = max_res_scale (resolution_hack cfg)"
definition GetReshackClampTextureResolution :: "PatchConfig \<Rightarrow> u32" where "GetReshackClampTextureResolution cfg = clamp_texture_resolution (resolution_hack cfg)"

text \<open>\<open>MaxResolutionHackOutputTarget\<close>; \<open>dev\<close> is \<open>g_ptDevMemMode\<close>, \<open>None\<close> a null pointer.\<close>

definition MaxResolutionHackOutputTarget :: "u32 option \<Rightarrow> u32" where
  "MaxResolutionHackOutputTarget dev =
     (case dev of Some v \<Rightarrow> if v \<noteq> 0 then 2160 else 1440 | None \<Rightarrow> 1440)"

definition SetReshackOutputTarget :: "u32 option \<Rightarrow> PatchConfig \<Rightarrow> u32 \<Rightarrow> PatchConfig" where
  "SetReshackOutputTarget dev cfg v =
     cfg\<lparr>resolution_hack :=
        SetTargetRes (min v (MaxResolutionHackOutputTarget dev)) (resolution_hack cfg)\<rparr>"

definition SetReshackOutputHandheldScale :: "PatchConfig \<Rightarrow> fp \<Rightarrow> PatchConfig" where
  "SetReshackOutputHandheldScale cfg v0 =
     (let v = (if fp_less (Fin 0) v0 \<and> fp_leq v0 (Fin 1) then fp_mul to_f32 v0 100 else v0) in
      cfg\<lparr>resolution_hack := (resolution_hack cfg)\<lparr>output_handheld_scale := NormalizeHandheldScale v\<rparr>\<rparr>)"

definition SetReshackMinResScale :: "PatchConfig \<Rightarrow> fp \<Rightarrow> PatchConfig" where
  "SetReshackMinResScale cfg v =
     (let r = (resolution_hack cfg)\<lparr>min_res_scale := clamp v (Fin 10) (Fin 100)\<rparr>;
          r' = (if fp_less (max_res_scale r) (min_res_scale r)
                then r\<lparr>max_res_scale := min_res_scale r\<rparr> else r)
      in cfg\<lparr>resolution_hack := r'\<rparr>)"

definition SetReshackMaxResScale :: "PatchConfig \<Rightarrow> fp \<Rightarrow> PatchConfig" where
  "SetReshackMaxResScale cfg v =
     (let r = (resolution_hack cfg)\<lparr>max_res_scale := clamp v (Fin 10) (Fin 100)\<rparr>;
          r' = (if fp_less (max_res_scale r) (min_res_scale r)
                then r\<lparr>min_res_scale := max_res_scale r\<rparr> else r)
      in cfg\<lparr>resolution_hack := r'\<rparr>)"

definition SetReshackClampTextureResolution :: "PatchConfig \<Rightarrow> u32 \<Rightarrow> PatchConfig" where
  "SetReshackClampTextureResolution cfg v =
     (let w = (if v = 0 then 0
               else max kClampTextureResolutionMin (min kClampTextureResolutionMax v))
      in cfg\<lparr>resolution_hack := (resolution_hack cfg)\<lparr>clamp_texture_resolution := w\<rparr>\<rparr>)"

section \<open>The table\<close>

definition Entry_overlays_SectionEnabled :: "Entry" where
  "Entry_overlays_SectionEnabled =
     base_entry\<lparr>
       e_section := ''overlays'', e_key := ''SectionEnabled'', e_keys := kKeysSectionEnabled,
       e_kind := BoolKind, e_restart := RuntimeSafe, e_tr_label := ''gui.overlays_enabled'',
       e_label_fallback := ''Enabled##overlays'', e_get_bool := Some GetOverlaysActive,
       e_set_bool := Some SetOverlaysActive\<rparr>"

definition Entry_overlays_BuildLockerWatermark :: "Entry" where
  "Entry_overlays_BuildLockerWatermark =
     base_entry\<lparr>
       e_section := ''overlays'', e_key := ''BuildLockerWatermark'',
       e_keys := kKeysBuildLockerWatermark, e_kind := BoolKind, e_restart := RestartRequired,
       e_tr_label := ''gui.overlays_buildlocker'',
       e_label_fallback := ''Build locker watermark'',
       e_get_bool := Some GetOverlaysBuildLocker, e_set_bool := Some SetOverlaysBuildLocker\<rparr>"

definition Entry_overlays_DDMLabels :: "Entry" where
  "Entry_overlays_DDMLabels =
     base_entry\<lparr>
       e_section := ''overlays'', e_key := ''DDMLabels'', e_keys := kKeysDdmLabels,
       e_kind := BoolKind, e_restart := RestartRequired, e_tr_label := ''gui.overlays_ddm'',
       e_label_fallback := ''DDM labels'', e_get_bool := Some GetOverlaysDdm,
       e_set_bool := Some SetOverlaysDdm\<rparr>"

definition Entry_overlays_FPSLabel :: "Entry" where
  "Entry_overlays_FPSLabel =
     base_entry\<lparr>
       e_section := ''overlays'', e_key := ''FPSLabel'', e_keys := kKeysFpsLabel,
       e_kind := BoolKind, e_restart := RuntimeSafe, e_tr_label := ''gui.overlays_fps'',
       e_label_fallback := ''FPS label'', e_get_bool := Some GetOverlaysFps,
       e_set_bool := Some SetOverlaysFps\<rparr>"

definition Entry_overlays_VariableResLabel :: "Entry" where
  "Entry_overlays_VariableResLabel =
     base_entry\<lparr>
       e_section := ''overlays'', e_key := ''VariableResLabel'', e_keys := kKeysVarResLabel,
       e_kind := BoolKind, e_restart := RuntimeSafe, e_tr_label := ''gui.overlays_var_res'',
       e_label_fallback := ''Variable resolution label'', e_get_bool := Some GetOverlaysVarRes,
       e_set_bool := Some SetOverlaysVarRes\<rparr>"

definition Entry_gui_Enabled :: "Entry" where
  "Entry_gui_Enabled =
     base_entry\<lparr>
       e_section := ''gui'', e_key := ''Enabled'', e_keys := kKeysGuiEnabled,
       e_kind := BoolKind, e_restart := RuntimeSafe, e_tr_label := ''gui.enabled_persist'',
       e_label_fallback := ''Enabled (persist)'', e_get_bool := Some GetGuiEnabled,
       e_set_bool := Some SetGuiEnabled\<rparr>"

definition Entry_gui_Visible :: "Entry" where
  "Entry_gui_Visible =
     base_entry\<lparr>
       e_section := ''gui'', e_key := ''Visible'', e_keys := kKeysGuiVisible,
       e_kind := BoolKind, e_restart := RuntimeSafe, e_tr_label := ''gui.visible_persist'',
       e_label_fallback := ''Visible (persist)'', e_get_bool := Some GetGuiVisible,
       e_set_bool := Some SetGuiVisible\<rparr>"

definition Entry_gui_AllowLeftStickPassthrough :: "Entry" where
  "Entry_gui_AllowLeftStickPassthrough =
     base_entry\<lparr>
       e_section := ''gui'', e_key := ''AllowLeftStickPassthrough'',
       e_keys := kKeysGuiLeftStick, e_kind := BoolKind, e_restart := RuntimeSafe,
       e_tr_label := ''gui.left_stick_passthrough'',
       e_label_fallback := ''Allow left stick passthrough'',
       e_get_bool := Some GetGuiLeftStickPass, e_set_bool := Some SetGuiLeftStickPass\<rparr>"

definition Entry_gui_Language :: "Entry" where
  "Entry_gui_Language =
     base_entry\<lparr>
       e_section := ''gui'', e_key := ''Language'', e_keys := kKeysLanguage,
       e_kind := StringKind, e_restart := RestartRequired, e_tr_label := ''gui.language'',
       e_label_fallback := ''Language'', e_omit_if_empty := True,
       e_get_string := Some GetGuiLanguage, e_set_string := Some SetGuiLanguage\<rparr>"

definition Entry_debug_SectionEnabled :: "Entry" where
  "Entry_debug_SectionEnabled =
     base_entry\<lparr>
       e_section := ''debug'', e_key := ''SectionEnabled'', e_keys := kKeysSectionEnabled,
       e_kind := BoolKind, e_restart := RuntimeSafe, e_tr_label := ''gui.debug_enabled'',
       e_label_fallback := ''Enabled##debug'', e_get_bool := Some GetDebugActive,
       e_set_bool := Some SetDebugActive\<rparr>"

definition Entry_debug_Acknowledge_god_jester :: "Entry" where
  "Entry_debug_Acknowledge_god_jester =
     base_entry\<lparr>
       e_section := ''debug'', e_key := ''Acknowledge_god_jester'',
       e_keys := kKeysAcknowledgeJester, e_kind := BoolKind, e_restart := RestartRequired,
       e_tr_label := ''gui.debug_enable_crashes'',
       e_label_fallback := ''Enable crashes (danger)'',
       e_get_bool := Some GetDebugEnableCrashes, e_set_bool := Some SetDebugEnableCrashes\<rparr>"

definition Entry_debug_EnablePubFileDump :: "Entry" where
  "Entry_debug_EnablePubFileDump =
     base_entry\<lparr>
       e_section := ''debug'', e_key := ''EnablePubFileDump'', e_keys := kKeysPubfileDump,
       e_kind := BoolKind, e_restart := RestartRequired,
       e_tr_label := ''gui.debug_pubfile_dump'', e_label_fallback := ''Enable pubfile dump'',
       e_get_bool := Some GetDebugPubfileDump, e_set_bool := Some SetDebugPubfileDump\<rparr>"

definition Entry_debug_EnableErrorTraces :: "Entry" where
  "Entry_debug_EnableErrorTraces =
     base_entry\<lparr>
       e_section := ''debug'', e_key := ''EnableErrorTraces'', e_keys := kKeysErrorTraces,
       e_kind := BoolKind, e_restart := RestartRequired,
       e_tr_label := ''gui.debug_error_traces'', e_label_fallback := ''Enable error traces'',
       e_get_bool := Some GetDebugErrorTraces, e_set_bool := Some SetDebugErrorTraces\<rparr>"

definition Entry_debug_EnableDebugFlags :: "Entry" where
  "Entry_debug_EnableDebugFlags =
     base_entry\<lparr>
       e_section := ''debug'', e_key := ''EnableDebugFlags'', e_keys := kKeysDebugFlags,
       e_kind := BoolKind, e_restart := RestartRequired,
       e_tr_label := ''gui.debug_debug_flags'', e_label_fallback := ''Enable debug flags'',
       e_get_bool := Some GetDebugDebugFlags, e_set_bool := Some SetDebugDebugFlags\<rparr>"

definition Entry_debug_SpoofNetworkFunctions :: "Entry" where
  "Entry_debug_SpoofNetworkFunctions =
     base_entry\<lparr>
       e_section := ''debug'', e_key := ''SpoofNetworkFunctions'', e_keys := kKeysTagNx,
       e_kind := BoolKind, e_restart := RestartRequired,
       e_tr_label := ''gui.debug_spoof_network'',
       e_label_fallback := ''Spoof Network Functions'', e_get_bool := Some GetDebugTagNx,
       e_set_bool := Some SetDebugTagNx\<rparr>"

definition Entry_debug_EnableExceptionHandler :: "Entry" where
  "Entry_debug_EnableExceptionHandler =
     base_entry\<lparr>
       e_section := ''debug'', e_key := ''EnableExceptionHandler'',
       e_keys := kKeysExceptionHandler, e_kind := BoolKind, e_restart := RestartRequired,
       e_tr_label := ''gui.debug_exception_handler'',
       e_label_fallback := ''Enable exception handler'',
       e_get_bool := Some GetDebugExceptionHandler, e_set_bool := Some SetDebugExceptionHandler\<rparr>"

definition Entry_debug_EnableOeNotificationHook :: "Entry" where
  "Entry_debug_EnableOeNotificationHook =
     base_entry\<lparr>
       e_section := ''debug'', e_key := ''EnableOeNotificationHook'',
       e_keys := kKeysOeNotificationHook, e_kind := BoolKind, e_restart := RestartRequired,
       e_tr_label := ''gui.debug_oe_notifications'',
       e_label_fallback := ''Hook OE notifications'',
       e_get_bool := Some GetDebugOeNotificationHook,
       e_set_bool := Some SetDebugOeNotificationHook\<rparr>"

definition Entry_debug_LogOeNotificationMessages :: "Entry" where
  "Entry_debug_LogOeNotificationMessages =
     base_entry\<lparr>
       e_section := ''debug'', e_key := ''LogOeNotificationMessages'',
       e_keys := kKeysLogOeNotifications, e_kind := BoolKind, e_restart := RuntimeSafe,
       e_tr_label := ''gui.debug_log_oe_notifications'',
       e_label_fallback := ''Log OE notification messages'',
       e_get_bool := Some GetDebugLogOeNotifications,
       e_set_bool := Some SetDebugLogOeNotifications\<rparr>"

definition Entry_resolution_hack_SectionEnabled :: "Entry" where
  "Entry_resolution_hack_SectionEnabled =
     base_entry\<lparr>
       e_section := ''resolution_hack'', e_key := ''SectionEnabled'',
       e_keys := kKeysSectionEnabled, e_kind := BoolKind, e_restart := RestartRequired,
       e_tr_label := ''gui.resolution_enabled'', e_label_fallback := ''Enabled##res'',
       e_get_bool := Some GetReshackActive, e_set_bool := Some SetReshackActive\<rparr>"

definition Entry_resolution_hack_OutputTarget :: "u32 option \<Rightarrow> Entry" where
  "Entry_resolution_hack_OutputTarget dev =
     base_entry\<lparr>
       e_section := ''resolution_hack'', e_key := ''OutputTarget'',
       e_keys := kKeysReshackOutputTarget, e_kind := U32Kind, e_restart := RestartRequired,
       e_tr_label := ''gui.resolution_output_target'',
       e_label_fallback := ''Output target (vertical)'', e_min_u := 720, e_max_u := 2160,
       e_step_u := 1, e_get_u32 := Some GetReshackOutputTarget,
       e_set_u32 := Some (SetReshackOutputTarget dev),
       e_parse_u32_str := Some ParseResolutionHackOutputTarget\<rparr>"

definition Entry_resolution_hack_OutputHandheldScale :: "Entry" where
  "Entry_resolution_hack_OutputHandheldScale =
     base_entry\<lparr>
       e_section := ''resolution_hack'', e_key := ''OutputHandheldScale'',
       e_keys := kKeysReshackOutputHandheldScale, e_kind := FloatKind,
       e_restart := RestartRequired, e_tr_label := ''gui.resolution_output_handheld_scale'',
       e_label_fallback := ''Handheld output scale (%)'', e_min_f := 0, e_max_f := 100,
       e_step_f := 5, e_get_float := Some GetReshackOutputHandheldScale,
       e_set_float := Some SetReshackOutputHandheldScale\<rparr>"

definition Entry_resolution_hack_MinResScale :: "Entry" where
  "Entry_resolution_hack_MinResScale =
     base_entry\<lparr>
       e_section := ''resolution_hack'', e_key := ''MinResScale'',
       e_keys := kKeysReshackMinResScale, e_kind := FloatKind, e_restart := RestartRequired,
       e_tr_label := ''gui.resolution_min_scale'',
       e_label_fallback := ''Minimum resolution scale'', e_min_f := 10, e_max_f := 100,
       e_step_f := 1, e_get_float := Some GetReshackMinResScale,
       e_set_float := Some SetReshackMinResScale\<rparr>"

definition Entry_resolution_hack_MaxResScale :: "Entry" where
  "Entry_resolution_hack_MaxResScale =
     base_entry\<lparr>
       e_section := ''resolution_hack'', e_key := ''MaxResScale'',
       e_keys := kKeysReshackMaxResScale, e_kind := FloatKind, e_restart := RestartRequired,
       e_tr_label := ''gui.resolution_max_scale'',
       e_label_fallback := ''Maximum resolution scale'', e_min_f := 10, e_max_f := 100,
       e_step_f := 1, e_get_float := Some GetReshackMaxResScale,
       e_set_float := Some SetReshackMaxResScale\<rparr>"

definition Entry_resolution_hack_ClampTextureResolution :: "Entry" where
  "Entry_resolution_hack_ClampTextureResolution =
     base_entry\<lparr>
       e_section := ''resolution_hack'', e_key := ''ClampTextureResolution'',
       e_keys := kKeysReshackClampTextureResolution, e_kind := U32Kind,
       e_restart := RestartRequired, e_tr_label := ''gui.resolution_clamp_texture'',
       e_label_fallback := ''Clamp texture height (0=off, 100-9999)'', e_min_u := 0,
       e_max_u := kClampTextureResolutionMax, e_step_u := 1,
       e_get_u32 := Some GetReshackClampTextureResolution,
       e_set_u32 := Some SetReshackClampTextureResolution\<rparr>"

definition Entry_resolution_hack_SpoofDocked :: "Entry" where
  "Entry_resolution_hack_SpoofDocked =
     base_entry\<lparr>
       e_section := ''resolution_hack'', e_key := ''SpoofDocked'',
       e_keys := kKeysReshackSpoofDocked, e_kind := BoolKind, e_restart := RestartRequired,
       e_tr_label := ''gui.resolution_spoof_docked'', e_label_fallback := ''Spoof docked'',
       e_get_bool := Some GetReshackSpoofDocked, e_set_bool := Some SetReshackSpoofDocked\<rparr>"

definition Entry_resolution_hack_ExperimentalScheduler :: "Entry" where
  "Entry_resolution_hack_ExperimentalScheduler =
     base_entry\<lparr>
       e_section := ''resolution_hack'', e_key := ''ExperimentalScheduler'',
       e_keys := kKeysReshackExpScheduler, e_kind := BoolKind, e_restart := RuntimeSafe,
       e_tr_label := ''gui.resolution_exp_scheduler'',
       e_label_fallback := ''Experimental scheduler'',
       e_get_bool := Some GetReshackExpScheduler, e_set_bool := Some SetReshackExpScheduler\<rparr>"

text \<open>The entry of the output target depends on the pointer its setter reads.\<close>

definition k_entries :: "u32 option \<Rightarrow> Entry list" where
  "k_entries dev =
     [Entry_overlays_SectionEnabled,
      Entry_overlays_BuildLockerWatermark,
      Entry_overlays_DDMLabels,
      Entry_overlays_FPSLabel,
      Entry_overlays_VariableResLabel,
      Entry_gui_Enabled,
      Entry_gui_Visible,
      Entry_gui_AllowLeftStickPassthrough,
      Entry_gui_Language,
      Entry_debug_SectionEnabled,
      Entry_debug_Acknowledge_god_jester,
      Entry_debug_EnablePubFileDump,
      Entry_debug_EnableErrorTraces,
      Entry_debug_EnableDebugFlags,
      Entry_debug_SpoofNetworkFunctions,
      Entry_debug_EnableExceptionHandler,
      Entry_debug_EnableOeNotificationHook,
      Entry_debug_LogOeNotificationMessages,
      Entry_resolution_hack_SectionEnabled,
      Entry_resolution_hack_OutputTarget dev,
      Entry_resolution_hack_OutputHandheldScale,
      Entry_resolution_hack_MinResScale,
      Entry_resolution_hack_MaxResScale,
      Entry_resolution_hack_ClampTextureResolution,
      Entry_resolution_hack_SpoofDocked,
      Entry_resolution_hack_ExperimentalScheduler]"

definition Entries :: "u32 option \<Rightarrow> Entry list" where "Entries dev = k_entries dev"

text \<open>\<open>EntriesForSection\<close>: the first run of entries of the section.\<close>

definition EntriesForSection :: "u32 option \<Rightarrow> string \<Rightarrow> Entry list" where
  "EntriesForSection dev sect =
     takeWhile (\<lambda>e. e_section e = sect) (dropWhile (\<lambda>e. e_section e \<noteq> sect) (k_entries dev))"

definition FindEntry :: "u32 option \<Rightarrow> string \<Rightarrow> string \<Rightarrow> Entry option" where
  "FindEntry dev sect key = find (\<lambda>e. e_section e = sect \<and> e_key e = key) (k_entries dev)"

section \<open>Reading and writing settings\<close>

definition apply_bool :: "('t, 'n) toml \<Rightarrow> 't \<Rightarrow> Entry \<Rightarrow> PatchConfig \<Rightarrow> PatchConfig" where
  "apply_bool T sect e config =
     (case e_set_bool e of
        None \<Rightarrow> config
      | Some set_bool \<Rightarrow>
          (case ReadValue T (n_bool T) sect (e_keys e) of
             Some v \<Rightarrow> set_bool config v
           | None \<Rightarrow> config))"

text \<open>The value of a numeric \<open>u32\<close> setting that reaches the setter, if any.\<close>

definition clamped_u32 :: "Entry \<Rightarrow> fp \<Rightarrow> u32 option" where
  "clamped_u32 e v =
     (let clamped = (if e_min_u e < e_max_u e
                     then clamp v (Fin (of_nat (unat (e_min_u e)))) (Fin (of_nat (unat (e_max_u e))))
                     else v)
      in if fp_leq (Fin 0) clamped \<and> isfinite clamped \<and> fp_leq clamped (Fin (2 ^ 32 - 1))
         then Some (fp_to_u32 clamped) else None)"

definition apply_u32 :: "('t, 'n) toml \<Rightarrow> 't \<Rightarrow> Entry \<Rightarrow> PatchConfig \<Rightarrow> PatchConfig" where
  "apply_u32 T sect e config =
     (case e_set_u32 e of
        None \<Rightarrow> config
      | Some set_u32 \<Rightarrow>
          (case (ReadNumber T sect (e_keys e), e_parse_u32_str e, ReadValue T (n_string T) sect (e_keys e)) of
             (None, Some parse, Some s) \<Rightarrow>
               set_u32 config (parse s (case e_get_u32 e of Some get_u32 \<Rightarrow> get_u32 config | None \<Rightarrow> 0))
           | (Some v, _, _) \<Rightarrow>
               (case clamped_u32 e v of Some w \<Rightarrow> set_u32 config w | None \<Rightarrow> config)
           | _ \<Rightarrow> config))"

definition clamped_float :: "Entry \<Rightarrow> fp \<Rightarrow> fp option" where
  "clamped_float e v =
     (let clamped = (if e_min_f e < e_max_f e then clamp v (Fin (e_min_f e)) (Fin (e_max_f e)) else v)
      in if isfinite clamped then Some (f64_to_f32 clamped) else None)"

definition apply_float :: "('t, 'n) toml \<Rightarrow> 't \<Rightarrow> Entry \<Rightarrow> PatchConfig \<Rightarrow> PatchConfig" where
  "apply_float T sect e config =
     (case e_set_float e of
        None \<Rightarrow> config
      | Some set_float \<Rightarrow>
          (case (ReadNumber T sect (e_keys e), e_parse_float_str e, ReadValue T (n_string T) sect (e_keys e)) of
             (None, Some parse, Some s) \<Rightarrow>
               set_float config (parse s (case e_get_float e of Some get_float \<Rightarrow> get_float config | None \<Rightarrow> Fin 0))
           | (Some v, _, _) \<Rightarrow>
               (case clamped_float e v of Some w \<Rightarrow> set_float config w | None \<Rightarrow> config)
           | _ \<Rightarrow> config))"

definition apply_string :: "('t, 'n) toml \<Rightarrow> 't \<Rightarrow> Entry \<Rightarrow> PatchConfig \<Rightarrow> PatchConfig" where
  "apply_string T sect e config =
     (case e_set_string e of
        None \<Rightarrow> config
      | Some set_string \<Rightarrow>
          (case ReadValue T (n_string T) sect (e_keys e) of
             Some v \<Rightarrow> set_string config v
           | None \<Rightarrow> config))"

text \<open>The body of the loop of \<open>ApplyTomlTable\<close>.\<close>

definition apply_entry :: "('t, 'n) toml \<Rightarrow> 't \<Rightarrow> Entry \<Rightarrow> PatchConfig \<Rightarrow> PatchConfig" where
  "apply_entry T doc e config =
     (case FindSection T doc (e_section e) of
        None \<Rightarrow> config
      | Some sect \<Rightarrow>
          (case e_kind e of
             BoolKind \<Rightarrow> apply_bool T sect e config
           | U32Kind \<Rightarrow> apply_u32 T sect e config
           | FloatKind \<Rightarrow> apply_float T sect e config
           | StringKind \<Rightarrow> apply_string T sect e config))"

definition ApplyTomlTable :: "('t, 'n) toml \<Rightarrow> u32 option \<Rightarrow> PatchConfig \<Rightarrow> 't \<Rightarrow> PatchConfig" where
  "ApplyTomlTable T dev config doc = fold (apply_entry T doc) (k_entries dev) config"

text \<open>
  \<open>EnsureSectionTable\<close> gives the doc and the section table in it; \<open>None\<close> when the
  key holds a node that is no table, where the code dereferences a null pointer.
\<close>

definition EnsureSectionTable :: "('t, 'n) toml \<Rightarrow> 't \<Rightarrow> string \<Rightarrow> ('t \<times> 't) option" where
  "EnsureSectionTable T doc sect =
     (case FindSection T doc sect of
        Some t \<Rightarrow> Some (doc, t)
      | None \<Rightarrow>
          (let doc' = t_insert T doc sect (of_table T (t_empty T)) in
           map_option (Pair doc') (FindSection T doc' sect)))"

text \<open>The node written for an entry.\<close>

definition entry_node :: "('t, 'n) toml \<Rightarrow> PatchConfig \<Rightarrow> Entry \<Rightarrow> 'n option" where
  "entry_node T config e =
     (case e_kind e of
        BoolKind \<Rightarrow> map_option (\<lambda>get. of_bool T (get config)) (e_get_bool e)
      | U32Kind \<Rightarrow> map_option (\<lambda>get. of_s64 T (ucast (get config))) (e_get_u32 e)
      | FloatKind \<Rightarrow> map_option (\<lambda>get. of_double T (get config)) (e_get_float e)
      | StringKind \<Rightarrow>
          (case e_get_string e of
             None \<Rightarrow> None
           | Some get \<Rightarrow>
               if e_omit_if_empty e \<and> get config = [] then None else Some (of_string T (get config))))"

text \<open>The body of the loop of \<open>InsertIntoToml\<close>.\<close>

definition insert_entry :: "('t, 'n) toml \<Rightarrow> PatchConfig \<Rightarrow> Entry \<Rightarrow> 't \<Rightarrow> 't option" where
  "insert_entry T config e doc =
     (case EnsureSectionTable T doc (e_section e) of
        None \<Rightarrow> None
      | Some (doc', sect) \<Rightarrow>
          (case entry_node T config e of
             None \<Rightarrow> Some doc'
           | Some node \<Rightarrow>
               Some (t_assign T doc' (e_section e) (of_table T (t_insert T sect (e_key e) node)))))"

fun insert_entries :: "('t, 'n) toml \<Rightarrow> PatchConfig \<Rightarrow> Entry list \<Rightarrow> 't \<Rightarrow> 't option" where
  "insert_entries T config [] doc = Some doc"
| "insert_entries T config (e # es) doc =
     Option.bind (insert_entry T config e doc) (insert_entries T config es)"

definition InsertIntoToml :: "('t, 'n) toml \<Rightarrow> u32 option \<Rightarrow> 't \<Rightarrow> PatchConfig \<Rightarrow> 't option" where
  "InsertIntoToml T dev doc config = insert_entries T config (k_entries dev) doc"

end
