(* ===== verification/Config_Load.thy ===== *)
theory Config_Load
  imports Config_Schema
begin

text \<open>
  Loading, normalising and writing the configuration
  (\<open>source/program/config.cpp\<close>): the readers of TOML values, the season event map,
  \<open>PatchConfig::ApplyTable\<close> section by section, \<open>BuildPatchConfigTable\<close> and
  \<open>NormalizePatchConfig\<close>.  A section of the code that updates one structure is a
  definition on that structure.
\<close>

section \<open>Readers\<close>

definition FindTable :: "('t, 'n) toml \<Rightarrow> 't \<Rightarrow> string \<Rightarrow> 't option" where
  "FindTable T doc key = Option.bind (t_get T doc key) (n_as_table T)"

definition ReadBool :: "('t, 'n) toml \<Rightarrow> 't \<Rightarrow> string list \<Rightarrow> bool \<Rightarrow> bool" where
  "ReadBool T table keys fallback =
     (case ReadValue T (n_bool T) table keys of Some value \<Rightarrow> value | None \<Rightarrow> fallback)"

definition ReadU32 :: "('t, 'n) toml \<Rightarrow> 't \<Rightarrow> string list \<Rightarrow> u32 \<Rightarrow> nat \<Rightarrow> nat \<Rightarrow> u32" where
  "ReadU32 T table keys fallback min_value max_value =
     (case ReadNumber T table keys of
        Some value \<Rightarrow> fp_to_u32 (clamp value (Fin (of_nat min_value)) (Fin (of_nat max_value)))
      | None \<Rightarrow> fallback)"

definition ReadI32 :: "('t, 'n) toml \<Rightarrow> 't \<Rightarrow> string list \<Rightarrow> s32 \<Rightarrow> int \<Rightarrow> int \<Rightarrow> s32" where
  "ReadI32 T table keys fallback min_value max_value =
     (case ReadNumber T table keys of
        Some value \<Rightarrow> fp_to_s32 (clamp value (Fin (of_int min_value)) (Fin (of_int max_value)))
      | None \<Rightarrow> fallback)"

definition ReadDouble :: "('t, 'n) toml \<Rightarrow> 't \<Rightarrow> string list \<Rightarrow> fp \<Rightarrow> fp \<Rightarrow> fp \<Rightarrow> fp" where
  "ReadDouble T table keys fallback min_value max_value =
     (case ReadNumber T table keys of
        Some value \<Rightarrow> clamp value min_value max_value
      | None \<Rightarrow> fallback)"

definition Round1Decimal :: "fp \<Rightarrow> fp" where
  "Round1Decimal value = fp_div to_f64 (fp_round (fp_mul to_f64 value 10)) 10"

definition ReadString :: "('t, 'n) toml \<Rightarrow> 't \<Rightarrow> string list \<Rightarrow> string \<Rightarrow> string" where
  "ReadString T table keys fallback =
     (case ReadValue T (n_string T) table keys of Some value \<Rightarrow> value | None \<Rightarrow> fallback)"

definition ParseSeasonEventMapMode :: "string \<Rightarrow> SeasonEventMapMode \<Rightarrow> SeasonEventMapMode" where
  "ParseSeasonEventMapMode input fallback =
     (let normalized = NormalizeKey input in
      if normalized = [] then fallback
      else if normalized \<in> set [''maponly'', ''map'', ''seasonmap'', ''simulate''] then MapOnly
      else if normalized \<in> set [''overlay'', ''overlayconfig'', ''add'', ''additive'', ''merge'']
        then OverlayConfig
      else if normalized \<in> set [''disabled'', ''off'', ''none'', ''false''] then Disabled
      else fallback)"

definition ReadSeasonEventMapMode ::
  "('t, 'n) toml \<Rightarrow> 't \<Rightarrow> string list \<Rightarrow> SeasonEventMapMode \<Rightarrow> SeasonEventMapMode" where
  "ReadSeasonEventMapMode T table keys fallback =
     (case ReadValue T (n_string T) table keys of
        Some value \<Rightarrow> ParseSeasonEventMapMode value fallback
      | None \<Rightarrow>
          (case ReadValue T (n_bool T) table keys of
             Some value \<Rightarrow> if value then MapOnly else Disabled
           | None \<Rightarrow> fallback))"

definition ReadSeasonEventFlagBool :: "('t, 'n) toml \<Rightarrow> 't \<Rightarrow> string \<Rightarrow> string \<Rightarrow> bool \<Rightarrow> bool" where
  "ReadSeasonEventFlagBool T table key legacy_key fallback =
     (if legacy_key \<noteq> [] then ReadBool T table [key, legacy_key] fallback
      else ReadBool T table [key] fallback)"

section \<open>The season event map\<close>

definition CaptureSeasonEventFlags :: "PatchConfig \<Rightarrow> season_flags" where
  "CaptureSeasonEventFlags config = ev_flags (events config)"

definition ApplySeasonEventFlags :: "PatchConfig \<Rightarrow> season_flags \<Rightarrow> PatchConfig" where
  "ApplySeasonEventFlags config flags =
     config\<lparr>events := (events config)\<lparr>ev_flags := flags\<rparr>\<rparr>"

definition OverlaySeasonEventFlags :: "season_flags \<Rightarrow> season_flags \<Rightarrow> season_flags" where
  "OverlaySeasonEventFlags base extra = (\<lambda>f. base f \<or> extra f)"

definition BuildSeasonEventMap :: "u32 \<Rightarrow> season_flags option" where
  "BuildSeasonEventMap season =
     (let base = default_map in
      if season = 14 then Some (base(DoubleTreasureGoblins := True))
      else if season = 15 then Some (base(DoubleBountyBags := True))
      else if season = 16 then Some (base(RoyalGrandeur := True))
      else if season = 17 then Some (base(LegacyOfNightmares := True))
      else if season = 18 then Some (base(TriunesWill := True))
      else if season = 19 then Some (base(Pandemonium := True))
      else if season = 20 then Some (base(KanaiPowers := True))
      else if season = 21 then Some (base(TrialsOfTempests := True))
      else if season = 22 then Some (base(ShadowClones := True, FourthKanaisCubeSlot := True))
      else if season = 24 then Some (base(EtherealItems := True))
      else if season = 25 then Some (base(SoulShards := True))
      else if season = 26 then Some (base(SwarmRifts := True))
      else if season = 27 then Some (base(SanctifiedItems := True))
      else if season = 28 then Some (base(DarkAlchemy := True))
      else if season = 29 then Some (base(NestingPortals := True))
      else if season = 30 then Some (base(SoulShards := True))
      else if season = 31 then Some (base(KanaiPowers := True))
      else if season = 32 then Some (base(EtherealItems := True))
      else if season = 33 then Some (base(ShadowClones := True, FourthKanaisCubeSlot := True))
      else if season = 34 then Some (base(SanctifiedItems := True))
      else if season = 35 then Some (base(Pandemonium := True))
      else if season = 36 then Some (base(SoulShards := True))
      else if season = 37 then Some (base(KanaiPowers := True))
      else None)"

definition ApplySeasonEventMapIfNeeded :: "PatchConfig \<Rightarrow> PatchConfig" where
  "ApplySeasonEventMapIfNeeded config =
     (if SeasonMapMode (events config) = Disabled then config
      else if \<not> sea_active (seasons config) then config
      else
        case BuildSeasonEventMap (current_season (seasons config)) of
          None \<Rightarrow> config
        | Some base \<Rightarrow>
            (let current = CaptureSeasonEventFlags config;
                 merged = (if SeasonMapMode (events config) = OverlayConfig
                           then OverlaySeasonEventFlags base current else base)
             in ApplySeasonEventFlags config merged))"

section \<open>Ancient rank\<close>

definition AncientRankToValue :: "string \<Rightarrow> s32 \<Rightarrow> s32" where
  "AncientRankToValue input fallback =
     (let normalized = NormalizeKey input in
      if normalized \<in> set [''0'', ''normal'', ''none''] then 0
      else if normalized \<in> set [''1'', ''ancient''] then 1
      else if normalized \<in> set [''2'', ''primal'', ''primalancient''] then 2
      else fallback)"

definition AncientRankCanonical :: "s32 \<Rightarrow> string \<Rightarrow> string" where
  "AncientRankCanonical value fallback =
     (if value = 0 then ''Normal'' else if value = 1 then ''Ancient''
      else if value = 2 then ''Primal'' else fallback)"

definition SeasonMapModeToString :: "SeasonEventMapMode \<Rightarrow> string" where
  "SeasonMapModeToString mode =
     (case mode of MapOnly \<Rightarrow> ''MapOnly'' | OverlayConfig \<Rightarrow> ''OverlayConfig'' | Disabled \<Rightarrow> ''Disabled'')"

section \<open>Applying a table\<close>

definition section_enabled_keys :: "string list" where
  "section_enabled_keys = [''SectionEnabled'', ''Enabled'', ''Active'']"

text \<open>The double literal \<open>0.1\<close>.\<close>

definition tenth :: fp where "tenth = to_f64 (1 / 10)"

definition apply_seasons :: "('t, 'n) toml \<Rightarrow> 't \<Rightarrow> seasons_config \<Rightarrow> seasons_config" where
  "apply_seasons T sect c =
     \<lparr>sea_active = ReadBool T sect section_enabled_keys (sea_active c),
      allow_online = ReadBool T sect [''AllowOnlinePlay'', ''AllowOnline''] (allow_online c),
      current_season = ReadU32 T sect [''SeasonNumber'', ''Number'', ''Season''] (current_season c) 1 200,
      spoof_ptr = ReadBool T sect [''SpoofPtr'', ''SpoofPTR'', ''PtrSpoof''] (spoof_ptr c)\<rparr>"

definition apply_rifts :: "('t, 'n) toml \<Rightarrow> 't \<Rightarrow> rifts_config \<Rightarrow> rifts_config" where
  "apply_rifts T sect c =
     (let active = ReadBool T sect section_enabled_keys (cr_active c);
          random = ReadBool T sect [''MakeRiftsRandom'', ''Random''] (cr_random c);
          start = ReadU32 T sect [''RiftRangeStart'', ''RangeStart'', ''RangeMin''] (range_start c) 0 999;
          stop = ReadU32 T sect [''RiftRangeEnd'', ''RangeEnd'', ''RangeMax''] (range_end c) 0 999
      in if stop < start
         then \<lparr>cr_active = active, cr_random = random, range_start = stop, range_end = start\<rparr>
         else \<lparr>cr_active = active, cr_random = random, range_start = start, range_end = stop\<rparr>)"

definition apply_events :: "('t, 'n) toml \<Rightarrow> 't \<Rightarrow> events_config \<Rightarrow> events_config" where
  "apply_events T sect c =
     \<lparr>ev_active = ReadBool T sect section_enabled_keys (ev_active c),
      SeasonMapMode = ReadSeasonEventMapMode T sect
        [''SeasonMapMode'', ''SeasonEventMapMode'', ''SeasonEventMap'', ''SeasonMap''] (SeasonMapMode c),
      ev_flags = (\<lambda>f. case flag_row f of
        (name, _, _, legacy) \<Rightarrow> ReadSeasonEventFlagBool T sect name legacy (ev_flags c f))\<rparr>"

definition apply_extra :: "('t, 'n) toml \<Rightarrow> 't \<Rightarrow> ExtraConfig \<Rightarrow> ExtraConfig" where
  "apply_extra T sect c =
     \<lparr>window_left = ReadI32 T sect [''WindowLeft'', ''WinLeft'', ''Left''] (window_left c) kUnset kMaxDimension,
      window_top = ReadI32 T sect [''WindowTop'', ''WinTop'', ''Top''] (window_top c) kUnset kMaxDimension,
      window_width = ReadI32 T sect [''WindowWidth'', ''WinWidth'', ''Width''] (window_width c) kUnset kMaxDimension,
      window_height = ReadI32 T sect [''WindowHeight'', ''WinHeight'', ''Height''] (window_height c) kUnset kMaxDimension,
      ui_opt_width = ReadI32 T sect [''UIOptWidth'', ''UIWidth'', ''UiWidth''] (ui_opt_width c) kUnset kMaxDimension,
      ui_opt_height = ReadI32 T sect [''UIOptHeight'', ''UIHeight'', ''UiHeight''] (ui_opt_height c) kUnset kMaxDimension,
      render_width = ReadI32 T sect [''RenderWidth'', ''DisplayWidth'', ''BackbufferWidth''] (render_width c) kUnset kMaxDimension,
      render_height = ReadI32 T sect [''RenderHeight'', ''DisplayHeight'', ''BackbufferHeight''] (render_height c) kUnset kMaxDimension,
      refresh_rate = ReadI32 T sect [''RefreshRate'', ''Hz''] (refresh_rate c) kUnset kMaxRefreshRate,
      bit_depth = ReadI32 T sect [''BitDepth'', ''Bpp''] (bit_depth c) kUnset kMaxBitDepth,
      msaa_level = ReadI32 T sect [''MSAALevel'', ''MSAA'', ''Msaa''] (msaa_level c) kUnset kMaxMsaaLevel\<rparr>"

definition apply_cheats :: "('t, 'n) toml \<Rightarrow> 't \<Rightarrow> cheats_config \<Rightarrow> cheats_config" where
  "apply_cheats T sect c =
     \<lparr>rc_active = ReadBool T sect [''SectionEnabled'', ''Enabled'', ''Active''] (rc_active c),
      move_speed = ReadDouble T sect [''MovementSpeedMultiplier'', ''MoveSpeedMultiplier''] (move_speed c) tenth (Fin 10),
      attack_speed = ReadDouble T sect [''AttackSpeedMultiplier'', ''AtkSpeedMultiplier'', ''AttackSpeed''] (attack_speed c) tenth (Fin 10),
      floating_damage_color = ReadBool T sect [''FloatingDamageColor'', ''FloatingDamageColors'', ''FloatingDamage''] (floating_damage_color c),
      guaranteed_legendaries = ReadBool T sect [''GuaranteedLegendaryChance''] (guaranteed_legendaries c),
      drop_anything = ReadBool T sect [''DropAnyItems''] (drop_anything c),
      instant_portal = ReadBool T sect [''InstantPortalAndBookOfCain''] (instant_portal c),
      no_cooldowns = ReadBool T sect [''NoCooldowns''] (no_cooldowns c),
      instant_craft_actions = ReadBool T sect [''InstantCubeAndCraftsAndEnchants''] (instant_craft_actions c),
      any_gem_any_slot = ReadBool T sect [''SocketGemsToAnySlot''] (any_gem_any_slot c),
      auto_pickup = ReadBool T sect [''AutoPickup''] (auto_pickup c),
      equip_any_slot = ReadBool T sect [''EquipAnySlot'', ''EquipAnyItem''] (equip_any_slot c),
      unlock_all_difficulties = ReadBool T sect [''UnlockAllDifficulties'', ''UnlockDifficulties''] (unlock_all_difficulties c),
      easy_kill_damage = ReadBool T sect [''EasyKillDamage'', ''EasyKillBoost''] (easy_kill_damage c),
      infinite_mp = ReadBool T sect [''InfiniteMP'', ''InfiniteMana'', ''InfiniteResource''] (infinite_mp c),
      cube_no_consume = ReadBool T sect [''CubeNoConsumeMaterials'', ''CubeNoConsume'', ''KanaiCubeNoConsume''] (cube_no_consume c),
      gem_upgrade_always = ReadBool T sect [''LegendaryGemUpgradeAlways'', ''GemUpgradeAlways'', ''LegendaryGemUpgradeChance''] (gem_upgrade_always c),
      gem_upgrade_speed = ReadBool T sect [''LegendaryGemUpgradeSpeed'', ''GemUpgradeSpeed'', ''GemUpgradeFast''] (gem_upgrade_speed c),
      gem_upgrade_lvl150 = ReadBool T sect [''LegendaryGemLevel150'', ''GemUpgradeLevel150'', ''GemLevel150''] (gem_upgrade_lvl150 c),
      equip_multi_legendary = ReadBool T sect [''EquipMultipleLegendaries'', ''EquipMultipleLegendaryItems'', ''EquipMultiLegendary''] (equip_multi_legendary c),
      super_god_mode = ReadBool T sect [''SuperGodMode'', ''EnableSuperGodMode''] (super_god_mode c),
      extra_gr_orbs_elites = ReadBool T sect [''ExtraGreaterRiftOrbsOnEliteKill'', ''ExtraGROrbsOnEliteKill'', ''ExtraGROrbsElites''] (extra_gr_orbs_elites c)\<rparr>"

definition apply_loot :: "('t, 'n) toml \<Rightarrow> 't \<Rightarrow> loot_config \<Rightarrow> loot_config" where
  "apply_loot T sect c =
     (let rank = ReadString T sect [''AncientRank''] (AncientRank c);
          value = AncientRankToValue rank (AncientRankValue c)
      in \<lparr>lm_active = ReadBool T sect section_enabled_keys (lm_active c),
          DisableAncientDrops = ReadBool T sect [''DisableAncientDrops''] (DisableAncientDrops c),
          DisablePrimalAncientDrops = ReadBool T sect [''DisablePrimalAncientDrops''] (DisablePrimalAncientDrops c),
          DisableTormentDrops = ReadBool T sect [''DisableTormentDrops''] (DisableTormentDrops c),
          DisableTormentCheck = ReadBool T sect [''DisableTormentCheck''] (DisableTormentCheck c),
          SuppressGiftGeneration = ReadBool T sect [''SuppressGiftGeneration''] (SuppressGiftGeneration c),
          ForcedILevel = ReadI32 T sect [''ForcedILevel''] (ForcedILevel c) 0 70,
          TieredLootRunLevel = ReadI32 T sect [''TieredLootRunLevel''] (TieredLootRunLevel c) 0 150,
          AncientRank = AncientRankCanonical value rank,
          AncientRankValue = value\<rparr>)"

text \<open>A section of the file is applied when the table has it.\<close>

definition with_section :: "('t, 'n) toml \<Rightarrow> 't \<Rightarrow> string \<Rightarrow> ('t \<Rightarrow> 'a \<Rightarrow> 'a) \<Rightarrow> 'a \<Rightarrow> 'a" where
  "with_section T table key f c = (case FindTable T table key of Some sect \<Rightarrow> f sect c | None \<Rightarrow> c)"

definition ApplyTable :: "('t, 'n) toml \<Rightarrow> u32 option \<Rightarrow> PatchConfig \<Rightarrow> 't \<Rightarrow> PatchConfig" where
  "ApplyTable T dev config table =
     (let c = ApplyTomlTable T dev config table;
          c = c\<lparr>seasons := with_section T table ''seasons'' (apply_seasons T) (seasons c)\<rparr>;
          c = c\<lparr>challenge_rifts :=
                  with_section T table ''challenge_rifts'' (apply_rifts T) (challenge_rifts c)\<rparr>;
          c = c\<lparr>events := with_section T table ''events'' (apply_events T) (events c)\<rparr>;
          c = c\<lparr>resolution_hack := (resolution_hack c)\<lparr>rh_extra :=
                  with_section T table ''resolution_hack''
                    (\<lambda>sect. with_section T sect ''extra'' (apply_extra T)) (rh_extra (resolution_hack c))\<rparr>\<rparr>;
          c = c\<lparr>rare_cheats := with_section T table ''rare_cheats'' (apply_cheats T) (rare_cheats c)\<rparr>;
          c = c\<lparr>loot_modifiers :=
                  with_section T table ''loot_modifiers'' (apply_loot T) (loot_modifiers c)\<rparr>;
          c = ApplySeasonEventMapIfNeeded c
      in c\<lparr>initialized := True, defaults_only := False\<rparr>)"

section \<open>Building a table\<close>

text \<open>A run of \<open>t.insert(key, value)\<close> calls.\<close>

definition insert_all :: "('t, 'n) toml \<Rightarrow> (string \<times> 'n) list \<Rightarrow> 't \<Rightarrow> 't" where
  "insert_all T kvs t = fold (\<lambda>(k, n) t. t_insert T t k n) kvs t"

definition extra_rows :: "('t, 'n) toml \<Rightarrow> ExtraConfig \<Rightarrow> (string \<times> 'n) list" where
  "extra_rows T c =
     [(''WindowLeft'', of_s64 T (scast (window_left c))),
      (''WindowTop'', of_s64 T (scast (window_top c))),
      (''WindowWidth'', of_s64 T (scast (window_width c))),
      (''WindowHeight'', of_s64 T (scast (window_height c))),
      (''UIOptWidth'', of_s64 T (scast (ui_opt_width c))),
      (''UIOptHeight'', of_s64 T (scast (ui_opt_height c))),
      (''RenderWidth'', of_s64 T (scast (render_width c))),
      (''RenderHeight'', of_s64 T (scast (render_height c))),
      (''RefreshRate'', of_s64 T (scast (refresh_rate c))),
      (''BitDepth'', of_s64 T (scast (bit_depth c))),
      (''MSAALevel'', of_s64 T (scast (msaa_level c)))]"

definition seasons_rows :: "('t, 'n) toml \<Rightarrow> seasons_config \<Rightarrow> (string \<times> 'n) list" where
  "seasons_rows T c =
     [(''SectionEnabled'', of_bool T (sea_active c)),
      (''AllowOnlinePlay'', of_bool T (allow_online c)),
      (''SeasonNumber'', of_s64 T (ucast (current_season c))),
      (''SpoofPtr'', of_bool T (spoof_ptr c))]"

definition rifts_rows :: "('t, 'n) toml \<Rightarrow> rifts_config \<Rightarrow> (string \<times> 'n) list" where
  "rifts_rows T c =
     [(''SectionEnabled'', of_bool T (cr_active c)),
      (''MakeRiftsRandom'', of_bool T (cr_random c)),
      (''RiftRangeStart'', of_s64 T (ucast (range_start c))),
      (''RiftRangeEnd'', of_s64 T (ucast (range_end c)))]"

definition events_rows :: "('t, 'n) toml \<Rightarrow> events_config \<Rightarrow> (string \<times> 'n) list" where
  "events_rows T c =
     [(''SectionEnabled'', of_bool T (ev_active c)),
      (''SeasonMapMode'', of_string T (SeasonMapModeToString (SeasonMapMode c)))]
     @ map (\<lambda>(f, name, _, _, _). (name, of_bool T (ev_flags c f))) D3HACK_SEASON_EVENT_FLAGS"

definition cheats_rows :: "('t, 'n) toml \<Rightarrow> cheats_config \<Rightarrow> (string \<times> 'n) list" where
  "cheats_rows T c =
     [(''SectionEnabled'', of_bool T (rc_active c)),
      (''MovementSpeedMultiplier'', of_double T (Round1Decimal (move_speed c))),
      (''AttackSpeedMultiplier'', of_double T (Round1Decimal (attack_speed c))),
      (''FloatingDamageColor'', of_bool T (floating_damage_color c)),
      (''GuaranteedLegendaryChance'', of_bool T (guaranteed_legendaries c)),
      (''DropAnyItems'', of_bool T (drop_anything c)),
      (''InstantPortalAndBookOfCain'', of_bool T (instant_portal c)),
      (''NoCooldowns'', of_bool T (no_cooldowns c)),
      (''InstantCubeAndCraftsAndEnchants'', of_bool T (instant_craft_actions c)),
      (''SocketGemsToAnySlot'', of_bool T (any_gem_any_slot c)),
      (''AutoPickup'', of_bool T (auto_pickup c)),
      (''EquipAnySlot'', of_bool T (equip_any_slot c)),
      (''UnlockAllDifficulties'', of_bool T (unlock_all_difficulties c)),
      (''EasyKillDamage'', of_bool T (easy_kill_damage c)),
      (''InfiniteMP'', of_bool T (infinite_mp c)),
      (''CubeNoConsumeMaterials'', of_bool T (cube_no_consume c)),
      (''LegendaryGemUpgradeAlways'', of_bool T (gem_upgrade_always c)),
      (''LegendaryGemUpgradeSpeed'', of_bool T (gem_upgrade_speed c)),
      (''LegendaryGemLevel150'', of_bool T (gem_upgrade_lvl150 c)),
      (''EquipMultipleLegendaries'', of_bool T (equip_multi_legendary c)),
      (''SuperGodMode'', of_bool T (super_god_mode c)),
      (''ExtraGreaterRiftOrbsOnEliteKill'', of_bool T (extra_gr_orbs_elites c))]"

definition loot_rows :: "('t, 'n) toml \<Rightarrow> loot_config \<Rightarrow> (string \<times> 'n) list" where
  "loot_rows T c =
     [(''SectionEnabled'', of_bool T (lm_active c)),
      (''DisableAncientDrops'', of_bool T (DisableAncientDrops c)),
      (''DisablePrimalAncientDrops'', of_bool T (DisablePrimalAncientDrops c)),
      (''DisableTormentDrops'', of_bool T (DisableTormentDrops c)),
      (''DisableTormentCheck'', of_bool T (DisableTormentCheck c)),
      (''SuppressGiftGeneration'', of_bool T (SuppressGiftGeneration c)),
      (''ForcedILevel'', of_s64 T (scast (ForcedILevel c))),
      (''TieredLootRunLevel'', of_s64 T (scast (TieredLootRunLevel c))),
      (''AncientRank'', of_string T (AncientRankCanonical (AncientRankValue c) (AncientRank c)))]"

text \<open>The sections \<open>BuildPatchConfigTable\<close> inserts before the schema adds its own.\<close>

definition section_rows :: "('t, 'n) toml \<Rightarrow> PatchConfig \<Rightarrow> (string \<times> 'n) list" where
  "section_rows T config =
     (let tab = (\<lambda>rows. of_table T (insert_all T rows (t_empty T))) in
      [(''resolution_hack'', tab [(''extra'', tab (extra_rows T (rh_extra (resolution_hack config))))]),
       (''seasons'', tab (seasons_rows T (seasons config))),
       (''challenge_rifts'', tab (rifts_rows T (challenge_rifts config))),
       (''events'', tab (events_rows T (events config))),
       (''rare_cheats'', tab (cheats_rows T (rare_cheats config))),
       (''loot_modifiers'', tab (loot_rows T (loot_modifiers config)))])"

definition BuildPatchConfigTable :: "('t, 'n) toml \<Rightarrow> u32 option \<Rightarrow> PatchConfig \<Rightarrow> 't option" where
  "BuildPatchConfigTable T dev config =
     InsertIntoToml T dev (insert_all T (section_rows T config) (t_empty T)) config"

text \<open>\<open>None\<close> would be the null dereference of \<open>EnsureSectionTable\<close>.\<close>

definition NormalizePatchConfig :: "('t, 'n) toml \<Rightarrow> u32 option \<Rightarrow> PatchConfig \<Rightarrow> PatchConfig option" where
  "NormalizePatchConfig T dev config =
     map_option (ApplyTable T dev default_PatchConfig) (BuildPatchConfigTable T dev config)"

end
