(* ===== verification/Config_Table.thy ===== *)
theory Config_Table
  imports Config_Load
begin

text \<open>
  The settings table and the TOML document built from a configuration: lookups
  over the schema, the contents of the document \<open>BuildPatchConfigTable\<close> writes,
  and what each reader gives back on it.
\<close>

section \<open>The schema table\<close>

text \<open>
  \<open>entry_field\<close> holds the fields of the entries, so that proofs select fields
  without unfolding an entry.
\<close>

named_theorems entry_field

lemma Entry_overlays_SectionEnabled_fields [entry_field]:
  "e_section Entry_overlays_SectionEnabled = ''overlays''"
  "e_key Entry_overlays_SectionEnabled = ''SectionEnabled''"
  "e_keys Entry_overlays_SectionEnabled = kKeysSectionEnabled"
  "e_kind Entry_overlays_SectionEnabled = BoolKind"
  "e_omit_if_empty Entry_overlays_SectionEnabled = False"
  "e_get_bool Entry_overlays_SectionEnabled = Some GetOverlaysActive"
  "e_set_bool Entry_overlays_SectionEnabled = Some SetOverlaysActive"
  by (simp_all add: Entry_overlays_SectionEnabled_def base_entry_def)

lemma Entry_overlays_BuildLockerWatermark_fields [entry_field]:
  "e_section Entry_overlays_BuildLockerWatermark = ''overlays''"
  "e_key Entry_overlays_BuildLockerWatermark = ''BuildLockerWatermark''"
  "e_keys Entry_overlays_BuildLockerWatermark = kKeysBuildLockerWatermark"
  "e_kind Entry_overlays_BuildLockerWatermark = BoolKind"
  "e_omit_if_empty Entry_overlays_BuildLockerWatermark = False"
  "e_get_bool Entry_overlays_BuildLockerWatermark = Some GetOverlaysBuildLocker"
  "e_set_bool Entry_overlays_BuildLockerWatermark = Some SetOverlaysBuildLocker"
  by (simp_all add: Entry_overlays_BuildLockerWatermark_def base_entry_def)

lemma Entry_overlays_DDMLabels_fields [entry_field]:
  "e_section Entry_overlays_DDMLabels = ''overlays''"
  "e_key Entry_overlays_DDMLabels = ''DDMLabels''"
  "e_keys Entry_overlays_DDMLabels = kKeysDdmLabels"
  "e_kind Entry_overlays_DDMLabels = BoolKind"
  "e_omit_if_empty Entry_overlays_DDMLabels = False"
  "e_get_bool Entry_overlays_DDMLabels = Some GetOverlaysDdm"
  "e_set_bool Entry_overlays_DDMLabels = Some SetOverlaysDdm"
  by (simp_all add: Entry_overlays_DDMLabels_def base_entry_def)

lemma Entry_overlays_FPSLabel_fields [entry_field]:
  "e_section Entry_overlays_FPSLabel = ''overlays''"
  "e_key Entry_overlays_FPSLabel = ''FPSLabel''"
  "e_keys Entry_overlays_FPSLabel = kKeysFpsLabel"
  "e_kind Entry_overlays_FPSLabel = BoolKind"
  "e_omit_if_empty Entry_overlays_FPSLabel = False"
  "e_get_bool Entry_overlays_FPSLabel = Some GetOverlaysFps"
  "e_set_bool Entry_overlays_FPSLabel = Some SetOverlaysFps"
  by (simp_all add: Entry_overlays_FPSLabel_def base_entry_def)

lemma Entry_overlays_VariableResLabel_fields [entry_field]:
  "e_section Entry_overlays_VariableResLabel = ''overlays''"
  "e_key Entry_overlays_VariableResLabel = ''VariableResLabel''"
  "e_keys Entry_overlays_VariableResLabel = kKeysVarResLabel"
  "e_kind Entry_overlays_VariableResLabel = BoolKind"
  "e_omit_if_empty Entry_overlays_VariableResLabel = False"
  "e_get_bool Entry_overlays_VariableResLabel = Some GetOverlaysVarRes"
  "e_set_bool Entry_overlays_VariableResLabel = Some SetOverlaysVarRes"
  by (simp_all add: Entry_overlays_VariableResLabel_def base_entry_def)

lemma Entry_gui_Enabled_fields [entry_field]:
  "e_section Entry_gui_Enabled = ''gui''" "e_key Entry_gui_Enabled = ''Enabled''"
  "e_keys Entry_gui_Enabled = kKeysGuiEnabled" "e_kind Entry_gui_Enabled = BoolKind"
  "e_omit_if_empty Entry_gui_Enabled = False"
  "e_get_bool Entry_gui_Enabled = Some GetGuiEnabled"
  "e_set_bool Entry_gui_Enabled = Some SetGuiEnabled"
  by (simp_all add: Entry_gui_Enabled_def base_entry_def)

lemma Entry_gui_Visible_fields [entry_field]:
  "e_section Entry_gui_Visible = ''gui''" "e_key Entry_gui_Visible = ''Visible''"
  "e_keys Entry_gui_Visible = kKeysGuiVisible" "e_kind Entry_gui_Visible = BoolKind"
  "e_omit_if_empty Entry_gui_Visible = False"
  "e_get_bool Entry_gui_Visible = Some GetGuiVisible"
  "e_set_bool Entry_gui_Visible = Some SetGuiVisible"
  by (simp_all add: Entry_gui_Visible_def base_entry_def)

lemma Entry_gui_AllowLeftStickPassthrough_fields [entry_field]:
  "e_section Entry_gui_AllowLeftStickPassthrough = ''gui''"
  "e_key Entry_gui_AllowLeftStickPassthrough = ''AllowLeftStickPassthrough''"
  "e_keys Entry_gui_AllowLeftStickPassthrough = kKeysGuiLeftStick"
  "e_kind Entry_gui_AllowLeftStickPassthrough = BoolKind"
  "e_omit_if_empty Entry_gui_AllowLeftStickPassthrough = False"
  "e_get_bool Entry_gui_AllowLeftStickPassthrough = Some GetGuiLeftStickPass"
  "e_set_bool Entry_gui_AllowLeftStickPassthrough = Some SetGuiLeftStickPass"
  by (simp_all add: Entry_gui_AllowLeftStickPassthrough_def base_entry_def)

lemma Entry_gui_Language_fields [entry_field]:
  "e_section Entry_gui_Language = ''gui''" "e_key Entry_gui_Language = ''Language''"
  "e_keys Entry_gui_Language = kKeysLanguage" "e_kind Entry_gui_Language = StringKind"
  "e_omit_if_empty Entry_gui_Language = True"
  "e_get_string Entry_gui_Language = Some GetGuiLanguage"
  "e_set_string Entry_gui_Language = Some SetGuiLanguage"
  by (simp_all add: Entry_gui_Language_def base_entry_def)

lemma Entry_debug_SectionEnabled_fields [entry_field]:
  "e_section Entry_debug_SectionEnabled = ''debug''"
  "e_key Entry_debug_SectionEnabled = ''SectionEnabled''"
  "e_keys Entry_debug_SectionEnabled = kKeysSectionEnabled"
  "e_kind Entry_debug_SectionEnabled = BoolKind"
  "e_omit_if_empty Entry_debug_SectionEnabled = False"
  "e_get_bool Entry_debug_SectionEnabled = Some GetDebugActive"
  "e_set_bool Entry_debug_SectionEnabled = Some SetDebugActive"
  by (simp_all add: Entry_debug_SectionEnabled_def base_entry_def)

lemma Entry_debug_Acknowledge_god_jester_fields [entry_field]:
  "e_section Entry_debug_Acknowledge_god_jester = ''debug''"
  "e_key Entry_debug_Acknowledge_god_jester = ''Acknowledge_god_jester''"
  "e_keys Entry_debug_Acknowledge_god_jester = kKeysAcknowledgeJester"
  "e_kind Entry_debug_Acknowledge_god_jester = BoolKind"
  "e_omit_if_empty Entry_debug_Acknowledge_god_jester = False"
  "e_get_bool Entry_debug_Acknowledge_god_jester = Some GetDebugEnableCrashes"
  "e_set_bool Entry_debug_Acknowledge_god_jester = Some SetDebugEnableCrashes"
  by (simp_all add: Entry_debug_Acknowledge_god_jester_def base_entry_def)

lemma Entry_debug_EnablePubFileDump_fields [entry_field]:
  "e_section Entry_debug_EnablePubFileDump = ''debug''"
  "e_key Entry_debug_EnablePubFileDump = ''EnablePubFileDump''"
  "e_keys Entry_debug_EnablePubFileDump = kKeysPubfileDump"
  "e_kind Entry_debug_EnablePubFileDump = BoolKind"
  "e_omit_if_empty Entry_debug_EnablePubFileDump = False"
  "e_get_bool Entry_debug_EnablePubFileDump = Some GetDebugPubfileDump"
  "e_set_bool Entry_debug_EnablePubFileDump = Some SetDebugPubfileDump"
  by (simp_all add: Entry_debug_EnablePubFileDump_def base_entry_def)

lemma Entry_debug_EnableErrorTraces_fields [entry_field]:
  "e_section Entry_debug_EnableErrorTraces = ''debug''"
  "e_key Entry_debug_EnableErrorTraces = ''EnableErrorTraces''"
  "e_keys Entry_debug_EnableErrorTraces = kKeysErrorTraces"
  "e_kind Entry_debug_EnableErrorTraces = BoolKind"
  "e_omit_if_empty Entry_debug_EnableErrorTraces = False"
  "e_get_bool Entry_debug_EnableErrorTraces = Some GetDebugErrorTraces"
  "e_set_bool Entry_debug_EnableErrorTraces = Some SetDebugErrorTraces"
  by (simp_all add: Entry_debug_EnableErrorTraces_def base_entry_def)

lemma Entry_debug_EnableDebugFlags_fields [entry_field]:
  "e_section Entry_debug_EnableDebugFlags = ''debug''"
  "e_key Entry_debug_EnableDebugFlags = ''EnableDebugFlags''"
  "e_keys Entry_debug_EnableDebugFlags = kKeysDebugFlags"
  "e_kind Entry_debug_EnableDebugFlags = BoolKind"
  "e_omit_if_empty Entry_debug_EnableDebugFlags = False"
  "e_get_bool Entry_debug_EnableDebugFlags = Some GetDebugDebugFlags"
  "e_set_bool Entry_debug_EnableDebugFlags = Some SetDebugDebugFlags"
  by (simp_all add: Entry_debug_EnableDebugFlags_def base_entry_def)

lemma Entry_debug_SpoofNetworkFunctions_fields [entry_field]:
  "e_section Entry_debug_SpoofNetworkFunctions = ''debug''"
  "e_key Entry_debug_SpoofNetworkFunctions = ''SpoofNetworkFunctions''"
  "e_keys Entry_debug_SpoofNetworkFunctions = kKeysTagNx"
  "e_kind Entry_debug_SpoofNetworkFunctions = BoolKind"
  "e_omit_if_empty Entry_debug_SpoofNetworkFunctions = False"
  "e_get_bool Entry_debug_SpoofNetworkFunctions = Some GetDebugTagNx"
  "e_set_bool Entry_debug_SpoofNetworkFunctions = Some SetDebugTagNx"
  by (simp_all add: Entry_debug_SpoofNetworkFunctions_def base_entry_def)

lemma Entry_debug_EnableExceptionHandler_fields [entry_field]:
  "e_section Entry_debug_EnableExceptionHandler = ''debug''"
  "e_key Entry_debug_EnableExceptionHandler = ''EnableExceptionHandler''"
  "e_keys Entry_debug_EnableExceptionHandler = kKeysExceptionHandler"
  "e_kind Entry_debug_EnableExceptionHandler = BoolKind"
  "e_omit_if_empty Entry_debug_EnableExceptionHandler = False"
  "e_get_bool Entry_debug_EnableExceptionHandler = Some GetDebugExceptionHandler"
  "e_set_bool Entry_debug_EnableExceptionHandler = Some SetDebugExceptionHandler"
  by (simp_all add: Entry_debug_EnableExceptionHandler_def base_entry_def)

lemma Entry_debug_EnableOeNotificationHook_fields [entry_field]:
  "e_section Entry_debug_EnableOeNotificationHook = ''debug''"
  "e_key Entry_debug_EnableOeNotificationHook = ''EnableOeNotificationHook''"
  "e_keys Entry_debug_EnableOeNotificationHook = kKeysOeNotificationHook"
  "e_kind Entry_debug_EnableOeNotificationHook = BoolKind"
  "e_omit_if_empty Entry_debug_EnableOeNotificationHook = False"
  "e_get_bool Entry_debug_EnableOeNotificationHook = Some GetDebugOeNotificationHook"
  "e_set_bool Entry_debug_EnableOeNotificationHook = Some SetDebugOeNotificationHook"
  by (simp_all add: Entry_debug_EnableOeNotificationHook_def base_entry_def)

lemma Entry_debug_LogOeNotificationMessages_fields [entry_field]:
  "e_section Entry_debug_LogOeNotificationMessages = ''debug''"
  "e_key Entry_debug_LogOeNotificationMessages = ''LogOeNotificationMessages''"
  "e_keys Entry_debug_LogOeNotificationMessages = kKeysLogOeNotifications"
  "e_kind Entry_debug_LogOeNotificationMessages = BoolKind"
  "e_omit_if_empty Entry_debug_LogOeNotificationMessages = False"
  "e_get_bool Entry_debug_LogOeNotificationMessages = Some GetDebugLogOeNotifications"
  "e_set_bool Entry_debug_LogOeNotificationMessages = Some SetDebugLogOeNotifications"
  by (simp_all add: Entry_debug_LogOeNotificationMessages_def base_entry_def)

lemma Entry_resolution_hack_SectionEnabled_fields [entry_field]:
  "e_section Entry_resolution_hack_SectionEnabled = ''resolution_hack''"
  "e_key Entry_resolution_hack_SectionEnabled = ''SectionEnabled''"
  "e_keys Entry_resolution_hack_SectionEnabled = kKeysSectionEnabled"
  "e_kind Entry_resolution_hack_SectionEnabled = BoolKind"
  "e_omit_if_empty Entry_resolution_hack_SectionEnabled = False"
  "e_get_bool Entry_resolution_hack_SectionEnabled = Some GetReshackActive"
  "e_set_bool Entry_resolution_hack_SectionEnabled = Some SetReshackActive"
  by (simp_all add: Entry_resolution_hack_SectionEnabled_def base_entry_def)

lemma Entry_resolution_hack_OutputTarget_fields [entry_field]:
  "e_section (Entry_resolution_hack_OutputTarget dev) = ''resolution_hack''"
  "e_key (Entry_resolution_hack_OutputTarget dev) = ''OutputTarget''"
  "e_keys (Entry_resolution_hack_OutputTarget dev) = kKeysReshackOutputTarget"
  "e_kind (Entry_resolution_hack_OutputTarget dev) = U32Kind"
  "e_omit_if_empty (Entry_resolution_hack_OutputTarget dev) = False"
  "e_min_u (Entry_resolution_hack_OutputTarget dev) = 720"
  "e_max_u (Entry_resolution_hack_OutputTarget dev) = 2160"
  "e_parse_u32_str (Entry_resolution_hack_OutputTarget dev) = Some ParseResolutionHackOutputTarget"
  "e_get_u32 (Entry_resolution_hack_OutputTarget dev) = Some GetReshackOutputTarget"
  "e_set_u32 (Entry_resolution_hack_OutputTarget dev) = Some (SetReshackOutputTarget dev)"
  by (simp_all add: Entry_resolution_hack_OutputTarget_def base_entry_def)

lemma Entry_resolution_hack_OutputHandheldScale_fields [entry_field]:
  "e_section Entry_resolution_hack_OutputHandheldScale = ''resolution_hack''"
  "e_key Entry_resolution_hack_OutputHandheldScale = ''OutputHandheldScale''"
  "e_keys Entry_resolution_hack_OutputHandheldScale = kKeysReshackOutputHandheldScale"
  "e_kind Entry_resolution_hack_OutputHandheldScale = FloatKind"
  "e_omit_if_empty Entry_resolution_hack_OutputHandheldScale = False"
  "e_min_f Entry_resolution_hack_OutputHandheldScale = 0"
  "e_max_f Entry_resolution_hack_OutputHandheldScale = 100"
  "e_parse_float_str Entry_resolution_hack_OutputHandheldScale = None"
  "e_get_float Entry_resolution_hack_OutputHandheldScale = Some GetReshackOutputHandheldScale"
  "e_set_float Entry_resolution_hack_OutputHandheldScale = Some SetReshackOutputHandheldScale"
  by (simp_all add: Entry_resolution_hack_OutputHandheldScale_def base_entry_def)

lemma Entry_resolution_hack_MinResScale_fields [entry_field]:
  "e_section Entry_resolution_hack_MinResScale = ''resolution_hack''"
  "e_key Entry_resolution_hack_MinResScale = ''MinResScale''"
  "e_keys Entry_resolution_hack_MinResScale = kKeysReshackMinResScale"
  "e_kind Entry_resolution_hack_MinResScale = FloatKind"
  "e_omit_if_empty Entry_resolution_hack_MinResScale = False"
  "e_min_f Entry_resolution_hack_MinResScale = 10"
  "e_max_f Entry_resolution_hack_MinResScale = 100"
  "e_parse_float_str Entry_resolution_hack_MinResScale = None"
  "e_get_float Entry_resolution_hack_MinResScale = Some GetReshackMinResScale"
  "e_set_float Entry_resolution_hack_MinResScale = Some SetReshackMinResScale"
  by (simp_all add: Entry_resolution_hack_MinResScale_def base_entry_def)

lemma Entry_resolution_hack_MaxResScale_fields [entry_field]:
  "e_section Entry_resolution_hack_MaxResScale = ''resolution_hack''"
  "e_key Entry_resolution_hack_MaxResScale = ''MaxResScale''"
  "e_keys Entry_resolution_hack_MaxResScale = kKeysReshackMaxResScale"
  "e_kind Entry_resolution_hack_MaxResScale = FloatKind"
  "e_omit_if_empty Entry_resolution_hack_MaxResScale = False"
  "e_min_f Entry_resolution_hack_MaxResScale = 10"
  "e_max_f Entry_resolution_hack_MaxResScale = 100"
  "e_parse_float_str Entry_resolution_hack_MaxResScale = None"
  "e_get_float Entry_resolution_hack_MaxResScale = Some GetReshackMaxResScale"
  "e_set_float Entry_resolution_hack_MaxResScale = Some SetReshackMaxResScale"
  by (simp_all add: Entry_resolution_hack_MaxResScale_def base_entry_def)

lemma Entry_resolution_hack_ClampTextureResolution_fields [entry_field]:
  "e_section Entry_resolution_hack_ClampTextureResolution = ''resolution_hack''"
  "e_key Entry_resolution_hack_ClampTextureResolution = ''ClampTextureResolution''"
  "e_keys Entry_resolution_hack_ClampTextureResolution = kKeysReshackClampTextureResolution"
  "e_kind Entry_resolution_hack_ClampTextureResolution = U32Kind"
  "e_omit_if_empty Entry_resolution_hack_ClampTextureResolution = False"
  "e_min_u Entry_resolution_hack_ClampTextureResolution = 0"
  "e_max_u Entry_resolution_hack_ClampTextureResolution = kClampTextureResolutionMax"
  "e_parse_u32_str Entry_resolution_hack_ClampTextureResolution = None"
  "e_get_u32 Entry_resolution_hack_ClampTextureResolution = Some GetReshackClampTextureResolution"
  "e_set_u32 Entry_resolution_hack_ClampTextureResolution = Some SetReshackClampTextureResolution"
  by (simp_all add: Entry_resolution_hack_ClampTextureResolution_def base_entry_def)

lemma Entry_resolution_hack_SpoofDocked_fields [entry_field]:
  "e_section Entry_resolution_hack_SpoofDocked = ''resolution_hack''"
  "e_key Entry_resolution_hack_SpoofDocked = ''SpoofDocked''"
  "e_keys Entry_resolution_hack_SpoofDocked = kKeysReshackSpoofDocked"
  "e_kind Entry_resolution_hack_SpoofDocked = BoolKind"
  "e_omit_if_empty Entry_resolution_hack_SpoofDocked = False"
  "e_get_bool Entry_resolution_hack_SpoofDocked = Some GetReshackSpoofDocked"
  "e_set_bool Entry_resolution_hack_SpoofDocked = Some SetReshackSpoofDocked"
  by (simp_all add: Entry_resolution_hack_SpoofDocked_def base_entry_def)

lemma Entry_resolution_hack_ExperimentalScheduler_fields [entry_field]:
  "e_section Entry_resolution_hack_ExperimentalScheduler = ''resolution_hack''"
  "e_key Entry_resolution_hack_ExperimentalScheduler = ''ExperimentalScheduler''"
  "e_keys Entry_resolution_hack_ExperimentalScheduler = kKeysReshackExpScheduler"
  "e_kind Entry_resolution_hack_ExperimentalScheduler = BoolKind"
  "e_omit_if_empty Entry_resolution_hack_ExperimentalScheduler = False"
  "e_get_bool Entry_resolution_hack_ExperimentalScheduler = Some GetReshackExpScheduler"
  "e_set_bool Entry_resolution_hack_ExperimentalScheduler = Some SetReshackExpScheduler"
  by (simp_all add: Entry_resolution_hack_ExperimentalScheduler_def base_entry_def)

text \<open>The entry has the accessors of its kind, as the comment in the structure asks.\<close>

definition has_accessors :: "Entry \<Rightarrow> bool" where
  "has_accessors e =
     (case e_kind e of
        BoolKind \<Rightarrow> e_get_bool e \<noteq> None \<and> e_set_bool e \<noteq> None
      | U32Kind \<Rightarrow> e_get_u32 e \<noteq> None \<and> e_set_u32 e \<noteq> None
      | FloatKind \<Rightarrow> e_get_float e \<noteq> None \<and> e_set_float e \<noteq> None
      | StringKind \<Rightarrow> e_get_string e \<noteq> None \<and> e_set_string e \<noteq> None)"

lemma FindEntry_entries:
  "list_all (\<lambda>e. FindEntry dev (e_section e) (e_key e) = Some e) (k_entries dev)"
  by (simp add: FindEntry_def k_entries_def entry_field)

lemma EntriesForSection_filter:
  "EntriesForSection dev s = filter (\<lambda>e. e_section e = s) (Entries dev)"
proof (cases "s \<in> {''overlays'', ''gui'', ''debug'', ''resolution_hack''}")
  case True
  then show ?thesis
    by (elim insertE) (simp_all add: EntriesForSection_def Entries_def k_entries_def entry_field)
next
  case False
  then have "\<not> s = ''overlays''" "\<not> s = ''gui''" "\<not> s = ''debug''" "\<not> s = ''resolution_hack''"
    "\<not> ''overlays'' = s" "\<not> ''gui'' = s" "\<not> ''debug'' = s" "\<not> ''resolution_hack'' = s"
    by (blast dest: sym)+
  then show ?thesis by (simp add: EntriesForSection_def Entries_def k_entries_def entry_field)
qed

lemmas key_list_defs =
  kKeysSectionEnabled_def kKeysBuildLockerWatermark_def kKeysDdmLabels_def kKeysFpsLabel_def
  kKeysVarResLabel_def kKeysTagNx_def kKeysLanguage_def kKeysAcknowledgeJester_def
  kKeysPubfileDump_def kKeysErrorTraces_def kKeysDebugFlags_def kKeysExceptionHandler_def
  kKeysOeNotificationHook_def kKeysLogOeNotifications_def kKeysGuiEnabled_def kKeysGuiVisible_def
  kKeysGuiLeftStick_def kKeysReshackSpoofDocked_def kKeysReshackExpScheduler_def
  kKeysReshackOutputTarget_def kKeysReshackMinResScale_def kKeysReshackMaxResScale_def
  kKeysReshackOutputHandheldScale_def kKeysReshackClampTextureResolution_def

text \<open>The canonical key of an entry is one of its aliases, and no alias is another entry's key.\<close>

definition keys_unambiguous :: "u32 option \<Rightarrow> Entry \<Rightarrow> bool" where
  "keys_unambiguous dev e \<longleftrightarrow>
     e_key e \<in> set (e_keys e) \<and> distinct (e_keys e)
   \<and> list_all (\<lambda>e'. e_section e' = e_section e \<and> e_key e' \<in> set (e_keys e) \<longrightarrow> e_key e' = e_key e)
       (Entries dev)"

lemma keys_unambiguous_entries: "list_all (keys_unambiguous dev) (k_entries dev)"
  by (simp add: keys_unambiguous_def Entries_def k_entries_def entry_field key_list_defs)

lemma has_accessors_entries: "list_all has_accessors (k_entries dev)"
  by (simp add: k_entries_def entry_field has_accessors_def)


section \<open>The TOML operations\<close>

lemma toml_simps:
  assumes "toml_laws T"
  shows "t_get T (t_empty T) k = None"
    and "t_get T (t_insert T t k n) k' = (if k' = k \<and> t_get T t k = None then Some n else t_get T t k')"
    and "t_get T t k \<noteq> None \<Longrightarrow> t_get T (t_assign T t k n) k' = (if k' = k then Some n else t_get T t k')"
    and "n_as_table T (of_table T t) = Some t"
    and "n_bool T (of_bool T b) = Some b"
    and "n_double T (of_double T d) = Some d"
    and "n_s64 T (of_s64 T i) = Some i"
    and "n_string T (of_string T s) = Some s"
  using assms unfolding toml_laws_def by blast+

lemma toml_integer:
  assumes "toml_laws T"
  shows "n_double T (of_s64 T i) = None \<or> n_double T (of_s64 T i) = Some (to_f64 (of_int (sint i)))"
  using assms unfolding toml_laws_def by blast

lemma get_insert_all:
  assumes "toml_laws T"
  shows "t_get T (insert_all T rows t) k =
    (case t_get T t k of Some n \<Rightarrow> Some n | None \<Rightarrow> map_of rows k)"
proof (induction rows arbitrary: t)
  case (Cons row rows)
  obtain k' n where "row = (k', n)" by (cases row)
  then show ?case
    using Cons[of "t_insert T t k' n"]
    by (auto simp: insert_all_def toml_simps[OF assms] split: option.splits)
qed (simp add: insert_all_def split: option.split)

lemma get_tab:
  assumes "toml_laws T"
  shows "t_get T (insert_all T rows (t_empty T)) = map_of rows"
  using assms by (intro ext) (simp add: get_insert_all toml_simps)

text \<open>A key of a section, and what \<open>InsertIntoToml\<close> writes there.\<close>

definition tab_get :: "('t, 'n) toml \<Rightarrow> 't \<Rightarrow> string \<Rightarrow> string \<Rightarrow> 'n option" where
  "tab_get T doc s k = Option.bind (FindSection T doc s) (\<lambda>t. t_get T t k)"

fun entry_lookup :: "('t, 'n) toml \<Rightarrow> PatchConfig \<Rightarrow> Entry list \<Rightarrow> string \<Rightarrow> string \<Rightarrow> 'n option" where
  "entry_lookup T config [] s k = None"
| "entry_lookup T config (e # es) s k =
     (if s = e_section e \<and> k = e_key e \<and> entry_node T config e \<noteq> None then entry_node T config e
      else entry_lookup T config es s k)"

text \<open>No key of the document that names a section holds a node that is no table.\<close>

definition tables_only :: "('t, 'n) toml \<Rightarrow> 't \<Rightarrow> bool" where
  "tables_only T doc = (\<forall>s. t_get T doc s = None \<or> FindSection T doc s \<noteq> None)"

lemma EnsureSectionTable_ok:
  assumes laws: "toml_laws T" and ok: "tables_only T doc"
  obtains doc' t where "EnsureSectionTable T doc s = Some (doc', t)" "FindSection T doc' s = Some t"
    "tables_only T doc'" "\<And>s'. s' \<noteq> s \<Longrightarrow> t_get T doc' s' = t_get T doc s'"
    "\<And>k. t_get T t k = tab_get T doc s k"
proof (cases "FindSection T doc s")
  case (Some t)
  then show thesis using that[of doc t] ok by (simp add: EnsureSectionTable_def tab_get_def)
next
  case None
  define doc' where "doc' = t_insert T doc s (of_table T (t_empty T))"
  have "t_get T doc s = None" using None ok by (auto simp: tables_only_def)
  then have get: "t_get T doc' s' = (if s' = s then Some (of_table T (t_empty T)) else t_get T doc s')" for s'
    by (simp add: doc'_def toml_simps[OF laws])
  then have find: "FindSection T doc' s = Some (t_empty T)"
    by (simp add: FindSection_def toml_simps[OF laws])
  have "tables_only T doc'" using ok by (auto simp: tables_only_def get FindSection_def toml_simps[OF laws])
  then show thesis
    using that[of doc' "t_empty T"] None find get
    by (simp add: EnsureSectionTable_def tab_get_def toml_simps[OF laws] flip: doc'_def)
qed

lemma insert_entry_ok:
  assumes laws: "toml_laws T" and ok: "tables_only T doc"
  obtains doc' where "insert_entry T config e doc = Some doc'" "tables_only T doc'"
    "FindSection T doc' (e_section e) \<noteq> None"
    "\<And>s. s \<noteq> e_section e \<Longrightarrow> t_get T doc' s = t_get T doc s"
    "\<And>k. tab_get T doc' (e_section e) k =
       (case tab_get T doc (e_section e) k of
          Some n \<Rightarrow> Some n | None \<Rightarrow> if k = e_key e then entry_node T config e else None)"
proof -
  obtain d t where d: "EnsureSectionTable T doc (e_section e) = Some (d, t)"
    "FindSection T d (e_section e) = Some t" "tables_only T d"
    "\<And>s. s \<noteq> e_section e \<Longrightarrow> t_get T d s = t_get T doc s"
    "\<And>k. t_get T t k = tab_get T doc (e_section e) k"
    using EnsureSectionTable_ok[OF laws ok, of "e_section e"] by metis
  show thesis
  proof (cases "entry_node T config e")
    case None
    then show thesis using that[of d] d
      by (simp add: insert_entry_def tab_get_def split: option.split)
  next
    case (Some node)
    define d' where "d' = t_assign T d (e_section e) (of_table T (t_insert T t (e_key e) node))"
    have "t_get T d (e_section e) \<noteq> None" using d(2) by (cases "t_get T d (e_section e)") (simp_all add: FindSection_def)
    then have get: "t_get T d' s = (if s = e_section e then Some (of_table T (t_insert T t (e_key e) node)) else t_get T d s)" for s
      by (simp add: d'_def toml_simps(3)[OF laws])
    then have find: "FindSection T d' (e_section e) = Some (t_insert T t (e_key e) node)"
      by (simp add: FindSection_def toml_simps[OF laws])
    have "tables_only T d'" using d(3) by (auto simp: tables_only_def get FindSection_def toml_simps[OF laws])
    then show thesis
      using that[of d'] d Some find get
      by (auto simp: insert_entry_def tab_get_def toml_simps[OF laws] d'_def split: option.split)
  qed
qed

text \<open>
  Inserting a list of entries always succeeds on such a document, keeps every
  present key and adds what the entries write.
\<close>

lemma insert_entries_ok:
  assumes laws: "toml_laws T"
  shows "tables_only T doc \<Longrightarrow>
    \<exists>doc'. insert_entries T config es doc = Some doc' \<and> tables_only T doc'
      \<and> (\<forall>s. s \<notin> e_section ` set es \<longrightarrow> t_get T doc' s = t_get T doc s)
      \<and> (\<forall>s. FindSection T doc s \<noteq> None \<or> s \<in> e_section ` set es \<longrightarrow> FindSection T doc' s \<noteq> None)
      \<and> (\<forall>s k. tab_get T doc' s k =
           (case tab_get T doc s k of Some n \<Rightarrow> Some n | None \<Rightarrow> entry_lookup T config es s k))"
proof (induction es arbitrary: doc)
  case Nil
  then show ?case by (simp split: option.split)
next
  case (Cons e es)
  obtain d where d: "insert_entry T config e doc = Some d" "tables_only T d"
    "FindSection T d (e_section e) \<noteq> None" "\<And>s. s \<noteq> e_section e \<Longrightarrow> t_get T d s = t_get T doc s"
    and dk: "\<And>k. tab_get T d (e_section e) k =
       (case tab_get T doc (e_section e) k of
          Some n \<Rightarrow> Some n | None \<Rightarrow> if k = e_key e then entry_node T config e else None)"
    using insert_entry_ok[OF laws Cons.prems, of config e] by metis
  have same: "tab_get T d s k = tab_get T doc s k" "FindSection T d s = FindSection T doc s"
    if "s \<noteq> e_section e" for s k
    using d(4)[OF that] by (simp_all add: tab_get_def FindSection_def)
  obtain d' where d': "insert_entries T config es d = Some d'" "tables_only T d'"
    "\<forall>s. s \<notin> e_section ` set es \<longrightarrow> t_get T d' s = t_get T d s"
    "\<forall>s. FindSection T d s \<noteq> None \<or> s \<in> e_section ` set es \<longrightarrow> FindSection T d' s \<noteq> None"
    and dk': "\<forall>s k. tab_get T d' s k =
           (case tab_get T d s k of Some n \<Rightarrow> Some n | None \<Rightarrow> entry_lookup T config es s k)"
    using Cons.IH[OF d(2)] by blast
  have "tab_get T d' s k =
      (case tab_get T doc s k of Some n \<Rightarrow> Some n | None \<Rightarrow> entry_lookup T config (e # es) s k)" for s k
    using dk'[rule_format, of s k] dk[of k] same(1)[of s k]
    by (cases "s = e_section e") (auto split: option.splits)
  moreover have "\<forall>s. s \<notin> e_section ` set (e # es) \<longrightarrow> t_get T d' s = t_get T doc s"
    using d'(3) d(4) by simp
  moreover have "\<forall>s. FindSection T doc s \<noteq> None \<or> s \<in> e_section ` set (e # es) \<longrightarrow> FindSection T d' s \<noteq> None"
  proof (intro allI impI)
    fix s
    assume "FindSection T doc s \<noteq> None \<or> s \<in> e_section ` set (e # es)"
    then have "FindSection T d s \<noteq> None \<or> s \<in> e_section ` set es"
      using d(3) same(2)[of s] by (cases "s = e_section e") auto
    then show "FindSection T d' s \<noteq> None" using d'(4) by blast
  qed
  ultimately show ?case using d(1) d'(1,2) by auto
qed

section \<open>Reading a built document\<close>

text \<open>Readers depend on a table only through its lookup function.\<close>

lemma ReadValue_only:
  assumes "\<And>k'. k' \<in> set keys \<Longrightarrow> k' \<noteq> k \<Longrightarrow> t_get T t k' = None" "t_get T t k = Some n"
  shows "ReadValue T value t keys = (if k \<in> set keys then value n else None)"
  using assms
proof (induction keys)
  case (Cons k' keys)
  then show ?case by (cases "k' = k"; cases "value n") auto
qed simp

lemma ReadValue_first:
  assumes "\<And>k'. k' \<in> set keys \<Longrightarrow> k' \<noteq> k \<Longrightarrow> t_get T t k' = None"
    and "t_get T t k = Some n" "k \<in> set keys"
  shows "ReadValue T value t keys = value n"
  using ReadValue_only[of keys k T t n "value"] assms by simp

lemma ReadValue_absent:
  "(\<And>k'. k' \<in> set keys \<Longrightarrow> t_get T t k' = None) \<Longrightarrow> ReadValue T value t keys = None"
  by (induction keys) simp_all

lemma ReadNumber_first:
  assumes "\<And>k'. k' \<in> set keys \<Longrightarrow> k' \<noteq> k \<Longrightarrow> t_get T t k' = None"
    and "t_get T t k = Some n" "k \<in> set keys"
    and "n_double T n = Some d \<or> (n_double T n = None \<and> n_s64 T n = Some i \<and> d = to_f64 (of_int (sint i)))"
  shows "ReadNumber T t keys = Some d"
  using assms
proof (induction keys)
  case (Cons k' keys)
  then show ?case by (cases "k' = k") auto
qed simp

lemma to_f64_of_int:
  assumes "\<bar>m\<bar> < 2 ^ 53"
  shows "to_f64 (of_int m) = Fin (of_int m)"
proof -
  have "of_int \<bar>m\<bar> < (of_int (2 ^ 53) :: rat)" using assms by (simp only: of_int_less_iff)
  then have "\<bar>of_int m :: rat\<bar> < 9007199254740992" by simp
  then have "- (2 ^ 64) < (of_int m :: rat)" and "(of_int m :: rat) < 2 ^ 64" by simp_all
  then show ?thesis using assms by (simp add: to_f64_def rnd53_of_int with_range_Fin)
qed

text \<open>An integer read back from a document is the integer written.\<close>

lemma ReadNumber_integer:
  assumes "toml_laws T"
    and "\<And>k'. k' \<in> set keys \<Longrightarrow> k' \<noteq> k \<Longrightarrow> t_get T t k' = None"
    and "t_get T t k = Some (of_s64 T i)" "k \<in> set keys" "\<bar>sint i\<bar> < 2 ^ 53"
  shows "ReadNumber T t keys = Some (Fin (of_int (sint i)))"
proof -
  have "n_double T (of_s64 T i) = Some (Fin (of_int (sint i)))
    \<or> (n_double T (of_s64 T i) = None \<and> n_s64 T (of_s64 T i) = Some i \<and> Fin (of_int (sint i)) = to_f64 (of_int (sint i)))"
    using toml_integer[OF assms(1), of i] toml_simps(7)[OF assms(1), of i] to_f64_of_int[OF assms(5)] by auto
  then show ?thesis by (intro ReadNumber_first[OF assms(2,3,4)])
qed

lemma fp_to_u32_nat: "n < 2 ^ 32 \<Longrightarrow> fp_to_u32 (Fin (of_nat n)) = of_nat n"
  by (simp add: fp_to_u32_def trunc_def)

lemma fp_to_s32_int:
  assumes "- (2 ^ 31) \<le> m" "m < 2 ^ 31"
  shows "fp_to_s32 (Fin (of_int m)) = word_of_int m"
  using assms by (simp add: fp_to_s32_def trunc_def)

lemma sint_ucast_u32: "sint (ucast (v :: u32) :: s64) = uint v"
proof -
  have b: "uint v < 2 ^ 32" using uint_lt2p[of v] by simp
  have "- (2 ^ 63) \<le> uint v" by (rule order_trans[of _ 0]) simp_all
  moreover have "uint v < 2 ^ 63" using b by simp
  ultimately have "signed_take_bit 63 (uint v) = uint v" by (rule signed_take_bit_small)
  then show ?thesis by (simp add: sint_uint unsigned_ucast_eq signed_take_bit_take_bit)
qed

lemma sint_scast_s32: "sint (scast (v :: s32) :: s64) = sint v"
proof -
  have "- (2 ^ 31) \<le> sint v" "sint v < 2 ^ 31" using sint_ge[of v] sint_lt[of v] by simp_all
  then show ?thesis by (simp add: signed_scast_eq signed_take_bit_small)
qed

end
