(* ===== verification/Config_Normalize.thy ===== *)
theory Config_Normalize
  imports Config_Table
begin

text \<open>
  What \<open>NormalizePatchConfig\<close> does to a configuration.  \<open>clamp_config\<close> is the
  specification: every field clamped on its own, no TOML in it.  The theory shows
  that writing a configuration to a document and applying that document to the
  defaults computes it.
\<close>

section \<open>Specification\<close>

text \<open>A NaN scale is not written over the default.\<close>

definition scale_or :: "rat \<Rightarrow> fp \<Rightarrow> fp" where
  "scale_or d v = (if v = NaN then Fin d else clamp v (Fin 10) (Fin 100))"

definition handheld_or_default :: "fp \<Rightarrow> fp" where
  "handheld_or_default v =
     (if v = NaN then Fin 80
      else
        let w = clamp v (Fin 0) (Fin 100);
            w = (if fp_less (Fin 0) w \<and> fp_leq w (Fin 1) then fp_mul to_f32 w 100 else w)
        in NormalizeHandheldScale w)"

definition clamp_extra :: "ExtraConfig \<Rightarrow> ExtraConfig" where
  "clamp_extra c =
     (let dim = (\<lambda>hi (v :: s32). word_of_int (max (- 1) (min hi (sint v)))) in
      \<lparr>window_left = dim 16384 (window_left c), window_top = dim 16384 (window_top c),
       window_width = dim 16384 (window_width c), window_height = dim 16384 (window_height c),
       ui_opt_width = dim 16384 (ui_opt_width c), ui_opt_height = dim 16384 (ui_opt_height c),
       render_width = dim 16384 (render_width c), render_height = dim 16384 (render_height c),
       refresh_rate = dim 1000 (refresh_rate c), bit_depth = dim 64 (bit_depth c),
       msaa_level = dim 16 (msaa_level c)\<rparr>)"

definition clamp_resolution :: "u32 option \<Rightarrow> ResolutionHackConfig \<Rightarrow> ResolutionHackConfig" where
  "clamp_resolution dev c =
     (let lo = scale_or 85 (min_res_scale c);
          hi = scale_or 100 (max_res_scale c)
      in \<lparr>rh_active = rh_active c,
          target_resolution =
            min (max 720 (min 2160 (target_resolution c))) (MaxResolutionHackOutputTarget dev),
          min_res_scale = (if fp_less hi lo then hi else lo), max_res_scale = hi,
          spoof_docked = spoof_docked c, exp_scheduler = exp_scheduler c,
          output_handheld_scale = handheld_or_default (output_handheld_scale c),
          clamp_texture_resolution =
            (if clamp_texture_resolution c = 0 then 0
             else max 100 (min 9999 (clamp_texture_resolution c))),
          rh_extra = clamp_extra (rh_extra c)\<rparr>)"

definition clamp_seasons :: "seasons_config \<Rightarrow> seasons_config" where
  "clamp_seasons c = c\<lparr>current_season := max 1 (min 200 (current_season c))\<rparr>"

definition clamp_rifts :: "rifts_config \<Rightarrow> rifts_config" where
  "clamp_rifts c =
     (let a = min 999 (range_start c); b = min 999 (range_end c) in
      c\<lparr>range_start := min a b, range_end := max a b\<rparr>)"

definition clamp_cheats :: "cheats_config \<Rightarrow> cheats_config" where
  "clamp_cheats c =
     c\<lparr>move_speed := clamp (Round1Decimal (move_speed c)) tenth (Fin 10),
       attack_speed := clamp (Round1Decimal (attack_speed c)) tenth (Fin 10)\<rparr>"

definition clamp_loot :: "loot_config \<Rightarrow> loot_config" where
  "clamp_loot c =
     (let value = AncientRankToValue (AncientRankCanonical (AncientRankValue c) (AncientRank c)) 2 in
      c\<lparr>ForcedILevel := word_of_int (max 0 (min 70 (sint (ForcedILevel c)))),
        TieredLootRunLevel := word_of_int (max 0 (min 150 (sint (TieredLootRunLevel c)))),
        AncientRank := AncientRankCanonical value [],
        AncientRankValue := value\<rparr>)"

definition clamp_config :: "u32 option \<Rightarrow> PatchConfig \<Rightarrow> PatchConfig" where
  "clamp_config dev c =
     ApplySeasonEventMapIfNeeded
       (c\<lparr>initialized := True, defaults_only := False,
          seasons := clamp_seasons (seasons c),
          challenge_rifts := clamp_rifts (challenge_rifts c),
          rare_cheats := clamp_cheats (rare_cheats c),
          resolution_hack := clamp_resolution dev (resolution_hack c),
          loot_modifiers := clamp_loot (loot_modifiers c)\<rparr>)"

section \<open>Sections without schema entries\<close>

lemma ReadNumber_here:
  assumes "toml_laws T" "t_get T t k = Some (of_s64 T i)" "\<bar>sint i\<bar> < 2 ^ 53"
  shows "ReadNumber T t (k # ks) = Some (Fin (of_int (sint i)))"
  using toml_integer[OF assms(1), of i] assms(2) to_f64_of_int[OF assms(3)] toml_simps(7)[OF assms(1)]
  by auto

lemma clamp_of_int:
  assumes "lo \<le> hi"
  shows "clamp (Fin (of_int m)) (Fin (of_int lo)) (Fin (of_int hi)) = Fin (of_int (max lo (min hi m)))"
  using assms by (simp add: clamp_def max_def min_def)

lemma clamp_of_nat:
  assumes "lo \<le> hi"
  shows "clamp (Fin (of_nat n)) (Fin (of_nat lo)) (Fin (of_nat hi)) = Fin (of_nat (max lo (min hi n)))"
  using assms by (simp add: clamp_def max_def min_def)

lemma sint_s32_small: "\<bar>sint (v :: s32)\<bar> < 2 ^ 53"
proof -
  have "- (2 ^ 31) \<le> sint v" "sint v < 2 ^ 31" using sint_ge[of v] sint_lt[of v] by simp_all
  then show ?thesis by simp
qed

lemma uint_u32_small: "\<bar>uint (v :: u32)\<bar> < 2 ^ 53"
proof -
  have "uint v < 2 ^ 32" using uint_lt2p[of v] by simp
  moreover have "0 \<le> uint v" by simp
  ultimately show ?thesis by (simp only: abs_of_nonneg) (rule less_trans, assumption, simp)
qed

lemma ReadI32_here:
  assumes "toml_laws T" "t_get T t k = Some (of_s64 T (scast (v :: s32)))" "- (2 ^ 31) \<le> lo" "lo \<le> hi" "hi < 2 ^ 31"
  shows "ReadI32 T t (k # ks) fallback lo hi = word_of_int (max lo (min hi (sint v)))"
proof -
  have n: "ReadNumber T t (k # ks) = Some (Fin (of_int (sint v)))"
    by (rule ReadNumber_here[OF assms(1,2), unfolded sint_scast_s32, OF sint_s32_small])
  show ?thesis unfolding ReadI32_def n option.case clamp_of_int[OF assms(4)]
    using assms(3-5) by (intro fp_to_s32_int) simp_all
qed

lemma ReadU32_here:
  assumes "toml_laws T" "t_get T t k = Some (of_s64 T (ucast (v :: u32)))" "lo \<le> hi" "hi < 2 ^ 32"
  shows "ReadU32 T t (k # ks) fallback lo hi = of_nat (max lo (min hi (unat v)))"
proof -
  have "ReadNumber T t (k # ks) = Some (Fin (of_int (uint v)))"
    by (rule ReadNumber_here[OF assms(1,2), unfolded sint_ucast_u32, OF uint_u32_small])
  then have n: "ReadNumber T t (k # ks) = Some (Fin (of_int (int (unat v))))" by simp
  have c: "clamp (Fin (of_int (int (unat v)))) (Fin (of_nat lo)) (Fin (of_nat hi))
    = Fin (of_nat (max lo (min hi (unat v))))"
    using clamp_of_nat[OF assms(3), of "unat v"] by simp
  show ?thesis unfolding ReadU32_def n option.case c
    using assms(3,4) by (intro fp_to_u32_nat) (simp add: min_less_iff_disj)
qed

lemma ReadBool_here:
  assumes "toml_laws T" "t_get T t k = Some (of_bool T b)"
  shows "ReadBool T t (k # ks) fallback = b"
  using assms by (simp add: ReadBool_def toml_simps)

lemma ReadDouble_here:
  assumes "toml_laws T" "t_get T t k = Some (of_double T d)"
  shows "ReadDouble T t (k # ks) fallback lo hi = clamp d lo hi"
  using assms by (simp add: ReadDouble_def toml_simps)

lemma ReadString_here:
  assumes "toml_laws T" "t_get T t k = Some (of_string T s)"
  shows "ReadString T t (k # ks) fallback = s"
  using assms by (simp add: ReadString_def toml_simps)

lemma word_max_min_nat:
  fixes v :: u32
  assumes "lo \<le> hi" "hi < 2 ^ 32"
  shows "(of_nat (max lo (min hi (unat v))) :: u32) = max (of_nat lo) (min (of_nat hi) v)"
proof -
  have "unat (of_nat lo :: u32) = lo" "unat (of_nat hi :: u32) = hi"
    using assms by (simp_all add: unsigned_of_nat take_bit_nat_eq_self)
  then show ?thesis by (auto simp: max_def min_def word_le_nat_alt)
qed

lemma apply_seasons_built:
  assumes "toml_laws T" "t_get T t = map_of (seasons_rows T c)"
  shows "apply_seasons T t d = clamp_seasons c"
  using word_max_min_nat[of 1 200 "current_season c"] assms
  by (simp add: apply_seasons_def clamp_seasons_def seasons_rows_def section_enabled_keys_def
      ReadBool_here[OF assms(1)] ReadU32_here[OF assms(1)])

lemma apply_rifts_built:
  assumes "toml_laws T" "t_get T t = map_of (rifts_rows T c)"
  shows "apply_rifts T t d = clamp_rifts c"
  using word_max_min_nat[of 0 999 "range_start c"] word_max_min_nat[of 0 999 "range_end c"] assms
  by (auto simp: apply_rifts_def clamp_rifts_def rifts_rows_def section_enabled_keys_def Let_def
      ReadBool_here[OF assms(1)] ReadU32_here[OF assms(1)] min_def max_def)

lemma apply_cheats_built:
  assumes "toml_laws T" "t_get T t = map_of (cheats_rows T c)"
  shows "apply_cheats T t d = clamp_cheats c"
  using assms
  by (simp add: apply_cheats_def clamp_cheats_def cheats_rows_def
      ReadBool_here[OF assms(1)] ReadDouble_here[OF assms(1)])

lemma apply_extra_built:
  assumes "toml_laws T" "t_get T t = map_of (extra_rows T c)"
  shows "apply_extra T t d = clamp_extra c"
  using assms
  by (simp add: apply_extra_def clamp_extra_def extra_rows_def ReadI32_here[OF assms(1)]
      kUnset_def kMaxDimension_def kMaxRefreshRate_def kMaxBitDepth_def kMaxMsaaLevel_def Let_def)

lemma AncientRankToValue_cases: "AncientRankToValue s 2 \<in> {0, 1, 2}"
  by (simp add: AncientRankToValue_def Let_def)

lemma apply_loot_built:
  assumes "toml_laws T" "t_get T t = map_of (loot_rows T c)" "AncientRankValue d = 2"
  shows "apply_loot T t d = clamp_loot c"
proof -
  have "AncientRankCanonical v r = AncientRankCanonical v []" if "v \<in> {0, 1, 2}" for v r
    using that by (auto simp: AncientRankCanonical_def)
  from this[OF AncientRankToValue_cases] show ?thesis
    using assms
    by (simp add: apply_loot_def clamp_loot_def loot_rows_def section_enabled_keys_def Let_def
        ReadBool_here[OF assms(1)] ReadI32_here[OF assms(1)] ReadString_here[OF assms(1)])
qed

lemma flag_row_get:
  "map_of (map (\<lambda>(f, name, _, _, _). (name, of_bool T (ev_flags c f))) D3HACK_SEASON_EVENT_FLAGS)
     (fst (flag_row f)) = Some (of_bool T (ev_flags c f))
   \<and> fst (flag_row f) \<noteq> ''SectionEnabled'' \<and> fst (flag_row f) \<noteq> ''SeasonMapMode''"
  by (cases f) (simp_all add: flag_row_def D3HACK_SEASON_EVENT_FLAGS_def)

lemma normalized_modes:
  "NormalizeKey ''MapOnly'' = ''maponly''"
  "NormalizeKey ''OverlayConfig'' = ''overlayconfig''"
  "NormalizeKey ''Disabled'' = ''disabled''"
  by code_simp+

lemma apply_events_built:
  assumes "toml_laws T" "t_get T t = map_of (events_rows T c)"
  shows "apply_events T t d = c"
proof -
  have get: "t_get T t (fst (flag_row f)) = Some (of_bool T (ev_flags c f))" for f
    using flag_row_get[of T c f] assms(2) by (simp add: events_rows_def)
  have flags: "ev_flags (apply_events T t d) = ev_flags c"
  proof
    fix f
    show "ev_flags (apply_events T t d) f = ev_flags c f"
      using get[of f] by (cases "flag_row f")
        (simp add: apply_events_def ReadSeasonEventFlagBool_def ReadBool_here[OF assms(1)])
  qed
  have mode: "SeasonMapMode (apply_events T t d) = SeasonMapMode c"
  proof -
    have "t_get T t ''SeasonMapMode'' = Some (of_string T (SeasonMapModeToString (SeasonMapMode c)))"
      using assms(2) by (simp add: events_rows_def)
    then have "SeasonMapMode (apply_events T t d) =
        ParseSeasonEventMapMode (SeasonMapModeToString (SeasonMapMode c)) (SeasonMapMode d)"
      by (simp add: apply_events_def ReadSeasonEventMapMode_def toml_simps[OF assms(1)])
    also have "\<dots> = SeasonMapMode c"
      by (cases "SeasonMapMode c")
        (simp_all add: SeasonMapModeToString_def ParseSeasonEventMapMode_def normalized_modes Let_def)
    finally show ?thesis .
  qed
  have "ev_active (apply_events T t d) = ev_active c"
    using assms(2) by (simp add: apply_events_def events_rows_def section_enabled_keys_def ReadBool_here[OF assms(1)])
  then show ?thesis using flags mode by simp
qed

section \<open>Schema entries\<close>

text \<open>What reading back its own value does to an entry's setting.\<close>

definition transfer :: "PatchConfig \<Rightarrow> Entry \<Rightarrow> PatchConfig \<Rightarrow> PatchConfig" where
  "transfer config e c =
     (case e_kind e of
        BoolKind \<Rightarrow> the (e_set_bool e) c (the (e_get_bool e) config)
      | U32Kind \<Rightarrow>
          (case clamped_u32 e (Fin (of_nat (unat (the (e_get_u32 e) config)))) of
             Some w \<Rightarrow> the (e_set_u32 e) c w | None \<Rightarrow> c)
      | FloatKind \<Rightarrow>
          (case clamped_float e (the (e_get_float e) config) of
             Some w \<Rightarrow> the (e_set_float e) c w | None \<Rightarrow> c)
      | StringKind \<Rightarrow>
          (if e_omit_if_empty e \<and> the (e_get_string e) config = [] then c
           else the (e_set_string e) c (the (e_get_string e) config)))"

lemma entry_lookup_all:
  "(\<And>e. e \<in> set es \<Longrightarrow> e_section e = s \<Longrightarrow> e_key e = k \<Longrightarrow> entry_node T config e = N) \<Longrightarrow>
     entry_lookup T config es s k =
       (if \<exists>e \<in> set es. e_section e = s \<and> e_key e = k then N else None)"
  by (induction es) auto

lemma entry_unique:
  assumes "e \<in> set (k_entries dev)" "e' \<in> set (k_entries dev)"
    "e_section e' = e_section e" "e_key e' \<in> set (e_keys e)"
  shows "e' = e"
proof -
  have "e_key e' = e_key e"
  proof -
    have "keys_unambiguous dev e" using keys_unambiguous_entries[of dev] assms(1) by (simp add: list_all_iff)
    then have "\<forall>e' \<in> set (k_entries dev).
        e_section e' = e_section e \<and> e_key e' \<in> set (e_keys e) \<longrightarrow> e_key e' = e_key e"
      unfolding keys_unambiguous_def list_all_iff Entries_def by blast
    then show ?thesis using assms by blast
  qed
  moreover have "FindEntry dev (e_section e) (e_key e) = Some e"
    "FindEntry dev (e_section e') (e_key e') = Some e'"
    using FindEntry_entries[of dev] assms(1,2) by (simp_all add: list_all_iff)
  ultimately show ?thesis using assms(3) by simp
qed

text \<open>The aliases of an entry in a document the schema wrote: only the canonical key is there.\<close>

lemma entry_lookup_alias:
  assumes "e \<in> set (k_entries dev)" "k \<in> set (e_keys e)"
  shows "entry_lookup T config (k_entries dev) (e_section e) k =
    (if k = e_key e then entry_node T config e else None)"
proof -
  have u: "e' = e" if "e' \<in> set (k_entries dev)" "e_section e' = e_section e" "e_key e' = k" for e'
    using entry_unique[OF assms(1) that(1,2)] that(3) assms(2) by simp
  have "entry_lookup T config (k_entries dev) (e_section e) k =
    (if \<exists>e' \<in> set (k_entries dev). e_section e' = e_section e \<and> e_key e' = k
     then entry_node T config e else None)"
    by (rule entry_lookup_all) (drule (2) u, simp)
  moreover have "(\<exists>e' \<in> set (k_entries dev). e_section e' = e_section e \<and> e_key e' = k) \<longleftrightarrow> k = e_key e"
    using u assms(1) by blast
  ultimately show ?thesis by (simp only:)
qed

lemma apply_entry_built:
  assumes laws: "toml_laws T" and e: "e \<in> set (k_entries dev)"
    and t: "FindSection T doc (e_section e) = Some t"
    and get: "\<And>k. k \<in> set (e_keys e) \<Longrightarrow>
      t_get T t k = (if k = e_key e then entry_node T config e else None)"
  shows "apply_entry T doc e c = transfer config e c"
proof -
  have key: "e_key e \<in> set (e_keys e)"
    using keys_unambiguous_entries[of dev] e by (simp add: list_all_iff keys_unambiguous_def)
  have acc: "has_accessors e"
    using has_accessors_entries[of dev] e by (simp add: list_all_iff)
  show ?thesis
  proof (cases "e_kind e")
    case BoolKind
    then obtain g s where gs: "e_get_bool e = Some g" "e_set_bool e = Some s" using acc by (auto simp: has_accessors_def)
    have "t_get T t (e_key e) = Some (of_bool T (g config))"
      using get[OF key] gs BoolKind by (simp add: entry_node_def)
    then have "ReadValue T (n_bool T) t (e_keys e) = Some (g config)"
      using ReadValue_first[OF _ _ key, of T t "of_bool T (g config)" "n_bool T"] get by (simp add: toml_simps[OF laws])
    then show ?thesis using t gs BoolKind by (simp add: apply_entry_def apply_bool_def transfer_def)
  next
    case U32Kind
    then obtain g s where gs: "e_get_u32 e = Some g" "e_set_u32 e = Some s" using acc by (auto simp: has_accessors_def)
    have k: "t_get T t (e_key e) = Some (of_s64 T (ucast (g config)))"
      using get[OF key] gs U32Kind by (simp add: entry_node_def)
    have "ReadNumber T t (e_keys e) = Some (Fin (of_int (sint (ucast (g config) :: s64))))"
      using get k key uint_u32_small[of "g config"]
      by (intro ReadNumber_integer[OF laws, of _ "e_key e"]) (simp_all only: sint_ucast_u32 if_False)
    then have "ReadNumber T t (e_keys e) = Some (Fin (of_nat (unat (g config))))"
      by (simp only: sint_ucast_u32) simp
    then show ?thesis using t gs U32Kind by (simp add: apply_entry_def apply_u32_def transfer_def split: option.split)
  next
    case FloatKind
    then obtain g s where gs: "e_get_float e = Some g" "e_set_float e = Some s" using acc by (auto simp: has_accessors_def)
    have k: "t_get T t (e_key e) = Some (of_double T (g config))"
      using get[OF key] gs FloatKind by (simp add: entry_node_def)
    have "ReadNumber T t (e_keys e) = Some (g config)"
      using get k key
      by (intro ReadNumber_first[of _ "e_key e" _ _ "of_double T (g config)"]) (simp_all add: toml_simps[OF laws])
    then show ?thesis using t gs FloatKind by (simp add: apply_entry_def apply_float_def transfer_def split: option.split)
  next
    case StringKind
    then obtain g s where gs: "e_get_string e = Some g" "e_set_string e = Some s" using acc by (auto simp: has_accessors_def)
    show ?thesis
    proof (cases "e_omit_if_empty e \<and> g config = []")
      case True
      then have "ReadValue T (n_string T) t (e_keys e) = None"
        using get gs StringKind by (intro ReadValue_absent) (simp add: entry_node_def)
      then show ?thesis using True t gs StringKind by (simp add: apply_entry_def apply_string_def transfer_def)
    next
      case False
      then have "t_get T t (e_key e) = Some (of_string T (g config))"
        using get[OF key] gs StringKind by (simp add: entry_node_def)
      then have "ReadValue T (n_string T) t (e_keys e) = Some (g config)"
        using ReadValue_first[OF _ _ key, of T t "of_string T (g config)" "n_string T"] get by (simp add: toml_simps[OF laws])
      then show ?thesis using False t gs StringKind by (auto simp add: apply_entry_def apply_string_def transfer_def)
    qed
  qed
qed

lemmas accessor_defs =
  GetOverlaysActive_def SetOverlaysActive_def GetOverlaysBuildLocker_def SetOverlaysBuildLocker_def
  GetOverlaysDdm_def SetOverlaysDdm_def GetOverlaysFps_def SetOverlaysFps_def GetOverlaysVarRes_def
  SetOverlaysVarRes_def GetGuiEnabled_def SetGuiEnabled_def GetGuiVisible_def SetGuiVisible_def
  GetGuiLeftStickPass_def SetGuiLeftStickPass_def GetGuiLanguage_def SetGuiLanguage_def
  GetDebugActive_def SetDebugActive_def GetDebugEnableCrashes_def SetDebugEnableCrashes_def
  GetDebugPubfileDump_def SetDebugPubfileDump_def GetDebugErrorTraces_def SetDebugErrorTraces_def
  GetDebugDebugFlags_def SetDebugDebugFlags_def GetDebugTagNx_def SetDebugTagNx_def
  GetDebugExceptionHandler_def SetDebugExceptionHandler_def GetDebugOeNotificationHook_def
  SetDebugOeNotificationHook_def GetDebugLogOeNotifications_def SetDebugLogOeNotifications_def
  GetReshackActive_def SetReshackActive_def GetReshackSpoofDocked_def SetReshackSpoofDocked_def
  GetReshackExpScheduler_def SetReshackExpScheduler_def GetReshackOutputTarget_def
  GetReshackOutputHandheldScale_def GetReshackMinResScale_def GetReshackMaxResScale_def
  GetReshackClampTextureResolution_def

text \<open>The members of C++ type \<open>float\<close> hold values of that type.\<close>

definition float_fields :: "ResolutionHackConfig \<Rightarrow> bool" where
  "float_fields c =
     (f64_to_f32 (min_res_scale c) = min_res_scale c
    \<and> f64_to_f32 (max_res_scale c) = max_res_scale c
    \<and> f64_to_f32 (output_handheld_scale c) = output_handheld_scale c)"

lemma clamped_u32_bounds:
  assumes "e_min_u e < e_max_u e"
  shows "clamped_u32 e (Fin (of_nat (unat v))) = Some (max (e_min_u e) (min (e_max_u e) v))"
proof -
  define lo where "lo = unat (e_min_u e)"
  define hi where "hi = unat (e_max_u e)"
  have b: "lo \<le> hi" "hi < 2 ^ 32"
    using assms unsigned_less[of "e_max_u e", where 'a = nat] by (simp_all add: lo_def hi_def word_less_nat_alt)
  define m where "m = max lo (min hi (unat v))"
  have m: "m < 2 ^ 32" using b by (auto simp: m_def max_def min_def)
  have c: "clamp (Fin (of_nat (unat v))) (Fin (of_nat lo)) (Fin (of_nat hi)) = Fin (of_nat m)"
    unfolding m_def by (rule clamp_of_nat[OF b(1)])
  have "(of_nat m :: rat) \<le> of_nat (2 ^ 32 - 1)" using m by (simp only: of_nat_le_iff)
  then have "(of_nat m :: rat) \<le> 2 ^ 32 - 1" by simp
  moreover have "of_nat m = max (e_min_u e) (min (e_max_u e) v)"
    using word_max_min_nat[OF b, of v] by (simp add: m_def lo_def hi_def)
  ultimately show ?thesis
    using assms fp_to_u32_nat[OF m] c by (simp add: clamped_u32_def isfinite_def flip: lo_def hi_def)
qed

lemma f64_to_f32_exact [simp]:
  "f64_to_f32 (Fin 0) = Fin 0" "f64_to_f32 (Fin 10) = Fin 10" "f64_to_f32 (Fin 100) = Fin 100"
  using to_f32_of_nat[of 0] to_f32_of_nat[of 10] to_f32_of_nat[of 100] by simp_all

lemma clamped_float_bounds:
  assumes "e_min_f e < e_max_f e" "f64_to_f32 v = v"
    "f64_to_f32 (Fin (e_min_f e)) = Fin (e_min_f e)" "f64_to_f32 (Fin (e_max_f e)) = Fin (e_max_f e)"
  shows "clamped_float e v =
    (if v = NaN then None else Some (clamp v (Fin (e_min_f e)) (Fin (e_max_f e))))"
  using assms by (cases v) (auto simp: clamped_float_def clamp_def isfinite_def)

lemma transfer_bool:
  "e_kind e = BoolKind \<Longrightarrow> transfer config e c = the (e_set_bool e) c (the (e_get_bool e) config)"
  by (simp add: transfer_def)

lemma transfer_u32:
  "e_kind e = U32Kind \<Longrightarrow> e_min_u e < e_max_u e \<Longrightarrow>
     transfer config e c =
       the (e_set_u32 e) c (max (e_min_u e) (min (e_max_u e) (the (e_get_u32 e) config)))"
  unfolding transfer_def clamped_u32_bounds by simp

lemma transfer_float:
  assumes "e_kind e = FloatKind" "e_min_f e < e_max_f e"
    "f64_to_f32 (the (e_get_float e) config) = the (e_get_float e) config"
    "f64_to_f32 (Fin (e_min_f e)) = Fin (e_min_f e)" "f64_to_f32 (Fin (e_max_f e)) = Fin (e_max_f e)"
  shows "transfer config e c =
    (if the (e_get_float e) config = NaN then c
     else the (e_set_float e) c (clamp (the (e_get_float e) config) (Fin (e_min_f e)) (Fin (e_max_f e))))"
  using assms by (simp add: transfer_def clamped_float_bounds)

lemma transfer_string:
  "e_kind e = StringKind \<Longrightarrow>
     transfer config e c =
       (if e_omit_if_empty e \<and> the (e_get_string e) config = [] then c
        else the (e_set_string e) c (the (e_get_string e) config))"
  by (simp add: transfer_def)

lemma clamp_again:
  "v \<noteq> NaN \<Longrightarrow> lo \<le> hi \<Longrightarrow>
     clamp (clamp v (Fin lo) (Fin hi)) (Fin lo) (Fin hi) = clamp v (Fin lo) (Fin hi)"
  by (cases v) (auto simp: clamp_def)

lemma clamp_not_NaN: "v \<noteq> NaN \<Longrightarrow> clamp v (Fin lo) (Fin hi) \<noteq> NaN"
  by (cases v) (auto simp: clamp_def)

lemma clamp_not_above: "lo \<le> hi \<Longrightarrow> \<not> fp_less (Fin hi) (clamp v (Fin lo) (Fin hi))"
  by (cases v) (auto simp: clamp_def)

lemma scale_or_not_above: "10 \<le> d \<Longrightarrow> d \<le> 100 \<Longrightarrow> \<not> fp_less (Fin 100) (scale_or d v)"
  by (simp add: scale_or_def clamp_not_above)

text \<open>The two scale setters in a row, from the default limits.\<close>

lemma scales_built:
  assumes "resolution_hack c = r\<lparr>min_res_scale := Fin 85, max_res_scale := Fin 100\<rparr>"
  shows "(let c1 = (if lo = NaN then c else SetReshackMinResScale c (clamp lo (Fin 10) (Fin 100)))
          in if hi = NaN then c1 else SetReshackMaxResScale c1 (clamp hi (Fin 10) (Fin 100)))
    = c\<lparr>resolution_hack := r\<lparr>
        min_res_scale := (if fp_less (scale_or 100 hi) (scale_or 85 lo) then scale_or 100 hi else scale_or 85 lo),
        max_res_scale := scale_or 100 hi\<rparr>\<rparr>"
  using assms clamp_not_above[of 10 100 lo]
  by (auto simp: SetReshackMinResScale_def SetReshackMaxResScale_def scale_or_def clamp_again Let_def)

definition general_entries :: "Entry list" where
  "general_entries = take 18 (k_entries None)"

lemma k_entries_split:
  "k_entries dev = general_entries @
     [Entry_resolution_hack_SectionEnabled, Entry_resolution_hack_OutputTarget dev,
      Entry_resolution_hack_OutputHandheldScale, Entry_resolution_hack_MinResScale,
      Entry_resolution_hack_MaxResScale, Entry_resolution_hack_ClampTextureResolution,
      Entry_resolution_hack_SpoofDocked, Entry_resolution_hack_ExperimentalScheduler]"
  by (simp add: general_entries_def k_entries_def)

lemma general_transfer:
  "fold (transfer config) general_entries default_PatchConfig =
     default_PatchConfig\<lparr>overlays := overlays config, gui := gui config, debug := debug config\<rparr>"
  by (cases "overlays config"; cases "gui config"; cases "debug config")
    (simp add: general_entries_def k_entries_def entry_field transfer_bool transfer_string accessor_defs
      default_PatchConfig_def default_gui_def)

lemma schema_transfer:
  assumes "float_fields (resolution_hack config)"
  shows "fold (transfer config) (k_entries dev) default_PatchConfig =
     default_PatchConfig\<lparr>overlays := overlays config, gui := gui config, debug := debug config,
       resolution_hack := (clamp_resolution dev (resolution_hack config))\<lparr>rh_extra := default_extra\<rparr>\<rparr>"
proof -
  define g where "g = default_PatchConfig\<lparr>overlays := overlays config, gui := gui config, debug := debug config\<rparr>"
  define r where "r = resolution_hack config"
  define t where "t = min (max 720 (min 2160 (target_resolution r))) (MaxResolutionHackOutputTarget dev)"
  define h where "h = handheld_or_default (output_handheld_scale r)"
  define c1 where "c1 = g\<lparr>resolution_hack := default_resolution_hack\<lparr>rh_active := rh_active r,
    target_resolution := t, output_handheld_scale := h\<rparr>\<rparr>"
  have f: "f64_to_f32 (min_res_scale r) = min_res_scale r" "f64_to_f32 (max_res_scale r) = max_res_scale r"
    "f64_to_f32 (output_handheld_scale r) = output_handheld_scale r"
    using assms by (simp_all add: float_fields_def r_def)
  have th: "transfer config Entry_resolution_hack_OutputHandheldScale c =
      (if output_handheld_scale r = NaN then c
       else SetReshackOutputHandheldScale c (clamp (output_handheld_scale r) (Fin 0) (Fin 100)))" for c
    using f(3) f64_to_f32_exact transfer_float[of Entry_resolution_hack_OutputHandheldScale config c]
    by (simp add: entry_field accessor_defs flip: r_def)
  have s1: "transfer config Entry_resolution_hack_OutputHandheldScale
      (transfer config (Entry_resolution_hack_OutputTarget dev)
        (transfer config Entry_resolution_hack_SectionEnabled g)) = c1"
    by (simp add: th transfer_bool transfer_u32 entry_field accessor_defs
        SetReshackOutputTarget_def SetReshackOutputHandheldScale_def SetTargetRes_def
        c1_def g_def default_PatchConfig_def default_resolution_hack_def t_def h_def
        handheld_or_default_def Let_def flip: r_def)
  define c2 where "c2 = c1\<lparr>resolution_hack := (resolution_hack c1)\<lparr>
        min_res_scale := (if fp_less (scale_or 100 (max_res_scale r)) (scale_or 85 (min_res_scale r))
                          then scale_or 100 (max_res_scale r) else scale_or 85 (min_res_scale r)),
        max_res_scale := scale_or 100 (max_res_scale r)\<rparr>\<rparr>"
  have tmin: "transfer config Entry_resolution_hack_MinResScale c =
      (if min_res_scale r = NaN then c
       else SetReshackMinResScale c (clamp (min_res_scale r) (Fin 10) (Fin 100)))" for c
    using f(1) f64_to_f32_exact transfer_float[of Entry_resolution_hack_MinResScale config c]
    by (simp add: entry_field accessor_defs flip: r_def)
  have tmax: "transfer config Entry_resolution_hack_MaxResScale c =
      (if max_res_scale r = NaN then c
       else SetReshackMaxResScale c (clamp (max_res_scale r) (Fin 10) (Fin 100)))" for c
    using f(2) f64_to_f32_exact transfer_float[of Entry_resolution_hack_MaxResScale config c]
    by (simp add: entry_field accessor_defs flip: r_def)
  have "resolution_hack c1 = (resolution_hack c1)\<lparr>min_res_scale := Fin 85, max_res_scale := Fin 100\<rparr>"
    by (simp add: c1_def default_resolution_hack_def)
  from scales_built[OF this, of "min_res_scale r" "max_res_scale r"]
  have s2: "transfer config Entry_resolution_hack_MaxResScale
      (transfer config Entry_resolution_hack_MinResScale c1) = c2"
    unfolding tmin tmax c2_def by (simp only: Let_def)
  have zero: "min 9999 x = 0 \<longleftrightarrow> x = 0" for x :: u32
    by (auto simp: min_def)
  have s3: "transfer config Entry_resolution_hack_ExperimentalScheduler
      (transfer config Entry_resolution_hack_SpoofDocked
        (transfer config Entry_resolution_hack_ClampTextureResolution c2)) =
    g\<lparr>resolution_hack := (clamp_resolution dev r)\<lparr>rh_extra := default_extra\<rparr>\<rparr>"
    by (simp add: zero transfer_bool transfer_u32 entry_field accessor_defs SetReshackClampTextureResolution_def
        kClampTextureResolutionMin_def kClampTextureResolutionMax_def
        c2_def c1_def default_resolution_hack_def clamp_resolution_def t_def h_def Let_def flip: r_def)
  have "fold (transfer config) (k_entries dev) default_PatchConfig =
      g\<lparr>resolution_hack := (clamp_resolution dev r)\<lparr>rh_extra := default_extra\<rparr>\<rparr>"
    unfolding k_entries_split fold_append comp_apply general_transfer g_def[symmetric]
    by (simp only: fold_simps s1 s2 s3)
  then show ?thesis by (simp add: g_def r_def)
qed

section \<open>The document\<close>

lemma schema_sections: "e_section ` set (k_entries dev) = {''overlays'', ''gui'', ''debug'', ''resolution_hack''}"
  by (auto simp: k_entries_def entry_field)

lemma base_table:
  assumes "toml_laws T"
  shows "tables_only T (insert_all T (section_rows T config) (t_empty T))"
    and "t_get T (insert_all T (section_rows T config) (t_empty T)) = map_of (section_rows T config)"
proof -
  show g: "t_get T (insert_all T (section_rows T config) (t_empty T)) = map_of (section_rows T config)"
    by (rule get_tab[OF assms(1)])
  show "tables_only T (insert_all T (section_rows T config) (t_empty T))"
    unfolding tables_only_def FindSection_def g
    by (simp add: section_rows_def toml_simps[OF assms(1)] Let_def)
qed

text \<open>The contents of the document built from a configuration.\<close>

lemma build_ok:
  fixes T :: "('t, 'n) toml"
  assumes laws: "toml_laws T"
  shows "\<exists>doc. BuildPatchConfigTable T dev config = Some doc
    \<and> (\<forall>s. s \<notin> {''overlays'', ''gui'', ''debug'', ''resolution_hack''} \<longrightarrow>
         t_get T doc s = map_of (section_rows T config) s)
    \<and> (\<forall>e \<in> set (k_entries dev). \<exists>t. FindSection T doc (e_section e) = Some t
         \<and> (\<forall>k \<in> set (e_keys e).
              t_get T t k = (if k = e_key e then entry_node T config e else None)))
    \<and> (\<exists>t. FindSection T doc ''resolution_hack'' = Some t
         \<and> t_get T t ''extra'' =
             Some (of_table T (insert_all T (extra_rows T (rh_extra (resolution_hack config))) (t_empty T))))"
proof -
  define base where "base = insert_all T (section_rows T config) (t_empty T)"
  note base = base_table[OF laws, of config, folded base_def]
  obtain doc where doc: "insert_entries T config (k_entries dev) base = Some doc"
    and other: "\<forall>s. s \<notin> e_section ` set (k_entries dev) \<longrightarrow> t_get T doc s = t_get T base s"
    and sects: "\<forall>s. FindSection T base s \<noteq> None \<or> s \<in> e_section ` set (k_entries dev) \<longrightarrow> FindSection T doc s \<noteq> None"
    and keys: "\<forall>s k. tab_get T doc s k =
           (case tab_get T base s k of Some n \<Rightarrow> Some n | None \<Rightarrow> entry_lookup T config (k_entries dev) s k)"
    using insert_entries_ok[OF laws base(1), of config "k_entries dev"] by blast
  have rh: "FindSection T base ''resolution_hack'' =
      Some (insert_all T [(''extra'', of_table T (insert_all T (extra_rows T (rh_extra (resolution_hack config))) (t_empty T)))] (t_empty T))"
    unfolding FindSection_def base(2) by (simp add: section_rows_def toml_simps[OF laws] Let_def)
  have extra: "tab_get T base ''resolution_hack'' k =
      (if k = ''extra'' then Some (of_table T (insert_all T (extra_rows T (rh_extra (resolution_hack config))) (t_empty T)))
       else None)" for k
    unfolding tab_get_def rh by (simp add: get_tab[OF laws])
  have nosect: "tab_get T base s k = None" if "s \<in> {''overlays'', ''gui'', ''debug''}" for s k
    using that unfolding tab_get_def FindSection_def base(2)
    by (elim insertE) (simp_all add: section_rows_def Let_def)
  have noextra: "list_all (\<lambda>e. ''extra'' \<notin> set (e_keys e)) (k_entries dev)"
    by (simp add: k_entries_def entry_field key_list_defs)
  have entry: "\<exists>t. FindSection T doc (e_section e) = Some t
         \<and> (\<forall>k \<in> set (e_keys e). t_get T t k = (if k = e_key e then entry_node T config e else None))"
    if e: "e \<in> set (k_entries dev)" for e
  proof -
    obtain t where t: "FindSection T doc (e_section e) = Some t" using sects e by blast
    have "t_get T t k = (if k = e_key e then entry_node T config e else None)" if k: "k \<in> set (e_keys e)" for k
    proof -
      have "e_section e \<in> e_section ` set (k_entries dev)" using e by (rule imageI)
      then have "e_section e \<in> {''overlays'', ''gui'', ''debug''} \<or> e_section e = ''resolution_hack''"
        unfolding schema_sections by (simp only: insert_iff empty_iff) argo
      moreover have k': "k \<noteq> ''extra''" using noextra e k by (auto simp: list_all_iff)
      ultimately have "tab_get T base (e_section e) k = None"
      proof (elim disjE)
        assume h: "e_section e = ''resolution_hack''"
        show ?thesis unfolding h extra using k' by (simp only: if_False)
      qed (rule nosect)
      then have "tab_get T doc (e_section e) k = entry_lookup T config (k_entries dev) (e_section e) k"
        using keys by simp
      then have "t_get T t k = entry_lookup T config (k_entries dev) (e_section e) k"
        using t by (simp add: tab_get_def)
      then show ?thesis unfolding entry_lookup_alias[OF e k] .
    qed
    then show ?thesis using t by blast
  qed
  have "\<exists>t. FindSection T doc ''resolution_hack'' = Some t \<and> t_get T t ''extra'' =
      Some (of_table T (insert_all T (extra_rows T (rh_extra (resolution_hack config))) (t_empty T)))"
  proof -
    obtain t where t: "FindSection T doc ''resolution_hack'' = Some t" using sects rh by force
    have "tab_get T doc ''resolution_hack'' ''extra'' =
      Some (of_table T (insert_all T (extra_rows T (rh_extra (resolution_hack config))) (t_empty T)))"
      using keys extra by simp
    then show ?thesis using t by (simp add: tab_get_def)
  qed
  then show ?thesis
    using doc entry other base(2) schema_sections[of dev]
    unfolding BuildPatchConfigTable_def InsertIntoToml_def base_def by (intro exI[of _ doc]) simp
qed

lemma apply_schema_built:
  assumes "toml_laws T" "float_fields (resolution_hack config)"
    and "\<forall>e \<in> set (k_entries dev). \<exists>t. FindSection T doc (e_section e) = Some t
         \<and> (\<forall>k \<in> set (e_keys e).
              t_get T t k = (if k = e_key e then entry_node T config e else None))"
  shows "ApplyTomlTable T dev default_PatchConfig doc =
    default_PatchConfig\<lparr>overlays := overlays config, gui := gui config, debug := debug config,
       resolution_hack := (clamp_resolution dev (resolution_hack config))\<lparr>rh_extra := default_extra\<rparr>\<rparr>"
proof -
  have "fold (apply_entry T doc) (k_entries dev) default_PatchConfig =
      fold (transfer config) (k_entries dev) default_PatchConfig"
  proof (rule fold_cong[OF refl refl])
    fix e
    assume e: "e \<in> set (k_entries dev)"
    then obtain t where "FindSection T doc (e_section e) = Some t"
      "\<And>k. k \<in> set (e_keys e) \<Longrightarrow> t_get T t k = (if k = e_key e then entry_node T config e else None)"
      using assms(3) by blast
    then show "apply_entry T doc e = transfer config e"
      by (intro ext apply_entry_built[OF assms(1) e])
  qed
  then show ?thesis unfolding ApplyTomlTable_def schema_transfer[OF assms(2)] .
qed

lemma mark_loaded:
  "(ApplySeasonEventMapIfNeeded c)\<lparr>initialized := i, defaults_only := d\<rparr> =
     ApplySeasonEventMapIfNeeded (c\<lparr>initialized := i, defaults_only := d\<rparr>)"
  by (simp add: ApplySeasonEventMapIfNeeded_def ApplySeasonEventFlags_def CaptureSeasonEventFlags_def
      Let_def split: option.split)

lemma normalize_clamps:
  assumes laws: "toml_laws T" and f: "float_fields (resolution_hack config)"
  shows "NormalizePatchConfig T dev config = Some (clamp_config dev config)"
proof -
  obtain doc t where doc: "BuildPatchConfigTable T dev config = Some doc"
    and rows: "\<forall>s. s \<notin> {''overlays'', ''gui'', ''debug'', ''resolution_hack''} \<longrightarrow>
         t_get T doc s = map_of (section_rows T config) s"
    and schema: "\<forall>e \<in> set (k_entries dev). \<exists>t. FindSection T doc (e_section e) = Some t
         \<and> (\<forall>k \<in> set (e_keys e).
              t_get T t k = (if k = e_key e then entry_node T config e else None))"
    and rh: "FindSection T doc ''resolution_hack'' = Some t"
    and ex: "t_get T t ''extra'' =
             Some (of_table T (insert_all T (extra_rows T (rh_extra (resolution_hack config))) (t_empty T)))"
    using build_ok[OF laws, of dev config] by blast
  have tab: "FindTable T doc s = Some (insert_all T rs (t_empty T))"
    if "map_of (section_rows T config) s = Some (of_table T (insert_all T rs (t_empty T)))"
      "s \<notin> {''overlays'', ''gui'', ''debug'', ''resolution_hack''}" for s rs
    unfolding FindTable_def rows[rule_format, OF that(2)] that(1) by (simp add: toml_simps[OF laws])
  have sect: "with_section T doc s g c = g (insert_all T rs (t_empty T)) c"
    if "map_of (section_rows T config) s = Some (of_table T (insert_all T rs (t_empty T)))"
      "s \<notin> {''overlays'', ''gui'', ''debug'', ''resolution_hack''}" for s rs and g :: "'a \<Rightarrow> 'c \<Rightarrow> 'c" and c
    unfolding with_section_def tab[OF that] by simp
  have s1: "with_section T doc ''seasons'' (apply_seasons T) c = clamp_seasons (seasons config)" for c
    by (subst sect[of _ "seasons_rows T (seasons config)"])
      (simp_all add: section_rows_def Let_def apply_seasons_built[OF laws get_tab[OF laws]])
  have s2: "with_section T doc ''challenge_rifts'' (apply_rifts T) c = clamp_rifts (challenge_rifts config)" for c
    by (subst sect[of _ "rifts_rows T (challenge_rifts config)"])
      (simp_all add: section_rows_def Let_def apply_rifts_built[OF laws get_tab[OF laws]])
  have s3: "with_section T doc ''events'' (apply_events T) c = events config" for c
    by (subst sect[of _ "events_rows T (events config)"])
      (simp_all add: section_rows_def Let_def apply_events_built[OF laws get_tab[OF laws]])
  have s4: "with_section T doc ''rare_cheats'' (apply_cheats T) c = clamp_cheats (rare_cheats config)" for c
    by (subst sect[of _ "cheats_rows T (rare_cheats config)"])
      (simp_all add: section_rows_def Let_def apply_cheats_built[OF laws get_tab[OF laws]])
  have s5: "with_section T doc ''loot_modifiers'' (apply_loot T) default_loot = clamp_loot (loot_modifiers config)"
    by (subst sect[of _ "loot_rows T (loot_modifiers config)"])
      (simp_all add: section_rows_def Let_def apply_loot_built[OF laws get_tab[OF laws]] default_loot_def)
  have s6: "with_section T doc ''resolution_hack'' (\<lambda>sect. with_section T sect ''extra'' (apply_extra T)) c =
      clamp_extra (rh_extra (resolution_hack config))" for c
    using rh ex unfolding with_section_def FindTable_def FindSection_def
    by (simp add: toml_simps[OF laws] apply_extra_built[OF laws get_tab[OF laws]])
  have "ApplyTable T dev default_PatchConfig doc = clamp_config dev config"
    unfolding ApplyTable_def apply_schema_built[OF laws f schema] Let_def mark_loaded clamp_config_def
    by (rule arg_cong[where f = ApplySeasonEventMapIfNeeded], cases config)
      (simp add: s1 s2 s3 s4 s5 s6 default_PatchConfig_def clamp_resolution_def Let_def)
  then show ?thesis by (simp add: NormalizePatchConfig_def doc)
qed

end
