(* ===== verification/Config_Props.thy ===== *)
theory Config_Props
  imports Config_Normalize
begin

text \<open>
  Properties of the configuration component: normalising is clamping and is
  idempotent, the season event map, and the bounds every loaded configuration
  satisfies.
\<close>

section \<open>Idempotence of the specification\<close>

text \<open>The speeds kept in the file: tenths between 0.1 and 10.\<close>

lemma powi_53: "(2 :: rat) powi (- 53) = 1 / 9007199254740992"
  by (simp add: power_int_def power_divide)

lemma rnd53_error:
  assumes "1 / 16 \<le> x"
  shows "\<bar>rnd 53 (- 1022) x - x\<bar> \<le> x / 9007199254740992"
proof -
  have "(2 :: rat) powi (- 1022) \<le> 2 powi (- 4)" by (rule powi_2_mono) simp
  also have "\<dots> = 1 / 16" by (simp add: power_int_def power_divide)
  finally have "(2 :: rat) powi (- 1022) \<le> \<bar>x\<bar>" using assms by simp
  from rnd_error[OF this, of 53] show ?thesis using assms by (simp add: powi_53)
qed

lemma to_f64_Fin: "0 \<le> x \<Longrightarrow> x \<le> 1000000 \<Longrightarrow> to_f64 x = Fin (rnd 53 (- 1022) x)"
proof -
  assume x: "0 \<le> x" "x \<le> 1000000"
  have "rnd 53 (- 1022) x \<le> rnd 53 (- 1022) (of_int 1000000)" using x by (intro rnd_mono) simp_all
  then have "rnd 53 (- 1022) x \<le> 1000000" using rnd53_of_int[of 1000000] by simp
  moreover have "0 \<le> rnd 53 (- 1022) x" using x by (intro rnd_nonneg)
  ultimately show ?thesis by (simp add: to_f64_def with_range_Fin)
qed

lemma Round1Decimal_tenths:
  assumes "1 \<le> k" "k \<le> 100"
  shows "Round1Decimal (to_f64 (of_int k / 10)) = to_f64 (of_int k / 10)"
proof -
  have kr: "(1 :: rat) \<le> of_int k" "of_int k \<le> (100 :: rat)" using assms by simp_all
  define r where "r = rnd 53 (- 1022) (of_int k / 10)"
  have r: "\<bar>r - of_int k / 10\<bar> \<le> 1 / 900719925474099"
    using rnd53_error[of "of_int k / 10"] kr unfolding r_def by linarith
  define y where "y = rnd 53 (- 1022) (r * 10)"
  have "\<bar>r * 10 - of_int k\<bar> \<le> 1 / 9007199254740" using r by linarith
  then have r10: "1 / 16 \<le> r * 10" "r * 10 \<le> 101" using kr by linarith+
  have y: "\<bar>y - of_int k\<bar> < 1 / 2"
    using rnd53_error[OF r10(1)] r10 r unfolding y_def by linarith
  have "round_away y = k"
  proof -
    have "0 \<le> y" using y kr by linarith
    then have "round_away y = \<lfloor>y + 1 / 2\<rfloor>" by (simp add: round_away_def)
    also have "\<dots> = k" using y by (intro floor_unique) linarith+
    finally show ?thesis .
  qed
  moreover have "to_f64 (of_int k / 10) = Fin r" using kr by (simp add: r_def to_f64_Fin)
  moreover have "to_f64 (r * 10) = Fin y" using r10 by (simp add: y_def to_f64_Fin)
  ultimately show ?thesis by (simp add: Round1Decimal_def)
qed

lemma tenth_bounds:
  assumes "1 \<le> k" "k \<le> 100"
  shows "clamp (to_f64 (of_int k / 10)) tenth (Fin 10) = to_f64 (of_int k / 10)"
proof -
  have kr: "(1 :: rat) \<le> of_int k" "of_int k \<le> (100 :: rat)" using assms by simp_all
  have "rnd 53 (- 1022) (1 / 10) \<le> rnd 53 (- 1022) (of_int k / 10)" using kr by (intro rnd_mono) simp_all
  moreover have "rnd 53 (- 1022) (of_int k / 10) \<le> rnd 53 (- 1022) (of_int 10)" using kr by (intro rnd_mono) simp_all
  then have "rnd 53 (- 1022) (of_int k / 10) \<le> 10" using rnd53_of_int[of 10] by simp
  ultimately show ?thesis using kr by (simp add: tenth_def to_f64_Fin clamp_def)
qed

lemma Round1Decimal_cases:
  assumes "v \<noteq> NaN"
  shows "Round1Decimal v = PInf \<or> Round1Decimal v = NInf \<or> (\<exists>k. Round1Decimal v = to_f64 (of_int k / 10))"
proof (cases v)
  case (Fin x)
  then show ?thesis by (cases "to_f64 (x * 10)") (auto simp: Round1Decimal_def to_f64_def with_range_def split: if_splits)
qed (use assms in \<open>simp_all add: Round1Decimal_def\<close>)

lemma to_f64_low:
  assumes "x \<le> 0"
  shows "to_f64 x = NInf \<or> (\<exists>r \<le> 0. to_f64 x = Fin r)"
proof -
  have "rnd 53 (- 1022) x \<le> 0" using assms by (rule rnd_nonpos)
  moreover have "(0 :: rat) < 2 powi (1023 + 1)" by (rule powi_2_pos)
  ultimately have "\<not> (2 :: rat) powi (1023 + 1) \<le> rnd 53 (- 1022) x" by linarith
  then show ?thesis using \<open>rnd 53 (- 1022) x \<le> 0\<close> by (auto simp: to_f64_def with_range_def)
qed

lemma to_f64_high:
  assumes "10 < a" "rnd 53 (- 1022) a = a" "a \<le> x"
  shows "to_f64 x = PInf \<or> (\<exists>r > 10. to_f64 x = Fin r)"
proof -
  have "a \<le> rnd 53 (- 1022) x" using rnd_mono[of a x 53 "- 1022"] assms by simp
  then have "10 < rnd 53 (- 1022) x" using assms by linarith
  moreover have "(0 :: rat) < 2 powi (1023 + 1)" by (rule powi_2_pos)
  ultimately have "\<not> rnd 53 (- 1022) x \<le> - (2 powi (1023 + 1))" by linarith
  then show ?thesis using \<open>10 < rnd 53 (- 1022) x\<close> by (auto simp: to_f64_def with_range_def)
qed

lemma speed_cases:
  assumes "v \<noteq> NaN"
  shows "\<exists>k. 1 \<le> k \<and> k \<le> 100 \<and> clamp (Round1Decimal v) tenth (Fin 10) = to_f64 (of_int k / 10)"
    (is "\<exists>k. ?P k (clamp (Round1Decimal v) tenth (Fin 10))")
proof -
  define t where "t = rnd 53 (- 1022) (1 / 10)"
  have tF: "tenth = Fin t" by (simp add: tenth_def to_f64_Fin t_def)
  have t0: "0 < t" "t \<le> 1" using rnd53_error[of "1 / 10"] unfolding t_def by linarith+
  have one: "?P 1 tenth" by (simp add: tenth_def)
  have ten: "?P 100 (Fin 10)" using to_f64_of_int[of 10] by simp
  consider "Round1Decimal v = PInf" | "Round1Decimal v = NInf"
    | k where "Round1Decimal v = to_f64 (of_int k / 10)"
    using Round1Decimal_cases[OF assms] by blast
  then show ?thesis
  proof cases
    case 1
    then have eq: "clamp (Round1Decimal v) tenth (Fin 10) = Fin 10" by (simp add: clamp_def tF)
    show ?thesis unfolding eq using ten by blast
  next
    case 2
    then have eq: "clamp (Round1Decimal v) tenth (Fin 10) = tenth" by (simp add: clamp_def tF)
    show ?thesis unfolding eq using one by blast
  next
    case (3 k)
    consider "k \<le> 0" | "1 \<le> k" "k \<le> 100" | "101 \<le> k" by linarith
    then show ?thesis
    proof cases
      case 1
      then have "(of_int k :: rat) / 10 \<le> 0" by (simp add: divide_le_0_iff)
      then have eq: "clamp (Round1Decimal v) tenth (Fin 10) = tenth"
        using to_f64_low[of "of_int k / 10"] t0 unfolding 3 tF by (auto simp: clamp_def)
      show ?thesis unfolding eq using one by blast
    next
      case 2
      then show ?thesis using tenth_bounds unfolding 3 by blast
    next
      case c: 3
      then have "(101 :: rat) \<le> of_int k" by simp
      then have le: "(161 :: rat) / 16 \<le> of_int k / 10" by linarith
      have ex: "rnd 53 (- 1022) (161 / 16) = 161 / 16"
        using rnd_exact[OF representable_quotient[of 161 53 "- 1022" 4]] by simp
      have eq: "clamp (Round1Decimal v) tenth (Fin 10) = Fin 10"
        using to_f64_high[OF _ ex le] t0 unfolding 3 tF by (auto simp: clamp_def)
      show ?thesis unfolding eq using ten by blast
    qed
  qed
qed

lemma speed_again:
  "clamp (Round1Decimal (clamp (Round1Decimal v) tenth (Fin 10))) tenth (Fin 10) =
     clamp (Round1Decimal v) tenth (Fin 10)"
proof (cases "v = NaN")
  case True
  then show ?thesis by (simp add: Round1Decimal_def)
next
  case False
  obtain k where k: "1 \<le> k" "k \<le> 100" "clamp (Round1Decimal v) tenth (Fin 10) = to_f64 (of_int k / 10)"
    using speed_cases[OF False] by blast
  show ?thesis unfolding k(3) Round1Decimal_tenths[OF k(1,2)] by (rule tenth_bounds[OF k(1,2)])
qed

lemma normalized_ranks:
  "NormalizeKey ''Normal'' = ''normal''" "NormalizeKey ''Ancient'' = ''ancient''"
  "NormalizeKey ''Primal'' = ''primal''"
  by code_simp+

lemma rank_again: "v \<in> {0, 1, 2} \<Longrightarrow> AncientRankToValue (AncientRankCanonical v s) d = v"
  by (auto simp: AncientRankCanonical_def AncientRankToValue_def normalized_ranks Let_def)

lemma clamp_s32_again:
  fixes v :: s32
  assumes "- (2 ^ 31) \<le> lo" "lo \<le> hi" "hi < 2 ^ 31"
  shows "(word_of_int (max lo (min hi (sint (word_of_int (max lo (min hi (sint v))) :: s32)))) :: s32)
    = word_of_int (max lo (min hi (sint v)))"
proof -
  have "signed_take_bit 31 (max lo (min hi (sint v))) = max lo (min hi (sint v))"
    using assms by (intro signed_take_bit_small) simp_all
  then show ?thesis using assms by (simp add: signed_of_int)
qed

lemma fp_mul_not_NaN: "w \<noteq> NaN \<Longrightarrow> fp_mul to_f32 w k \<noteq> NaN"
  by (cases w) (auto simp: to_f32_def with_range_def)

lemma NormalizeHandheldScale_values:
  assumes "w \<noteq> NaN"
  shows "NormalizeHandheldScale w = Fin 0
    \<or> (\<exists>k. 8 \<le> k \<and> k \<le> 20 \<and> NormalizeHandheldScale w = Fin (of_int (5 * k)))"
proof (cases "fp_leq w (Fin 0)")
  case False
  obtain x where x: "clamp w (Fin 40) (Fin 100) = Fin x" "40 \<le> x" "x \<le> 100"
    using clamp_cases[of 40 100 w] assms by auto
  then show ?thesis using NormalizeHandheldScale_inside[OF x(2,3)] NormalizeHandheldScale_clamps[OF False] by metis
qed simp

lemma handheld_values:
  "handheld_or_default v = Fin 0
    \<or> (\<exists>k. 8 \<le> k \<and> k \<le> 20 \<and> handheld_or_default v = Fin (of_int (5 * k)))"
proof (cases "v = NaN")
  case True
  then show ?thesis by (intro disjI2 exI[of _ 16]) (simp add: handheld_or_default_def)
next
  case False
  define u where "u = clamp v (Fin 0) (Fin 100)"
  define w where "w = (if fp_less (Fin 0) u \<and> fp_leq u (Fin 1) then fp_mul to_f32 u 100 else u)"
  have "u \<noteq> NaN" unfolding u_def by (rule clamp_not_NaN[OF False])
  then have "w \<noteq> NaN" unfolding w_def using fp_mul_not_NaN[of u] by simp
  moreover have "handheld_or_default v = NormalizeHandheldScale w"
    using False by (simp add: handheld_or_default_def Let_def w_def u_def)
  ultimately show ?thesis using NormalizeHandheldScale_values by simp
qed

lemma handheld_again: "handheld_or_default (handheld_or_default v) = handheld_or_default v"
proof -
  have step: "handheld_or_default (Fin (of_int (5 * k))) = Fin (of_int (5 * k))"
    if "8 \<le> k" "k \<le> 20" for k
  proof -
    have kr: "(8 :: rat) \<le> of_int k" "of_int k \<le> (20 :: rat)" using that by simp_all
    then have "clamp (Fin (of_int (5 * k))) (Fin 0) (Fin 100) = Fin (of_int (5 * k))" by (simp add: clamp_def)
    moreover have "\<not> fp_leq (Fin (of_int (5 * k))) (Fin 1)" using kr by simp
    ultimately show ?thesis
      unfolding handheld_or_default_def Let_def using NormalizeHandheldScale_step[OF that] by simp
  qed
  have zero: "handheld_or_default (Fin 0) = Fin 0" by (simp add: handheld_or_default_def clamp_def)
  from handheld_values[of v] show ?thesis
  proof (elim disjE exE conjE)
    fix k
    assume "8 \<le> k" "k \<le> 20" and e: "handheld_or_default v = Fin (of_int (5 * k))"
    then show ?thesis unfolding e by (intro step)
  qed (simp add: zero)
qed

lemma scale_or_again:
  assumes "10 \<le> d" "d \<le> 100"
  shows "scale_or d' (scale_or d v) = scale_or d v"
proof (cases "v = NaN")
  case True
  then show ?thesis using assms by (simp add: scale_or_def clamp_Fin)
next
  case False
  then show ?thesis using clamp_not_NaN[OF False, of 10 100] clamp_again[OF False, of 10 100]
    by (simp add: scale_or_def)
qed

lemma scale_or_float:
  assumes "f64_to_f32 v = v" "f64_to_f32 (Fin d) = Fin d"
  shows "f64_to_f32 (scale_or d v) = scale_or d v"
  using assms f64_to_f32_exact by (auto simp: scale_or_def clamp_def)

lemma clamp_extra_again: "clamp_extra (clamp_extra c) = clamp_extra c"
  by (simp add: clamp_extra_def Let_def clamp_s32_again)

lemma max_target_cases: "MaxResolutionHackOutputTarget dev \<in> {1440, 2160}"
  by (simp add: MaxResolutionHackOutputTarget_def split: option.split)

lemma clamp_word_again:
  fixes x :: u32
  assumes "lo \<le> hi"
  shows "max lo (min hi (max lo (min hi x))) = max lo (min hi x)"
  using assms by (simp add: max_def min_def)

lemma clamp_target_again:
  fixes t m :: u32
  assumes "720 \<le> m" "m \<le> 2160"
  shows "min (max 720 (min 2160 (min (max 720 (min 2160 t)) m))) m = min (max 720 (min 2160 t)) m"
  using assms by (simp add: max_def min_def)

lemma clamp_resolution_again: "clamp_resolution dev (clamp_resolution dev c) = clamp_resolution dev c"
proof -
  define r where "r = clamp_resolution dev c"
  have m: "720 \<le> MaxResolutionHackOutputTarget dev" "MaxResolutionHackOutputTarget dev \<le> 2160"
    using max_target_cases[of dev] by auto
  define lo where "lo = scale_or 85 (min_res_scale c)"
  define hi where "hi = scale_or 100 (max_res_scale c)"
  have r_eq: "min_res_scale r = (if fp_less hi lo then hi else lo)" "max_res_scale r = hi"
    "target_resolution r = min (max 720 (min 2160 (target_resolution c))) (MaxResolutionHackOutputTarget dev)"
    "output_handheld_scale r = handheld_or_default (output_handheld_scale c)"
    "clamp_texture_resolution r =
       (if clamp_texture_resolution c = 0 then 0 else max 100 (min 9999 (clamp_texture_resolution c)))"
    "rh_extra r = clamp_extra (rh_extra c)"
    by (simp_all add: r_def clamp_resolution_def Let_def lo_def hi_def)
  have "scale_or d (min_res_scale r) = min_res_scale r" "scale_or d (max_res_scale r) = max_res_scale r" for d
    by (simp_all add: r_eq lo_def hi_def scale_or_again)
  moreover have "\<not> fp_less (max_res_scale r) (min_res_scale r)"
    unfolding r_eq by (cases hi; cases lo) auto
  moreover have "max 100 (min 9999 (clamp_texture_resolution r)) = clamp_texture_resolution r"
    if "clamp_texture_resolution r \<noteq> 0"
    using that clamp_word_again[of 100 9999 "clamp_texture_resolution c"] unfolding r_eq by auto
  moreover have "min (max 720 (min 2160 (target_resolution r))) (MaxResolutionHackOutputTarget dev) = target_resolution r"
    unfolding r_eq by (rule clamp_target_again[OF m])
  moreover have "handheld_or_default (output_handheld_scale r) = output_handheld_scale r"
    "clamp_extra (rh_extra r) = rh_extra r"
    unfolding r_eq by (rule handheld_again clamp_extra_again)+
  ultimately have "clamp_resolution dev r = r" by (simp add: clamp_resolution_def Let_def)
  then show ?thesis by (simp add: r_def)
qed

lemma clamp_sections_again:
  "clamp_seasons (clamp_seasons s) = clamp_seasons s"
  "clamp_rifts (clamp_rifts r) = clamp_rifts r"
  "clamp_cheats (clamp_cheats c) = clamp_cheats c"
  "clamp_loot (clamp_loot l) = clamp_loot l"
proof -
  show "clamp_seasons (clamp_seasons s) = clamp_seasons s"
    using clamp_word_again[of 1 200 "current_season s"] by (simp add: clamp_seasons_def)
  show "clamp_rifts (clamp_rifts r) = clamp_rifts r"
    by (auto simp: clamp_rifts_def Let_def min_def max_def)
  show "clamp_cheats (clamp_cheats c) = clamp_cheats c" by (simp add: clamp_cheats_def speed_again)
  show "clamp_loot (clamp_loot l) = clamp_loot l"
    using rank_again[OF AncientRankToValue_cases]
    by (simp add: clamp_loot_def Let_def clamp_s32_again)
qed

lemma season_map_again:
  "ApplySeasonEventMapIfNeeded (ApplySeasonEventMapIfNeeded c) = ApplySeasonEventMapIfNeeded c"
  by (auto simp: ApplySeasonEventMapIfNeeded_def ApplySeasonEventFlags_def CaptureSeasonEventFlags_def
      OverlaySeasonEventFlags_def Let_def fun_eq_iff split: option.split)

text \<open>The season map changes the event flags only.\<close>

lemma season_map_frame:
  "\<exists>flags. ApplySeasonEventMapIfNeeded c = c\<lparr>events := (events c)\<lparr>ev_flags := flags\<rparr>\<rparr>"
proof (cases "ApplySeasonEventMapIfNeeded c = c")
  case True
  then show ?thesis by (intro exI[of _ "ev_flags (events c)"]) simp
next
  case False
  then show ?thesis
    by (auto simp: ApplySeasonEventMapIfNeeded_def ApplySeasonEventFlags_def Let_def
        split: option.splits if_splits)
qed

lemma clamp_config_again: "clamp_config dev (clamp_config dev c) = clamp_config dev c"
proof -
  define d where "d = c\<lparr>initialized := True, defaults_only := False,
          seasons := clamp_seasons (seasons c),
          challenge_rifts := clamp_rifts (challenge_rifts c),
          rare_cheats := clamp_cheats (rare_cheats c),
          resolution_hack := clamp_resolution dev (resolution_hack c),
          loot_modifiers := clamp_loot (loot_modifiers c)\<rparr>"
  have d: "clamp_config dev c = ApplySeasonEventMapIfNeeded d" by (simp add: clamp_config_def d_def)
  obtain flags where f: "ApplySeasonEventMapIfNeeded d = d\<lparr>events := (events d)\<lparr>ev_flags := flags\<rparr>\<rparr>"
    using season_map_frame by blast
  have "clamp_config dev (ApplySeasonEventMapIfNeeded d) = ApplySeasonEventMapIfNeeded (ApplySeasonEventMapIfNeeded d)"
    unfolding f clamp_config_def
    by (rule arg_cong[where f = ApplySeasonEventMapIfNeeded], cases c)
      (simp add: d_def clamp_sections_again clamp_resolution_again)
  then show ?thesis unfolding d season_map_again .
qed

lemma float_fields_clamped:
  assumes "float_fields (resolution_hack c)"
  shows "float_fields (resolution_hack (clamp_config dev c))"
proof -
  have r: "resolution_hack (clamp_config dev c) = clamp_resolution dev (resolution_hack c)"
    using season_map_frame[of "c\<lparr>initialized := True, defaults_only := False,
          seasons := clamp_seasons (seasons c),
          challenge_rifts := clamp_rifts (challenge_rifts c),
          rare_cheats := clamp_cheats (rare_cheats c),
          resolution_hack := clamp_resolution dev (resolution_hack c),
          loot_modifiers := clamp_loot (loot_modifiers c)\<rparr>"]
    by (auto simp: clamp_config_def)
  have n: "to_f32 (of_int (5 * k)) = Fin (of_int (5 * k))" if "0 \<le> k" "k \<le> 20" for k
  proof -
    have "to_f32 (of_nat (nat (5 * k))) = Fin (of_nat (nat (5 * k)))" using that by (intro to_f32_of_nat) simp
    then show ?thesis using that by (simp add: of_nat_nat)
  qed
  have h: "f64_to_f32 (handheld_or_default v) = handheld_or_default v" for v
    using handheld_values[of v] f64_to_f32_exact(1)
  proof (elim disjE exE conjE)
    fix k
    assume "8 \<le> k" "k \<le> 20" and e: "handheld_or_default v = Fin (of_int (5 * k))"
    then show ?thesis unfolding e using n[of k] by simp
  qed simp
  have "f64_to_f32 (Fin 85) = Fin 85" using n[of 17] by simp
  then have "f64_to_f32 (scale_or 85 (min_res_scale (resolution_hack c))) = scale_or 85 (min_res_scale (resolution_hack c))"
    "f64_to_f32 (scale_or 100 (max_res_scale (resolution_hack c))) = scale_or 100 (max_res_scale (resolution_hack c))"
    using assms f64_to_f32_exact(3) by (simp_all only: float_fields_def scale_or_float)
  then show ?thesis unfolding r float_fields_def by (simp add: clamp_resolution_def Let_def h)
qed

section \<open>A table library\<close>

text \<open>
  Association lists satisfy the laws; the witnesses below run the code on them.
\<close>

datatype node = Tab "(string \<times> node) list" | Bool bool | Integer s64 | Dbl fp | Str string

definition alist_insert :: "(string \<times> node) list \<Rightarrow> string \<Rightarrow> node \<Rightarrow> (string \<times> node) list" where
  "alist_insert t k n = (case map_of t k of None \<Rightarrow> (k, n) # t | Some _ \<Rightarrow> t)"

definition alist_toml :: "((string \<times> node) list, node) toml" where
  "alist_toml =
     \<lparr>t_empty = [], t_get = map_of, t_insert = alist_insert, t_assign = (\<lambda>t k n. (k, n) # t),
      n_as_table = (\<lambda>n. case n of Tab t \<Rightarrow> Some t | _ \<Rightarrow> None),
      n_bool = (\<lambda>n. case n of Bool b \<Rightarrow> Some b | _ \<Rightarrow> None),
      n_double = (\<lambda>n. case n of Dbl d \<Rightarrow> Some d | _ \<Rightarrow> None),
      n_s64 = (\<lambda>n. case n of Integer i \<Rightarrow> Some i | _ \<Rightarrow> None),
      n_string = (\<lambda>n. case n of Str s \<Rightarrow> Some s | _ \<Rightarrow> None),
      of_table = Tab, of_bool = Bool, of_double = Dbl, of_s64 = Integer, of_string = Str\<rparr>"

lemma alist_toml_laws: "toml_laws alist_toml"
  by (auto simp: toml_laws_def alist_toml_def alist_insert_def split: option.splits)

lemma default_float_fields: "float_fields (resolution_hack default_PatchConfig)"
proof -
  have "to_f32 (of_nat 85) = Fin (of_nat 85)" "to_f32 (of_nat 80) = Fin (of_nat 80)" "to_f32 (of_nat 100) = Fin (of_nat 100)"
    by (rule to_f32_of_nat, simp)+
  then show ?thesis by (simp add: float_fields_def default_PatchConfig_def default_resolution_hack_def)
qed

section \<open>Normalisation\<close>

text \<open>
  C9: Normalising a configuration, which the code does by writing it to a TOML
  document and applying the document to the defaults, is the field-by-field
  clamping of \<open>clamp_config\<close>: no field is lost, misread through another key or
  reset on the way, for any table library that satisfies the documented laws.
\<close>
theorem normalize_is_clamp:
  assumes "toml_laws T" "float_fields (resolution_hack config)"
  shows "NormalizePatchConfig T dev config = Some (clamp_config dev config)"
  using assms by (rule normalize_clamps)

theorem normalize_is_clamp_witness:
  "NormalizePatchConfig alist_toml (Some 1) default_PatchConfig = Some (clamp_config (Some 1) default_PatchConfig)"
  by (rule normalize_is_clamp[OF alist_toml_laws default_float_fields])

text \<open>
  Normalising twice is normalising once: saving and reloading a normalised
  configuration changes nothing.
\<close>
lemma normalize_idempotent:
  assumes "toml_laws T" "float_fields (resolution_hack config)"
  shows "\<exists>c. NormalizePatchConfig T dev config = Some c \<and> NormalizePatchConfig T dev c = Some c"
  using normalize_clamps[OF assms] normalize_clamps[OF assms(1) float_fields_clamped[OF assms(2)]]
    clamp_config_again by metis

section \<open>Season events\<close>

text \<open>
  The season event map covers exactly the seasons 14 to 37 except 23; every
  map has the altar (DarkAlchemy) and none of the five event bonuses; from season
  30 on the maps repeat the themes of seasons 25, 20, 24, 22, 27, 19, 25 and 20.
\<close>
lemma season_event_map:
  "(BuildSeasonEventMap s \<noteq> None \<longleftrightarrow> s \<ge> 14 \<and> s \<le> 37 \<and> s \<noteq> 23)
   \<and> (case BuildSeasonEventMap s of
        None \<Rightarrow> True
      | Some m \<Rightarrow> m DarkAlchemy \<and> \<not> m IgrEnabled \<and> \<not> m AnniversaryEnabled
          \<and> \<not> m EasterEggWorldEnabled \<and> \<not> m DoubleRiftKeystones \<and> \<not> m DoubleBloodShards)
   \<and> map BuildSeasonEventMap [30, 31, 32, 33, 34, 35, 36, 37] =
     map BuildSeasonEventMap [25, 20, 24, 22, 27, 19, 25, 20]"
proof (intro conjI)
  have nat: "(s \<ge> 14 \<and> s \<le> 37 \<and> s \<noteq> 23) = (unat s \<in> {14..37} - {23})"
    by (auto simp: word_le_nat_alt word_unat_eq_iff)
  have "BuildSeasonEventMap s \<noteq> None \<longleftrightarrow>
      s \<in> {14,15,16,17,18,19,20,21,22,24,25,26,27,28,29,30,31,32,33,34,35,36,37}"
    by (simp add: BuildSeasonEventMap_def Let_def)
  also have "\<dots> = (unat s \<in> {14,15,16,17,18,19,20,21,22,24,25,26,27,28,29,30,31,32,33,34,35,36,37})"
    by (simp add: word_unat_eq_iff)
  also have "\<dots> = (unat s \<in> {14..37} - {23})"
    by (simp only: insert_iff empty_iff Diff_iff atLeastAtMost_iff) presburger
  finally show "BuildSeasonEventMap s \<noteq> None \<longleftrightarrow> s \<ge> 14 \<and> s \<le> 37 \<and> s \<noteq> 23" unfolding nat .
  have "default_map DarkAlchemy" "\<not> default_map IgrEnabled" "\<not> default_map AnniversaryEnabled"
    "\<not> default_map EasterEggWorldEnabled" "\<not> default_map DoubleRiftKeystones" "\<not> default_map DoubleBloodShards"
    by (simp_all add: default_map_def flag_row_def D3HACK_SEASON_EVENT_FLAGS_def)
  then show "case BuildSeasonEventMap s of
        None \<Rightarrow> True
      | Some m \<Rightarrow> m DarkAlchemy \<and> \<not> m IgrEnabled \<and> \<not> m AnniversaryEnabled
          \<and> \<not> m EasterEggWorldEnabled \<and> \<not> m DoubleRiftKeystones \<and> \<not> m DoubleBloodShards"
    by (simp add: BuildSeasonEventMap_def Let_def)
  show "map BuildSeasonEventMap [30, 31, 32, 33, 34, 35, 36, 37] =
     map BuildSeasonEventMap [25, 20, 24, 22, 27, 19, 25, 20]"
    by (simp add: BuildSeasonEventMap_def Let_def)
qed

text \<open>
  The effect of the map modes.  The flags of the loaded configuration are its
  own ones when the mode is Disabled, the seasons section is off or the season has
  no map; otherwise the map alone (MapOnly) or the map and its own flags
  (OverlayConfig).  Because the result is stored in the configuration itself, an
  overlay saved for one season is still set after the season number changes.
\<close>
lemma season_modes:
  assumes "sea_active (seasons c)" "BuildSeasonEventMap (current_season (seasons c)) = Some m"
    and "SeasonMapMode (events c) = OverlayConfig"
  shows "ev_flags (events (ApplySeasonEventMapIfNeeded c)) = (\<lambda>f. m f \<or> ev_flags (events c) f)
       \<and> ev_flags (events (ApplySeasonEventMapIfNeeded (c\<lparr>events := (events c)\<lparr>SeasonMapMode := MapOnly\<rparr>\<rparr>))) = m
       \<and> ev_flags (events (ApplySeasonEventMapIfNeeded (c\<lparr>events := (events c)\<lparr>SeasonMapMode := Disabled\<rparr>\<rparr>)))
           = ev_flags (events c)
       \<and> (m f \<longrightarrow>
           (let saved = ApplySeasonEventMapIfNeeded c;
                later = saved\<lparr>seasons := (seasons saved)\<lparr>current_season := s\<rparr>\<rparr>
            in ev_flags (events (ApplySeasonEventMapIfNeeded later)) f))"
  using assms
  by (auto simp: ApplySeasonEventMapIfNeeded_def ApplySeasonEventFlags_def CaptureSeasonEventFlags_def
      OverlaySeasonEventFlags_def Let_def split: option.split)

text \<open>The configuration of season 22 with the overlay mode: saved, then moved to season 30.\<close>

definition overlay_22 :: PatchConfig where
  "overlay_22 = default_PatchConfig\<lparr>seasons := default_seasons\<lparr>current_season := 22\<rparr>,
     events := default_events\<lparr>SeasonMapMode := OverlayConfig\<rparr>\<rparr>"

section \<open>Bounds of a loaded configuration\<close>

definition dim_ok :: "int \<Rightarrow> s32 \<Rightarrow> bool" where
  "dim_ok hi v \<longleftrightarrow> - 1 \<le> sint v \<and> sint v \<le> hi"

definition extra_ok :: "ExtraConfig \<Rightarrow> bool" where
  "extra_ok c \<longleftrightarrow>
     dim_ok 16384 (window_left c) \<and> dim_ok 16384 (window_top c) \<and> dim_ok 16384 (window_width c)
   \<and> dim_ok 16384 (window_height c) \<and> dim_ok 16384 (ui_opt_width c) \<and> dim_ok 16384 (ui_opt_height c)
   \<and> dim_ok 16384 (render_width c) \<and> dim_ok 16384 (render_height c) \<and> dim_ok 1000 (refresh_rate c)
   \<and> dim_ok 64 (bit_depth c) \<and> dim_ok 16 (msaa_level c)"

definition scales_ok :: "ResolutionHackConfig \<Rightarrow> bool" where
  "scales_ok c \<longleftrightarrow>
     (\<exists>lo hi. min_res_scale c = Fin lo \<and> max_res_scale c = Fin hi \<and> 10 \<le> lo \<and> lo \<le> hi \<and> hi \<le> 100)
   \<and> (output_handheld_scale c = Fin 0
      \<or> (\<exists>k. 8 \<le> k \<and> k \<le> 20 \<and> output_handheld_scale c = Fin (of_int (5 * k))))
   \<and> target_resolution c \<le> 2160
   \<and> (clamp_texture_resolution c = 0
      \<or> 100 \<le> clamp_texture_resolution c \<and> clamp_texture_resolution c \<le> 9999)"

definition speed_ok :: "fp \<Rightarrow> bool" where
  "speed_ok v \<longleftrightarrow> fp_leq tenth v \<and> fp_leq v (Fin 10)"

definition loot_ok :: "loot_config \<Rightarrow> bool" where
  "loot_ok c \<longleftrightarrow>
     0 \<le> sint (ForcedILevel c) \<and> sint (ForcedILevel c) \<le> 70
   \<and> 0 \<le> sint (TieredLootRunLevel c) \<and> sint (TieredLootRunLevel c) \<le> 150
   \<and> AncientRankValue c \<in> {0, 1, 2} \<and> AncientRank c = AncientRankCanonical (AncientRankValue c) []"

definition config_ok :: "PatchConfig \<Rightarrow> bool" where
  "config_ok c \<longleftrightarrow>
     1 \<le> current_season (seasons c) \<and> current_season (seasons c) \<le> 200
   \<and> range_start (challenge_rifts c) \<le> range_end (challenge_rifts c)
   \<and> range_end (challenge_rifts c) \<le> 999
   \<and> speed_ok (move_speed (rare_cheats c)) \<and> speed_ok (attack_speed (rare_cheats c))
   \<and> scales_ok (resolution_hack c) \<and> extra_ok (rh_extra (resolution_hack c))
   \<and> loot_ok (loot_modifiers c)"

lemma trunc_between:
  assumes "of_int lo \<le> x" "x \<le> of_int hi"
  shows "lo \<le> trunc x" "trunc x \<le> hi"
  using assms by (auto simp: trunc_def le_floor_iff floor_le_iff ceiling_le_iff le_ceiling_iff)

lemma ReadNumber_not_NaN:
  assumes "\<And>n. n_double T n \<noteq> Some NaN"
  shows "ReadNumber T t keys \<noteq> Some NaN"
proof (induction keys)
  case (Cons k keys)
  have "to_f64 x \<noteq> NaN" for x by (simp add: to_f64_def with_range_def)
  then show ?case using Cons assms by (auto split: option.split)
qed simp

lemma ReadI32_bounds:
  assumes nan: "\<And>n. n_double T n \<noteq> Some NaN" and "- (2 ^ 31) \<le> lo" "lo \<le> hi" "hi < 2 ^ 31"
    and "lo \<le> sint fallback" "sint fallback \<le> hi"
  shows "lo \<le> sint (ReadI32 T t keys fallback lo hi) \<and> sint (ReadI32 T t keys fallback lo hi) \<le> hi"
proof (cases "ReadNumber T t keys")
  case None
  then show ?thesis using assms by (simp add: ReadI32_def)
next
  case (Some v)
  then have "v \<noteq> NaN" using ReadNumber_not_NaN[OF nan] by metis
  then obtain x where x: "clamp v (Fin (of_int lo)) (Fin (of_int hi)) = Fin x" "of_int lo \<le> x" "x \<le> of_int hi"
    using clamp_cases[of "of_int lo" "of_int hi" v] assms(3) by auto
  note t = trunc_between[OF x(2,3)]
  have "signed_take_bit 31 (trunc x) = trunc x" using t assms by (intro signed_take_bit_small) simp_all
  then have "sint (fp_to_s32 (Fin x)) = trunc x"
    using t assms by (simp add: fp_to_s32_def signed_of_int)
  then show ?thesis using t by (simp add: ReadI32_def Some x(1))
qed

lemma ReadU32_bounds:
  assumes nan: "\<And>n. n_double T n \<noteq> Some NaN" and "lo \<le> hi" "hi < 2 ^ 32"
    and "of_nat lo \<le> fallback" "fallback \<le> of_nat hi"
  shows "of_nat lo \<le> ReadU32 T t keys fallback lo hi \<and> ReadU32 T t keys fallback lo hi \<le> of_nat hi"
proof (cases "ReadNumber T t keys")
  case None
  then show ?thesis using assms by (simp add: ReadU32_def)
next
  case (Some v)
  then have "v \<noteq> NaN" using ReadNumber_not_NaN[OF nan] by metis
  then obtain x where x: "clamp v (Fin (of_nat lo)) (Fin (of_nat hi)) = Fin x"
    "of_int (int lo) \<le> x" "x \<le> of_int (int hi)"
    using clamp_cases[of "of_nat lo" "of_nat hi" v] assms(2) by auto
  note t = trunc_between[OF x(2,3)]
  define n where "n = nat (trunc x)"
  have n: "int n = trunc x" "lo \<le> n" "n \<le> hi" using t by (simp_all add: n_def)
  have "fp_to_u32 (Fin x) = of_nat n"
    using n assms(3) by (simp add: fp_to_u32_def flip: n(1))
  moreover have "unat (of_nat lo :: u32) = lo" "unat (of_nat n :: u32) = n" "unat (of_nat hi :: u32) = hi"
    using n assms(2,3) by (simp_all add: unsigned_of_nat take_bit_nat_eq_self)
  ultimately show ?thesis using n by (simp add: ReadU32_def Some x(1) word_le_nat_alt)
qed

lemma ReadDouble_speed:
  assumes nan: "\<And>n. n_double T n \<noteq> Some NaN" and "speed_ok fallback"
  shows "speed_ok (ReadDouble T t keys fallback tenth (Fin 10))"
proof (cases "ReadNumber T t keys")
  case None
  then show ?thesis using assms by (simp add: ReadDouble_def)
next
  case (Some v)
  define r where "r = rnd 53 (- 1022) (1 / 10)"
  have r: "tenth = Fin r" "r \<le> 10"
  proof -
    show "tenth = Fin r" by (simp add: tenth_def to_f64_Fin r_def)
    show "r \<le> 10" using rnd53_error[of "1 / 10"] unfolding r_def by linarith
  qed
  have "v \<noteq> NaN" using Some ReadNumber_not_NaN[OF nan] by metis
  then obtain x where "clamp v (Fin r) (Fin 10) = Fin x" "r \<le> x" "x \<le> 10"
    using clamp_cases[of r 10 v] r(2) by auto
  then show ?thesis by (simp add: ReadDouble_def Some r speed_ok_def)
qed

text \<open>An entry changes a setting through its setter or leaves the configuration alone.\<close>

lemma clamped_float_not_NaN: "clamped_float e v = Some w \<Longrightarrow> w \<noteq> NaN"
proof -
  assume "clamped_float e v = Some w"
  then obtain x where "w = to_f32 x"
    by (auto simp: clamped_float_def isfinite_def Let_def split: fp.splits if_splits)
  then show "w \<noteq> NaN" by (auto simp: to_f32_def with_range_def)
qed

lemma apply_entry_cases:
  "apply_entry T doc e c = c
 \<or> (e_kind e = BoolKind \<and> (\<exists>s v. e_set_bool e = Some s \<and> apply_entry T doc e c = s c v))
 \<or> (e_kind e = U32Kind \<and> (\<exists>s v. e_set_u32 e = Some s \<and> apply_entry T doc e c = s c v))
 \<or> (e_kind e = FloatKind \<and> (e_parse_float_str e \<noteq> None
      \<or> (\<exists>s v. e_set_float e = Some s \<and> v \<noteq> NaN \<and> apply_entry T doc e c = s c v)))
 \<or> (e_kind e = StringKind \<and> (\<exists>s v. e_set_string e = Some s \<and> apply_entry T doc e c = s c v))"
proof (cases "FindSection T doc (e_section e)")
  case None
  then show ?thesis by (simp add: apply_entry_def)
next
  case (Some t)
  show ?thesis
  proof (cases "e_kind e")
    case BoolKind
    then show ?thesis using Some
      by (cases "e_set_bool e"; cases "ReadValue T (n_bool T) t (e_keys e)")
        (auto simp: apply_entry_def apply_bool_def)
  next
    case U32Kind
    then show ?thesis using Some
      by (auto simp: apply_entry_def apply_u32_def split: option.split)
  next
    case FloatKind
    then show ?thesis using Some
      by (auto simp: apply_entry_def apply_float_def split: option.split dest: clamped_float_not_NaN)
  next
    case StringKind
    then show ?thesis using Some
      by (cases "e_set_string e"; cases "ReadValue T (n_string T) t (e_keys e)")
        (auto simp: apply_entry_def apply_string_def)
  qed
qed

text \<open>What the schema entries keep: the other sections, and the bounds of the resolution settings.\<close>

definition schema_inv :: "PatchConfig \<Rightarrow> PatchConfig \<Rightarrow> bool" where
  "schema_inv c0 c \<longleftrightarrow>
     seasons c = seasons c0 \<and> challenge_rifts c = challenge_rifts c0 \<and> events c = events c0
   \<and> rare_cheats c = rare_cheats c0 \<and> loot_modifiers c = loot_modifiers c0
   \<and> rh_extra (resolution_hack c) = rh_extra (resolution_hack c0) \<and> scales_ok (resolution_hack c)"

lemma SetReshackOutputTarget_inv: "schema_inv c0 c \<Longrightarrow> schema_inv c0 (SetReshackOutputTarget dev c v)"
  using max_target_cases[of dev]
  by (auto simp: schema_inv_def SetReshackOutputTarget_def SetTargetRes_def scales_ok_def min_le_iff_disj)

lemma SetReshackClampTextureResolution_inv:
  "schema_inv c0 c \<Longrightarrow> schema_inv c0 (SetReshackClampTextureResolution c v)"
  by (auto simp: schema_inv_def SetReshackClampTextureResolution_def scales_ok_def Let_def
      kClampTextureResolutionMin_def kClampTextureResolutionMax_def)

lemma SetReshackOutputHandheldScale_inv:
  assumes "schema_inv c0 c" "v \<noteq> NaN"
  shows "schema_inv c0 (SetReshackOutputHandheldScale c v)"
proof -
  define w where "w = (if fp_less (Fin 0) v \<and> fp_leq v (Fin 1) then fp_mul to_f32 v 100 else v)"
  have "w \<noteq> NaN" unfolding w_def using fp_mul_not_NaN[OF assms(2)] assms(2) by simp
  from NormalizeHandheldScale_values[OF this] show ?thesis
    using assms(1) by (simp add: schema_inv_def SetReshackOutputHandheldScale_def scales_ok_def Let_def flip: w_def)
qed

lemma SetReshackMinResScale_inv:
  assumes "schema_inv c0 c" "v \<noteq> NaN"
  shows "schema_inv c0 (SetReshackMinResScale c v)"
proof -
  obtain x where x: "clamp v (Fin 10) (Fin 100) = Fin x" "10 \<le> x" "x \<le> 100"
    using clamp_cases[of 10 100 v] assms(2) by auto
  show ?thesis using assms(1) x by (auto simp: schema_inv_def SetReshackMinResScale_def scales_ok_def Let_def)
qed

lemma SetReshackMaxResScale_inv:
  assumes "schema_inv c0 c" "v \<noteq> NaN"
  shows "schema_inv c0 (SetReshackMaxResScale c v)"
proof -
  obtain x where x: "clamp v (Fin 10) (Fin 100) = Fin x" "10 \<le> x" "x \<le> 100"
    using clamp_cases[of 10 100 v] assms(2) by auto
  show ?thesis using assms(1) x by (auto simp: schema_inv_def SetReshackMaxResScale_def scales_ok_def Let_def)
qed

lemmas setter_inv =
  SetReshackOutputTarget_inv SetReshackClampTextureResolution_inv SetReshackOutputHandheldScale_inv
  SetReshackMinResScale_inv SetReshackMaxResScale_inv

lemma entries_inv:
  assumes "schema_inv c0 c"
  shows "list_all (\<lambda>e.
      (e_kind e = BoolKind \<longrightarrow> (\<forall>s v. e_set_bool e = Some s \<longrightarrow> schema_inv c0 (s c v)))
    \<and> (e_kind e = U32Kind \<longrightarrow> (\<forall>s v. e_set_u32 e = Some s \<longrightarrow> schema_inv c0 (s c v)))
    \<and> (e_kind e = FloatKind \<longrightarrow> e_parse_float_str e = None
        \<and> (\<forall>s v. e_set_float e = Some s \<longrightarrow> v \<noteq> NaN \<longrightarrow> schema_inv c0 (s c v)))
    \<and> (e_kind e = StringKind \<longrightarrow> (\<forall>s v. e_set_string e = Some s \<longrightarrow> schema_inv c0 (s c v))))
    (k_entries dev)"
proof -
  have g: "schema_inv c0 (c\<lparr>overlays := a1\<rparr>)" "schema_inv c0 (c\<lparr>gui := a2\<rparr>)" "schema_inv c0 (c\<lparr>debug := a3\<rparr>)"
    "schema_inv c0 (c\<lparr>resolution_hack := (resolution_hack c)\<lparr>rh_active := v\<rparr>\<rparr>)"
    "schema_inv c0 (c\<lparr>resolution_hack := (resolution_hack c)\<lparr>spoof_docked := v\<rparr>\<rparr>)"
    "schema_inv c0 (c\<lparr>resolution_hack := (resolution_hack c)\<lparr>exp_scheduler := v\<rparr>\<rparr>)" for a1 a2 a3 v
    using assms by (simp_all add: schema_inv_def scales_ok_def)
  show ?thesis
    by (simp add: k_entries_def entry_field accessor_defs g setter_inv[OF assms])
qed

lemma apply_entry_inv:
  assumes "schema_inv c0 c" "e \<in> set (k_entries dev)"
  shows "schema_inv c0 (apply_entry T doc e c)"
proof -
  note inv = entries_inv[OF assms(1), of dev, unfolded list_all_iff, rule_format, OF assms(2)]
  show ?thesis using apply_entry_cases[of T doc e c] inv assms(1) by auto
qed

lemma ApplyTomlTable_inv:
  assumes "schema_inv c0 c"
  shows "schema_inv c0 (ApplyTomlTable T dev c doc)"
proof -
  have "schema_inv c0 (fold (apply_entry T doc) es c)" if "set es \<subseteq> set (k_entries dev)" "schema_inv c0 c" for es c
    using that by (induction es arbitrary: c) (auto intro: apply_entry_inv)
  then show ?thesis using assms by (simp add: ApplyTomlTable_def)
qed

lemma apply_seasons_ok:
  assumes "\<And>n. n_double T n \<noteq> Some NaN" "1 \<le> current_season c" "current_season c \<le> 200"
  shows "1 \<le> current_season (apply_seasons T t c) \<and> current_season (apply_seasons T t c) \<le> 200"
  using ReadU32_bounds[of T 1 200 "current_season c" t "[''SeasonNumber'', ''Number'', ''Season'']"] assms
  by (simp add: apply_seasons_def)

lemma apply_rifts_ok:
  assumes "\<And>n. n_double T n \<noteq> Some NaN" "range_start c \<le> range_end c" "range_end c \<le> 999"
  shows "range_start (apply_rifts T t c) \<le> range_end (apply_rifts T t c) \<and> range_end (apply_rifts T t c) \<le> 999"
proof -
  have "range_start c \<le> 999" using assms(2,3) by (rule order_trans)
  then show ?thesis
    using ReadU32_bounds[of T 0 999 "range_start c" t "[''RiftRangeStart'', ''RangeStart'', ''RangeMin'']"]
      ReadU32_bounds[of T 0 999 "range_end c" t "[''RiftRangeEnd'', ''RangeEnd'', ''RangeMax'']"] assms
    by (auto simp: apply_rifts_def Let_def)
qed

lemma ReadI32_dim:
  assumes "\<And>n. n_double T n \<noteq> Some NaN" "hi < 2 ^ 31" "- 1 \<le> hi" "dim_ok hi fallback"
  shows "dim_ok hi (ReadI32 T t keys fallback (- 1) hi)"
  using ReadI32_bounds[of T "- 1" hi fallback t keys] assms by (simp add: dim_ok_def)

lemma apply_extra_ok:
  assumes "\<And>n. n_double T n \<noteq> Some NaN" "extra_ok c"
  shows "extra_ok (apply_extra T t c)"
  using assms(2)
  by (simp add: extra_ok_def apply_extra_def kUnset_def kMaxDimension_def kMaxRefreshRate_def
      kMaxBitDepth_def kMaxMsaaLevel_def ReadI32_dim[OF assms(1)])

lemma apply_cheats_ok:
  assumes "\<And>n. n_double T n \<noteq> Some NaN" "speed_ok (move_speed c)" "speed_ok (attack_speed c)"
  shows "speed_ok (move_speed (apply_cheats T t c)) \<and> speed_ok (attack_speed (apply_cheats T t c))"
  using assms(2,3) by (simp add: apply_cheats_def ReadDouble_speed[OF assms(1)])

lemma apply_loot_ok:
  assumes "\<And>n. n_double T n \<noteq> Some NaN" "loot_ok c"
  shows "loot_ok (apply_loot T t c)"
proof -
  define rank where "rank = ReadString T t [''AncientRank''] (AncientRank c)"
  define v where "v = AncientRankToValue rank (AncientRankValue c)"
  have v: "v \<in> {0, 1, 2}" using assms(2) by (auto simp: v_def AncientRankToValue_def loot_ok_def Let_def)
  then have "AncientRankCanonical v rank = AncientRankCanonical v []" by (auto simp: AncientRankCanonical_def)
  moreover have "AncientRankValue (apply_loot T t c) = v" "AncientRank (apply_loot T t c) = AncientRankCanonical v rank"
    "ForcedILevel (apply_loot T t c) = ReadI32 T t [''ForcedILevel''] (ForcedILevel c) 0 70"
    "TieredLootRunLevel (apply_loot T t c) = ReadI32 T t [''TieredLootRunLevel''] (TieredLootRunLevel c) 0 150"
    by (simp_all add: apply_loot_def Let_def rank_def v_def)
  ultimately show ?thesis
    using v assms(2) ReadI32_bounds[of T 0 70 "ForcedILevel c" t "[''ForcedILevel'']"]
      ReadI32_bounds[of T 0 150 "TieredLootRunLevel c" t "[''TieredLootRunLevel'']"] assms(1)
    by (simp add: loot_ok_def)
qed


text \<open>A library without NaN nodes: the defaults are in bounds, so is every loaded configuration.\<close>

definition alist_toml_finite :: "((string \<times> node) list, node) toml" where
  "alist_toml_finite =
     alist_toml\<lparr>n_double := (\<lambda>n. case n of Dbl (Fin x) \<Rightarrow> Some (Fin x) | _ \<Rightarrow> None)\<rparr>"


end
