(* ===== verification/Runtime_Apply.thy ===== *)
theory Runtime_Apply
  imports Config_Props
begin

text \<open>
  Applying a configuration to the running game (\<open>source/program/runtime_apply.cpp\<close>):
  which settings take effect at once, which patches are re-run and which changes
  need a restart.  Calls into the game are the effects of the result, in order; the
  note is the C string of \<open>char note[256]\<close>.
\<close>

section \<open>Restart rules\<close>

text \<open>\<open>!=\<close> on floats: true when an operand is NaN.\<close>

definition fp_differs :: "fp \<Rightarrow> fp \<Rightarrow> bool" where
  "fp_differs a b \<longleftrightarrow> a = NaN \<or> b = NaN \<or> a \<noteq> b"

definition ChangedResolutionHackActive :: "PatchConfig \<Rightarrow> PatchConfig \<Rightarrow> bool" where
  "ChangedResolutionHackActive a b \<longleftrightarrow> rh_active (resolution_hack a) \<noteq> rh_active (resolution_hack b)"

definition ChangedResolutionHackOutputScale :: "PatchConfig \<Rightarrow> PatchConfig \<Rightarrow> bool" where
  "ChangedResolutionHackOutputScale a b \<longleftrightarrow>
     fp_differs (output_handheld_scale (resolution_hack a)) (output_handheld_scale (resolution_hack b))"

definition ChangedResolutionHackSpoofDocked :: "PatchConfig \<Rightarrow> PatchConfig \<Rightarrow> bool" where
  "ChangedResolutionHackSpoofDocked a b \<longleftrightarrow> spoof_docked (resolution_hack a) \<noteq> spoof_docked (resolution_hack b)"

definition ChangedResolutionTargets :: "PatchConfig \<Rightarrow> PatchConfig \<Rightarrow> bool" where
  "ChangedResolutionTargets a b \<longleftrightarrow>
     target_resolution (resolution_hack a) \<noteq> target_resolution (resolution_hack b)
   \<or> OutputHandheldHeightPx (resolution_hack a) \<noteq> OutputHandheldHeightPx (resolution_hack b)"

definition ChangedEnableCrashes :: "PatchConfig \<Rightarrow> PatchConfig \<Rightarrow> bool" where
  "ChangedEnableCrashes a b \<longleftrightarrow> enable_crashes (debug a) \<noteq> enable_crashes (debug b)"

definition ChangedAllowOnline :: "PatchConfig \<Rightarrow> PatchConfig \<Rightarrow> bool" where
  "ChangedAllowOnline a b \<longleftrightarrow> allow_online (seasons a) \<noteq> allow_online (seasons b)"

definition ChangedTagNx :: "PatchConfig \<Rightarrow> PatchConfig \<Rightarrow> bool" where
  "ChangedTagNx a b \<longleftrightarrow> tagnx (debug a) \<noteq> tagnx (debug b)"

definition ChangedDebugFlags :: "PatchConfig \<Rightarrow> PatchConfig \<Rightarrow> bool" where
  "ChangedDebugFlags a b \<longleftrightarrow> enable_debug_flags (debug a) \<noteq> enable_debug_flags (debug b)"

definition ChangedExceptionHandler :: "PatchConfig \<Rightarrow> PatchConfig \<Rightarrow> bool" where
  "ChangedExceptionHandler a b \<longleftrightarrow> enable_exception_handler (debug a) \<noteq> enable_exception_handler (debug b)"

definition ChangedOeNotifications :: "PatchConfig \<Rightarrow> PatchConfig \<Rightarrow> bool" where
  "ChangedOeNotifications a b \<longleftrightarrow> enable_oe_notification_hook (debug a) \<noteq> enable_oe_notification_hook (debug b)"

record RestartRule =
  rule_note :: "string option"
  rule_changed :: "(PatchConfig \<Rightarrow> PatchConfig \<Rightarrow> bool) option"

definition k_restart_rules :: "RestartRule list" where
  "k_restart_rules =
     map (\<lambda>(n, c). \<lparr>rule_note = Some n, rule_changed = Some c\<rparr>)
       [(''Resolution hack'', ChangedResolutionHackActive),
        (''Resolution hack'', ChangedResolutionHackOutputScale),
        (''Spoof docked'', ChangedResolutionHackSpoofDocked),
        (''Resolution targets'', ChangedResolutionTargets),
        (''Crash hooks'', ChangedEnableCrashes),
        (''AllowOnlinePlay'', ChangedAllowOnline),
        (''SpoofNetworkFunctions'', ChangedTagNx),
        (''Debug flags'', ChangedDebugFlags),
        (''Exception handler'', ChangedExceptionHandler),
        (''OE notifications'', ChangedOeNotifications)]"

section \<open>The result\<close>

record RuntimeApplyResult =
  restart_required :: bool
  applied_enable_only :: bool
  result_note :: string

definition new_result :: RuntimeApplyResult where
  "new_result = \<lparr>restart_required = False, applied_enable_only = False, result_note = ''''\<rparr>"

definition note_size :: nat where "note_size = 256"

text \<open>\<open>strncat\<close> appends at most \<open>n\<close> characters.\<close>

definition strncat :: "string \<Rightarrow> string \<Rightarrow> nat \<Rightarrow> string" where
  "strncat dst src n = dst @ take n src"

definition append_note :: "RuntimeApplyResult \<Rightarrow> string option \<Rightarrow> RuntimeApplyResult" where
  "append_note r txt =
     (case txt of
        None \<Rightarrow> r
      | Some [] \<Rightarrow> r
      | Some t \<Rightarrow>
          if result_note r = [] then r\<lparr>result_note := take (note_size - 1) t\<rparr>
          else
            let len = length (result_note r) in
            if note_size \<le> len + 2 then r
            else
              let n = strncat (result_note r) '', '' (note_size - len - 1)
              in r\<lparr>result_note := strncat n t (note_size - length n - 1)\<rparr>)"

definition require_restart_if :: "RuntimeApplyResult \<Rightarrow> bool \<Rightarrow> string option \<Rightarrow> RuntimeApplyResult" where
  "require_restart_if r cond n =
     (if \<not> cond then r else append_note (r\<lparr>restart_required := True\<rparr>) n)"

definition infinite_mp_effective :: "PatchConfig \<Rightarrow> bool" where
  "infinite_mp_effective cfg \<longleftrightarrow>
     rc_active (rare_cheats cfg) \<and> (super_god_mode (rare_cheats cfg) \<or> infinite_mp (rare_cheats cfg))"

section \<open>Applying\<close>

text \<open>Calls into the game.\<close>

datatype effect =
    XVarOnlineServicePTR bool
  | XVarExperimentalScheduling bool
  | PatchInfiniteMp bool
  | PatchBuildlocker
  | PatchDynamicEvents
  | PatchDynamicSeasonal
  | UpdateDynamicSeasonalForSpawn

definition buildlocker_on :: "PatchConfig \<Rightarrow> bool" where
  "buildlocker_on c \<longleftrightarrow> ov_active (overlays c) \<and> buildlocker_watermark (overlays c)"

type_synonym apply_state = "RuntimeApplyResult \<times> effect list"

definition apply_infinite_mp :: "PatchConfig \<Rightarrow> PatchConfig \<Rightarrow> apply_state \<Rightarrow> apply_state" where
  "apply_infinite_mp prev cur s =
     (case s of (r, es) \<Rightarrow>
        if infinite_mp_effective prev \<noteq> infinite_mp_effective cur
        then (append_note r (Some ''Infinite MP''), es @ [PatchInfiniteMp (infinite_mp_effective cur)])
        else (r, es))"

definition apply_buildlocker :: "PatchConfig \<Rightarrow> PatchConfig \<Rightarrow> apply_state \<Rightarrow> apply_state" where
  "apply_buildlocker prev cur s =
     (case s of (r, es) \<Rightarrow>
        if buildlocker_on cur \<and> \<not> buildlocker_on prev
        then (append_note (r\<lparr>applied_enable_only := True\<rparr>) (Some ''BuildLocker''), es @ [PatchBuildlocker])
        else if buildlocker_on prev \<and> \<not> buildlocker_on cur
        then (require_restart_if r True (Some ''BuildLocker''), es)
        else (r, es))"

definition apply_dynamic :: "PatchConfig \<Rightarrow> PatchConfig \<Rightarrow> apply_state \<Rightarrow> apply_state" where
  "apply_dynamic prev cur s =
     (let (r, es) = s;
          (r, es) =
            (if ev_active (events cur) then (r, es @ [PatchDynamicEvents])
             else if ev_active (events prev) then (require_restart_if r True (Some ''Events''), es)
             else (r, es))
      in if sea_active (seasons cur) then (r, es @ [PatchDynamicSeasonal])
         else if sea_active (seasons prev)
         then (require_restart_if r True (Some ''Seasons''), es @ [UpdateDynamicSeasonalForSpawn])
         else (r, es))"

definition apply_rule :: "PatchConfig \<Rightarrow> PatchConfig \<Rightarrow> RestartRule \<Rightarrow> RuntimeApplyResult \<Rightarrow> RuntimeApplyResult" where
  "apply_rule prev cur rule r =
     (if rule_note rule = None \<or> rule_note rule = Some [] then r
      else
        case rule_changed rule of
          None \<Rightarrow> r
        | Some changed \<Rightarrow> require_restart_if r (changed prev cur) (rule_note rule))"

text \<open>The new global configuration, the result and the effects.\<close>

definition ApplyPatchConfigRuntime ::
  "PatchConfig \<Rightarrow> PatchConfig \<Rightarrow> PatchConfig \<times> RuntimeApplyResult \<times> effect list" where
  "ApplyPatchConfigRuntime prev config =
     (let cur = config\<lparr>initialized := True, defaults_only := False\<rparr>;
          s = (new_result,
               [XVarOnlineServicePTR (spoof_ptr (seasons cur)),
                XVarExperimentalScheduling (exp_scheduler (resolution_hack cur))]);
          s = apply_infinite_mp prev cur s;
          s = apply_buildlocker prev cur s;
          (r, es) = apply_dynamic prev cur s;
          r = fold (apply_rule prev cur) k_restart_rules r
      in (cur, r, es))"

section \<open>The note\<close>

text \<open>
  What a result depends on: whether each reason applies, in the order in which the
  code checks them.  The first two are not restarts when something is turned on.
\<close>

definition conditions :: "PatchConfig \<Rightarrow> PatchConfig \<Rightarrow> (bool \<times> string) list" where
  "conditions prev cur =
     [(infinite_mp_effective prev \<noteq> infinite_mp_effective cur, ''Infinite MP''),
      (buildlocker_on prev \<noteq> buildlocker_on cur, ''BuildLocker''),
      (ev_active (events prev) \<and> \<not> ev_active (events cur), ''Events''),
      (sea_active (seasons prev) \<and> \<not> sea_active (seasons cur), ''Seasons'')]
   @ map (\<lambda>rule. (the (rule_changed rule) prev cur, the (rule_note rule))) k_restart_rules"

definition reasons :: "(bool \<times> string) list \<Rightarrow> string list" where
  "reasons cts = map snd (filter fst cts)"

fun comma_list :: "string list \<Rightarrow> string" where
  "comma_list [] = []"
| "comma_list [t] = t"
| "comma_list (t # ts) = t @ '', '' @ comma_list ts"

definition joined_length :: "string list \<Rightarrow> nat" where
  "joined_length ts = sum_list (map (\<lambda>t. length t + 2) ts)"

lemma comma_list_snoc: "ts \<noteq> [] \<Longrightarrow> comma_list (ts @ [t]) = comma_list ts @ '', '' @ t"
  by (induction ts rule: comma_list.induct) auto

lemma comma_list_empty: "[] \<notin> set ts \<Longrightarrow> comma_list ts = [] \<longleftrightarrow> ts = []"
  by (induction ts rule: comma_list.induct) auto

lemma comma_list_length: "length (comma_list ts) \<le> joined_length ts"
  by (induction ts rule: comma_list.induct) (auto simp: joined_length_def)

lemma append_note_length: "length (result_note r) < note_size \<Longrightarrow> length (result_note (append_note r t)) < note_size"
  by (auto simp: append_note_def strncat_def note_size_def Let_def split: option.split list.split)

lemma append_note_joins:
  assumes "result_note r = comma_list ts" "[] \<notin> set ts" "t \<noteq> []" "joined_length (ts @ [t]) < note_size"
  shows "result_note (append_note r (Some t)) = comma_list (ts @ [t])"
proof (cases "ts = []")
  case True
  then show ?thesis using assms by (cases t) (auto simp: append_note_def joined_length_def)
next
  case False
  then have "comma_list ts \<noteq> []" using assms(2) comma_list_empty by blast
  moreover have "length (comma_list ts) + 2 + length t < note_size"
    using comma_list_length[of ts] assms(4) by (simp add: joined_length_def)
  ultimately show ?thesis
    using assms(1,3) comma_list_snoc[OF False] by (cases t) (auto simp: append_note_def strncat_def Let_def)
qed

definition add_note :: "string \<Rightarrow> string \<Rightarrow> string" where
  "add_note n t = result_note (append_note (new_result\<lparr>result_note := n\<rparr>) (Some t))"

lemma append_note_simps [simp]:
  "result_note (append_note r (Some t)) = add_note (result_note r) t"
  "restart_required (append_note r x) = restart_required r"
  "applied_enable_only (append_note r x) = applied_enable_only r"
  by (auto simp: append_note_def add_note_def new_result_def Let_def split: option.split list.split)

lemma require_restart_simps [simp]:
  "result_note (require_restart_if r c (Some t)) = (if c then add_note (result_note r) t else result_note r)"
  "restart_required (require_restart_if r c x) = (restart_required r \<or> c)"
  by (simp_all add: require_restart_if_def)

lemma add_note_joins:
  assumes "[] \<notin> set ts" "t \<noteq> []" "joined_length (ts @ [t]) < note_size"
  shows "add_note (comma_list ts) t = comma_list (ts @ [t])"
  unfolding add_note_def by (rule append_note_joins[OF _ assms]) simp

definition add_if :: "bool \<times> string \<Rightarrow> string \<Rightarrow> string" where
  "add_if ct n = (if fst ct then add_note n (snd ct) else n)"

lemma fold_add_if:
  assumes "[] \<notin> set ts" "[] \<notin> snd ` set cts" "joined_length (ts @ map snd cts) < note_size"
  shows "fold add_if cts (comma_list ts) = comma_list (ts @ reasons cts)"
  using assms
proof (induction cts arbitrary: ts)
  case Nil
  then show ?case by (simp add: reasons_def)
next
  case (Cons ct cts)
  show ?case
  proof (cases "fst ct")
    case False
    then have "fold add_if cts (comma_list ts) = comma_list (ts @ reasons cts)"
      using Cons.prems by (intro Cons.IH) (auto simp: joined_length_def)
    moreover have "add_if ct n = n" for n using False by (simp add: add_if_def)
    ultimately show ?thesis using False by (simp add: reasons_def)
  next
    case True
    have "add_note (comma_list ts) (snd ct) = comma_list (ts @ [snd ct])"
      using Cons.prems by (intro add_note_joins) (auto simp: joined_length_def)
    moreover have "fold add_if cts (comma_list (ts @ [snd ct])) = comma_list ((ts @ [snd ct]) @ reasons cts)"
      using Cons.prems by (intro Cons.IH) (auto simp: joined_length_def)
    moreover have "add_if ct n = add_note n (snd ct)" for n using True by (simp add: add_if_def)
    ultimately show ?thesis using True by (simp add: reasons_def)
  qed
qed

lemma conditions_fit: "[] \<notin> snd ` set (conditions prev cur)" "joined_length (map snd (conditions prev cur)) < note_size"
  by (simp_all add: conditions_def k_restart_rules_def joined_length_def note_size_def)

lemma rules_have_notes:
  "rule \<in> set k_restart_rules \<Longrightarrow>
     rule_note rule = Some (the (rule_note rule)) \<and> the (rule_note rule) \<noteq> []
   \<and> rule_changed rule = Some (the (rule_changed rule))"
  by (auto simp: k_restart_rules_def)

lemma apply_rule_eq:
  assumes "rule \<in> set k_restart_rules"
  shows "apply_rule prev cur rule r =
    require_restart_if r (the (rule_changed rule) prev cur) (Some (the (rule_note rule)))"
proof -
  obtain n c where "rule = \<lparr>rule_note = Some n, rule_changed = Some c\<rparr>" "n \<noteq> []"
    using rules_have_notes[OF assms] by (metis RestartRule.surjective old.unit.exhaust)
  then show ?thesis by (simp add: apply_rule_def)
qed

lemma fold_rules:
  assumes "set rules \<subseteq> set k_restart_rules"
  shows "result_note (fold (apply_rule prev cur) rules r) =
      fold add_if (map (\<lambda>rule. (the (rule_changed rule) prev cur, the (rule_note rule))) rules) (result_note r)"
    and "restart_required (fold (apply_rule prev cur) rules r) \<longleftrightarrow>
      restart_required r \<or> (\<exists>rule \<in> set rules. the (rule_changed rule) prev cur)"
  using assms by (induction rules arbitrary: r) (auto simp: apply_rule_eq add_if_def)

section \<open>Properties\<close>

lemma apply_result:
  assumes "ApplyPatchConfigRuntime prev config = (cur, r, es)"
  shows "result_note r = fold add_if (conditions prev cur) ''''"
    and "restart_required r \<longleftrightarrow>
      buildlocker_on prev \<and> \<not> buildlocker_on cur
    \<or> ev_active (events prev) \<and> \<not> ev_active (events cur)
    \<or> sea_active (seasons prev) \<and> \<not> sea_active (seasons cur)
    \<or> (\<exists>rule \<in> set k_restart_rules. the (rule_changed rule) prev cur)"
    and "cur = config\<lparr>initialized := True, defaults_only := False\<rparr>"
proof -
  show cur: "cur = config\<lparr>initialized := True, defaults_only := False\<rparr>"
    using assms by (auto simp: ApplyPatchConfigRuntime_def Let_def split: prod.splits)
  define s0 :: apply_state where "s0 = (new_result, [XVarOnlineServicePTR (spoof_ptr (seasons cur)),
      XVarExperimentalScheduling (exp_scheduler (resolution_hack cur))])"
  define s1 where "s1 = apply_infinite_mp prev cur s0"
  define s2 where "s2 = apply_buildlocker prev cur s1"
  define s3 where "s3 = apply_dynamic prev cur s2"
  have r: "r = fold (apply_rule prev cur) k_restart_rules (fst s3)"
    using assms cur by (auto simp: ApplyPatchConfigRuntime_def Let_def s0_def s1_def s2_def s3_def split: prod.splits)
  have n0: "result_note (fst s0) = ''''" "\<not> restart_required (fst s0)" by (simp_all add: s0_def new_result_def)
  have n1: "result_note (fst s1) = add_if (infinite_mp_effective prev \<noteq> infinite_mp_effective cur, ''Infinite MP'') ''''"
    "\<not> restart_required (fst s1)"
    using n0 by (auto simp: s1_def apply_infinite_mp_def add_if_def split: prod.splits)
  have n2: "result_note (fst s2) = add_if (buildlocker_on prev \<noteq> buildlocker_on cur, ''BuildLocker'') (result_note (fst s1))"
    "restart_required (fst s2) \<longleftrightarrow> buildlocker_on prev \<and> \<not> buildlocker_on cur"
    using n1 by (auto simp: s2_def apply_buildlocker_def add_if_def split: prod.splits)
  have n3: "result_note (fst s3) =
      add_if (sea_active (seasons prev) \<and> \<not> sea_active (seasons cur), ''Seasons'')
        (add_if (ev_active (events prev) \<and> \<not> ev_active (events cur), ''Events'') (result_note (fst s2)))"
    "restart_required (fst s3) \<longleftrightarrow> restart_required (fst s2)
      \<or> ev_active (events prev) \<and> \<not> ev_active (events cur) \<or> sea_active (seasons prev) \<and> \<not> sea_active (seasons cur)"
    by (auto simp: s3_def apply_dynamic_def add_if_def Let_def split: prod.splits)
  show "result_note r = fold add_if (conditions prev cur) ''''"
    unfolding r conditions_def using fold_rules(1)[OF subset_refl] n1(1) n2(1) n3(1) by simp
  show "restart_required r \<longleftrightarrow>
      buildlocker_on prev \<and> \<not> buildlocker_on cur
    \<or> ev_active (events prev) \<and> \<not> ev_active (events cur)
    \<or> sea_active (seasons prev) \<and> \<not> sea_active (seasons cur)
    \<or> (\<exists>rule \<in> set k_restart_rules. the (rule_changed rule) prev cur)"
    unfolding r using fold_rules(2)[OF subset_refl] n2(2) n3(2) by blast
qed

text \<open>
  The note shown to the user is the complete list of what changed, in order and
  separated by commas: the 256-byte buffer and its two length checks never cut it,
  whatever the two configurations are, and it stays terminated.
\<close>
lemma note_is_complete:
  assumes "ApplyPatchConfigRuntime prev config = (cur, r, es)"
  shows "result_note r = comma_list (reasons (conditions prev cur)) \<and> length (result_note r) < note_size"
proof -
  have "result_note r = comma_list (reasons (conditions prev cur))"
    using apply_result(1)[OF assms] fold_add_if[of "[]" "conditions prev cur"] conditions_fit by simp
  moreover have "joined_length (reasons cts) \<le> joined_length (map snd cts)" for cts
    by (induction cts) (auto simp: reasons_def joined_length_def)
  then have "length (comma_list (reasons (conditions prev cur))) < note_size"
    using comma_list_length[of "reasons (conditions prev cur)"] conditions_fit(2)[of prev cur]
    by (meson le_less_trans order_trans)
  ultimately show ?thesis by simp
qed

lemmas Changed_defs =
  ChangedResolutionHackActive_def ChangedResolutionHackOutputScale_def
  ChangedResolutionHackSpoofDocked_def ChangedResolutionTargets_def ChangedEnableCrashes_def
  ChangedAllowOnline_def ChangedTagNx_def ChangedDebugFlags_def ChangedExceptionHandler_def
  ChangedOeNotifications_def

lemma ex_rule:
  "(\<exists>rule \<in> set k_restart_rules. the (rule_changed rule) p c) \<longleftrightarrow>
     ChangedResolutionHackActive p c \<or> ChangedResolutionHackOutputScale p c
   \<or> ChangedResolutionHackSpoofDocked p c \<or> ChangedResolutionTargets p c \<or> ChangedEnableCrashes p c
   \<or> ChangedAllowOnline p c \<or> ChangedTagNx p c \<or> ChangedDebugFlags p c
   \<or> ChangedExceptionHandler p c \<or> ChangedOeNotifications p c"
  by (simp add: k_restart_rules_def)

text \<open>
  A restart is asked for exactly when a patch that cannot be undone is turned
  off (build locker, events, seasons) or one of the settings read only at start-up
  changes; and the result then says why: the note is not empty.
\<close>
lemma restart_required_iff:
  assumes "ApplyPatchConfigRuntime prev config = (cur, r, es)"
  shows "(restart_required r \<longleftrightarrow>
      buildlocker_on prev \<and> \<not> buildlocker_on config
    \<or> ev_active (events prev) \<and> \<not> ev_active (events config)
    \<or> sea_active (seasons prev) \<and> \<not> sea_active (seasons config)
    \<or> rh_active (resolution_hack prev) \<noteq> rh_active (resolution_hack config)
    \<or> fp_differs (output_handheld_scale (resolution_hack prev)) (output_handheld_scale (resolution_hack config))
    \<or> spoof_docked (resolution_hack prev) \<noteq> spoof_docked (resolution_hack config)
    \<or> target_resolution (resolution_hack prev) \<noteq> target_resolution (resolution_hack config)
    \<or> OutputHandheldHeightPx (resolution_hack prev) \<noteq> OutputHandheldHeightPx (resolution_hack config)
    \<or> enable_crashes (debug prev) \<noteq> enable_crashes (debug config)
    \<or> allow_online (seasons prev) \<noteq> allow_online (seasons config)
    \<or> tagnx (debug prev) \<noteq> tagnx (debug config)
    \<or> enable_debug_flags (debug prev) \<noteq> enable_debug_flags (debug config)
    \<or> enable_exception_handler (debug prev) \<noteq> enable_exception_handler (debug config)
    \<or> enable_oe_notification_hook (debug prev) \<noteq> enable_oe_notification_hook (debug config))
    \<and> (restart_required r \<longrightarrow> result_note r \<noteq> '''')"
proof -
  note a = apply_result[OF assms]
  have same: "buildlocker_on cur = buildlocker_on config" "events cur = events config" "seasons cur = seasons config"
    "resolution_hack cur = resolution_hack config" "debug cur = debug config"
    by (simp_all add: a(3) buildlocker_on_def)
  have rules: "(\<exists>rule \<in> set k_restart_rules. the (rule_changed rule) prev cur) \<longleftrightarrow>
      rh_active (resolution_hack prev) \<noteq> rh_active (resolution_hack config)
    \<or> fp_differs (output_handheld_scale (resolution_hack prev)) (output_handheld_scale (resolution_hack config))
    \<or> spoof_docked (resolution_hack prev) \<noteq> spoof_docked (resolution_hack config)
    \<or> target_resolution (resolution_hack prev) \<noteq> target_resolution (resolution_hack config)
    \<or> OutputHandheldHeightPx (resolution_hack prev) \<noteq> OutputHandheldHeightPx (resolution_hack config)
    \<or> enable_crashes (debug prev) \<noteq> enable_crashes (debug config)
    \<or> allow_online (seasons prev) \<noteq> allow_online (seasons config)
    \<or> tagnx (debug prev) \<noteq> tagnx (debug config)
    \<or> enable_debug_flags (debug prev) \<noteq> enable_debug_flags (debug config)
    \<or> enable_exception_handler (debug prev) \<noteq> enable_exception_handler (debug config)
    \<or> enable_oe_notification_hook (debug prev) \<noteq> enable_oe_notification_hook (debug config)"
    unfolding ex_rule Changed_defs same by (simp only: disj_assoc)
  have "result_note r = comma_list (reasons (conditions prev cur))"
    using a(1) fold_add_if[of "[]" "conditions prev cur"] conditions_fit by simp
  moreover have "reasons (conditions prev cur) \<noteq> []" if "restart_required r"
    using that a(2) by (auto simp: reasons_def conditions_def filter_empty_conv)
  moreover have "[] \<notin> set (reasons (conditions prev cur))"
    using conditions_fit(1) by (auto simp: reasons_def)
  ultimately have "restart_required r \<longrightarrow> result_note r \<noteq> ''''" using comma_list_empty by metis
  then show ?thesis using a(2) rules same by simp
qed

text \<open>
  A setting of the schema that is marked as needing a restart but has no rule: the
  minimum resolution scale changes and no restart is asked for.
\<close>
lemma min_res_scale_no_restart:
  "\<not> restart_required (fst (snd (ApplyPatchConfigRuntime default_PatchConfig
      (default_PatchConfig\<lparr>resolution_hack := (resolution_hack default_PatchConfig)\<lparr>min_res_scale := Fin 50\<rparr>\<rparr>))))"
proof -
  let ?c = "default_PatchConfig\<lparr>resolution_hack := (resolution_hack default_PatchConfig)\<lparr>min_res_scale := Fin 50\<rparr>\<rparr>"
  obtain cur r es where a: "ApplyPatchConfigRuntime default_PatchConfig ?c = (cur, r, es)" by (metis prod_cases3)
  have h: "OutputHandheldHeightPx (c\<lparr>min_res_scale := v\<rparr>) = OutputHandheldHeightPx c" for c v
  proof -
    have "target_resolution (c\<lparr>min_res_scale := v\<rparr>) = target_resolution c"
      "output_handheld_scale (c\<lparr>min_res_scale := v\<rparr>) = output_handheld_scale c" by simp_all
    then show ?thesis by (simp only: OutputHandheldHeightPx_def HandheldScaleFraction_def)
  qed
  have "output_handheld_scale (resolution_hack default_PatchConfig) \<noteq> NaN"
    by (simp add: default_PatchConfig_def default_resolution_hack_def)
  then show ?thesis
    using apply_result(2,3)[OF a] a h
    by (auto simp: ex_rule Changed_defs fp_differs_def buildlocker_on_def)
qed

end
