(* ===== verification/Log_Once.thy ===== *)
theory Log_Once
  imports Prelude
begin

text \<open>
  The lock-free "log once" gate (\<open>source/program/log_once.cpp\<close>): an FNV-1a hash and
  a table of 128 atomic words searched by linear probing.  The code is given twice:
  as the function a single caller sees, and as a step relation in which each step is
  one compare-and-exchange of one of several threads.
\<close>

section \<open>The code\<close>

definition kMaxKeys :: nat where "kMaxKeys = 128"

definition Fnv1a64 :: "string \<Rightarrow> u64" where
  "Fnv1a64 s = foldl (\<lambda>hash c. (hash XOR of_nat (of_char c)) * 1099511628211) 14695981039346656037 s"

text \<open>The key stored for a string: 0 marks a free slot.\<close>

definition key_hash :: "string \<Rightarrow> u64" where
  "key_hash key = (let hash = Fnv1a64 key in if hash = 0 then 1 else hash)"

definition probe_index :: "u64 \<Rightarrow> nat \<Rightarrow> nat" where
  "probe_index hash step = (unat hash mod kMaxKeys + step) mod kMaxKeys"

text \<open>\<open>compare_exchange_strong\<close>: the new table, whether it exchanged, and the value seen.\<close>

definition compare_exchange :: "u64 list \<Rightarrow> nat \<Rightarrow> u64 \<Rightarrow> u64 \<Rightarrow> u64 list \<times> bool \<times> u64" where
  "compare_exchange g_keys idx expected desired =
     (if g_keys ! idx = expected then (g_keys[idx := desired], True, expected)
      else (g_keys, False, g_keys ! idx))"

function probe_loop :: "u64 list \<Rightarrow> u64 \<Rightarrow> nat \<Rightarrow> u64 list \<times> bool" where
  "probe_loop g_keys hash step =
     (if step < kMaxKeys then
        case compare_exchange g_keys (probe_index hash step) 0 hash of
          (g_keys, True, _) \<Rightarrow> (g_keys, True)
        | (g_keys, False, expected) \<Rightarrow>
            if expected = hash then (g_keys, False) else probe_loop g_keys hash (step + 1)
      else (g_keys, True))"
  by pat_completeness auto

termination by (relation "measure (\<lambda>(_, _, step). kMaxKeys - step)") auto

declare probe_loop.simps [simp del]

text \<open>A null key is \<open>None\<close>.\<close>

definition ShouldLog :: "u64 list \<Rightarrow> string option \<Rightarrow> u64 list \<times> bool" where
  "ShouldLog g_keys key =
     (case key of
        None \<Rightarrow> (g_keys, True)
      | Some [] \<Rightarrow> (g_keys, True)
      | Some s \<Rightarrow> probe_loop g_keys (key_hash s) 0)"

definition empty_keys :: "u64 list" where "empty_keys = replicate kMaxKeys 0"

section \<open>Threads\<close>

text \<open>
  A caller is probing, has claimed a free slot, has met its own hash, or has found
  the table full; it logs when it claimed a slot or met a full table.
\<close>

datatype phase = Probing nat | Claimed | Seen | Full

type_synonym thread = "u64 \<times> phase"

definition logs :: "thread \<Rightarrow> bool" where
  "logs t = (snd t = Claimed \<or> snd t = Full)"

inductive caller_step :: "u64 list \<times> thread list \<Rightarrow> u64 list \<times> thread list \<Rightarrow> bool" where
  claim: "i < length ts \<Longrightarrow> ts ! i = (h, Probing k) \<Longrightarrow> k < kMaxKeys \<Longrightarrow>
      compare_exchange g (probe_index h k) 0 h = (g', True, e) \<Longrightarrow>
      caller_step (g, ts) (g', ts[i := (h, Claimed)])"
| meet: "i < length ts \<Longrightarrow> ts ! i = (h, Probing k) \<Longrightarrow> k < kMaxKeys \<Longrightarrow>
      compare_exchange g (probe_index h k) 0 h = (g', False, h) \<Longrightarrow>
      caller_step (g, ts) (g', ts[i := (h, Seen)])"
| advance: "i < length ts \<Longrightarrow> ts ! i = (h, Probing k) \<Longrightarrow> k < kMaxKeys \<Longrightarrow>
      compare_exchange g (probe_index h k) 0 h = (g', False, e) \<Longrightarrow> e \<noteq> h \<Longrightarrow>
      caller_step (g, ts) (g', ts[i := (h, Probing (k + 1))])"
| give_up: "i < length ts \<Longrightarrow> ts ! i = (h, Probing k) \<Longrightarrow> \<not> k < kMaxKeys \<Longrightarrow>
      caller_step (g, ts) (g, ts[i := (h, Full)])"

inductive_cases caller_stepE: "caller_step s t"

definition started :: "u64 list \<Rightarrow> thread list" where
  "started hs = map (\<lambda>h. (h, Probing 0)) hs"

section \<open>The invariant of the table\<close>

text \<open>
  A caller that has made \<open>k\<close> probes has passed \<open>k\<close> slots that hold other hashes,
  and every stored hash sits behind such a path: so no hash is stored twice.
\<close>

definition passed :: "u64 list \<Rightarrow> u64 \<Rightarrow> nat \<Rightarrow> bool" where
  "passed g h k \<longleftrightarrow> (\<forall>j < k. g ! probe_index h j \<noteq> 0 \<and> g ! probe_index h j \<noteq> h)"

definition table_ok :: "u64 list \<Rightarrow> bool" where
  "table_ok g \<longleftrightarrow> length g = kMaxKeys
     \<and> (\<forall>h k. h \<noteq> 0 \<longrightarrow> k < kMaxKeys \<longrightarrow> g ! probe_index h k = h \<longrightarrow> passed g h k)"

lemma probe_index_less [simp]: "probe_index h k < kMaxKeys"
  by (simp add: probe_index_def kMaxKeys_def)

lemma probe_index_inj:
  assumes "j < kMaxKeys" "k < kMaxKeys" "probe_index h j = probe_index h k"
  shows "j = k"
proof -
  define a where "a = int (unat h mod 128)"
  have "int (probe_index h j) = int (probe_index h k)" using assms(3) by simp
  then have "(a + int j) mod 128 = (a + int k) mod 128"
    by (simp only: probe_index_def kMaxKeys_def a_def of_nat_mod of_nat_add of_nat_numeral)
  then have "int j mod 128 = int k mod 128"
    by (simp add: mod_eq_dvd_iff)
  then show ?thesis using assms(1,2) by (simp add: kMaxKeys_def)
qed

lemma probe_index_onto:
  assumes "p < kMaxKeys"
  shows "\<exists>k < kMaxKeys. probe_index h k = p"
proof -
  have "inj_on (probe_index h) {..<kMaxKeys}" by (rule inj_onI) (auto intro: probe_index_inj)
  moreover have "probe_index h ` {..<kMaxKeys} \<subseteq> {..<kMaxKeys}" by auto
  ultimately have "probe_index h ` {..<kMaxKeys} = {..<kMaxKeys}"
    by (intro endo_inj_surj) simp_all
  then show ?thesis using assms by (metis imageE lessThan_iff)
qed

lemma empty_keys_ok: "table_ok empty_keys"
  by (auto simp: table_ok_def empty_keys_def)

lemma passed_all:
  assumes "passed g h kMaxKeys" "length g = kMaxKeys"
  shows "0 \<notin> set g" "h \<notin> set g"
proof -
  have "g ! p \<noteq> 0 \<and> g ! p \<noteq> h" if "p < kMaxKeys" for p
    using probe_index_onto[OF that, of h] assms(1) by (auto simp: passed_def)
  then show "0 \<notin> set g" "h \<notin> set g" using assms(2) by (auto simp: in_set_conv_nth)
qed

lemma passed_step: "passed g h k \<Longrightarrow> g ! probe_index h k \<noteq> 0 \<Longrightarrow> g ! probe_index h k \<noteq> h \<Longrightarrow> passed g h (k + 1)"
  unfolding passed_def by (metis less_SucE Suc_eq_plus1)

lemma passed_claim:
  assumes "passed g h' j" "g ! p = 0"
  shows "passed (g[p := h]) h' j"
proof -
  have "p \<noteq> probe_index h' i" if "i < j" for i using assms that by (auto simp: passed_def)
  then show ?thesis using assms(1) by (simp add: passed_def)
qed

lemma claim_ok:
  assumes ok: "table_ok g" and p: "passed g h k" and "k < kMaxKeys" "g ! probe_index h k = 0" "h \<noteq> 0"
  shows "table_ok (g[probe_index h k := h])"
proof -
  let ?p = "probe_index h k"
  have len: "length g = kMaxKeys" using ok by (simp add: table_ok_def)
  have "passed (g[?p := h]) h' j"
    if "h' \<noteq> 0" "j < kMaxKeys" "g[?p := h] ! probe_index h' j = h'" for h' j
  proof (cases "h' = h")
    case True
    have "j = k"
    proof (rule ccontr)
      assume "j \<noteq> k"
      then have "probe_index h j \<noteq> ?p" using probe_index_inj that(2) assms(3) by blast
      then have e: "g ! probe_index h j = h" using that(3) True by simp
      then have pj: "passed g h j" using ok that(2) assms(5) by (simp add: table_ok_def)
      show False
      proof (cases "j < k")
        case True
        then show ?thesis using p e by (simp add: passed_def)
      next
        case False
        then show ?thesis using pj assms(4) \<open>j \<noteq> k\<close> by (simp add: passed_def)
      qed
    qed
    then show ?thesis using True passed_claim[OF p assms(4)] by simp
  next
    case False
    have "probe_index h' j \<noteq> ?p"
    proof
      assume "probe_index h' j = ?p"
      then show False using that(3) False len by simp
    qed
    then have "g ! probe_index h' j = h'" using that(3) by simp
    then have "passed g h' j" using ok that by (simp add: table_ok_def)
    then show ?thesis using assms(4) by (rule passed_claim)
  qed
  then show ?thesis using len by (simp add: table_ok_def)
qed

lemma table_ok_unique:
  assumes "table_ok g" "h \<noteq> 0" "p < kMaxKeys" "q < kMaxKeys" "g ! p = h" "g ! q = h"
  shows "p = q"
proof -
  obtain j k where j: "j < kMaxKeys" "probe_index h j = p" and k: "k < kMaxKeys" "probe_index h k = q"
    using probe_index_onto assms(3,4) by metis
  have "passed g h j" "passed g h k" using assms j k by (auto simp: table_ok_def)
  then have "\<not> j < k" "\<not> k < j" using assms(5,6) j k by (auto simp: passed_def)
  then show ?thesis using j k by simp
qed

lemma claim_fresh:
  assumes ok: "table_ok g" and p: "passed g h k" and k: "k < kMaxKeys" "g ! probe_index h k = 0" "h \<noteq> 0"
  shows "h \<notin> set g"
proof
  assume "h \<in> set g"
  then obtain q where "q < kMaxKeys" "g ! q = h" using ok by (auto simp: in_set_conv_nth table_ok_def)
  then obtain d where d: "d < kMaxKeys" "g ! probe_index h d = h" using probe_index_onto by metis
  then have "passed g h d" using ok k(3) by (simp add: table_ok_def)
  then have "\<not> k < d" "\<not> d < k" using p k d by (auto simp: passed_def)
  then show False using d(2) k(2,3) by simp
qed

lemma in_set_upd: "h' \<in> set g \<Longrightarrow> g ! p = 0 \<Longrightarrow> h' \<noteq> 0 \<Longrightarrow> h' \<in> set (g[p := h])"
  by (auto simp: in_set_conv_nth) (metis nth_list_update_neq)

section \<open>The invariant of the threads\<close>

fun thread_ok :: "u64 list \<Rightarrow> thread \<Rightarrow> bool" where
  "thread_ok g (h, Probing k) \<longleftrightarrow> h \<noteq> 0 \<and> k \<le> kMaxKeys \<and> passed g h k"
| "thread_ok g (h, Claimed) \<longleftrightarrow> h \<noteq> 0 \<and> h \<in> set g"
| "thread_ok g (h, Seen) \<longleftrightarrow> h \<noteq> 0 \<and> h \<in> set g"
| "thread_ok g (h, Full) \<longleftrightarrow> h \<noteq> 0 \<and> passed g h kMaxKeys"

text \<open>Each stored hash has exactly one thread that claimed its slot.\<close>

definition callers_ok :: "u64 list \<times> thread list \<Rightarrow> bool" where
  "callers_ok s \<longleftrightarrow> table_ok (fst s) \<and> (\<forall>t \<in> set (snd s). thread_ok (fst s) t)
     \<and> (\<forall>h. h \<noteq> 0 \<longrightarrow> h \<in> set (fst s) \<longrightarrow> (\<exists>!i. i < length (snd s) \<and> snd s ! i = (h, Claimed)))"

lemma thread_ok_upd:
  assumes "thread_ok g t" "g ! p = 0"
  shows "thread_ok (g[p := h]) t"
  using assms by (cases "(g, t)" rule: thread_ok.cases) (auto intro: passed_claim in_set_upd)

lemma started_ok: "0 \<notin> set hs \<Longrightarrow> callers_ok (empty_keys, started hs)"
  by (auto simp: callers_ok_def started_def empty_keys_ok passed_def) (auto simp: empty_keys_def)

lemma callers_ok_upd:
  assumes ok: "callers_ok (g, ts)" and i: "i < length ts" "ts ! i = (h, Probing k)"
    and t: "thread_ok g (h, ph)" "ph \<noteq> Claimed"
  shows "callers_ok (g, ts[i := (h, ph)])"
proof -
  have "j < length (ts[i := (h, ph)]) \<and> ts[i := (h, ph)] ! j = (h', Claimed) \<longleftrightarrow> j < length ts \<and> ts ! j = (h', Claimed)"
    for j h' using i t(2) by (cases "j = i") auto
  moreover have "\<forall>t \<in> set (ts[i := (h, ph)]). thread_ok g t"
    using ok t(1) set_update_subset_insert[of ts i "(h, ph)"] by (auto simp: callers_ok_def)
  ultimately show ?thesis using ok by (simp add: callers_ok_def)
qed

lemma callers_ok_claim:
  assumes ok: "callers_ok (g, ts)" and i: "i < length ts" "ts ! i = (h, Probing k)"
    and k: "k < kMaxKeys" "g ! probe_index h k = 0"
  shows "callers_ok (g[probe_index h k := h], ts[i := (h, Claimed)])"
proof -
  let ?g = "g[probe_index h k := h]" and ?ts = "ts[i := (h, Claimed)]"
  have "thread_ok g (h, Probing k)" using ok i by (metis callers_ok_def fst_conv nth_mem snd_conv)
  then have h: "h \<noteq> 0" and p: "passed g h k" by simp_all
  have tok: "table_ok g" and len: "length g = kMaxKeys" using ok by (auto simp: callers_ok_def table_ok_def)
  have fresh: "h \<notin> set g" by (rule claim_fresh[OF tok p k h])
  have new: "h \<in> set ?g" using len by (metis probe_index_less set_update_memI)
  have "\<forall>t \<in> set ?ts. thread_ok ?g t"
    using ok thread_ok_upd[OF _ k(2)] h new set_update_subset_insert[of ts i "(h, Claimed)"]
    by (auto simp: callers_ok_def)
  moreover have "\<exists>!j. j < length ?ts \<and> ?ts ! j = (h', Claimed)" if "h' \<noteq> 0" "h' \<in> set ?g" for h'
  proof (cases "h' = h")
    case True
    have "ts ! j \<noteq> (h, Claimed)" if "j < length ts" for j
    proof
      assume "ts ! j = (h, Claimed)"
      then have "thread_ok g (h, Claimed)" using ok that by (metis callers_ok_def fst_conv nth_mem snd_conv)
      then show False using fresh by simp
    qed
    then show ?thesis using True i by (intro ex1I[of _ i]) (auto, metis nth_list_update_neq)
  next
    case False
    have "h' \<in> set g" using that False set_update_subset_insert[of g "probe_index h k" h] by auto
    then have "\<exists>!j. j < length ts \<and> ts ! j = (h', Claimed)" using ok that(1) by (simp add: callers_ok_def)
    moreover have "j < length ?ts \<and> ?ts ! j = (h', Claimed) \<longleftrightarrow> j < length ts \<and> ts ! j = (h', Claimed)" for j
      using i False by (cases "j = i") auto
    ultimately show ?thesis by simp
  qed
  ultimately show ?thesis using claim_ok[OF tok p k h] by (simp add: callers_ok_def)
qed

lemma compare_exchange_True: "compare_exchange g p 0 h = (g', True, e) \<longleftrightarrow> g ! p = 0 \<and> g' = g[p := h] \<and> e = 0"
  and compare_exchange_False: "compare_exchange g p 0 h = (g', False, e) \<longleftrightarrow> g ! p \<noteq> 0 \<and> g' = g \<and> e = g ! p"
  by (auto simp: compare_exchange_def)

lemma callers_ok_step:
  assumes "caller_step s s'" "callers_ok s"
  shows "callers_ok s'"
  using assms
proof (induction rule: caller_step.induct)
  case (claim i ts h k g g' e)
  then show ?case by (simp add: compare_exchange_True callers_ok_claim)
next
  case (meet i ts h k g g')
  have t: "thread_ok g (h, Probing k)" using meet by (metis callers_ok_def fst_conv nth_mem snd_conv)
  have l: "length g = kMaxKeys" using meet.prems by (simp add: callers_ok_def table_ok_def)
  have "g ! probe_index h k = h" "g' = g" using meet by (simp_all add: compare_exchange_False)
  then have "thread_ok g (h, Seen)" using t l by (metis nth_mem probe_index_less thread_ok.simps(1,3))
  then show ?case using meet callers_ok_upd \<open>g' = g\<close> by simp
next
  case (advance i ts h k g g' e)
  have t: "thread_ok g (h, Probing k)" using advance by (metis callers_ok_def fst_conv nth_mem snd_conv)
  have "g' = g" "g ! probe_index h k \<noteq> 0" "g ! probe_index h k \<noteq> h"
    using advance by (simp_all add: compare_exchange_False)
  then have "thread_ok g (h, Probing (k + 1))" using t advance passed_step[of g h k] by simp
  then show ?case using advance callers_ok_upd \<open>g' = g\<close> by simp
next
  case (give_up i ts h k g)
  have t: "thread_ok g (h, Probing k)" using give_up by (metis callers_ok_def fst_conv nth_mem snd_conv)
  moreover have "k = kMaxKeys" using t give_up by simp
  ultimately have "thread_ok g (h, Full)" by simp
  then show ?case using give_up callers_ok_upd by simp
qed

lemma callers_ok_steps:
  assumes "caller_step\<^sup>*\<^sup>* s s'" "callers_ok s"
  shows "callers_ok s'"
  using assms by (induction rule: rtranclp_induct) (auto intro: callers_ok_step)

lemma hashes_kept: "caller_step\<^sup>*\<^sup>* s s' \<Longrightarrow> map fst (snd s') = map fst (snd s)"
proof (induction rule: rtranclp_induct)
  case (step s' s'')
  have "map fst (snd s'') = map fst (snd s')"
    using step(2) by (cases rule: caller_step.cases) (auto simp: map_update list_update_id fst_conv
        intro!: list_update_same_conv[THEN iffD2])
  then show ?case using step by simp
qed simp

section \<open>Termination and progress\<close>

fun phase_weight :: "phase \<Rightarrow> nat" where
  "phase_weight (Probing k) = Suc (kMaxKeys - k)"
| "phase_weight _ = 0"

definition weight :: "thread list \<Rightarrow> nat" where
  "weight ts = sum_list (map (phase_weight \<circ> snd) ts)"

lemma weight_upd:
  assumes "i < length ts" "phase_weight (snd t) < phase_weight (snd (ts ! i))"
  shows "weight (ts[i := t]) < weight ts"
  using assms
proof (induction ts arbitrary: i)
  case (Cons a ts)
  then show ?case by (cases i) (auto simp: weight_def)
qed simp

lemma caller_step_weight: "caller_step s s' \<Longrightarrow> weight (snd s') < weight (snd s)"
  by (induction rule: caller_step.induct) (simp_all add: weight_upd kMaxKeys_def)

lemma caller_steps_weight: "(caller_step ^^ n) s s' \<Longrightarrow> n + weight (snd s') \<le> weight (snd s)"
proof (induction n arbitrary: s')
  case (Suc n)
  then obtain s1 where "(caller_step ^^ n) s s1" "caller_step s1 s'" by auto
  then show ?case using Suc.IH[of s1] caller_step_weight[of s1 s'] by simp
qed simp

lemma weight_started: "weight (started hs) = Suc kMaxKeys * length hs"
  by (induction hs) (simp_all add: weight_def started_def)

lemma caller_can_step:
  assumes "i < length ts" "ts ! i = (h, Probing k)"
  shows "\<exists>s'. caller_step (g, ts) s'"
proof (cases "k < kMaxKeys")
  case False
  then show ?thesis using caller_step.give_up[OF assms] by blast
next
  case True
  obtain g' b e where c: "compare_exchange g (probe_index h k) 0 h = (g', b, e)" by (metis prod_cases3)
  show ?thesis
  proof (cases b)
    case claimed: True
    show ?thesis using caller_step.claim[OF assms True c[unfolded eqTrueI[OF claimed]]] by blast
  next
    case False
    then have n: "compare_exchange g (probe_index h k) 0 h = (g', False, e)" using c by simp
    show ?thesis
    proof (cases "e = h")
      case True
      show ?thesis using caller_step.meet[OF assms \<open>k < kMaxKeys\<close> n[unfolded True]] by blast
    next
      case other: False
      show ?thesis using caller_step.advance[OF assms \<open>k < kMaxKeys\<close> n other] by blast
    qed
  qed
qed

lemma stored_started:
  assumes ok: "callers_ok (g, ts)" and "h \<in> set g" "h \<noteq> 0"
  shows "h \<in> set (map fst ts)"
proof -
  obtain i where "i < length ts" "ts ! i = (h, Claimed)"
    using assms by (auto simp: callers_ok_def)
  then show ?thesis by (metis fst_conv length_map nth_map nth_mem)
qed

lemma no_thread_full:
  assumes ok: "callers_ok (g, ts)" and few: "card (set (map fst ts)) \<le> kMaxKeys"
  shows "(h, Full) \<notin> set ts"
proof
  assume f: "(h, Full) \<in> set ts"
  then have "thread_ok g (h, Full)" using ok by (auto simp: callers_ok_def)
  then have "passed g h kMaxKeys" by simp
  moreover have tok: "table_ok g" using ok by (simp add: callers_ok_def)
  ultimately have full: "0 \<notin> set g" "h \<notin> set g" using passed_all by (auto simp: table_ok_def)
  have "distinct g"
    unfolding distinct_conv_nth using table_ok_unique[OF tok] full(1) tok by (metis nth_mem table_ok_def)
  then have c: "card (set g) = kMaxKeys" using tok by (simp add: distinct_card table_ok_def)
  have "set g \<subset> set (map fst ts)" using stored_started[OF ok] full f by force
  then have "card (set g) < card (set (map fst ts))" by (rule psubset_card_mono[rotated]) simp
  then show False using c few by simp
qed

section \<open>The sequential gate\<close>

definition seen_keys :: "u64 list \<Rightarrow> u64 set" where
  "seen_keys g = set g - {0}"

lemma probe_loop_spec:
  "table_ok g \<Longrightarrow> h \<noteq> 0 \<Longrightarrow> step \<le> kMaxKeys \<Longrightarrow> passed g h step \<Longrightarrow> h \<in> set g \<or> 0 \<in> set g \<Longrightarrow>
     probe_loop g h step = (g', r) \<Longrightarrow>
     table_ok g' \<and> r = (h \<notin> set g) \<and> seen_keys g' = insert h (seen_keys g)"
proof (induction "kMaxKeys - step" arbitrary: step)
  case 0
  then have "passed g h kMaxKeys" "length g = kMaxKeys" by (simp_all add: table_ok_def)
  then show ?case using passed_all 0 by blast
next
  case (Suc n)
  let ?p = "probe_index h step"
  have True: "step < kMaxKeys" using Suc.hyps(2) by simp
  have len: "length g = kMaxKeys" "?p < length g" using Suc.prems by (simp_all add: table_ok_def)
  consider (free) "g ! ?p = 0" | (met) "g ! ?p = h" "g ! ?p \<noteq> 0" | (other) "g ! ?p \<noteq> 0" "g ! ?p \<noteq> h" by blast
  then show ?case
  proof cases
    case free
    have e: "(g', r) = (g[?p := h], True)"
      using Suc.prems(6) True free by (simp add: probe_loop.simps[of g h step] compare_exchange_def)
    have "seen_keys (g[?p := h]) = insert h (seen_keys g)"
      using in_set_upd[OF _ free] set_update_memI[OF len(2)] set_update_subset_insert[of g ?p h] Suc.prems(2)
      by (auto simp: seen_keys_def)
    then show ?thesis using e claim_ok claim_fresh Suc.prems True free by simp
  next
    case met
    then have "(g', r) = (g, False)"
      using Suc.prems(6) True by (simp add: probe_loop.simps[of g h step] compare_exchange_def)
    moreover have "h \<in> set g" using met len by (metis nth_mem)
    ultimately show ?thesis using Suc.prems by (auto simp: seen_keys_def)
  next
    case other
    then have "probe_loop g h (step + 1) = (g', r)"
      using Suc.prems(6) True by (simp add: probe_loop.simps[of g h step] compare_exchange_def)
    moreover have "passed g h (step + 1)" using passed_step Suc.prems(4) other by blast
    ultimately show ?thesis using Suc.hyps(1)[of "step + 1"] Suc.hyps(2) Suc.prems True by simp
  qed
qed

lemma probe_loop_set:
  assumes "table_ok g" "h \<noteq> 0" "h \<in> seen_keys g \<or> card (seen_keys g) < kMaxKeys" "probe_loop g h 0 = (g', r)"
  shows "table_ok g' \<and> r = (h \<notin> seen_keys g) \<and> seen_keys g' = insert h (seen_keys g)"
proof -
  have "h \<in> set g \<or> 0 \<in> set g"
  proof (rule ccontr)
    assume n: "\<not> (h \<in> set g \<or> 0 \<in> set g)"
    then have "distinct g" unfolding distinct_conv_nth
      using table_ok_unique[OF assms(1)] assms(1) by (metis nth_mem table_ok_def)
    then have "card (seen_keys g) = kMaxKeys" using n assms(1) by (simp add: seen_keys_def distinct_card table_ok_def)
    then show False using n assms(3) by (simp add: seen_keys_def)
  qed
  then show ?thesis using probe_loop_spec[OF assms(1,2) _ _ _ assms(4)] assms(2)
    by (simp add: passed_def seen_keys_def)
qed

text \<open>What a caller of a gate relies on: it opens once per key until it is full.\<close>

locale once_gate =
  fixes should :: "'s \<Rightarrow> 'k \<Rightarrow> 's \<times> bool" and seen :: "'s \<Rightarrow> 'k set"
    and inv :: "'s \<Rightarrow> bool" and valid :: "'k \<Rightarrow> bool" and capacity :: nat
  assumes gate: "inv s \<Longrightarrow> valid k \<Longrightarrow> k \<in> seen s \<or> card (seen s) < capacity \<Longrightarrow> should s k = (s', r) \<Longrightarrow>
      inv s' \<and> r = (k \<notin> seen s) \<and> seen s' = insert k (seen s)"
    and seen_finite: "inv s \<Longrightarrow> finite (seen s)"

text \<open>A sequence of requests and the answers.\<close>

fun run_gate :: "('s \<Rightarrow> 'k \<Rightarrow> 's \<times> bool) \<Rightarrow> 's \<Rightarrow> 'k list \<Rightarrow> 's \<times> bool list" where
  "run_gate should s [] = (s, [])"
| "run_gate should s (k # ks) =
     (case should s k of (s, r) \<Rightarrow> case run_gate should s ks of (s, rs) \<Rightarrow> (s, r # rs))"

context once_gate
begin

lemma opens_once:
  assumes "inv s" "\<forall>k \<in> set ks. valid k" "card (seen s \<union> set ks) \<le> capacity"
  shows "snd (run_gate should s ks) = map (\<lambda>i. ks ! i \<notin> seen s \<union> set (take i ks)) [0..<length ks]"
  using assms
proof (induction ks arbitrary: s)
  case (Cons k ks)
  obtain s1 r where k: "should s k = (s1, r)" by fastforce
  have "k \<in> seen s \<or> card (seen s) < capacity"
  proof (rule disjCI)
    assume "\<not> card (seen s) < capacity"
    then have "card (seen s \<union> set (k # ks)) \<le> card (seen s)" using Cons.prems(3) by simp
    then have "seen s \<union> set (k # ks) = seen s"
      using seen_finite[OF Cons.prems(1)] by (intro card_seteq[symmetric]) auto
    then show "k \<in> seen s" by auto
  qed
  then have g: "inv s1" "r = (k \<notin> seen s)" "seen s1 = insert k (seen s)"
    using gate[OF Cons.prems(1) _ _ k] Cons.prems(2) by auto
  have "snd (run_gate should s1 ks) = map (\<lambda>i. ks ! i \<notin> seen s1 \<union> set (take i ks)) [0..<length ks]"
    using Cons.prems g by (intro Cons.IH) auto
  then show ?case
    using k g by (cases "run_gate should s1 ks") (auto simp: map_upt_Suc simp del: upt_Suc)
qed simp

end

interpretation log_gate: once_gate "\<lambda>g h. probe_loop g h 0" seen_keys table_ok "\<lambda>h. h \<noteq> 0" kMaxKeys
proof
  show "table_ok g' \<and> r = (h \<notin> seen_keys g) \<and> seen_keys g' = insert h (seen_keys g)"
    if "table_ok g" "h \<noteq> 0" "h \<in> seen_keys g \<or> card (seen_keys g) < kMaxKeys" "probe_loop g h 0 = (g', r)"
    for g h g' r using that by (rule probe_loop_set)
qed (simp add: seen_keys_def)

section \<open>Properties\<close>

text \<open>
  C16: However the atomic steps of concurrent callers interleave, each key is logged
  exactly once: as long as at most 128 different hashes are in play, when all
  callers have returned exactly one of the callers with a given hash logs.
\<close>
theorem each_key_logged_once:
  assumes "0 \<notin> set hs" "card (set hs) \<le> kMaxKeys"
    and "caller_step\<^sup>*\<^sup>* (empty_keys, started hs) (g, ts)"
    and "\<forall>h k. (h, Probing k) \<notin> set ts" and "h \<in> set hs"
  shows "\<exists>!i. i < length ts \<and> fst (ts ! i) = h \<and> logs (ts ! i)"
proof -
  have ok: "callers_ok (g, ts)" using callers_ok_steps[OF assms(3)] started_ok[OF assms(1)] by blast
  have hs: "map fst ts = hs" using hashes_kept[OF assms(3)] by (simp add: started_def comp_def)
  have full: "(h', Full) \<notin> set ts" for h' using no_thread_full[OF ok] assms(2) hs by simp
  obtain i where i: "i < length ts" "fst (ts ! i) = h" using assms(5) hs by (metis in_set_conv_nth length_map nth_map)
  obtain ph where ph: "ts ! i = (h, ph)" using i by (metis prod.collapse)
  have "thread_ok g (h, ph)" using ok i ph by (metis callers_ok_def fst_conv nth_mem snd_conv)
  moreover have "ph = Claimed \<or> ph = Seen" using assms(4) full i ph by (cases ph) (metis nth_mem)+
  ultimately have "h \<in> set g" "h \<noteq> 0" by auto
  then have "\<exists>!i. i < length ts \<and> ts ! i = (h, Claimed)" using ok by (simp add: callers_ok_def)
  moreover have "fst (ts ! j) = h \<and> logs (ts ! j) \<longleftrightarrow> ts ! j = (h, Claimed)" if "j < length ts" for j
    using full that by (cases "ts ! j") (auto simp: logs_def, metis nth_mem)
  ultimately show ?thesis by metis
qed

text \<open>
  The gate is lock-free and bounded: any execution of \<open>n\<close> callers takes at most
  129 steps per caller, whatever the others do, and while a caller has not returned
  a step is possible.
\<close>
lemma callers_terminate:
  "((caller_step ^^ n) (empty_keys, started hs) (g, ts) \<longrightarrow> n \<le> 129 * length hs)
   \<and> ((h, Probing k) \<in> set ts \<longrightarrow> (\<exists>s. caller_step (g, ts) s))"
proof -
  have "n \<le> 129 * length hs" if "(caller_step ^^ n) (empty_keys, started hs) (g, ts)"
    using caller_steps_weight[OF that] weight_started[of hs] by (simp add: kMaxKeys_def)
  moreover have "\<exists>s. caller_step (g, ts) s" if "(h, Probing k) \<in> set ts"
    using that caller_can_step by (metis in_set_conv_nth)
  ultimately show ?thesis by blast
qed

lemma alone_steps:
  "\<exists>ph. caller_step\<^sup>*\<^sup>* (g, [(h, Probing k)]) (fst (probe_loop g h k), [(h, ph)])
     \<and> (\<forall>k. ph \<noteq> Probing k) \<and> logs (h, ph) = snd (probe_loop g h k)"
proof (induction "kMaxKeys - k" arbitrary: k)
  case 0
  then have "\<not> k < kMaxKeys" by simp
  then have "caller_step (g, [(h, Probing k)]) (g, [(h, Full)])"
    using caller_step.give_up[of 0 "[(h, Probing k)]" h k g] by simp
  then show ?case using 0 by (intro exI[of _ Full]) (auto simp: probe_loop.simps[of g h k] logs_def)
next
  case (Suc n)
  let ?p = "probe_index h k"
  have k: "k < kMaxKeys" using Suc.hyps(2) by simp
  consider (free) "g ! ?p = 0" | (met) "g ! ?p = h" "g ! ?p \<noteq> 0" | (other) "g ! ?p \<noteq> 0" "g ! ?p \<noteq> h" by blast
  then show ?case
  proof cases
    case free
    then have "caller_step (g, [(h, Probing k)]) (g[?p := h], [(h, Claimed)])"
      using caller_step.claim[of 0 "[(h, Probing k)]" h k g "g[?p := h]" 0] k by (simp add: compare_exchange_def)
    then show ?thesis using k free
      by (intro exI[of _ Claimed]) (auto simp: probe_loop.simps[of g h k] compare_exchange_def logs_def)
  next
    case met
    then have "caller_step (g, [(h, Probing k)]) (g, [(h, Seen)])"
      using caller_step.meet[of 0 "[(h, Probing k)]" h k g g] k by (simp add: compare_exchange_def)
    then show ?thesis using k met
      by (intro exI[of _ Seen]) (auto simp: probe_loop.simps[of g h k] compare_exchange_def logs_def)
  next
    case other
    then have "caller_step (g, [(h, Probing k)]) (g, [(h, Probing (k + 1))])"
      using caller_step.advance[of 0 "[(h, Probing k)]" h k g g "g ! ?p"] k by (simp add: compare_exchange_def)
    moreover have "probe_loop g h k = probe_loop g h (k + 1)"
      using k other by (simp add: probe_loop.simps[of g h k] compare_exchange_def)
    moreover have "n = kMaxKeys - (k + 1)" using Suc.hyps(2) by simp
    ultimately show ?thesis using Suc.hyps(1)[of "k + 1"] by (auto intro: converse_rtranclp_into_rtranclp)
  qed
qed

text \<open>
  The loop of \<open>ShouldLog\<close> is the run of a single caller of the step relation: it
  leaves the same table and gives the answer of the phase the caller ends in.
\<close>
lemma alone_is_sequential:
  "\<exists>ph. caller_step\<^sup>*\<^sup>* (g, [(key_hash s, Probing 0)]) (fst (probe_loop g (key_hash s) 0), [(key_hash s, ph)])
     \<and> (\<forall>k. ph \<noteq> Probing k) \<and> logs (key_hash s, ph) = snd (probe_loop g (key_hash s) 0)"
  by (rule alone_steps)

lemma key_hash_nonzero: "key_hash s \<noteq> 0"
  by (simp add: key_hash_def Let_def)

lemma run_ShouldLog:
  "[] \<notin> set ks \<Longrightarrow> run_gate (\<lambda>g s. ShouldLog g (Some s)) g ks
     = run_gate (\<lambda>g h. probe_loop g h 0) g (map key_hash ks)"
proof (induction ks arbitrary: g)
  case (Cons s ks)
  obtain a l where "s = a # l" using Cons.prems by (cases s) auto
  then show ?case using Cons by (simp add: ShouldLog_def split: prod.splits)
qed simp

text \<open>
  Called in sequence on non-empty keys from the empty table, \<open>ShouldLog\<close> answers
  true exactly for the keys whose hash none of the earlier keys has, as long as
  there are at most 128 different hashes.
\<close>
lemma log_once_sequence:
  assumes "[] \<notin> set ks" "card (key_hash ` set ks) \<le> kMaxKeys"
  shows "snd (run_gate (\<lambda>g s. ShouldLog g (Some s)) empty_keys ks)
    = map (\<lambda>i. key_hash (ks ! i) \<notin> key_hash ` set (take i ks)) [0..<length ks]"
proof -
  have "seen_keys empty_keys = {}" by (auto simp: seen_keys_def empty_keys_def)
  then have "snd (run_gate (\<lambda>g h. probe_loop g h 0) empty_keys (map key_hash ks))
      = map (\<lambda>i. map key_hash ks ! i \<notin> set (take i (map key_hash ks))) [0..<length ks]"
    using log_gate.opens_once[OF empty_keys_ok, of "map key_hash ks"] assms(2) key_hash_nonzero by simp
  also have "\<dots> = map (\<lambda>i. key_hash (ks ! i) \<notin> key_hash ` set (take i ks)) [0..<length ks]"
    by (auto simp: take_map)
  finally show ?thesis using run_ShouldLog[OF assms(1)] by simp
qed

theorem each_key_logged_once_witness:
  "\<exists>!i. i < length [(5 :: u64, Claimed), (5, Seen)] \<and> fst ([(5 :: u64, Claimed), (5, Seen)] ! i) = 5
     \<and> logs ([(5 :: u64, Claimed), (5, Seen)] ! i)"
proof -
  let ?g = "empty_keys[5 := 5]"
  have p: "probe_index 5 0 = 5" by (simp add: probe_index_def kMaxKeys_def)
  have l: "5 < length empty_keys" "empty_keys ! 5 = 0" by (simp_all add: empty_keys_def kMaxKeys_def)
  have "caller_step (empty_keys, [(5, Probing 0), (5, Probing 0)]) (?g, [(5, Claimed), (5, Probing 0)])"
    using caller_step.claim[of 0 "[(5, Probing 0), (5, Probing 0)]" 5 0 empty_keys ?g 0] p l
    by (simp add: compare_exchange_def kMaxKeys_def)
  moreover have "caller_step (?g, [(5, Claimed), (5, Probing 0)]) (?g, [(5, Claimed), (5, Seen)])"
    using caller_step.meet[of 1 "[(5, Claimed), (5, Probing 0)]" 5 0 ?g ?g] p l
    by (simp add: compare_exchange_def kMaxKeys_def)
  ultimately have "caller_step\<^sup>*\<^sup>* (empty_keys, started [5, 5]) (?g, [(5, Claimed), (5, Seen)])"
    by (auto simp: started_def intro: converse_rtranclp_into_rtranclp)
  from each_key_logged_once[OF _ _ this, of 5] show ?thesis by (simp add: kMaxKeys_def)
qed

end
