(* ===== verification/System_Buffer.thy ===== *)
theory System_Buffer
  imports Prelude
begin

text \<open>
  The growable buffer on the game's allocator and the stream buffer that writes
  into it (\<open>source/program/system_allocator.hpp\<close>).  The allocator
  (\<open>nn::mem::StandardAllocator\<close>) is a parameter; \<open>allocator_laws\<close> states what the
  code relies on, with the set of live blocks as a ghost function.
\<close>

section \<open>The allocator\<close>

text \<open>A successful allocation gives the address and the initial contents of the block.\<close>

record 'h allocator =
  Allocate :: "'h \<Rightarrow> nat \<Rightarrow> 'h \<times> (u64 \<times> string) option"
  Free :: "'h \<Rightarrow> u64 \<Rightarrow> 'h"

definition allocator_laws :: "'h allocator \<Rightarrow> ('h \<Rightarrow> u64 set) \<Rightarrow> bool" where
  "allocator_laws A live \<longleftrightarrow>
     (\<forall>h n h' p bs. Allocate A h n = (h', Some (p, bs)) \<longrightarrow>
        p \<notin> live h \<and> live h' = insert p (live h) \<and> length bs = n)
   \<and> (\<forall>h n h'. Allocate A h n = (h', None) \<longrightarrow> live h' = live h)
   \<and> (\<forall>h p. live (Free A h p) = live h - {p})"

lemma allocator_Free: "allocator_laws A live \<Longrightarrow> live (Free A h p) = live h - {p}"
  by (simp add: allocator_laws_def)

section \<open>Buffer\<close>

text \<open>\<open>bf_mem\<close> is the memory of the block, of length \<open>capacity_\<close>.\<close>

record buffer =
  bf_data :: "u64 option"
  bf_mem :: string
  bf_size :: nat
  bf_capacity :: nat
  bf_ok :: bool

definition new_buffer :: buffer where
  "new_buffer = \<lparr>bf_data = None, bf_mem = [], bf_size = 0, bf_capacity = 0, bf_ok = True\<rparr>"

definition size_t_max :: nat where "size_t_max = 2 ^ 64 - 1"

definition bf_view :: "buffer \<Rightarrow> string" where "bf_view b = take (bf_size b) (bf_mem b)"

definition Clear :: "buffer \<Rightarrow> buffer" where "Clear b = b\<lparr>bf_size := 0\<rparr>"

text \<open>The new capacity: half as much again, at least 1024 bytes more.\<close>

definition grow_target :: "buffer \<Rightarrow> nat \<Rightarrow> nat" where
  "grow_target b n = max n ((bf_capacity b + max (bf_capacity b div 2) 1024) mod 2 ^ 64)"

text \<open>\<open>A\<close> is \<open>None\<close> for a null allocator.\<close>

definition Reserve :: "'h allocator option \<Rightarrow> 'h \<Rightarrow> buffer \<Rightarrow> nat \<Rightarrow> 'h \<times> buffer \<times> bool" where
  "Reserve A h b n =
     (case A of
        None \<Rightarrow> (h, b, False)
      | Some al \<Rightarrow>
          if n \<le> bf_capacity b then (h, b, True)
          else
            let target = grow_target b n
            in case Allocate al h target of
                 (h', None) \<Rightarrow> (h', b, False)
               | (h', Some (new_data, fresh)) \<Rightarrow>
                   (case bf_data b of
                      Some old \<Rightarrow>
                        if 0 < bf_size b
                        then (Free al h' old,
                              b\<lparr>bf_data := Some new_data, bf_capacity := target,
                                bf_mem := take (bf_size b) (bf_mem b) @ drop (bf_size b) fresh\<rparr>, True)
                        else (h', b\<lparr>bf_data := Some new_data, bf_capacity := target, bf_mem := fresh\<rparr>, True)
                    | None \<Rightarrow>
                        (h', b\<lparr>bf_data := Some new_data, bf_capacity := target, bf_mem := fresh\<rparr>, True)))"

definition Resize :: "'h allocator option \<Rightarrow> 'h \<Rightarrow> buffer \<Rightarrow> nat \<Rightarrow> 'h \<times> buffer \<times> bool" where
  "Resize A h b n =
     (case Reserve A h b n of
        (h', b', False) \<Rightarrow> (h', b'\<lparr>bf_ok := False\<rparr>, False)
      | (h', b', True) \<Rightarrow> (h', b'\<lparr>bf_size := n\<rparr>, True))"

definition Append :: "'h allocator option \<Rightarrow> 'h \<Rightarrow> buffer \<Rightarrow> string \<Rightarrow> 'h \<times> buffer \<times> bool" where
  "Append A h b data =
     (if data = [] then (h, b, True)
      else if size_t_max - bf_size b < length data then (h, b\<lparr>bf_ok := False\<rparr>, False)
      else
        case Reserve A h b (bf_size b + length data) of
          (h', b', False) \<Rightarrow> (h', b'\<lparr>bf_ok := False\<rparr>, False)
        | (h', b', True) \<Rightarrow>
            (h', b'\<lparr>bf_mem := take (bf_size b') (bf_mem b') @ data
                                 @ drop (bf_size b' + length data) (bf_mem b'),
                    bf_size := bf_size b' + length data\<rparr>, True))"

text \<open>The destructor.\<close>

definition destroy :: "'h allocator option \<Rightarrow> 'h \<Rightarrow> buffer \<Rightarrow> 'h" where
  "destroy A h b =
     (case (A, bf_data b) of (Some al, Some p) \<Rightarrow> Free al h p | _ \<Rightarrow> h)"

section \<open>BufferStreamBuf\<close>

text \<open>\<open>None\<close> is \<open>traits_type::eof()\<close>; \<open>overflow\<close> is called with a character or with eof.\<close>

definition overflow ::
  "'h allocator option \<Rightarrow> 'h \<Rightarrow> buffer \<Rightarrow> char option \<Rightarrow> 'h \<times> buffer \<times> char option" where
  "overflow A h b ch =
     (if \<not> bf_ok b then (h, b, None)
      else
        case ch of
          None \<Rightarrow> (h, b, Some (char_of (0 :: nat)))
        | Some c \<Rightarrow>
            (case Append A h b [c] of
               (h', b', False) \<Rightarrow> (h', b', None)
             | (h', b', True) \<Rightarrow> (h', b', Some c)))"

definition xsputn :: "'h allocator option \<Rightarrow> 'h \<Rightarrow> buffer \<Rightarrow> string \<Rightarrow> 'h \<times> buffer \<times> nat" where
  "xsputn A h b s =
     (if \<not> bf_ok b then (h, b, 0)
      else if s = [] then (h, b, 0)
      else
        case Append A h b s of
          (h', b', False) \<Rightarrow> (h', b', 0)
        | (h', b', True) \<Rightarrow> (h', b', length s))"

text \<open>The stream calls the formatter makes: blocks and single characters.\<close>

datatype chunk = Block string | Single char

fun chunk_text :: "chunk \<Rightarrow> string" where
  "chunk_text (Block s) = s"
| "chunk_text (Single c) = [c]"

fun put_chunk :: "'h allocator option \<Rightarrow> 'h \<times> buffer \<Rightarrow> chunk \<Rightarrow> 'h \<times> buffer" where
  "put_chunk A (h, b) (Block s) = (case xsputn A h b s of (h', b', _) \<Rightarrow> (h', b'))"
| "put_chunk A (h, b) (Single c) = (case overflow A h b (Some c) of (h', b', _) \<Rightarrow> (h', b'))"

definition put_chunks :: "'h allocator option \<Rightarrow> 'h \<times> buffer \<Rightarrow> chunk list \<Rightarrow> 'h \<times> buffer" where
  "put_chunks A hb cs = foldl (put_chunk A) hb cs"

section \<open>Invariant\<close>

text \<open>
  \<open>buffer_inv\<close>: the size fits the capacity, which is the length of the memory, and
  a buffer without a block is empty.  \<open>owns\<close>: the block of the buffer is the only
  live one beside those that were there before, and a block is never kept empty.
\<close>

definition buffer_inv :: "buffer \<Rightarrow> bool" where
  "buffer_inv b \<longleftrightarrow>
     bf_size b \<le> bf_capacity b \<and> length (bf_mem b) = bf_capacity b
   \<and> (bf_data b = None \<longrightarrow> bf_capacity b = 0)"

definition owns :: "('h \<Rightarrow> u64 set) \<Rightarrow> u64 set \<Rightarrow> 'h \<Rightarrow> buffer \<Rightarrow> bool" where
  "owns live others h b \<longleftrightarrow>
     live h = others \<union> set_option (bf_data b) \<and> others \<inter> set_option (bf_data b) = {}
   \<and> (bf_data b \<noteq> None \<longrightarrow> 0 < bf_size b)"

lemma new_buffer_ok: "buffer_inv new_buffer" "live h = others \<Longrightarrow> owns live others h new_buffer"
  by (simp_all add: buffer_inv_def owns_def new_buffer_def)

lemma grow_target_ge: "n \<le> grow_target b n"
  by (simp add: grow_target_def)

lemma Reserve_fails:
  "\<not> n \<le> bf_capacity b \<Longrightarrow> Allocate al h (grow_target b n) = (h', None) \<Longrightarrow>
     Reserve (Some al) h b n = (h', b, False)"
  by (simp add: Reserve_def Let_def)

lemma Reserve_grows:
  "\<not> n \<le> bf_capacity b \<Longrightarrow> Allocate al h (grow_target b n) = (h', Some (p, fresh)) \<Longrightarrow>
     Reserve (Some al) h b n =
       (if bf_data b \<noteq> None \<and> 0 < bf_size b
        then (Free al h' (the (bf_data b)),
              b\<lparr>bf_data := Some p, bf_capacity := grow_target b n,
                bf_mem := take (bf_size b) (bf_mem b) @ drop (bf_size b) fresh\<rparr>, True)
        else (h', b\<lparr>bf_data := Some p, bf_capacity := grow_target b n, bf_mem := fresh\<rparr>, True))"
  by (cases "bf_data b") (simp_all add: Reserve_def Let_def)

lemma Reserve_spec:
  assumes laws: "allocator_laws al live" and inv: "buffer_inv b"
    and res: "Reserve (Some al) h b n = (h', b', r)"
  shows "buffer_inv b' \<and> bf_size b' = bf_size b \<and> bf_view b' = bf_view b \<and> bf_ok b' = bf_ok b
    \<and> (r \<longrightarrow> n \<le> bf_capacity b')
    \<and> (owns live others h b \<longrightarrow> live h' = others \<union> set_option (bf_data b') \<and> others \<inter> set_option (bf_data b') = {}
        \<and> (\<not> r \<longrightarrow> b' = b) \<and> (0 < n \<longrightarrow> r \<longrightarrow> bf_data b' \<noteq> None))"
proof (cases "n \<le> bf_capacity b")
  case True
  then show ?thesis using res inv by (auto simp: Reserve_def owns_def buffer_inv_def)
next
  case False
  obtain h1 a where a: "Allocate al h (grow_target b n) = (h1, a)" by (cases "Allocate al h (grow_target b n)")
  show ?thesis
  proof (cases a)
    case None
    have "live h1 = live h"
      using laws[unfolded allocator_laws_def] a[unfolded None] by (elim conjE) blast
    moreover have "h' = h1" "b' = b" "\<not> r"
      using res Reserve_fails[OF False a[unfolded None]] by simp_all
    ultimately show ?thesis using inv by (simp add: owns_def)
  next
    case (Some pf)
    obtain p fresh where pf: "pf = (p, fresh)" by (cases pf)
    have l: "p \<notin> live h" "live h1 = insert p (live h)" "length fresh = grow_target b n"
      using laws[unfolded allocator_laws_def, THEN conjunct1, rule_format, OF a[unfolded Some pf]] by simp_all
    have fr: "live (Free al h1 q) = live h1 - {q}" for q
      by (rule allocator_Free[OF laws])
    note grown = Reserve_grows[OF False a[unfolded Some pf]]
    have t: "bf_size b \<le> grow_target b n"
      using False inv grow_target_ge[of n b] by (simp add: buffer_inv_def)
    show ?thesis
    proof (cases "bf_data b \<noteq> None \<and> 0 < bf_size b")
      case True
      then obtain old where old: "bf_data b = Some old" by blast
      have "h' = Free al h1 old" "r" and b': "b' = b\<lparr>bf_data := Some p, bf_capacity := grow_target b n,
          bf_mem := take (bf_size b) (bf_mem b) @ drop (bf_size b) fresh\<rparr>"
        using res grown True old by simp_all
      then show ?thesis using inv l fr t grow_target_ge[of n b] old
        by (auto simp: buffer_inv_def owns_def bf_view_def)
    next
      case none: False
      have "Reserve (Some al) h b n =
          (h1, b\<lparr>bf_data := Some p, bf_capacity := grow_target b n, bf_mem := fresh\<rparr>, True)"
        unfolding grown using none by (simp only: if_False)
      then have e: "h' = h1" "r" and b': "b' = b\<lparr>bf_data := Some p, bf_capacity := grow_target b n, bf_mem := fresh\<rparr>"
        using res by simp_all
      have z: "bf_size b = 0" using none inv by (auto simp: buffer_inv_def)
      then have "owns live others h b \<longrightarrow> bf_data b = None" using none by (auto simp: owns_def)
      then show ?thesis using inv l t grow_target_ge[of n b] z e b'
        by (auto simp: buffer_inv_def owns_def bf_view_def)
    qed
  qed
qed

lemma take_splice:
  assumes "n + length xs \<le> length ys"
  shows "take (n + length xs) (take n ys @ xs @ drop (n + length xs) ys) = take n ys @ xs"
  using assms by simp

lemma Append_spec:
  assumes laws: "allocator_laws al live" and inv: "buffer_inv b"
    and res: "Append (Some al) h b d = (h', b', r)"
  shows "buffer_inv b' \<and> (r \<longrightarrow> bf_view b' = bf_view b @ d \<and> bf_ok b' = bf_ok b)
    \<and> (\<not> r \<longrightarrow> bf_view b' = bf_view b \<and> \<not> bf_ok b')
    \<and> (owns live others h b \<longrightarrow> owns live others h' b')"
proof -
  consider (empty) "d = []" | (huge) "d \<noteq> []" "size_t_max - bf_size b < length d"
    | (fits) "d \<noteq> []" "\<not> size_t_max - bf_size b < length d" by blast
  then show ?thesis
  proof cases
    case empty
    then show ?thesis using res inv by (auto simp: Append_def)
  next
    case huge
    then have "h' = h" "b' = b\<lparr>bf_ok := False\<rparr>" "\<not> r" using res by (simp_all add: Append_def)
    then show ?thesis using inv by (simp add: buffer_inv_def bf_view_def owns_def)
  next
    case fits
    obtain h1 b1 r1 where R: "Reserve (Some al) h b (bf_size b + length d) = (h1, b1, r1)"
      by (metis prod_cases3)
    note spec = Reserve_spec[OF laws inv R, of others]
    show ?thesis
    proof (cases r1)
      case False
      then have "h' = h1" "b' = b1\<lparr>bf_ok := False\<rparr>" "\<not> r" using res fits R by (simp_all add: Append_def)
      then show ?thesis using spec False by (auto simp: buffer_inv_def bf_view_def owns_def)
    next
      case True
      define m where "m = take (bf_size b1) (bf_mem b1) @ d @ drop (bf_size b1 + length d) (bf_mem b1)"
      have e: "h' = h1" "b' = b1\<lparr>bf_mem := m, bf_size := bf_size b1 + length d\<rparr>" "r"
        using res fits R True by (simp_all add: Append_def m_def)
      have le: "bf_size b1 + length d \<le> length (bf_mem b1)" using spec True by (simp add: buffer_inv_def)
      then have "length m = length (bf_mem b1)" by (simp add: m_def)
      moreover have "take (bf_size b1 + length d) m = take (bf_size b1) (bf_mem b1) @ d"
        unfolding m_def using le by (rule take_splice)
      moreover have "0 < length d" using fits(1) by simp
      ultimately show ?thesis using spec e True le
        by (auto simp: buffer_inv_def bf_view_def owns_def)
    qed
  qed
qed

lemma put_chunk_spec:
  assumes laws: "allocator_laws al live" and inv: "buffer_inv b"
    and res: "put_chunk (Some al) (h, b) c = (h', b')"
  shows "buffer_inv b' \<and> (owns live others h b \<longrightarrow> owns live others h' b')
    \<and> (bf_ok b' \<longrightarrow> bf_ok b \<and> bf_view b' = bf_view b @ chunk_text c)
    \<and> (\<exists>p. bf_view b' = bf_view b @ p \<and> (p = [] \<or> p = chunk_text c))"
proof (cases "bf_ok b")
  case False
  then have "h' = h" "b' = b" using res by (cases c; simp add: xsputn_def overflow_def)+
  then show ?thesis using inv False by simp
next
  case True
  obtain h1 b1 r where A: "Append (Some al) h b (chunk_text c) = (h1, b1, r)" by (metis prod_cases3)
  have "h' = h1 \<and> b' = b1"
  proof (cases c)
    case (Block s)
    then show ?thesis using res A True by (cases "s = []"; cases r) (auto simp: xsputn_def Append_def)
  next
    case (Single ch)
    then show ?thesis using res A True by (cases r) (auto simp: overflow_def)
  qed
  then show ?thesis using Append_spec[OF laws inv A, of others] True by (cases r) auto
qed

lemma put_chunks_fresh:
  assumes "allocator_laws al live" "put_chunks (Some al) (h, new_buffer) cs = (h', b)"
  shows "buffer_inv b
    \<and> (bf_ok b \<longrightarrow> bf_view b = concat (map chunk_text cs))
    \<and> (\<exists>ks. set ks \<subseteq> set cs \<and> bf_view b = concat (map chunk_text ks))
    \<and> live (destroy (Some al) h' b) = live h"
proof -
  have gen: "buffer_inv b2 \<and> owns live others h2 b2
      \<and> (bf_ok b2 \<longrightarrow> bf_ok b1 \<and> bf_view b2 = bf_view b1 @ concat (map chunk_text ks))
      \<and> (\<exists>js. set js \<subseteq> set ks \<and> bf_view b2 = bf_view b1 @ concat (map chunk_text js))"
    if "put_chunks (Some al) (h1, b1) ks = (h2, b2)" "buffer_inv b1" "owns live others h1 b1"
    for h1 b1 ks h2 b2 others
    using that
  proof (induction ks arbitrary: h1 b1)
    case Nil
    then show ?case by (auto simp: put_chunks_def)
  next
    case (Cons c ks)
    obtain h3 b3 where p: "put_chunk (Some al) (h1, b1) c = (h3, b3)" by fastforce
    note s = put_chunk_spec[OF assms(1) Cons.prems(2) p, of others]
    have "put_chunks (Some al) (h3, b3) ks = (h2, b2)" using Cons.prems(1) p by (simp add: put_chunks_def)
    note ih = Cons.IH[OF this] s Cons.prems(3)
    obtain js where js: "set js \<subseteq> set ks" "bf_view b2 = bf_view b3 @ concat (map chunk_text js)"
      using ih by blast
    obtain q where q: "bf_view b3 = bf_view b1 @ q" "q = [] \<or> q = chunk_text c" using s by blast
    have "\<exists>js. set js \<subseteq> set (c # ks) \<and> bf_view b2 = bf_view b1 @ concat (map chunk_text js)"
    proof (cases "q = []")
      case True
      then show ?thesis using js q by (intro exI[of _ js]) auto
    next
      case False
      then show ?thesis using js q by (intro exI[of _ "c # js"]) auto
    qed
    then show ?case using ih by auto
  qed
  have "put_chunks (Some al) (h, new_buffer) cs = (h', b)" by (rule assms(2))
  from gen[OF this new_buffer_ok(1) new_buffer_ok(2)[OF refl]]
  have g: "buffer_inv b" "owns live (live h) h' b" "bf_ok b \<longrightarrow> bf_view b = concat (map chunk_text cs)"
    "\<exists>js. set js \<subseteq> set cs \<and> bf_view b = concat (map chunk_text js)"
    by (auto simp: new_buffer_def bf_view_def)
  have "live (destroy (Some al) h' b) = live h"
  proof (cases "bf_data b")
    case None
    then show ?thesis using g(2) by (simp add: destroy_def owns_def)
  next
    case (Some p)
    have "live (Free al h' p) = live h' - {p}" by (rule allocator_Free[OF assms(1)])
    then show ?thesis using g(2) Some by (auto simp: destroy_def owns_def)
  qed
  then show ?thesis using g by blast
qed

section \<open>Properties\<close>


text \<open>A bump allocator: the next address and the live blocks.\<close>

definition bump :: "(u64 list) allocator" where
  "bump = \<lparr>Allocate = (\<lambda>h n. let p = of_nat (length h) in
             if p \<in> set h then (h, None) else (p # h, Some (p, replicate n (CHR ''?'')))),
           Free = (\<lambda>h p. removeAll p h)\<rparr>"

lemma bump_laws: "allocator_laws bump set"
  by (auto simp: allocator_laws_def bump_def Let_def split: if_splits)


end
