(* ===== verification/File_Util.thy ===== *)
theory File_Util
  imports Prelude
begin

text \<open>
  File helpers of the configuration store (\<open>source/program/fs_util.cpp\<close>): directory
  set-up, existence test and the write-temporary, back up, rename pattern.  The
  file system service \<open>nn::fs\<close> is a parameter; \<open>fs_laws\<close> states what the code relies
  on.  The operations carry the list of all states the file system went through,
  latest first, so that a power loss between any two calls can be discussed.
\<close>

section \<open>The file system service\<close>

datatype DirectoryEntryType = DirectoryEntryType_Directory | DirectoryEntryType_File

datatype OpenMode = OpenMode_Read | OpenMode_Write

text \<open>A result code is \<open>True\<close> on success; calls with an output return an option.\<close>

record ('s, 'h) fs_ops =
  CreateDirectory :: "'s \<Rightarrow> string \<Rightarrow> 's \<times> bool"
  GetEntryType :: "'s \<Rightarrow> string \<Rightarrow> DirectoryEntryType option"
  DeleteFile :: "'s \<Rightarrow> string \<Rightarrow> 's \<times> bool"
  CreateFile :: "'s \<Rightarrow> string \<Rightarrow> nat \<Rightarrow> 's \<times> bool"
  OpenFile :: "'s \<Rightarrow> string \<Rightarrow> OpenMode \<Rightarrow> 's \<times> 'h option"
  WriteFile :: "'s \<Rightarrow> 'h \<Rightarrow> nat \<Rightarrow> string \<Rightarrow> 's \<times> bool"
  FlushFile :: "'s \<Rightarrow> 'h \<Rightarrow> 's \<times> bool"
  CloseFile :: "'s \<Rightarrow> 'h \<Rightarrow> 's"
  RenameFile :: "'s \<Rightarrow> string \<Rightarrow> string \<Rightarrow> 's \<times> bool"
  GetFileSize :: "'s \<Rightarrow> 'h \<Rightarrow> int option"
  ReadFile :: "'s \<Rightarrow> 'h \<Rightarrow> nat \<Rightarrow> nat \<Rightarrow> string option"

text \<open>
  What a file system shows: the content of each file and the file each open handle
  refers to.
\<close>

record ('s, 'h) fs_view =
  content :: "'s \<Rightarrow> string \<rightharpoonup> string"
  opened :: "'s \<Rightarrow> 'h \<rightharpoonup> string"

definition splice :: "string \<Rightarrow> nat \<Rightarrow> string \<Rightarrow> string" where
  "splice c off d = take off c @ d @ drop (off + length d) c"

definition unchanged :: "('s, 'h) fs_view \<Rightarrow> 's \<Rightarrow> 's \<Rightarrow> bool" where
  "unchanged V s s' \<longleftrightarrow> content V s' = content V s \<and> opened V s' = opened V s"

text \<open>
  A call that fails changes no file (a failed write may leave anything in the file
  it wrote to); renaming needs an existing source and no file at the target.
\<close>

definition fs_update_laws :: "('s, 'h) fs_ops \<Rightarrow> ('s, 'h) fs_view \<Rightarrow> bool" where
  "fs_update_laws F V \<longleftrightarrow>
     (\<forall>s p. unchanged V s (fst (CreateDirectory F s p)))
   \<and> (\<forall>s p s' r. DeleteFile F s p = (s', r) \<longrightarrow> opened V s' = opened V s \<and>
        content V s' = (if r then (content V s)(p := None) else content V s))
   \<and> (\<forall>s p n s' r. CreateFile F s p n = (s', r) \<longrightarrow> opened V s' = opened V s \<and>
        (if r then \<exists>c. length c = n \<and> content V s' = (content V s)(p \<mapsto> c)
         else content V s' = content V s))
   \<and> (\<forall>s a b s' r. RenameFile F s a b = (s', r) \<longrightarrow> opened V s' = opened V s \<and>
        (if r then content V s a \<noteq> None \<and> content V s b = None \<and>
                   content V s' = (content V s)(a := None, b := content V s a)
         else content V s' = content V s))"

definition fs_handle_laws :: "('s, 'h) fs_ops \<Rightarrow> ('s, 'h) fs_view \<Rightarrow> bool" where
  "fs_handle_laws F V \<longleftrightarrow>
     (\<forall>s p m s' r. OpenFile F s p m = (s', r) \<longrightarrow> content V s' = content V s \<and>
        (case r of None \<Rightarrow> opened V s' = opened V s
         | Some h \<Rightarrow> opened V s h = None \<and> opened V s' = (opened V s)(h \<mapsto> p) \<and> content V s p \<noteq> None))
   \<and> (\<forall>s h off d s' r p. WriteFile F s h off d = (s', r) \<longrightarrow> opened V s h = Some p \<longrightarrow>
        opened V s' = opened V s \<and>
        (\<exists>c. content V s' = (content V s)(p := c) \<and>
           (r \<longrightarrow> (\<exists>c0. content V s p = Some c0 \<and> c = Some (splice c0 off d)))))
   \<and> (\<forall>s h. unchanged V s (fst (FlushFile F s h)))
   \<and> (\<forall>s h. content V (CloseFile F s h) = content V s \<and>
        opened V (CloseFile F s h) = (opened V s)(h := None))"

definition fs_read_laws :: "('s, 'h) fs_ops \<Rightarrow> ('s, 'h) fs_view \<Rightarrow> bool" where
  "fs_read_laws F V \<longleftrightarrow>
     (\<forall>s p. GetEntryType F s p = Some DirectoryEntryType_File \<longrightarrow> content V s p \<noteq> None)
   \<and> (\<forall>s h n p c. GetFileSize F s h = Some n \<longrightarrow> opened V s h = Some p \<longrightarrow> content V s p = Some c \<longrightarrow>
        n = int (length c))
   \<and> (\<forall>s h off n d p c. ReadFile F s h off n = Some d \<longrightarrow> opened V s h = Some p \<longrightarrow>
        content V s p = Some c \<longrightarrow> off + n \<le> length c \<longrightarrow> d = take n (drop off c))"

definition fs_laws :: "('s, 'h) fs_ops \<Rightarrow> ('s, 'h) fs_view \<Rightarrow> bool" where
  "fs_laws F V \<longleftrightarrow> fs_update_laws F V \<and> fs_handle_laws F V \<and> fs_read_laws F V"

section \<open>The operations of fs\_util.cpp\<close>

definition kRootDir :: string where "kRootDir = ''sd:/config''"

definition kHackDir :: string where "kHackDir = ''sd:/config/d3hack-nx''"

text \<open>A path is \<open>None\<close> for a null pointer.\<close>

definition DoesFileExistImpl ::
  "('s, 'h) fs_ops \<Rightarrow> 's \<Rightarrow> string option \<Rightarrow> DirectoryEntryType \<Rightarrow> bool" where
  "DoesFileExistImpl F s path expected =
     (case path of
        None \<Rightarrow> False
      | Some [] \<Rightarrow> False
      | Some p \<Rightarrow>
          (case GetEntryType F s p of
             None \<Rightarrow> False
           | Some t \<Rightarrow> t = expected))"

definition DoesFileExist :: "('s, 'h) fs_ops \<Rightarrow> 's \<Rightarrow> string option \<Rightarrow> bool" where
  "DoesFileExist F s path = DoesFileExistImpl F s path DirectoryEntryType_File"

text \<open>A call made on the latest state of a trace, and the trace after it.\<close>

definition call :: "('s \<Rightarrow> 's \<times> 'r) \<Rightarrow> 's list \<Rightarrow> 's list \<times> 'r" where
  "call f tr = (case f (hd tr) of (s, r) \<Rightarrow> (s # tr, r))"

definition EnsureConfigRootDirs :: "('s, 'h) fs_ops \<Rightarrow> 's list \<Rightarrow> string \<Rightarrow> 's list \<times> string \<times> bool" where
  "EnsureConfigRootDirs F tr error_out =
     (let tr = fst (call (\<lambda>s. CreateDirectory F s kRootDir) tr);
          tr = fst (call (\<lambda>s. CreateDirectory F s kHackDir) tr)
      in if \<not> DoesFileExistImpl F (hd tr) (Some kHackDir) DirectoryEntryType_Directory
         then (tr, ''Failed to ensure config directory exists'', False)
         else (tr, error_out, True))"

text \<open>The temporary file: created with the size of the text, opened, written, flushed and closed.\<close>

definition write_temp ::
  "('s, 'h) fs_ops \<Rightarrow> 's list \<Rightarrow> string \<Rightarrow> string \<Rightarrow> string \<Rightarrow> string \<Rightarrow> 's list \<times> string \<times> bool" where
  "write_temp F tr tmp_path text what error_out =
     (let tr = fst (call (\<lambda>s. DeleteFile F s tmp_path) tr)
      in case call (\<lambda>s. CreateFile F s tmp_path (length text)) tr of
           (tr, False) \<Rightarrow> (tr, ''Failed to create temp '' @ what, False)
         | (tr, True) \<Rightarrow>
             (case call (\<lambda>s. OpenFile F s tmp_path OpenMode_Write) tr of
                (tr, None) \<Rightarrow>
                  (fst (call (\<lambda>s. DeleteFile F s tmp_path) tr), ''Failed to open temp '' @ what, False)
              | (tr, Some fh) \<Rightarrow>
                  (case call (\<lambda>s. WriteFile F s fh 0 text) tr of
                     (tr, False) \<Rightarrow>
                       (let tr = CloseFile F (hd tr) fh # tr
                        in (fst (call (\<lambda>s. DeleteFile F s tmp_path) tr),
                            ''Failed to write temp '' @ what, False))
                   | (tr, True) \<Rightarrow>
                       (let tr = fst (call (\<lambda>s. FlushFile F s fh) tr)
                        in (CloseFile F (hd tr) fh # tr, error_out, True)))))"

text \<open>An existing file is moved out of the way.\<close>

definition backup_existing ::
  "('s, 'h) fs_ops \<Rightarrow> 's list \<Rightarrow> string \<Rightarrow> string \<Rightarrow> string \<Rightarrow> string \<Rightarrow> string \<Rightarrow> 's list \<times> string \<times> bool" where
  "backup_existing F tr path tmp_path bak_path what error_out =
     (if DoesFileExist F (hd tr) (Some path) then
        let tr = fst (call (\<lambda>s. DeleteFile F s bak_path) tr)
        in case call (\<lambda>s. RenameFile F s path bak_path) tr of
             (tr, False) \<Rightarrow>
               (fst (call (\<lambda>s. DeleteFile F s tmp_path) tr), ''Failed to backup existing '' @ what, False)
           | (tr, True) \<Rightarrow> (tr, error_out, True)
      else (tr, error_out, True))"

text \<open>The temporary file takes the place; if it cannot, the backup is put back.\<close>

definition move_into_place ::
  "('s, 'h) fs_ops \<Rightarrow> 's list \<Rightarrow> string \<Rightarrow> string \<Rightarrow> string \<Rightarrow> string \<Rightarrow> string \<Rightarrow> 's list \<times> string \<times> bool" where
  "move_into_place F tr path tmp_path bak_path what error_out =
     (case call (\<lambda>s. RenameFile F s tmp_path path) tr of
        (tr, False) \<Rightarrow>
          (let tr = (if DoesFileExist F (hd tr) (Some bak_path)
                     then fst (call (\<lambda>s. RenameFile F s bak_path path) tr) else tr);
               tr = fst (call (\<lambda>s. DeleteFile F s tmp_path) tr)
           in (tr, ''Failed to move temp '' @ what @ '' into place'', False))
      | (tr, True) \<Rightarrow>
          (if DoesFileExist F (hd tr) (Some bak_path)
           then fst (call (\<lambda>s. DeleteFile F s bak_path) tr) else tr, error_out, True))"

definition WriteAllAtomic ::
  "('s, 'h) fs_ops \<Rightarrow> 's list \<Rightarrow> string \<Rightarrow> string \<Rightarrow> string \<Rightarrow> string \<Rightarrow> 's list \<times> string \<times> bool" where
  "WriteAllAtomic F tr path text what error_out =
     (case EnsureConfigRootDirs F tr error_out of
        (tr, error_out, False) \<Rightarrow> (tr, error_out, False)
      | (tr, error_out, True) \<Rightarrow>
          (let tmp_path = path @ ''.tmp''; bak_path = path @ ''.bak''
           in case write_temp F tr tmp_path text what error_out of
                (tr, error_out, False) \<Rightarrow> (tr, error_out, False)
              | (tr, error_out, True) \<Rightarrow>
                  (case backup_existing F tr path tmp_path bak_path what error_out of
                     (tr, error_out, False) \<Rightarrow> (tr, error_out, False)
                   | (tr, error_out, True) \<Rightarrow>
                       move_into_place F tr path tmp_path bak_path what error_out)))"

section \<open>Reasoning about single calls\<close>

lemma call_eq: "call f tr = (tr', r) \<longleftrightarrow> (\<exists>s. f (hd tr) = (s, r) \<and> tr' = s # tr)"
  by (auto simp: call_def split: prod.splits)

lemma call_fst: "fst (call f tr) = fst (f (hd tr)) # tr"
  by (simp add: call_def split: prod.splits)

lemma fs_laws_update: "fs_laws F V \<Longrightarrow> fs_update_laws F V"
  and fs_laws_handle: "fs_laws F V \<Longrightarrow> fs_handle_laws F V"
  and fs_laws_read: "fs_laws F V \<Longrightarrow> fs_read_laws F V"
  by (simp_all add: fs_laws_def)

lemma CreateDirectory_law:
  assumes "fs_laws F V"
  shows "content V (fst (CreateDirectory F s p)) = content V s"
    and "opened V (fst (CreateDirectory F s p)) = opened V s"
  using fs_laws_update[OF assms] by (simp_all add: fs_update_laws_def unchanged_def)

lemma DeleteFile_law:
  assumes "fs_laws F V"
  shows "opened V (fst (DeleteFile F s p)) = opened V s"
    and "content V (fst (DeleteFile F s p)) = content V s \<or>
         content V (fst (DeleteFile F s p)) = (content V s)(p := None)"
  using fs_laws_update[OF assms] unfolding fs_update_laws_def
  by (cases "DeleteFile F s p"; auto)+

lemma CreateFile_law:
  assumes "fs_laws F V" "CreateFile F s p n = (s', r)"
  shows "opened V s' = opened V s"
    and "r \<Longrightarrow> \<exists>c. length c = n \<and> content V s' = (content V s)(p \<mapsto> c)"
    and "\<not> r \<Longrightarrow> content V s' = content V s"
  using fs_laws_update[OF assms(1)] assms(2) unfolding fs_update_laws_def by (metis (full_types))+

lemma RenameFile_law:
  assumes "fs_laws F V" "RenameFile F s a b = (s', r)"
  shows "opened V s' = opened V s"
    and "r \<Longrightarrow> content V s a \<noteq> None \<and> content V s b = None \<and>
                 content V s' = (content V s)(a := None, b := content V s a)"
    and "\<not> r \<Longrightarrow> content V s' = content V s"
  using fs_laws_update[OF assms(1)] assms(2) unfolding fs_update_laws_def by (metis (full_types))+

lemma OpenFile_law:
  assumes "fs_laws F V" "OpenFile F s p m = (s', r)"
  shows "content V s' = content V s"
    and "r = None \<Longrightarrow> opened V s' = opened V s"
    and "r = Some h \<Longrightarrow> opened V s h = None \<and> opened V s' = (opened V s)(h \<mapsto> p)"
  using fs_laws_handle[OF assms(1), unfolded fs_handle_laws_def, THEN conjunct1, rule_format, OF assms(2)]
  by (auto split: option.splits)

lemma WriteFile_law:
  assumes "fs_laws F V" "WriteFile F s h off d = (s', r)" "opened V s h = Some p"
  shows "opened V s' = opened V s"
    and "\<exists>c. content V s' = (content V s)(p := c) \<and>
           (r \<longrightarrow> (\<exists>c0. content V s p = Some c0 \<and> c = Some (splice c0 off d)))"
  using fs_laws_handle[OF assms(1)] assms(2,3) unfolding fs_handle_laws_def by blast+

lemma FlushFile_law:
  assumes "fs_laws F V"
  shows "content V (fst (FlushFile F s h)) = content V s" "opened V (fst (FlushFile F s h)) = opened V s"
  using fs_laws_handle[OF assms] by (simp_all add: fs_handle_laws_def unchanged_def)

lemma CloseFile_law:
  assumes "fs_laws F V"
  shows "content V (CloseFile F s h) = content V s"
    and "opened V (CloseFile F s h) = (opened V s)(h := None)"
  using fs_laws_handle[OF assms] by (simp_all add: fs_handle_laws_def)

lemma splice_whole: "length c = length d \<Longrightarrow> splice c 0 d = d"
  by (simp add: splice_def)

section \<open>The three phases\<close>

text \<open>Files other than the three the pattern uses are as they were.\<close>

definition frame :: "('s, 'h) fs_view \<Rightarrow> string set \<Rightarrow> 's \<Rightarrow> 's \<Rightarrow> bool" where
  "frame V W s0 s \<longleftrightarrow> (\<forall>p. p \<notin> W \<longrightarrow> content V s p = content V s0 p)"

text \<open>The old content is still at the path or in the backup, or the new text is in place.\<close>

definition recoverable ::
  "('s, 'h) fs_view \<Rightarrow> string \<Rightarrow> string \<Rightarrow> string option \<Rightarrow> string \<Rightarrow> 's \<Rightarrow> bool" where
  "recoverable V path bak old text s \<longleftrightarrow>
     content V s path = old \<or> content V s path = Some text \<or> content V s bak = old"

lemma EnsureConfigRootDirs_spec:
  assumes "fs_laws F V" "EnsureConfigRootDirs F tr e = (tr', e', r)"
  shows "\<forall>s \<in> set tr'. s \<in> set tr \<or> unchanged V (hd tr) s" "unchanged V (hd tr) (hd tr')" "r \<Longrightarrow> e' = e"
  using assms(2) CreateDirectory_law[OF assms(1)]
  by (auto simp: EnsureConfigRootDirs_def call_fst Let_def unchanged_def split: if_splits)

lemma write_temp_spec:
  assumes F: "fs_laws F V" and W: "write_temp F tr tmp text what e = (tr', e', r)"
  shows "(\<forall>s \<in> set tr'. s \<in> set tr \<or> frame V {tmp} (hd tr) s)
    \<and> frame V {tmp} (hd tr) (hd tr') \<and> opened V (hd tr') = opened V (hd tr)
    \<and> (r \<longrightarrow> content V (hd tr') tmp = Some text \<and> e' = e)"
proof -
  let ?s0 = "hd tr"
  define s1 where "s1 = fst (DeleteFile F ?s0 tmp)"
  have f1: "frame V {tmp} ?s0 s1" "opened V s1 = opened V ?s0"
    using DeleteFile_law[OF F, of ?s0 tmp] by (auto simp: s1_def frame_def)
  have del: "frame V {tmp} ?s0 s \<Longrightarrow> frame V {tmp} ?s0 (fst (DeleteFile F s tmp))" for s
    using DeleteFile_law(2)[OF F, of s tmp] by (auto simp: frame_def)
  have dop: "opened V (fst (DeleteFile F s tmp)) = opened V s" for s
    by (rule DeleteFile_law(1)[OF F])
  obtain s2 r2 where c2: "CreateFile F s1 tmp (length text) = (s2, r2)" by fastforce
  note l2 = CreateFile_law[OF F c2]
  have f2: "frame V {tmp} ?s0 s2" using l2(2,3) f1(1) by (cases r2) (auto simp: frame_def)
  obtain s3 r3 where c3: "OpenFile F s2 tmp OpenMode_Write = (s3, r3)" by fastforce
  note l3 = OpenFile_law[OF F c3]
  have f3: "frame V {tmp} ?s0 s3" using f2 l3(1) by (simp add: frame_def)
  show ?thesis
  proof (cases r2)
    case False
    then have "tr' = s2 # s1 # tr" "\<not> r"
      using W c2 by (auto simp: write_temp_def call_def s1_def split: prod.splits)
    then show ?thesis using f1 f2 l2(1) by auto
  next
    case created: True
    show ?thesis
    proof (cases r3)
      case None
      then have "tr' = fst (DeleteFile F s3 tmp) # s3 # s2 # s1 # tr" "\<not> r"
        using W c2 c3 created by (auto simp: write_temp_def call_def s1_def split: prod.splits)
      then show ?thesis using f1 f2 f3 l2(1) l3(2)[OF None] del[OF f3] dop by auto
    next
      case (Some fh)
      note o3 = l3(3)[OF Some]
      have at3: "opened V s3 fh = Some tmp" using o3 by simp
      obtain s4 r4 where c4: "WriteFile F s3 fh 0 text = (s4, r4)" by fastforce
      note l4 = WriteFile_law[OF F c4 at3]
      have f4: "frame V {tmp} ?s0 s4" using f3 l4(2) by (auto simp: frame_def)
      have closes: "opened V (CloseFile F s fh) = opened V ?s0" if "opened V s = opened V s3" for s
        using CloseFile_law(2)[OF F, of s fh] that o3 l2(1) f1(2) by (auto simp: fun_eq_iff)
      show ?thesis
      proof (cases r4)
        case False
        let ?s5 = "CloseFile F s4 fh"
        have "tr' = fst (DeleteFile F ?s5 tmp) # ?s5 # s4 # s3 # s2 # s1 # tr" "\<not> r"
          using W c2 c3 c4 created Some False
          by (auto simp: write_temp_def call_def s1_def Let_def split: prod.splits)
        moreover have "frame V {tmp} ?s0 ?s5" using f4 CloseFile_law(1)[OF F] by (simp add: frame_def)
        ultimately show ?thesis using f1 f2 f3 f4 del dop closes[OF l4(1)] by auto
      next
        case True
        let ?s5 = "fst (FlushFile F s4 fh)"
        let ?s6 = "CloseFile F ?s5 fh"
        have t: "tr' = ?s6 # ?s5 # s4 # s3 # s2 # s1 # tr" "r" "e' = e"
          using W c2 c3 c4 created Some True
          by (auto simp: write_temp_def call_def s1_def Let_def split: prod.splits)
        have c6: "content V ?s6 = content V s4" "content V ?s5 = content V s4"
          using CloseFile_law(1)[OF F] FlushFile_law(1)[OF F] by auto
        have "content V s4 tmp = Some text"
          using l4(2) True l2(2)[OF created] l3(1) by (auto simp: splice_whole)
        moreover have "opened V ?s5 = opened V s3" using FlushFile_law(2)[OF F] l4(1) by simp
        ultimately show ?thesis using t c6 f1 f2 f3 f4 closes by (auto simp: frame_def)
      qed
    qed
  qed
qed

lemma backup_existing_spec:
  assumes F: "fs_laws F V" and B: "backup_existing F tr path tmp bak what e = (tr', e', r)"
    and d: "path \<noteq> tmp" "path \<noteq> bak" "tmp \<noteq> bak"
    and old: "content V (hd tr) path = old" and T: "content V (hd tr) tmp = Some text"
  shows "(\<forall>s \<in> set tr'. s \<in> set tr \<or> frame V {path, tmp, bak} (hd tr) s \<and> (content V s path = old \<or> content V s bak = old))
    \<and> frame V {path, tmp, bak} (hd tr) (hd tr') \<and> opened V (hd tr') = opened V (hd tr)
    \<and> (content V (hd tr') path = old \<or> content V (hd tr') bak = old)
    \<and> (r \<longrightarrow> content V (hd tr') tmp = Some text \<and> e' = e)"
proof (cases "DoesFileExist F (hd tr) (Some path)")
  case False
  then have "tr' = tr" "r" "e' = e" using B by (simp_all add: backup_existing_def)
  then show ?thesis using old T by (simp add: frame_def)
next
  case True
  let ?s0 = "hd tr"
  define s1 where "s1 = fst (DeleteFile F ?s0 bak)"
  have c1: "frame V {bak} ?s0 s1" "opened V s1 = opened V ?s0"
    using DeleteFile_law[OF F, of ?s0 bak] by (auto simp: s1_def frame_def)
  obtain s2 r2 where c2: "RenameFile F s1 path bak = (s2, r2)" by fastforce
  note l2 = RenameFile_law[OF F c2]
  show ?thesis
  proof (cases r2)
    case False
    then have "tr' = fst (DeleteFile F s2 tmp) # s2 # s1 # tr" "\<not> r"
      using B c2 True by (auto simp: backup_existing_def call_def s1_def Let_def split: prod.splits)
    then show ?thesis
      using c1 l2(1) l2(3)[OF False] old d DeleteFile_law[OF F, of s2 tmp] by (auto simp: frame_def)
  next
    case renamed: True
    then have "tr' = s2 # s1 # tr" "r" "e' = e"
      using B c2 True by (auto simp: backup_existing_def call_def s1_def Let_def split: prod.splits)
    then show ?thesis using c1 l2(1) l2(2)[OF renamed] old d T by (auto simp: frame_def)
  qed
qed

lemma move_into_place_spec:
  assumes F: "fs_laws F V" and M: "move_into_place F tr path tmp bak what e = (tr', e', r)"
    and d: "path \<noteq> tmp" "path \<noteq> bak" "tmp \<noteq> bak"
    and old: "content V (hd tr) path = old \<or> content V (hd tr) bak = old"
    and T: "content V (hd tr) tmp = Some text"
  shows "(\<forall>s \<in> set tr'. s \<in> set tr \<or> frame V {path, tmp, bak} (hd tr) s \<and> recoverable V path bak old text s)
    \<and> frame V {path, tmp, bak} (hd tr) (hd tr') \<and> opened V (hd tr') = opened V (hd tr)
    \<and> (if r then content V (hd tr') path = Some text
       else content V (hd tr') path = old \<or> content V (hd tr') bak = old)"
proof -
  let ?s0 = "hd tr"
  obtain s1 r1 where c1: "RenameFile F ?s0 tmp path = (s1, r1)" by fastforce
  note l1 = RenameFile_law[OF F c1]
  show ?thesis
  proof (cases r1)
    case True
    then have f1: "content V s1 path = Some text" "frame V {path, tmp, bak} ?s0 s1"
      using l1(2) T d by (auto simp: frame_def)
    have "r" "tr' = (if DoesFileExist F s1 (Some bak) then [fst (DeleteFile F s1 bak)] else []) @ s1 # tr"
      using M c1 True by (auto simp: move_into_place_def call_def Let_def split: prod.splits)
    then show ?thesis
      using f1 l1(1) d DeleteFile_law[OF F, of s1 bak] by (auto simp: frame_def recoverable_def)
  next
    case False
    obtain s2 r2 where c2: "RenameFile F s1 bak path = (s2, r2)" by fastforce
    note l2 = RenameFile_law[OF F c2]
    have s1: "content V s1 = content V ?s0" by (rule l1(3)[OF False])
    have s2: "content V s2 path = old \<or> content V s2 bak = old" "frame V {path, tmp, bak} ?s0 s2"
      "opened V s2 = opened V ?s0"
      using l2 s1 old d l1(1) by (cases r2; auto simp: frame_def)+
    have "\<not> r" and t: "tr' = (if DoesFileExist F s1 (Some bak) then [fst (DeleteFile F s2 tmp), s2]
        else [fst (DeleteFile F s1 tmp)]) @ s1 # tr"
      using M c1 c2 False by (auto simp: move_into_place_def call_def Let_def split: prod.splits)
    moreover have "frame V {path, tmp, bak} ?s0 s \<Longrightarrow> content V s path = old \<or> content V s bak = old \<Longrightarrow>
        frame V {path, tmp, bak} ?s0 (fst (DeleteFile F s tmp)) \<and>
        (content V (fst (DeleteFile F s tmp)) path = old \<or> content V (fst (DeleteFile F s tmp)) bak = old)" for s
      using DeleteFile_law(2)[OF F, of s tmp] d by (auto simp: frame_def)
    moreover have "frame V {path, tmp, bak} ?s0 s1" using s1 by (simp add: frame_def)
    moreover have "content V s1 path = old \<or> content V s1 bak = old" using s1 old by simp
    ultimately show ?thesis
      using s2 l1(1) DeleteFile_law(1)[OF F] by (auto simp: recoverable_def)
  qed
qed

section \<open>A file system on which calls that can succeed do\<close>

definition fs_reliable :: "('s, 'h) fs_ops \<Rightarrow> ('s, 'h) fs_view \<Rightarrow> bool" where
  "fs_reliable F V \<longleftrightarrow>
     (\<forall>s p. GetEntryType F s p = Some DirectoryEntryType_File \<longleftrightarrow> content V s p \<noteq> None)
   \<and> (\<forall>s. content V s kHackDir = None \<longrightarrow>
        GetEntryType F (fst (CreateDirectory F s kHackDir)) kHackDir = Some DirectoryEntryType_Directory)
   \<and> (\<forall>s p. content V s p \<noteq> None \<longrightarrow> snd (DeleteFile F s p))
   \<and> (\<forall>s p n. content V s p = None \<longrightarrow> snd (CreateFile F s p n))
   \<and> (\<forall>s p m. content V s p \<noteq> None \<longrightarrow> snd (OpenFile F s p m) \<noteq> None)
   \<and> (\<forall>s h off d p. opened V s h = Some p \<longrightarrow> content V s p \<noteq> None \<longrightarrow> snd (WriteFile F s h off d))
   \<and> (\<forall>s a b. content V s a \<noteq> None \<longrightarrow> content V s b = None \<longrightarrow> snd (RenameFile F s a b))
   \<and> (\<forall>s h p. opened V s h = Some p \<longrightarrow> content V s p \<noteq> None \<longrightarrow> GetFileSize F s h \<noteq> None)
   \<and> (\<forall>s h off n p c. opened V s h = Some p \<longrightarrow> content V s p = Some c \<longrightarrow> off + n \<le> length c \<longrightarrow>
        ReadFile F s h off n \<noteq> None)"

lemma reliable_exists:
  assumes "fs_reliable F V" "p \<noteq> []"
  shows "DoesFileExist F s (Some p) \<longleftrightarrow> content V s p \<noteq> None"
  using assms(1)[unfolded fs_reliable_def, THEN conjunct1, rule_format, of s p] assms(2)
  by (cases p) (auto simp: DoesFileExist_def DoesFileExistImpl_def split: option.splits)

lemma reliable_delete:
  assumes "fs_laws F V" "fs_reliable F V"
  shows "content V (fst (DeleteFile F s p)) = (content V s)(p := None)"
proof (cases "content V s p")
  case None
  then show ?thesis using DeleteFile_law(2)[OF assms(1), of s p] by (auto simp: fun_eq_iff)
next
  case (Some c)
  then have "snd (DeleteFile F s p)" using assms(2) by (simp add: fs_reliable_def)
  then show ?thesis using fs_laws_update[OF assms(1)] unfolding fs_update_laws_def
    by (cases "DeleteFile F s p") auto
qed

lemma reliable_rename:
  assumes "fs_laws F V" "fs_reliable F V" "content V s a = Some c" "content V s b = None"
    "RenameFile F s a b = (s', r)"
  shows "r" "content V s' = (content V s)(a := None, b \<mapsto> c)"
proof -
  have "snd (RenameFile F s a b)" using assms(2-4) by (simp add: fs_reliable_def)
  then show "r" using assms(5) by simp
  then show "content V s' = (content V s)(a := None, b \<mapsto> c)"
    using RenameFile_law(2)[OF assms(1,5)] assms(3) by simp
qed

lemma reliable_ensure:
  assumes F: "fs_laws F V" and R: "fs_reliable F V" and "content V (hd tr) kHackDir = None"
    and E: "EnsureConfigRootDirs F tr e = (tr', e', r)"
  shows "r"
proof -
  let ?s1 = "fst (CreateDirectory F (hd tr) kRootDir)"
  have "content V ?s1 kHackDir = None" using CreateDirectory_law(1)[OF F] assms(3) by simp
  then have "GetEntryType F (fst (CreateDirectory F ?s1 kHackDir)) kHackDir = Some DirectoryEntryType_Directory"
    using R by (simp add: fs_reliable_def)
  moreover have "tr' = fst (CreateDirectory F ?s1 kHackDir) # ?s1 # tr"
    using E by (auto simp: EnsureConfigRootDirs_def call_fst Let_def split: if_splits)
  moreover have "r = DoesFileExistImpl F (hd tr') (Some kHackDir) DirectoryEntryType_Directory"
    using E by (auto simp: EnsureConfigRootDirs_def call_fst Let_def split: if_splits)
  ultimately show ?thesis by (simp add: DoesFileExistImpl_def kHackDir_def)
qed

lemma reliable_write_temp:
  assumes F: "fs_laws F V" and R: "fs_reliable F V"
    and W: "write_temp F tr tmp text what e = (tr', e', r)"
  shows "r" "content V (hd tr') = (content V (hd tr))(tmp \<mapsto> text)"
proof -
  define s1 where "s1 = fst (DeleteFile F (hd tr) tmp)"
  have s1: "content V s1 tmp = None" using reliable_delete[OF F R] by (simp add: s1_def)
  obtain s2 r2 where c2: "CreateFile F s1 tmp (length text) = (s2, r2)" by fastforce
  have "snd (CreateFile F s1 tmp (length text))" using R s1 by (simp add: fs_reliable_def)
  then have r2: "r2" using c2 by simp
  then obtain c where c: "content V s2 = (content V s1)(tmp \<mapsto> c)" using CreateFile_law(2)[OF F c2] by blast
  obtain s3 r3 where c3: "OpenFile F s2 tmp OpenMode_Write = (s3, r3)" by fastforce
  have "snd (OpenFile F s2 tmp OpenMode_Write) \<noteq> None" using R c by (simp add: fs_reliable_def)
  then obtain fh where fh: "r3 = Some fh" using c3 by auto
  note l3 = OpenFile_law[OF F c3]
  obtain s4 r4 where c4: "WriteFile F s3 fh 0 text = (s4, r4)" by fastforce
  have "snd (WriteFile F s3 fh 0 text)" using R l3(1) l3(3)[OF fh] c unfolding fs_reliable_def by simp
  then have r4: "r4" using c4 by simp
  show "r" using W c2 c3 c4 r2 fh r4 by (auto simp: write_temp_def call_def s1_def Let_def split: prod.splits)
  then show "content V (hd tr') = (content V (hd tr))(tmp \<mapsto> text)"
    using write_temp_spec[OF F W] by (auto simp: frame_def fun_eq_iff)
qed

section \<open>Properties\<close>

text \<open>
  C13: A power loss at any point of \<open>WriteAllAtomic\<close> loses nothing.  In every state
  the file system goes through, the path holds the old content or the new text, or
  the old content is in the backup; no file other than the path, its \<open>.tmp\<close> and its
  \<open>.bak\<close> changes; no handle stays open; success means the new text is at the path,
  failure that the old content is still at the path or in the backup.
\<close>
theorem atomic_write_crash_safe:
  assumes "fs_laws F V" "WriteAllAtomic F [s0] path text what e = (tr, e', ok)"
  shows "(\<forall>s \<in> set tr.
        (content V s path = content V s0 path \<or> content V s path = Some text
          \<or> content V s (path @ ''.bak'') = content V s0 path)
      \<and> (\<forall>p. p \<notin> {path, path @ ''.tmp'', path @ ''.bak''} \<longrightarrow> content V s p = content V s0 p))
    \<and> opened V (hd tr) = opened V s0
    \<and> (if ok then content V (hd tr) path = Some text
       else content V (hd tr) path = content V s0 path \<or> content V (hd tr) (path @ ''.bak'') = content V s0 path)"
proof -
  define tmp bak where "tmp = path @ ''.tmp''" and "bak = path @ ''.bak''"
  note names = this
  let ?W = "{path, tmp, bak}" and ?old = "content V s0 path"
  have d: "path \<noteq> tmp" "path \<noteq> bak" "tmp \<noteq> bak" by (simp_all add: names)
  obtain tr1 e1 r1 where E: "EnsureConfigRootDirs F [s0] e = (tr1, e1, r1)" by (metis prod_cases3)
  note E' = EnsureConfigRootDirs_spec[OF assms(1) E, unfolded unchanged_def, simplified]
  have p1: "\<forall>s\<in>set tr1. frame V ?W s0 s \<and> content V s path = ?old" "frame V ?W s0 (hd tr1)"
    "content V (hd tr1) path = ?old" "opened V (hd tr1) = opened V s0"
    using E' by (auto simp: frame_def)
  obtain tr2 e2 r2 where T: "write_temp F tr1 tmp text what e1 = (tr2, e2, r2)" by (metis prod_cases3)
  note T' = write_temp_spec[OF assms(1) T]
  have p2: "\<forall>s\<in>set tr2. frame V ?W s0 s \<and> content V s path = ?old" "frame V ?W s0 (hd tr2)"
    "content V (hd tr2) path = ?old" "opened V (hd tr2) = opened V s0"
    using T' p1 d by (auto simp: frame_def)
  obtain tr3 e3 r3 where B: "backup_existing F tr2 path tmp bak what e2 = (tr3, e3, r3)" by (metis prod_cases3)
  note B' = backup_existing_spec[OF assms(1) B d p2(3)]
  have p3: "\<forall>s\<in>set tr3. frame V ?W s0 s \<and> (content V s path = ?old \<or> content V s bak = ?old)"
    "frame V ?W s0 (hd tr3)" "content V (hd tr3) path = ?old \<or> content V (hd tr3) bak = ?old"
    "opened V (hd tr3) = opened V s0" if "r2"
    using B' T' that p2 d by (auto simp: frame_def)
  obtain tr4 e4 r4 where M: "move_into_place F tr3 path tmp bak what e3 = (tr4, e4, r4)" by (metis prod_cases3)
  have p4: "\<forall>s\<in>set tr4. frame V ?W s0 s \<and> recoverable V path bak ?old text s"
    "opened V (hd tr4) = opened V s0"
    "if r4 then content V (hd tr4) path = Some text
     else content V (hd tr4) path = ?old \<or> content V (hd tr4) bak = ?old" if "r2" "r3"
    using move_into_place_spec[OF assms(1) M d p3(3)[OF that(1)]] B' T' p3[OF that(1)] that
    by (auto simp: frame_def recoverable_def)
  have run: "(tr, ok) = (if \<not> r1 then (tr1, False) else if \<not> r2 then (tr2, False)
      else if \<not> r3 then (tr3, False) else (tr4, r4))"
    using assms(2) E T B M unfolding names by (auto simp: WriteAllAtomic_def Let_def split: prod.splits bool.splits)
  consider "\<not> r1" | "r1" "\<not> r2" | "r1" "r2" "\<not> r3" | "r1" "r2" "r3" by blast
  then show ?thesis
  proof cases
    case 1 then show ?thesis using run p1 by (auto simp: frame_def names)
  next
    case 2 then show ?thesis using run p2 by (auto simp: frame_def names)
  next
    case 3 then show ?thesis using run p3 by (auto simp: frame_def names)
  next
    case 4
    then have "tr = tr4" "ok = r4" using run by simp_all
    then show ?thesis using p4 4 by (auto simp: frame_def recoverable_def names split: if_splits)
  qed
qed

lemma reliable_write_spec:
  assumes F: "fs_laws F V" and R: "fs_reliable F V" and "path \<noteq> []"
    and dir: "content V s0 kHackDir = None"
    and W: "WriteAllAtomic F [s0] path text what e = (tr, e', ok)"
  shows "ok \<and> content V (hd tr) = (content V s0)(path \<mapsto> text, path @ ''.tmp'' := None, path @ ''.bak'' := None)
    \<and> opened V (hd tr) = opened V s0"
proof -
  define tmp bak where "tmp = path @ ''.tmp''" and "bak = path @ ''.bak''"
  note names = this
  have d: "path \<noteq> tmp" "path \<noteq> bak" "tmp \<noteq> bak" "bak \<noteq> []" by (simp_all add: names)
  have ex: "DoesFileExist F s (Some path) \<longleftrightarrow> content V s path \<noteq> None"
    "DoesFileExist F s (Some bak) \<longleftrightarrow> content V s bak \<noteq> None" for s
    using reliable_exists[OF R] \<open>path \<noteq> []\<close> d by simp_all
  obtain tr1 e1 r1 where E: "EnsureConfigRootDirs F [s0] e = (tr1, e1, r1)" by (metis prod_cases3)
  have E': "content V (hd tr1) = content V s0" "opened V (hd tr1) = opened V s0" "r1"
    using EnsureConfigRootDirs_spec(2)[OF F E] reliable_ensure[OF F R _ E] dir by (simp_all add: unchanged_def)
  obtain tr2 e2 r2 where T: "write_temp F tr1 tmp text what e1 = (tr2, e2, r2)" by (metis prod_cases3)
  have T': "r2" "content V (hd tr2) = (content V s0)(tmp \<mapsto> text)" "opened V (hd tr2) = opened V s0"
    using reliable_write_temp[OF F R T] write_temp_spec[OF F T] E' by simp_all
  obtain tr3 e3 r3 where B: "backup_existing F tr2 path tmp bak what e2 = (tr3, e3, r3)" by (metis prod_cases3)
  define keep where "keep = (if content V s0 path = None then content V s0 bak else content V s0 path)"
  have B': "r3 \<and> content V (hd tr3) = (content V s0)(tmp \<mapsto> text, path := None, bak := keep)
      \<and> opened V (hd tr3) = opened V s0"
  proof (cases "content V s0 path")
    case None
    then have "tr3 = tr2" "r3" using B ex T' d by (simp_all add: backup_existing_def)
    then show ?thesis using None T' d by (auto simp: keep_def fun_eq_iff)
  next
    case (Some c)
    define s1 where "s1 = fst (DeleteFile F (hd tr2) bak)"
    obtain s2 r where c2: "RenameFile F s1 path bak = (s2, r)" by fastforce
    have k: "content V s1 = (content V s0)(tmp \<mapsto> text, bak := None)" "opened V s1 = opened V s0"
      using reliable_delete[OF F R] DeleteFile_law(1)[OF F] T' by (simp_all add: s1_def)
    have kp: "content V s1 path = Some c" "content V s1 bak = None" using k Some d by simp_all
    note rn = reliable_rename[OF F R kp c2]
    have "DoesFileExist F (hd tr2) (Some path)" using ex T' Some d by simp
    then have "tr3 = s2 # s1 # tr2" "r3" using B c2 rn(1)
      by (auto simp: backup_existing_def call_def s1_def Let_def split: prod.splits)
    then show ?thesis using rn(2) k Some RenameFile_law(1)[OF F c2] d by (auto simp: keep_def fun_eq_iff)
  qed
  obtain tr4 e4 r4 where M: "move_into_place F tr3 path tmp bak what e3 = (tr4, e4, r4)" by (metis prod_cases3)
  obtain s5 r5 where c5: "RenameFile F (hd tr3) tmp path = (s5, r5)" by fastforce
  have "content V (hd tr3) tmp = Some text" "content V (hd tr3) path = None" using B' d by simp_all
  note rn = reliable_rename[OF F R this c5]
  have "r4" "tr4 = (if DoesFileExist F s5 (Some bak) then [fst (DeleteFile F s5 bak)] else []) @ s5 # tr3"
    using M c5 rn(1) by (auto simp: move_into_place_def call_def Let_def split: prod.splits)
  moreover have "content V s5 = (content V s0)(path \<mapsto> text, tmp := None, bak := keep)"
    using rn(2) B' d by (auto simp: fun_eq_iff)
  ultimately have "r4" "content V (hd tr4) = (content V s0)(path \<mapsto> text, tmp := None, bak := None)"
    "opened V (hd tr4) = opened V s0"
    using ex(2)[of s5] reliable_delete[OF F R, of s5 bak] DeleteFile_law(1)[OF F, of s5 bak]
      RenameFile_law(1)[OF F c5] B' d by (auto simp: fun_eq_iff)
  moreover have "(tr, ok) = (tr4, r4)"
    using W E T B M E' T' B' unfolding names unfolding names by (auto simp: WriteAllAtomic_def Let_def split: prod.splits bool.splits)
  ultimately show ?thesis by (simp add: names)
qed

text \<open>
  On a working file system the write succeeds: the path holds the text, neither
  the temporary file nor a backup is left (a stale one included), nothing else changed.
\<close>
lemma atomic_write_succeeds:
  assumes "fs_laws F V" "fs_reliable F V" "path \<noteq> []" "content V s0 kHackDir = None"
  shows "\<exists>tr e'. WriteAllAtomic F [s0] path text what e = (tr, e', True)
    \<and> content V (hd tr) = (content V s0)(path \<mapsto> text, path @ ''.tmp'' := None, path @ ''.bak'' := None)"
proof -
  obtain tr e' ok where W: "WriteAllAtomic F [s0] path text what e = (tr, e', ok)" by (metis prod_cases3)
  show ?thesis using reliable_write_spec[OF assms W] W by auto
qed

section \<open>A file system in memory\<close>

text \<open>Handles are positions in a list that only grows.\<close>

record mem =
  files :: "string \<rightharpoonup> string"
  handles :: "string option list"

definition handle_path :: "mem \<Rightarrow> nat \<rightharpoonup> string" where
  "handle_path s h = (if h < length (handles s) then handles s ! h else None)"

definition mem_fs :: "(mem, nat) fs_ops" where
  "mem_fs =
   \<lparr>CreateDirectory = (\<lambda>s p. (s, True)),
    GetEntryType = (\<lambda>s p. if files s p \<noteq> None then Some DirectoryEntryType_File
                          else if p = kHackDir then Some DirectoryEntryType_Directory else None),
    DeleteFile = (\<lambda>s p. if files s p = None then (s, False) else (s\<lparr>files := (files s)(p := None)\<rparr>, True)),
    CreateFile = (\<lambda>s p n. if files s p \<noteq> None then (s, False)
                          else (s\<lparr>files := (files s)(p \<mapsto> replicate n (CHR ''?''))\<rparr>, True)),
    OpenFile = (\<lambda>s p m. if files s p = None then (s, None)
                        else (s\<lparr>handles := handles s @ [Some p]\<rparr>, Some (length (handles s)))),
    WriteFile = (\<lambda>s h off d. case handle_path s h of
                    None \<Rightarrow> (s, False)
                  | Some p \<Rightarrow> (case files s p of
                        None \<Rightarrow> (s, False)
                      | Some c \<Rightarrow> (s\<lparr>files := (files s)(p \<mapsto> splice c off d)\<rparr>, True))),
    FlushFile = (\<lambda>s h. (s, True)),
    CloseFile = (\<lambda>s h. s\<lparr>handles := (handles s)[h := None]\<rparr>),
    RenameFile = (\<lambda>s a b. if files s a = None \<or> files s b \<noteq> None then (s, False)
                          else (s\<lparr>files := (files s)(a := None, b := files s a)\<rparr>, True)),
    GetFileSize = (\<lambda>s h. case handle_path s h of
                      None \<Rightarrow> None
                    | Some p \<Rightarrow> (case files s p of None \<Rightarrow> None | Some c \<Rightarrow> Some (int (length c)))),
    ReadFile = (\<lambda>s h off n. case handle_path s h of
                    None \<Rightarrow> None
                  | Some p \<Rightarrow> (case files s p of None \<Rightarrow> None | Some c \<Rightarrow> Some (take n (drop off c))))\<rparr>"

definition mem_view :: "(mem, nat) fs_view" where
  "mem_view = \<lparr>content = files, opened = handle_path\<rparr>"

definition mem_start :: mem where
  "mem_start = \<lparr>files = [''c.toml'' \<mapsto> ''old''], handles = []\<rparr>"

lemma handle_path_upd [simp]:
  "handle_path (s\<lparr>files := f\<rparr>) = handle_path s"
  "handle_path (s\<lparr>handles := handles s @ [Some p]\<rparr>) = (handle_path s)(length (handles s) \<mapsto> p)"
  "handle_path (s\<lparr>handles := (handles s)[h := None]\<rparr>) = (handle_path s)(h := None)"
  "handle_path s (length (handles s)) = None"
  by (auto simp: handle_path_def fun_eq_iff nth_append nth_list_update)

lemma mem_update_laws: "fs_update_laws mem_fs mem_view"
  unfolding fs_update_laws_def mem_fs_def mem_view_def unchanged_def
  by (intro conjI allI impI) (auto split: if_splits intro: exI[of _ "replicate _ _"])

lemma fun_upd_self: "\<exists>c. f = f(p := c)"
  by (rule exI[of _ "f p"]) simp

lemma mem_handle_laws: "fs_handle_laws mem_fs mem_view"
  unfolding fs_handle_laws_def mem_fs_def mem_view_def unchanged_def
  by (intro conjI allI impI) (auto split: if_splits option.splits intro: fun_upd_self)

lemma mem_read_laws: "fs_read_laws mem_fs mem_view"
  unfolding fs_read_laws_def mem_fs_def mem_view_def
  by (intro conjI allI impI) (auto split: if_splits option.splits)

lemma mem_fs_laws: "fs_laws mem_fs mem_view"
  by (simp add: fs_laws_def mem_update_laws mem_handle_laws mem_read_laws)

lemma mem_fs_reliable: "fs_reliable mem_fs mem_view"
  unfolding fs_reliable_def mem_fs_def mem_view_def
  by (intro conjI allI impI) (auto split: if_splits option.splits)

theorem atomic_write_crash_safe_witness:
  "\<exists>tr e. WriteAllAtomic mem_fs [mem_start] ''c.toml'' ''new'' ''config file'' '''' = (tr, e, True)
     \<and> files (hd tr) ''c.toml'' = Some ''new''
     \<and> (\<forall>s \<in> set tr. files s ''c.toml'' = Some ''old'' \<or> files s ''c.toml'' = Some ''new''
          \<or> files s ''c.toml.bak'' = Some ''old'')"
proof -
  obtain tr e ok where W: "WriteAllAtomic mem_fs [mem_start] ''c.toml'' ''new'' ''config file'' '''' = (tr, e, ok)"
    by (metis prod_cases3)
  have "snd (snd (WriteAllAtomic mem_fs [mem_start] ''c.toml'' ''new'' ''config file'' ''''))"
    by code_simp
  then have "ok" using W by simp
  then show ?thesis
    using atomic_write_crash_safe[OF mem_fs_laws W] W by (auto simp: mem_view_def mem_start_def)
qed

end
