(* ===== verification/Config_File.thy ===== *)
theory Config_File
  imports Config_Props System_Buffer File_Util
begin

text \<open>
  Loading and saving the configuration (\<open>source/program/config.cpp\<close>): reading a file
  into a buffer, parsing it and applying it to the defaults, and writing the
  normalised configuration back through the stream buffer and the file pattern of
  theory \<open>File_Util\<close>.  The TOML parser and formatter, the file system and the
  allocator are parameters.
\<close>

section \<open>Outcomes\<close>

text \<open>
  \<open>Aborted\<close> is an assertion that ends the program, \<open>Failed\<close> a false result with the
  contents of \<open>error_out\<close>.
\<close>

datatype 'r outcome = Aborted string | Failed string | Done 'r

record parse_error =
  description :: string
  source_begin :: "(nat \<times> nat) option"

text \<open>What the code calls: the file system, the table library, parser and formatter.\<close>

record ('s, 'h, 't, 'n) services =
  sv_fs :: "('s, 'h) fs_ops"
  sv_toml :: "('t, 'n) toml"
  sv_parse :: "string \<Rightarrow> string \<Rightarrow> parse_error + 't"
  sv_format :: "'t \<Rightarrow> chunk list"
  sv_device :: "u32 option"

fun to_string :: "nat \<Rightarrow> string" where
  "to_string n =
     (if n < 10 then [char_of (48 + n)] else to_string (n div 10) @ [char_of (48 + n mod 10)])"

declare to_string.simps [simp del]

section \<open>The system allocator\<close>

text \<open>The address of a lookup entry: module start plus offset; \<open>None\<close> aborts.\<close>

definition LookupOffsetAddress :: "(string \<Rightarrow> (nat \<times> u64) option) \<Rightarrow> (nat \<Rightarrow> u64) \<Rightarrow> string \<Rightarrow> u64 option" where
  "LookupOffsetAddress by_name module_start name =
     (case by_name name of
        None \<Rightarrow> None
      | Some (index, offset) \<Rightarrow> Some (module_start index + offset))"

text \<open>
  \<open>cached\<close> is the function's static pointer (0 when null), \<open>read\<close> the memory it points
  into: \<open>None\<close> there is a null allocator pointer.
\<close>

definition GetSystemAllocator ::
  "(string \<Rightarrow> (nat \<times> u64) option) \<Rightarrow> (nat \<Rightarrow> u64) \<Rightarrow> (u64 \<Rightarrow> 'a option) \<Rightarrow> u64 \<Rightarrow> (u64 \<times> 'a option) option" where
  "GetSystemAllocator by_name module_start read cached =
     (case (if cached = 0 then LookupOffsetAddress by_name module_start ''system_allocator_ptr'' else Some cached) of
        None \<Rightarrow> None
      | Some p \<Rightarrow> Some (p, if p = 0 then None else read p))"

section \<open>Loading\<close>

text \<open>\<open>ReadAll\<close> with the trace of the file system, the heap and the buffer.\<close>

definition ReadAll ::
  "('s, 'h, 't, 'n) services \<Rightarrow> 'a allocator option \<Rightarrow> 's list \<Rightarrow> 'a \<Rightarrow> buffer \<Rightarrow> string \<Rightarrow> string
     \<Rightarrow> 's list \<times> 'a \<times> buffer \<times> string outcome" where
  "ReadAll S A tr heap buffer path error_out =
     (if \<not> DoesFileExist (sv_fs S) (hd tr) (Some path) then (tr, heap, buffer, Failed error_out)
      else if A = None then (tr, heap, buffer, Failed ''System allocator unavailable'')
      else
        case call (\<lambda>s. OpenFile (sv_fs S) s path OpenMode_Read) tr of
          (tr, None) \<Rightarrow> (tr, heap, buffer, Aborted (''Failed to open file: '' @ path))
        | (tr, Some fh) \<Rightarrow>
            let size = (case GetFileSize (sv_fs S) (hd tr) fh of None \<Rightarrow> 0 | Some n \<Rightarrow> n) in
            if size \<le> 0 then (CloseFile (sv_fs S) (hd tr) fh # tr, heap, buffer, Failed error_out)
            else
              case Resize A heap buffer (nat size) of
                (heap, buffer, False) \<Rightarrow>
                  (CloseFile (sv_fs S) (hd tr) fh # tr, heap, buffer,
                   Failed ''Failed to allocate config buffer'')
              | (heap, buffer, True) \<Rightarrow>
                  (case ReadFile (sv_fs S) (hd tr) fh 0 (nat size) of
                     None \<Rightarrow> (tr, heap, buffer, Aborted (''Failed to read file: '' @ path))
                   | Some data \<Rightarrow>
                       let buffer = buffer\<lparr>bf_mem := data @ drop (length data) (bf_mem buffer)\<rparr>
                       in (CloseFile (sv_fs S) (hd tr) fh # tr, heap, buffer, Done (bf_view buffer))))"

definition parse_message :: "parse_error \<Rightarrow> string" where
  "parse_message err =
     description err @
     (case source_begin err of
        None \<Rightarrow> ''''
      | Some (line, column) \<Rightarrow>
          '' (line '' @ to_string line @ '', col '' @ to_string column @ '')'')"

text \<open>The buffer is local: its destructor runs when the function returns.\<close>

definition LoadFromPath ::
  "('s, 'h, 't, 'n) services \<Rightarrow> 'a allocator option \<Rightarrow> 's list \<Rightarrow> 'a \<Rightarrow> string \<Rightarrow> PatchConfig \<Rightarrow> string
     \<Rightarrow> 's list \<times> 'a \<times> PatchConfig outcome" where
  "LoadFromPath S A tr heap path out error_out =
     (case ReadAll S A tr heap new_buffer path error_out of
        (tr, heap, buffer, Aborted m) \<Rightarrow> (tr, heap, Aborted m)
      | (tr, heap, buffer, Failed e) \<Rightarrow> (tr, destroy A heap buffer, Failed e)
      | (tr, heap, buffer, Done text) \<Rightarrow>
          (tr, destroy A heap buffer,
           case sv_parse S text path of
             Inl err \<Rightarrow> Failed (parse_message err)
           | Inr table \<Rightarrow> Done (ApplyTable (sv_toml S) (sv_device S) out table)))"

text \<open>The globals the loader owns.\<close>

record config_globals =
  global_config :: PatchConfig
  g_rt_scale :: fp
  g_rt_scale_initialized :: bool

definition init_rt_scale :: "config_globals \<Rightarrow> config_globals" where
  "init_rt_scale g =
     (if \<not> g_rt_scale_initialized g
      then g\<lparr>g_rt_scale := HandheldScaleFraction (resolution_hack (global_config g)),
             g_rt_scale_initialized := True\<rparr>
      else g)"

definition kConfigPath :: string where "kConfigPath = ''sd:/config/d3hack-nx/config.toml''"

text \<open>The result is the globals and the printed lines, or the abort of the reader.\<close>

definition LoadPatchConfig ::
  "('s, 'h, 't, 'n) services \<Rightarrow> 'a allocator option \<Rightarrow> 's list \<Rightarrow> 'a \<Rightarrow> config_globals
     \<Rightarrow> 's list \<times> 'a \<times> (config_globals \<times> string list) outcome" where
  "LoadPatchConfig S A tr heap g =
     (let g = g\<lparr>global_config := default_PatchConfig\<rparr>
      in case LoadFromPath S A tr heap kConfigPath (global_config g) '''' of
           (tr, heap, Aborted m) \<Rightarrow> (tr, heap, Aborted m)
         | (tr, heap, Done c) \<Rightarrow>
             (tr, heap, Done
               (init_rt_scale (g\<lparr>global_config := c\<lparr>initialized := True, defaults_only := False\<rparr>\<rparr>),
                [''Loaded config: '' @ kConfigPath]))
         | (tr, heap, Failed error) \<Rightarrow>
             (tr, heap, Done
               (init_rt_scale (g\<lparr>global_config := (global_config g)\<lparr>initialized := True, defaults_only := True\<rparr>\<rparr>),
                (if error \<noteq> [] then [''Config parse failed for '' @ kConfigPath @ '': '' @ error] else [])
                @ [''Config not found; using built-in defaults.''])))"

definition LoadPatchConfigFromPath ::
  "('s, 'h, 't, 'n) services \<Rightarrow> 'a allocator option \<Rightarrow> 's list \<Rightarrow> 'a \<Rightarrow> string \<Rightarrow> string
     \<Rightarrow> 's list \<times> 'a \<times> PatchConfig outcome" where
  "LoadPatchConfigFromPath S A tr heap path error_out =
     LoadFromPath S A tr heap path default_PatchConfig error_out"

section \<open>Saving\<close>

definition SavePatchConfigToPath ::
  "('s, 'h, 't, 'n) services \<Rightarrow> 'a allocator option \<Rightarrow> 's list \<Rightarrow> 'a \<Rightarrow> string \<Rightarrow> PatchConfig \<Rightarrow> string
     \<Rightarrow> 's list \<times> 'a \<times> unit outcome" where
  "SavePatchConfigToPath S A tr heap path config error_out =
     (case Option.bind (NormalizePatchConfig (sv_toml S) (sv_device S) config)
             (BuildPatchConfigTable (sv_toml S) (sv_device S)) of
        None \<Rightarrow> (tr, heap, Aborted ''null section table'')
      | Some doc \<Rightarrow>
          if A = None then (tr, heap, Failed ''System allocator unavailable'')
          else
            case put_chunks A (heap, new_buffer) (sv_format S doc) of
              (heap, buffer) \<Rightarrow>
                if \<not> bf_ok buffer
                then (tr, destroy A heap buffer, Failed ''Failed to allocate config buffer'')
                else
                  case WriteAllAtomic (sv_fs S) tr path (bf_view buffer) ''config file'' error_out of
                    (tr, error_out, ok) \<Rightarrow>
                      (tr, destroy A heap buffer, if ok then Done () else Failed error_out))"

definition SavePatchConfig ::
  "('s, 'h, 't, 'n) services \<Rightarrow> 'a allocator option \<Rightarrow> 's list \<Rightarrow> 'a \<Rightarrow> PatchConfig
     \<Rightarrow> 's list \<times> 'a \<times> string list \<times> bool outcome" where
  "SavePatchConfig S A tr heap config =
     (case SavePatchConfigToPath S A tr heap kConfigPath config '''' of
        (tr, heap, Aborted m) \<Rightarrow> (tr, heap, [], Aborted m)
      | (tr, heap, Failed error) \<Rightarrow>
          (tr, heap,
           [if error \<noteq> [] then ''Config save failed for '' @ kConfigPath @ '': '' @ error
            else ''Config save failed for '' @ kConfigPath], Done False)
      | (tr, heap, Done u) \<Rightarrow> (tr, heap, [''Saved config: '' @ kConfigPath], Done True))"

section \<open>Reading\<close>

lemma Resize_new:
  assumes "allocator_laws al live" "Resize (Some al) h new_buffer n = (h', b, r)" "0 < n"
  shows "live (destroy (Some al) h' b) = live h"
    and "r \<Longrightarrow> bf_size b = n \<and> n \<le> length (bf_mem b)"
    and "destroy (Some al) h' (b\<lparr>bf_mem := m\<rparr>) = destroy (Some al) h' b"
proof -
  obtain b1 where R: "Reserve (Some al) h new_buffer n = (h', b1, r)"
    and b: "b = (if r then b1\<lparr>bf_size := n\<rparr> else b1\<lparr>bf_ok := False\<rparr>)"
    using assms(2) by (auto simp: Resize_def split: prod.splits bool.splits)
  note spec = Reserve_spec[OF assms(1) new_buffer_ok(1) R, of "live h"]
  have o: "owns live (live h) h new_buffer" by (rule new_buffer_ok(2)[OF refl])
  then have l: "live h' = live h \<union> set_option (bf_data b)" "live h \<inter> set_option (bf_data b) = {}"
    using spec by (auto simp: b)
  show "live (destroy (Some al) h' b) = live h"
    using l allocator_Free[OF assms(1), of h'] by (auto simp: destroy_def split: option.splits)
  show "r \<Longrightarrow> bf_size b = n \<and> n \<le> length (bf_mem b)"
    using spec by (simp add: b buffer_inv_def)
  show "destroy (Some al) h' (b\<lparr>bf_mem := m\<rparr>) = destroy (Some al) h' b"
    by (simp add: destroy_def)
qed

lemma ReadAll_spec:
  assumes F: "fs_laws (sv_fs S) V" and R: "fs_reliable (sv_fs S) V" and A: "allocator_laws al live"
    and c: "content V (hd tr) path = Some text" "text \<noteq> []" "path \<noteq> []"
    and res: "ReadAll S (Some al) tr h new_buffer path e = (tr', h', b, r)"
  shows "r = Done text \<or> r = Failed ''Failed to allocate config buffer''"
    and "live (destroy (Some al) h' b) = live h"
    and "content V (hd tr') = content V (hd tr)" "opened V (hd tr') = opened V (hd tr)"
proof -
  let ?F = "sv_fs S"
  obtain s1 r1 where o: "OpenFile ?F (hd tr) path OpenMode_Read = (s1, r1)" by fastforce
  have "snd (OpenFile ?F (hd tr) path OpenMode_Read) \<noteq> None" using R c(1) by (simp add: fs_reliable_def)
  then obtain fh where fh: "r1 = Some fh" using o by auto
  note ol = OpenFile_law(1)[OF F o] OpenFile_law(3)[OF F o fh]
  have at: "opened V s1 fh = Some path" "content V s1 path = Some text" using ol c(1) by simp_all
  have closed: "content V (CloseFile ?F s1 fh) = content V (hd tr)"
    "opened V (CloseFile ?F s1 fh) = opened V (hd tr)"
    using CloseFile_law[OF F, of s1 fh] ol by (auto simp: fun_eq_iff)
  have "GetFileSize ?F s1 fh \<noteq> None" using R at by (simp add: fs_reliable_def)
  moreover have "n = int (length text)" if "GetFileSize ?F s1 fh = Some n" for n
    using fs_laws_read[OF F] that at unfolding fs_read_laws_def by blast
  ultimately have size: "GetFileSize ?F s1 fh = Some (int (length text))" by auto
  have "ReadFile ?F s1 fh 0 (length text) \<noteq> None"
    using R at unfolding fs_reliable_def by (metis add_0 order_refl)
  moreover have "d = text" if "ReadFile ?F s1 fh 0 (length text) = Some d" for d
  proof -
    have "d = take (length text) (drop 0 text)"
      using fs_laws_read[OF F] that at unfolding fs_read_laws_def by (metis add_0 order_refl)
    then show ?thesis by simp
  qed
  ultimately have read: "ReadFile ?F s1 fh 0 (length text) = Some text" by auto
  obtain h1 b1 r2 where rs: "Resize (Some al) h new_buffer (length text) = (h1, b1, r2)" by (metis prod_cases3)
  have pos: "0 < length text" using c(2) by simp
  note rl = Resize_new[OF A rs pos]
  let ?b = "b1\<lparr>bf_mem := text @ drop (length text) (bf_mem b1)\<rparr>"
  have ex: "DoesFileExist ?F (hd tr) (Some path)" using reliable_exists[OF R c(3)] c(1) by simp
  have opn: "call (\<lambda>s. OpenFile ?F s path OpenMode_Read) tr = (s1 # tr, Some fh)"
    using o fh by (simp add: call_def)
  have e: "(tr', h', b, r) =
      (CloseFile ?F s1 fh # s1 # tr, h1,
       (if r2 then (?b, Done (bf_view ?b)) else (b1, Failed ''Failed to allocate config buffer'')))"
    unfolding res[symmetric] ReadAll_def using ex opn size read rs pos
    by (cases r2) (simp_all add: Let_def)
  show "r = Done text \<or> r = Failed ''Failed to allocate config buffer''"
    using e rl(2) by (cases r2) (auto simp: bf_view_def)
  show "live (destroy (Some al) h' b) = live h"
    using e rl(1,3) by (cases r2) auto
  show "content V (hd tr') = content V (hd tr)" "opened V (hd tr') = opened V (hd tr)"
    using e closed by simp_all
qed

lemma load_spec:
  assumes F: "fs_laws (sv_fs S) V" and R: "fs_reliable (sv_fs S) V" and A: "allocator_laws al live"
    and c: "content V (hd tr) path = Some text" "text \<noteq> []" "path \<noteq> []"
    and res: "LoadFromPath S (Some al) tr h path out e = (tr', h', r)"
  shows "(r = (case sv_parse S text path of
              Inl err \<Rightarrow> Failed (parse_message err)
            | Inr t \<Rightarrow> Done (ApplyTable (sv_toml S) (sv_device S) out t))
        \<or> r = Failed ''Failed to allocate config buffer'')
    \<and> live h' = live h \<and> content V (hd tr') = content V (hd tr) \<and> opened V (hd tr') = opened V (hd tr)"
proof -
  obtain tr1 h1 b1 r1 where RA: "ReadAll S (Some al) tr h new_buffer path e = (tr1, h1, b1, r1)"
    by (metis prod_cases4)
  note sp = ReadAll_spec[OF F R A c RA]
  let ?fail = "''Failed to allocate config buffer''"
  have e: "(tr', h', r) = (tr1, destroy (Some al) h1 b1,
      if r1 = Done text then (case sv_parse S text path of
              Inl err \<Rightarrow> Failed (parse_message err)
            | Inr t \<Rightarrow> Done (ApplyTable (sv_toml S) (sv_device S) out t))
      else Failed ?fail)"
    using sp(1) unfolding res[symmetric] LoadFromPath_def RA by (elim disjE) simp_all
  then have "tr' = tr1" "h' = destroy (Some al) h1 b1" by simp_all
  then show ?thesis using e sp(2-4) by (cases "r1 = Done text") simp_all
qed

lemma save_spec:
  assumes T: "toml_laws (sv_toml S)" and F: "fs_laws (sv_fs S) V" and R: "fs_reliable (sv_fs S) V"
    and A: "allocator_laws al live" and fl: "float_fields (resolution_hack config)"
    and p: "path \<noteq> []" "content V s0 kHackDir = None"
    and doc: "BuildPatchConfigTable (sv_toml S) (sv_device S) (clamp_config (sv_device S) config) = Some doc"
    and res: "SavePatchConfigToPath S (Some al) [s0] h path config e = (tr, h', r)"
  shows "(if r = Done () then
        content V (hd tr) = (content V s0)(path \<mapsto> concat (map chunk_text (sv_format S doc)),
                              path @ ''.tmp'' := None, path @ ''.bak'' := None)
      else r = Failed ''Failed to allocate config buffer'' \<and> content V (hd tr) = content V s0)
    \<and> opened V (hd tr) = opened V s0 \<and> live h' = live h
    \<and> (bf_ok (snd (put_chunks (Some al) (h, new_buffer) (sv_format S doc))) \<longrightarrow> r = Done ())"
proof -
  have n: "Option.bind (NormalizePatchConfig (sv_toml S) (sv_device S) config)
      (BuildPatchConfigTable (sv_toml S) (sv_device S)) = Some doc"
    using normalize_clamps[OF T fl] doc by simp
  obtain h1 b where P: "put_chunks (Some al) (h, new_buffer) (sv_format S doc) = (h1, b)" by fastforce
  note sb = put_chunks_fresh[OF A P]
  show ?thesis
  proof (cases "bf_ok b")
    case False
    then show ?thesis using res n P sb False by (auto simp: SavePatchConfigToPath_def)
  next
    case True
    obtain tr2 e2 ok where W: "WriteAllAtomic (sv_fs S) [s0] path (bf_view b) ''config file'' e = (tr2, e2, ok)"
      by (metis prod_cases3)
    note rw = reliable_write_spec[OF F R p W]
    have "r = Done ()" "tr = tr2" "h' = destroy (Some al) h1 b"
      using res n P True W rw by (auto simp: SavePatchConfigToPath_def)
    then show ?thesis using rw sb True P by simp
  qed
qed

section \<open>Properties\<close>

text \<open>
  C14: A saved configuration loads back as its normal form.  On a working file
  system a save that succeeds leaves exactly the formatted document at the path,
  and loading that path gives \<open>clamp_config\<close> of the saved configuration, or reports
  that the read buffer could not be allocated; a save that fails leaves every file
  as it was.  Neither operation leaks a heap block or a file handle.
\<close>
theorem save_load_roundtrip:
  assumes "toml_laws (sv_toml S)" "fs_laws (sv_fs S) V" "fs_reliable (sv_fs S) V" "allocator_laws al live"
    and "float_fields (resolution_hack config)" "path \<noteq> []" "content V s0 kHackDir = None"
    and fmt: "\<And>doc. BuildPatchConfigTable (sv_toml S) (sv_device S) (clamp_config (sv_device S) config) = Some doc \<Longrightarrow>
        concat (map chunk_text (sv_format S doc)) \<noteq> []
        \<and> sv_parse S (concat (map chunk_text (sv_format S doc))) path = Inr doc"
    and save: "SavePatchConfigToPath S (Some al) [s0] h path config e = (tr, h1, r)"
    and load: "LoadPatchConfigFromPath S (Some al) tr h1 path e2 = (tr2, h2, l)"
  shows "(r = Done () \<longrightarrow>
        l = Done (clamp_config (sv_device S) config) \<or> l = Failed ''Failed to allocate config buffer'')
    \<and> (r \<noteq> Done () \<longrightarrow> content V (hd tr) = content V s0)
    \<and> live h1 = live h \<and> opened V (hd tr) = opened V s0
    \<and> (r = Done () \<longrightarrow> live h2 = live h \<and> opened V (hd tr2) = opened V s0)"
proof -
  let ?T = "sv_toml S" and ?dev = "sv_device S"
  let ?c = "clamp_config ?dev config"
  have nc: "NormalizePatchConfig ?T ?dev ?c = Some ?c"
    using normalize_clamps[OF assms(1) float_fields_clamped[OF assms(5)], of ?dev ?dev]
    by (simp add: clamp_config_again)
  then obtain doc where doc: "BuildPatchConfigTable ?T ?dev ?c = Some doc"
    and ap: "ApplyTable ?T ?dev default_PatchConfig doc = ?c"
    by (auto simp: NormalizePatchConfig_def)
  note sv = save_spec[OF assms(1-7) doc save]
  note f = fmt[OF doc]
  show ?thesis
  proof (cases "r = Done ()")
    case False
    then show ?thesis using sv by simp
  next
    case True
    then have c: "content V (hd tr) path = Some (concat (map chunk_text (sv_format S doc)))"
      using sv by simp
    have ne: "concat (map chunk_text (sv_format S doc)) \<noteq> []" using f by blast
    show ?thesis
      using load_spec[OF assms(2-4) c ne assms(6) load[unfolded LoadPatchConfigFromPath_def]] f ap sv True
      by auto
  qed
qed


section \<open>A run\<close>

text \<open>A parser and formatter that know one document.\<close>

definition one_document :: "(string \<times> node) list \<Rightarrow> (mem, nat, (string \<times> node) list, node) services" where
  "one_document doc =
     \<lparr>sv_fs = mem_fs, sv_toml = alist_toml,
      sv_parse = (\<lambda>s p. if s = ''d'' then Inr doc else Inl \<lparr>description = ''bad'', source_begin = None\<rparr>),
      sv_format = (\<lambda>d. [Block ''d'']), sv_device = None\<rparr>"

lemma bump_streams: "bf_ok (snd (put_chunks (Some bump) ([], new_buffer) [Block ''d'']))"
  by (simp add: put_chunks_def xsputn_def Append_def Reserve_def new_buffer_def
      size_t_max_def bump_def Let_def grow_target_def)

theorem save_load_roundtrip_witness:
  "\<exists>doc tr h1 tr2 h2 l.
     SavePatchConfigToPath (one_document doc) (Some bump) [mem_start] [] ''c.toml'' default_PatchConfig '''' = (tr, h1, Done ())
   \<and> LoadPatchConfigFromPath (one_document doc) (Some bump) tr h1 ''c.toml'' '''' = (tr2, h2, l)
   \<and> (l = Done (clamp_config None default_PatchConfig) \<or> l = Failed ''Failed to allocate config buffer'')
   \<and> set h1 = {}"
proof -
  let ?c = "clamp_config None default_PatchConfig"
  have "NormalizePatchConfig alist_toml None ?c \<noteq> None"
    using normalize_clamps[OF alist_toml_laws float_fields_clamped[OF default_float_fields]] by simp
  then obtain doc where doc: "BuildPatchConfigTable alist_toml None ?c = Some doc"
    by (auto simp: NormalizePatchConfig_def)
  let ?S = "one_document doc"
  have S: "sv_fs ?S = mem_fs" "sv_toml ?S = alist_toml" "sv_device ?S = None"
    "sv_format ?S d = [Block ''d'']" "sv_parse ?S ''d'' p = Inr doc" for d p
    by (simp_all add: one_document_def)
  have dir: "content mem_view mem_start kHackDir = None" by (simp add: mem_view_def mem_start_def kHackDir_def)
  have T: "toml_laws (sv_toml ?S)" and F: "fs_laws (sv_fs ?S) mem_view" "fs_reliable (sv_fs ?S) mem_view"
    by (simp_all add: S alist_toml_laws mem_fs_laws mem_fs_reliable)
  have ne: "''c.toml'' \<noteq> []" by simp
  have doc': "BuildPatchConfigTable (sv_toml ?S) (sv_device ?S) (clamp_config (sv_device ?S) default_PatchConfig) = Some doc"
    by (simp add: S doc)
  have fmt: "concat (map chunk_text (sv_format ?S d)) \<noteq> [] \<and>
      sv_parse ?S (concat (map chunk_text (sv_format ?S d))) ''c.toml'' = Inr d"
    if "BuildPatchConfigTable (sv_toml ?S) (sv_device ?S) (clamp_config (sv_device ?S) default_PatchConfig) = Some d" for d
  proof -
    have "d = doc" using that doc by (simp add: S)
    then show ?thesis by (simp add: S)
  qed
  obtain tr h1 r where sv: "SavePatchConfigToPath ?S (Some bump) [mem_start] [] ''c.toml'' default_PatchConfig '''' = (tr, h1, r)"
    by (metis prod_cases3)
  obtain tr2 h2 l where ld: "LoadPatchConfigFromPath ?S (Some bump) tr h1 ''c.toml'' '''' = (tr2, h2, l)"
    by (metis prod_cases3)
  have "r = Done ()"
    using save_spec[OF T F bump_laws default_float_fields ne dir doc' sv] bump_streams by (simp add: S)
  moreover have "(r = Done () \<longrightarrow> l = Done (clamp_config None default_PatchConfig)
        \<or> l = Failed ''Failed to allocate config buffer'') \<and> set h1 = {}"
    using save_load_roundtrip[OF T F bump_laws default_float_fields ne dir fmt sv ld] by (simp add: S)
  ultimately show ?thesis using sv ld by blast
qed


end
