(* ===== verification/Boot.thy ===== *)
theory Boot
  imports Config_File
begin

text \<open>
  Start-up of the mod: the hook registry (\<open>source/program/hook_registry.cpp\<close>), the
  boot report (\<open>source/program/boot_report.cpp\<close>) and the two entry points of
  \<open>source/program/main.cpp\<close>, \<open>exl_main\<close> and the \<open>MainInit\<close> hook.  Calls into the game,
  the loader and the GUI are events of a trail, in order.
\<close>

section \<open>The hook registry\<close>

datatype ToggleSafety = RuntimeSafeToggle | RestartRequiredToggle

record HookEntry =
  he_name :: "string option"
  he_owner :: "string option"
  he_feature :: "string option"
  he_install :: "string option"
  he_enabled :: "(PatchConfig \<Rightarrow> bool) option"
  he_toggle_safety :: ToggleSafety

definition Always :: "PatchConfig \<Rightarrow> bool" where "Always config \<longleftrightarrow> True"

definition EnabledResolutionHooks :: "PatchConfig \<Rightarrow> bool" where
  "EnabledResolutionHooks config \<longleftrightarrow> rh_active (resolution_hack config)"

definition EnabledDebuggingHooks :: "PatchConfig \<Rightarrow> bool" where
  "EnabledDebuggingHooks config \<longleftrightarrow>
     (if cr_active (challenge_rifts config) then True
      else if \<not> db_active (debug config) then False
      else enable_pubfile_dump (debug config) \<or> enable_error_traces (debug config) \<or> tagnx (debug config)
         \<or> enable_debug_flags (debug config) \<or> enable_exception_handler (debug config)
         \<or> enable_oe_notification_hook (debug config))"

definition EnabledLobbyHooks :: "PatchConfig \<Rightarrow> bool" where
  "EnabledLobbyHooks config \<longleftrightarrow> enable_crashes (debug config)"

text \<open>The install functions are named; installing one is an event.\<close>

definition hook_entry :: "string \<Rightarrow> string \<Rightarrow> string \<Rightarrow> string \<Rightarrow> (PatchConfig \<Rightarrow> bool) \<Rightarrow> ToggleSafety \<Rightarrow> HookEntry" where
  "hook_entry n ow ft inst en ts =
     \<lparr>he_name = Some n, he_owner = Some ow, he_feature = Some ft, he_install = Some inst,
      he_enabled = Some en, he_toggle_safety = ts\<rparr>"

definition RegistryEntries :: "HookEntry list" where
  "RegistryEntries =
     [hook_entry ''UtilityHooks'' ''d3/hooks/util'' ''misc'' ''SetupUtilityHooks'' Always RestartRequiredToggle,
      hook_entry ''ResolutionHooks'' ''d3/hooks/resolution'' ''resolution_hack.active''
        ''SetupResolutionHooks'' EnabledResolutionHooks RestartRequiredToggle,
      hook_entry ''DebuggingHooks'' ''d3/hooks/debug'' ''debug.active or challenge_rifts.active''
        ''SetupDebuggingHooks'' EnabledDebuggingHooks RestartRequiredToggle,
      hook_entry ''SeasonEventHooks'' ''d3/hooks/season_events'' ''events/seasons pubfile overrides''
        ''SetupSeasonEventHooks'' Always RuntimeSafeToggle,
      hook_entry ''LobbyHooks'' ''d3/hooks/lobby'' ''debug.enable_crashes''
        ''SetupLobbyHooks'' EnabledLobbyHooks RestartRequiredToggle]"

definition entry_enabled :: "PatchConfig \<Rightarrow> HookEntry \<Rightarrow> bool" where
  "entry_enabled config e = (case he_enabled e of None \<Rightarrow> True | Some f \<Rightarrow> f config)"

section \<open>The state of start-up\<close>

datatype BootStage =
    ExlMainStart | VerifyBuild | ValidateOffsets | EarlyPatches | InstallBootHooks | MountSd
  | LoadConfig | ConfigureLogging | InstallHooks | ApplyPatches | InitGui | StartGameLoop

fun BootStageName :: "BootStage \<Rightarrow> string" where
  "BootStageName ExlMainStart = ''ExlMainStart''"
| "BootStageName VerifyBuild = ''VerifyBuild''"
| "BootStageName ValidateOffsets = ''ValidateOffsets''"
| "BootStageName EarlyPatches = ''EarlyPatches''"
| "BootStageName InstallBootHooks = ''InstallBootHooks''"
| "BootStageName MountSd = ''MountSd''"
| "BootStageName LoadConfig = ''LoadConfig''"
| "BootStageName ConfigureLogging = ''ConfigureLogging''"
| "BootStageName InstallHooks = ''InstallHooks''"
| "BootStageName ApplyPatches = ''ApplyPatches''"
| "BootStageName InitGui = ''InitGui''"
| "BootStageName StartGameLoop = ''StartGameLoop''"

datatype arg = AStr string | ANum nat | AFloat fp

text \<open>A line of the log: its format string and arguments.\<close>

type_synonym line = "string \<times> arg list"

datatype event =
    Log line
  | HookInitialize
  | SdMounted
  | ConfigLoaded
  | LoggingConfigured
  | ExceptionHandlerInstalled
  | InstallCall string
  | FuncPtrInstall string
  | PatchCall string
  | GuiInitialize
  | OrigMainInit

record boot_state =
  bt_globals :: config_globals
  g_configHooksInstalled :: bool
  g_hooks :: "string list"
  g_patches :: "string list"
  g_printed :: bool
  bt_trail :: "event list"

definition record_event :: "event \<Rightarrow> boot_state \<Rightarrow> boot_state" where
  "record_event e b = b\<lparr>bt_trail := bt_trail b @ [e]\<rparr>"

definition PrintBootStage :: "BootStage \<Rightarrow> boot_state \<Rightarrow> boot_state" where
  "PrintBootStage stage b = record_event (Log (''[boot] stage=%s'', [AStr (BootStageName stage)])) b"

section \<open>The boot report\<close>

definition kMaxEntries :: nat where "kMaxEntries = 64"

definition Record :: "string option \<Rightarrow> string list \<Rightarrow> string list" where
  "Record n arr =
     (case n of
        None \<Rightarrow> arr
      | Some [] \<Rightarrow> arr
      | Some s \<Rightarrow> if kMaxEntries \<le> length arr then arr else arr @ [s])"

definition RecordHook :: "string option \<Rightarrow> boot_state \<Rightarrow> boot_state" where
  "RecordHook n b = b\<lparr>g_hooks := Record n (g_hooks b)\<rparr>"

definition RecordPatch :: "string option \<Rightarrow> boot_state \<Rightarrow> boot_state" where
  "RecordPatch n b = b\<lparr>g_patches := Record n (g_patches b)\<rparr>"

fun ToggleSafetyName :: "ToggleSafety \<Rightarrow> string" where
  "ToggleSafetyName RuntimeSafeToggle = ''runtime_safe''"
| "ToggleSafetyName RestartRequiredToggle = ''restart_required''"

definition bit_arg :: "bool \<Rightarrow> arg" where "bit_arg v = ANum (if v then 1 else 0)"

definition mode_number :: "SeasonEventMapMode \<Rightarrow> nat" where
  "mode_number m = (case m of MapOnly \<Rightarrow> 0 | OverlayConfig \<Rightarrow> 1 | Disabled \<Rightarrow> 2)"

text \<open>\<open>stamps\<close>: the version, client, build id and time compiled in.\<close>

definition config_summary :: "string \<times> string \<times> string \<times> string \<Rightarrow> PatchConfig \<Rightarrow> line list" where
  "config_summary stamps c =
     (case stamps of (ver, client, build_id, built) \<Rightarrow>
     [(''d3hack: ver=%s client=%s'', [AStr ver, AStr client]),
      (''build: %s built=%s'', [AStr build_id, AStr built]),
      (''config: path=%s initialized=%u defaults_only=%u'',
       [AStr kConfigPath, bit_arg (initialized c), bit_arg (defaults_only c)]),
      (''gui: enabled=%u visible=%u left_stick_passthrough=%u lang_override=%s'',
       [bit_arg (gui_enabled (gui c)), bit_arg (gui_visible (gui c)),
        bit_arg (allow_left_stick_passthrough (gui c)),
        AStr (if language_override (gui c) = [] then ''(none)'' else language_override (gui c))]),
      (''features: reshack=%u overlays=%u seasons=%u events=%u rare_cheats=%u loot_modifiers=%u debug=%u tagnx=%u'',
       [bit_arg (rh_active (resolution_hack c)), bit_arg (ov_active (overlays c)), bit_arg (sea_active (seasons c)),
        bit_arg (ev_active (events c)), bit_arg (rc_active (rare_cheats c)), bit_arg (lm_active (loot_modifiers c)),
        bit_arg (db_active (debug c)), bit_arg (tagnx (debug c))]),
      (''overlays: buildlocker=%u ddm_labels=%u fps_label=%u var_res_label=%u'',
       [bit_arg (buildlocker_watermark (overlays c)), bit_arg (ddm_labels (overlays c)),
        bit_arg (fps_label (overlays c)), bit_arg (var_res_label (overlays c))]),
      (''debug: crashes=%u pubfile_dump=%u error_traces=%u debug_flags=%u exception_handler=%u oe_notify=%u oe_notify_log=%u'',
       [bit_arg (enable_crashes (debug c)), bit_arg (enable_pubfile_dump (debug c)),
        bit_arg (enable_error_traces (debug c)), bit_arg (enable_debug_flags (debug c)),
        bit_arg (enable_exception_handler (debug c)), bit_arg (enable_oe_notification_hook (debug c)),
        bit_arg (log_oe_notification_messages (debug c))]),
      (''seasons: active=%u season=%u allow_online=%u spoof_ptr=%u'',
       [bit_arg (sea_active (seasons c)), ANum (unat (current_season (seasons c))),
        bit_arg (allow_online (seasons c)), bit_arg (spoof_ptr (seasons c))]),
      (''events: active=%u map_mode=%u'', [bit_arg (ev_active (events c)), ANum (mode_number (SeasonMapMode (events c)))]),
      (''challenge_rifts: active=%u random=%u range=[%u,%u]'',
       [bit_arg (cr_active (challenge_rifts c)), bit_arg (cr_random (challenge_rifts c)),
        ANum (unat (range_start (challenge_rifts c))), ANum (unat (range_end (challenge_rifts c)))])])"

definition plan_line :: "PatchConfig \<Rightarrow> HookEntry \<Rightarrow> line list" where
  "plan_line c e =
     (case he_name e of
        None \<Rightarrow> []
      | Some [] \<Rightarrow> []
      | Some n \<Rightarrow>
          [(''  - %s: enabled=%u safety=%s owner=%s feature=%s'',
            [AStr n, bit_arg (entry_enabled c e), AStr (ToggleSafetyName (he_toggle_safety e)),
             AStr (case he_owner e of None \<Rightarrow> ''(unknown)'' | Some s \<Rightarrow> s),
             AStr (case he_feature e of None \<Rightarrow> ''(unknown)'' | Some s \<Rightarrow> s)])])"

definition hook_plan :: "PatchConfig \<Rightarrow> line list" where
  "hook_plan c = (''%s'', [AStr ''hook plan (config -> installed at boot):'']) # concat (map (plan_line c) RegistryEntries)"

definition print_list :: "string \<Rightarrow> string list \<Rightarrow> line list" where
  "print_list label arr =
     (''%s (%u):'', [AStr label, ANum (length arr)])
     # concat (map (\<lambda>n. if n \<noteq> [] then [(''  - %s'', [AStr n])] else []) arr)"

definition PrintOnce :: "string \<times> string \<times> string \<times> string \<Rightarrow> boot_state \<Rightarrow> boot_state" where
  "PrintOnce stamps b =
     (if g_printed b then b
      else
        let c = global_config (bt_globals b);
            ls = (''%s'', [AStr (CHR 0x0A # ''--- boot report ---'')])
                 # config_summary stamps c @ hook_plan c
                 @ print_list ''hooks installed'' (g_hooks b) @ print_list ''patches applied'' (g_patches b)
        in fold (\<lambda>l. record_event (Log l)) ls (b\<lparr>g_printed := True\<rparr>))"

section \<open>The main initialisation hook\<close>

definition install_entry :: "PatchConfig \<Rightarrow> HookEntry \<Rightarrow> boot_state outcome \<Rightarrow> boot_state outcome" where
  "install_entry c e ob =
     (case ob of
        Done b \<Rightarrow>
          if \<not> entry_enabled c e then Done b
          else
            (case he_install e of
               None \<Rightarrow> Aborted (''Hook entry missing install: '' @ (case he_name e of None \<Rightarrow> [] | Some n \<Rightarrow> n))
             | Some f \<Rightarrow> Done (RecordHook (he_name e) (record_event (InstallCall f) b)))
      | stopped \<Rightarrow> stopped)"

definition install_hooks :: "PatchConfig \<Rightarrow> boot_state \<Rightarrow> boot_state outcome" where
  "install_hooks c b =
     (if g_configHooksInstalled b then Done b
      else
        case fold (install_entry c) RegistryEntries (Done (PrintBootStage InstallHooks b)) of
          Done b \<Rightarrow> Done (b\<lparr>g_configHooksInstalled := True\<rparr>)
        | stopped \<Rightarrow> stopped)"

definition patch_if :: "bool \<Rightarrow> string \<Rightarrow> string \<Rightarrow> boot_state \<Rightarrow> boot_state" where
  "patch_if cond name fn b = (if cond then record_event (PatchCall fn) (RecordPatch (Some name) b) else b)"

definition apply_patches :: "PatchConfig \<Rightarrow> boot_state \<Rightarrow> boot_state" where
  "apply_patches c b =
     (let b = PrintBootStage ApplyPatches b;
          b = patch_if (ev_active (events c)) ''DynamicEvents'' ''PatchDynamicEvents'' b;
          b = patch_if (sea_active (seasons c)) ''DynamicSeasonal'' ''PatchDynamicSeasonal'' b;
          b = patch_if (ov_active (overlays c) \<and> buildlocker_watermark (overlays c)) ''BuildLocker'' ''PatchBuildlocker'' b;
          b = patch_if (rh_active (resolution_hack c)) ''ResolutionTargets'' ''PatchResolutionTargets'' b
      in patch_if True ''Base'' ''PatchBase'' b)"

text \<open>The line about the resolution settings.\<close>

definition resolution_line :: "PatchConfig \<Rightarrow> line" where
  "resolution_line c =
     (let r = resolution_hack c; outW = OutputWidthPx r; outH = OutputHeightPx r;
          clampH = ClampTextureHeightPx r; clampW = ClampTextureWidthPx r
      in if rh_active r then
           (''ResolutionHack config: target=%u output=%ux%u min_scale=%.1f max_scale=%.1f clamp_h=%u clamp=%ux%u defaults_only=%u'',
            [ANum (unat (target_resolution r)), ANum (unat outW), ANum (unat outH),
             AFloat (min_res_scale r), AFloat (max_res_scale r), ANum (unat clampH), ANum (unat clampW), ANum (unat clampH), bit_arg (defaults_only c)])
         else (''%s'', [AStr ''ResolutionHack config: inactive'']))"

text \<open>
  \<open>mount\<close> is the result of mounting the SD card.  The file system trace and the heap
  are threaded through the configuration loader.
\<close>

definition MainInit ::
  "('s, 'h, 't, 'n) services \<Rightarrow> 'a allocator option \<Rightarrow> bool \<Rightarrow> 's list \<Rightarrow> 'a \<Rightarrow> boot_state
     \<Rightarrow> 's list \<times> 'a \<times> boot_state outcome" where
  "MainInit S A mount tr heap b =
     (let b = PrintBootStage MountSd b in
      if \<not> mount then (tr, heap, Aborted ''MountSdCardForDebug'')
      else
        let b = PrintBootStage LoadConfig (record_event SdMounted b)
        in case LoadPatchConfig S A tr heap (bt_globals b) of
             (tr, heap, Aborted m) \<Rightarrow> (tr, heap, Aborted m)
           | (tr, heap, Failed m) \<Rightarrow> (tr, heap, Failed m)
           | (tr, heap, Done (g, ls)) \<Rightarrow>
               let b = record_event ConfigLoaded (b\<lparr>bt_globals := g\<rparr>);
                   c = global_config g;
                   b = record_event LoggingConfigured (PrintBootStage ConfigureLogging b);
                   b = (if enable_exception_handler (debug c)
                        then record_event (Log (''%s'', [AStr ''User exception handler enabled'']))
                               (record_event ExceptionHandlerInstalled b) else b);
                   b = record_event (Log (resolution_line c)) b
               in case install_hooks c b of
                    Aborted m \<Rightarrow> (tr, heap, Aborted m)
                  | Failed m \<Rightarrow> (tr, heap, Failed m)
                  | Done b \<Rightarrow>
                      let b = apply_patches c b;
                          b = record_event GuiInitialize (PrintBootStage InitGui b)
                      in (tr, heap, Done (record_event OrigMainInit (PrintBootStage StartGameLoop b))))"

section \<open>The entry point of the module\<close>

text \<open>\<open>read_rodata\<close> is the memory the build check compares, from the main module's start.\<close>

definition kBuildVersionFullExpected :: string where "kBuildVersionFullExpected = ''C2.7.6.90885''"

definition kBuildVersionFullOffset :: nat where "kBuildVersionFullOffset = 0x0E45863"

definition VerifyBuildVersionFull :: "(nat \<Rightarrow> char) \<Rightarrow> bool" where
  "VerifyBuildVersionFull read_rodata \<longleftrightarrow>
     map (\<lambda>i. read_rodata (kBuildVersionFullOffset + i)) [0..<length kBuildVersionFullExpected]
     = kBuildVersionFullExpected"

definition kRequiredBootLookupKeys :: "string list" where
  "kRequiredBootLookupKeys =
     [''sym_main_init'', ''sym_gfx_init'', ''sym_shell_initialize'', ''sym_game_common_data_init'',
      ''sym_sinitialize_world'', ''main_rwindow'', ''gfx_internal_data_ptr'', ''unicode_text_current_locale'']"

definition boot_hook :: "string \<Rightarrow> boot_state \<Rightarrow> boot_state" where
  "boot_hook n b = RecordHook (Some (''boot:'' @ n)) (record_event (FuncPtrInstall n) b)"

text \<open>\<open>lookup\<close> is \<open>GameOffsetFromTable\<close>.\<close>

definition exl_main :: "(nat \<Rightarrow> char) \<Rightarrow> (string \<Rightarrow> u64) \<Rightarrow> boot_state \<Rightarrow> boot_state outcome" where
  "exl_main read_rodata lookup b =
     (let b = PrintBootStage VerifyBuild (record_event HookInitialize (PrintBootStage ExlMainStart b)) in
      if \<not> VerifyBuildVersionFull read_rodata
      then Aborted (''Unsupported build; expected '' @ kBuildVersionFullExpected)
      else
        let b = PrintBootStage ValidateOffsets (record_event (Log (''Compiled at'', [])) b)
        in case filter (\<lambda>key. key \<noteq> [] \<and> lookup key = 0) kRequiredBootLookupKeys of
             key # _ \<Rightarrow> Aborted (''Required lookup resolved to 0: '' @ key)
           | [] \<Rightarrow>
               let b = PrintBootStage EarlyPatches b;
                   b = RecordPatch (Some ''GraphicsPersistentHeapEarly'')
                         (record_event (PatchCall ''PatchGraphicsPersistentHeapEarly'') b);
                   b = PrintBootStage InstallBootHooks b
               in Done (fold boot_hook
                    [''MainInit'', ''GfxInit'', ''ShellInitialize'', ''GameCommonDataInit'',
                     ''SetGameParamsForHero'', ''sInitializeWorld''] b))"

section \<open>The trail\<close>

fun is_log :: "event \<Rightarrow> bool" where
  "is_log (Log l) = True"
| "is_log _ = False"

text \<open>The calls of a trail, without the log lines.\<close>

definition calls :: "boot_state \<Rightarrow> event list" where
  "calls b = filter (\<lambda>e. \<not> is_log e) (bt_trail b)"

lemma calls_event [simp]:
  "calls (record_event (Log l) b) = calls b"
  "\<not> is_log e \<Longrightarrow> calls (record_event e b) = calls b @ [e]"
  by (simp_all add: calls_def record_event_def)

lemma calls_other [simp]:
  "calls (PrintBootStage st b) = calls b" "calls (RecordHook n b) = calls b" "calls (RecordPatch n b) = calls b"
  "calls (b\<lparr>bt_globals := g\<rparr>) = calls b" "calls (b\<lparr>g_configHooksInstalled := x\<rparr>) = calls b"
  by (simp_all add: PrintBootStage_def) (simp_all add: calls_def RecordHook_def RecordPatch_def)

lemma event_fields [simp]:
  "g_hooks (record_event e b) = g_hooks b" "g_patches (record_event e b) = g_patches b"
  "g_configHooksInstalled (record_event e b) = g_configHooksInstalled b" "bt_globals (record_event e b) = bt_globals b"
  "g_hooks (PrintBootStage st b) = g_hooks b" "g_patches (PrintBootStage st b) = g_patches b"
  "g_configHooksInstalled (PrintBootStage st b) = g_configHooksInstalled b"
  "bt_globals (PrintBootStage st b) = bt_globals b"
  "g_hooks (RecordHook n b) = Record n (g_hooks b)" "g_patches (RecordHook n b) = g_patches b"
  "g_configHooksInstalled (RecordHook n b) = g_configHooksInstalled b" "bt_globals (RecordHook n b) = bt_globals b"
  "g_hooks (RecordPatch n b) = g_hooks b" "g_patches (RecordPatch n b) = Record n (g_patches b)"
  "g_configHooksInstalled (RecordPatch n b) = g_configHooksInstalled b" "bt_globals (RecordPatch n b) = bt_globals b"
  by (simp_all add: record_event_def PrintBootStage_def RecordHook_def RecordPatch_def)

lemma Record_appends: "s \<noteq> [] \<Longrightarrow> length arr < kMaxEntries \<Longrightarrow> Record (Some s) arr = arr @ [s]"
  by (cases s) (simp_all add: Record_def)

lemma Record_bounded: "length arr \<le> kMaxEntries \<Longrightarrow> length (Record n arr) \<le> kMaxEntries"
  by (auto simp: Record_def split: option.split list.split)

definition patch_calls :: "event list \<Rightarrow> string list" where
  "patch_calls es = concat (map (\<lambda>e. case e of PatchCall f \<Rightarrow> [f] | _ \<Rightarrow> []) es)"

lemma patch_calls_simps [simp]:
  "patch_calls [] = []" "patch_calls (xs @ ys) = patch_calls xs @ patch_calls ys"
  "patch_calls (PatchCall f # xs) = f # patch_calls xs"
  "patch_calls (map (\<lambda>p. PatchCall (snd p)) ps) = map snd ps"
  "patch_calls (map (\<lambda>e. InstallCall (the (he_install e))) hs) = []"
  "patch_calls (map FuncPtrInstall ns) = []"
  "patch_calls (HookInitialize # xs) = patch_calls xs" "patch_calls (SdMounted # xs) = patch_calls xs"
  "patch_calls (ConfigLoaded # xs) = patch_calls xs" "patch_calls (LoggingConfigured # xs) = patch_calls xs"
  "patch_calls (ExceptionHandlerInstalled # xs) = patch_calls xs" "patch_calls (GuiInitialize # xs) = patch_calls xs"
  "patch_calls (OrigMainInit # xs) = patch_calls xs"
  by (simp_all add: patch_calls_def comp_def)

text \<open>What the registry installs for a configuration, and what the code applies.\<close>

definition enabled_entries :: "PatchConfig \<Rightarrow> HookEntry list" where
  "enabled_entries c = filter (entry_enabled c) RegistryEntries"

definition patch_plan :: "PatchConfig \<Rightarrow> (string \<times> string) list" where
  "patch_plan c =
     map snd (filter fst
       [(ev_active (events c), ''DynamicEvents'', ''PatchDynamicEvents''),
        (sea_active (seasons c), ''DynamicSeasonal'', ''PatchDynamicSeasonal''),
        (ov_active (overlays c) \<and> buildlocker_watermark (overlays c), ''BuildLocker'', ''PatchBuildlocker''),
        (rh_active (resolution_hack c), ''ResolutionTargets'', ''PatchResolutionTargets''),
        (True, ''Base'', ''PatchBase'')])"

lemma fold_install:
  assumes "\<forall>e \<in> set es. he_install e \<noteq> None \<and> he_name e \<noteq> None \<and> he_name e \<noteq> Some []"
    "length (g_hooks b) + length es \<le> kMaxEntries"
  shows "\<exists>b'. fold (install_entry c) es (Done b) = Done b'
     \<and> calls b' = calls b @ map (\<lambda>e. InstallCall (the (he_install e))) (filter (entry_enabled c) es)
     \<and> g_hooks b' = g_hooks b @ map (\<lambda>e. the (he_name e)) (filter (entry_enabled c) es)
     \<and> g_patches b' = g_patches b \<and> bt_globals b' = bt_globals b"
  using assms
proof (induction es arbitrary: b)
  case (Cons e es)
  show ?case
  proof (cases "entry_enabled c e")
    case False
    then show ?thesis using Cons.IH[of b] Cons.prems by (simp add: install_entry_def)
  next
    case True
    obtain f n where e: "he_install e = Some f" "he_name e = Some n" "n \<noteq> []" using Cons.prems(1) by auto
    let ?b = "RecordHook (Some n) (record_event (InstallCall f) b)"
    have h: "g_hooks ?b = g_hooks b @ [n]" using Record_appends e(3) Cons.prems(2) by simp
    have step: "install_entry c e (Done b) = Done ?b" using True e by (simp add: install_entry_def)
    show ?thesis
      using Cons.IH[of ?b] Cons.prems e True h step by auto
  qed
qed simp

lemma Entries_wf: "\<forall>e \<in> set RegistryEntries. he_install e \<noteq> None \<and> he_name e \<noteq> None \<and> he_name e \<noteq> Some []" "length RegistryEntries = 5"
  by (simp_all add: RegistryEntries_def hook_entry_def)

lemma install_hooks_spec:
  assumes "length (g_hooks b) + 5 \<le> kMaxEntries"
  shows "\<exists>b'. install_hooks c b = Done b' \<and> g_configHooksInstalled b' \<and> g_patches b' = g_patches b
     \<and> bt_globals b' = bt_globals b
     \<and> (if g_configHooksInstalled b then b' = b
        else calls b' = calls b @ map (\<lambda>e. InstallCall (the (he_install e))) (enabled_entries c)
           \<and> g_hooks b' = g_hooks b @ map (\<lambda>e. the (he_name e)) (enabled_entries c))"
proof (cases "g_configHooksInstalled b")
  case False
  obtain b1 where "fold (install_entry c) RegistryEntries (Done (PrintBootStage InstallHooks b)) = Done b1"
     "calls b1 = calls b @ map (\<lambda>e. InstallCall (the (he_install e))) (filter (entry_enabled c) RegistryEntries)"
     "g_hooks b1 = g_hooks b @ map (\<lambda>e. the (he_name e)) (filter (entry_enabled c) RegistryEntries)"
     "g_patches b1 = g_patches b" "bt_globals b1 = bt_globals b"
    using fold_install[OF Entries_wf(1), of "PrintBootStage InstallHooks b" c] assms Entries_wf(2) by auto
  then show ?thesis using False by (simp add: install_hooks_def enabled_entries_def)
qed (simp add: install_hooks_def)

lemma patch_if_spec:
  assumes "n \<noteq> []" "length (g_patches b) < kMaxEntries"
  shows "calls (patch_if v n f b) = calls b @ (if v then [PatchCall f] else [])"
    "g_patches (patch_if v n f b) = g_patches b @ (if v then [n] else [])"
    "g_hooks (patch_if v n f b) = g_hooks b"
    "g_configHooksInstalled (patch_if v n f b) = g_configHooksInstalled b"
    "bt_globals (patch_if v n f b) = bt_globals b"
  using assms by (simp_all add: patch_if_def Record_appends)

lemma apply_patches_spec:
  assumes "length (g_patches b) + 5 \<le> kMaxEntries"
  shows "calls (apply_patches c b) = calls b @ map (\<lambda>p. PatchCall (snd p)) (patch_plan c)
    \<and> g_patches (apply_patches c b) = g_patches b @ map fst (patch_plan c)
    \<and> g_hooks (apply_patches c b) = g_hooks b
    \<and> g_configHooksInstalled (apply_patches c b) = g_configHooksInstalled b
    \<and> bt_globals (apply_patches c b) = bt_globals b"
  using assms by (simp add: apply_patches_def Let_def patch_if_spec patch_plan_def)

text \<open>The state in which \<open>MainInit\<close> reaches the installation of the hooks.\<close>

definition configured :: "config_globals \<Rightarrow> boot_state \<Rightarrow> boot_state" where
  "configured g b =
     (let b1 = PrintBootStage LoadConfig (record_event SdMounted (PrintBootStage MountSd b));
          b2 = record_event LoggingConfigured (PrintBootStage ConfigureLogging (record_event ConfigLoaded (b1\<lparr>bt_globals := g\<rparr>)))
      in record_event (Log (resolution_line (global_config g)))
           (if enable_exception_handler (debug (global_config g))
            then record_event (Log (''%s'', [AStr ''User exception handler enabled''])) (record_event ExceptionHandlerInstalled b2)
            else b2))"

lemma configured_fields:
  "calls (configured g b) = calls b @ [SdMounted, ConfigLoaded, LoggingConfigured]
      @ (if enable_exception_handler (debug (global_config g)) then [ExceptionHandlerInstalled] else [])"
  "g_hooks (configured g b) = g_hooks b" "g_patches (configured g b) = g_patches b"
  "g_configHooksInstalled (configured g b) = g_configHooksInstalled b" "bt_globals (configured g b) = g"
  by (simp_all add: configured_def Let_def)

lemma MainInit_step:
  assumes "mount" "LoadPatchConfig S A tr h (bt_globals b) = (tr1, h1, Done (g, lines))"
  shows "MainInit S A mount tr h b = (case install_hooks (global_config g) (configured g b) of
        Aborted m \<Rightarrow> (tr1, h1, Aborted m)
      | Failed m \<Rightarrow> (tr1, h1, Failed m)
      | Done b \<Rightarrow> (tr1, h1, Done (record_event OrigMainInit (PrintBootStage StartGameLoop
          (record_event GuiInitialize (PrintBootStage InitGui (apply_patches (global_config g) b)))))))"
  unfolding MainInit_def configured_def Let_def using assms by simp

lemma MainInit_done:
  assumes "mount" "LoadPatchConfig S A tr h (bt_globals b) = (tr1, h1, Done (g, lines))"
    "length (g_hooks b) + 5 \<le> kMaxEntries"
  shows "\<exists>b'. MainInit S A mount tr h b = (tr1, h1, Done b')"
  using install_hooks_spec[of "configured g b" "global_config g"] assms(3) MainInit_step[OF assms(1,2)]
  by (auto simp: configured_fields)

lemma MainInit_spec:
  assumes M: "MainInit S A mount tr h b = (tr', h', Done b')"
    and room: "length (g_hooks b) + 5 \<le> kMaxEntries" "length (g_patches b) + 5 \<le> kMaxEntries"
  defines "c \<equiv> global_config (bt_globals b')"
  shows "calls b' = calls b @ [SdMounted, ConfigLoaded, LoggingConfigured]
      @ (if enable_exception_handler (debug c) then [ExceptionHandlerInstalled] else [])
      @ (if g_configHooksInstalled b then [] else map (\<lambda>e. InstallCall (the (he_install e))) (enabled_entries c))
      @ map (\<lambda>p. PatchCall (snd p)) (patch_plan c) @ [GuiInitialize, OrigMainInit]
    \<and> g_hooks b' = g_hooks b @ (if g_configHooksInstalled b then [] else map (\<lambda>e. the (he_name e)) (enabled_entries c))
    \<and> g_patches b' = g_patches b @ map fst (patch_plan c) \<and> g_configHooksInstalled b'
    \<and> (\<exists>tr1 h1 lines. LoadPatchConfig S A tr h (bt_globals b) = (tr1, h1, Done (bt_globals b', lines)))"
proof -
  have mount: "mount" using M by (simp add: MainInit_def Let_def split: if_splits)
  obtain tr1 h1 r where L: "LoadPatchConfig S A tr h (bt_globals b) = (tr1, h1, r)" by (metis prod_cases3)
  obtain g lines where r: "r = Done (g, lines)"
    using M mount L by (cases r) (auto simp: MainInit_def Let_def)
  let ?d = "global_config g"
  define b3 where "b3 = configured g b"
  note b3 = configured_fields[of g b, folded b3_def]
  obtain b4 where b4: "install_hooks ?d b3 = Done b4" "g_configHooksInstalled b4" "g_patches b4 = g_patches b3"
    "bt_globals b4 = bt_globals b3"
    "if g_configHooksInstalled b3 then b4 = b3
     else calls b4 = calls b3 @ map (\<lambda>e. InstallCall (the (he_install e))) (enabled_entries ?d)
        \<and> g_hooks b4 = g_hooks b3 @ map (\<lambda>e. the (he_name e)) (enabled_entries ?d)"
    using install_hooks_spec[of b3 ?d] room(1) b3(2) by auto
  note step = MainInit_step[OF mount L[unfolded r], folded b3_def]
  have b': "b' = record_event OrigMainInit (PrintBootStage StartGameLoop
      (record_event GuiInitialize (PrintBootStage InitGui (apply_patches ?d b4))))"
    using M b4(1) unfolding step by simp
  have ap: "calls (apply_patches ?d b4) = calls b4 @ map (\<lambda>p. PatchCall (snd p)) (patch_plan ?d)
    \<and> g_patches (apply_patches ?d b4) = g_patches b4 @ map fst (patch_plan ?d)
    \<and> g_hooks (apply_patches ?d b4) = g_hooks b4
    \<and> g_configHooksInstalled (apply_patches ?d b4) = g_configHooksInstalled b4
    \<and> bt_globals (apply_patches ?d b4) = bt_globals b4"
    using apply_patches_spec[of b4 ?d] room(2) b4(3) b3(3) by simp
  have c: "c = ?d" "bt_globals b' = g" using ap b4(4) b3(5) by (simp_all add: c_def b')
  have f: "calls b' = calls (apply_patches ?d b4) @ [GuiInitialize, OrigMainInit]"
    "g_hooks b' = g_hooks b4" "g_patches b' = g_patches b3 @ map fst (patch_plan ?d)" "g_configHooksInstalled b'"
    using ap b4(2,3) by (simp_all add: b')
  show ?thesis using f ap b4(5) b3 c L r by (cases "g_configHooksInstalled b") auto
qed

definition fresh_boot :: "config_globals \<Rightarrow> boot_state" where
  "fresh_boot g = \<lparr>bt_globals = g, g_configHooksInstalled = False, g_hooks = [], g_patches = [],
     g_printed = False, bt_trail = []\<rparr>"

lemma exl_main_spec:
  assumes "exl_main rd lk (fresh_boot g) = Done b"
  shows "VerifyBuildVersionFull rd" "\<forall>k \<in> set kRequiredBootLookupKeys. lk k \<noteq> 0"
    "calls b = [HookInitialize, PatchCall ''PatchGraphicsPersistentHeapEarly''] @ map FuncPtrInstall
       [''MainInit'', ''GfxInit'', ''ShellInitialize'', ''GameCommonDataInit'', ''SetGameParamsForHero'', ''sInitializeWorld'']"
    "g_hooks b = map (\<lambda>n. ''boot:'' @ n)
       [''MainInit'', ''GfxInit'', ''ShellInitialize'', ''GameCommonDataInit'', ''SetGameParamsForHero'', ''sInitializeWorld'']"
    "g_patches b = [''GraphicsPersistentHeapEarly'']" "\<not> g_configHooksInstalled b" "bt_globals b = g"
proof -
  show v: "VerifyBuildVersionFull rd" using assms by (simp add: exl_main_def Let_def split: if_splits)
  have n: "filter (\<lambda>key. key \<noteq> [] \<and> lk key = 0) kRequiredBootLookupKeys = []"
    using assms v by (cases "filter (\<lambda>key. key \<noteq> [] \<and> lk key = 0) kRequiredBootLookupKeys")
      (simp_all add: exl_main_def Let_def)
  then show "\<forall>k \<in> set kRequiredBootLookupKeys. lk k \<noteq> 0"
    unfolding filter_empty_conv by (auto simp: kRequiredBootLookupKeys_def)
  let ?start = "RecordPatch (Some ''GraphicsPersistentHeapEarly'')
      (record_event (PatchCall ''PatchGraphicsPersistentHeapEarly'')
        (PrintBootStage EarlyPatches (PrintBootStage ValidateOffsets (record_event (Log (''Compiled at'', []))
          (PrintBootStage VerifyBuild (record_event HookInitialize (PrintBootStage ExlMainStart (fresh_boot g))))))))"
  let ?names = "[''MainInit'', ''GfxInit'', ''ShellInitialize'', ''GameCommonDataInit'', ''SetGameParamsForHero'', ''sInitializeWorld'']"
  have b: "b = fold boot_hook ?names (PrintBootStage InstallBootHooks ?start)"
    using assms v n unfolding exl_main_def Let_def by simp
  have f0: "calls ?start = [HookInitialize, PatchCall ''PatchGraphicsPersistentHeapEarly'']" "g_hooks ?start = []"
    "g_patches ?start = [''GraphicsPersistentHeapEarly'']"
    "\<not> g_configHooksInstalled ?start" "bt_globals ?start = g"
    by (simp_all add: calls_def fresh_boot_def record_event_def PrintBootStage_def RecordPatch_def Record_def kMaxEntries_def)
  have fold: "length (g_hooks b0) + length ns \<le> kMaxEntries \<Longrightarrow>
      calls (fold boot_hook ns b0) = calls b0 @ map FuncPtrInstall ns
    \<and> g_hooks (fold boot_hook ns b0) = g_hooks b0 @ map (\<lambda>n. ''boot:'' @ n) ns
    \<and> g_patches (fold boot_hook ns b0) = g_patches b0
    \<and> g_configHooksInstalled (fold boot_hook ns b0) = g_configHooksInstalled b0
    \<and> bt_globals (fold boot_hook ns b0) = bt_globals b0" for ns b0
  proof (induction ns arbitrary: b0)
    case (Cons m ns)
    have "g_hooks (boot_hook m b0) = g_hooks b0 @ [''boot:'' @ m]"
      using Cons.prems by (simp add: boot_hook_def Record_def)
    then show ?case using Cons.IH[of "boot_hook m b0"] Cons.prems by (simp add: boot_hook_def)
  qed simp
  have room: "length (g_hooks (PrintBootStage InstallBootHooks ?start)) + length ?names \<le> kMaxEntries"
    using f0(2) by (simp add: kMaxEntries_def)
  note s = fold[OF room, folded b]
  show "calls b = [HookInitialize, PatchCall ''PatchGraphicsPersistentHeapEarly''] @ map FuncPtrInstall ?names"
    using s f0(1) by simp
  show "g_hooks b = map (\<lambda>n. ''boot:'' @ n) ?names" using s f0(2) by simp
  show "g_patches b = [''GraphicsPersistentHeapEarly'']" using s f0(3) by simp
  show "\<not> g_configHooksInstalled b" using s f0(4) by simp
  show "bt_globals b = g" using s f0(5) by simp
qed

lemma Entries_distinct: "distinct (map (\<lambda>e. the (he_name e)) RegistryEntries)" "distinct (map (\<lambda>e. the (he_install e)) RegistryEntries)"
  by (simp_all add: RegistryEntries_def hook_entry_def)

lemma Entries_not_boot: "\<forall>e \<in> set RegistryEntries. hd (the (he_name e)) \<noteq> CHR ''b''"
  by (simp add: RegistryEntries_def hook_entry_def)

lemma enabled_names:
  assumes "e \<in> set RegistryEntries"
  shows "the (he_name e) \<in> (\<lambda>e. the (he_name e)) ` set (enabled_entries c) \<longleftrightarrow> entry_enabled c e"
    and "InstallCall (the (he_install e)) \<in> (\<lambda>e. InstallCall (the (he_install e))) ` set (enabled_entries c) \<longleftrightarrow> entry_enabled c e"
  using assms Entries_distinct[unfolded distinct_map, THEN conjunct2, unfolded inj_on_def]
  by (auto simp only: enabled_entries_def set_filter image_iff mem_Collect_eq bex_simps event.inject)

section \<open>Properties\<close>

text \<open>
  C17: The main initialisation hook runs the phases in order: SD card, configuration,
  logging, exception handler if configured, the hooks the loaded configuration
  enables (only the first time), the patches it enables ending with the base patches,
  the GUI, and only then the game.
\<close>
theorem main_init_order:
  assumes "MainInit S A mount tr h b = (tr', h', Done b')"
    and "length (g_hooks b) + 5 \<le> kMaxEntries" "length (g_patches b) + 5 \<le> kMaxEntries"
  shows "calls b' = calls b @ [SdMounted, ConfigLoaded, LoggingConfigured]
      @ (if enable_exception_handler (debug (global_config (bt_globals b'))) then [ExceptionHandlerInstalled] else [])
      @ (if g_configHooksInstalled b then []
         else map (\<lambda>e. InstallCall (the (he_install e))) (enabled_entries (global_config (bt_globals b'))))
      @ map (\<lambda>p. PatchCall (snd p)) (patch_plan (global_config (bt_globals b')))
      @ [GuiInitialize, OrigMainInit]"
  using MainInit_spec[OF assms] by blast

text \<open>
  The boot report is truthful.  After a start-up the recorded hooks are the six
  boot hooks and, of the registry, exactly those installed, which are exactly those
  the loaded configuration enables; the recorded patches are exactly those applied;
  nothing is dropped by the 64-entry tables; and running the hook again installs
  and records no hook a second time.
\<close>
lemma boot_report_truthful:
  assumes "exl_main rd lk (fresh_boot g) = Done b1"
    and "MainInit S A mount tr h b1 = (tr2, h2, Done b2)"
    and "MainInit S A mount2 tr2 h2 b2 = (tr3, h3, Done b3)"
  shows "(\<forall>e \<in> set RegistryEntries.
        (InstallCall (the (he_install e)) \<in> set (calls b2) \<longleftrightarrow> entry_enabled (global_config (bt_globals b2)) e)
      \<and> (the (he_name e) \<in> set (g_hooks b2) \<longleftrightarrow> entry_enabled (global_config (bt_globals b2)) e))
    \<and> g_patches b2 = ''GraphicsPersistentHeapEarly'' # map fst (patch_plan (global_config (bt_globals b2)))
    \<and> patch_calls (calls b2) = ''PatchGraphicsPersistentHeapEarly'' # map snd (patch_plan (global_config (bt_globals b2)))
    \<and> g_hooks b3 = g_hooks b2
    \<and> (\<forall>f. InstallCall f \<in> set (calls b3) \<longrightarrow> InstallCall f \<in> set (calls b2))"
proof -
  let ?c = "global_config (bt_globals b2)"
  note e1 = exl_main_spec[OF assms(1)]
  have room1: "length (g_hooks b1) + 5 \<le> kMaxEntries" "length (g_patches b1) + 5 \<le> kMaxEntries"
    by (simp_all add: e1 kMaxEntries_def)
  note m2 = MainInit_spec[OF assms(2) room1]
  have "length (enabled_entries ?c) \<le> 5"
    using length_filter_le[of "entry_enabled ?c" RegistryEntries] Entries_wf(2) by (simp add: enabled_entries_def)
  moreover have "length (patch_plan ?c) \<le> 5" by (simp add: patch_plan_def)
  moreover have "length (g_hooks b2) = 6 + length (enabled_entries ?c)" using m2 e1(4,6) by simp
  moreover have "length (g_patches b2) = 1 + length (patch_plan ?c)" using m2 e1(5) by simp
  ultimately have room2: "length (g_hooks b2) + 5 \<le> kMaxEntries" "length (g_patches b2) + 5 \<le> kMaxEntries"
    unfolding kMaxEntries_def by linarith+
  note m3 = MainInit_spec[OF assms(3) room2]
  have new: "InstallCall f \<in> set (calls b2) \<longleftrightarrow> InstallCall f \<in> (\<lambda>e. InstallCall (the (he_install e))) ` set (enabled_entries ?c)" for f
    using m2 e1 by auto
  have hooks: "g_hooks b2 = g_hooks b1 @ map (\<lambda>e. the (he_name e)) (enabled_entries ?c)" using m2 e1(6) by simp
  have "\<forall>n \<in> set (g_hooks b1). hd n = CHR ''b''" unfolding e1(4) by simp
  then have names: "the (he_name e) \<in> set (g_hooks b2) \<longleftrightarrow> the (he_name e) \<in> (\<lambda>e. the (he_name e)) ` set (enabled_entries ?c)"
    if "e \<in> set RegistryEntries" for e
    unfolding hooks set_append set_map using Entries_not_boot that by blast
  have a: "\<forall>e \<in> set RegistryEntries. (InstallCall (the (he_install e)) \<in> set (calls b2) \<longleftrightarrow> entry_enabled ?c e)
      \<and> (the (he_name e) \<in> set (g_hooks b2) \<longleftrightarrow> entry_enabled ?c e)"
  proof (intro ballI conjI)
    fix e
    assume e: "e \<in> set RegistryEntries"
    show "InstallCall (the (he_install e)) \<in> set (calls b2) \<longleftrightarrow> entry_enabled ?c e"
      unfolding new by (rule enabled_names(2)[OF e])
    show "the (he_name e) \<in> set (g_hooks b2) \<longleftrightarrow> entry_enabled ?c e"
      unfolding names[OF e] by (rule enabled_names(1)[OF e])
  qed
  have p: "g_patches b2 = ''GraphicsPersistentHeapEarly'' # map fst (patch_plan ?c)"
    using m2 e1 by simp
  have "calls b2 = calls b1 @ ([SdMounted, ConfigLoaded, LoggingConfigured]
      @ (if enable_exception_handler (debug ?c) then [ExceptionHandlerInstalled] else [])
      @ map (\<lambda>e. InstallCall (the (he_install e))) (enabled_entries ?c)
      @ map (\<lambda>p. PatchCall (snd p)) (patch_plan ?c) @ [GuiInitialize, OrigMainInit])"
    using m2 e1(6) by simp
  moreover have "patch_calls (calls b1) = [''PatchGraphicsPersistentHeapEarly'']"
    unfolding e1(3) patch_calls_simps by simp
  ultimately have q: "patch_calls (calls b2) = ''PatchGraphicsPersistentHeapEarly'' # map snd (patch_plan ?c)"
    by (cases "enable_exception_handler (debug ?c)") (simp_all only: patch_calls_simps if_True if_False append.simps append_Nil2)
  have h: "g_hooks b3 = g_hooks b2" "\<forall>f. InstallCall f \<in> set (calls b3) \<longrightarrow> InstallCall f \<in> set (calls b2)"
    using m2 m3 by auto
  show ?thesis by (intro conjI a p q h)
qed

section \<open>A run\<close>

definition test_rodata :: "nat \<Rightarrow> char" where
  "test_rodata i = kBuildVersionFullExpected ! (i - kBuildVersionFullOffset)"

definition test_globals :: config_globals where
  "test_globals = \<lparr>global_config = default_PatchConfig, g_rt_scale = Fin 1, g_rt_scale_initialized = True\<rparr>"

lemma test_exl_main: "\<exists>b. exl_main test_rodata (\<lambda>_. 1) (fresh_boot g) = Done b"
proof -
  have "map (\<lambda>i. test_rodata (kBuildVersionFullOffset + i)) [0..<length kBuildVersionFullExpected]
      = map (\<lambda>i. kBuildVersionFullExpected ! i) [0..<length kBuildVersionFullExpected]"
    by (simp add: test_rodata_def)
  then have "VerifyBuildVersionFull test_rodata" unfolding VerifyBuildVersionFull_def map_nth by simp
  then show ?thesis unfolding exl_main_def Let_def by simp
qed

lemma test_load: "\<exists>g' lines. LoadPatchConfig (one_document []) (Some bump) [mem_start] [] g = ([mem_start], [], Done (g', lines))"
proof -
  have "\<not> DoesFileExist mem_fs mem_start (Some kConfigPath)"
    by (simp add: DoesFileExist_def DoesFileExistImpl_def mem_fs_def mem_start_def kConfigPath_def kHackDir_def)
  then show ?thesis
    by (simp add: LoadPatchConfig_def LoadFromPath_def ReadAll_def one_document_def Let_def destroy_def new_buffer_def)
qed

lemma test_MainInit:
  assumes "length (g_hooks b) + 5 \<le> kMaxEntries"
  shows "\<exists>b'. MainInit (one_document []) (Some bump) True [mem_start] [] b = ([mem_start], [], Done b')"
proof -
  obtain g' lines where "LoadPatchConfig (one_document []) (Some bump) [mem_start] [] (bt_globals b)
      = ([mem_start], [], Done (g', lines))" using test_load by blast
  from MainInit_done[OF TrueI this assms] show ?thesis .
qed

theorem main_init_order_witness:
  "\<exists>b'. MainInit (one_document []) (Some bump) True [mem_start] [] (fresh_boot test_globals) = ([mem_start], [], Done b')
     \<and> last (calls b') = OrigMainInit"
proof -
  have r: "length (g_hooks (fresh_boot test_globals)) + 5 \<le> kMaxEntries"
    "length (g_patches (fresh_boot test_globals)) + 5 \<le> kMaxEntries"
    by (simp_all add: fresh_boot_def kMaxEntries_def)
  obtain b' where m: "MainInit (one_document []) (Some bump) True [mem_start] [] (fresh_boot test_globals) = ([mem_start], [], Done b')"
    using test_MainInit[OF r(1)] by blast
  show ?thesis using main_init_order[OF m r] m by simp
qed

end
