(* ===== verification/Mem_Layout.thy ===== *)
theory Mem_Layout
  imports Prelude
begin

text \<open>
  The static modules of the process (\<open>source/lib/util/sys\<close>): address ranges, the scan of
  the memory map that finds each module as three adjacent regions (text, read-only
  data, data), the queries over the result, and the memory regions reported by the
  kernel.  The system calls are parameters.
\<close>

section \<open>Ranges\<close>

record Range =
  rg_start :: u64
  rg_size :: u64

definition GetEnd :: "Range \<Rightarrow> u64" where "GetEnd r = rg_start r + rg_size r"

definition InRange :: "Range \<Rightarrow> u64 \<Rightarrow> bool" where
  "InRange r v \<longleftrightarrow> rg_start r \<le> v \<and> v < GetEnd r"

definition InRangeInclusive :: "Range \<Rightarrow> u64 \<Rightarrow> bool" where
  "InRangeInclusive r v \<longleftrightarrow> rg_start r \<le> v \<and> v \<le> GetEnd r"

definition no_range :: Range where "no_range = \<lparr>rg_start = 0, rg_size = 0\<rparr>"

section \<open>Modules\<close>

record ModuleInfo =
  m_Total :: Range
  m_Text :: Range
  m_Rodata :: Range
  m_Data :: Range
  m_Mod :: u64

definition no_module :: ModuleInfo where
  "no_module = \<lparr>m_Total = no_range, m_Text = no_range, m_Rodata = no_range, m_Data = no_range, m_Mod = 0\<rparr>"

text \<open>Module indices: \<open>Rtld\<close> is 0, \<open>Main\<close> 1, \<open>Sdk\<close> 12 and \<open>End\<close> 13.\<close>

definition idx_Rtld :: nat where "idx_Rtld = 0"
definition idx_Main :: nat where "idx_Main = 1"
definition idx_Sdk :: nat where "idx_Sdk = 12"
definition idx_End :: nat where "idx_End = 13"

text \<open>The file name after the last slash of a module path; the path is read from the read-only data.\<close>

definition s_ModulePathLengthMax :: nat where "s_ModulePathLengthMax = 0x200"

definition GetModulePath :: "(u64 \<Rightarrow> u32) \<Rightarrow> (u64 \<Rightarrow> nat \<Rightarrow> string) \<Rightarrow> ModuleInfo \<Rightarrow> string" where
  "GetModulePath read32 read_str info =
     (let start = rg_start (m_Rodata info); version = read32 start in
      if version = 0 then
        (if read32 (start + 4) = 0 then '''' else read_str (start + 8) (unat (read32 (start + 4))))
      else if version = 1 then
        (if read32 (start + 16) = 0 then '''' else read_str (start + 20) (unat (read32 (start + 16))))
      else '''')"

text \<open>\<open>find_last_of\<close> with the position of the last character of the set, if any.\<close>

definition find_last_of :: "char set \<Rightarrow> string \<Rightarrow> nat option" where
  "find_last_of cs s =
     (case filter (\<lambda>i. s ! i \<in> cs) [0..<length s] of [] \<Rightarrow> None | is \<Rightarrow> Some (last is))"

definition GetModuleName :: "string \<Rightarrow> string" where
  "GetModuleName path =
     (if path = [] then path
      else
        let pos = (case find_last_of {CHR ''/'', CHR 0x5C} path of None \<Rightarrow> 0 | Some p \<Rightarrow> p + 1)
        in if length path < pos then path else drop pos path)"

text \<open>The MOD0 header: pointers are relative to the header.\<close>

record Mod0 =
  m0_address :: u64
  m0_DynamicStartOffset :: s32
  m0_BssStartOffset :: s32
  m0_BssEndOffset :: s32
  m0_EhFrameHdrStartOffset :: s32
  m0_EhFrameHdrEndOffset :: s32
  m0_ModuleRuntimeOffset :: s32

definition GetPointer :: "Mod0 \<Rightarrow> s32 \<Rightarrow> u64" where "GetPointer m off = m0_address m + scast off"
definition GetDynamic :: "Mod0 \<Rightarrow> u64" where "GetDynamic m = GetPointer m (m0_DynamicStartOffset m)"
definition GetBssStart :: "Mod0 \<Rightarrow> u64" where "GetBssStart m = GetPointer m (m0_BssStartOffset m)"
definition GetBssEnd :: "Mod0 \<Rightarrow> u64" where "GetBssEnd m = GetPointer m (m0_BssEndOffset m)"
definition GetEhFrameHdrStart :: "Mod0 \<Rightarrow> u64" where "GetEhFrameHdrStart m = GetPointer m (m0_EhFrameHdrStartOffset m)"
definition GetEhFrameHdrEnd :: "Mod0 \<Rightarrow> u64" where "GetEhFrameHdrEnd m = GetPointer m (m0_EhFrameHdrEndOffset m)"
definition GetModuleRuntime :: "Mod0 \<Rightarrow> u64" where "GetModuleRuntime m = GetPointer m (m0_ModuleRuntimeOffset m)"
definition GetBss :: "Mod0 \<Rightarrow> Range" where
  "GetBss m = \<lparr>rg_start = GetBssStart m, rg_size = GetBssEnd m - GetBssStart m\<rparr>"
definition GetEhFrameHdr :: "Mod0 \<Rightarrow> Range" where
  "GetEhFrameHdr m = \<lparr>rg_start = GetEhFrameHdrStart m, rg_size = GetEhFrameHdrEnd m - GetEhFrameHdrStart m\<rparr>"

section \<open>Scanning the memory map\<close>

record MemoryInfo =
  mi_addr :: u64
  mi_size :: u64
  mi_type :: u32
  mi_perm :: u32

definition MemState_Type :: u32 where "MemState_Type = 0xFF"
definition MemType_CodeStatic :: u32 where "MemType_CodeStatic = 3"
definition MemType_CodeMutable :: u32 where "MemType_CodeMutable = 4"
definition Perm_R :: u32 where "Perm_R = 1"
definition Perm_Rw :: u32 where "Perm_Rw = 3"
definition Perm_Rx :: u32 where "Perm_Rx = 5"

definition memtype :: "MemoryInfo \<Rightarrow> u32" where "memtype mi = mi_type mi AND MemState_Type"

definition is_text :: "MemoryInfo \<Rightarrow> bool" where
  "is_text mi \<longleftrightarrow> memtype mi = MemType_CodeStatic \<and> mi_perm mi = Perm_Rx"

definition is_rodata :: "MemoryInfo \<Rightarrow> bool" where
  "is_rodata mi \<longleftrightarrow> memtype mi = MemType_CodeStatic \<and> mi_perm mi = Perm_R"

definition is_data :: "MemoryInfo \<Rightarrow> bool" where
  "is_data mi \<longleftrightarrow> memtype mi = MemType_CodeMutable \<and> mi_perm mi = Perm_Rw"

datatype find_state = LookingForCodeStatic | ExpectingRodata | ExpectingData

text \<open>
  \<open>fd_infos\<close> is the array of module infos with the bit set: \<open>None\<close> where the bit is clear.
\<close>

record finder =
  fd_state :: find_state
  fd_nextModIdx :: nat
  fd_offset :: u64
  fd_prevOffset :: u64
  fd_cur :: ModuleInfo
  fd_infos :: "ModuleInfo option list"

definition start_finder :: finder where
  "start_finder = \<lparr>fd_state = LookingForCodeStatic, fd_nextModIdx = 0, fd_offset = 0, fd_prevOffset = 0,
     fd_cur = no_module, fd_infos = replicate idx_End None\<rparr>"

definition reset_finder :: "finder \<Rightarrow> finder" where
  "reset_finder f = f\<lparr>fd_cur := no_module, fd_state := LookingForCodeStatic\<rparr>"

definition region :: "MemoryInfo \<Rightarrow> Range" where
  "region mi = \<lparr>rg_start = mi_addr mi, rg_size = mi_size mi\<rparr>"

text \<open>The switch of the scan.  \<open>read32\<close> reads the MOD0 offset in the module header.\<close>

definition visit :: "(u64 \<Rightarrow> u32) \<Rightarrow> MemoryInfo \<Rightarrow> finder \<Rightarrow> finder" where
  "visit read32 mi f =
     (case fd_state f of
        LookingForCodeStatic \<Rightarrow>
          (if \<not> is_text mi then f
           else f\<lparr>fd_cur := (fd_cur f)\<lparr>m_Total := (m_Total (fd_cur f))\<lparr>rg_start := mi_addr mi\<rparr>, m_Text := region mi\<rparr>,
                  fd_state := ExpectingRodata\<rparr>)
      | ExpectingRodata \<Rightarrow>
          (if \<not> is_rodata mi then reset_finder f
           else f\<lparr>fd_cur := (fd_cur f)\<lparr>m_Rodata := region mi\<rparr>, fd_state := ExpectingData\<rparr>)
      | ExpectingData \<Rightarrow>
          (if \<not> is_data mi then reset_finder f
           else
             let cur = fd_cur f; data = region mi; start = rg_start (m_Total cur);
                 text_start = rg_start (m_Text cur);
                 cur = cur\<lparr>m_Data := data, m_Total := \<lparr>rg_start = start, rg_size = GetEnd data - start\<rparr>,
                           m_Mod := text_start + ucast (read32 (text_start + 4))\<rparr>
             in reset_finder (f\<lparr>fd_infos := (fd_infos f)[fd_nextModIdx f := Some cur],
                                fd_nextModIdx := fd_nextModIdx f + 1\<rparr>)))"

datatype 'a result = Abort string | Finished 'a

text \<open>
  One round per unit of fuel; \<open>query\<close> is \<open>svcQueryMemory\<close>, \<open>None\<close> its failure.  The
  result is \<open>None\<close> when the fuel runs out.
\<close>

fun find_loop :: "nat \<Rightarrow> (u64 \<Rightarrow> MemoryInfo option) \<Rightarrow> (u64 \<Rightarrow> u32) \<Rightarrow> u64 \<Rightarrow> finder \<Rightarrow> finder result option" where
  "find_loop 0 query read32 address f = None"
| "find_loop (Suc n) query read32 address f =
     (if idx_End \<le> fd_nextModIdx f then Some (Abort ''TooManyStaticModules'')
      else
        let f = f\<lparr>fd_prevOffset := fd_offset f\<rparr> in
        case query address of
          None \<Rightarrow> Some (Abort ''svcQueryMemory'')
        | Some mi \<Rightarrow>
            let f = visit read32 mi (f\<lparr>fd_offset := mi_addr mi\<rparr>) in
            if fd_prevOffset f \<le> fd_offset f
            then find_loop n query read32 (mi_addr mi + mi_size mi) f
            else Some (Finished f))"

text \<open>After the scan: the last module becomes the SDK, and the own module is looked up.\<close>

definition move_sdk :: "finder \<Rightarrow> ModuleInfo option list" where
  "move_sdk f =
     (if fd_nextModIdx f \<noteq> idx_End
      then (fd_infos f)[idx_Sdk := fd_infos f ! (fd_nextModIdx f - 1), fd_nextModIdx f - 1 := None]
      else fd_infos f)"

definition self_index :: "u64 \<Rightarrow> ModuleInfo option list \<Rightarrow> nat" where
  "self_index module_start infos =
     (case filter (\<lambda>i. case infos ! i of None \<Rightarrow> False | Some m \<Rightarrow> rg_start (m_Total m) = module_start) [0..<idx_End] of
        [] \<Rightarrow> idx_End
      | i # _ \<Rightarrow> i)"

definition FindModules ::
  "nat \<Rightarrow> (u64 \<Rightarrow> MemoryInfo option) \<Rightarrow> (u64 \<Rightarrow> u32) \<Rightarrow> u64 \<Rightarrow> (ModuleInfo option list \<times> nat) result option" where
  "FindModules fuel query read32 module_start =
     (case find_loop fuel query read32 0 start_finder of
        None \<Rightarrow> None
      | Some (Abort m) \<Rightarrow> Some (Abort m)
      | Some (Finished f) \<Rightarrow>
          if fd_infos f ! idx_Rtld = None then Some (Abort ''no Rtld module'')
          else if fd_infos f ! idx_Main = None then Some (Abort ''no Main module'')
          else
            let infos = move_sdk f; i = self_index module_start infos in
            if idx_End \<le> i then Some (Abort ''own module not found'')
            else Some (Finished (infos, i)))"

section \<open>Queries\<close>

definition HasModule :: "ModuleInfo option list \<Rightarrow> nat \<Rightarrow> bool" where
  "HasModule infos i \<longleftrightarrow> infos ! i \<noteq> None"

text \<open>\<open>None\<close> is the abort for a missing module.\<close>

definition GetModuleInfo :: "ModuleInfo option list \<Rightarrow> nat \<Rightarrow> ModuleInfo option" where
  "GetModuleInfo infos i = (if \<not> HasModule infos i then None else infos ! i)"

fun TryGetModule :: "ModuleInfo option list \<Rightarrow> u64 \<Rightarrow> ModuleInfo option" where
  "TryGetModule [] pointer = None"
| "TryGetModule (None # infos) pointer = TryGetModule infos pointer"
| "TryGetModule (Some m # infos) pointer =
     (if InRange (m_Total m) pointer then Some m else TryGetModule infos pointer)"

definition IsInModule :: "ModuleInfo option list \<Rightarrow> u64 \<Rightarrow> nat \<Rightarrow> bool" where
  "IsInModule infos pointer i =
     (if \<not> HasModule infos i then False
      else case GetModuleInfo infos i of None \<Rightarrow> False | Some m \<Rightarrow> InRange (m_Total m) pointer)"

section \<open>Memory regions\<close>

record regions =
  s_Alias :: Range
  s_Heap :: Range
  s_Aslr :: Range
  s_Stack :: Range

text \<open>The result code of the unmap that tells the address space apart.\<close>

datatype unmap_result = InvalidMemoryState | InvalidMemoryRange | OtherResult

definition InferAslrAndStack :: "unmap_result \<Rightarrow> (Range \<times> Range) option" where
  "InferAslrAndStack rc =
     (case rc of
        InvalidMemoryState \<Rightarrow>
          Some (\<lparr>rg_start = 0x200000, rg_size = 0x100000000\<rparr>, \<lparr>rg_start = 0x200000, rg_size = 0x40000000\<rparr>)
      | InvalidMemoryRange \<Rightarrow>
          Some (\<lparr>rg_start = 0x8000000, rg_size = 0x1000000000\<rparr>, \<lparr>rg_start = 0x8000000, rg_size = 0x80000000\<rparr>)
      | OtherResult \<Rightarrow> None)"

datatype InfoType =
    InfoType_AliasRegionAddress | InfoType_AliasRegionSize | InfoType_HeapRegionAddress | InfoType_HeapRegionSize
  | InfoType_AslrRegionAddress | InfoType_AslrRegionSize | InfoType_StackRegionAddress | InfoType_StackRegionSize

text \<open>\<open>get_info\<close> is \<open>svcGetInfo\<close>; \<open>None\<close> of the result is an abort.\<close>

definition info_range :: "(InfoType \<Rightarrow> u64 option) \<Rightarrow> InfoType \<Rightarrow> InfoType \<Rightarrow> Range option" where
  "info_range get_info base extent =
     (case (get_info base, get_info extent) of
        (Some a, Some n) \<Rightarrow> Some \<lparr>rg_start = a, rg_size = n\<rparr>
      | _ \<Rightarrow> None)"

definition FindRegions :: "(InfoType \<Rightarrow> u64 option) \<Rightarrow> unmap_result \<Rightarrow> regions option" where
  "FindRegions get_info rc =
     (case (info_range get_info InfoType_AliasRegionAddress InfoType_AliasRegionSize,
            info_range get_info InfoType_HeapRegionAddress InfoType_HeapRegionSize) of
        (Some al, Some he) \<Rightarrow>
          (case (info_range get_info InfoType_AslrRegionAddress InfoType_AslrRegionSize,
                 info_range get_info InfoType_StackRegionAddress InfoType_StackRegionSize) of
             (Some asl, Some st) \<Rightarrow> Some \<lparr>s_Alias = al, s_Heap = he, s_Aslr = asl, s_Stack = st\<rparr>
           | _ \<Rightarrow>
               (case InferAslrAndStack rc of
                  None \<Rightarrow> None
                | Some (asl, st) \<Rightarrow> Some \<lparr>s_Alias = al, s_Heap = he, s_Aslr = asl, s_Stack = st\<rparr>))
      | _ \<Rightarrow> None)"

section \<open>What the scan finds\<close>

definition module_at :: "(u64 \<Rightarrow> u32) \<Rightarrow> MemoryInfo \<Rightarrow> MemoryInfo \<Rightarrow> MemoryInfo \<Rightarrow> ModuleInfo" where
  "module_at read32 t r d =
     \<lparr>m_Total = \<lparr>rg_start = mi_addr t, rg_size = GetEnd (region d) - mi_addr t\<rparr>, m_Text = region t,
      m_Rodata = region r, m_Data = region d, m_Mod = mi_addr t + ucast (read32 (mi_addr t + 4))\<rparr>"

text \<open>
  The modules of a list of regions: a text region followed by read-only data and
  data.  A region that breaks the pattern is used up: it does not start a module.
\<close>

fun modules_in :: "(u64 \<Rightarrow> u32) \<Rightarrow> MemoryInfo list \<Rightarrow> ModuleInfo list" where
  "modules_in read32 [] = []"
| "modules_in read32 (t # rs) =
     (if \<not> is_text t then modules_in read32 rs
      else
        (case rs of
           [] \<Rightarrow> []
         | r # rs \<Rightarrow>
             if \<not> is_rodata r then modules_in read32 rs
             else
               (case rs of
                  [] \<Rightarrow> []
                | d # rs \<Rightarrow>
                    if \<not> is_data d then modules_in read32 rs
                    else module_at read32 t r d # modules_in read32 rs)))"

text \<open>The scan over a list of regions; \<open>None\<close> is the abort for too many modules.\<close>

fun scan :: "(u64 \<Rightarrow> u32) \<Rightarrow> MemoryInfo list \<Rightarrow> finder \<Rightarrow> finder option" where
  "scan read32 [] f = Some f"
| "scan read32 (mi # rs) f =
     (if idx_End \<le> fd_nextModIdx f then None
      else scan read32 rs (visit read32 mi (f\<lparr>fd_prevOffset := fd_offset f, fd_offset := mi_addr mi\<rparr>)))"

fun place :: "nat \<Rightarrow> ModuleInfo list \<Rightarrow> ModuleInfo option list \<Rightarrow> ModuleInfo option list" where
  "place n [] infos = infos"
| "place n (m # ms) infos = place (n + 1) ms (infos[n := Some m])"

definition ready :: "finder \<Rightarrow> bool" where
  "ready f \<longleftrightarrow> fd_state f = LookingForCodeStatic \<and> fd_cur f = no_module"

lemma visit_offsets [simp]:
  "fd_offset (visit read32 mi f) = fd_offset f" "fd_prevOffset (visit read32 mi f) = fd_prevOffset f"
  by (simp_all add: visit_def reset_finder_def Let_def split: find_state.split)

lemma visit_other:
  assumes "ready f" "\<not> is_text mi"
  shows "visit read32 mi f = f"
  using assms by (simp add: visit_def ready_def)

lemma visit_text:
  assumes "ready f" "is_text t"
  shows "fd_state (visit read32 t f) = ExpectingRodata" "fd_infos (visit read32 t f) = fd_infos f"
    "fd_nextModIdx (visit read32 t f) = fd_nextModIdx f"
    "fd_cur (visit read32 t f) = no_module\<lparr>m_Total := \<lparr>rg_start = mi_addr t, rg_size = 0\<rparr>, m_Text := region t\<rparr>"
  using assms by (simp_all add: visit_def ready_def no_module_def no_range_def)

lemma visit_rodata:
  assumes "fd_state f = ExpectingRodata"
  shows "\<not> is_rodata r \<Longrightarrow> ready (visit read32 r f)" "fd_infos (visit read32 r f) = fd_infos f"
    "fd_nextModIdx (visit read32 r f) = fd_nextModIdx f"
    "is_rodata r \<Longrightarrow> fd_state (visit read32 r f) = ExpectingData"
    "is_rodata r \<Longrightarrow> fd_cur (visit read32 r f) = (fd_cur f)\<lparr>m_Rodata := region r\<rparr>"
  using assms by (simp_all add: visit_def ready_def reset_finder_def)

lemma visit_data:
  assumes "fd_state f = ExpectingData"
    "fd_cur f = no_module\<lparr>m_Total := \<lparr>rg_start = mi_addr t, rg_size = 0\<rparr>, m_Text := region t, m_Rodata := region r\<rparr>"
  shows "ready (visit read32 d f)"
    "\<not> is_data d \<Longrightarrow> fd_infos (visit read32 d f) = fd_infos f \<and> fd_nextModIdx (visit read32 d f) = fd_nextModIdx f"
    "is_data d \<Longrightarrow> fd_infos (visit read32 d f) = (fd_infos f)[fd_nextModIdx f := Some (module_at read32 t r d)]
       \<and> fd_nextModIdx (visit read32 d f) = fd_nextModIdx f + 1"
  using assms
  by (simp_all add: visit_def ready_def reset_finder_def Let_def module_at_def no_module_def region_def)

lemma ready_offsets [simp]: "ready (f\<lparr>fd_prevOffset := a, fd_offset := b\<rparr>) = ready f"
  by (simp add: ready_def)

text \<open>What a scan from a ready state leaves, for regions whose modules fit the table or not.\<close>

definition scanned :: "ModuleInfo list \<Rightarrow> finder \<Rightarrow> finder option \<Rightarrow> bool" where
  "scanned ms f res \<longleftrightarrow>
     (if fd_nextModIdx f + length ms < idx_End
      then \<exists>g. res = Some g \<and> fd_infos g = place (fd_nextModIdx f) ms (fd_infos f)
             \<and> fd_nextModIdx g = fd_nextModIdx f + length ms
      else res = None \<or> (\<exists>g. res = Some g \<and> idx_End \<le> fd_nextModIdx g))"

lemma scanned_same:
  "fd_infos g = fd_infos f \<Longrightarrow> fd_nextModIdx g = fd_nextModIdx f \<Longrightarrow> scanned ms g res \<Longrightarrow> scanned ms f res"
  by (simp only: scanned_def)

lemma scanned_cons:
  assumes "fd_infos g = (fd_infos f)[fd_nextModIdx f := Some m]" "fd_nextModIdx g = fd_nextModIdx f + 1" "scanned ms g res"
  shows "scanned (m # ms) f res"
  using assms(3) unfolding scanned_def assms(1,2) by (auto split: if_splits)

lemma scan_modules: "ready f \<Longrightarrow> scanned (modules_in read32 rs) f (scan read32 rs f)"
proof (induction read32 rs arbitrary: f rule: modules_in.induct)
  case (1 read32)
  then show ?case by (simp add: scanned_def not_less)
next
  case (2 read32 t rs)
  let ?v = "\<lambda>mi f. visit read32 mi (f\<lparr>fd_prevOffset := fd_offset f, fd_offset := mi_addr mi\<rparr>)"
  show ?case
  proof (cases "idx_End \<le> fd_nextModIdx f")
    case True
    then show ?thesis by (simp add: scanned_def)
  next
    case room: False
    show ?thesis
    proof (cases "is_text t")
      case False
      have e: "?v t f = f\<lparr>fd_prevOffset := fd_offset f, fd_offset := mi_addr t\<rparr>"
        using "2.prems" False by (simp add: visit_other)
      have "scanned (modules_in read32 rs) (?v t f) (scan read32 rs (?v t f))"
        using "2.IH"(1)[OF False, of "?v t f"] "2.prems" e by simp
      then show ?thesis using False room e by (intro scanned_same[of "?v t f" f]) simp_all
    next
      case tx: True
      let ?f1 = "?v t f"
      note v1 = visit_text[where f = "f\<lparr>fd_prevOffset := fd_offset f, fd_offset := mi_addr t\<rparr>" and t = t, simplified, OF "2.prems" tx]
      show ?thesis
      proof (cases rs)
        case Nil
        then show ?thesis using tx room v1 by (simp add: scanned_def)
      next
        case (Cons r rs1)
        let ?f2 = "?v r ?f1"
        note v2 = visit_rodata[where f = "?f1\<lparr>fd_prevOffset := fd_offset ?f1, fd_offset := mi_addr r\<rparr>" and r = r, simplified, OF v1(1)]
        show ?thesis
        proof (cases "is_rodata r")
          case False
          have "scanned (modules_in read32 rs1) ?f2 (scan read32 rs1 ?f2)"
            using "2.IH"(2)[OF _ Cons] tx False v2(1) by simp
          then show ?thesis using Cons tx False room v1 v2 by (intro scanned_same[of ?f2 f]) simp_all
        next
          case ro: True
          show ?thesis
          proof (cases rs1)
            case Nil
            then show ?thesis using Cons tx ro room v1 v2 by (simp add: scanned_def)
          next
            case d: (Cons d rs2)
            let ?f3 = "?v d ?f2"
            have c2: "fd_cur ?f2 = no_module\<lparr>m_Total := \<lparr>rg_start = mi_addr t, rg_size = 0\<rparr>, m_Text := region t, m_Rodata := region r\<rparr>"
              using v1(4) v2(5)[OF ro] by simp
            note v3 = visit_data[where f = "?f2\<lparr>fd_prevOffset := fd_offset ?f2, fd_offset := mi_addr d\<rparr>" and t = t and r = r and d = d,
                simplified, OF v2(4)[OF ro] c2[simplified]]
            show ?thesis
            proof (cases "is_data d")
              case False
              have "scanned (modules_in read32 rs2) ?f3 (scan read32 rs2 ?f3)"
                using "2.IH"(3)[OF _ Cons _ d False, of ?f3] tx ro v3(1) by simp
              then show ?thesis using Cons d tx ro False room v1 v2 v3 by (intro scanned_same[of ?f3 f]) simp_all
            next
              case True
              have "scanned (modules_in read32 rs2) ?f3 (scan read32 rs2 ?f3)"
                using "2.IH"(4)[OF _ Cons _ d, of ?f3] tx ro True v3(1) by simp
              then have "scanned (module_at read32 t r d # modules_in read32 rs2) f (scan read32 rs2 ?f3)"
                using True v1 v2 v3 by (intro scanned_cons[of ?f3 f]) simp_all
              then show ?thesis using Cons d tx ro True room v1 v2 v3 by simp
            qed
          qed
        qed
      qed
    qed
  qed
qed

section \<open>The loop over the memory map\<close>

text \<open>
  What the kernel documents of \<open>svcQueryMemory\<close>: the regions tile the address space,
  and a query at the start of a region gives it.  Nothing is mapped at address 0.
\<close>

fun tiles :: "nat \<Rightarrow> MemoryInfo list \<Rightarrow> bool" where
  "tiles a [] \<longleftrightarrow> a = 2 ^ 64"
| "tiles a (mi # rs) \<longleftrightarrow> unat (mi_addr mi) = a \<and> mi_size mi \<noteq> 0 \<and> tiles (a + unat (mi_size mi)) rs"

definition memory_map :: "(u64 \<Rightarrow> MemoryInfo option) \<Rightarrow> MemoryInfo list \<Rightarrow> bool" where
  "memory_map query rs \<longleftrightarrow> tiles 0 rs \<and> (\<forall>mi \<in> set rs. query (mi_addr mi) = Some mi)
     \<and> \<not> is_text (hd rs) \<and> \<not> is_rodata (hd rs) \<and> \<not> is_data (hd rs)"

lemma visit_none:
  assumes "\<not> is_text mi" "\<not> is_rodata mi" "\<not> is_data mi"
  shows "fd_infos (visit read32 mi f) = fd_infos f" "fd_nextModIdx (visit read32 mi f) = fd_nextModIdx f"
  using assms by (simp_all add: visit_def reset_finder_def split: find_state.split)

lemma find_loop_scan:
  assumes "tiles n rs" "\<forall>mi \<in> set rs. query (mi_addr mi) = Some mi" "query 0 = Some first" "mi_addr first = 0"
    "rs = [] \<longrightarrow> 0 < fd_offset f" "unat (fd_offset f) \<le> n" "length rs < fuel"
  shows "find_loop fuel query read32 (of_nat n) f =
    (case scan read32 rs f of
       None \<Rightarrow> Some (Abort ''TooManyStaticModules'')
     | Some g \<Rightarrow>
         if idx_End \<le> fd_nextModIdx g then Some (Abort ''TooManyStaticModules'')
         else Some (Finished (visit read32 first (g\<lparr>fd_prevOffset := fd_offset g, fd_offset := 0\<rparr>))))"
  using assms
proof (induction rs arbitrary: n f fuel)
  case Nil
  obtain k where k: "fuel = Suc k" using Nil.prems(7) by (cases fuel) auto
  have z: "(of_nat n :: u64) = 0" using Nil.prems(1) by simp
  have "\<not> fd_offset f \<le> 0" using Nil.prems(5) by (simp add: not_le)
  then show ?case
    unfolding k z find_loop.simps scan.simps Let_def option.case Nil.prems(3,4) by (simp add: Nil.prems(4))
next
  case (Cons mi rs)
  obtain k where k: "fuel = Suc k" "length rs < k" using Cons.prems(7) by (cases fuel) auto
  have a: "unat (mi_addr mi) = n" "mi_size mi \<noteq> 0" "tiles (n + unat (mi_size mi)) rs" using Cons.prems(1) by simp_all
  have n: "(of_nat n :: u64) = mi_addr mi" by (simp flip: a(1))
  have le: "fd_offset f \<le> mi_addr mi" using Cons.prems(6) a(1) by (simp add: word_le_nat_alt)
  let ?f = "visit read32 mi (f\<lparr>fd_prevOffset := fd_offset f, fd_offset := mi_addr mi\<rparr>)"
  have next_a: "mi_addr mi + mi_size mi = of_nat (n + unat (mi_size mi))" using n by simp
  have pos: "rs = [] \<longrightarrow> 0 < fd_offset ?f"
  proof
    assume "rs = []"
    then have "n + unat (mi_size mi) = 2 ^ 64" using a(3) by simp
    moreover have "unat (mi_size mi) < 2 ^ 64" using unsigned_less[of "mi_size mi"] by simp
    ultimately have "0 < n" by linarith
    then show "0 < fd_offset ?f" using a(1) by (simp add: word_less_nat_alt)
  qed
  have ih: "find_loop k query read32 (of_nat (n + unat (mi_size mi))) ?f =
      (case scan read32 rs ?f of
         None \<Rightarrow> Some (Abort ''TooManyStaticModules'')
       | Some g \<Rightarrow>
           if idx_End \<le> fd_nextModIdx g then Some (Abort ''TooManyStaticModules'')
           else Some (Finished (visit read32 first (g\<lparr>fd_prevOffset := fd_offset g, fd_offset := 0\<rparr>))))"
    using Cons.prems(2-4) a k(2) pos by (intro Cons.IH) auto
  have q: "query (mi_addr mi) = Some mi" using Cons.prems(2) by simp
  show ?case
    unfolding k(1) n find_loop.simps scan.simps Let_def q option.case
    using ih[folded next_a] le by simp
qed

lemma tiles_last: "tiles a rs \<Longrightarrow> mi \<in> set rs \<Longrightarrow> a \<le> unat (mi_addr mi) \<and> unat (mi_addr mi) + unat (mi_size mi) \<le> 2 ^ 64"
proof (induction rs arbitrary: a)
  case (Cons r rs)
  show ?case
  proof (cases "mi = r")
    case True
    have "a + unat (mi_size r) \<le> 2 ^ 64" using Cons.prems(1)
    proof (cases rs)
      case (Cons s ss)
      have "unat (mi_addr s) < 2 ^ 64" using unsigned_less[of "mi_addr s"] by simp
      then show ?thesis using \<open>tiles a (r # rs)\<close> Cons by simp
    qed simp
    then show ?thesis using True Cons.prems(1) by simp
  next
    case False
    then show ?thesis using Cons.IH[of "a + unat (mi_size r)"] Cons.prems by simp
  qed
qed simp

lemma find_modules_loop:
  assumes "memory_map query rs" "length rs < fuel"
  shows "case find_loop fuel query read32 0 start_finder of
      None \<Rightarrow> False
    | Some (Abort m) \<Rightarrow> m = ''TooManyStaticModules'' \<and> idx_End \<le> length (modules_in read32 rs)
    | Some (Finished g) \<Rightarrow> length (modules_in read32 rs) < idx_End
        \<and> fd_infos g = place 0 (modules_in read32 rs) (replicate idx_End None)
        \<and> fd_nextModIdx g = length (modules_in read32 rs)"
proof -
  have t: "tiles 0 rs" "\<forall>mi \<in> set rs. query (mi_addr mi) = Some mi" using assms(1) by (simp_all add: memory_map_def)
  then obtain first rest where rs: "rs = first # rest" by (cases rs) auto
  have first: "query 0 = Some first" "mi_addr first = 0" using t rs by (auto simp: unat_eq_0)
  have kinds: "\<not> is_text first" "\<not> is_rodata first" "\<not> is_data first"
    using assms(1) rs by (simp_all add: memory_map_def)
  have start: "ready start_finder" "fd_nextModIdx start_finder = 0" "fd_infos start_finder = replicate idx_End None"
    "fd_offset start_finder = 0"
    by (simp_all add: ready_def start_finder_def)
  have l: "find_loop fuel query read32 0 start_finder =
    (case scan read32 rs start_finder of
       None \<Rightarrow> Some (Abort ''TooManyStaticModules'')
     | Some g \<Rightarrow>
         if idx_End \<le> fd_nextModIdx g then Some (Abort ''TooManyStaticModules'')
         else Some (Finished (visit read32 first (g\<lparr>fd_prevOffset := fd_offset g, fd_offset := 0\<rparr>))))"
    using find_loop_scan[OF t first _ _ assms(2), of start_finder read32] rs start(4) by simp
  have s: "scanned (modules_in read32 rs) start_finder (scan read32 rs start_finder)"
    by (rule scan_modules[OF start(1)])
  show ?thesis
  proof (cases "length (modules_in read32 rs) < idx_End")
    case True
    then obtain g where g: "scan read32 rs start_finder = Some g"
      "fd_infos g = place 0 (modules_in read32 rs) (replicate idx_End None)"
      "fd_nextModIdx g = length (modules_in read32 rs)"
      using s by (auto simp: scanned_def start)
    then show ?thesis using l True visit_none[OF kinds] by (simp add: not_le)
  next
    case False
    then have "scan read32 rs start_finder = None \<or> (\<exists>g. scan read32 rs start_finder = Some g \<and> idx_End \<le> fd_nextModIdx g)"
      using s by (simp add: scanned_def start)
    then show ?thesis using l False by auto
  qed
qed

lemma place_nth:
  "n + length ms \<le> length infos \<Longrightarrow>
     length (place n ms infos) = length infos
   \<and> (\<forall>i < length infos. place n ms infos ! i =
        (if n \<le> i \<and> i < n + length ms then Some (ms ! (i - n)) else infos ! i))"
proof (induction ms arbitrary: n infos)
  case (Cons m ms)
  have ih: "length (place (n + 1) ms (infos[n := Some m])) = length infos"
    "\<forall>i < length infos. place (n + 1) ms (infos[n := Some m]) ! i =
        (if n + 1 \<le> i \<and> i < n + 1 + length ms then Some (ms ! (i - (n + 1))) else infos[n := Some m] ! i)"
    using Cons.IH[of "n + 1" "infos[n := Some m]"] Cons.prems by simp_all
  have "place n (m # ms) infos ! i = (if n \<le> i \<and> i < n + length (m # ms) then Some ((m # ms) ! (i - n)) else infos ! i)"
    if i: "i < length infos" for i
  proof (cases "i = n")
    case True
    then show ?thesis using ih(2) i by simp
  next
    case False
    then show ?thesis using ih(2) i by (cases "n < i") (auto simp: nth_Cons' Suc_diff_Suc numeral_eq_Suc less_Suc_eq_le
        diff_Suc split: nat.split)
  qed
  then show ?case using ih(1) by simp
qed auto

section \<open>Where the modules are\<close>

text \<open>A module whose three ranges follow each other and make up the total, without wrapping.\<close>

definition well_placed :: "nat \<Rightarrow> ModuleInfo \<Rightarrow> bool" where
  "well_placed a m \<longleftrightarrow>
     a \<le> unat (rg_start (m_Total m)) \<and> rg_start (m_Total m) < GetEnd (m_Total m)
   \<and> rg_start (m_Text m) = rg_start (m_Total m) \<and> rg_start (m_Rodata m) = GetEnd (m_Text m)
   \<and> rg_start (m_Data m) = GetEnd (m_Rodata m) \<and> GetEnd (m_Data m) = GetEnd (m_Total m)"

lemma well_placed_mono: "well_placed b m \<Longrightarrow> a \<le> b \<Longrightarrow> well_placed a m"
  by (auto simp: well_placed_def)

lemma region_end:
  assumes "unat (mi_addr mi) + unat (mi_size mi) < 2 ^ 64"
  shows "unat (GetEnd (region mi)) = unat (mi_addr mi) + unat (mi_size mi)"
  using assms by (simp add: GetEnd_def region_def unat_plus_simple word_le_nat_alt unat_word_ariths)

lemma module_placed:
  assumes "tiles a (t # r # d # rs)" "rs \<noteq> []"
  shows "well_placed a (module_at read32 t r d)"
    "unat (GetEnd (m_Total (module_at read32 t r d))) = a + unat (mi_size t) + unat (mi_size r) + unat (mi_size d)"
proof -
  obtain e es where rs: "rs = e # es" using assms(2) by (cases rs) auto
  have addr: "unat (mi_addr t) = a" "unat (mi_addr r) = a + unat (mi_size t)"
    "unat (mi_addr d) = a + unat (mi_size t) + unat (mi_size r)"
    "unat (mi_addr e) = a + unat (mi_size t) + unat (mi_size r) + unat (mi_size d)"
    "mi_size t \<noteq> 0" "mi_size r \<noteq> 0" "mi_size d \<noteq> 0"
    using assms(1) rs by simp_all
  have lt: "unat (mi_addr e) < 2 ^ 64" using unsigned_less[of "mi_addr e"] by simp
  have ends: "unat (GetEnd (region t)) = unat (mi_addr r)" "unat (GetEnd (region r)) = unat (mi_addr d)"
    "unat (GetEnd (region d)) = unat (mi_addr e)"
    using addr lt by (simp_all add: region_end)
  have tot: "GetEnd (m_Total (module_at read32 t r d)) = GetEnd (region d)"
    by (simp add: module_at_def GetEnd_def)
  have "0 < unat (mi_size t)" using addr(5) by (simp add: unat_gt_0)
  then have "mi_addr t < GetEnd (region d)" using addr ends(3) by (simp add: word_less_nat_alt)
  moreover have "GetEnd (region t) = mi_addr r" "GetEnd (region r) = mi_addr d"
    using ends(1,2) by (simp_all add: word_unat_eq_iff)
  ultimately show "well_placed a (module_at read32 t r d)"
    unfolding well_placed_def tot using addr(1) by (simp add: module_at_def) (simp add: region_def)
  show "unat (GetEnd (m_Total (module_at read32 t r d))) = a + unat (mi_size t) + unat (mi_size r) + unat (mi_size d)"
    using tot ends(3) addr(4) by simp
qed

lemma modules_placed:
  assumes "tiles a rs" "rs \<noteq> [] \<longrightarrow> \<not> is_data (last rs)"
  shows "(\<forall>m \<in> set (modules_in read32 rs). well_placed a m)
    \<and> sorted_wrt (\<lambda>m m'. GetEnd (m_Total m) \<le> rg_start (m_Total m')) (modules_in read32 rs)"
  using assms
proof (induction read32 rs arbitrary: a rule: modules_in.induct)
  case (2 read32 t rs)
  show ?case
  proof (cases "is_text t")
    case False
    have "(\<forall>m \<in> set (modules_in read32 rs). well_placed (a + unat (mi_size t)) m)
      \<and> sorted_wrt (\<lambda>m m'. GetEnd (m_Total m) \<le> rg_start (m_Total m')) (modules_in read32 rs)"
      using "2.IH"(1)[OF False, of "a + unat (mi_size t)"] "2.prems" by (simp split: if_splits)
    then show ?thesis using False by (auto intro: well_placed_mono)
  next
    case tx: True
    show ?thesis
    proof (cases rs)
      case Nil
      then show ?thesis using tx by simp
    next
      case r: (Cons r rs1)
      show ?thesis
      proof (cases "is_rodata r")
        case False
        have "(\<forall>m \<in> set (modules_in read32 rs1). well_placed (a + unat (mi_size t) + unat (mi_size r)) m)
          \<and> sorted_wrt (\<lambda>m m'. GetEnd (m_Total m) \<le> rg_start (m_Total m')) (modules_in read32 rs1)"
          using "2.IH"(2)[OF _ r False, of "a + unat (mi_size t) + unat (mi_size r)"] tx r "2.prems"
          by (simp split: if_splits)
        then show ?thesis using r tx False by (auto intro: well_placed_mono)
      next
        case ro: True
        show ?thesis
        proof (cases rs1)
          case Nil
          then show ?thesis using r tx ro by simp
        next
          case d: (Cons d rs2)
          let ?b = "a + unat (mi_size t) + unat (mi_size r) + unat (mi_size d)"
          show ?thesis
          proof (cases "is_data d")
            case False
            have "(\<forall>m \<in> set (modules_in read32 rs2). well_placed ?b m)
              \<and> sorted_wrt (\<lambda>m m'. GetEnd (m_Total m) \<le> rg_start (m_Total m')) (modules_in read32 rs2)"
              using "2.IH"(3)[OF _ r _ d False, of ?b] tx ro r d "2.prems" by (simp split: if_splits)
            then show ?thesis using r d tx ro False by (auto intro: well_placed_mono)
          next
            case True
            have ne: "rs2 \<noteq> []" using "2.prems"(2) r d True by auto
            have ih: "\<forall>m \<in> set (modules_in read32 rs2). well_placed ?b m"
              "sorted_wrt (\<lambda>m m'. GetEnd (m_Total m) \<le> rg_start (m_Total m')) (modules_in read32 rs2)"
              using "2.IH"(4)[OF _ r _ d, of ?b] tx ro r d True ne "2.prems" by simp_all
            have t4: "tiles a (t # r # d # rs2)" using "2.prems"(1) r d by simp
            note mp = module_placed[OF t4 ne]
            have "\<forall>m \<in> set (modules_in read32 rs2). GetEnd (m_Total (module_at read32 t r d)) \<le> rg_start (m_Total m)"
              using ih(1) mp(2) by (auto simp: well_placed_def word_le_nat_alt)
            moreover have "\<forall>m \<in> set (modules_in read32 rs2). well_placed a m"
              using ih(1) by (auto intro: well_placed_mono)
            ultimately show ?thesis using r d tx ro True ih(2) mp(1) by simp
          qed
        qed
      qed
    qed
  qed
qed simp

lemma TryGetModule_Some: "TryGetModule infos p = Some m \<Longrightarrow> Some m \<in> set infos \<and> InRange (m_Total m) p"
  by (induction infos p rule: TryGetModule.induct) (auto split: if_splits)

lemma TryGetModule_None: "TryGetModule infos p = None \<Longrightarrow> Some m \<in> set infos \<Longrightarrow> \<not> InRange (m_Total m) p"
  by (induction infos p rule: TryGetModule.induct) (auto split: if_splits)

lemma disjoint_modules:
  assumes "sorted_wrt (\<lambda>m m'. GetEnd (m_Total m) \<le> rg_start (m_Total m')) ms" "m \<in> set ms" "m' \<in> set ms"
    "InRange (m_Total m) p" "InRange (m_Total m') p"
  shows "m = m'"
  using assms by (induction ms) (auto simp: InRange_def dest: order.strict_trans2)

text \<open>The table with the last module moved to the SDK index.\<close>

definition module_table :: "ModuleInfo list \<Rightarrow> ModuleInfo option list" where
  "module_table ms = map Some (butlast ms) @ replicate (idx_End - length ms) None @ [Some (last ms)]"

lemma move_sdk_table:
  assumes "fd_infos g = place 0 ms (replicate idx_End None)" "fd_nextModIdx g = length ms"
    "ms \<noteq> []" "length ms < idx_End"
  shows "move_sdk g = module_table ms"
proof (rule nth_equalityI)
  have pl: "length (fd_infos g) = idx_End"
    "\<forall>i < idx_End. fd_infos g ! i = (if i < length ms then Some (ms ! i) else None)"
    using place_nth[of 0 ms "replicate idx_End None"] assms(1,4) by simp_all
  obtain k where k: "length ms = Suc k" using assms(3) by (cases ms) auto
  show "length (move_sdk g) = length (module_table ms)"
    using pl assms k by (simp add: move_sdk_def module_table_def)
  fix i
  assume "i < length (move_sdk g)"
  then have i: "i < idx_End" using pl assms by (simp add: move_sdk_def split: if_splits)
  have len: "0 < length ms" using assms(3) by simp
  have last: "last ms = ms ! (length ms - 1)" using assms(3) by (rule last_conv_nth)
  consider "i = idx_Sdk" | "i = length ms - 1" "i \<noteq> idx_Sdk" | "i < length ms - 1" | "length ms - 1 < i" "i < idx_Sdk"
    using i by (fastforce simp: idx_End_def idx_Sdk_def)
  then show "move_sdk g ! i = module_table ms ! i"
  proof cases
    case 1
    then show ?thesis using pl assms k last i
      by (simp add: move_sdk_def module_table_def nth_append idx_End_def idx_Sdk_def nth_list_update)
  next
    case 2
    then show ?thesis using pl assms k i
      by (simp add: move_sdk_def module_table_def nth_append idx_End_def idx_Sdk_def nth_list_update)
  next
    case 3
    then show ?thesis using pl assms k i
      by (simp add: move_sdk_def module_table_def nth_append idx_End_def idx_Sdk_def nth_list_update nth_butlast)
  next
    case 4
    then show ?thesis using pl assms k i
      by (simp add: move_sdk_def module_table_def nth_append idx_End_def idx_Sdk_def nth_list_update)
  qed
qed

lemma find_modules_result:
  assumes "memory_map query rs" "length rs < fuel"
  shows "FindModules fuel query read32 module_start = Some
    (let ms = modules_in read32 rs in
     if idx_End \<le> length ms then Abort ''TooManyStaticModules''
     else if ms = [] then Abort ''no Rtld module''
     else if length ms = 1 then Abort ''no Main module''
     else if idx_End \<le> self_index module_start (module_table ms) then Abort ''own module not found''
     else Finished (module_table ms, self_index module_start (module_table ms)))"
proof -
  let ?ms = "modules_in read32 rs"
  note l = find_modules_loop[OF assms, of read32]
  consider (none) "find_loop fuel query read32 0 start_finder = None"
    | (abort) m where "find_loop fuel query read32 0 start_finder = Some (Abort m)"
    | (found) g where "find_loop fuel query read32 0 start_finder = Some (Finished g)"
    by (metis not_None_eq result.exhaust)
  then show ?thesis
  proof cases
    case none
    then show ?thesis using l by simp
  next
    case abort
    then show ?thesis using l by (simp add: FindModules_def Let_def)
  next
    case found
    then have g: "length ?ms < idx_End" "fd_infos g = place 0 ?ms (replicate idx_End None)" "fd_nextModIdx g = length ?ms"
      using l by simp_all
    have nth: "fd_infos g ! i = (if i < length ?ms then Some (?ms ! i) else None)" if "i < idx_End" for i
      using place_nth[of 0 ?ms "replicate idx_End None"] g(1,2) that by simp
    have n0: "fd_infos g ! idx_Rtld = None \<longleftrightarrow> ?ms = []" using nth[of 0] by (simp add: idx_Rtld_def idx_End_def)
    have n1: "fd_infos g ! idx_Main = None \<longleftrightarrow> length ?ms \<le> 1" using nth[of 1] by (simp add: idx_Main_def idx_End_def not_less)
    show ?thesis
    proof (cases "?ms = []")
      case True
      then show ?thesis using found n0 g(1) by (simp add: FindModules_def Let_def)
    next
      case False
      then have sdk: "move_sdk g = module_table ?ms" by (intro move_sdk_table g)
      have "length ?ms \<le> 1 \<longleftrightarrow> length ?ms = 1" using False by (cases ?ms) auto
      then show ?thesis using found n0 n1 False sdk g(1) by (simp add: FindModules_def Let_def)
    qed
  qed
qed

section \<open>Properties\<close>


text \<open>
  Every address is attributed to the right module.  In the table the scan returns
  each module's text, read-only data and data are adjacent and make up its range,
  and \<open>TryGetModule\<close> gives a module exactly for the addresses inside its range, which
  no other module shares.
\<close>
lemma address_to_module:
  assumes "memory_map query rs" "\<not> is_data (last rs)"
    and "FindModules fuel query read32 module_start = Some (Finished (infos, i))" "length rs < fuel"
  shows "(\<forall>m. Some m \<in> set infos \<longrightarrow>
        rg_start (m_Text m) = rg_start (m_Total m) \<and> rg_start (m_Rodata m) = GetEnd (m_Text m)
      \<and> rg_start (m_Data m) = GetEnd (m_Rodata m) \<and> GetEnd (m_Data m) = GetEnd (m_Total m))
    \<and> (TryGetModule infos p = Some m \<longleftrightarrow> Some m \<in> set infos \<and> InRange (m_Total m) p)"
proof -
  let ?ms = "modules_in read32 rs"
  have r: "infos = module_table ?ms" "?ms \<noteq> []"
    using find_modules_result[OF assms(1,4), of read32 module_start] assms(3)
    by (auto simp: Let_def split: if_splits)
  have "set (butlast ?ms) \<union> {last ?ms} = set ?ms"
    using append_butlast_last_id[OF r(2)] by (metis Un_insert_right list.simps(15) set_append sup_bot_right list.set(1))
  then have mem: "Some m \<in> set infos \<longleftrightarrow> m \<in> set ?ms" for m
    unfolding r(1) module_table_def by auto
  have "tiles 0 rs" "rs \<noteq> [] \<longrightarrow> \<not> is_data (last rs)" using assms(1,2) by (simp_all add: memory_map_def)
  note pl = modules_placed[OF this, of read32]
  have "TryGetModule infos p = Some m" if m: "Some m \<in> set infos" "InRange (m_Total m) p"
  proof (cases "TryGetModule infos p")
    case None
    then show ?thesis using TryGetModule_None m by blast
  next
    case (Some m')
    then show ?thesis using TryGetModule_Some[OF Some] m mem pl disjoint_modules by metis
  qed
  then show ?thesis using TryGetModule_Some mem pl by (auto simp: well_placed_def)
qed

section \<open>A memory map\<close>

definition free_region :: "u64 \<Rightarrow> u64 \<Rightarrow> MemoryInfo" where
  "free_region a n = \<lparr>mi_addr = a, mi_size = n, mi_type = 0, mi_perm = 0\<rparr>"

definition small_map :: "MemoryInfo list" where
  "small_map =
     [free_region 0 0x8000,
      \<lparr>mi_addr = 0x8000, mi_size = 0x1000, mi_type = 3, mi_perm = 5\<rparr>,
      \<lparr>mi_addr = 0x9000, mi_size = 0x1000, mi_type = 3, mi_perm = 1\<rparr>,
      \<lparr>mi_addr = 0xA000, mi_size = 0x1000, mi_type = 4, mi_perm = 3\<rparr>,
      \<lparr>mi_addr = 0xB000, mi_size = 0x1000, mi_type = 3, mi_perm = 5\<rparr>,
      \<lparr>mi_addr = 0xC000, mi_size = 0x1000, mi_type = 3, mi_perm = 1\<rparr>,
      \<lparr>mi_addr = 0xD000, mi_size = 0x1000, mi_type = 4, mi_perm = 3\<rparr>,
      free_region 0xE000 (- 0xE000)]"

definition small_query :: "u64 \<Rightarrow> MemoryInfo option" where
  "small_query a = find (\<lambda>mi. mi_addr mi = a) small_map"

lemmas kind_defs = is_text_def is_rodata_def is_data_def memtype_def MemState_Type_def MemType_CodeStatic_def
  MemType_CodeMutable_def Perm_R_def Perm_Rw_def Perm_Rx_def

lemma small_memory_map: "memory_map small_query small_map"
  by (simp add: memory_map_def small_map_def small_query_def free_region_def kind_defs)

lemma small_modules: "map m_Text (modules_in (\<lambda>_. 0) small_map) = [\<lparr>rg_start = 0x8000, rg_size = 0x1000\<rparr>, \<lparr>rg_start = 0xB000, rg_size = 0x1000\<rparr>]"
  by (simp add: small_map_def free_region_def kind_defs module_at_def region_def)

lemma small_found: "\<exists>infos. FindModules 9 small_query (\<lambda>_. 0) 0xB000 = Some (Finished (infos, idx_Sdk)) \<and> length infos = 13"
proof -
  have l: "length small_map < 9" by (simp add: small_map_def)
  obtain a b where ms: "modules_in (\<lambda>_. 0) small_map = [a, b]" "rg_start (m_Total a) = 0x8000" "rg_start (m_Total b) = 0xB000"
    by (simp add: small_map_def free_region_def kind_defs module_at_def region_def)
  have t: "module_table [a, b] =
      [Some a, None, None, None, None, None, None, None, None, None, None, None, Some b]"
    by (simp add: module_table_def idx_End_def eval_nat_numeral)
  have "self_index 0xB000 (module_table [a, b]) = idx_Sdk"
    unfolding t using ms(2,3) by (simp add: self_index_def idx_End_def idx_Sdk_def upt_rec)
  then show ?thesis
    using find_modules_result[OF small_memory_map l, of "\<lambda>_. 0" "0xB000"] ms(1)
    by (simp add: Let_def idx_End_def idx_Sdk_def module_table_def)
qed


end
