(* ===== verification/Rw_Pages.thy ===== *)
theory Rw_Pages
  imports Mem_Layout
begin

text \<open>
  Writable aliases of code (\<open>source/lib/util/sys/rw_pages.hpp\<close>, \<open>rw_pages.cpp\<close>): the
  loop over the memory regions of an address range, the claim that maps each of them
  a second time, its address translations, flushes and moves, and the destructor.
  The kernel calls and the address-space reservation are parameters or effects.
\<close>

section \<open>Alignment\<close>

definition PAGE_SIZE :: u64 where "PAGE_SIZE = 0x1000"

definition ALIGN_UP :: "u64 \<Rightarrow> u64 \<Rightarrow> u64" where "ALIGN_UP x a = (x + (a - 1)) AND NOT (a - 1)"

definition ALIGN_DOWN :: "u64 \<Rightarrow> u64 \<Rightarrow> u64" where "ALIGN_DOWN x a = x AND NOT (a - 1)"

section \<open>The regions of an address range\<close>

text \<open>A call of the callback: address, length and offset into the range.\<close>

type_synonym chunk = "u64 \<times> u64 \<times> u64"

text \<open>One round per unit of fuel; the outer \<open>None\<close> is no fuel, the inner one an aborted query.\<close>

fun ForEachMemRange_loop ::
  "nat \<Rightarrow> (u64 \<Rightarrow> MemoryInfo option) \<Rightarrow> u64 \<Rightarrow> u64 \<Rightarrow> u64 \<Rightarrow> chunk list option option" where
  "ForEachMemRange_loop 0 query start_address stop at = None"
| "ForEachMemRange_loop (Suc n) query start_address stop at =
     (case query at of
        None \<Rightarrow> Some None
      | Some mi \<Rightarrow>
          let offset = max (mi_addr mi) start_address - start_address;
              current_address = start_address + offset;
              current_length = min stop (mi_addr mi + mi_size mi) - current_address;
              c = (current_address, current_length, offset)
          in if mi_addr mi + mi_size mi < stop
             then map_option (map_option ((#) c))
                    (ForEachMemRange_loop n query start_address stop (mi_addr mi + mi_size mi))
             else Some (Some [c]))"

definition ForEachMemRange :: "nat \<Rightarrow> (u64 \<Rightarrow> MemoryInfo option) \<Rightarrow> u64 \<Rightarrow> u64 \<Rightarrow> chunk list option option" where
  "ForEachMemRange fuel query start_address len =
     ForEachMemRange_loop fuel query start_address (start_address + len) start_address"

section \<open>Claims\<close>

record Claim =
  m_Ro :: u64
  m_Rw :: u64
  m_Size :: u64
  m_RwReserve :: "nat option"

definition no_claim :: Claim where "no_claim = \<lparr>m_Ro = 0, m_Rw = 0, m_Size = 0, m_RwReserve = None\<rparr>"

definition GetAlignedRo :: "Claim \<Rightarrow> u64" where "GetAlignedRo c = ALIGN_DOWN (m_Ro c) PAGE_SIZE"
definition GetAlignedRw :: "Claim \<Rightarrow> u64" where "GetAlignedRw c = ALIGN_DOWN (m_Rw c) PAGE_SIZE"
definition GetAlignedSize :: "Claim \<Rightarrow> u64" where "GetAlignedSize c = ALIGN_UP (m_Size c) PAGE_SIZE"

definition RoToOffset :: "Claim \<Rightarrow> u64 \<Rightarrow> s64" where "RoToOffset c a = m_Ro c - a"
definition RwToOffset :: "Claim \<Rightarrow> u64 \<Rightarrow> s64" where "RwToOffset c a = m_Rw c - a"
definition RoToRw :: "Claim \<Rightarrow> u64 \<Rightarrow> u64" where "RoToRw c a = m_Rw c + RoToOffset c a"
definition RwToRo :: "Claim \<Rightarrow> u64 \<Rightarrow> u64" where "RwToRo c a = RwToOffset c a + m_Ro c"

definition InRo :: "Claim \<Rightarrow> u64 \<Rightarrow> bool" where
  "InRo c a =
     (let offset = RoToOffset c a in
      if sint offset < 0 then False else if m_Size c \<le> offset then False else True)"

definition InRw :: "Claim \<Rightarrow> u64 \<Rightarrow> bool" where
  "InRw c a =
     (let offset = RwToOffset c a in
      if sint offset < 0 then False else if m_Size c \<le> offset then False else True)"

text \<open>Effects on the machine; a mapping gives the writable address, the code address and the length.\<close>

datatype rw_effect =
    Reserve u64 u64
  | MapProcessMemory u64 u64 u64
  | DCacheFlush u64 u64
  | ICacheInvalidate u64 u64
  | UnmapProcessMemory u64 u64 u64
  | RemoveReservation "nat option"

record RwPages =
  m_Claim :: Claim
  m_Owner :: bool

text \<open>
  The constructor: \<open>find_aslr\<close> finds the writable range (0 on failure), \<open>reserve\<close> reserves
  it, \<open>same\<close> compares the two mappings.  \<open>None\<close> is an assertion or system call that
  fails, or no fuel.
\<close>

definition construct ::
  "nat \<Rightarrow> (u64 \<Rightarrow> MemoryInfo option) \<Rightarrow> (u64 \<Rightarrow> u64) \<Rightarrow> (u64 \<Rightarrow> u64 \<Rightarrow> nat option) \<Rightarrow> (u64 \<Rightarrow> u64 \<Rightarrow> u64 \<Rightarrow> bool)
     \<Rightarrow> u64 \<Rightarrow> u64 \<Rightarrow> (RwPages \<times> rw_effect list) option" where
  "construct fuel query find_aslr reserve same ro n =
     (let claim = no_claim\<lparr>m_Ro := ro, m_Size := n\<rparr>;
          alignedRw = find_aslr (GetAlignedSize claim)
      in if alignedRw = 0 then None
         else
           case reserve alignedRw (GetAlignedSize claim) of
             None \<Rightarrow> None
           | Some r \<Rightarrow>
               let claim = claim\<lparr>m_RwReserve := Some r\<rparr> in
               (case ForEachMemRange fuel query (GetAlignedRo claim) (GetAlignedSize claim) of
                  Some (Some cs) \<Rightarrow>
                    let claim = claim\<lparr>m_Rw := alignedRw + (ro - GetAlignedRo claim)\<rparr>
                    in if same (m_Ro claim) (m_Rw claim) n
                       then Some (\<lparr>m_Claim = claim, m_Owner = True\<rparr>,
                              Reserve alignedRw (GetAlignedSize claim)
                              # map (\<lambda>(a, l, off). MapProcessMemory (alignedRw + off) a l) cs)
                       else None
                | _ \<Rightarrow> None))"

definition Flush :: "RwPages \<Rightarrow> rw_effect list" where
  "Flush p =
     (let c = m_Claim p in
      [DCacheFlush (GetAlignedRw c) (GetAlignedSize c), ICacheInvalidate (GetAlignedRw c) (GetAlignedSize c)])"

text \<open>The destructor; \<open>None\<close> is an aborted system call or no fuel.\<close>

definition destruct :: "nat \<Rightarrow> (u64 \<Rightarrow> MemoryInfo option) \<Rightarrow> RwPages \<Rightarrow> rw_effect list option" where
  "destruct fuel query p =
     (if \<not> m_Owner p then Some []
      else
        let c = m_Claim p in
        (case ForEachMemRange fuel query (GetAlignedRo c) (GetAlignedSize c) of
           Some (Some cs) \<Rightarrow>
             Some ([DCacheFlush (m_Rw c) (m_Size c), ICacheInvalidate (m_Ro c) (m_Size c)]
                   @ map (\<lambda>(a, l, off). UnmapProcessMemory (GetAlignedRw c + off) a l) cs
                   @ [RemoveReservation (m_RwReserve c)])
         | _ \<Rightarrow> None))"

text \<open>Move construction and move assignment: the new object and the source afterwards.\<close>

definition move_construct :: "RwPages \<Rightarrow> RwPages \<times> RwPages" where
  "move_construct other =
     (\<lparr>m_Claim = m_Claim other, m_Owner = m_Owner other\<rparr>, \<lparr>m_Claim = no_claim, m_Owner = False\<rparr>)"

definition move_assign :: "RwPages \<Rightarrow> RwPages \<Rightarrow> RwPages \<times> RwPages" where
  "move_assign this other =
     (this\<lparr>m_Claim := m_Claim other\<rparr>, \<lparr>m_Claim = no_claim, m_Owner = False\<rparr>)"

section \<open>The loop covers the range\<close>

text \<open>
  What the kernel documents of a query inside the range: the region that contains the
  address, which does not wrap and is followed by the next region.
\<close>

definition regions_from :: "(u64 \<Rightarrow> MemoryInfo option) \<Rightarrow> u64 \<Rightarrow> u64 \<Rightarrow> bool" where
  "regions_from query start stop \<longleftrightarrow>
     (\<forall>a. start \<le> a \<longrightarrow> a < stop \<longrightarrow>
        (\<exists>mi. query a = Some mi \<and> mi_addr mi \<le> a \<and> unat a < unat (mi_addr mi) + unat (mi_size mi)
            \<and> unat (mi_addr mi) + unat (mi_size mi) < 2 ^ 64
            \<and> (\<forall>mi'. query (mi_addr mi + mi_size mi) = Some mi' \<longrightarrow> mi_addr mi' = mi_addr mi + mi_size mi)))"

text \<open>Chunks that follow each other from \<open>a\<close> to \<open>stop\<close>, none empty, with their offsets.\<close>

fun covers :: "u64 \<Rightarrow> nat \<Rightarrow> nat \<Rightarrow> chunk list \<Rightarrow> bool" where
  "covers start a stop [] \<longleftrightarrow> a = stop"
| "covers start a stop ((addr, len, off) # cs) \<longleftrightarrow>
     unat addr = a \<and> 0 < unat len \<and> off = addr - start \<and> covers start (a + unat len) stop cs"

lemma loop_covers:
  assumes "regions_from query start stop" "start \<le> a" "a < stop" "unat stop - unat a < fuel"
    "\<And>mi. query a = Some mi \<Longrightarrow> a = start \<or> mi_addr mi = a"
  shows "\<exists>cs. ForEachMemRange_loop fuel query start stop a = Some (Some cs) \<and> covers start (unat a) (unat stop) cs"
  using assms
proof (induction fuel arbitrary: a)
  case (Suc n)
  obtain mi where mi: "query a = Some mi" "mi_addr mi \<le> a" "unat a < unat (mi_addr mi) + unat (mi_size mi)"
    "unat (mi_addr mi) + unat (mi_size mi) < 2 ^ 64"
    "\<forall>mi'. query (mi_addr mi + mi_size mi) = Some mi' \<longrightarrow> mi_addr mi' = mi_addr mi + mi_size mi"
    using Suc.prems(1-3) unfolding regions_from_def by blast
  let ?b = "mi_addr mi + mi_size mi"
  have b: "unat ?b = unat (mi_addr mi) + unat (mi_size mi)"
    using mi(4) by (simp add: unat_word_ariths)
  have off: "max (mi_addr mi) start - start = a - start"
    using Suc.prems(2,5) mi(1,2) by (auto simp: max_def)
  have ca: "start + (a - start) = a" by simp
  have ab: "a < ?b" using mi(3) b by (simp add: word_less_nat_alt)
  let ?c = "(a, min stop ?b - a, a - start)"
  have len: "unat (min stop ?b - a) = min (unat stop) (unat ?b) - unat a"
    using ab Suc.prems(3) by (auto simp: min_def unat_sub word_le_nat_alt word_less_nat_alt)
  show ?case
  proof (cases "?b < stop")
    case False
    then have "min stop ?b = stop" by (intro min_absorb1) simp
    then have "covers start (unat a) (unat stop) [?c]"
      unfolding covers.simps len using Suc.prems(3) False by (auto simp: word_less_nat_alt)
    then show ?thesis
      using mi(1) False off ca by (intro exI[of _ "[?c]"]) (simp add: Let_def)
  next
    case True
    have lenb: "unat (min stop ?b - a) = unat ?b - unat a"
      using len True by (simp add: min_absorb2 word_less_nat_alt)
    have "\<exists>cs. ForEachMemRange_loop n query start stop ?b = Some (Some cs) \<and> covers start (unat ?b) (unat stop) cs"
    proof (rule Suc.IH)
      show "start \<le> ?b" using Suc.prems(2) ab by simp
      show "unat stop - unat ?b < n" using Suc.prems(3,4) ab by (simp add: word_less_nat_alt)
      show "?b = start \<or> mi_addr mi' = ?b" if "query ?b = Some mi'" for mi'
        using mi(5) that by blast
    qed (rule Suc.prems(1) True)+
    then obtain cs where cs: "ForEachMemRange_loop n query start stop ?b = Some (Some cs)"
      "covers start (unat ?b) (unat stop) cs" by blast
    have "covers start (unat a) (unat stop) (?c # cs)"
      using cs(2) lenb ab by (simp add: word_less_nat_alt)
    then show ?thesis
      using mi(1) True off ca cs(1) by (intro exI[of _ "?c # cs"]) (simp add: Let_def)
  qed
next
  case 0
  from 0(4) show ?case by (simp only: not_less0)
qed

lemma covers_alias:
  assumes "covers start a stop cs" "unat start \<le> a" "a \<le> p" "p < stop" "stop < 2 ^ 64"
  shows "\<exists>(addr, len, off) \<in> set cs. unat addr \<le> p \<and> p < unat addr + unat len \<and> off = addr - start"
  using assms
proof (induction cs arbitrary: a)
  case (Cons c cs)
  obtain addr len off where c: "c = (addr, len, off)" by (cases c)
  show ?case
  proof (cases "p < unat addr + unat len")
    case True
    then show ?thesis using Cons.prems c by auto
  next
    case False
    then show ?thesis using Cons.IH[of "a + unat len"] Cons.prems c by auto
  qed
qed simp

section \<open>The alias\<close>

text \<open>The code address a writable address stands for under a list of mappings.\<close>

definition mapped :: "rw_effect list \<Rightarrow> u64 \<Rightarrow> u64 \<Rightarrow> bool" where
  "mapped es rw ro \<longleftrightarrow>
     (\<exists>a b l k. MapProcessMemory a b l \<in> set es \<and> k < unat l \<and> rw = a + of_nat k \<and> ro = b + of_nat k)"

lemma page_bits: "ALIGN_DOWN a PAGE_SIZE = a AND NOT 0xFFF" "ALIGN_UP a PAGE_SIZE = (a + 0xFFF) AND NOT 0xFFF"
  by (simp_all add: ALIGN_DOWN_def ALIGN_UP_def PAGE_SIZE_def)

lemma align_down_le: "ALIGN_DOWN a PAGE_SIZE \<le> a"
  unfolding page_bits by (rule word_and_le2)

lemma align_down_sub: "a - ALIGN_DOWN a PAGE_SIZE = a AND 0xFFF"
  unfolding page_bits using page_plus_offset[of a] by (metis add_diff_cancel_left')

lemma unat_align_down: "unat (ALIGN_DOWN a PAGE_SIZE) + unat (a AND 0xFFF) = unat a"
proof -
  have "unat (a - ALIGN_DOWN a PAGE_SIZE) = unat a - unat (ALIGN_DOWN a PAGE_SIZE)"
    by (rule unat_sub[OF align_down_le])
  then show ?thesis using align_down_le[of a] by (simp add: align_down_sub word_le_nat_alt)
qed

lemma page_offset_less: "unat (a AND 0xFFF :: u64) \<le> 0xFFF"
proof -
  have "a AND 0xFFF \<le> 0xFFF" by (rule word_and_le1)
  moreover have "unat (0xFFF :: u64) = 0xFFF" by simp
  ultimately show ?thesis unfolding word_le_nat_alt by (simp only:)
qed

lemma align_up_bounds:
  assumes "unat n + 0xFFF < 2 ^ 64"
  shows "unat n \<le> unat (ALIGN_UP n PAGE_SIZE)" "unat (ALIGN_UP n PAGE_SIZE) \<le> unat n + 0xFFF"
proof -
  have "unat (n + 0xFFF) = unat n + 0xFFF" using assms by (simp add: unat_word_ariths)
  moreover have "ALIGN_UP n PAGE_SIZE = ALIGN_DOWN (n + 0xFFF) PAGE_SIZE" by (simp add: page_bits)
  moreover note unat_align_down[of "n + 0xFFF"] page_offset_less[of "n + 0xFFF"]
  ultimately show "unat n \<le> unat (ALIGN_UP n PAGE_SIZE)" "unat (ALIGN_UP n PAGE_SIZE) \<le> unat n + 0xFFF"
    by simp_all
qed

lemma covers_inside:
  assumes "covers start a stop cs" "(addr, len, off) \<in> set cs"
  shows "a \<le> unat addr \<and> unat addr + unat len \<le> stop \<and> off = addr - start"
  using assms
proof (induction cs arbitrary: a)
  case (Cons c cs)
  obtain x l o' where c: "c = (x, l, o')" by (cases c)
  have ge: "covers start b stop cs \<Longrightarrow> b \<le> stop" for b
    by (induction cs arbitrary: b) (auto, fastforce)
  have c': "unat x = a" "o' = x - start" "covers start (a + unat l) stop cs"
    using Cons.prems(1) c by auto
  show ?case
  proof (cases "(addr, len, off) \<in> set cs")
    case True
    then show ?thesis using Cons.IH[OF c'(3)] by auto
  next
    case False
    then have "addr = x" "len = l" "off = o'" using Cons.prems(2) c by auto
    then show ?thesis using c' ge[OF c'(3)] by simp
  qed
qed simp

lemma constructed:
  assumes "find_aslr (ALIGN_UP n PAGE_SIZE) \<noteq> 0"
    "reserve (find_aslr (ALIGN_UP n PAGE_SIZE)) (ALIGN_UP n PAGE_SIZE) = Some r"
    "same ro (find_aslr (ALIGN_UP n PAGE_SIZE) + (ro AND 0xFFF)) n"
    "ForEachMemRange fuel query (ALIGN_DOWN ro PAGE_SIZE) (ALIGN_UP n PAGE_SIZE) = Some (Some cs)"
  shows "construct fuel query find_aslr reserve same ro n =
    Some (\<lparr>m_Claim = \<lparr>m_Ro = ro, m_Rw = find_aslr (ALIGN_UP n PAGE_SIZE) + (ro AND 0xFFF), m_Size = n, m_RwReserve = Some r\<rparr>,
           m_Owner = True\<rparr>,
      Reserve (find_aslr (ALIGN_UP n PAGE_SIZE)) (ALIGN_UP n PAGE_SIZE)
      # map (\<lambda>(a, l, off). MapProcessMemory (find_aslr (ALIGN_UP n PAGE_SIZE) + off) a l) cs)"
  using assms by (simp add: construct_def Let_def GetAlignedSize_def GetAlignedRo_def no_claim_def align_down_sub)

text \<open>The bytes that the mappings of the chunks alias.\<close>

lemma mapped_chunks:
  assumes "covers start (unat start) stop cs" "stop < 2 ^ 64"
    "\<And>a b l. e \<noteq> MapProcessMemory a b l"
  shows "mapped (e # map (\<lambda>(a, l, off). MapProcessMemory (rw + off) a l) cs) (rw + (x - start)) x
      \<longleftrightarrow> start \<le> x \<and> unat x < stop"
proof
  assume "start \<le> x \<and> unat x < stop"
  then obtain addr len off where c: "(addr, len, off) \<in> set cs" "unat addr \<le> unat x"
    "unat x < unat addr + unat len" "off = addr - start"
    using covers_alias[OF assms(1), of "unat x"] assms(2) by (auto simp: word_le_nat_alt)
  have d: "addr + of_nat (unat x - unat addr) = x"
    using c(2) by (simp add: of_nat_diff)
  then have "rw + (x - start) = rw + (addr - start) + of_nat (unat x - unat addr)"
    by (simp add: algebra_simps)
  then show "mapped (e # map (\<lambda>(a, l, off). MapProcessMemory (rw + off) a l) cs) (rw + (x - start)) x"
    unfolding mapped_def using c d
    by (intro exI[of _ "rw + off"] exI[of _ addr] exI[of _ len] exI[of _ "unat x - unat addr"]) force
next
  assume "mapped (e # map (\<lambda>(a, l, off). MapProcessMemory (rw + off) a l) cs) (rw + (x - start)) x"
  then obtain addr len off k where c: "(addr, len, off) \<in> set cs" "k < unat len" "x = addr + of_nat k"
    unfolding mapped_def using assms(3) by force
  note i = covers_inside[OF assms(1) c(1)]
  then have "unat addr + k < 2 ^ 64" using c(2) assms(2) by linarith
  then have "unat x = unat addr + k"
    unfolding c(3) by (simp add: unat_word_ariths unat_of_nat)
  then show "start \<le> x \<and> unat x < stop"
    using i c(2) by (simp add: word_le_nat_alt)
qed

text \<open>
  Constructing a claim of \<open>n\<close> bytes at \<open>ro\<close> succeeds when the system calls do, and the
  whole claim is then aliased at its writable address exactly when the page offset of
  \<open>ro\<close> plus \<open>n\<close> fits the size rounded up to pages: a claim that crosses one page end more
  than its size alone does is only partly mapped.
\<close>

lemma alias_complete_iff:
  assumes "0 < n" "unat ro + unat n + 0x1000 < 2 ^ 64"
    "regions_from query (ALIGN_DOWN ro PAGE_SIZE) (ALIGN_DOWN ro PAGE_SIZE + ALIGN_UP n PAGE_SIZE)"
    "find_aslr (ALIGN_UP n PAGE_SIZE) \<noteq> 0"
    "reserve (find_aslr (ALIGN_UP n PAGE_SIZE)) (ALIGN_UP n PAGE_SIZE) = Some r"
    "same ro (find_aslr (ALIGN_UP n PAGE_SIZE) + (ro AND 0xFFF)) n"
    "unat (ALIGN_UP n PAGE_SIZE) < fuel"
  shows "\<exists>p es. construct fuel query find_aslr reserve same ro n = Some (p, es)
      \<and> ((\<forall>k < unat n. mapped es (m_Rw (m_Claim p) + of_nat k) (ro + of_nat k))
         \<longleftrightarrow> unat (ro AND 0xFFF) + unat n \<le> unat (ALIGN_UP n PAGE_SIZE))"
proof -
  let ?s = "ALIGN_DOWN ro PAGE_SIZE" and ?z = "ALIGN_UP n PAGE_SIZE"
  let ?w = "find_aslr ?z"
  have z: "unat n \<le> unat ?z" "unat ?z \<le> unat n + 0xFFF"
    using align_up_bounds[of n] assms(2) by simp_all
  have s: "unat ?s + unat (ro AND 0xFFF) = unat ro" by (rule unat_align_down)
  have n: "0 < unat n" using assms(1) by (simp add: word_less_nat_alt)
  have e: "unat (?s + ?z) = unat ?s + unat ?z"
    using assms(2) s z by (simp add: unat_word_ariths)
  obtain cs where cs: "ForEachMemRange fuel query ?s ?z = Some (Some cs)"
    "covers ?s (unat ?s) (unat (?s + ?z)) cs"
  proof -
    have "?s < ?s + ?z" "unat (?s + ?z) - unat ?s < fuel"
      using e z n assms(7) by (simp_all add: word_less_nat_alt)
    then show ?thesis using loop_covers[OF assms(3), of ?s fuel] that by (auto simp: ForEachMemRange_def)
  qed
  let ?p = "\<lparr>m_Claim = \<lparr>m_Ro = ro, m_Rw = ?w + (ro AND 0xFFF), m_Size = n, m_RwReserve = Some r\<rparr>, m_Owner = True\<rparr>"
  let ?es = "Reserve ?w ?z # map (\<lambda>(a, l, off). MapProcessMemory (?w + off) a l) cs"
  have byte: "mapped ?es (m_Rw (m_Claim ?p) + of_nat k) (ro + of_nat k)
      \<longleftrightarrow> unat (ro AND 0xFFF) + k < unat ?z" if "k < unat n" for k
  proof -
    have k: "unat (ro + of_nat k) = unat ro + k"
      using that assms(2) by (simp add: unat_word_ariths unat_of_nat)
    have w: "?w + (ro AND 0xFFF) + of_nat k = ?w + (ro + of_nat k - ?s)"
      unfolding align_down_sub[symmetric] by (simp add: algebra_simps)
    have lt: "unat (?s + ?z) < 2 ^ 64" using e assms(2) s z by simp
    have "mapped ?es (?w + (ro AND 0xFFF) + of_nat k) (ro + of_nat k)
        \<longleftrightarrow> ?s \<le> ro + of_nat k \<and> unat (ro + of_nat k) < unat (?s + ?z)"
      unfolding w by (rule mapped_chunks[OF cs(2) lt]) simp
    also have "\<dots> \<longleftrightarrow> unat (ro AND 0xFFF) + k < unat ?z"
      unfolding word_le_nat_alt k e using s by auto
    finally show ?thesis by simp
  qed
  have "(\<forall>k < unat n. mapped ?es (m_Rw (m_Claim ?p) + of_nat k) (ro + of_nat k))
      \<longleftrightarrow> (\<forall>k < unat n. unat (ro AND 0xFFF) + k < unat ?z)"
    using byte by blast
  also have "\<dots> \<longleftrightarrow> unat (ro AND 0xFFF) + unat n \<le> unat ?z"
    using n by (auto dest: spec[of _ "unat n - 1"])
  finally have "(\<forall>k < unat n. mapped ?es (m_Rw (m_Claim ?p) + of_nat k) (ro + of_nat k))
      \<longleftrightarrow> unat (ro AND 0xFFF) + unat n \<le> unat ?z" .
  then show ?thesis
    using constructed[of find_aslr n reserve r same ro fuel query cs] assms(4-6) cs(1) by blast
qed

section \<open>The destructor undoes the constructor\<close>

lemma align_down_add:
  assumes "w AND 0xFFF = 0"
  shows "ALIGN_DOWN (w + (a AND 0xFFF)) PAGE_SIZE = w"
proof -
  have d: "w AND (a AND 0xFFF) = 0" using assms by (simp add: and.left_commute and.commute and.assoc)
  have w: "w AND NOT 0xFFF = w" using page_plus_offset[of w] assms by simp
  have "w + (a AND 0xFFF) = w OR (a AND 0xFFF)" using d by (rule disjunctive_add_eq_or)
  then have "ALIGN_DOWN (w + (a AND 0xFFF)) PAGE_SIZE = (w AND NOT 0xFFF) OR ((a AND 0xFFF) AND NOT 0xFFF)"
    unfolding page_bits by (simp only: bit.conj_disj_distrib2)
  also have "(a AND 0xFFF) AND NOT 0xFFF = 0" by (rule bit_word_eqI) (auto simp: bit_simps)
  finally show ?thesis using w by simp
qed

text \<open>
  Every mapping the constructor made is unmapped by the destructor and the reservation is
  removed, when the reserved range is page aligned and the regions are unchanged.
\<close>

lemma destruct_unmaps:
  assumes "construct fuel query find_aslr reserve same ro n = Some (p, es)"
    "find_aslr (ALIGN_UP n PAGE_SIZE) AND 0xFFF = 0"
  shows "\<exists>fs. destruct fuel query p = Some fs
    \<and> (\<forall>a b l. MapProcessMemory a b l \<in> set es \<longrightarrow> UnmapProcessMemory a b l \<in> set fs)
    \<and> last fs = RemoveReservation (m_RwReserve (m_Claim p))"
proof -
  let ?w = "find_aslr (ALIGN_UP n PAGE_SIZE)"
  obtain r cs where c: "?w \<noteq> 0" "reserve ?w (ALIGN_UP n PAGE_SIZE) = Some r"
    "ForEachMemRange fuel query (ALIGN_DOWN ro PAGE_SIZE) (ALIGN_UP n PAGE_SIZE) = Some (Some cs)"
    "same ro (?w + (ro AND 0xFFF)) n"
    using assms(1)
    by (auto simp: construct_def Let_def GetAlignedSize_def GetAlignedRo_def no_claim_def align_down_sub
        split: if_splits option.splits)
  have "ALIGN_DOWN (?w + (ro AND 0xFFF)) PAGE_SIZE = ?w" using assms(2) by (rule align_down_add)
  then show ?thesis
    using assms(1) constructed[of find_aslr n reserve r same ro fuel query cs] c
    by (auto simp: destruct_def Let_def GetAlignedSize_def GetAlignedRo_def GetAlignedRw_def split_beta)
qed

text \<open>
  Ownership: a moved-from object has no effect when destroyed.  The offsets count downwards
  from the start, so an address inside the claim is translated to below its alias.
\<close>

lemma moved_from_inert: "destruct fuel query (snd (move_construct p)) = Some []"
  "destruct fuel query (snd (move_assign q p)) = Some []"
  by (simp_all add: destruct_def move_construct_def move_assign_def)

lemma RoToRw_offset: "RoToRw c (m_Ro c + k) = m_Rw c - k"
  by (simp add: RoToRw_def RoToOffset_def)

text \<open>
  A kernel with one code region: 20 bytes in the middle of a page are aliased, 20 bytes
  that start 16 bytes before a page end are not.
\<close>

definition code_region :: "u64 \<Rightarrow> MemoryInfo option" where
  "code_region a =
     (if a < 0x8100000 then Some \<lparr>mi_addr = 0x8000000, mi_size = 0x100000, mi_type = 3, mi_perm = 5\<rparr> else None)"

lemma code_region_regions:
  assumes "0x8000000 \<le> start" "stop \<le> 0x8100000"
  shows "regions_from code_region start stop"
  using assms by (auto simp: regions_from_def code_region_def word_le_nat_alt word_less_nat_alt)

end
