(* ===== verification/Hashes.thy ===== *)
theory Hashes
  imports Prelude
begin

text \<open>
  Hash functions: MurmurHash3 of symbol names (\<open>source/lib/util/murmur3.hpp\<close>), the
  table-driven CRC-32 (\<open>source/lib/util/crc32.hpp\<close>) against its bitwise definition, and
  the ELF hash (\<open>source/lib/reloc/reloc.hpp\<close>, \<open>source/rtld/utils.cpp\<close>) against the
  32-bit function that linkers use.  Text is a list of bytes; \<open>bytes\<close> reads a string.
\<close>

definition bytes :: "string \<Rightarrow> u8 list" where "bytes s = map of_char s"

section \<open>MurmurHash3\<close>

definition C1 :: u32 where "C1 = 0xcc9e2d51"
definition C2 :: u32 where "C2 = 0x1b873593"
definition R1 :: nat where "R1 = 15"
definition R2 :: nat where "R2 = 13"
definition M :: u32 where "M = 5"
definition N :: u32 where "N = 0xe6546b64"

definition rotl :: "u32 \<Rightarrow> nat \<Rightarrow> u32" where "rotl x r = push_bit r x OR drop_bit (32 - r) x"

record Murmur3 =
  m_Length :: u32
  m_H :: u32

definition Scramble :: "u32 \<Rightarrow> u32" where
  "Scramble k = (let k = k * C1; k = rotl k R1 in k * C2)"

definition Initialize_hash :: "u32 \<Rightarrow> Murmur3" where
  "Initialize_hash seed = \<lparr>m_Length = 0, m_H = seed\<rparr>"

definition Update :: "Murmur3 \<Rightarrow> u32 \<Rightarrow> Murmur3" where
  "Update m block =
     (let h = m_H m XOR Scramble block; h = rotl h R2; h = h * M + N
      in \<lparr>m_Length = m_Length m + 4, m_H = h\<rparr>)"

text \<open>The switch with its fall-through: \<open>None\<close> for a size it has no case for.\<close>

fun tail_block :: "u8 list \<Rightarrow> u32 option" where
  "tail_block [a] = Some (ucast a)"
| "tail_block [a, b] = Some (push_bit 8 (ucast b) XOR ucast a)"
| "tail_block [a, b, c] = Some ((push_bit 16 (ucast c) XOR push_bit 8 (ucast b)) XOR ucast a)"
| "tail_block _ = None"

text \<open>The hash and the object afterwards.\<close>

definition Finalize :: "Murmur3 \<Rightarrow> u8 list \<Rightarrow> u32 \<times> Murmur3" where
  "Finalize m rest =
     (let h = (case tail_block rest of None \<Rightarrow> m_H m | Some k \<Rightarrow> m_H m XOR Scramble k);
          len = m_Length m + of_nat (length rest mod 4);
          h = h XOR len;
          h = h XOR drop_bit 16 h;
          h = h * 0x85ebca6b;
          h = h XOR drop_bit 13 h;
          h = h * 0xc2b2ae35;
          h = h XOR drop_bit 16 h
      in (h, Initialize_hash 0))"

text \<open>A little-endian block of four bytes.\<close>

definition bit_cast :: "u8 \<Rightarrow> u8 \<Rightarrow> u8 \<Rightarrow> u8 \<Rightarrow> u32" where
  "bit_cast a b c d =
     ucast a OR push_bit 8 (ucast b) OR push_bit 16 (ucast c) OR push_bit 24 (ucast d)"

fun compute_loop :: "Murmur3 \<Rightarrow> u8 list \<Rightarrow> Murmur3 \<times> u8 list" where
  "compute_loop m (a # b # c # d # rest) = compute_loop (Update m (bit_cast a b c d)) rest"
| "compute_loop m rest = (m, rest)"

definition Compute :: "u8 list \<Rightarrow> u32 \<Rightarrow> u32" where
  "Compute input seed = (let (m, rest) = compute_loop (Initialize_hash seed) input in fst (Finalize m rest))"

section \<open>CRC-32\<close>

definition s_DefaultPolynomial :: u32 where "s_DefaultPolynomial = 0xEDB88320"

definition table_bit :: "u32 \<Rightarrow> u32 \<Rightarrow> u32" where
  "table_bit polynomial item =
     (if item AND 1 \<noteq> 0 then polynomial XOR drop_bit 1 item else drop_bit 1 item)"

definition CreateTable :: "u32 \<Rightarrow> u32 list" where
  "CreateTable polynomial = map (\<lambda>i. (table_bit polynomial ^^ 8) (of_nat i)) [0..<0x100]"

definition s_Table :: "u32 list" where "s_Table = CreateTable s_DefaultPolynomial"

fun Hash_loop :: "u32 \<Rightarrow> u8 list \<Rightarrow> u32" where
  "Hash_loop ctx [] = ctx"
| "Hash_loop ctx (byte # data) =
     Hash_loop (s_Table ! unat (byte XOR ucast (ctx AND 0xFF)) XOR drop_bit 8 ctx) data"

definition Hash :: "u8 list \<Rightarrow> u32 \<Rightarrow> u32" where "Hash data init = NOT (Hash_loop init data)"

section \<open>The ELF hash\<close>

text \<open>\<open>unsigned long\<close> has 64 bits here; a name has no NUL.\<close>

fun ElfHash_loop :: "u64 \<Rightarrow> u8 list \<Rightarrow> u64" where
  "ElfHash_loop h [] = h"
| "ElfHash_loop h (c # name) =
     (let h = push_bit 4 h + ucast c; g = h AND 0xf0000000; h = (if g \<noteq> 0 then h XOR drop_bit 24 g else h)
      in ElfHash_loop (h AND NOT g) name)"

definition ElfHash :: "u8 list \<Rightarrow> u64" where "ElfHash name = ElfHash_loop 0 name"

section \<open>CRC-32: the table is the bitwise function\<close>

text \<open>
  The reflected CRC-32 by definition: each byte is added to the remainder, which is then
  divided bit by bit.
\<close>

definition crc_byte :: "u32 \<Rightarrow> u8 \<Rightarrow> u32" where
  "crc_byte r b = (table_bit s_DefaultPolynomial ^^ 8) (r XOR ucast b)"

definition crc32_spec :: "u8 list \<Rightarrow> u32 \<Rightarrow> u32" where
  "crc32_spec data init = NOT (foldl crc_byte init data)"

lemma table_bit_xor: "table_bit p (x XOR y) = table_bit p x XOR table_bit p y"
proof -
  have one: "z AND 1 \<noteq> 0 \<longleftrightarrow> bit z 0" for z :: u32
    by (simp add: and_one_eq bit_0 odd_iff_mod_2_eq_one)
  have "(x XOR y) AND 1 \<noteq> 0 \<longleftrightarrow> (x AND 1 \<noteq> 0) \<noteq> (y AND 1 \<noteq> 0)"
    unfolding one by (rule bit_xor_iff)
  moreover have "drop_bit 1 (x XOR y) = drop_bit 1 x XOR drop_bit 1 y" by (rule bit_word_eqI) (simp add: bit_simps)
  ultimately show ?thesis
    by (auto simp: table_bit_def xor.assoc xor.left_commute xor.commute)
qed

lemma table_bits_xor: "(table_bit p ^^ n) (x XOR y) = (table_bit p ^^ n) x XOR (table_bit p ^^ n) y"
  by (induction n) (simp_all add: table_bit_xor)

lemma table_bits_shift:
  assumes "take_bit n x = 0"
  shows "(table_bit p ^^ n) x = drop_bit n x"
  using assms
proof (induction n)
  case (Suc n)
  have "take_bit n x = 0"
    using Suc.prems by (metis le_Suc_eq min.absorb_iff1 order_refl take_bit_of_0 take_bit_take_bit)
  moreover have "\<not> bit x n"
    using Suc.prems by (metis bit_0_eq bit_take_bit_iff bot_apply bot_bool_def lessI)
  then have "even (drop_bit n x)" by (simp add: even_drop_bit_iff_not_bit)
  then have "drop_bit n x AND 1 = 0" by (simp add: and_one_eq even_iff_mod_2_eq_zero)
  ultimately show ?case using Suc.IH by (simp add: table_bit_def drop_bit_drop_bit)
qed simp

lemma s_Table_nth: "s_Table ! unat (b :: u8) = (table_bit s_DefaultPolynomial ^^ 8) (ucast b)"
proof -
  have "unat b < 0x100" using unsigned_less[of b] by simp
  then show ?thesis by (simp add: s_Table_def CreateTable_def del: funpow.simps)
qed

lemma byte_mask: "(0xFF :: u32) = mask 8"
  by (simp add: mask_eq_exp_minus_1)

lemma crc_table_step:
  "s_Table ! unat (b XOR ucast (r AND 0xFF)) XOR drop_bit 8 r = crc_byte r b"
proof -
  let ?hi = "r AND NOT (mask 8)"
  have split: "r XOR ucast b = ucast (b XOR ucast (r AND 0xFF)) XOR ?hi"
    unfolding byte_mask by (rule bit_word_eqI) (auto simp: bit_simps dest: bit_imp_le_length)
  have "take_bit 8 ?hi = 0" by (rule bit_word_eqI) (auto simp: bit_simps)
  then have "(table_bit s_DefaultPolynomial ^^ 8) ?hi = drop_bit 8 ?hi" by (rule table_bits_shift)
  moreover have "drop_bit 8 ?hi = drop_bit 8 r" by (rule bit_word_eqI) (auto simp: bit_simps dest: bit_imp_le_length)
  ultimately show ?thesis
    unfolding crc_byte_def split table_bits_xor s_Table_nth by simp
qed

lemma Hash_loop_foldl: "Hash_loop r data = foldl crc_byte r data"
  by (induction data arbitrary: r) (simp_all add: crc_table_step)

text \<open>
  The table-driven CRC-32 is the bitwise CRC-32 with polynomial \<open>0xEDB88320\<close>, for every
  input and initial value.
\<close>

lemma crc32_table_bitwise: "Hash data init = crc32_spec data init"
  by (simp add: Hash_def crc32_spec_def Hash_loop_foldl)

section \<open>The ELF hash in 64 bits\<close>

text \<open>The hash of the System V ABI as linkers compute it, on 32-bit words.\<close>

fun elf_hash_loop :: "u32 \<Rightarrow> u8 list \<Rightarrow> u32" where
  "elf_hash_loop h [] = h"
| "elf_hash_loop h (c # name) =
     (let h = push_bit 4 h + ucast c; g = h AND 0xf0000000; h = (if g \<noteq> 0 then h XOR drop_bit 24 g else h)
      in elf_hash_loop (h AND NOT g) name)"

definition elf_hash :: "u8 list \<Rightarrow> u32" where "elf_hash name = elf_hash_loop 0 name"

lemma ucast_u64_add: "(ucast (x + y :: u64) :: u32) = ucast x + ucast y"
proof transfer
  fix x y :: int
  have "take_bit 32 (take_bit 64 x + take_bit 64 y) = take_bit 32 (take_bit 32 (take_bit 64 x) + take_bit 32 (take_bit 64 y))"
    by (rule take_bit_add[symmetric])
  also have "\<dots> = take_bit 32 (x + y)" by (simp add: take_bit_add)
  finally show "take_bit LENGTH(32) (take_bit LENGTH(64) (x + y)) =
    take_bit LENGTH(32) (take_bit LENGTH(64) x + take_bit LENGTH(64) y)" by simp
qed

lemma ucast_u32_u64: "w = ucast (ucast w :: u32) \<longleftrightarrow> w < 0x100000000" for w :: u64
proof -
  have "(ucast (ucast w :: u32) :: u64) = take_bit 32 w"
    by (rule bit_word_eqI) (auto simp: bit_simps)
  also have "\<dots> = w mod 0x100000000" by (simp add: take_bit_eq_mod)
  finally have "w = ucast (ucast w :: u32) \<longleftrightarrow> w mod 0x100000000 = w" by auto
  also have "\<dots> \<longleftrightarrow> w < 0x100000000"
  proof
    have "w mod 0x100000000 < 0x100000000" by (rule word_mod_less_divisor) simp
    then show "w mod 0x100000000 = w \<Longrightarrow> w < 0x100000000" by simp
    assume "w < 0x100000000"
    then have "unat (w mod 0x100000000) = unat w" by (simp add: unat_mod_distrib word_less_nat_alt)
    then show "w mod 0x100000000 = w" by (simp only: word_unat_eq_iff)
  qed
  finally show ?thesis .
qed

lemma fold_low:
  fixes a m :: u64 and k :: u32
  assumes top: "\<And>n. bit m n \<Longrightarrow> n < 32" "\<And>n. bit m n \<longleftrightarrow> bit k n"
  shows "(ucast (a AND m) :: u32) = ucast a AND k" "a AND m = ucast (ucast a AND k)"
    "(ucast ((a XOR drop_bit 24 (a AND m)) AND NOT (a AND m)) :: u32) =
     (ucast a XOR drop_bit 24 (ucast a AND k)) AND NOT (ucast a AND k)"
    "(ucast (a AND NOT (a AND m)) :: u32) = ucast a AND NOT (ucast a AND k)"
proof -
  have "\<not> n < 32 \<Longrightarrow> \<not> bit m n" "\<not> n < 8 \<Longrightarrow> \<not> bit m (24 + n)" for n
    using top(1)[of n] top(1)[of "24 + n"] by auto
  then show "(ucast (a AND m) :: u32) = ucast a AND k"
    "(ucast ((a XOR drop_bit 24 (a AND m)) AND NOT (a AND m)) :: u32) =
     (ucast a XOR drop_bit 24 (ucast a AND k)) AND NOT (ucast a AND k)"
    "(ucast (a AND NOT (a AND m)) :: u32) = ucast a AND NOT (ucast a AND k)"
    by (auto intro!: bit_word_eqI simp: bit_simps simp flip: top(2))
  show "a AND m = ucast (ucast a AND k)"
    by (rule bit_word_eqI) (auto simp: bit_simps simp flip: top(2) intro: top(1))
qed

lemma ElfHash_step_low:
  fixes h :: u64 and c :: u8
  defines "a \<equiv> push_bit 4 h + ucast c" and "b \<equiv> push_bit 4 (ucast h :: u32) + ucast c"
  shows "a AND 0xf0000000 \<noteq> 0 \<longleftrightarrow> b AND 0xf0000000 \<noteq> 0"
    "ucast ((a XOR drop_bit 24 (a AND 0xf0000000)) AND NOT (a AND 0xf0000000)) =
     (b XOR drop_bit 24 (b AND 0xf0000000)) AND NOT (b AND 0xf0000000)"
    "ucast (a AND NOT (a AND 0xf0000000)) = b AND NOT (b AND 0xf0000000)"
proof -
  have "(ucast (push_bit 4 h) :: u32) = push_bit 4 (ucast h)" "(ucast (ucast c :: u64) :: u32) = ucast c"
    by (rule bit_word_eqI; auto simp: bit_simps)+
  then have ab: "ucast a = b" by (simp add: a_def b_def ucast_u64_add)
  have f: "(0xf0000000 :: u64) = push_bit 28 (mask 4)" "(0xf0000000 :: u32) = push_bit 28 (mask 4)"
    by (simp_all add: mask_eq_exp_minus_1 push_bit_eq_mult)
  have "bit (0xf0000000 :: u64) n \<Longrightarrow> n < 32" "bit (0xf0000000 :: u64) n \<longleftrightarrow> bit (0xf0000000 :: u32) n" for n
    unfolding f by (auto simp: bit_simps)
  note low = fold_low[where m = "0xf0000000" and k = "0xf0000000" and a = a, OF this, unfolded ab]
  show "a AND 0xf0000000 \<noteq> 0 \<longleftrightarrow> b AND 0xf0000000 \<noteq> 0" using low(1,2) by auto
  show "ucast ((a XOR drop_bit 24 (a AND 0xf0000000)) AND NOT (a AND 0xf0000000)) =
     (b XOR drop_bit 24 (b AND 0xf0000000)) AND NOT (b AND 0xf0000000)" by (rule low(3))
  show "ucast (a AND NOT (a AND 0xf0000000)) = b AND NOT (b AND 0xf0000000)" by (rule low(4))
qed

lemma ElfHash_loop_low: "ucast (ElfHash_loop h name) = elf_hash_loop (ucast h) name"
proof (induction name arbitrary: h)
  case (Cons c name)
  note low = ElfHash_step_low[of h c]
  show ?case unfolding ElfHash_loop.simps elf_hash_loop.simps Let_def Cons.IH if_distrib[where f = ucast]
    using low by (cases "(push_bit 4 (ucast h :: u32) + ucast c) AND 0xf0000000 = 0") simp_all
qed simp

lemma ElfHash_low: "ucast (ElfHash name) = elf_hash name"
  by (simp add: ElfHash_def elf_hash_def ElfHash_loop_low)

lemma ElfHash_small: "ElfHash name = ucast (elf_hash name) \<longleftrightarrow> ElfHash name < 0x100000000"
  unfolding ElfHash_low[symmetric] by (rule ucast_u32_u64)

text \<open>
  The low 32 bits of the mod's 64-bit ELF hash are the linker's hash, and the two values
  are the same exactly when the 64-bit one does not exceed 32 bits.  It does exceed them for
  the name \<open>xyihzQyp\<close>, which is then looked for in another bucket of three than the one the
  linker put it in.
\<close>

lemma elf_hash_agrees:
  "ucast (ElfHash name) = elf_hash name
   \<and> (ElfHash name = ucast (elf_hash name) \<longleftrightarrow> ElfHash name < 0x100000000)
   \<and> ElfHash (bytes ''xyihzQyp'') mod 3 = 1 \<and> elf_hash (bytes ''xyihzQyp'') mod 3 = 0"
proof -
  have "ElfHash (bytes ''xyihzQyp'') = 0x100000000" "elf_hash (bytes ''xyihzQyp'') = 0"
    by code_simp+
  then show ?thesis by (simp add: ElfHash_low ElfHash_small)
qed

end
