(* ===== verification/Lookup.thy ===== *)
theory Lookup
  imports Hashes Mem_Layout "HOL-Library.Multiset"
begin

text \<open>
  Versioned offset tables and their lookup by symbol name
  (\<open>source/lib/reloc/table/\<close>, \<open>source/lib/reloc/reloc.cpp\<close>, \<open>source/program/version.hpp\<close>,
  \<open>GameOffsetFromTable\<close> in \<open>source/program/d3/types/common.hpp\<close>): the hashed and sorted
  table, its static assertions, the binary search, and the address of a named offset.
\<close>

section \<open>Entries\<close>

definition s_ModuleIndexBitCount :: nat where "s_ModuleIndexBitCount = 4"

record LookupEntryBin =
  m_SymbolHash :: u32
  m_Offset :: u32
  m_ModuleIndex :: nat

record LookupEntry =
  le_ModuleIndex :: nat
  le_Offset :: u32
  le_Symbol :: string

text \<open>The bit fields keep 28 bits of the offset and 4 of the module index.\<close>

definition Convert :: "LookupEntry \<Rightarrow> LookupEntryBin" where
  "Convert e =
     \<lparr>m_SymbolHash = Compute (bytes (le_Symbol e)) 0,
      m_Offset = take_bit (32 - s_ModuleIndexBitCount) (le_Offset e),
      m_ModuleIndex = le_ModuleIndex e mod 2 ^ s_ModuleIndexBitCount\<rparr>"

section \<open>Tables\<close>

text \<open>The position of the first element equal to its successor, or the length.\<close>

fun adjacent_find :: "'a list \<Rightarrow> nat" where
  "adjacent_find [] = 0"
| "adjacent_find [x] = 1"
| "adjacent_find (x # y # xs) = (if x = y then 0 else Suc (adjacent_find (y # xs)))"

definition IsUnique :: "'a list \<Rightarrow> ('a \<Rightarrow> 'b) \<Rightarrow> bool" where
  "IsUnique lookups delegate \<longleftrightarrow> adjacent_find (map delegate lookups) = length (map delegate lookups)"

text \<open>\<open>std::sort\<close>; entries with equal hashes may come in another order there.\<close>

definition Sort :: "LookupEntryBin list \<Rightarrow> LookupEntryBin list" where "Sort input = sort_key m_SymbolHash input"

definition UNKNOWN :: int where "UNKNOWN = - 1"
definition DEFAULT :: int where "DEFAULT = 0"

record VersionedTable =
  s_Version :: int
  Table :: "LookupEntry list"

definition s_UnsortedTable :: "VersionedTable \<Rightarrow> LookupEntryBin list" where
  "s_UnsortedTable t = map Convert (Table t)"

definition s_SortedTable :: "VersionedTable \<Rightarrow> LookupEntryBin list" where
  "s_SortedTable t = Sort (s_UnsortedTable t)"

definition s_Count :: "VersionedTable list \<Rightarrow> nat" where "s_Count tables = length tables"

definition s_Versions :: "VersionedTable list \<Rightarrow> int list" where "s_Versions tables = map s_Version tables"

text \<open>
  The conditions the compiler checks: distinct versions, symbols and hashes, as far as
  \<open>IsUnique\<close> tells.
\<close>

definition unique_versions :: "VersionedTable list \<Rightarrow> bool" where
  "unique_versions tables \<longleftrightarrow> IsUnique (s_Versions tables) (\<lambda>v. v)"

definition unique_symbols :: "VersionedTable \<Rightarrow> bool" where
  "unique_symbols t \<longleftrightarrow> IsUnique (map le_Symbol (Table t)) (\<lambda>v. v)"

definition unique_hashes :: "VersionedTable \<Rightarrow> bool" where
  "unique_hashes t \<longleftrightarrow> IsUnique (s_SortedTable t) m_SymbolHash"

definition static_asserts :: "VersionedTable list \<Rightarrow> bool" where
  "static_asserts tables \<longleftrightarrow>
     unique_versions tables \<and> list_all unique_symbols tables \<and> list_all unique_hashes tables"

definition SIZE_MAX :: nat where "SIZE_MAX = 2 ^ 64 - 1"

definition FindTableIndex :: "VersionedTable list \<Rightarrow> int \<Rightarrow> nat" where
  "FindTableIndex tables ver =
     (let found = length (takeWhile (\<lambda>v. v \<noteq> ver) (s_Versions tables))
      in if found = length (s_Versions tables) then SIZE_MAX else found)"

text \<open>\<open>None\<close> is the abort for an index out of bounds.\<close>

definition GetTableByIndex :: "VersionedTable list \<Rightarrow> nat \<Rightarrow> LookupEntryBin list option" where
  "GetTableByIndex tables index =
     (if index < s_Count tables then Some (s_SortedTable (tables ! index)) else None)"

definition DoesTableExist :: "VersionedTable list \<Rightarrow> int \<Rightarrow> bool" where
  "DoesTableExist tables ver \<longleftrightarrow> FindTableIndex tables ver \<noteq> SIZE_MAX"

definition Get :: "VersionedTable list \<Rightarrow> int \<Rightarrow> LookupEntryBin list option" where
  "Get tables ver =
     (let index = FindTableIndex tables ver in
      if index = SIZE_MAX then None else GetTableByIndex tables index)"

section \<open>Lookup\<close>

text \<open>\<open>std::lower_bound\<close> on a sorted table.\<close>

definition lower_bound :: "LookupEntryBin list \<Rightarrow> u32 \<Rightarrow> nat" where
  "lower_bound entries h = length (takeWhile (\<lambda>e. m_SymbolHash e < h) entries)"

text \<open>
  The outer \<open>None\<close> is a read of the element past the end; the inner one the null pointer.
\<close>

definition FindByHash :: "LookupEntryBin list \<Rightarrow> u32 \<Rightarrow> LookupEntryBin option option" where
  "FindByHash entries h =
     (let low = lower_bound entries h in
      if length entries \<le> low then None
      else if m_SymbolHash (entries ! low) \<noteq> h then Some None
      else Some (Some (entries ! low)))"

definition FindByName :: "LookupEntryBin list \<Rightarrow> string \<Rightarrow> LookupEntryBin option option" where
  "FindByName entries s = FindByHash entries (Compute (bytes s) 0)"

datatype lookup_outcome = PastEnd | MissingEntry | NoModule | Address u64

definition GameOffset :: "ModuleInfo option list \<Rightarrow> u64 \<Rightarrow> u64 option" where
  "GameOffset infos offset =
     map_option (\<lambda>m. rg_start (m_Total m) + offset) (GetModuleInfo infos idx_Main)"

definition GameOffsetFromTable :: "LookupEntryBin list \<Rightarrow> ModuleInfo option list \<Rightarrow> string \<Rightarrow> lookup_outcome" where
  "GameOffsetFromTable entries infos name =
     (case FindByName entries name of
        None \<Rightarrow> PastEnd
      | Some None \<Rightarrow> MissingEntry
      | Some (Some entry) \<Rightarrow>
          (case GetModuleInfo infos (m_ModuleIndex entry) of
             None \<Rightarrow> NoModule
           | Some m \<Rightarrow> Address (rg_start (m_Total m) + ucast (m_Offset entry))))"

section \<open>The version of the game\<close>

text \<open>\<open>memcmp\<close> at an address; \<open>read8\<close> reads a byte.\<close>

definition matches_at :: "(u64 \<Rightarrow> char) \<Rightarrow> u64 \<Rightarrow> string \<Rightarrow> bool" where
  "matches_at read8 p needle \<longleftrightarrow> map (\<lambda>i. read8 (p + of_nat i)) [0..<length needle] = needle"

definition FindStringInRange :: "(u64 \<Rightarrow> char) \<Rightarrow> Range \<Rightarrow> string \<Rightarrow> u64 option" where
  "FindStringInRange read8 r needle =
     (if needle = [] \<or> unat (rg_size r) < length needle then None
      else map_option (\<lambda>i. rg_start r + of_nat i)
             (List.find (\<lambda>i. matches_at read8 (rg_start r + of_nat i) needle)
               [0..<unat (rg_size r) - length needle + 1]))"

definition DetermineUserVersion :: "(u64 \<Rightarrow> char) \<Rightarrow> string \<Rightarrow> ModuleInfo option list \<Rightarrow> int option" where
  "DetermineUserVersion read8 D3CLIENT_VER infos =
     map_option (\<lambda>m. if FindStringInRange read8 (m_Rodata m) D3CLIENT_VER \<noteq> None then DEFAULT else UNKNOWN)
       (GetModuleInfo infos idx_Main)"

section \<open>The cached table\<close>

record reloc_state =
  s_InitializeSucceeded :: bool
  s_CachedLookup :: "LookupEntryBin list"

definition reloc_start :: reloc_state where
  "reloc_start = \<lparr>s_InitializeSucceeded = False, s_CachedLookup = []\<rparr>"

text \<open>
  Whether \<open>Apply\<close> is called afterwards is the second component; \<open>None\<close> is the abort of \<open>Get\<close>.
\<close>

definition Initialize_reloc :: "VersionedTable list \<Rightarrow> int \<Rightarrow> reloc_state \<Rightarrow> (reloc_state \<times> bool) option" where
  "Initialize_reloc tables version st =
     (if s_Count tables = 0 then Some (st\<lparr>s_InitializeSucceeded := True\<rparr>, False)
      else if \<not> DoesTableExist tables version then Some (st\<lparr>s_InitializeSucceeded := False\<rparr>, False)
      else
        case Get tables version of
          None \<Rightarrow> None
        | Some entries \<Rightarrow> Some (st\<lparr>s_InitializeSucceeded := True, s_CachedLookup := entries\<rparr>, True))"

section \<open>What the assertions say\<close>

lemma adjacent_find_le: "adjacent_find xs \<le> length xs"
  by (induction xs rule: adjacent_find.induct) auto

lemma adjacent_find_end: "adjacent_find xs = length xs \<longleftrightarrow> successively (\<noteq>) xs"
  by (induction xs rule: adjacent_find.induct) auto

text \<open>On a sorted list no equal neighbours means no equal elements.\<close>

lemma sorted_unique:
  fixes xs :: "'a :: linorder list"
  assumes "sorted xs" "adjacent_find xs = length xs"
  shows "sorted_wrt (<) xs"
proof -
  have "successively (<) xs"
    using assms unfolding adjacent_find_end
    by (induction xs rule: adjacent_find.induct) auto
  then show ?thesis by (simp add: successively_iff_sorted_wrt_strong transp_on_less)
qed

lemma unique_hashes_strict:
  assumes "unique_hashes t"
  shows "sorted_wrt (<) (map m_SymbolHash (s_SortedTable t))"
  using assms unfolding unique_hashes_def IsUnique_def
  by (intro sorted_unique) (simp_all add: s_SortedTable_def Sort_def)

lemma set_SortedTable: "set (s_SortedTable t) = Convert ` set (Table t)"
  by (simp add: s_SortedTable_def Sort_def s_UnsortedTable_def)

section \<open>Lookup in a sorted table\<close>

lemma lower_bound_at:
  assumes "sorted_wrt (<) (map m_SymbolHash entries)" "e \<in> set entries" "m_SymbolHash e = h"
  shows "lower_bound entries h < length entries \<and> entries ! lower_bound entries h = e"
  using assms
proof (induction entries)
  case (Cons a entries)
  then show ?case by (auto simp: lower_bound_def)
qed simp

lemma FindByHash_hit:
  assumes "sorted_wrt (<) (map m_SymbolHash entries)" "e \<in> set entries"
  shows "FindByHash entries (m_SymbolHash e) = Some (Some e)"
  using lower_bound_at[OF assms refl] by (simp add: FindByHash_def Let_def)

lemma lower_bound_end: "length entries \<le> lower_bound entries h \<longleftrightarrow> (\<forall>e \<in> set entries. m_SymbolHash e < h)"
  by (induction entries) (auto simp: lower_bound_def)

lemma FindByHash_end: "FindByHash entries h = None \<longleftrightarrow> (\<forall>e \<in> set entries. m_SymbolHash e < h)"
  by (simp add: FindByHash_def Let_def flip: lower_bound_end)

lemma FindByHash_sound:
  assumes "FindByHash entries h = Some (Some e)"
  shows "e \<in> set entries \<and> m_SymbolHash e = h"
  using assms by (auto simp: FindByHash_def Let_def not_le split: if_splits) (metis nth_mem)

lemma Initialize_reloc_entries:
  assumes "List.find (\<lambda>t. s_Version t = ver) tables = Some t" "length tables < SIZE_MAX"
  shows "Initialize_reloc tables ver st =
    Some (st\<lparr>s_InitializeSucceeded := True, s_CachedLookup := s_SortedTable t\<rparr>, True)"
proof -
  obtain i where i: "i < length tables" "s_Version (tables ! i) = ver" "t = tables ! i"
    "\<forall>j < i. s_Version (tables ! j) \<noteq> ver"
    using assms(1) by (auto simp: find_Some_iff)
  have "length (takeWhile (\<lambda>v. v \<noteq> ver) (map s_Version tables)) = i"
    using i by (subst takeWhile_eq_take_P_nth[of i]) auto
  then have "FindTableIndex tables ver = i"
    using i(1) by (simp add: FindTableIndex_def s_Versions_def)
  then show ?thesis
    using i(1,3) assms(2) by (auto simp: Initialize_reloc_def DoesTableExist_def Get_def GetTableByIndex_def s_Count_def)
qed

lemma distinct_symbols:
  assumes "unique_hashes t"
  shows "distinct (map le_Symbol (Table t))"
proof -
  have "distinct (map m_SymbolHash (s_SortedTable t))"
    using unique_hashes_strict[OF assms] by (simp add: strict_sorted_iff)
  moreover have "mset (map m_SymbolHash (s_SortedTable t)) = mset (map m_SymbolHash (map Convert (Table t)))"
    by (simp add: s_SortedTable_def Sort_def s_UnsortedTable_def multiset.map_comp)
  ultimately have "distinct (map m_SymbolHash (map Convert (Table t)))"
    by (metis mset_eq_imp_distinct_iff)
  then have "distinct (map (\<lambda>s. Compute (bytes s) 0) (map le_Symbol (Table t)))"
    by (simp add: comp_def Convert_def)
  then show ?thesis by (auto simp: distinct_map intro: inj_on_imageI2)
qed

lemma find_in_table:
  assumes "unique_hashes t" "e \<in> set (Table t)"
  shows "FindByName (s_SortedTable t) (le_Symbol e) = Some (Some (Convert e))"
  using FindByHash_hit[OF unique_hashes_strict[OF assms(1)], of "Convert e"] assms(2)
  by (simp add: FindByName_def set_SortedTable) (simp add: Convert_def)

section \<open>Properties\<close>

text \<open>
  C19: Lookup by name is correct once the tables compile.  For the first table of the game's
  version its symbols are distinct, every symbol is found with its own entry, and an entry
  that is found has the hash of the name.  A name is reported missing only if no entry has
  its hash and some entry has a greater one; a hash above all entries makes the lookup read
  past the table.
\<close>

theorem lookup_resolves:
  assumes "static_asserts tables" "List.find (\<lambda>t. s_Version t = ver) tables = Some t" "length tables < SIZE_MAX"
  shows "\<exists>st'. Initialize_reloc tables ver st = Some (st', True) \<and> distinct (map le_Symbol (Table t))
    \<and> (\<forall>e \<in> set (Table t). FindByName (s_CachedLookup st') (le_Symbol e) = Some (Some (Convert e)))
    \<and> (\<forall>name b. FindByName (s_CachedLookup st') name = Some (Some b) \<longrightarrow>
         m_SymbolHash b = Compute (bytes name) 0 \<and> b \<in> Convert ` set (Table t))
    \<and> (\<forall>name. FindByName (s_CachedLookup st') name = Some None \<longrightarrow>
         (\<forall>e \<in> set (Table t). Compute (bytes (le_Symbol e)) 0 \<noteq> Compute (bytes name) 0))
    \<and> (\<forall>name. FindByName (s_CachedLookup st') name = None \<longleftrightarrow>
         (\<forall>e \<in> set (Table t). Compute (bytes (le_Symbol e)) 0 < Compute (bytes name) 0))"
proof -
  have u: "unique_hashes t"
    using assms(1,2) by (auto simp: static_asserts_def list_all_iff find_Some_iff)
  let ?es = "s_SortedTable t"
  note strict = unique_hashes_strict[OF u]
  have miss: "\<forall>e \<in> set (Table t). Compute (bytes (le_Symbol e)) 0 \<noteq> Compute (bytes name) 0"
    if "FindByName ?es name = Some None" for name
  proof
    fix e assume "e \<in> set (Table t)"
    then have "FindByHash ?es (Compute (bytes (le_Symbol e)) 0) = Some (Some (Convert e))"
      using find_in_table[OF u] by (simp add: FindByName_def)
    then show "Compute (bytes (le_Symbol e)) 0 \<noteq> Compute (bytes name) 0"
      using that by (auto simp: FindByName_def)
  qed
  have past: "FindByName ?es name = None \<longleftrightarrow> (\<forall>e \<in> set (Table t). Compute (bytes (le_Symbol e)) 0 < Compute (bytes name) 0)"
    for name
    unfolding FindByName_def FindByHash_end set_SortedTable by (simp add: Convert_def)
  have sound: "m_SymbolHash b = Compute (bytes name) 0 \<and> b \<in> Convert ` set (Table t)"
    if "FindByName ?es name = Some (Some b)" for name b
    using FindByHash_sound that by (metis FindByName_def set_SortedTable)
  show ?thesis
    using Initialize_reloc_entries[OF assms(2,3)] distinct_symbols[OF u] find_in_table[OF u] sound miss past
    by simp
qed

definition two_names :: VersionedTable where
  "two_names = \<lparr>s_Version = DEFAULT, Table =
     [\<lparr>le_ModuleIndex = 1, le_Offset = 0x480, le_Symbol = ''a''\<rparr>, \<lparr>le_ModuleIndex = 1, le_Offset = 0x500, le_Symbol = ''b''\<rparr>]\<rparr>"

lemma hash_names: "Compute (bytes ''a'') 0 = 0x3c2569b2" "Compute (bytes ''b'') 0 = 0x95de7e03"
  by code_simp+

lemma two_names_sorted: "s_SortedTable two_names =
    [\<lparr>m_SymbolHash = 0x3c2569b2, m_Offset = 0x480, m_ModuleIndex = 1\<rparr>, \<lparr>m_SymbolHash = 0x95de7e03, m_Offset = 0x500, m_ModuleIndex = 1\<rparr>]"
  by (simp add: s_SortedTable_def Sort_def s_UnsortedTable_def two_names_def Convert_def hash_names
      s_ModuleIndexBitCount_def take_bit_eq_mod)

lemma two_names_compile: "static_asserts [two_names]"
  by (simp add: static_asserts_def unique_versions_def unique_symbols_def unique_hashes_def IsUnique_def
      s_Versions_def two_names_sorted) (simp add: two_names_def)

theorem lookup_resolves_witness:
  "\<exists>st'. Initialize_reloc [two_names] DEFAULT reloc_start = Some (st', True)
     \<and> FindByName (s_CachedLookup st') ''a'' =
       Some (Some \<lparr>m_SymbolHash = 0x3c2569b2, m_Offset = 0x480, m_ModuleIndex = 1\<rparr>)"
proof -
  have e: "\<lparr>le_ModuleIndex = 1, le_Offset = 0x480, le_Symbol = ''a''\<rparr> \<in> set (Table two_names)"
    by (simp add: two_names_def)
  have "List.find (\<lambda>t. s_Version t = DEFAULT) [two_names] = Some two_names" "length [two_names] < SIZE_MAX"
    by (simp_all add: two_names_def SIZE_MAX_def)
  from lookup_resolves[OF two_names_compile this, of reloc_start] e
  show ?thesis
    by (force simp: Convert_def hash_names s_ModuleIndexBitCount_def take_bit_eq_mod)
qed

end
