(* ===== verification/Rtld.thy ===== *)
theory Rtld
  imports Lookup
begin

text \<open>
  The run-time linker (\<open>source/rtld/\<close>, \<open>source/rtld.hpp\<close>) and the relocation of the
  mod's own imports to looked-up offsets (\<open>source/lib/reloc/table/lookup.cpp\<close>,
  \<open>reloc.hpp\<close>).  The linker's tables are read-only functions of an address, the words that
  relocations write are a map from addresses to 64-bit words.
\<close>

section \<open>ELF structures\<close>

text \<open>The values are those of the ELF and AArch64 ABIs that \<open>elf.h\<close> gives.\<close>

definition DT_NULL :: u64 where "DT_NULL = 0"
definition DT_PLTRELSZ :: u64 where "DT_PLTRELSZ = 2"
definition DT_PLTGOT :: u64 where "DT_PLTGOT = 3"
definition DT_HASH :: u64 where "DT_HASH = 4"
definition DT_STRTAB :: u64 where "DT_STRTAB = 5"
definition DT_SYMTAB :: u64 where "DT_SYMTAB = 6"
definition DT_RELA :: u64 where "DT_RELA = 7"
definition DT_RELASZ :: u64 where "DT_RELASZ = 8"
definition DT_RELAENT :: u64 where "DT_RELAENT = 9"
definition DT_STRSZ :: u64 where "DT_STRSZ = 10"
definition DT_SYMENT :: u64 where "DT_SYMENT = 11"
definition DT_INIT :: u64 where "DT_INIT = 12"
definition DT_FINI :: u64 where "DT_FINI = 13"
definition DT_REL :: u64 where "DT_REL = 17"
definition DT_RELSZ :: u64 where "DT_RELSZ = 18"
definition DT_RELENT :: u64 where "DT_RELENT = 19"
definition DT_PLTREL :: u64 where "DT_PLTREL = 20"
definition DT_JMPREL :: u64 where "DT_JMPREL = 23"
definition DT_RELACOUNT :: u64 where "DT_RELACOUNT = 0x6ffffff9"
definition DT_RELCOUNT :: u64 where "DT_RELCOUNT = 0x6ffffffa"

lemmas DT_defs =
  DT_NULL_def DT_PLTRELSZ_def DT_PLTGOT_def DT_HASH_def DT_STRTAB_def DT_SYMTAB_def DT_RELA_def DT_RELASZ_def
  DT_RELAENT_def DT_STRSZ_def DT_SYMENT_def DT_INIT_def DT_FINI_def DT_REL_def DT_RELSZ_def DT_RELENT_def
  DT_PLTREL_def DT_JMPREL_def DT_RELACOUNT_def DT_RELCOUNT_def

definition ARCH_RELATIVE :: u32 where "ARCH_RELATIVE = 1027"
definition ARCH_JUMP_SLOT :: u32 where "ARCH_JUMP_SLOT = 1026"
definition ARCH_GLOB_DAT :: u32 where "ARCH_GLOB_DAT = 1025"
definition ARCH_IS_REL_ABSOLUTE :: "u32 \<Rightarrow> bool" where "ARCH_IS_REL_ABSOLUTE t \<longleftrightarrow> t = 258 \<or> t = 257"
definition SHN_COMMON :: u16 where "SHN_COMMON = 0xfff2"
definition STB_WEAK :: u8 where "STB_WEAK = 2"

record Elf_Dyn =
  d_tag :: u64
  d_val :: u64

record Elf_Rel =
  r_offset :: u64
  r_info :: u64

record Elf_Rela =
  ra_offset :: u64
  ra_info :: u64
  ra_addend :: s64

record Elf_Sym =
  st_name :: u32
  st_info :: u8
  st_other :: u8
  st_shndx :: u16
  st_value :: u64

definition ELF_R_SYM :: "u64 \<Rightarrow> u64" where "ELF_R_SYM i = drop_bit 32 i"
definition ELF_R_TYPE :: "u64 \<Rightarrow> u32" where "ELF_R_TYPE i = ucast i"
definition ELF_ST_BIND :: "u8 \<Rightarrow> u8" where "ELF_ST_BIND i = drop_bit 4 i"
definition ELF_ST_VISIBILITY :: "u8 \<Rightarrow> u8" where "ELF_ST_VISIBILITY i = i AND 3"

definition sizeof_Rel :: u64 where "sizeof_Rel = 16"
definition sizeof_Rela :: u64 where "sizeof_Rela = 24"
definition sizeof_Sym :: u64 where "sizeof_Sym = 24"

text \<open>What lies in memory at an address and is only read.\<close>

record image =
  rel_at :: "u64 \<Rightarrow> Elf_Rel"
  rela_at :: "u64 \<Rightarrow> Elf_Rela"
  sym_at :: "u64 \<Rightarrow> Elf_Sym"
  str_at :: "u64 \<Rightarrow> string"
  word32_at :: "u64 \<Rightarrow> u32"

type_synonym words = "u64 \<Rightarrow> u64"

section \<open>Module objects\<close>

record ModuleObject =
  rela_or_rel_plt :: u64
  rela_or_rel :: u64
  module_base :: u64
  dynamic :: u64
  is_rela :: bool
  rela_or_rel_plt_size :: u64
  dt_init :: u64
  dt_fini :: u64
  hash_bucket :: u64
  hash_chain :: u64
  dynstr :: u64
  dynsym :: u64
  dynstr_size :: u64
  got :: u64
  rela_dyn_size :: u64
  rel_dyn_size :: u64
  rel_count :: u64
  rela_count :: u64
  hash_nchain_value :: u64
  hash_nbucket_value :: u64
  got_stub_ptr :: u64

definition no_object :: ModuleObject where
  "no_object = \<lparr>rela_or_rel_plt = 0, rela_or_rel = 0, module_base = 0, dynamic = 0, is_rela = False,
     rela_or_rel_plt_size = 0, dt_init = 0, dt_fini = 0, hash_bucket = 0, hash_chain = 0, dynstr = 0, dynsym = 0,
     dynstr_size = 0, got = 0, rela_dyn_size = 0, rel_dyn_size = 0, rel_count = 0, rela_count = 0,
     hash_nchain_value = 0, hash_nbucket_value = 0, got_stub_ptr = 0\<rparr>"

text \<open>What the initialisation resets; the counts and the hash table sizes keep their values.\<close>

definition reset_object :: "u64 \<Rightarrow> u64 \<Rightarrow> ModuleObject \<Rightarrow> ModuleObject" where
  "reset_object aslr_base dyn this =
     this\<lparr>is_rela := False, module_base := aslr_base, dynamic := dyn, rela_or_rel_plt_size := 0, dt_init := 0,
       dt_fini := 0, hash_bucket := 0, hash_chain := 0, dynstr := 0, dynsym := 0, dynstr_size := 0,
       rela_or_rel := 0, got := 0, rela_dyn_size := 0, rel_dyn_size := 0, got_stub_ptr := 0\<rparr>"

text \<open>One dynamic entry; the second component is \<open>rel_plt\<close>, \<open>None\<close> a failed assertion.\<close>

definition dynamic_entry :: "image \<Rightarrow> u64 \<Rightarrow> Elf_Dyn \<Rightarrow> ModuleObject \<times> u64 \<Rightarrow> (ModuleObject \<times> u64) option" where
  "dynamic_entry img aslr_base d = (\<lambda>(this, rel_plt).
     if d_tag d = DT_PLTRELSZ then Some (this\<lparr>rela_or_rel_plt_size := d_val d\<rparr>, rel_plt)
     else if d_tag d = DT_PLTGOT then Some (this\<lparr>got := aslr_base + d_val d\<rparr>, rel_plt)
     else if d_tag d = DT_HASH then
       (let hash_table = aslr_base + d_val d;
            nbucket = word32_at img hash_table;
            nchain = word32_at img (hash_table + 4)
        in Some (this\<lparr>hash_nbucket_value := ucast nbucket, hash_nchain_value := ucast nchain,
             hash_bucket := hash_table + 8, hash_chain := hash_table + 4 * (2 + ucast nbucket)\<rparr>, rel_plt))
     else if d_tag d = DT_STRTAB then Some (this\<lparr>dynstr := aslr_base + d_val d\<rparr>, rel_plt)
     else if d_tag d = DT_SYMTAB then Some (this\<lparr>dynsym := aslr_base + d_val d\<rparr>, rel_plt)
     else if d_tag d = DT_REL then Some (this\<lparr>rela_or_rel := aslr_base + d_val d\<rparr>, rel_plt)
     else if d_tag d = DT_RELA then Some (this\<lparr>rela_or_rel := aslr_base + d_val d\<rparr>, rel_plt)
     else if d_tag d = DT_RELASZ then Some (this\<lparr>rela_dyn_size := d_val d\<rparr>, rel_plt)
     else if d_tag d = DT_RELAENT then (if d_val d = sizeof_Rela then Some (this, rel_plt) else None)
     else if d_tag d = DT_SYMENT then (if d_val d = sizeof_Sym then Some (this, rel_plt) else None)
     else if d_tag d = DT_STRSZ then Some (this\<lparr>dynstr_size := d_val d\<rparr>, rel_plt)
     else if d_tag d = DT_INIT then Some (this\<lparr>dt_init := aslr_base + d_val d\<rparr>, rel_plt)
     else if d_tag d = DT_FINI then Some (this\<lparr>dt_fini := aslr_base + d_val d\<rparr>, rel_plt)
     else if d_tag d = DT_RELSZ then Some (this\<lparr>rel_dyn_size := d_val d\<rparr>, rel_plt)
     else if d_tag d = DT_RELENT then (if d_val d = sizeof_Rel then Some (this, rel_plt) else None)
     else if d_tag d = DT_PLTREL then
       (let value = d_val d in
        if value = DT_REL \<or> value = DT_RELA then Some (this\<lparr>is_rela := value = DT_RELA\<rparr>, rel_plt) else None)
     else if d_tag d = DT_JMPREL then Some (this, aslr_base + d_val d)
     else if d_tag d = DT_RELACOUNT then Some (this\<lparr>rela_count := d_val d\<rparr>, rel_plt)
     else if d_tag d = DT_RELCOUNT then Some (this\<lparr>rel_count := d_val d\<rparr>, rel_plt)
     else Some (this, rel_plt))"

text \<open>The loop up to \<open>DT_NULL\<close>; \<open>None\<close> also stands for a section without one.\<close>

fun dynamic_loop :: "image \<Rightarrow> u64 \<Rightarrow> Elf_Dyn list \<Rightarrow> ModuleObject \<times> u64 \<Rightarrow> (ModuleObject \<times> u64) option" where
  "dynamic_loop img aslr_base [] st = None"
| "dynamic_loop img aslr_base (d # ds) st =
     (if d_tag d = DT_NULL then Some st
      else Option.bind (dynamic_entry img aslr_base d st) (dynamic_loop img aslr_base ds))"

definition Initialize_object :: "image \<Rightarrow> u64 \<Rightarrow> u64 \<Rightarrow> Elf_Dyn list \<Rightarrow> ModuleObject \<Rightarrow> ModuleObject option" where
  "Initialize_object img aslr_base dyn ds this =
     map_option (\<lambda>(this, rel_plt). this\<lparr>rela_or_rel_plt := rel_plt\<rparr>)
       (dynamic_loop img aslr_base ds (reset_object aslr_base dyn this, 0))"

section \<open>Relative relocations\<close>

definition relative_rel :: "u64 \<Rightarrow> Elf_Rel \<Rightarrow> words \<Rightarrow> words" where
  "relative_rel base entry w =
     (if ELF_R_TYPE (r_info entry) = ARCH_RELATIVE
      then w(base + r_offset entry := w (base + r_offset entry) + base) else w)"

definition relative_rela :: "u64 \<Rightarrow> Elf_Rela \<Rightarrow> words \<Rightarrow> words" where
  "relative_rela base entry w =
     (if ELF_R_TYPE (ra_info entry) = ARCH_RELATIVE
      then w(base + ra_offset entry := base + ra_addend entry) else w)"

definition Relocate :: "image \<Rightarrow> ModuleObject \<Rightarrow> words \<Rightarrow> words" where
  "Relocate img this w =
     (let w = fold (\<lambda>i. relative_rel (module_base this) (rel_at img (rela_or_rel this + of_nat i * sizeof_Rel)))
                [0..<unat (rel_count this)] w
      in fold (\<lambda>i. relative_rela (module_base this) (rela_at img (rela_or_rel this + of_nat i * sizeof_Rela)))
           [0..<unat (rela_count this)] w)"

text \<open>
  The relocation of the mod by itself, before anything else runs: table addresses, entry
  sizes, counts and sizes of the two tables.
\<close>

record self_tables =
  sf_rela :: u64
  sf_rel :: u64
  rela_entry_size :: u64
  rel_entry_size :: u64
  rela_entry_count :: u64
  rel_entry_count :: u64
  sf_rela_size :: u64
  sf_rel_size :: u64

definition self_start :: self_tables where
  "self_start = \<lparr>sf_rela = 0, sf_rel = 0, rela_entry_size = sizeof_Rela, rel_entry_size = sizeof_Rel,
     rela_entry_count = 0, rel_entry_count = 0, sf_rela_size = 0, sf_rel_size = 0\<rparr>"

definition self_entry :: "u64 \<Rightarrow> Elf_Dyn \<Rightarrow> self_tables \<Rightarrow> self_tables" where
  "self_entry aslr_base d s =
     (if d_tag d = DT_RELA then s\<lparr>sf_rela := aslr_base + d_val d\<rparr>
      else if d_tag d = DT_RELAENT then s\<lparr>rela_entry_size := d_val d\<rparr>
      else if d_tag d = DT_RELASZ then s\<lparr>sf_rela_size := d_val d\<rparr>
      else if d_tag d = DT_REL then s\<lparr>sf_rel := aslr_base + d_val d\<rparr>
      else if d_tag d = DT_RELENT then s\<lparr>rel_entry_size := d_val d\<rparr>
      else if d_tag d = DT_RELSZ then s\<lparr>sf_rel_size := d_val d\<rparr>
      else if d_tag d = DT_RELACOUNT then s\<lparr>rela_entry_count := d_val d\<rparr>
      else if d_tag d = DT_RELCOUNT then s\<lparr>rel_entry_count := d_val d\<rparr>
      else s)"

fun self_loop :: "u64 \<Rightarrow> Elf_Dyn list \<Rightarrow> self_tables \<Rightarrow> self_tables option" where
  "self_loop aslr_base [] s = None"
| "self_loop aslr_base (d # ds) s =
     (if d_tag d = DT_NULL then Some s else self_loop aslr_base ds (self_entry aslr_base d s))"

definition self_counts :: "self_tables \<Rightarrow> self_tables" where
  "self_counts s =
     (let s = (if rela_entry_count s = 0 then s\<lparr>rela_entry_count := sf_rela_size s div rela_entry_size s\<rparr> else s)
      in if rel_entry_count s = 0 then s\<lparr>rel_entry_count := sf_rel_size s div rel_entry_size s\<rparr> else s)"

definition exl_relocate_self :: "image \<Rightarrow> u64 \<Rightarrow> Elf_Dyn list \<Rightarrow> words \<Rightarrow> words option" where
  "exl_relocate_self img aslr_base ds w =
     map_option (\<lambda>s.
       let s = self_counts s;
           w = fold (\<lambda>i. relative_rel aslr_base (rel_at img (sf_rel s + of_nat i * rel_entry_size s)))
                 [0..<unat (rel_entry_count s)] w
       in fold (\<lambda>i. relative_rela aslr_base (rela_at img (sf_rela s + of_nat i * rela_entry_size s)))
            [0..<unat (rela_entry_count s)] w)
       (self_loop aslr_base ds self_start)"

section \<open>Symbols\<close>

text \<open>The linker's copy of the hash has the same body.\<close>

definition rtld_elf_hash :: "u8 list \<Rightarrow> u64" where "rtld_elf_hash name = ElfHash_loop 0 name"

definition sym_addr :: "ModuleObject \<Rightarrow> u64 \<Rightarrow> u64" where "sym_addr this i = dynsym this + i * sizeof_Sym"

definition is_common :: "Elf_Sym \<Rightarrow> bool" where
  "is_common s \<longleftrightarrow> (if st_shndx s \<noteq> 0 then st_shndx s = SHN_COMMON else True)"

text \<open>The chain of a bucket; \<open>None\<close> is no fuel, the inner \<open>None\<close> the null pointer.\<close>

fun chain_walk :: "nat \<Rightarrow> image \<Rightarrow> ModuleObject \<Rightarrow> string \<Rightarrow> u32 \<Rightarrow> u64 option option" where
  "chain_walk 0 img this name i = None"
| "chain_walk (Suc n) img this name i =
     (if i = 0 then Some None
      else
        let s = sym_at img (sym_addr this (ucast i)) in
        if \<not> is_common s \<and> name = str_at img (dynstr this + ucast (st_name s))
        then Some (Some (sym_addr this (ucast i)))
        else chain_walk n img this name (word32_at img (hash_chain this + 4 * ucast i)))"

definition GetSymbolByName :: "nat \<Rightarrow> image \<Rightarrow> ModuleObject \<Rightarrow> string \<Rightarrow> u64 option option" where
  "GetSymbolByName fuel img this name =
     chain_walk fuel img this name
       (word32_at img (hash_bucket this + 4 * (rtld_elf_hash (bytes name) mod hash_nbucket_value this)))"

text \<open>The modules of the list from back to front; a symbol of local binding is passed over.\<close>

fun lookup_global_auto :: "nat \<Rightarrow> image \<Rightarrow> ModuleObject list \<Rightarrow> string \<Rightarrow> u64 option" where
  "lookup_global_auto fuel img [] name = Some 0"
| "lookup_global_auto fuel img (m # ms) name =
     (case GetSymbolByName fuel img m name of
        None \<Rightarrow> None
      | Some (Some a) \<Rightarrow>
          (if ELF_ST_BIND (st_info (sym_at img a)) \<noteq> 0 then Some (module_base m + st_value (sym_at img a))
           else lookup_global_auto fuel img ms name)
      | Some None \<Rightarrow> lookup_global_auto fuel img ms name)"

text \<open>
  \<open>ms\<close> is the auto-load list, \<open>manual\<close> the optional manual lookup.  \<open>Some None\<close> is false.
\<close>

definition TryResolveSymbol ::
  "nat \<Rightarrow> image \<Rightarrow> ModuleObject list \<Rightarrow> (string \<Rightarrow> u64) option \<Rightarrow> ModuleObject \<Rightarrow> Elf_Sym \<Rightarrow> u64 option option" where
  "TryResolveSymbol fuel img ms manual this symbol =
     (let name = str_at img (dynstr this + ucast (st_name symbol)) in
      if ELF_ST_VISIBILITY (st_other symbol) \<noteq> 0 then
        (case GetSymbolByName fuel img this name of
           None \<Rightarrow> None
         | Some (Some a) \<Rightarrow> Some (Some (module_base this + st_value (sym_at img a)))
         | Some None \<Rightarrow>
             if ELF_ST_BIND (st_info symbol) AND STB_WEAK = STB_WEAK then Some (Some 0) else Some None)
      else
        (case lookup_global_auto fuel img ms name of
           None \<Rightarrow> None
         | Some address \<Rightarrow>
             let address = (if address = 0 then (case manual of Some f \<Rightarrow> f name | None \<Rightarrow> address) else address)
             in if address \<noteq> 0 then Some (Some address) else Some None))"

text \<open>
  The resolution of one entry: \<open>resolve\<close> is \<open>TryResolveSymbol\<close> of the symbol at an index.
  The state is the words and the stub pointer; \<open>None\<close> is no fuel or a failed assertion.
\<close>

type_synonym resolver = "u64 \<Rightarrow> u64 option option"

definition ResolveSymbolRelAbsolute :: "resolver \<Rightarrow> u64 \<Rightarrow> Elf_Rel \<Rightarrow> words \<times> u64 \<Rightarrow> (words \<times> u64) option" where
  "ResolveSymbolRelAbsolute resolve base entry = (\<lambda>(w, stub).
     let r_type = ELF_R_TYPE (r_info entry); target = base + r_offset entry in
     if ARCH_IS_REL_ABSOLUTE r_type \<or> r_type = ARCH_GLOB_DAT then
       (case resolve (ELF_R_SYM (r_info entry)) of
          None \<Rightarrow> None
        | Some (Some a) \<Rightarrow> Some (w(target := w target + a), stub)
        | Some None \<Rightarrow> Some (w, stub))
     else Some (w, stub))"

definition ResolveSymbolRelaAbsolute :: "resolver \<Rightarrow> u64 \<Rightarrow> Elf_Rela \<Rightarrow> words \<times> u64 \<Rightarrow> (words \<times> u64) option" where
  "ResolveSymbolRelaAbsolute resolve base entry = (\<lambda>(w, stub).
     let r_type = ELF_R_TYPE (ra_info entry); target = base + ra_offset entry in
     if ARCH_IS_REL_ABSOLUTE r_type \<or> r_type = ARCH_GLOB_DAT then
       (case resolve (ELF_R_SYM (ra_info entry)) of
          None \<Rightarrow> None
        | Some (Some a) \<Rightarrow> Some (w(target := a + ra_addend entry), stub)
        | Some None \<Rightarrow> Some (w, stub))
     else Some (w, stub))"

definition check_stub :: "u64 \<Rightarrow> u64 \<Rightarrow> u64 option" where
  "check_stub stub target_address =
     (if stub \<noteq> 0 then (if stub = target_address then Some stub else None) else Some target_address)"

definition ResolveSymbolRelJumpSlot :: "resolver \<Rightarrow> u64 \<Rightarrow> bool \<Rightarrow> Elf_Rel \<Rightarrow> words \<times> u64 \<Rightarrow> (words \<times> u64) option" where
  "ResolveSymbolRelJumpSlot resolve base do_lazy_got_init entry = (\<lambda>(w, stub).
     if ELF_R_TYPE (r_info entry) = ARCH_JUMP_SLOT then
       (let target = base + r_offset entry; target_address = base + w target;
            w = (if do_lazy_got_init then w(target := target_address) else w)
        in case check_stub stub target_address of
             None \<Rightarrow> None
           | Some stub \<Rightarrow>
               if do_lazy_got_init then Some (w, stub)
               else (case resolve (ELF_R_SYM (r_info entry)) of
                       None \<Rightarrow> None
                     | Some (Some a) \<Rightarrow> Some (w(target := w target + a), stub)
                     | Some None \<Rightarrow> Some (w(target := target_address), stub)))
     else Some (w, stub))"

definition ResolveSymbolRelaJumpSlot :: "resolver \<Rightarrow> u64 \<Rightarrow> bool \<Rightarrow> Elf_Rela \<Rightarrow> words \<times> u64 \<Rightarrow> (words \<times> u64) option" where
  "ResolveSymbolRelaJumpSlot resolve base do_lazy_got_init entry = (\<lambda>(w, stub).
     if ELF_R_TYPE (ra_info entry) = ARCH_JUMP_SLOT then
       (let target = base + ra_offset entry; target_address = base + w target;
            w = (if do_lazy_got_init then w(target := target_address) else w)
        in case check_stub stub target_address of
             None \<Rightarrow> None
           | Some stub \<Rightarrow>
               if do_lazy_got_init then Some (w, stub)
               else (case resolve (ELF_R_SYM (ra_info entry)) of
                       None \<Rightarrow> None
                     | Some (Some a) \<Rightarrow> Some (w(target := a + ra_addend entry), stub)
                     | Some None \<Rightarrow> Some (w(target := target_address), stub)))
     else Some (w, stub))"

fun fold_option :: "('a \<Rightarrow> 's \<Rightarrow> 's option) \<Rightarrow> 'a list \<Rightarrow> 's \<Rightarrow> 's option" where
  "fold_option f [] s = Some s"
| "fold_option f (x # xs) s = Option.bind (f x s) (fold_option f xs)"

text \<open>\<open>self\<close> is the address of the object and \<open>runtime_resolve\<close> that of the lazy binding stub.\<close>

definition ResolveSymbols ::
  "nat \<Rightarrow> image \<Rightarrow> ModuleObject list \<Rightarrow> (string \<Rightarrow> u64) option \<Rightarrow> u64 \<Rightarrow> u64 \<Rightarrow> bool
     \<Rightarrow> ModuleObject \<Rightarrow> words \<Rightarrow> (ModuleObject \<times> words) option" where
  "ResolveSymbols fuel img ms manual self runtime_resolve do_lazy_got_init this w =
     (let resolve = (\<lambda>i. TryResolveSymbol fuel img ms manual this (sym_at img (sym_addr this i)));
          base = module_base this;
          rel = (\<lambda>table i. rel_at img (table + of_nat i * sizeof_Rel));
          rela = (\<lambda>table i. rela_at img (table + of_nat i * sizeof_Rela));
          dyn = Option.bind
            (fold_option (\<lambda>i. ResolveSymbolRelAbsolute resolve base (rel (rela_or_rel this) i))
               [unat (rel_count this)..<unat (rel_dyn_size this div sizeof_Rel)] (w, got_stub_ptr this))
            (fold_option (\<lambda>i. ResolveSymbolRelaAbsolute resolve base (rela (rela_or_rel this) i))
               [unat (rela_count this)..<unat (rela_dyn_size this div sizeof_Rela)]);
          plt = Option.bind dyn
            (if is_rela this
             then (if rela_or_rel_plt_size this \<ge> sizeof_Rela
                   then fold_option (\<lambda>i. ResolveSymbolRelaJumpSlot resolve base do_lazy_got_init (rela (rela_or_rel_plt this) i))
                          [0..<unat (rela_or_rel_plt_size this div sizeof_Rela)]
                   else Some)
             else if rela_or_rel_plt_size this \<ge> sizeof_Rel
             then fold_option (\<lambda>i. ResolveSymbolRelJumpSlot resolve base do_lazy_got_init (rel (rela_or_rel_plt this) i))
                    [0..<unat (rela_or_rel_plt_size this div sizeof_Rel)]
             else Some)
      in map_option (\<lambda>(w, stub).
           (this\<lparr>got_stub_ptr := stub\<rparr>,
            if got this \<noteq> 0 then w(got this + 8 := self, got this + 16 := runtime_resolve) else w)) plt)"

text \<open>Lazy binding of the PLT entry at an index.\<close>

definition rtld_lazy_bind_symbol ::
  "nat \<Rightarrow> image \<Rightarrow> ModuleObject list \<Rightarrow> (string \<Rightarrow> u64) option \<Rightarrow> ModuleObject \<Rightarrow> nat \<Rightarrow> u64 option" where
  "rtld_lazy_bind_symbol fuel img ms manual module index =
     (if is_rela module then
        (let entry = rela_at img (rela_or_rel_plt module + of_nat index * sizeof_Rela) in
         case TryResolveSymbol fuel img ms manual module (sym_at img (sym_addr module (ELF_R_SYM (ra_info entry)))) of
           None \<Rightarrow> None
         | Some (Some a) \<Rightarrow> Some (if a = 0 then 0 else a + ra_addend entry)
         | Some None \<Rightarrow> Some 0)
      else
        (let entry = rel_at img (rela_or_rel_plt module + of_nat index * sizeof_Rel) in
         case TryResolveSymbol fuel img ms manual module (sym_at img (sym_addr module (ELF_R_SYM (r_info entry)))) of
           None \<Rightarrow> None
         | Some (Some a) \<Rightarrow> Some a
         | Some None \<Rightarrow> Some 0))"

section \<open>Runtime objects of the modules\<close>

text \<open>What the modules' headers point to, and the runtime objects by address.\<close>

record module_data =
  mod0_at :: "u64 \<Rightarrow> Mod0"
  dynamic_at :: "u64 \<Rightarrow> Elf_Dyn list"

type_synonym objects = "u64 \<Rightarrow> ModuleObject"

text \<open>The address of the object, initialised if it was not; \<open>None\<close> is an abort.\<close>

definition GetModuleRuntime_at ::
  "image \<Rightarrow> module_data \<Rightarrow> ModuleInfo option list \<Rightarrow> nat \<Rightarrow> objects \<Rightarrow> (u64 \<times> objects) option" where
  "GetModuleRuntime_at img md infos index objs =
     (case GetModuleInfo infos index of
        None \<Rightarrow> None
      | Some info \<Rightarrow>
          let mod0 = mod0_at md (m_Mod info); runtime = GetModuleRuntime mod0 in
          if module_base (objs runtime) \<noteq> 0 then Some (runtime, objs)
          else map_option (\<lambda>ob. (runtime, objs(runtime := ob)))
                 (Initialize_object img (rg_start (m_Total info)) (GetDynamic mod0)
                    (dynamic_at md (GetDynamic mod0)) (objs runtime)))"

text \<open>\<open>reloc.hpp\<close>: the symbol of one module, and of the first module that has it.\<close>

definition GetSymbol ::
  "nat \<Rightarrow> image \<Rightarrow> module_data \<Rightarrow> ModuleInfo option list \<Rightarrow> nat \<Rightarrow> string \<Rightarrow> objects \<Rightarrow> (u64 option \<times> objects) option" where
  "GetSymbol fuel img md infos index name objs =
     (case GetModuleRuntime_at img md infos index objs of
        None \<Rightarrow> None
      | Some (runtime, objs) \<Rightarrow>
          let m = objs runtime in
          map_option (\<lambda>r. (r, objs))
            (chain_walk fuel img m name
               (word32_at img (hash_bucket m + 4 * (ElfHash (bytes name) mod hash_nbucket_value m)))))"

text \<open>The search falls off the end of the function without a value: \<open>None\<close> too.\<close>

fun GetSymbol_any ::
  "nat \<Rightarrow> image \<Rightarrow> module_data \<Rightarrow> ModuleInfo option list \<Rightarrow> nat list \<Rightarrow> string \<Rightarrow> objects \<Rightarrow> (u64 \<times> objects) option" where
  "GetSymbol_any fuel img md infos [] name objs = None"
| "GetSymbol_any fuel img md infos (i # is) name objs =
     (if \<not> HasModule infos i then GetSymbol_any fuel img md infos is name objs
      else case GetSymbol fuel img md infos i name objs of
             None \<Rightarrow> None
           | Some (Some a, objs) \<Rightarrow> Some (a, objs)
           | Some (None, objs) \<Rightarrow> GetSymbol_any fuel img md infos is name objs)"

section \<open>Relocation of imports to looked-up offsets\<close>

text \<open>What the accessors give of an entry of either kind: offset, info and addend.\<close>

record RelAccessor =
  ac_offset :: u64
  ac_info :: u64
  GetAddend :: s64

definition rel_accessor :: "Elf_Rel \<Rightarrow> RelAccessor" where
  "rel_accessor e = \<lparr>ac_offset = r_offset e, ac_info = r_info e, GetAddend = 0\<rparr>"

definition rela_accessor :: "Elf_Rela \<Rightarrow> RelAccessor" where
  "rela_accessor e = \<lparr>ac_offset = ra_offset e, ac_info = ra_info e, GetAddend = ra_addend e\<rparr>"

definition GetTarget :: "ModuleObject \<Rightarrow> RelAccessor \<Rightarrow> u64" where
  "GetTarget m a = module_base m + ac_offset a"

definition GetName :: "image \<Rightarrow> ModuleObject \<Rightarrow> RelAccessor \<Rightarrow> string" where
  "GetName img m a =
     str_at img (dynstr m + ucast (st_name (sym_at img (sym_addr m (ELF_R_SYM (ac_info a))))))"

text \<open>\<open>None\<close> is the abort for a missing module.\<close>

definition ApplyRel :: "ModuleInfo option list \<Rightarrow> LookupEntryBin \<Rightarrow> u64 \<Rightarrow> s64 \<Rightarrow> words \<Rightarrow> words option" where
  "ApplyRel infos entry target addend w =
     map_option (\<lambda>i. w(target := rg_start (m_Total i) + ucast (m_Offset entry) + addend))
       (GetModuleInfo infos (m_ModuleIndex entry))"

text \<open>\<open>None\<close> is also a lookup that reads past the table.\<close>

definition CheckAndApplyRel ::
  "image \<Rightarrow> LookupEntryBin list \<Rightarrow> ModuleInfo option list \<Rightarrow> ModuleObject \<Rightarrow> RelAccessor \<Rightarrow> words \<Rightarrow> words option" where
  "CheckAndApplyRel img table infos m a w =
     (let type = ELF_R_TYPE (ac_info a) in
      case FindByName table (GetName img m a) of
        None \<Rightarrow> None
      | Some None \<Rightarrow> Some w
      | Some (Some search) \<Rightarrow>
          if type \<noteq> ARCH_JUMP_SLOT \<and> \<not> ARCH_IS_REL_ABSOLUTE type \<and> type \<noteq> ARCH_GLOB_DAT then Some w
          else if \<not> HasModule infos (m_ModuleIndex search) then Some w
          else ApplyRel infos search (GetTarget m a) (GetAddend a) w)"

definition apply_accessors ::
  "image \<Rightarrow> LookupEntryBin list \<Rightarrow> ModuleInfo option list \<Rightarrow> ModuleObject \<Rightarrow> RelAccessor list \<Rightarrow> words \<Rightarrow> words option" where
  "apply_accessors img table infos m = fold_option (CheckAndApplyRel img table infos m)"

definition rels :: "image \<Rightarrow> u64 \<Rightarrow> u64 \<Rightarrow> RelAccessor list" where
  "rels img ptr sz = map (\<lambda>i. rel_accessor (rel_at img (ptr + of_nat i * sizeof_Rel))) [0..<unat (sz div sizeof_Rel)]"

definition relas :: "image \<Rightarrow> u64 \<Rightarrow> u64 \<Rightarrow> RelAccessor list" where
  "relas img ptr sz = map (\<lambda>i. rela_accessor (rela_at img (ptr + of_nat i * sizeof_Rela))) [0..<unat (sz div sizeof_Rela)]"

text \<open>\<open>None\<close> is the assertion that the module has exactly one of the two tables.\<close>

definition dynamic_rels :: "image \<Rightarrow> ModuleObject \<Rightarrow> RelAccessor list option" where
  "dynamic_rels img m =
     (let hasRel = rel_count m \<noteq> 0 \<or> rel_dyn_size m \<noteq> 0;
          hasRela = rela_count m \<noteq> 0 \<or> rela_dyn_size m \<noteq> 0
      in if hasRel = hasRela then None
         else if hasRela then Some (relas img (rela_or_rel m) (rela_dyn_size m))
         else Some (rels img (rela_or_rel m) (rel_dyn_size m)))"

definition plt_rels :: "image \<Rightarrow> ModuleObject \<Rightarrow> RelAccessor list" where
  "plt_rels img m =
     (if is_rela m then relas img (rela_or_rel_plt m) (rela_or_rel_plt_size m)
      else rels img (rela_or_rel_plt m) (rela_or_rel_plt_size m))"

definition ApplyRels :: "image \<Rightarrow> LookupEntryBin list \<Rightarrow> ModuleInfo option list \<Rightarrow> ModuleObject \<Rightarrow> words \<Rightarrow> words option" where
  "ApplyRels img table infos m w =
     Option.bind (dynamic_rels img m) (\<lambda>as. apply_accessors img table infos m as w)"

definition ApplyPlt :: "image \<Rightarrow> LookupEntryBin list \<Rightarrow> ModuleInfo option list \<Rightarrow> ModuleObject \<Rightarrow> words \<Rightarrow> words option" where
  "ApplyPlt img table infos m w = apply_accessors img table infos m (plt_rels img m) w"

definition Apply ::
  "image \<Rightarrow> module_data \<Rightarrow> LookupEntryBin list \<Rightarrow> ModuleInfo option list \<Rightarrow> nat \<Rightarrow> words \<Rightarrow> words option" where
  "Apply img md table infos self w =
     (case GetModuleInfo infos self of
        None \<Rightarrow> None
      | Some info \<Rightarrow>
          let mod0 = mod0_at md (m_Mod info) in
          case Initialize_object img (rg_start (m_Total info)) (GetDynamic mod0)
                 (dynamic_at md (GetDynamic mod0)) no_object of
            None \<Rightarrow> None
          | Some modObj \<Rightarrow>
              Option.bind (ApplyRels img table infos modObj w) (ApplyPlt img table infos modObj))"

section \<open>The search for a symbol\<close>

text \<open>A chain of indices that ends.\<close>

fun chain :: "image \<Rightarrow> ModuleObject \<Rightarrow> u32 \<Rightarrow> u32 list \<Rightarrow> bool" where
  "chain img m i [] \<longleftrightarrow> i = 0"
| "chain img m i (j # js) \<longleftrightarrow> i = j \<and> j \<noteq> 0 \<and> chain img m (word32_at img (hash_chain m + 4 * ucast j)) js"

definition sym_name :: "image \<Rightarrow> ModuleObject \<Rightarrow> u32 \<Rightarrow> string" where
  "sym_name img m k = str_at img (dynstr m + ucast (st_name (sym_at img (sym_addr m (ucast k)))))"

definition defines_symbol :: "image \<Rightarrow> ModuleObject \<Rightarrow> string \<Rightarrow> u32 \<Rightarrow> bool" where
  "defines_symbol img m name k \<longleftrightarrow> \<not> is_common (sym_at img (sym_addr m (ucast k))) \<and> name = sym_name img m k"

text \<open>
  A hash table as linkers build it: a chain for each bucket, of exactly the symbols whose
  32-bit hash falls into it.
\<close>

definition linked_table :: "image \<Rightarrow> ModuleObject \<Rightarrow> bool" where
  "linked_table img m \<longleftrightarrow>
     hash_nbucket_value m \<noteq> 0
     \<and> (\<forall>b < hash_nbucket_value m. \<exists>js. chain img m (word32_at img (hash_bucket m + 4 * b)) js
          \<and> length js \<le> unat (hash_nchain_value m)
          \<and> (\<forall>k. k \<in> set js \<longleftrightarrow> k \<noteq> 0 \<and> ucast k < hash_nchain_value m
                \<and> ucast (elf_hash (bytes (sym_name img m k))) mod hash_nbucket_value m = b))"

lemma chain_walk_find:
  assumes "chain img m i js" "length js < fuel"
  shows "chain_walk fuel img m name i =
    Some (map_option (\<lambda>k. sym_addr m (ucast k)) (List.find (defines_symbol img m name) js))"
  using assms
proof (induction js arbitrary: i fuel)
  case Nil
  then show ?case by (cases fuel) auto
next
  case (Cons j js)
  then show ?case by (cases fuel) (auto simp: Let_def defines_symbol_def sym_name_def)
qed

text \<open>
  C20: Symbol lookup by name ends and is right.  In a hash table as linkers build it, with
  fuel for one bucket, a name whose 64-bit hash stays within 32 bits is found exactly when
  some symbol of the module defines it, and what is found is such a symbol.
\<close>

theorem get_symbol_by_name_correct:
  assumes "linked_table img m" "unat (hash_nchain_value m) < fuel" "ElfHash (bytes name) < 0x100000000"
  shows "\<exists>r. GetSymbolByName fuel img m name = Some r
    \<and> (r = None \<longleftrightarrow> (\<nexists>k. k \<noteq> 0 \<and> ucast k < hash_nchain_value m \<and> defines_symbol img m name k))
    \<and> (\<forall>a. r = Some a \<longrightarrow> (\<exists>k. a = sym_addr m (ucast k) \<and> k \<noteq> 0 \<and> ucast k < hash_nchain_value m
         \<and> defines_symbol img m name k))"
proof -
  let ?b = "rtld_elf_hash (bytes name) mod hash_nbucket_value m"
  have h: "rtld_elf_hash (bytes name) = ucast (elf_hash (bytes name))"
    using iffD2[OF ElfHash_small assms(3)] by (simp add: rtld_elf_hash_def ElfHash_def)
  have "?b < hash_nbucket_value m"
    using assms(1) by (intro word_mod_less_divisor) (simp add: linked_table_def word_neq_0_conv)
  then obtain js where js: "chain img m (word32_at img (hash_bucket m + 4 * ?b)) js"
    "length js \<le> unat (hash_nchain_value m)"
    "\<forall>k. k \<in> set js \<longleftrightarrow> k \<noteq> 0 \<and> ucast k < hash_nchain_value m
        \<and> ucast (elf_hash (bytes (sym_name img m k))) mod hash_nbucket_value m = ?b"
    using assms(1) unfolding linked_table_def by blast
  let ?f = "List.find (defines_symbol img m name) js"
  have r: "GetSymbolByName fuel img m name = Some (map_option (\<lambda>k. sym_addr m (ucast k)) ?f)"
    unfolding GetSymbolByName_def using js(1,2) assms(2) by (intro chain_walk_find) auto
  have in_bucket: "k \<in> set js" if "k \<noteq> 0" "ucast k < hash_nchain_value m" "defines_symbol img m name k" for k
    using js(3) that h by (auto simp: defines_symbol_def)
  show ?thesis
  proof (cases ?f)
    case None
    then have "\<nexists>k. k \<noteq> 0 \<and> ucast k < hash_nchain_value m \<and> defines_symbol img m name k"
      using in_bucket by (auto simp: find_None_iff)
    then show ?thesis using r None by simp
  next
    case (Some k)
    then have "k \<in> set js" "defines_symbol img m name k" by (auto simp: find_Some_iff)
    then show ?thesis using r Some js(3) by auto
  qed
qed

section \<open>The two relocation loops agree\<close>

text \<open>The dynamic section describes one kind of table only.\<close>

definition only_rela :: "Elf_Dyn list \<Rightarrow> bool" where
  "only_rela ds \<longleftrightarrow> (\<forall>d \<in> set ds. d_tag d \<noteq> DT_REL \<and> d_tag d \<noteq> DT_RELCOUNT \<and> d_tag d \<noteq> DT_RELSZ)"

definition only_rel :: "Elf_Dyn list \<Rightarrow> bool" where
  "only_rel ds \<longleftrightarrow> (\<forall>d \<in> set ds. d_tag d \<noteq> DT_RELA \<and> d_tag d \<noteq> DT_RELACOUNT \<and> d_tag d \<noteq> DT_RELASZ)"

text \<open>The two scans of the dynamic section keep the same tables.\<close>

definition same_tables :: "bool \<Rightarrow> ModuleObject \<Rightarrow> self_tables \<Rightarrow> bool" where
  "same_tables rela m s \<longleftrightarrow>
     rela_count m = rela_entry_count s \<and> rel_count m = rel_entry_count s
     \<and> rela_dyn_size m = sf_rela_size s \<and> rel_dyn_size m = sf_rel_size s
     \<and> rela_entry_size s = sizeof_Rela \<and> rel_entry_size s = sizeof_Rel
     \<and> rela_or_rel m = (if rela then sf_rela s else sf_rel s)
     \<and> (if rela then rel_count m = 0 \<and> rel_dyn_size m = 0 else rela_count m = 0 \<and> rela_dyn_size m = 0)"

lemma dynamic_entry_same:
  assumes "dynamic_entry img base d (m, p) = Some (m', p')" "same_tables rela m s"
    "if rela then d_tag d \<noteq> DT_REL \<and> d_tag d \<noteq> DT_RELCOUNT \<and> d_tag d \<noteq> DT_RELSZ
     else d_tag d \<noteq> DT_RELA \<and> d_tag d \<noteq> DT_RELACOUNT \<and> d_tag d \<noteq> DT_RELASZ"
  shows "same_tables rela m' (self_entry base d s) \<and> module_base m' = module_base m"
  using assms
  by (auto simp: dynamic_entry_def self_entry_def same_tables_def Let_def DT_defs split: if_splits)

lemma dynamic_loop_same:
  assumes "dynamic_loop img base ds (m, p) = Some (m', p')" "same_tables rela m s"
    "if rela then only_rela ds else only_rel ds"
  shows "\<exists>s'. self_loop base ds s = Some s' \<and> same_tables rela m' s' \<and> module_base m' = module_base m"
  using assms
proof (induction ds arbitrary: m p s)
  case (Cons d ds)
  show ?case
  proof (cases "d_tag d = DT_NULL")
    case False
    then obtain m1 p1 where e: "dynamic_entry img base d (m, p) = Some (m1, p1)"
      "dynamic_loop img base ds (m1, p1) = Some (m', p')"
      using Cons.prems(1) by (auto simp: bind_eq_Some_conv)
    have "same_tables rela m1 (self_entry base d s) \<and> module_base m1 = module_base m"
      using dynamic_entry_same[OF e(1) Cons.prems(2)] Cons.prems(3)
      by (cases rela) (simp_all add: only_rela_def only_rel_def)
    moreover have "if rela then only_rela ds else only_rel ds"
      using Cons.prems(3) by (cases rela) (simp_all add: only_rela_def only_rel_def)
    ultimately show ?thesis using Cons.IH[OF e(2)] False by auto
  qed (use Cons.prems in auto)
qed simp

text \<open>
  The mod relocates itself exactly as the run-time linker would.  For a dynamic section
  with one kind of relocation table, which the linker accepts and whose count of relative
  entries is given whenever the table is not empty, the two loops write the same words.
\<close>

lemma relocate_self_agrees:
  assumes "Initialize_object img base dyn ds no_object = Some m" "only_rela ds \<or> only_rel ds"
    "rela_count m \<noteq> 0 \<or> rela_dyn_size m = 0" "rel_count m \<noteq> 0 \<or> rel_dyn_size m = 0"
  shows "exl_relocate_self img base ds w = Some (Relocate img m w)"
proof -
  obtain rela where r: "if rela then only_rela ds else only_rel ds"
    using assms(2) by (metis (full_types))
  obtain m1 p1 where l: "dynamic_loop img base ds (reset_object base dyn no_object, 0) = Some (m1, p1)"
    and m: "m = m1\<lparr>rela_or_rel_plt := p1\<rparr>"
    using assms(1) by (auto simp: Initialize_object_def)
  have "same_tables rela (reset_object base dyn no_object) self_start"
    by (simp add: same_tables_def reset_object_def no_object_def self_start_def)
  from dynamic_loop_same[OF l this r] obtain s where s: "self_loop base ds self_start = Some s"
    "same_tables rela m1 s" "module_base m1 = base"
    by (auto simp: reset_object_def)
  have c: "self_counts s = s"
    using s(2) assms(3,4) m by (auto simp: self_counts_def same_tables_def Let_def)
  show ?thesis
  proof (cases rela)
    case True
    then have "rel_entry_count s = 0" using s(2) by (auto simp: same_tables_def)
    then show ?thesis using True s c by (simp add: exl_relocate_self_def Relocate_def same_tables_def Let_def m)
  next
    case False
    then have "rela_entry_count s = 0" using s(2) by (auto simp: same_tables_def)
    then show ?thesis using False s c by (simp add: exl_relocate_self_def Relocate_def same_tables_def Let_def m)
  qed
qed

section \<open>What the relocation of imports writes\<close>

text \<open>
  The value an entry should get from a versioned table: the address of the table entry with
  the symbol's name, for the relocation types that take one and a loaded module.
\<close>

definition import_value :: "image \<Rightarrow> VersionedTable \<Rightarrow> ModuleInfo option list \<Rightarrow> ModuleObject \<Rightarrow> RelAccessor \<Rightarrow> u64 option" where
  "import_value img t infos m a =
     (let type = ELF_R_TYPE (ac_info a) in
      case List.find (\<lambda>e. le_Symbol e = GetName img m a) (Table t) of
        None \<Rightarrow> None
      | Some e \<Rightarrow>
          if type = ARCH_JUMP_SLOT \<or> ARCH_IS_REL_ABSOLUTE type \<or> type = ARCH_GLOB_DAT then
            map_option (\<lambda>i. rg_start (m_Total i) + ucast (take_bit 28 (le_Offset e)) + GetAddend a)
              (infos ! (le_ModuleIndex e mod 16))
          else None)"

text \<open>No name outside the table has the hash of an entry, or one above all of them.\<close>

definition names_separated :: "VersionedTable \<Rightarrow> string list \<Rightarrow> bool" where
  "names_separated t names \<longleftrightarrow>
     (\<forall>name \<in> set names. name \<in> le_Symbol ` set (Table t) \<or> FindByName (s_SortedTable t) name = Some None)"

lemma CheckAndApplyRel_value:
  assumes "unique_hashes t" "names_separated t [GetName img m a]"
  shows "CheckAndApplyRel img (s_SortedTable t) infos m a w =
    Some (case import_value img t infos m a of None \<Rightarrow> w | Some v \<Rightarrow> w(GetTarget m a := v))"
proof (cases "List.find (\<lambda>e. le_Symbol e = GetName img m a) (Table t)")
  case None
  then have "GetName img m a \<notin> le_Symbol ` set (Table t)" by (auto simp: find_None_iff)
  then have "FindByName (s_SortedTable t) (GetName img m a) = Some None"
    using assms(2) by (simp add: names_separated_def)
  then show ?thesis by (simp add: CheckAndApplyRel_def import_value_def None Let_def)
next
  case (Some e)
  then have "e \<in> set (Table t)" "GetName img m a = le_Symbol e" by (auto simp: find_Some_iff)
  then have f: "FindByName (s_SortedTable t) (GetName img m a) = Some (Some (Convert e))"
    using find_in_table[OF assms(1)] by simp
  show ?thesis
    unfolding CheckAndApplyRel_def Let_def f import_value_def Some
    by (cases "infos ! (le_ModuleIndex e mod 16)")
       (auto simp: Convert_def s_ModuleIndexBitCount_def HasModule_def GetModuleInfo_def ApplyRel_def)
qed

lemma apply_accessors_value:
  assumes "unique_hashes t" "names_separated t (map (GetName img m) as)" "distinct (map (GetTarget m) as)"
  shows "apply_accessors img (s_SortedTable t) infos m as w = Some (\<lambda>x.
    case List.find (\<lambda>a. GetTarget m a = x) as of
      None \<Rightarrow> w x
    | Some a \<Rightarrow> (case import_value img t infos m a of None \<Rightarrow> w x | Some v \<Rightarrow> v))"
  using assms(2,3)
proof (induction as arbitrary: w)
  case Nil
  then show ?case by (simp add: apply_accessors_def)
next
  case (Cons a as)
  let ?w = "case import_value img t infos m a of None \<Rightarrow> w | Some v \<Rightarrow> w(GetTarget m a := v)"
  have "apply_accessors img (s_SortedTable t) infos m (a # as) w = apply_accessors img (s_SortedTable t) infos m as ?w"
    using CheckAndApplyRel_value[OF assms(1), of img m a infos w] Cons.prems(1)
    by (simp add: apply_accessors_def names_separated_def)
  moreover have "List.find (\<lambda>b. GetTarget m b = GetTarget m a) as = None"
    using Cons.prems(2) by (auto simp: find_None_iff) (metis image_eqI)
  ultimately show ?case
    using Cons.IH[of ?w] Cons.prems
    by (auto simp: names_separated_def fun_eq_iff split: option.splits)
qed

lemma fold_option_append: "fold_option f (xs @ ys) s = Option.bind (fold_option f xs s) (fold_option f ys)"
  by (induction xs arbitrary: s) (auto split: bind_splits)

lemma Apply_value:
  assumes "infos ! self = Some info" "unique_hashes t"
    "Initialize_object img (rg_start (m_Total info)) (GetDynamic (mod0_at md (m_Mod info)))
       (dynamic_at md (GetDynamic (mod0_at md (m_Mod info)))) no_object = Some m"
    "dynamic_rels img m = Some ds" "as = ds @ plt_rels img m"
    "names_separated t (map (GetName img m) as)" "distinct (map (GetTarget m) as)"
  shows "Apply img md (s_SortedTable t) infos self w = Some (\<lambda>x.
    case List.find (\<lambda>a. GetTarget m a = x) as of
      None \<Rightarrow> w x
    | Some a \<Rightarrow> (case import_value img t infos m a of None \<Rightarrow> w x | Some v \<Rightarrow> v))"
proof -
  have "Apply img md (s_SortedTable t) infos self w = apply_accessors img (s_SortedTable t) infos m as w"
    using assms(1,3-5)
    by (simp add: Apply_def GetModuleInfo_def HasModule_def Let_def ApplyRels_def ApplyPlt_def[abs_def]
        apply_accessors_def fold_option_append)
  then show ?thesis using apply_accessors_value[OF assms(2,6,7)] by simp
qed

text \<open>
  C21: The imports of the mod are bound to the table.  When the dynamic section is accepted
  with one relocation table, no two entries share a word, the table compiles and no foreign
  name collides with it, applying the relocations ends, gives every word of an entry whose
  symbol is in the table the start of the symbol's module plus its offset and the addend, and
  changes no other word.
\<close>

theorem imports_bound:
  assumes "infos ! self = Some info" "unique_hashes t"
    "Initialize_object img (rg_start (m_Total info)) (GetDynamic (mod0_at md (m_Mod info)))
       (dynamic_at md (GetDynamic (mod0_at md (m_Mod info)))) no_object = Some m"
    "dynamic_rels img m = Some ds" "as = ds @ plt_rels img m"
    "names_separated t (map (GetName img m) as)" "distinct (map (GetTarget m) as)"
  shows "Apply img md (s_SortedTable t) infos self w = Some (\<lambda>x.
    case List.find (\<lambda>a. GetTarget m a = x) as of
      None \<Rightarrow> w x
    | Some a \<Rightarrow> (case import_value img t infos m a of None \<Rightarrow> w x | Some v \<Rightarrow> v))"
  using assms by (rule Apply_value)

section \<open>Witnesses\<close>

text \<open>
  A module at \<open>0x5000\<close> with a hash table of one bucket and symbols \<open>f\<close> (index 1, undefined)
  and \<open>a\<close> (index 2, defined), one relative entry and one jump slot for \<open>a\<close>.
\<close>

definition tiny_image :: image where
  "tiny_image = \<lparr>
     rel_at = (\<lambda>x. \<lparr>r_offset = 0, r_info = 0\<rparr>),
     rela_at = (\<lambda>x. if x = 0x5100 then \<lparr>ra_offset = 0x800, ra_info = 1027, ra_addend = 0x20\<rparr>
                    else \<lparr>ra_offset = 0x808, ra_info = 0x200000402, ra_addend = 4\<rparr>),
     sym_at = (\<lambda>x. if x = 0x5330 then \<lparr>st_name = 2, st_info = 0x12, st_other = 0, st_shndx = 5, st_value = 0x40\<rparr>
                   else \<lparr>st_name = 0, st_info = 0x12, st_other = 0, st_shndx = 0, st_value = 0\<rparr>),
     str_at = (\<lambda>x. if x = 0x5402 then ''a'' else ''f''),
     word32_at = (\<lambda>x. if x = 0x5200 then 1 else if x = 0x5204 then 3 else if x = 0x5208 then 2
                      else if x = 0x5214 then 1 else 0)\<rparr>"

definition tiny_dynamic :: "Elf_Dyn list" where
  "tiny_dynamic = map (\<lambda>(t, v). \<lparr>d_tag = t, d_val = v\<rparr>)
     [(DT_HASH, 0x200), (DT_STRTAB, 0x400), (DT_SYMTAB, 0x300), (DT_RELA, 0x100), (DT_RELASZ, 24), (DT_RELAENT, 24),
      (DT_RELACOUNT, 1), (DT_PLTREL, 7), (DT_JMPREL, 0x180), (DT_PLTRELSZ, 24), (DT_NULL, 0)]"

definition tiny_object :: ModuleObject where
  "tiny_object = no_object\<lparr>module_base := 0x5000, dynamic := 0x5080, hash_nbucket_value := 1, hash_nchain_value := 3,
     hash_bucket := 0x5208, hash_chain := 0x520C, dynstr := 0x5400, dynsym := 0x5300, rela_or_rel := 0x5100,
     rela_dyn_size := 24, rela_count := 1, is_rela := True, rela_or_rel_plt_size := 24, rela_or_rel_plt := 0x5180\<rparr>"

lemma tiny_initialize: "Initialize_object tiny_image 0x5000 0x5080 tiny_dynamic no_object = Some tiny_object"
  by (simp add: Initialize_object_def tiny_dynamic_def dynamic_entry_def reset_object_def tiny_object_def no_object_def
      DT_defs Let_def tiny_image_def sizeof_Rela_def)

lemma tiny_linked: "linked_table tiny_image tiny_object"
proof -
  let ?js = "[2, 1 :: u32]"
  have "chain tiny_image tiny_object 2 ?js"
    by (simp add: tiny_image_def tiny_object_def no_object_def)
  moreover have "k \<in> set ?js \<longleftrightarrow> k \<noteq> 0 \<and> (ucast k :: u64) < 3" for k
  proof
    assume "k \<noteq> 0 \<and> (ucast k :: u64) < 3"
    moreover have "unat (ucast k :: u64) = unat k"
    proof -
      have "unat k < 2 ^ 32" using unsigned_less[of k] by simp
      then have "unat k < 2 ^ 64" by simp
      then show ?thesis by (simp add: unsigned_ucast_eq take_bit_nat_eq_self)
    qed
    ultimately have "unat k < 3" "unat k \<noteq> 0"
      by (simp_all add: word_less_nat_alt unat_eq_zero)
    then have "unat k = unat (1 :: u32) \<or> unat k = unat (2 :: u32)" by auto
    then show "k \<in> set ?js" by (auto simp only: word_unat_eq_iff list.set insert_iff)
  qed auto
  ultimately have js: "chain tiny_image tiny_object 2 ?js"
    "\<forall>k. k \<in> set ?js \<longleftrightarrow> k \<noteq> 0 \<and> (ucast k :: u64) < 3" by blast+
  have o: "hash_nbucket_value tiny_object = 1" "hash_nchain_value tiny_object = 3"
    "word32_at tiny_image (hash_bucket tiny_object + 4 * 0) = 2"
    by (simp_all add: tiny_object_def no_object_def tiny_image_def)
  have b: "b < 1 \<longleftrightarrow> b = (0 :: u64)" "b mod 1 = (0 :: u64)" for b by simp_all
  have l: "length ?js \<le> unat (3 :: u64)" by simp
  show ?thesis
    unfolding linked_table_def o(1,2) b
  proof (intro conjI allI impI exI)
    fix x :: u64 and k assume "x = 0"
    then show "chain tiny_image tiny_object (word32_at tiny_image (hash_bucket tiny_object + 4 * x)) ?js"
      "length ?js \<le> unat (3 :: u64)" "k \<in> set ?js \<longleftrightarrow> k \<noteq> 0 \<and> ucast k < (3 :: u64) \<and> 0 = x"
      using o(3) js l by simp_all
  qed simp
qed

theorem get_symbol_by_name_correct_witness:
  "\<exists>a. GetSymbolByName 4 tiny_image tiny_object ''a'' = Some (Some a)
     \<and> (\<exists>k. a = sym_addr tiny_object (ucast k) \<and> defines_symbol tiny_image tiny_object ''a'' k)"
proof -
  have "ElfHash (bytes ''a'') < 0x100000000" by code_simp
  moreover have "unat (hash_nchain_value tiny_object) < 4" by (simp add: tiny_object_def no_object_def)
  moreover have "defines_symbol tiny_image tiny_object ''a'' 2"
    by (simp add: defines_symbol_def sym_name_def is_common_def SHN_COMMON_def sym_addr_def sizeof_Sym_def
        tiny_image_def tiny_object_def no_object_def)
  moreover have "(2 :: u32) \<noteq> 0 \<and> ucast (2 :: u32) < hash_nchain_value tiny_object"
    by (simp add: tiny_object_def no_object_def)
  ultimately show ?thesis
    using get_symbol_by_name_correct[OF tiny_linked, of 4 "''a''"] by (metis (no_types, lifting) not_None_eq)
qed

definition tiny_modules :: "ModuleInfo option list" where
  "tiny_modules =
     [None, Some (no_module\<lparr>m_Total := \<lparr>rg_start = 0x8000000, rg_size = 0x1000\<rparr>\<rparr>),
      Some (no_module\<lparr>m_Total := \<lparr>rg_start = 0x5000, rg_size = 0x1000\<rparr>, m_Mod := 0x5040\<rparr>)]"

definition tiny_data :: module_data where
  "tiny_data = \<lparr>mod0_at = (\<lambda>x. \<lparr>m0_address = x, m0_DynamicStartOffset = 0x40, m0_BssStartOffset = 0, m0_BssEndOffset = 0,
       m0_EhFrameHdrStartOffset = 0, m0_EhFrameHdrEndOffset = 0, m0_ModuleRuntimeOffset = 0\<rparr>),
     dynamic_at = (\<lambda>_. tiny_dynamic)\<rparr>"

lemma hash_f: "Compute (bytes ''f'') 0 = 0x2b64883b"
  by code_simp

lemma tiny_names: "names_separated two_names (map (GetName tiny_image tiny_object) (relas tiny_image 0x5100 24 @ plt_rels tiny_image tiny_object))"
    "relas tiny_image 0x5100 24 @ plt_rels tiny_image tiny_object =
       [\<lparr>ac_offset = 0x800, ac_info = 1027, GetAddend = 0x20\<rparr>, \<lparr>ac_offset = 0x808, ac_info = 0x200000402, GetAddend = 4\<rparr>]"
    "GetName tiny_image tiny_object \<lparr>ac_offset = 0x800, ac_info = 1027, GetAddend = 0x20\<rparr> = ''f''"
    "GetName tiny_image tiny_object \<lparr>ac_offset = 0x808, ac_info = 0x200000402, GetAddend = 4\<rparr> = ''a''"
proof -
  show as: "relas tiny_image 0x5100 24 @ plt_rels tiny_image tiny_object =
       [\<lparr>ac_offset = 0x800, ac_info = 1027, GetAddend = 0x20\<rparr>, \<lparr>ac_offset = 0x808, ac_info = 0x200000402, GetAddend = 4\<rparr>]"
    by (simp add: relas_def plt_rels_def tiny_object_def no_object_def sizeof_Rela_def rela_accessor_def tiny_image_def)
  show n: "GetName tiny_image tiny_object \<lparr>ac_offset = 0x800, ac_info = 1027, GetAddend = 0x20\<rparr> = ''f''"
    "GetName tiny_image tiny_object \<lparr>ac_offset = 0x808, ac_info = 0x200000402, GetAddend = 4\<rparr> = ''a''"
    by (simp_all add: GetName_def sym_addr_def ELF_R_SYM_def sizeof_Sym_def tiny_image_def tiny_object_def no_object_def)
  show "names_separated two_names (map (GetName tiny_image tiny_object) (relas tiny_image 0x5100 24 @ plt_rels tiny_image tiny_object))"
    unfolding as names_separated_def
    by (simp add: n FindByName_def FindByHash_def hash_f two_names_sorted lower_bound_def)
       (simp add: two_names_def)
qed

lemma tiny_dist: "distinct (map (GetTarget tiny_object) (relas tiny_image 0x5100 24 @ plt_rels tiny_image tiny_object))"
  unfolding tiny_names(2) by (simp add: GetTarget_def)

lemma tiny_dynamic_rels: "dynamic_rels tiny_image tiny_object = Some (relas tiny_image 0x5100 24)"
  by (simp add: dynamic_rels_def tiny_object_def no_object_def)

lemma tiny_mod0:
  assumes "rg_start (m_Total info) = 0x5000" "m_Mod info = 0x5040"
  shows "Initialize_object tiny_image (rg_start (m_Total info)) (GetDynamic (mod0_at tiny_data (m_Mod info)))
      (dynamic_at tiny_data (GetDynamic (mod0_at tiny_data (m_Mod info)))) no_object = Some tiny_object"
  using tiny_initialize by (simp add: assms GetDynamic_def GetPointer_def tiny_data_def)

lemma two_names_unique: "unique_hashes two_names"
  using two_names_compile by (simp add: static_asserts_def)

lemmas tiny_apply =
  Apply_value[OF _ two_names_unique tiny_mod0 tiny_dynamic_rels refl tiny_names(1) tiny_dist]

theorem imports_bound_witness:
  "\<exists>w. Apply tiny_image tiny_data (s_SortedTable two_names) tiny_modules 2 (\<lambda>_. 0) = Some w
     \<and> w 0x5808 = 0x8000484 \<and> w 0x5800 = 0"
proof -
  let ?info = "no_module\<lparr>m_Total := \<lparr>rg_start = 0x5000, rg_size = 0x1000\<rparr>, m_Mod := 0x5040\<rparr>"
  let ?a = "\<lparr>ac_offset = 0x800, ac_info = 1027, GetAddend = 0x20\<rparr>"
  let ?b = "\<lparr>ac_offset = 0x808, ac_info = 0x200000402, GetAddend = 4\<rparr>"
  have v: "import_value tiny_image two_names tiny_modules tiny_object ?a = None"
    "import_value tiny_image two_names tiny_modules tiny_object ?b = Some 0x8000484"
    by (simp_all add: import_value_def tiny_names(3,4) two_names_def ELF_R_TYPE_def ARCH_JUMP_SLOT_def tiny_modules_def
        Let_def take_bit_eq_mod)
  have t: "GetTarget tiny_object ?a = 0x5800" "GetTarget tiny_object ?b = 0x5808"
    by (simp_all add: GetTarget_def tiny_object_def no_object_def)
  have i: "tiny_modules ! 2 = Some ?info" by (simp add: tiny_modules_def)
  have "rg_start (m_Total ?info) = 0x5000" "m_Mod ?info = 0x5040" by simp_all
  note init = tiny_mod0[OF this]
  show ?thesis
    using imports_bound[OF i two_names_unique init tiny_dynamic_rels refl tiny_names(1) tiny_dist, of "\<lambda>_. 0"]
    unfolding tiny_names(2) by (simp add: t v)
qed

end
