(* ===== verification/Offsets.thy ===== *)
theory Offsets
  imports Lookup
begin

text \<open>
  The offset table of the supported game build (\<open>source/program/offsets.hpp\<close>,
  \<open>offsets_patch_only.inl\<close>), the function pointers that static initialisation sets up from
  it (\<open>source/program/symbols.cpp\<close>, \<open>d3/types/refstring.cpp\<close>), and that none is missing.
  Every entry is in the main module; a pair is offset and key.
\<close>

section \<open>The table\<close>

definition early_hook_offsets :: "(u32 \<times> string) list" where
  "early_hook_offsets =
    [
     (0x000480, ''sym_main_init''), (0x298BD0, ''sym_gfx_init''),
     (0x042E30, ''sym_scheck_gfx_ready''), (0x4CABA0, ''sym_game_common_data_init''),
     (0x667830, ''sym_shell_initialize''), (0x7B08A0, ''sym_sgame_initialize''),
     (0x8127A0, ''sym_sinitialize_world'')]"

definition utility_hook_offsets :: "(u32 \<times> string) list" where
  "utility_hook_offsets =
    [
     (0x758000, ''sym_cmd_line_parse''), (0x03CC74, ''sym_var_res_label''),
     (0x0C8000, ''sym_move_speed''), (0x6CC600, ''sym_attack_speed''),
     (0x0BB5E8, ''sym_floating_dmg''), (0x03FEE8, ''sym_font_string_get_rendered_size''),
     (0x03FF50, ''sym_font_string_draw_03ff50''), (0x03E5B0, ''sym_font_string_draw_03e5b0''),
     (0x0010C8, ''sym_font_string_draw_0010c8'')]"

definition season_hook_offsets :: "(u32 \<times> string) list" where
  "season_hook_offsets =
    [
     (0x0641F0, ''sym_OnConfigFileRetrieved''), (0x065270, ''sym_OnSeasonsFileRetrieved''),
     (0x0657F0, ''sym_OnBlacklistFileRetrieved''), (0x1B0600, ''sym_MailCheckLobbyConnection'')]"

definition lobby_hook_offsets :: "(u32 \<times> string) list" where
  "lobby_hook_offsets =
    [
     (0x060810, ''sym_lobby_service_idle_internal''), (0x06065C, ''sym_lobby_service_create''),
     (0x1BD030, ''sym_set_game_params_for_hero''), (0x8950B0, ''sym_specifiers_from_modifier''),
     (0x896808, ''sym_eval_mod''), (0x495BC0, ''sym_dupe_dropped_item''),
     (0x0BF630, ''sym_request_drop_item'')]"

definition debugging_hook_offsets :: "(u32 \<times> string) list" where
  "debugging_hook_offsets =
    [
     (0x185AA0, ''sym_print_challenge_rift_failed''), (0x185F70, ''sym_challenge_rift_callback''),
     (0x06A2A8, ''sym_pubfile_data_hex''), (0xA2AC60, ''sym_print_error_display''),
     (0xA2AC70, ''sym_print_error''), (0xA2AE14, ''sym_print_error_string''),
     (0xA2AE74, ''sym_print_error_string_final''), (0x4B104C, ''sym_count_cosmetics''),
     (0xBFD8A0, ''sym_parse_file''), (0x3A73A8, ''sym_font_snoop''),
     (0x69B9E0, ''sym_store_attrib_defs''), (0x6B5384, ''sym_print_saved_attribs'')]"

definition global_offsets :: "(u32 \<times> string) list" where
  "global_offsets =
    [
     (0x17DE610, ''main_rwindow''), (0x1830F68, ''gfx_internal_data_ptr''),
     (0x114C970, ''gfx_nvn_globals_ptr''), (0x1905610, ''app_globals''),
     (0x114AC90, ''lobby_services_ptr''), (0x191CA70, ''sigma_thread_data''),
     (0x1A5F1B8, ''sigma_globals''), (0x191EAD8, ''attrib_defs''), (0x1154B68, ''item_invalid''),
     (0x1A39CF0, ''world_place_null''), (0x1A5F108, ''refstring_data_buffer_nil''),
     (0x1A63CEC, ''unicode_text_current_locale''), (0x114A5A0, ''gb_dev_mem_mode_ptr''),
     (0x114A5A8, ''system_allocator_ptr''), (0x115A560, ''sigma_local_heap_ptr''),
     (0x1150E08, ''sigma_heap_limit_ptr''), (0x1150E10, ''sigma_heap_ptr_0''),
     (0x11572D0, ''sigma_virtual_heap_ptr''), (0x114C968, ''sigma_remote_heap_ptr_0''),
     (0x114C9A0, ''sigma_remote_heap_ptr_1''), (0x114C990, ''nx64_nvn_heap_ptr''),
     (0x114C998, ''nx64_nvn_heap_ptr_alias''), (0x1A50690, ''sigma_heap_block_0''),
     (0x1A50698, ''sigma_virtual_heap_block''), (0x1A506A0, ''sigma_remote_addr_0''),
     (0x1A506A8, ''sigma_remote_heap_0''), (0x1A506B0, ''sigma_remote_addr_1''),
     (0x1A506B8, ''sigma_remote_heap_1'')]"

definition season_flag_offsets :: "(u32 \<times> string) list" where
  "season_flag_offsets =
    [
     (0x114AD48, ''season_config_request_flag_ptr''),
     (0x114AD50, ''season_seasons_request_flag_ptr''),
     (0x114AD68, ''season_blacklist_request_flag_ptr'')]"

definition symbol_offsets_1 :: "(u32 \<times> string) list" where
  "symbol_offsets_1 =
    [
     (0x4C4B20, ''sym_GameActiveGameCommonDataIsServer''),
     (0x4C4BA0, ''sym_GameServerCodeLeave_Tracked''), (0x4C4DF0, ''sym__GameServerCodeEnter''),
     (0x4C7CF0, ''sym_GameIsStartUp''), (0x4C7D80, ''sym_ServerIsLocal''),
     (0x056790, ''sym_GetPrimaryProfileUserIndex''), (0x7B2890, ''sym_SGameGlobalsGet''),
     (0x4C78D0, ''sym_GameGetParts''), (0x9621D0, ''sym_ServerGetOnlyGameConnection''),
     (0x7B87D0, ''sym_AppServerGetOnlyGame''), (0xC07700, ''sym_bdLogSubscriber_publish''),
     (0x758E40, ''sym_CmdLineGetParams''), (0x4C49D0, ''sym_AppDrawFlagSet''),
     (0xA27D30, ''sym_XVarString_Set''), (0xA2C820, ''sym_FileReadIntoMemory''),
     (0xA2CA50, ''sym_FileReferenceInit''), (0xA2D030, ''sym_FileCreate''),
     (0xA2D0F0, ''sym_FileExists''), (0xA2D100, ''sym_FileOpen''), (0xA2D1D0, ''sym_FileClose''),
     (0xA2D270, ''sym_FileWrite''), (0x0F2BB0, ''sym_sReadFile''),
     (0xA2BF20, ''sym_TraceInternal_Log''), (0xA2BB40, ''sym_ErrorManagerEnableLocalLogging''),
     (0xA2BB60, ''sym_ErrorManagerSetLogStreamDirectory''),
     (0xA2BB80, ''sym_ErrorManagerSetLogStreamFilename''),
     (0xA2BBE0, ''sym_ErrorManagerLogToStream''), (0x0093D0, ''sym_GetLocalStorage''),
     (0x719010, ''sym_GetGameMessageTypeAndSize''), (0x1E0DF0, ''sym_DisplaySeasonEndingMessage''),
     (0x1E0F60, ''sym_DisplayLongMessageForPlayer''),
     (0x933EF0, ''sym_DisplayGameMessageForAllPlayers''), (0xA36A50, ''sym_sigma_memory_init''),
     (0xE7640, ''sym_nx64_nvn_heap_early_init''), (0xEF300, ''sym_nx64_nvn_heap_add_pool''),
     (0xBD6110, ''sym_bdMemory_set_allocate''), (0xBD6120, ''sym_bdMemory_set_deallocate''),
     (0xBD6130, ''sym_bdMemory_set_reallocate''),
     (0xBD6140, ''sym_bdMemory_set_aligned_allocate''),
     (0xBD6150, ''sym_bdMemory_set_aligned_deallocate''),
     (0xBD6160, ''sym_bdMemory_set_aligned_reallocate''), (0x000C30, ''sym_bdMemory_alloc''),
     (0x000C40, ''sym_bdMemory_free''), (0x000C50, ''sym_bdMemory_realloc''),
     (0xC22930, ''sym_bdMemory_calloc''), (0x000C60, ''sym_bdMemory_aligned_alloc''),
     (0x000C70, ''sym_bdMemory_aligned_free''), (0x000C80, ''sym_bdMemory_aligned_realloc''),
     (0x29B1E0, ''sym_GfxGetDesiredDisplayMode''), (0x299FE0, ''sym_GfxDeviceReset''),
     (0x299910, ''sym_GfxForceDeviceReset''), (0x29B0E0, ''sym_GfxWindowChangeDisplayMode''),
     (0x0EBAC0, ''sym_get_render_target_current_resolution''),
     (0x03D550, ''sym_CGameAsyncRenderFlush''), (0x03D570, ''sym_CGameAsyncRenderGPUFlush''),
     (0x34BED0, ''sym_SetUICConversionConstansts''), (0x333300, ''sym_UI_GfxInit''),
     (0x29CBB0, ''sym_ImageTextureFrame_ctor''), (0x34C8D0, ''sym_FormatTruncatedNumber''),
     (0xA26F60, ''sym_XVarBool_ToString''), (0xA27360, ''sym_XVarUint32_ToString''),
     (0xA26EC0, ''sym_XVarBool_Set''), (0xA272C0, ''sym_XVarUint32_Set''),
     (0xA27A50, ''sym_XVarFloat_Set''), (0x066B10, ''sym_StorageGetPublisherFile''),
     (0x185F70, ''sym_sOnGetChallengeRiftData''), (0xBB2B50, ''sym_ParsePartialFromString''),
     (0x564C00, ''sym_ChallengeData_ctor''), (0x62AAE0, ''sym_WeeklyChallengeData_ctor''),
     (0x4C8B10, ''sym_GameRandRangeInt''), (0x4C8CF0, ''sym_GameIsSeasonal''),
     (0x72DF90, ''sym_OnlineServiceGetSeasonNum''),
     (0x72DFA0, ''sym_OnlineServiceGetSeasonState''),
     (0x0574E0, ''sym_ConsoleGamerProfileGetAccount''), (0x776250, ''sym_OpenChallengeRift''),
     (0x775BD0, ''sym_ChallengeRiftHandleChallengeRewards''),
     (0x7763E0, ''sym_ChallengeRiftGrantRewardToPlayerIfEligible''),
     (0x04EDC0, ''sym_ChallengeRiftRewardEarned_SaveToProfile''), (0xB20, ''sym_rawfree''),
     (0xA36D20, ''sym_SigmaMemoryNew''), (0xA36E70, ''sym_SigmaMemoryFree''),
     (0xA37020, ''sym_SigmaMemoryMove''), (0xA37080, ''sym_op_delete_1''),
     (0xA370B0, ''sym_op_delete_2''), (0x066690, ''sym_blz_basic_string''),
     (0x066690, ''sym_blz_string_ctor''), (0x03C390, ''sym_blz_make_stringf'')]"

definition symbol_offsets_2 :: "(u32 \<times> string) list" where
  "symbol_offsets_2 =
    [
     (0x03C390, ''sym_blz_make_stringfb''), (0x505780, ''sym_sGetItemTypeString''),
     (0x69B230, ''sym_AttribParamToString''), (0x69FBE0, ''sym_FastAttribToString''),
     (0x69B0D0, ''sym_AttribStringToParam''), (0x6CA3F0, ''sym_GBIDToStringAll''),
     (0x6CBC70, ''sym_GBIDToString''), (0x6F1480, ''sym_StringListFetchLPCSTR''),
     (0x483D70, ''sym_ClearAssignedHero''), (0x489210, ''sym_ACDInventoryItemAllowedInSlot''),
     (0x48E910, ''sym_ACDAddToInventory''),
     (0x490F20, ''sym_SACDInventoryPickupOrSpillOntoGround''), (0x4F44F0, ''sym_ItemHasLabel''),
     (0x4FC120, ''sym_SetBindingLevel''), (0x4FC2E0, ''sym_SetRecipient''),
     (0x4FF320, ''sym_PopulateGenerator''), (0x4FFF00, ''sym_CItemGenerate''),
     (0x60CBC0, ''sym_ItemsGenerator_ctor''), (0x60D250, ''sym_ItemsGenerator_dtor''),
     (0x7A33A0, ''sym_FlippyFindLandingLocation''), (0x7A4A00, ''sym_FlippyDropCreateOnActor''),
     (0x7DE1E0, ''sym_SItemGenerate''), (0x802700, ''sym_AddItemToInventory''),
     (0x890A10, ''sym_LootQuickCreateItem''), (0x4B1690, ''sym_GetCosmeticItemType''),
     (0x504BC0, ''sym_ItemIsCosmeticItem''), (0x6A3D80, ''sym_SetCraftLevel''),
     (0x6A4A20, ''sym_Crafting_GetTransmogSlot''), (0x7A1D80, ''sym_ExperienceSetLevel''),
     (0x7A1B00, ''sym_ExperienceDropLootForAll''),
     (0x7C2C50, ''sym_SCosmeticItems_LearnCosmeticItem''),
     (0x7C2F50, ''sym_SCosmeticItems_LearnPet''),
     (0x7E02B0, ''sym_SItemPlayerExtractLegendaryPower''),
     (0x87FE40, ''sym_SItemCrafting_TryUnlockTransmog''),
     (0x880B40, ''sym_SItemCrafting_TryUnlockSecondaryTmogs''),
     (0x884930, ''sym_SCrafterIncrementLevel''), (0x884A50, ''sym_SItemCrafting_LearnRecipe''),
     (0x886D70, ''sym_sCrafterOnLevelUp''), (0x88DDE0, ''sym_LootRollForAncientLegendary''),
     (0x4E5E50, ''sym_GlobalSNOGet''), (0x6CB780, ''sym_GBEnumerate''),
     (0x6CBCA0, ''sym_GBGetHandlePool''), (0x74A510, ''sym_SNOToString''),
     (0x933ED0, ''sym_PlayerIsPrimary''), (0x93DAF0, ''sym_GetPrimaryPlayer''),
     (0x0B8740, ''sym_LocalPlayerGet''), (0x51FC40, ''sym_PlayerGetByACD''),
     (0x51CFF0, ''sym_PlayerGetHeroDisplayName''), (0x51F7C0, ''sym_PlayerGetFirstAll''),
     (0x51F870, ''sym_PlayerGetNextAll''), (0x5202C0, ''sym_PlayerGetFirstInGame''),
     (0x5211F0, ''sym_PlayerGetByPlayerIndex''),
     (0x5279E0, ''sym_GetPrimaryPlayerForGameConnection''), (0x7A6330, ''sym_PlayerList_ctor''),
     (0x7A6520, ''sym_PlayerListGetElementPool''), (0x7A6BF0, ''sym_PlayerListGetSingle''),
     (0x7A6850, ''sym_PlayerListGetAllInGame''), (0x7FD3F0, ''sym_SPlayerIsLocal''),
     (0x46FAB0, ''sym_ACD_AttributesGetInt''), (0x46FAC0, ''sym_ACD_AttributesGetFloat''),
     (0x46FB90, ''sym_ACD_AttributesSetInt''), (0x46FB10, ''sym_ACD_AttributesSetFloat''),
     (0x47FF40, ''sym_ACD_ModifyCurrencyAmount''), (0x4801C0, ''sym_ACD_SetCurrencyAmount''),
     (0x669BB0, ''sym_ACDTryToGet''), (0x69F4E0, ''sym_FastAttribGetValueInt''),
     (0x69F580, ''sym_FastAttribGetValueFloat''), (0x69AF10, ''sym_KeyGetDataType''),
     (0x6A0150, ''sym_KeyGetParamType''), (0x71DA90, ''sym_MessageSendToClient''),
     (0x86DF70, ''sym_ActorGet''), (0x86F840, ''sym_ActorFlagSet''),
     (0xA48690, ''sym_CRefString_ctor_default''), (0xA486B0, ''sym_CRefString_ctor_int''),
     (0xA486D0, ''sym_CRefString_ctor_cref''), (0xA48700, ''sym_CRefString_ctor_lpcstr''),
     (0xA48790, ''sym_CRefString_CommonCtorBody''), (0xA488B0, ''sym_CRefString_ReAllocate''),
     (0xA48AB0, ''sym_CRefString_Free''), (0xA48C80, ''sym_CRefString_Allocate''),
     (0xA48E10, ''sym_CRefString_dtor''), (0xA490A0, ''sym_CRefString_op_eq_cref''),
     (0xA49100, ''sym_CRefString_op_eq_cref_assign''), (0xA491D0, ''sym_CRefString_op_eq_lpcstr''),
     (0xA492C0, ''sym_CRefString_op_add_eq_lpcstr''), (0xA49370, ''sym_CRefString_Append''),
     (0xA4A270, ''sym_XLocaleToString'')]"

definition event_flag_offsets :: "(u32 \<times> string) list" where
  "event_flag_offsets =
    [
     (0x114ACB8, ''event_buff_start''), (0x114ACC0, ''event_buff_end''),
     (0x114AE38, ''event_egg_flag''), (0x1154BF0, ''event_igr''), (0x1154C00, ''event_ann''),
     (0x1152CC8, ''event_egg_xvar''), (0x114ACD8, ''event_enabled''),
     (0x114ACE8, ''event_season_only''), (0x18FFFC8, ''event_double_keystones''),
     (0x1900080, ''event_double_blood_shards''), (0x1900138, ''event_double_goblins''),
     (0x19001F0, ''event_double_bounty_bags''), (0x19002A8, ''event_royal_grandeur''),
     (0x1900360, ''event_legacy_of_nightmares''), (0x1900418, ''event_triunes_will''),
     (0x19004D0, ''event_pandemonium''), (0x1900588, ''event_kanai_powers''),
     (0x1900640, ''event_trials_of_tempests''), (0x19006F8, ''event_shadow_clones''),
     (0x19007B0, ''event_fourth_cube_slot''), (0x1900868, ''event_ethereal_items''),
     (0x1900920, ''event_soul_shards''), (0x19009D8, ''event_swarm_rifts''),
     (0x1900A90, ''event_sanctified_items''), (0x1900B48, ''event_dark_alchemy''),
     (0x18FF848, ''event_nesting_portals''), (0x1900C00, ''event_paragon_cap'')]"

definition xvar_offsets :: "(u32 \<times> string) list" where
  "xvar_offsets =
    [
     (0x115A408, ''xvar_local_logging_enable_ptr''), (0x1158FB0, ''xvar_online_service_ptr''),
     (0x1158FD0, ''xvar_free_to_play_ptr''), (0x11590D8, ''xvar_seasons_override_enabled_ptr''),
     (0x1158FD8, ''xvar_challengerift_enabled_ptr''), (0x114AC60, ''xvar_season_num_ptr''),
     (0x114AC68, ''xvar_season_state_ptr''), (0x11551D0, ''xvar_max_paragon_level_ptr''),
     (0x11597C8, ''xvar_experimental_scheduling_ptr''), (0x1159808, ''xvar_broadcast_ptr''),
     (0x1A482C8, ''local_logging_state_ptr'')]"

definition patch_data_offsets :: "(u32 \<times> string) list" where
  "patch_data_offsets =
    [
     (0xE6D9E4, ''data_build_locker_format_rw''), (0xE46144, ''data_release_fps_format_rw''),
     (0x1098658, ''data_release_fps_pos_x_ro''), (0x109865C, ''data_release_fps_pos_y_ro'')]"

definition buildlocker_offsets :: "(u32 \<times> string) list" where
  "buildlocker_offsets =
    [
     (0xF6C, ''patch_buildlocker_01_nop''), (0xFD4, ''patch_buildlocker_02_movz''),
     (0x000FA4, ''patch_buildlocker_03_adrl''), (0x001040, ''patch_buildlocker_04_adrl''),
     (0x001228, ''patch_buildlocker_05_adrl''), (0x1088, ''patch_buildlocker_06_movz''),
     (0x10FC, ''patch_buildlocker_07_bytes''), (0x1128, ''patch_buildlocker_08_bytes''),
     (0x1224, ''patch_buildlocker_09_nop''), (0x11C0, ''patch_buildlocker_10_bytes'')]"

definition var_res_label_offsets :: "(u32 \<times> string) list" where
  "var_res_label_offsets =
    [
     (0x03CC20, ''patch_var_res_label_01_movz''), (0x03CC78, ''patch_var_res_label_02_movz''),
     (0x03CC7C, ''patch_var_res_label_03_movk''), (0x03CC68, ''patch_var_res_label_04_adrl'')]"

definition release_fps_offsets :: "(u32 \<times> string) list" where
  "release_fps_offsets =
    [
     (0x3F654, ''patch_release_fps_label_01_movz''),
     (0x03F69C, ''patch_release_fps_label_02_nop''),
     (0x03F6A0, ''patch_release_fps_label_03_adrl''),
     (0x03F840, ''patch_release_fps_label_04_nop''),
     (0x03F8E4, ''patch_release_fps_label_05_nop''),
     (0x03F9A8, ''patch_release_fps_label_06_nop''),
     (0x03FA68, ''patch_release_fps_label_07_nop''),
     (0x03FB80, ''patch_release_fps_label_08_nop''),
     (0x03FC7C, ''patch_release_fps_label_09_nop''), (0x03FD78, ''patch_release_fps_label_10_nop'')]"

definition ddm_label_offsets :: "(u32 \<times> string) list" where
  "ddm_label_offsets =
    [
     (0x03E530, ''patch_ddm_labels_01_movz''), (0x03E568, ''patch_ddm_labels_02_adrl''),
     (0x03E580, ''patch_ddm_labels_03_adrl''), (0x03E58C, ''patch_ddm_labels_04_adrl''),
     (0x03E594, ''patch_ddm_labels_05_movz''), (0x03FE78, ''patch_ddm_labels_06_movz''),
     (0x03FE3C, ''patch_ddm_labels_07_adrl''), (0x03FF18, ''patch_ddm_labels_08_adrl''),
     (0x03FF28, ''patch_ddm_labels_09_adrl''), (0x03FF20, ''patch_ddm_labels_10_movz'')]"

definition resolution_target_offsets :: "(u32 \<times> string) list" where
  "resolution_target_offsets =
    [
     (0x0E7858, ''patch_resolution_targets_01_movz''),
     (0x0E7860, ''patch_resolution_targets_02_movk''),
     (0x0E785C, ''patch_resolution_targets_03_movz''),
     (0x0E7864, ''patch_resolution_targets_04_movk''),
     (0x03CBBC, ''patch_resolution_targets_05_movk''),
     (0x03CBCC, ''patch_resolution_targets_06_movz''),
     (0x03CBD4, ''patch_resolution_targets_07_movk''),
     (0x276A60, ''patch_resolution_targets_08_movz''),
     (0x276A6C, ''patch_resolution_targets_09_movz''),
     (0x6678B8, ''patch_resolution_targets_10_movz''),
     (0x667AE8, ''patch_resolution_targets_11_movz''),
     (0x6678C8, ''patch_resolution_targets_12_movz''),
     (0x667B04, ''patch_resolution_targets_13_movz'')]"

definition dynamic_seasonal_offsets :: "(u32 \<times> string) list" where
  "dynamic_seasonal_offsets =
    [
     (0x72ED98, ''patch_dynamic_seasonal_01_movz''),
     (0x72EDD0, ''patch_dynamic_seasonal_02_movz''),
     (0x351CBC, ''patch_dynamic_seasonal_03_movz''), (0x5FF0C, ''patch_dynamic_seasonal_04_movz''),
     (0x1BD140, ''patch_dynamic_seasonal_05_movz''), (0x358A7C, ''patch_dynamic_seasonal_06_nop''),
     (0x35C0C4, ''patch_dynamic_seasonal_07_movz''),
     (0x1BF5F0, ''patch_dynamic_seasonal_08_movz''), (0x1BF5F4, ''patch_dynamic_seasonal_09_ret''),
     (0x4CACB8, ''patch_dynamic_seasonal_10_nop'')]"

definition dynamic_event_offsets :: "(u32 \<times> string) list" where
  "dynamic_event_offsets =
    [
     (0x4A7BD8, ''patch_dynamic_events_01_movz''), (0x4A7C04, ''patch_dynamic_events_02_movz''),
     (0x4A7C30, ''patch_dynamic_events_03_movz''), (0x4A7C5C, ''patch_dynamic_events_04_movz''),
     (0x4A7C88, ''patch_dynamic_events_05_movz''), (0x4A7CB4, ''patch_dynamic_events_06_movz''),
     (0x4A7CE0, ''patch_dynamic_events_07_movz''), (0x4A7D0C, ''patch_dynamic_events_08_movz''),
     (0x4A7D38, ''patch_dynamic_events_09_movz''), (0x4A7D64, ''patch_dynamic_events_10_movz''),
     (0x4A7D90, ''patch_dynamic_events_11_movz''), (0x4A7DBC, ''patch_dynamic_events_12_movz''),
     (0x4A7DE8, ''patch_dynamic_events_13_movz''), (0x4A7E14, ''patch_dynamic_events_14_movz''),
     (0x4A7E40, ''patch_dynamic_events_15_movz''), (0x4A7E6C, ''patch_dynamic_events_16_movz''),
     (0x4A7E98, ''patch_dynamic_events_17_movz''), (0x4A7EF4, ''patch_dynamic_events_18_movz''),
     (0x4A7EC4, ''patch_dynamic_events_19_movz'')]"

definition cheat_code_offsets :: "(u32 \<times> string) list" where
  "cheat_code_offsets =
    [
     (0x00A2AD04, ''patch_cheat_alloc_errors_01_movz''),
     (0x00A37C70, ''patch_cheat_alloc_errors_02_bytes''),
     (0x00844BE4, ''patch_cheat_extra_gr_orbs_elites_01_movz''),
     (0x00504C78, ''patch_cheat_drop_anything_01_movn''),
     (0x0088F82C, ''patch_cheat_guaranteed_legendaries_01_nop''),
     (0x0088F834, ''patch_cheat_guaranteed_legendaries_02_nop''),
     (0x0088F83C, ''patch_cheat_guaranteed_legendaries_03_branch''),
     (0x0088F9C4, ''patch_cheat_guaranteed_legendaries_04_nop''),
     (0x0088F9E0, ''patch_cheat_guaranteed_legendaries_05_branch''),
     (0x009E3250, ''patch_cheat_instant_portal_01_movz''),
     (0x004FFFE4, ''patch_cheat_testing_cosmetics_01_cmn_imm''),
     (0x0088DDFC, ''patch_cheat_primal_01_branch''), (0x0088DE58, ''patch_cheat_primal_02_movz''),
     (0x0088DF10, ''patch_cheat_primal_03_bytes''), (0x0088DFFC, ''patch_cheat_primal_04_bytes''),
     (0x0088DFE0, ''patch_cheat_primal_05_bytes''),
     (0x007396D0, ''patch_cheat_no_cooldowns_01_bytes''),
     (0x007F8960, ''patch_cheat_no_cooldowns_02_bytes''),
     (0x009BC53C, ''patch_cheat_no_cooldowns_03_bytes''),
     (0x009BC828, ''patch_cheat_no_cooldowns_04_bytes''),
     (0x0020636C, ''patch_cheat_instant_identify_01_nop''),
     (0x0040F9B0, ''patch_cheat_instant_craft_01_add_imm''),
     (0x001DCFA4, ''patch_cheat_instant_enchant_01_add_imm''),
     (0x00236D20, ''patch_cheat_cube_instant_craft_01_movz''),
     (0x00236D24, ''patch_cheat_cube_instant_craft_02_movz''),
     (0x00236D28, ''patch_cheat_cube_instant_craft_03_movz''),
     (0x00236D30, ''patch_cheat_cube_instant_craft_04_movz''),
     (0x008874D0, ''patch_cheat_cube_no_consume_01_ret''),
     (0x004873E4, ''patch_cheat_gr150_01_bytes''),
     (0x006A255C, ''patch_cheat_gem_upgrade_01_bytes''),
     (0x00349B98, ''patch_cheat_gem_speed_01_bytes''),
     (0x00C72F7C, ''patch_cheat_gem_lvl150_01_bytes''),
     (0x00C72F80, ''patch_cheat_gem_lvl150_02_movz''),
     (0x00C72F84, ''patch_cheat_gem_lvl150_03_bytes''),
     (0x00C72F88, ''patch_cheat_gem_lvl150_04_ret''),
     (0x007DF958, ''patch_cheat_gem_lvl150_05_bytes''),
     (0x004FB9E4, ''patch_cheat_multi_legendary_01_branch''),
     (0x004F9F1C, ''patch_cheat_any_gem_any_slot_01_movz''),
     (0x004F9F24, ''patch_cheat_any_gem_any_slot_02_branch''),
     (0x004F98DC, ''patch_cheat_auto_pickup_01_nop'')]"

definition patch_base_offsets :: "(u32 \<times> string) list" where
  "patch_base_offsets =
    [
     (0x56B10, ''patch_signin_01_movz''), (0x56B14, ''patch_signin_02_ret''),
     (0x47AD0C, ''patch_infinite_mp_01_resource_bl''),
     (0x335B68, ''patch_autosave_string_01_adrl''), (0x3656B8, ''patch_start_string_01_adrl''),
     (0x5F0, ''patch_local_logging_01_movz''), (0x84C, ''patch_rom_mount_01_movz''),
     (0x335C18, ''patch_autosave_wait_01_nop''), (0x0BF070, ''patch_item_manipulated_01_branch''),
     (0x802944, ''patch_dupe_noequip_01_nop''), (0x03E180, ''patch_dupe_stub_01_ret''),
     (0x481160, ''patch_dupe_stub_02_ret''), (0x483D00, ''patch_dupe_stub_03_ret''),
     (0x7B71D0, ''patch_dupe_stub_04_ret''), (0xA2C6B0, ''patch_log_ringbuffer_01_ret''),
     (0x962B10, ''patch_trace_message_01_ret''), (0x7B1C50, ''patch_trace_stat_path_01_adrl''),
     (0x35C1A0, ''patch_hideonline_01_branch''), (0x061620, ''patch_hideonline_02_movz''),
     (0x061624, ''patch_hideonline_03_ret''), (0x3627EC, ''patch_hideonline_04_movz''),
     (0x362800, ''patch_hideonline_05_movz''), (0x362840, ''patch_hideonline_06_bytes''),
     (0x362844, ''patch_hideonline_07_movz''), (0x221324, ''patch_hideonline_08_movz''),
     (0x221338, ''patch_hideonline_09_movz''), (0x221378, ''patch_hideonline_10_bytes''),
     (0x22137C, ''patch_hideonline_11_movz''), (0x5281B0, ''patch_handicap_unlock_01_movz''),
     (0x5281B4, ''patch_handicap_unlock_02_ret''), (0x369384, ''patch_itemcandrop_01_bytes''),
     (0x97F55C, ''patch_easykill_01_movz''), (0x97F560, ''patch_easykill_02_movk'')]"

definition unused_offsets :: "(u32 \<times> string) list" where
  "unused_offsets =
    [
     (0x7EAC18, ''hook_lobby_store_player_pointers_007eac18''),
     (0xB7DCC, ''hook_lobby_new_player_msg_000b7dcc''),
     (0x7B18B8, ''hook_lobby_sgame_get_007b18b8''),
     (0x488EC0, ''hook_lobby_return_true_00488ec0''),
     (0x488BA0, ''hook_lobby_return_true_00488ba0''),
     (0x504EE0, ''hook_lobby_return_true_00504ee0''), (0xA2AC70, ''hook_print_error''),
     (0xA2AE14, ''hook_print_error_string''), (0x4B104C, ''hook_debug_count_cosmetics_004b104c''),
     (0xBFD8A0, ''hook_debug_parse_file_00bfd8a0''), (0xC592D4, ''hook_debug_curl_data_00c592d4''),
     (0x3A73A8, ''hook_debug_font_snoop_003a73a8''),
     (0x69B9E0, ''hook_debug_store_attrib_defs_0069b9e0''),
     (0x6B5384, ''hook_debug_print_saved_attribs_006b5384'')]"

definition hooks_func_ptrs :: "string list" where
  "hooks_func_ptrs =
    [
     ''main_init'', ''gfx_init'', ''scheck_gfx_ready'', ''game_common_data_init'',
     ''shell_initialize'', ''sgame_initialize'', ''sinitialize_world'', ''cmd_line_parse'',
     ''var_res_label'', ''move_speed'', ''attack_speed'', ''floating_dmg'',
     ''font_string_get_rendered_size'', ''font_string_draw_03ff50'', ''font_string_draw_03e5b0'',
     ''font_string_draw_0010c8'', ''lobby_service_create'', ''lobby_service_idle_internal'',
     ''set_game_params_for_hero'', ''specifiers_from_modifier'', ''eval_mod'',
     ''dupe_dropped_item'', ''request_drop_item'', ''print_challenge_rift_failed'',
     ''challenge_rift_callback'', ''pubfile_data_hex'', ''print_error_display'',
     ''print_error_string_final'']"

definition game_func_ptrs :: "string list" where
  "game_func_ptrs =
    [
     ''GameActiveGameCommonDataIsServer'', ''GameServerCodeLeave_Tracked'',
     ''_GameServerCodeEnter'', ''GameIsStartUp'', ''ServerIsLocal'',
     ''GetPrimaryProfileUserIndex'', ''SGameGlobalsGet'', ''GameGetParts'',
     ''ServerGetOnlyGameConnection'', ''AppServerGetOnlyGame'', ''bdLogSubscriber_publish'',
     ''CmdLineGetParams'', ''AppDrawFlagSet'', ''XVarString_Set'', ''FileReadIntoMemory'',
     ''FileReferenceInit'', ''FileCreate'', ''FileExists'', ''FileOpen'', ''FileClose'',
     ''FileWrite'', ''sReadFile'', ''TraceInternal_Log'', ''ErrorManagerEnableLocalLogging'',
     ''ErrorManagerSetLogStreamDirectory'', ''ErrorManagerSetLogStreamFilename'',
     ''ErrorManagerLogToStream'', ''GetLocalStorage'', ''GetGameMessageTypeAndSize'',
     ''DisplaySeasonEndingMessage'', ''DisplayLongMessageForPlayer'',
     ''DisplayGameMessageForAllPlayers'', ''GfxGetDesiredDisplayMode'', ''GfxDeviceReset'',
     ''GfxForceDeviceReset'', ''GfxWindowChangeDisplayMode'', ''CGameAsyncRenderFlush'',
     ''CGameAsyncRenderGPUFlush'', ''SetUICConversionConstansts'', ''UI_GfxInit'',
     ''ImageTextureFrame_ctor'', ''FormatTruncatedNumber'', ''XVarBool_ToString'',
     ''XVarUint32_ToString'', ''XVarBool_Set'', ''XVarUint32_Set'', ''XVarFloat_Set'',
     ''OnSeasonsFileRetrieved'', ''OnConfigFileRetrieved'', ''OnBlacklistFileRetrieved'',
     ''StorageGetPublisherFile'', ''sOnGetChallengeRiftData'', ''ParsePartialFromString'',
     ''ChallengeData_ctor'', ''WeeklyChallengeData_ctor'', ''GameRandRangeInt'',
     ''GameIsSeasonal'', ''OnlineServiceGetSeasonNum'', ''OnlineServiceGetSeasonState'',
     ''ConsoleGamerProfileGetAccount'', ''OpenChallengeRift'',
     ''ChallengeRiftGrantRewardToPlayerIfEligible'', ''ChallengeRiftHandleChallengeRewards'',
     ''ChallengeRiftRewardEarned_SaveToProfile'', ''sigma_memory_init'',
     ''nx64_nvn_heap_early_init'', ''nx64_nvn_heap_add_pool'', ''bdMemory_set_allocate'',
     ''bdMemory_set_deallocate'', ''bdMemory_set_reallocate'', ''bdMemory_set_aligned_allocate'',
     ''bdMemory_set_aligned_deallocate'', ''bdMemory_set_aligned_reallocate'', ''bdMemory_alloc'',
     ''bdMemory_free'', ''bdMemory_realloc'', ''bdMemory_calloc'', ''bdMemory_aligned_alloc'',
     ''bdMemory_aligned_free'', ''bdMemory_aligned_realloc'', ''rawfree'', ''SigmaMemoryNew'',
     ''SigmaMemoryFree'', ''SigmaMemoryMove'', ''op_delete_1'', ''op_delete_2'',
     ''blz_basic_string'', ''blz_string_ctor'', ''blz_make_stringfb'', ''blz_make_stringf'',
     ''XLocaleToString'', ''MailCheckLobbyConnection'']"

definition items_func_ptrs :: "string list" where
  "items_func_ptrs =
    [
     ''sGetItemTypeString'', ''GBIDToStringAll'', ''GBIDToString'', ''AttribParamToString'',
     ''FastAttribToString'', ''AttribStringToParam'', ''StringListFetchLPCSTR'',
     ''ClearAssignedHero'', ''ACDInventoryItemAllowedInSlot'', ''ACDAddToInventory'',
     ''ItemHasLabel'', ''SetBindingLevel'', ''SetRecipient'', ''PopulateGenerator'',
     ''CItemGenerate'', ''ItemsGenerator_ctor'', ''ItemsGenerator_dtor'', ''AddItemToInventory'',
     ''GetCosmeticItemType'', ''ItemIsCosmeticItem'', ''SetCraftLevel'',
     ''Crafting_GetTransmogSlot'', ''SCosmeticItems_LearnCosmeticItem'',
     ''SCosmeticItems_LearnPet'', ''SItemPlayerExtractLegendaryPower'',
     ''SItemCrafting_TryUnlockTransmog'', ''SItemCrafting_TryUnlockSecondaryTmogs'',
     ''SCrafterIncrementLevel'', ''SItemCrafting_LearnRecipe'', ''sCrafterOnLevelUp'',
     ''LootRollForAncientLegendary'', ''GlobalSNOGet'', ''GBEnumerate'', ''GBGetHandlePool'',
     ''SNOToString'', ''ExperienceSetLevel'', ''ExperienceDropLootForAll'',
     ''LootQuickCreateItem'', ''SACDInventoryPickupOrSpillOntoGround'',
     ''FlippyFindLandingLocation'', ''FlippyDropCreateOnActor'', ''SItemGenerate'']"

definition player_actor_func_ptrs :: "string list" where
  "player_actor_func_ptrs =
    [
     ''PlayerGetHeroDisplayName'', ''PlayerListGetElementPool'', ''PlayerList_ctor'',
     ''PlayerListGetSingle'', ''PlayerListGetAllInGame'', ''MessageSendToClient'', ''ACDTryToGet'',
     ''ACD_AttributesGetInt'', ''ACD_AttributesSetInt'', ''ACD_AttributesGetFloat'',
     ''ACD_AttributesSetFloat'', ''ACD_ModifyCurrencyAmount'', ''ACD_SetCurrencyAmount'',
     ''FastAttribGetValueInt'', ''FastAttribGetValueFloat'', ''KeyGetDataType'',
     ''KeyGetParamType'', ''LocalPlayerGet'', ''PlayerGetByACD'',
     ''GetPrimaryPlayerForGameConnection'', ''ActorGet'', ''ActorFlagSet'', ''PlayerGetFirstAll'',
     ''PlayerGetNextAll'', ''SPlayerIsLocal'', ''GetPrimaryPlayer'', ''PlayerIsPrimary'',
     ''PlayerGetFirstInGame'', ''PlayerGetByPlayerIndex'']"

definition crefstring_ptrs :: "string list" where
  "crefstring_ptrs =
    [
     ''CRefString_ctor_default'', ''CRefString_ctor_int'', ''CRefString_ctor_cref'',
     ''CRefString_ctor_lpcstr'', ''CRefString_dtor'', ''CRefString_op_eq_cref'',
     ''CRefString_op_eq_cref_assign'', ''CRefString_op_eq_lpcstr'',
     ''CRefString_op_add_eq_lpcstr'', ''CRefString_CommonCtorBody'', ''CRefString_ReAllocate'',
     ''CRefString_Free'', ''CRefString_Allocate'', ''CRefString_Append'']"

section \<open>The table set\<close>

definition all_offsets :: "(u32 \<times> string) list" where
  "all_offsets =
     early_hook_offsets @ utility_hook_offsets @ season_hook_offsets @ lobby_hook_offsets
     @ debugging_hook_offsets @ global_offsets @ season_flag_offsets @ symbol_offsets_1 @ symbol_offsets_2
     @ event_flag_offsets @ xvar_offsets @ patch_data_offsets @ buildlocker_offsets
     @ var_res_label_offsets @ release_fps_offsets @ ddm_label_offsets @ resolution_target_offsets
     @ dynamic_seasonal_offsets @ dynamic_event_offsets @ cheat_code_offsets @ patch_base_offsets
     @ unused_offsets"

definition main_entry :: "u32 \<times> string \<Rightarrow> LookupEntry" where
  "main_entry e = \<lparr>le_ModuleIndex = idx_Main, le_Offset = fst e, le_Symbol = snd e\<rparr>"

definition UserTableSet :: "VersionedTable list" where
  "UserTableSet = [\<lparr>s_Version = DEFAULT, Table = map main_entry all_offsets\<rparr>]"

definition sym_key :: "string \<Rightarrow> string" where "sym_key name = ''sym_'' @ name"

text \<open>The keys that static initialisers look up.\<close>

definition static_keys :: "string list" where
  "static_keys =
     map sym_key (hooks_func_ptrs @ game_func_ptrs @ items_func_ptrs @ player_actor_func_ptrs @ crefstring_ptrs)"

lemmas offset_groups =
  early_hook_offsets_def utility_hook_offsets_def season_hook_offsets_def lobby_hook_offsets_def
  debugging_hook_offsets_def global_offsets_def season_flag_offsets_def symbol_offsets_1_def symbol_offsets_2_def
  event_flag_offsets_def xvar_offsets_def patch_data_offsets_def buildlocker_offsets_def var_res_label_offsets_def
  release_fps_offsets_def ddm_label_offsets_def resolution_target_offsets_def dynamic_seasonal_offsets_def
  dynamic_event_offsets_def cheat_code_offsets_def patch_base_offsets_def unused_offsets_def

section \<open>No key is missing\<close>

lemma offsets_fit: "list_all (\<lambda>e. fst e < 0x10000000) all_offsets"
  unfolding all_offsets_def list_all_append offset_groups by simp

lemma main_entry_simps [simp]:
  "le_ModuleIndex (main_entry e) = idx_Main" "le_Offset (main_entry e) = fst e" "le_Symbol (main_entry e) = snd e"
  by (simp_all add: main_entry_def)

text \<open>A list of names is found in a table by giving the position of each name.\<close>

lemma found_at:
  assumes "map f ns = map (nth (map snd es)) is" "list_all (\<lambda>i. i < length es) is" "set es \<subseteq> S"
  shows "f ` set ns \<subseteq> snd ` S"
proof -
  have "f ` set ns = set (map (nth (map snd es)) is)" unfolding assms(1)[symmetric] by simp
  also have "\<dots> \<subseteq> set (map snd es)" using assms(2) nth_mem[of _ "map snd es"] by (auto simp: list_all_iff simp del: nth_map)
  also have "\<dots> \<subseteq> snd ` S" using assms(3) by auto
  finally show ?thesis .
qed

lemma hooks_func_ptrs_found: "sym_key ` set hooks_func_ptrs \<subseteq> snd ` set all_offsets"
proof (rule found_at[where es = "early_hook_offsets @ utility_hook_offsets @ lobby_hook_offsets @ debugging_hook_offsets"])
  show "map sym_key hooks_func_ptrs = map (nth (map snd (early_hook_offsets @ utility_hook_offsets @ lobby_hook_offsets @ debugging_hook_offsets)))
    [
     0, 1, 2, 3, 4, 5, 6, 7, 8, 9, 10, 11, 12, 13, 14, 15, 17, 16, 18, 19, 20, 21, 22, 23, 24, 25,
     26, 29]"
    by (simp add: sym_key_def hooks_func_ptrs_def early_hook_offsets_def utility_hook_offsets_def lobby_hook_offsets_def debugging_hook_offsets_def)
qed (simp add: early_hook_offsets_def utility_hook_offsets_def lobby_hook_offsets_def debugging_hook_offsets_def, auto simp: all_offsets_def)

lemma game_func_ptrs_found: "sym_key ` set game_func_ptrs \<subseteq> snd ` set all_offsets"
proof (rule found_at[where es = "season_hook_offsets @ symbol_offsets_1 @ symbol_offsets_2"])
  show "map sym_key game_func_ptrs = map (nth (map snd (season_hook_offsets @ symbol_offsets_1 @ symbol_offsets_2)))
    [
     4, 5, 6, 7, 8, 9, 10, 11, 12, 13, 14, 15, 16, 17, 18, 19, 20, 21, 22, 23, 24, 25, 26, 27, 28,
     29, 30, 31, 32, 33, 34, 35, 52, 53, 54, 55, 57, 58, 59, 60, 61, 62, 63, 64, 65, 66, 67, 1, 0,
     2, 68, 69, 70, 71, 72, 73, 74, 75, 76, 77, 78, 80, 79, 81, 36, 37, 38, 39, 40, 41, 42, 43, 44,
     45, 46, 47, 48, 49, 50, 51, 82, 83, 84, 85, 86, 87, 88, 89, 91, 90, 177, 3]"
    by (simp add: sym_key_def game_func_ptrs_def season_hook_offsets_def symbol_offsets_1_def symbol_offsets_2_def)
qed (simp add: season_hook_offsets_def symbol_offsets_1_def symbol_offsets_2_def, auto simp: all_offsets_def)

lemma items_func_ptrs_found: "sym_key ` set items_func_ptrs \<subseteq> snd ` set all_offsets"
proof (rule found_at[where es = "symbol_offsets_2"])
  show "map sym_key items_func_ptrs = map (nth (map snd (symbol_offsets_2)))
    [
     1, 5, 6, 2, 3, 4, 7, 8, 9, 10, 12, 13, 14, 15, 16, 17, 18, 22, 24, 25, 26, 27, 30, 31, 32, 33,
     34, 35, 36, 37, 38, 39, 40, 41, 42, 28, 29, 23, 11, 19, 20, 21]"
    by (simp add: sym_key_def items_func_ptrs_def symbol_offsets_2_def)
qed (simp add: symbol_offsets_2_def, auto simp: all_offsets_def)

lemma player_actor_func_ptrs_found: "sym_key ` set player_actor_func_ptrs \<subseteq> snd ` set all_offsets"
proof (rule found_at[where es = "symbol_offsets_2"])
  show "map sym_key player_actor_func_ptrs = map (nth (map snd (symbol_offsets_2)))
    [
     47, 54, 53, 55, 56, 69, 64, 58, 60, 59, 61, 62, 63, 65, 66, 67, 68, 45, 46, 52, 70, 71, 48,
     49, 57, 44, 43, 50, 51]"
    by (simp add: sym_key_def player_actor_func_ptrs_def symbol_offsets_2_def)
qed (simp add: symbol_offsets_2_def, auto simp: all_offsets_def)

lemma crefstring_ptrs_found: "sym_key ` set crefstring_ptrs \<subseteq> snd ` set all_offsets"
proof (rule found_at[where es = "symbol_offsets_2"])
  show "map sym_key crefstring_ptrs = map (nth (map snd (symbol_offsets_2)))
    [
     72, 73, 74, 75, 80, 81, 82, 83, 84, 76, 77, 78, 79, 85]"
    by (simp add: sym_key_def crefstring_ptrs_def symbol_offsets_2_def)
qed (simp add: symbol_offsets_2_def, auto simp: all_offsets_def)

end
