(* ===== verification/Startup.thy ===== *)
theory Startup
  imports Boot Rw_Pages Rtld Offsets
begin

text \<open>
  The start of the mod as a module (\<open>source/lib/init/init.cpp\<close>): \<open>exl_init\<close> inspects the
  memory layout, maps the patchable image, determines the version of the game and selects the
  offset table, the static initialisers look their function pointers up in it, and \<open>exl_main\<close>
  follows.  The kernel, the game's memory and the linker's tables are the environment.
\<close>

section \<open>The environment\<close>

record environment =
  env_fuel :: nat
  query_memory :: "u64 \<Rightarrow> MemoryInfo option"
  header_word :: "u64 \<Rightarrow> u32"
  module_start :: u64
  kernel_info :: "InfoType \<Rightarrow> u64 option"
  unmap_code :: unmap_result
  find_aslr :: "u64 \<Rightarrow> u64"
  reserve :: "u64 \<Rightarrow> u64 \<Rightarrow> nat option"
  same_bytes :: "u64 \<Rightarrow> u64 \<Rightarrow> u64 \<Rightarrow> bool"
  read_byte :: "u64 \<Rightarrow> char"
  D3CLIENT_VER :: string
  env_image :: image
  env_modules :: module_data

section \<open>exl_init\<close>

record exl_state =
  es_infos :: "ModuleInfo option list"
  es_self :: nat
  es_regions :: regions
  es_pages :: RwPages
  es_version :: int
  es_reloc :: reloc_state
  es_words :: words

definition InitMemLayout :: "environment \<Rightarrow> (ModuleInfo option list \<times> nat \<times> regions) outcome" where
  "InitMemLayout env =
     (case FindModules (env_fuel env) (query_memory env) (header_word env) (module_start env) of
        Some (Finished (infos, self)) \<Rightarrow>
          (case FindRegions (kernel_info env) (unmap_code env) of
             Some r \<Rightarrow> Done (infos, self, r)
           | None \<Rightarrow> Aborted ''FindRegions'')
      | Some (Abort m) \<Rightarrow> Aborted m
      | None \<Rightarrow> Aborted ''no fuel'')"

text \<open>The patchable image is the main module up to the end of its read-only data.\<close>

definition InitPatcherImpl :: "environment \<Rightarrow> ModuleInfo option list \<Rightarrow> RwPages outcome" where
  "InitPatcherImpl env infos =
     (case GetModuleInfo infos idx_Main of
        None \<Rightarrow> Aborted ''no Main module''
      | Some m \<Rightarrow>
          let start = rg_start (m_Total m); len = GetEnd (m_Rodata m) - start in
          (case construct (env_fuel env) (query_memory env) (find_aslr env) (reserve env) (same_bytes env) start len of
             None \<Rightarrow> Aborted ''RwPages''
           | Some (p, es) \<Rightarrow> Done p))"

definition InitVersion :: "environment \<Rightarrow> ModuleInfo option list \<Rightarrow> int outcome" where
  "InitVersion env infos =
     (case DetermineUserVersion (read_byte env) (D3CLIENT_VER env) infos of
        None \<Rightarrow> Aborted ''no Main module''
      | Some v \<Rightarrow> Done v)"

definition Initialize_lookup ::
  "environment \<Rightarrow> VersionedTable list \<Rightarrow> ModuleInfo option list \<Rightarrow> nat \<Rightarrow> int \<Rightarrow> words \<Rightarrow> (reloc_state \<times> words) outcome" where
  "Initialize_lookup env tables infos self version w =
     (case Initialize_reloc tables version reloc_start of
        None \<Rightarrow> Aborted ''table''
      | Some (st, apply_table) \<Rightarrow>
          if \<not> apply_table then Done (st, w)
          else (case Apply (env_image env) (env_modules env) (s_CachedLookup st) infos self w of
                  None \<Rightarrow> Aborted ''relocation''
                | Some w \<Rightarrow> Done (st, w)))"

fun bind_outcome :: "'a outcome \<Rightarrow> ('a \<Rightarrow> 'b outcome) \<Rightarrow> 'b outcome" where
  "bind_outcome (Done x) f = f x"
| "bind_outcome (Aborted m) f = Aborted m"
| "bind_outcome (Failed m) f = Failed m"

definition exl_init :: "environment \<Rightarrow> VersionedTable list \<Rightarrow> words \<Rightarrow> exl_state outcome" where
  "exl_init env tables w =
     bind_outcome (InitMemLayout env) (\<lambda>(infos, self, r).
     bind_outcome (InitPatcherImpl env infos) (\<lambda>p.
     bind_outcome (InitVersion env infos) (\<lambda>v.
     bind_outcome (Initialize_lookup env tables infos self v w) (\<lambda>(st, w).
       Done \<lparr>es_infos = infos, es_self = self, es_regions = r, es_pages = p, es_version = v, es_reloc = st,
             es_words = w\<rparr>))))"

section \<open>Static initialisers\<close>

text \<open>Each looks one key up and stores the address; the first that fails stops the module.\<close>

fun init_array :: "(string \<Rightarrow> lookup_outcome) \<Rightarrow> string list \<Rightarrow> (string \<times> u64) list outcome" where
  "init_array lookup [] = Done []"
| "init_array lookup (key # keys) =
     (case lookup key of
        PastEnd \<Rightarrow> Aborted ''read past the lookup table''
      | MissingEntry \<Rightarrow> Aborted (''Missing lookup entry: '' @ key)
      | NoModule \<Rightarrow> Aborted ''missing module''
      | Address a \<Rightarrow> bind_outcome (init_array lookup keys) (\<lambda>ps. Done ((key, a) # ps)))"

definition address_or_null :: "lookup_outcome \<Rightarrow> u64" where
  "address_or_null r = (case r of Address a \<Rightarrow> a | _ \<Rightarrow> 0)"

text \<open>
  The entry point with the keys of the static initialisers: \<open>exl_main\<close> runs only when all of
  them resolved.
\<close>

definition exl_module_init ::
  "environment \<Rightarrow> VersionedTable list \<Rightarrow> string list \<Rightarrow> (nat \<Rightarrow> char) \<Rightarrow> words \<Rightarrow> boot_state
     \<Rightarrow> (exl_state \<times> (string \<times> u64) list \<times> boot_state) outcome" where
  "exl_module_init env tables keys read_rodata w b =
     bind_outcome (exl_init env tables w) (\<lambda>es.
       let lookup = GameOffsetFromTable (s_CachedLookup (es_reloc es)) (es_infos es) in
       bind_outcome (init_array lookup keys) (\<lambda>ptrs.
         bind_outcome (exl_main read_rodata (\<lambda>key. address_or_null (lookup key)) b) (\<lambda>b. Done (es, ptrs, b))))"

section \<open>All keys resolve\<close>

lemma bind_outcome_Done: "bind_outcome x f = Done y \<longleftrightarrow> (\<exists>z. x = Done z \<and> f z = Done y)"
  by (cases x) auto

lemma init_array_all:
  assumes "\<forall>k \<in> set keys. \<exists>a. lookup k = Address a"
  shows "init_array lookup keys = Done (map (\<lambda>k. (k, address_or_null (lookup k))) keys)"
  using assms by (induction keys) (auto simp: address_or_null_def)

lemma table_entry_address:
  assumes "unique_hashes t" "e \<in> set (Table t)" "le_ModuleIndex e < 16" "infos ! le_ModuleIndex e = Some m"
    "le_Offset e < 0x10000000"
  shows "GameOffsetFromTable (s_SortedTable t) infos (le_Symbol e) = Address (rg_start (m_Total m) + ucast (le_Offset e))"
proof -
  have "take_bit 28 (le_Offset e) = le_Offset e"
    using assms(5) by (simp add: take_bit_eq_mod word_less_nat_alt word_unat_eq_iff unat_mod_distrib)
  then show ?thesis
    using assms by (simp add: GameOffsetFromTable_def find_in_table Convert_def s_ModuleIndexBitCount_def
        GetModuleInfo_def HasModule_def)
qed

lemma empty_table_past_end: "GameOffsetFromTable [] infos name = PastEnd"
  by (simp add: GameOffsetFromTable_def FindByName_def FindByHash_def lower_bound_def)

lemma Initialize_lookup_table:
  assumes "Initialize_lookup env tables infos self v w = Done (st, w')"
  shows "\<exists>apply_table. Initialize_reloc tables v reloc_start = Some (st, apply_table)"
proof (cases "Initialize_reloc tables v reloc_start")
  case (Some r)
  then show ?thesis
    using assms by (cases r) (auto simp: Initialize_lookup_def split: if_splits option.splits)
qed (use assms in \<open>simp add: Initialize_lookup_def\<close>)

lemma exl_init_parts:
  assumes "exl_init env tables w = Done es"
  shows "InitPatcherImpl env (es_infos es) = Done (es_pages es)"
    "Initialize_lookup env tables (es_infos es) (es_self es) (es_version es) w = Done (es_reloc es, es_words es)"
  using assms by (auto simp: exl_init_def bind_outcome_Done)

lemma exl_init_table:
  assumes "exl_init env tables w = Done es"
  shows "\<exists>apply_table. Initialize_reloc tables (es_version es) reloc_start = Some (es_reloc es, apply_table)"
  by (rule Initialize_lookup_table[OF exl_init_parts(2)[OF assms]])

lemma unknown_version_empty:
  assumes "Initialize_reloc tables v reloc_start = Some (st, b)" "\<forall>t \<in> set tables. s_Version t \<noteq> v"
  shows "s_CachedLookup st = []"
proof -
  have "takeWhile (\<lambda>x. x \<noteq> v) (map s_Version tables) = map s_Version tables"
    using assms(2) by (simp add: takeWhile_eq_all_conv)
  then have "\<not> DoesTableExist tables v"
    unfolding DoesTableExist_def FindTableIndex_def s_Versions_def Let_def by (simp only: simp_thms if_True)
  then show ?thesis using assms(1) by (auto simp: Initialize_reloc_def reloc_start_def split: if_splits)
qed

lemma exl_init_main:
  assumes "exl_init env tables w = Done es"
  shows "\<exists>m. es_infos es ! idx_Main = Some m"
proof -
  have "GetModuleInfo (es_infos es) idx_Main \<noteq> None"
    using exl_init_parts(1)[OF assms] by (auto simp: InitPatcherImpl_def split: option.splits)
  then show ?thesis by (auto simp: GetModuleInfo_def HasModule_def)
qed

text \<open>
  Static initialisation resolves every pointer or stops the module.  After \<open>exl_init\<close>
  with tables that compile, have all entries in the main module with 28-bit offsets and
  contain every key, all static initialisers succeed for a game version that has a table, each
  with the start of the main module plus the offset of its key; for any other version the
  first of them reads past the empty table, before \<open>exl_main\<close> checks the build.
\<close>

lemma static_initialisers_resolve:
  assumes "exl_init env tables w = Done es" "static_asserts tables" "length tables < SIZE_MAX"
    "\<forall>t \<in> set tables. (\<forall>e \<in> set (Table t). le_ModuleIndex e = idx_Main \<and> le_Offset e < 0x10000000)
       \<and> set keys \<subseteq> le_Symbol ` set (Table t)"
    "keys \<noteq> []"
  shows "if \<exists>t \<in> set tables. s_Version t = es_version es
    then \<exists>m ptrs. es_infos es ! idx_Main = Some m
      \<and> init_array (GameOffsetFromTable (s_CachedLookup (es_reloc es)) (es_infos es)) keys = Done ptrs
      \<and> map fst ptrs = keys
      \<and> (\<forall>(k, a) \<in> set ptrs. \<exists>t \<in> set tables. \<exists>e \<in> set (Table t).
           s_Version t = es_version es \<and> le_Symbol e = k \<and> a = rg_start (m_Total m) + ucast (le_Offset e))
    else exl_module_init env tables keys read_rodata w b = Aborted ''read past the lookup table''"
proof -
  let ?lookup = "GameOffsetFromTable (s_CachedLookup (es_reloc es)) (es_infos es)"
  obtain ap where r: "Initialize_reloc tables (es_version es) reloc_start = Some (es_reloc es, ap)"
    using exl_init_table[OF assms(1)] by blast
  show ?thesis
  proof (cases "\<exists>t \<in> set tables. s_Version t = es_version es")
    case True
    then obtain t where t: "List.find (\<lambda>t. s_Version t = es_version es) tables = Some t"
      by (metis (mono_tags, lifting) find_None_iff not_None_eq)
    then have tt: "t \<in> set tables" "s_Version t = es_version es" by (auto simp: find_Some_iff)
    then have u: "unique_hashes t" using assms(2) by (auto simp: static_asserts_def list_all_iff)
    have c: "s_CachedLookup (es_reloc es) = s_SortedTable t"
      using r Initialize_reloc_entries[OF t assms(3), of reloc_start] by (auto simp: reloc_start_def)
    obtain m where m: "es_infos es ! idx_Main = Some m" using exl_init_main[OF assms(1)] by blast
    have a: "\<exists>e \<in> set (Table t). le_Symbol e = k \<and> ?lookup k = Address (rg_start (m_Total m) + ucast (le_Offset e))"
      if k: "k \<in> set keys" for k
    proof -
      obtain e where e: "e \<in> set (Table t)" "le_Symbol e = k" using assms(4) tt(1) k by blast
      moreover have "le_ModuleIndex e = idx_Main" "le_Offset e < 0x10000000" using assms(4) tt(1) e(1) by blast+
      ultimately show ?thesis
        using table_entry_address[OF u e(1), of "es_infos es" m] m by (auto simp: c idx_Main_def)
    qed
    then have "init_array ?lookup keys = Done (map (\<lambda>k. (k, address_or_null (?lookup k))) keys)"
      by (intro init_array_all) blast
    moreover have "\<forall>(k, a) \<in> set (map (\<lambda>k. (k, address_or_null (?lookup k))) keys). \<exists>t \<in> set tables. \<exists>e \<in> set (Table t).
           s_Version t = es_version es \<and> le_Symbol e = k \<and> a = rg_start (m_Total m) + ucast (le_Offset e)"
      using a tt by (fastforce simp: address_or_null_def)
    moreover have "map fst (map (\<lambda>k. (k, address_or_null (?lookup k))) keys) = keys" by (simp add: comp_def)
    ultimately show ?thesis using True m by auto
  next
    case False
    then have c: "s_CachedLookup (es_reloc es) = []" using unknown_version_empty[OF r] by blast
    obtain k ks where "keys = k # ks" using assms(5) by (cases keys) auto
    then have "exl_module_init env tables keys read_rodata w b = Aborted ''read past the lookup table''"
      using assms(1) by (simp add: exl_module_init_def c empty_table_past_end Let_def)
    then show ?thesis using False by simp
  qed
qed

text \<open>The tables of the program satisfy the conditions on keys and offsets.\<close>

lemma user_tables_ok:
  "\<forall>t \<in> set UserTableSet. (\<forall>e \<in> set (Table t). le_ModuleIndex e = idx_Main \<and> le_Offset e < 0x10000000)
     \<and> set (static_keys @ kRequiredBootLookupKeys) \<subseteq> le_Symbol ` set (Table t)"
proof -
  have "\<forall>e \<in> set all_offsets. fst e < 0x10000000"
    using offsets_fit by (simp add: list_all_iff)
  moreover have "set static_keys \<subseteq> snd ` set all_offsets"
    unfolding static_keys_def
    using hooks_func_ptrs_found game_func_ptrs_found items_func_ptrs_found player_actor_func_ptrs_found
      crefstring_ptrs_found by (simp add: image_Un)
  moreover have "set kRequiredBootLookupKeys \<subseteq> snd ` set all_offsets"
  proof -
    have "set kRequiredBootLookupKeys \<subseteq> snd ` set (early_hook_offsets @ global_offsets)"
      by (simp add: kRequiredBootLookupKeys_def early_hook_offsets_def global_offsets_def)
    then show ?thesis by (auto simp: all_offsets_def)
  qed
  ultimately show ?thesis by (auto simp: UserTableSet_def image_image)
qed

section \<open>A small start\<close>

text \<open>Three modules, of which the last is the mod and imports \<open>a\<close>.\<close>

definition start_map :: "MemoryInfo list" where
  "start_map =
     [free_region 0 0x1000,
      \<lparr>mi_addr = 0x1000, mi_size = 0x400, mi_type = 3, mi_perm = 5\<rparr>,
      \<lparr>mi_addr = 0x1400, mi_size = 0x400, mi_type = 3, mi_perm = 1\<rparr>,
      \<lparr>mi_addr = 0x1800, mi_size = 0x800, mi_type = 4, mi_perm = 3\<rparr>,
      \<lparr>mi_addr = 0x2000, mi_size = 0x1000, mi_type = 3, mi_perm = 5\<rparr>,
      \<lparr>mi_addr = 0x3000, mi_size = 0x1000, mi_type = 3, mi_perm = 1\<rparr>,
      \<lparr>mi_addr = 0x4000, mi_size = 0x1000, mi_type = 4, mi_perm = 3\<rparr>,
      \<lparr>mi_addr = 0x5000, mi_size = 0x400, mi_type = 3, mi_perm = 5\<rparr>,
      \<lparr>mi_addr = 0x5400, mi_size = 0x400, mi_type = 3, mi_perm = 1\<rparr>,
      \<lparr>mi_addr = 0x5800, mi_size = 0x800, mi_type = 4, mi_perm = 3\<rparr>,
      free_region 0x6000 (- 0x6000)]"

definition start_query :: "u64 \<Rightarrow> MemoryInfo option" where
  "start_query a = find (\<lambda>mi. mi_addr mi = a) start_map"

definition start_env :: environment where
  "start_env = \<lparr>env_fuel = 20, query_memory = start_query, header_word = (\<lambda>_. 0x40), module_start = 0x5000,
     kernel_info = (\<lambda>_. Some 0x100000), unmap_code = OtherResult, find_aslr = (\<lambda>_. 0x70000000),
     reserve = (\<lambda>_ _. Some 1), same_bytes = (\<lambda>_ _ _. True), read_byte = (\<lambda>_. CHR ''D''), D3CLIENT_VER = ''DDD'',
     env_image = tiny_image, env_modules = tiny_data\<rparr>"

definition start_module :: "u64 \<Rightarrow> ModuleInfo" where
  "start_module a =
     (if a = 0x1000 then \<lparr>m_Total = \<lparr>rg_start = 0x1000, rg_size = 0x1000\<rparr>, m_Text = \<lparr>rg_start = 0x1000, rg_size = 0x400\<rparr>,
        m_Rodata = \<lparr>rg_start = 0x1400, rg_size = 0x400\<rparr>, m_Data = \<lparr>rg_start = 0x1800, rg_size = 0x800\<rparr>, m_Mod = 0x1040\<rparr>
      else if a = 0x2000 then \<lparr>m_Total = \<lparr>rg_start = 0x2000, rg_size = 0x3000\<rparr>, m_Text = \<lparr>rg_start = 0x2000, rg_size = 0x1000\<rparr>,
        m_Rodata = \<lparr>rg_start = 0x3000, rg_size = 0x1000\<rparr>, m_Data = \<lparr>rg_start = 0x4000, rg_size = 0x1000\<rparr>, m_Mod = 0x2040\<rparr>
      else \<lparr>m_Total = \<lparr>rg_start = 0x5000, rg_size = 0x1000\<rparr>, m_Text = \<lparr>rg_start = 0x5000, rg_size = 0x400\<rparr>,
        m_Rodata = \<lparr>rg_start = 0x5400, rg_size = 0x400\<rparr>, m_Data = \<lparr>rg_start = 0x5800, rg_size = 0x800\<rparr>, m_Mod = 0x5040\<rparr>)"

definition start_infos :: "ModuleInfo option list" where
  "start_infos = [Some (start_module 0x1000), Some (start_module 0x2000), None, None, None, None, None, None, None, None,
     None, None, Some (start_module 0x5000)]"

lemma start_memory_map: "memory_map start_query start_map"
  by (simp add: memory_map_def start_map_def start_query_def free_region_def kind_defs)

lemma start_modules: "modules_in (\<lambda>_. 0x40) start_map = [start_module 0x1000, start_module 0x2000, start_module 0x5000]"
  by (simp add: start_map_def free_region_def kind_defs module_at_def region_def start_module_def GetEnd_def)

lemma start_found: "FindModules 20 start_query (\<lambda>_. 0x40) 0x5000 = Some (Finished (start_infos, idx_Sdk))"
proof -
  have l: "length start_map < 20" by (simp add: start_map_def)
  have t: "module_table [start_module 0x1000, start_module 0x2000, start_module 0x5000] = start_infos"
    by (simp add: module_table_def idx_End_def eval_nat_numeral start_infos_def)
  have "self_index 0x5000 start_infos = idx_Sdk"
    by (simp add: self_index_def idx_End_def idx_Sdk_def upt_rec start_infos_def start_module_def)
  then show ?thesis
    using find_modules_result[OF start_memory_map l, of "\<lambda>_. 0x40" "0x5000"] start_modules t
    by (simp add: Let_def idx_End_def idx_Sdk_def)
qed

lemma start_layout: "\<exists>r. InitMemLayout start_env = Done (start_infos, idx_Sdk, r)"
  by (simp add: InitMemLayout_def start_env_def start_found FindRegions_def info_range_def)

lemma start_patcher: "\<exists>p. InitPatcherImpl start_env start_infos = Done p"
proof -
  have "ForEachMemRange 20 start_query 0x2000 0x2000 =
      Some (Some [(0x2000, 0x1000, 0), (0x3000, 0x1000, 0x1000)])"
    by code_simp
  then have "ForEachMemRange 20 start_query (ALIGN_DOWN 0x2000 PAGE_SIZE) (ALIGN_UP 0x2000 PAGE_SIZE) =
      Some (Some [(0x2000, 0x1000, 0), (0x3000, 0x1000, 0x1000)])"
    by (simp add: page_bits)
  from constructed[where find_aslr = "\<lambda>_. 0x70000000" and reserve = "\<lambda>_ _. Some 1" and same = "\<lambda>_ _ _. True", OF _ refl _ this]
  show ?thesis
    by (simp add: InitPatcherImpl_def GetModuleInfo_def HasModule_def start_infos_def idx_Main_def start_module_def
        start_env_def Let_def GetEnd_def)
qed

lemma start_version: "InitVersion start_env start_infos = Done DEFAULT"
proof -
  have "matches_at (\<lambda>_. CHR ''D'') 0x3000 ''DDD''" by (simp add: matches_at_def upt_rec)
  then have "FindStringInRange (\<lambda>_. CHR ''D'') \<lparr>rg_start = 0x3000, rg_size = 0x1000\<rparr> ''DDD'' \<noteq> None"
    by (auto simp: FindStringInRange_def find_None_iff intro!: exI[of _ 0])
  then show ?thesis
    by (simp add: InitVersion_def DetermineUserVersion_def GetModuleInfo_def HasModule_def start_infos_def idx_Main_def
        start_module_def start_env_def)
qed

lemma start_lookup: "\<exists>st w. Initialize_lookup start_env [two_names] start_infos idx_Sdk DEFAULT (\<lambda>_. 0) = Done (st, w)"
proof -
  have t: "List.find (\<lambda>t. s_Version t = DEFAULT) [two_names] = Some two_names" "length [two_names] < SIZE_MAX"
    by (simp_all add: two_names_def SIZE_MAX_def)
  have i: "start_infos ! idx_Sdk = Some (start_module 0x5000)" by (simp add: start_infos_def idx_Sdk_def)
  have "rg_start (m_Total (start_module 0x5000)) = 0x5000" "m_Mod (start_module 0x5000) = 0x5040"
    by (simp_all add: start_module_def)
  from tiny_apply[OF i this, of "\<lambda>_. 0"] show ?thesis
    by (simp add: Initialize_lookup_def Initialize_reloc_entries[OF t] start_env_def reloc_start_def)
qed

end
