(* ===== verification/Patches.thy ===== *)
theory Patches
  imports Patcher Startup
begin

text \<open>
  The patches of the game image (\<open>source/program/d3/patches.cpp\<close>).  The body of a patch
  function is the list of what it does, in order: words and bytes written through
  \<open>RandomAccessPatcher\<close>, data stored through either view, console variables set, and calls
  of functions that have a patcher of their own.  \<open>run_patch\<close> performs a body.
\<close>

section \<open>Operations of a patch function\<close>

text \<open>Objects of the mod that patched code is made to point at.\<close>

datatype own_object =
    g_tSignature | crgbaTan | crgbaWhite | g_rgbaText | g_rgbaDropShadow
  | g_szHackVerWatermark | g_szHackVerAutosave | g_szHackVerStart | g_szTraceStat

text \<open>
  \<open>Patch\<close>: \<open>jest.Patch<ins::...>(PatchTable(key), ...)\<close>, with the instruction word.
  \<open>Store_Rw\<close>, \<open>Store_Ro\<close>: data assigned through \<open>RwFromAddr\<close>, \<open>RoFromAddr\<close>.
  \<open>Call\<close>: a function with its own patcher.
\<close>

datatype patch_op =
    Patch string u32
  | Patch_at u64 u32
  | Patch_dword string "u8 list"
  | MakeAdrlPatch string own_object Register
  | Store_Rw string "u8 list"
  | Store_Ro string "u8 list"
  | XVarBool_Set string bool
  | XVarUint32_Set string u32
  | Call "patch_op list"

datatype xvar_call = Set_Bool string bool u32 | Set_Uint32 string u32 u32

text \<open>Where things are: the two views, the offset table, the main module, the mod's objects.\<close>

record patch_env =
  pe_pages :: Pages
  pe_lookup :: "string \<Rightarrow> lookup_outcome"
  pe_start :: u64
  pe_object :: "own_object \<Rightarrow> u64"

definition PatchTable :: "patch_env \<Rightarrow> string \<Rightarrow> u64 outcome" where
  "PatchTable e name =
     (case pe_lookup e name of
        Address a \<Rightarrow> Done (a - pe_start e)
      | PastEnd \<Rightarrow> Aborted ''read past the lookup table''
      | MissingEntry \<Rightarrow> Aborted ''missing lookup entry''
      | NoModule \<Rightarrow> Aborted ''missing module'')"

type_synonym jest = "RandomAccessPatcher \<times> xvar_call list"

definition Adrl_words :: "patch_env \<Rightarrow> u64 \<Rightarrow> u64 \<Rightarrow> Register \<Rightarrow> u32 \<times> u32" where
  "Adrl_words e mainAddr adrpTarget registerTarget =
     (let diff = GetDifference (pe_start e + mainAddr) adrpTarget
      in (Adrp registerTarget (ucast (m_Page diff)),
          AddImmediate registerTarget registerTarget (ucast (PageAndOffsetDifference.m_Offset diff))))"

text \<open>A function with its own patcher returns: its patcher is destroyed.\<close>

definition leave :: "Pages \<Rightarrow> RandomAccessPatcher \<Rightarrow> RandomAccessPatcher \<Rightarrow> RandomAccessPatcher" where
  "leave p outer inner =
     (let q = Random_Destroy p inner
      in outer\<lparr>r_mem := r_mem q, r_flushes := r_flushes outer @ r_flushes q\<rparr>)"

definition run_adrl :: "patch_env \<Rightarrow> u64 \<Rightarrow> u64 \<Rightarrow> Register \<Rightarrow> RandomAccessPatcher \<Rightarrow> RandomAccessPatcher" where
  "run_adrl e mainAddr adrpTarget registerTarget r =
     (let (adrp, add) = Adrl_words e mainAddr adrpTarget registerTarget;
          q = mk_RandomAccessPatcher (r_mem r);
          q = PatchInst (pe_pages e) mainAddr adrp q;
          q = PatchInst (pe_pages e) (mainAddr + 4) add q
      in leave (pe_pages e) r q)"

definition data_store :: "Pages \<Rightarrow> u64 \<Rightarrow> u8 list \<Rightarrow> RandomAccessPatcher \<Rightarrow> RandomAccessPatcher" where
  "data_store p addr bs r = r\<lparr>r_mem := At_store p (r_mem r) addr bs\<rparr>"

definition data_store_ro :: "Pages \<Rightarrow> u64 \<Rightarrow> u8 list \<Rightarrow> RandomAccessPatcher \<Rightarrow> RandomAccessPatcher" where
  "data_store_ro p addr bs r = r\<lparr>r_mem := store_bytes (r_mem r) (AddrFromRo p (RoFromAddr p addr)) bs\<rparr>"

text \<open>Every console variable is set with dirty flags 3.\<close>

fun run_op :: "patch_env \<Rightarrow> patch_op \<Rightarrow> jest \<Rightarrow> jest outcome"
and run_ops :: "patch_env \<Rightarrow> patch_op list \<Rightarrow> jest \<Rightarrow> jest outcome" where
  "run_op e (Patch key inst) (r, c) =
     bind_outcome (PatchTable e key) (\<lambda>a. Done (PatchInst (pe_pages e) a inst r, c))"
| "run_op e (Patch_at a inst) (r, c) = Done (PatchInst (pe_pages e) a inst r, c)"
| "run_op e (Patch_dword key bs) (r, c) =
     bind_outcome (PatchTable e key) (\<lambda>a. Done (Random_Write (pe_pages e) a bs r, c))"
| "run_op e (MakeAdrlPatch key obj reg) (r, c) =
     bind_outcome (PatchTable e key) (\<lambda>a. Done (run_adrl e a (pe_object e obj) reg r, c))"
| "run_op e (Store_Rw key bs) (r, c) =
     bind_outcome (PatchTable e key) (\<lambda>a. Done (data_store (pe_pages e) a bs r, c))"
| "run_op e (Store_Ro key bs) (r, c) =
     bind_outcome (PatchTable e key) (\<lambda>a. Done (data_store_ro (pe_pages e) a bs r, c))"
| "run_op e (XVarBool_Set var v) (r, c) = Done (r, c @ [Set_Bool var v 3])"
| "run_op e (XVarUint32_Set var v) (r, c) = Done (r, c @ [Set_Uint32 var v 3])"
| "run_op e (Call ops) (r, c) =
     bind_outcome (run_ops e ops (mk_RandomAccessPatcher (r_mem r), c))
       (\<lambda>(q, c). Done (leave (pe_pages e) r q, c))"
| "run_ops e [] j = Done j"
| "run_ops e (x # xs) j = bind_outcome (run_op e x j) (run_ops e xs)"

record patch_state =
  ps_mem :: store
  ps_flushes :: "flush list"
  ps_calls :: "xvar_call list"

definition run_patch :: "patch_env \<Rightarrow> patch_op list \<Rightarrow> patch_state \<Rightarrow> patch_state outcome" where
  "run_patch e ops s =
     bind_outcome (run_ops e ops (mk_RandomAccessPatcher (ps_mem s), ps_calls s))
       (\<lambda>(r, c). let r = Random_Destroy (pe_pages e) r
         in Done \<lparr>ps_mem = r_mem r, ps_flushes = ps_flushes s @ r_flushes r, ps_calls = c\<rparr>)"

section \<open>Labels and watermarks\<close>

definition GLOBALSNO_FONT_EXOCETLIGHT :: u16 where "GLOBALSNO_FONT_EXOCETLIGHT = 0x27E"
definition GLOBALSNO_FONT_SCRIPT :: u16 where "GLOBALSNO_FONT_SCRIPT = 0x27F"

text \<open>A string literal as the array it initialises: the characters and \<open>n\<close> further zeros.\<close>

definition chars :: "string \<Rightarrow> nat \<Rightarrow> u8 list" where
  "chars s n = map of_char s @ replicate n 0"

definition PatchBuildlocker_ops :: "PatchConfig \<Rightarrow> patch_op list" where
  "PatchBuildlocker_ops cfg =
     (if \<not> (ov_active (overlays cfg) \<and> buildlocker_watermark (overlays cfg)) then []
      else
        [Patch ''patch_buildlocker_01_nop'' Nop,
         Patch ''patch_buildlocker_02_movz'' (Movz (regW 20) (8 + GLOBALSNO_FONT_SCRIPT) ShiftValue_0),
         MakeAdrlPatch ''patch_buildlocker_03_adrl'' g_tSignature (regX 2),
         MakeAdrlPatch ''patch_buildlocker_04_adrl'' crgbaTan (regX 19),
         MakeAdrlPatch ''patch_buildlocker_05_adrl'' g_szHackVerWatermark (regX 1),
         Store_Rw ''data_build_locker_format_rw'' (chars ''%s%s%d.%d.%d'' 9),
         Patch ''patch_buildlocker_06_movz'' (Movz (regW 21) 0x13 ShiftValue_0),
         Patch_dword ''patch_buildlocker_07_bytes'' [0x00, 0x28, 0x2A, 0x1E],
         Patch_dword ''patch_buildlocker_08_bytes'' [0x00, 0x28, 0x2A, 0x1E],
         Patch ''patch_buildlocker_09_nop'' Nop])"

definition PatchVarResLabel_ops :: "patch_op list" where
  "PatchVarResLabel_ops =
     [Patch ''patch_var_res_label_01_movz'' (Movz (regW 0) (8 + GLOBALSNO_FONT_EXOCETLIGHT) ShiftValue_0),
      Patch ''patch_var_res_label_02_movz'' (Movz (regX 8) 0x4288 ShiftValue_16),
      Patch ''patch_var_res_label_03_movk'' (Movk (regX 8) 0x4080 ShiftValue_48)]"

text \<open>The floats \<open>-77.7\<close> and \<open>500.0\<close> as single precision words.\<close>

definition PatchReleaseFPSLabel_ops :: "patch_op list" where
  "PatchReleaseFPSLabel_ops =
     [Patch ''patch_release_fps_label_01_movz'' (Movz (regW 0) (8 + GLOBALSNO_FONT_EXOCETLIGHT) ShiftValue_0),
      Store_Rw ''data_release_fps_format_rw'' (chars ''FPS: %.0f'' 1),
      Store_Ro ''data_release_fps_pos_x_ro'' (u32_bytes 0xC29B6666),
      Store_Ro ''data_release_fps_pos_y_ro'' (u32_bytes 0x43FA0000),
      Patch ''patch_release_fps_label_02_nop'' Nop,
      MakeAdrlPatch ''patch_release_fps_label_03_adrl'' crgbaWhite (regX 8),
      Patch ''patch_release_fps_label_04_nop'' Nop,
      Patch ''patch_release_fps_label_05_nop'' Nop,
      Patch ''patch_release_fps_label_06_nop'' Nop,
      Patch ''patch_release_fps_label_07_nop'' Nop,
      Patch ''patch_release_fps_label_08_nop'' Nop,
      Patch ''patch_release_fps_label_09_nop'' Nop,
      Patch ''patch_release_fps_label_10_nop'' Nop]"

definition PatchDDMLabels_ops :: "patch_op list" where
  "PatchDDMLabels_ops =
     [Patch ''patch_ddm_labels_01_movz'' (Movz (regW 0) (8 + GLOBALSNO_FONT_SCRIPT) ShiftValue_0),
      MakeAdrlPatch ''patch_ddm_labels_02_adrl'' g_szHackVerWatermark (regX 1),
      MakeAdrlPatch ''patch_ddm_labels_03_adrl'' g_rgbaText (regX 3),
      MakeAdrlPatch ''patch_ddm_labels_04_adrl'' g_rgbaDropShadow (regX 4),
      Patch ''patch_ddm_labels_05_movz'' (Movz (regW 7) 0x13 ShiftValue_0),
      Patch ''patch_ddm_labels_06_movz'' (Movz (regW 0) (8 + GLOBALSNO_FONT_SCRIPT) ShiftValue_0),
      MakeAdrlPatch ''patch_ddm_labels_07_adrl'' g_szHackVerWatermark (regX 23),
      MakeAdrlPatch ''patch_ddm_labels_08_adrl'' g_rgbaText (regX 3),
      MakeAdrlPatch ''patch_ddm_labels_09_adrl'' g_rgbaDropShadow (regX 4),
      Patch ''patch_ddm_labels_10_movz'' (Movz (regW 7) 0x13 ShiftValue_0)]"

section \<open>Resolution\<close>

text \<open>\<open>dev\<close> is the word behind \<open>g_ptDevMemMode\<close>, \<open>None\<close> for a null pointer.\<close>

definition gfxPersistentHeapSize :: "u32 option \<Rightarrow> u32" where
  "gfxPersistentHeapSize dev =
     0x17400000 + (if (case dev of Some w \<Rightarrow> w \<noteq> 0 | None \<Rightarrow> False) then 0x40000000 else 0x04000000)"

definition PatchGraphicsPersistentHeapEarly_ops :: "u32 option \<Rightarrow> patch_op list" where
  "PatchGraphicsPersistentHeapEarly_ops dev =
     [Patch_at 0xA36B34 (Movz (regW 19) (ucast (drop_bit 16 (gfxPersistentHeapSize dev))) ShiftValue_16)]"

definition resolution_for_patch :: "u32 option \<Rightarrow> PatchConfig \<Rightarrow> ResolutionHackConfig" where
  "resolution_for_patch dev cfg =
     (let resolution = resolution_hack cfg; max_target = MaxResolutionHackOutputTarget dev
      in if max_target < target_resolution resolution then SetTargetRes max_target resolution else resolution)"

definition PatchResolutionTargets_ops :: "u32 option \<Rightarrow> PatchConfig \<Rightarrow> patch_op list" where
  "PatchResolutionTargets_ops dev cfg =
     [Patch ''patch_resolution_targets_08_movz'' (Movz (regW 9) 32 ShiftValue_0),
      Patch ''patch_resolution_targets_09_movz'' (Movz (regW 8) 32 ShiftValue_0)]
     @ (if \<not> rh_active (resolution_hack cfg) then []
        else
          let resolution = resolution_for_patch dev cfg;
              outW = OutputWidthPx resolution;
              outH = OutputHeightPx resolution;
              handheldH = OutputHandheldHeightPx resolution;
              fallbackW = (if handheldH \<noteq> 0 then WidthForHeight handheldH else 1280);
              fallbackH = (if handheldH \<noteq> 0 then handheldH else 720)
          in (if 1280 < outH then
                let heapSize = (if 1800 \<le> outH then 0x69C00000 else 0x59C00000 :: u32);
                    maxAlloc = (if 1800 \<le> outH then 0x20000000 else 0x10000000 :: u32)
                in [Patch_at 0x0E7770 (Movz (regW 19) (ucast (drop_bit 16 heapSize)) ShiftValue_16),
                    Patch_at 0x0E77A0 (Movz (regW 3) (ucast (drop_bit 16 maxAlloc)) ShiftValue_16)]
              else [])
             @ [Patch ''patch_resolution_targets_01_movz'' (Movz (regX 8) (ucast outW) ShiftValue_0),
                Patch ''patch_resolution_targets_02_movk'' (Movk (regX 8) (ucast outH) ShiftValue_32),
                Patch ''patch_resolution_targets_03_movz'' (Movz (regX 9) (ucast fallbackW) ShiftValue_0),
                Patch ''patch_resolution_targets_04_movk'' (Movk (regX 9) (ucast fallbackH) ShiftValue_32)])"

section \<open>Cheat codes\<close>

definition guarded :: "bool \<Rightarrow> patch_op list \<Rightarrow> patch_op list" where
  "guarded b ops = (if b then ops else [])"

definition PortCheatCodes_ops :: "PatchConfig \<Rightarrow> patch_op list" where
  "PortCheatCodes_ops cfg =
     (let cheats = rare_cheats cfg in
      if \<not> rc_active cheats then []
      else
        [Patch ''patch_cheat_alloc_errors_01_movz'' (Movz (regW 8) 0 ShiftValue_0),
         Patch_dword ''patch_cheat_alloc_errors_02_bytes'' [0xE0, 0x03, 0x00, 0x91]]
        @ guarded (extra_gr_orbs_elites cheats)
            [Patch ''patch_cheat_extra_gr_orbs_elites_01_movz'' (Movz (regW 3) 999 ShiftValue_0)]
        @ guarded (drop_anything cheats)
            [Patch ''patch_cheat_drop_anything_01_movn'' (Movn (regW 0) 0 ShiftValue_0)]
        @ guarded (guaranteed_legendaries cheats)
            [Patch ''patch_cheat_guaranteed_legendaries_01_nop'' Nop,
             Patch ''patch_cheat_guaranteed_legendaries_02_nop'' Nop,
             Patch ''patch_cheat_guaranteed_legendaries_03_branch'' (Branch 0x18C),
             Patch ''patch_cheat_guaranteed_legendaries_04_nop'' Nop,
             Patch ''patch_cheat_guaranteed_legendaries_05_branch'' (Branch 0x350)]
        @ guarded (instant_portal cheats)
            [Patch ''patch_cheat_instant_portal_01_movz'' (Movz (regW 24) 0 ShiftValue_0)]
        @ guarded (no_cooldowns cheats)
            [Patch_dword ''patch_cheat_no_cooldowns_01_bytes'' [0xE0, 0x03, 0x27, 0x1E],
             Patch_dword ''patch_cheat_no_cooldowns_02_bytes'' [0xE0, 0x03, 0x00, 0x2A],
             Patch_dword ''patch_cheat_no_cooldowns_03_bytes'' [0xE8, 0x03, 0x27, 0x1E],
             Patch_dword ''patch_cheat_no_cooldowns_04_bytes'' [0xE8, 0x03, 0x27, 0x1E]]
        @ guarded (instant_craft_actions cheats)
            [Patch ''patch_cheat_instant_identify_01_nop'' Nop]
        @ guarded (instant_craft_actions cheats)
            [Patch ''patch_cheat_instant_craft_01_add_imm'' (AddImmediate (regW 8) (regW 8) 5)]
        @ guarded (instant_craft_actions cheats)
            [Patch ''patch_cheat_instant_enchant_01_add_imm'' (AddImmediate (regW 8) (regW 8) 1)]
        @ guarded (instant_craft_actions cheats)
            [Patch ''patch_cheat_cube_instant_craft_01_movz'' (Movz (regW 8) 0 ShiftValue_0),
             Patch ''patch_cheat_cube_instant_craft_02_movz'' (Movz (regW 9) 0 ShiftValue_0),
             Patch ''patch_cheat_cube_instant_craft_03_movz'' (Movz (regW 10) 0 ShiftValue_0),
             Patch ''patch_cheat_cube_instant_craft_04_movz'' (Movz (regW 8) 0 ShiftValue_0)]
        @ guarded (cube_no_consume cheats)
            [Patch ''patch_cheat_cube_no_consume_01_ret'' (Ret regLR)]
        @ guarded (gem_upgrade_always cheats)
            [Patch_dword ''patch_cheat_gem_upgrade_01_bytes'' [0x08, 0x10, 0x2E, 0x1E]]
        @ guarded (gem_upgrade_speed cheats)
            [Patch_dword ''patch_cheat_gem_speed_01_bytes'' [0x02, 0x10, 0x2E, 0x1E]]
        @ guarded (gem_upgrade_lvl150 cheats)
            [Patch_dword ''patch_cheat_gem_lvl150_01_bytes'' [0xF6, 0x03, 0x00, 0x2A],
             Patch ''patch_cheat_gem_lvl150_02_movz'' (Movz (regW 0) 0x96 ShiftValue_0),
             Patch_dword ''patch_cheat_gem_lvl150_03_bytes'' [0x17, 0x00, 0x16, 0x4B],
             Patch ''patch_cheat_gem_lvl150_04_ret'' (Ret regLR),
             Patch_dword ''patch_cheat_gem_lvl150_05_bytes'' [0x89, 0x4D, 0x12, 0x94]]
        @ guarded (equip_multi_legendary cheats)
            [Patch ''patch_cheat_multi_legendary_01_branch'' (Branch 0x5C)]
        @ guarded (any_gem_any_slot cheats)
            [Patch ''patch_cheat_any_gem_any_slot_01_movz'' (Movz (regW 25) 5 ShiftValue_0),
             Patch ''patch_cheat_any_gem_any_slot_02_branch'' (Branch 0xA0)]
        @ guarded (auto_pickup cheats)
            [Patch ''patch_cheat_auto_pickup_01_nop'' Nop])"

definition k_infinite_mp_restore_call :: "u8 list" where
  "k_infinite_mp_restore_call = [0x41, 0xFF, 0xFF, 0x97]"

definition PatchInfiniteMp_ops :: "bool \<Rightarrow> patch_op list" where
  "PatchInfiniteMp_ops enabled =
     (if enabled then [Patch ''patch_infinite_mp_01_resource_bl'' Nop]
      else [Patch_dword ''patch_infinite_mp_01_resource_bl'' k_infinite_mp_restore_call])"

section \<open>Base patches\<close>

definition hide_online :: "patch_op list" where
  "hide_online =
     [Patch ''patch_hideonline_02_movz'' (Movz (regW 0) 0 ShiftValue_0),
      Patch ''patch_hideonline_03_ret'' (Ret regLR),
      Patch ''patch_hideonline_04_movz'' (Movz (regW 1) 0 ShiftValue_0),
      Patch ''patch_hideonline_05_movz'' (Movz (regW 1) 0 ShiftValue_0),
      Patch_dword ''patch_hideonline_06_bytes'' [0x08, 0x29, 0x40, 0xF9],
      Patch ''patch_hideonline_07_movz'' (Movz (regW 1) 0 ShiftValue_0),
      Patch ''patch_hideonline_08_movz'' (Movz (regW 1) 0 ShiftValue_0),
      Patch ''patch_hideonline_09_movz'' (Movz (regW 1) 0 ShiftValue_0),
      Patch_dword ''patch_hideonline_10_bytes'' [0x08, 0x29, 0x40, 0xF9],
      Patch ''patch_hideonline_11_movz'' (Movz (regW 1) 0 ShiftValue_0)]"

definition PatchBase_ops :: "PatchConfig \<Rightarrow> patch_op list" where
  "PatchBase_ops cfg =
     [Call (PortCheatCodes_ops cfg)]
     @ [XVarBool_Set ''g_varLocalLoggingEnable'' True,
      XVarBool_Set ''g_varChallengeRiftEnabled'' (cr_active (challenge_rifts cfg)),
      XVarBool_Set ''g_varSeasonsOverrideEnabled'' (sea_active (seasons cfg)),
      XVarBool_Set ''g_varOnlineServicePTR'' (spoof_ptr (seasons cfg)),
      XVarBool_Set ''g_varExperimentalScheduling'' (exp_scheduler (resolution_hack cfg)),
      Patch ''patch_signin_01_movz'' (Movz (regW 0) 1 ShiftValue_0),
      Patch ''patch_signin_02_ret'' (Ret regLR)]
     @ [Call (PatchInfiniteMp_ops (rc_active (rare_cheats cfg)
          \<and> (super_god_mode (rare_cheats cfg) \<or> infinite_mp (rare_cheats cfg))))]
     @ [MakeAdrlPatch ''patch_autosave_string_01_adrl'' g_szHackVerAutosave (regX 0),
      MakeAdrlPatch ''patch_start_string_01_adrl'' g_szHackVerStart (regX 0),
      Patch ''patch_local_logging_01_movz'' (Movz (regW 0) 1 ShiftValue_0)]
     @ guarded (enable_crashes (debug cfg))
         [Patch ''patch_dupe_noequip_01_nop'' Nop,
          Patch ''patch_dupe_stub_01_ret'' (Ret regLR),
          Patch ''patch_dupe_stub_02_ret'' (Ret regLR),
          Patch ''patch_dupe_stub_03_ret'' (Ret regLR),
          Patch ''patch_dupe_stub_04_ret'' (Ret regLR)]
     @ [MakeAdrlPatch ''patch_trace_stat_path_01_adrl'' g_szTraceStat (regX 0)]
     @ guarded (\<not> allow_online (seasons cfg)) hide_online
     @ guarded (rc_active (rare_cheats cfg) \<and> unlock_all_difficulties (rare_cheats cfg))
         [Patch ''patch_handicap_unlock_01_movz'' (Movz (regW 0) 1 ShiftValue_0),
          Patch ''patch_handicap_unlock_02_ret'' (Ret regLR)]
     @ guarded (rc_active (rare_cheats cfg) \<and> easy_kill_damage (rare_cheats cfg))
         [Patch ''patch_easykill_01_movz'' (Movz (regW 9) 0x7bc7 ShiftValue_0),
          Patch ''patch_easykill_02_movk'' (Movk (regW 9) 0x5d94 ShiftValue_16)]"

section \<open>The seasonal gate\<close>

text \<open>\<open>g_dynamic_seasonal_patch_applied\<close> and \<open>g_dynamic_seasonal_generation\<close>.\<close>

record gate =
  gate_applied :: bool
  gate_generation :: u64

definition k_dynamic_seasonal_restore_tbz :: "u8 list" where
  "k_dynamic_seasonal_restore_tbz = [0xA8, 0x00, 0x90, 0x36]"

definition SetDynamicSeasonalPatchArmed :: "PatchConfig \<Rightarrow> bool \<Rightarrow> gate \<Rightarrow> patch_op list \<times> gate" where
  "SetDynamicSeasonalPatchArmed cfg armed g =
     (let armed = (if \<not> sea_active (seasons cfg) then False else armed) in
      if gate_applied g = armed then ([], g)
      else
        ([if armed then Patch ''patch_dynamic_seasonal_10_nop'' Nop
          else Patch_dword ''patch_dynamic_seasonal_10_nop'' k_dynamic_seasonal_restore_tbz],
         g\<lparr>gate_applied := armed, gate_generation := gate_generation g + 1\<rparr>))"

definition PatchDynamicSeasonal_ops :: "PatchConfig \<Rightarrow> gate \<Rightarrow> patch_op list \<times> gate" where
  "PatchDynamicSeasonal_ops cfg g =
     (let (gate_ops, g') = SetDynamicSeasonalPatchArmed cfg False g in
      if \<not> sea_active (seasons cfg) then (gate_ops, g')
      else
        ([XVarUint32_Set ''g_varSeasonNum'' (current_season (seasons cfg)),
          XVarUint32_Set ''g_varSeasonState'' 1,
          Patch ''patch_dynamic_seasonal_03_movz'' (Movz (regW 1) 1 ShiftValue_0),
          Patch ''patch_dynamic_seasonal_04_movz'' (Movz (regW 0) 1 ShiftValue_0),
          Patch ''patch_dynamic_seasonal_05_movz'' (Movz (regW 21) (ucast (current_season (seasons cfg))) ShiftValue_0),
          Patch ''patch_dynamic_seasonal_08_movz'' (Movz (regW 0) 0 ShiftValue_0),
          Patch ''patch_dynamic_seasonal_09_ret'' (Ret regLR),
          Call gate_ops],
         g'))"

text \<open>The creation flags of the game parameters, \<open>None\<close> for a null pointer.\<close>

definition UpdateDynamicSeasonalForSpawn_ops :: "PatchConfig \<Rightarrow> u32 option \<Rightarrow> gate \<Rightarrow> patch_op list \<times> gate" where
  "UpdateDynamicSeasonalForSpawn_ops cfg creation_flags g =
     (if \<not> sea_active (seasons cfg) then SetDynamicSeasonalPatchArmed cfg False g
      else
        let kSeasonalCreationFlag = push_bit 18 (1 :: u32);
            params_valid = (creation_flags \<noteq> None);
            params_seasonal = (case creation_flags of Some f \<Rightarrow> f AND kSeasonalCreationFlag \<noteq> 0 | None \<Rightarrow> False);
            spawn_seasonal = (params_valid \<and> params_seasonal)
        in SetDynamicSeasonalPatchArmed cfg spawn_seasonal g)"

section \<open>What a body writes\<close>

text \<open>The writes of a body when key \<open>k\<close> resolves to offset \<open>off k\<close>, in order.\<close>

fun op_writes :: "patch_env \<Rightarrow> (string \<Rightarrow> u64) \<Rightarrow> patch_op \<Rightarrow> (u64 \<times> u8 list) list" where
  "op_writes e off (Patch key inst) = [(off key, u32_bytes inst)]"
| "op_writes e off (Patch_at a inst) = [(a, u32_bytes inst)]"
| "op_writes e off (Patch_dword key bs) = [(off key, bs)]"
| "op_writes e off (MakeAdrlPatch key obj reg) =
     (let (adrp, add) = Adrl_words e (off key) (pe_object e obj) reg
      in [(off key, u32_bytes adrp), (off key + 4, u32_bytes add)])"
| "op_writes e off (Store_Rw key bs) = [(off key, bs)]"
| "op_writes e off (Store_Ro key bs) = [(off key, bs)]"
| "op_writes e off (XVarBool_Set var v) = []"
| "op_writes e off (XVarUint32_Set var v) = []"
| "op_writes e off (Call ops) = concat (map (op_writes e off) ops)"

definition ops_writes :: "patch_env \<Rightarrow> (string \<Rightarrow> u64) \<Rightarrow> patch_op list \<Rightarrow> (u64 \<times> u8 list) list" where
  "ops_writes e off ops = concat (map (op_writes e off) ops)"

fun op_keys :: "patch_op \<Rightarrow> string list" where
  "op_keys (Patch key inst) = [key]"
| "op_keys (Patch_at a inst) = []"
| "op_keys (Patch_dword key bs) = [key]"
| "op_keys (MakeAdrlPatch key obj reg) = [key]"
| "op_keys (Store_Rw key bs) = [key]"
| "op_keys (Store_Ro key bs) = [key]"
| "op_keys (XVarBool_Set var v) = []"
| "op_keys (XVarUint32_Set var v) = []"
| "op_keys (Call ops) = concat (map op_keys ops)"

fun op_calls :: "patch_op \<Rightarrow> xvar_call list" where
  "op_calls (XVarBool_Set var v) = [Set_Bool var v 3]"
| "op_calls (XVarUint32_Set var v) = [Set_Uint32 var v 3]"
| "op_calls (Call ops) = concat (map op_calls ops)"
| "op_calls _ = []"

text \<open>Data stores, which need no cache maintenance: nothing executes there.\<close>

fun op_stores :: "(string \<Rightarrow> u64) \<Rightarrow> patch_op \<Rightarrow> (u64 \<times> u8 list) list" where
  "op_stores off (Store_Rw key bs) = [(off key, bs)]"
| "op_stores off (Store_Ro key bs) = [(off key, bs)]"
| "op_stores off (Call ops) = concat (map (op_stores off) ops)"
| "op_stores off _ = []"

definition store_writes :: "(u64 \<times> u8 list) list \<Rightarrow> store \<Rightarrow> store" where
  "store_writes ws m = fold (\<lambda>(a, bs) m. store_bytes m a bs) ws m"

lemma store_writes_append [simp]: "store_writes (xs @ ys) m = store_writes ys (store_writes xs m)"
  by (simp add: store_writes_def)

lemma store_writes_simps [simp]:
  "store_writes [] m = m" "store_writes ((a, bs) # ws) m = store_writes ws (store_bytes m a bs)"
  by (simp_all add: store_writes_def)

lemma ops_writes_simps [simp]:
  "ops_writes e off [] = []" "ops_writes e off (x # xs) = op_writes e off x @ ops_writes e off xs"
  "ops_writes e off (xs @ ys) = ops_writes e off xs @ ops_writes e off ys"
  by (simp_all add: ops_writes_def)

lemma r_mem_writes [simp]:
  "r_mem (Random_Write p a bs r) = store_bytes (r_mem r) a bs"
  "r_mem (Random_Destroy p r) = r_mem r" "r_mem (mk_RandomAccessPatcher m) = m"
  "r_mem (leave p r q) = r_mem q"
  by (simp_all add: Random_Write_def SetLowest_def SetHighest_def Random_Destroy_def Random_Flush_def
      leave_def mk_RandomAccessPatcher_def At_store_eq Let_def)

text \<open>What a patcher still owes: the bytes it changed that it has not yet flushed are in its range.\<close>

definition owes :: "Pages \<Rightarrow> store \<Rightarrow> (u64 \<times> u8 list) list \<Rightarrow> RandomAccessPatcher \<Rightarrow> bool" where
  "owes p m0 stores r \<longleftrightarrow>
     (IsUnset r \<longrightarrow> m_Lowest r = UINTPTR_MAX \<and> m_Highest r = UINTPTR_MAX) \<and>
     (\<forall>x. r_mem r x \<noteq> m0 x \<longrightarrow>
        covered p (r_flushes r) x \<or> (\<not> IsUnset r \<and> m_Lowest r \<le> x \<and> x < m_Highest r)
        \<or> (\<exists>(a, bs) \<in> set stores. unat (x - a) < length bs))"

lemma owes_start: "owes p m stores (mk_RandomAccessPatcher m)"
  by (simp add: owes_def mk_RandomAccessPatcher_def)

lemma owes_write:
  assumes o: "owes p m0 st r" and b: "unat addr + length bs < 2 ^ 64 - 1"
  shows "owes p m0 st (Random_Write p addr bs r)"
proof -
  let ?h = "addr + of_nat (length bs) :: u64"
  have k: "unat (of_nat (length bs) :: u64) = length bs"
    using b by (intro unat_of_nat_u64) simp
  have h: "unat ?h = unat addr + length bs"
    using b k by (subst unat_add_lem [THEN iffD1]) simp_all
  have ne: "?h \<noteq> UINTPTR_MAX" "addr \<noteq> UINTPTR_MAX"
    using b h by (auto simp: UINTPTR_MAX_def word_unat_eq_iff unsigned_minus_1_eq_mask mask_eq_exp_minus_1)
  have new: "addr \<le> x \<and> x < ?h" if "store_bytes (r_mem r) addr bs x \<noteq> r_mem r x" for x
    using store_bytes_change [OF that] b by (intro in_written) simp_all
  show ?thesis
  proof (cases "IsUnset r")
    case True
    have "covered p (r_flushes r) x \<or> (addr \<le> x \<and> x < ?h) \<or> (\<exists>(a, bs) \<in> set st. unat (x - a) < length bs)"
      if "store_bytes (r_mem r) addr bs x \<noteq> m0 x" for x
      using that new [of x] o True unfolding owes_def by metis
    moreover have "m_Lowest r = UINTPTR_MAX" "m_Highest r = UINTPTR_MAX" using o True by (simp_all add: owes_def)
    ultimately show ?thesis
      using ne by (simp add: owes_def Random_Write_def SetLowest_def SetHighest_def IsUnset_def Let_def At_store_eq)
  next
    case False
    have "covered p (r_flushes r) x \<or> (min (m_Lowest r) addr \<le> x \<and> x < max (m_Highest r) ?h)
        \<or> (\<exists>(a, bs) \<in> set st. unat (x - a) < length bs)"
      if "store_bytes (r_mem r) addr bs x \<noteq> m0 x" for x
      using that new [of x] o unfolding owes_def min_le_iff_disj less_max_iff_disj by metis
    moreover have "m_Lowest (Random_Write p addr bs r) = min (m_Lowest r) addr"
      "m_Highest (Random_Write p addr bs r) = max (m_Highest r) ?h"
      "r_flushes (Random_Write p addr bs r) = r_flushes r" "\<not> IsUnset (Random_Write p addr bs r)"
      using False ne by (auto simp: Random_Write_def SetLowest_def SetHighest_def IsUnset_def Let_def min_def max_def)
    ultimately show ?thesis by (simp add: owes_def)
  qed
qed

lemma owes_store:
  assumes "owes p m0 st r" "(addr, bs) \<in> set st"
  shows "owes p m0 st (r\<lparr>r_mem := store_bytes (r_mem r) addr bs\<rparr>)"
  using assms store_bytes_change [of "r_mem r" addr bs] unfolding owes_def IsUnset_def
  by simp (metis (mono_tags, lifting) case_prodI)

lemma owes_destroy:
  assumes "owes p m0 st q" "r_mem q x \<noteq> m0 x"
  shows "covered p (r_flushes (Random_Destroy p q)) x \<or> (\<exists>(a, bs) \<in> set st. unat (x - a) < length bs)"
proof -
  have "x - m_Lowest q < m_Highest q - m_Lowest q" if "m_Lowest q \<le> x" "x < m_Highest q"
    using that by (auto simp: word_less_nat_alt word_le_nat_alt unat_sub_if')
  then show ?thesis
    using assms by (auto simp: owes_def Random_Destroy_def Random_Flush_def Let_def)
qed

lemma owes_leave:
  assumes "owes p m0 st r" "owes p (r_mem r) st q"
  shows "owes p m0 st (leave p r q)"
proof -
  have l: "m_Lowest (leave p r q) = m_Lowest r" "m_Highest (leave p r q) = m_Highest r"
    "IsUnset (leave p r q) = IsUnset r" "r_flushes (leave p r q) = r_flushes r @ r_flushes (Random_Destroy p q)"
    by (simp_all add: leave_def Let_def IsUnset_def)
  have "covered p (r_flushes r) x \<or> covered p (r_flushes (Random_Destroy p q)) x
      \<or> (\<not> IsUnset r \<and> m_Lowest r \<le> x \<and> x < m_Highest r) \<or> (\<exists>(a, bs) \<in> set st. unat (x - a) < length bs)"
    if "r_mem q x \<noteq> m0 x" for x
    using that assms owes_destroy[OF assms(2), of x] unfolding owes_def by metis
  then show ?thesis using assms(1) by (simp add: owes_def l)
qed

lemma run_op_run_ops_correct:
  "\<lbrakk>\<forall>k \<in> set (op_keys x). PatchTable e k = Done (off k);
    \<forall>(a, bs) \<in> set (op_writes e off x). unat a + length bs < 2 ^ 64 - 1;
    set (op_stores off x) \<subseteq> set st; owes (pe_pages e) m0 st (fst j)\<rbrakk>
   \<Longrightarrow> \<exists>r. run_op e x j = Done (r, snd j @ op_calls x)
      \<and> r_mem r = store_writes (op_writes e off x) (r_mem (fst j)) \<and> owes (pe_pages e) m0 st r"
  "\<lbrakk>\<forall>k \<in> set (concat (map op_keys xs)). PatchTable e k = Done (off k);
    \<forall>(a, bs) \<in> set (ops_writes e off xs). unat a + length bs < 2 ^ 64 - 1;
    set (concat (map (op_stores off) xs)) \<subseteq> set st; owes (pe_pages e) m0 st (fst j)\<rbrakk>
   \<Longrightarrow> \<exists>r. run_ops e xs j = Done (r, snd j @ concat (map op_calls xs))
      \<and> r_mem r = store_writes (ops_writes e off xs) (r_mem (fst j)) \<and> owes (pe_pages e) m0 st r"
proof (induction e x j and e xs j arbitrary: m0 and m0 rule: run_op_run_ops.induct)
  case (4 e key obj reg r c)
  obtain x y where xy: "Adrl_words e (off key) (pe_object e obj) reg = (x, y)" by force
  have "owes (pe_pages e) (r_mem r) st (PatchInst (pe_pages e) (off key + 4) y
      (PatchInst (pe_pages e) (off key) x (mk_RandomAccessPatcher (r_mem r))))"
    using 4 xy unfolding PatchInst_def by (intro owes_write owes_start) auto
  then show ?case
    using 4 xy by (auto simp: run_adrl_def PatchInst_def intro: owes_leave)
next
  case (9 e ops r c)
  have "\<exists>q. run_ops e ops (mk_RandomAccessPatcher (r_mem r), c) = Done (q, c @ concat (map op_calls ops))
      \<and> r_mem q = store_writes (ops_writes e off ops) (r_mem r) \<and> owes (pe_pages e) (r_mem r) st q"
    using 9(1)[of "r_mem r"] 9(2-4) owes_start[of "pe_pages e" "r_mem r" st] by (simp add: ops_writes_def)
  then show ?case using 9(5) by (auto simp: ops_writes_def intro: owes_leave)
next
  case (11 e x xs j)
  obtain r where r: "run_op e x j = Done (r, snd j @ op_calls x)"
      "r_mem r = store_writes (op_writes e off x) (r_mem (fst j))" "owes (pe_pages e) m0 st r"
    using 11(1)[of m0] 11(3-) by auto
  then show ?case using 11(2)[where xa = "(r, snd j @ op_calls x)" and ?m0.0 = m0] 11(3-) by auto
qed (auto simp: PatchInst_def data_store_def data_store_ro_def At_store_eq AddrFromRo_def RoFromAddr_def
    intro: owes_write owes_store)

lemma run_patch_correct:
  assumes "\<forall>k \<in> set (concat (map op_keys ops)). PatchTable e k = Done (off k)"
    "\<forall>(a, bs) \<in> set (ops_writes e off ops). unat a + length bs < 2 ^ 64 - 1"
  shows "\<exists>fs. run_patch e ops s = Done \<lparr>ps_mem = store_writes (ops_writes e off ops) (ps_mem s),
       ps_flushes = ps_flushes s @ fs, ps_calls = ps_calls s @ concat (map op_calls ops)\<rparr>
     \<and> (\<forall>x. store_writes (ops_writes e off ops) (ps_mem s) x \<noteq> ps_mem s x \<longrightarrow>
          covered (pe_pages e) fs x
          \<or> (\<exists>(a, bs) \<in> set (concat (map (op_stores off) ops)). unat (x - a) < length bs))"
proof -
  let ?st = "concat (map (op_stores off) ops)"
  obtain r where r: "run_ops e ops (mk_RandomAccessPatcher (ps_mem s), ps_calls s)
      = Done (r, ps_calls s @ concat (map op_calls ops))"
      "r_mem r = store_writes (ops_writes e off ops) (ps_mem s)" "owes (pe_pages e) (ps_mem s) ?st r"
    using run_op_run_ops_correct(2)[OF assms, of ?st "ps_mem s" "(mk_RandomAccessPatcher (ps_mem s), ps_calls s)"]
      owes_start by auto
  then show ?thesis
    using owes_destroy[OF r(3)] by (auto simp: run_patch_def Let_def)
qed

end
