(* ===== verification/Patch_Sites.thy ===== *)
theory Patch_Sites
  imports Patches "HOL-Library.Sublist"
begin

text \<open>
  Where the patches of \<open>patches.cpp\<close> land.  With the offset table of the supported build
  every key resolves, no two patch sites of the mod overlap, and so the image after start-up
  holds exactly the bytes each enabled patch asks for, and is unchanged elsewhere.
\<close>

section \<open>The keys of the table\<close>

definition patch_entries :: "(u32 \<times> string) list" where
  "patch_entries =
     patch_data_offsets @ buildlocker_offsets @ var_res_label_offsets @ release_fps_offsets @ ddm_label_offsets
     @ resolution_target_offsets @ dynamic_seasonal_offsets @ cheat_code_offsets @ patch_base_offsets"

text \<open>The lookup finds the entries of the table that patches use.\<close>

definition game_table :: "patch_env \<Rightarrow> bool" where
  "game_table e \<longleftrightarrow> (\<forall>(o', k) \<in> set patch_entries. pe_lookup e k = Address (pe_start e + ucast o'))"

lemma game_table_entry:
  assumes "game_table e" "(o', k) \<in> set patch_entries"
  shows "PatchTable e k = Done (ucast o')"
  using assms by (auto simp: game_table_def PatchTable_def)

lemma game_table_group:
  assumes "game_table e" "set es \<subseteq> set patch_entries"
  shows "list_all (\<lambda>(o', k). PatchTable e k = Done (ucast o')) es"
  using assms game_table_entry by (auto simp: list_all_iff)

definition patch_off :: "patch_env \<Rightarrow> string \<Rightarrow> u64" where
  "patch_off e k = (case PatchTable e k of Done a \<Rightarrow> a | _ \<Rightarrow> 0)"

text \<open>A successful start with the table of the program gives such a lookup.\<close>

lemma started_game_table:
  assumes "exl_init env UserTableSet w = Done es" "static_asserts UserTableSet" "es_version es = DEFAULT"
    "es_infos es ! idx_Main = Some m"
  shows "game_table \<lparr>pe_pages = p, pe_lookup = GameOffsetFromTable (s_CachedLookup (es_reloc es)) (es_infos es),
           pe_start = rg_start (m_Total m), pe_object = obj\<rparr>"
proof -
  define t where "t = \<lparr>s_Version = DEFAULT, Table = map main_entry all_offsets\<rparr>"
  have ts: "UserTableSet = [t]" by (simp add: UserTableSet_def t_def)
  obtain ap where r: "Initialize_reloc UserTableSet (es_version es) reloc_start = Some (es_reloc es, ap)"
    using exl_init_table[OF assms(1)] by blast
  have "s_CachedLookup (es_reloc es) = s_SortedTable t"
    using r Initialize_reloc_entries[of DEFAULT UserTableSet t reloc_start] assms(3)
    by (auto simp: ts t_def reloc_start_def SIZE_MAX_def)
  moreover have u: "unique_hashes t" using assms(2) by (auto simp: static_asserts_def ts)
  moreover have "GameOffsetFromTable (s_SortedTable t) (es_infos es) k = Address (rg_start (m_Total m) + ucast o')"
    if k: "(o', k) \<in> set patch_entries" for o' k
  proof -
    have "(o', k) \<in> set all_offsets" using k by (auto simp: patch_entries_def all_offsets_def)
    then have "main_entry (o', k) \<in> set (Table t)" "o' < 0x10000000"
      using offsets_fit by (auto simp: t_def list_all_iff)
    then show ?thesis
      using table_entry_address[OF u, of "main_entry (o', k)" "es_infos es" m] assms(4) by (simp add: idx_Main_def)
  qed
  ultimately show ?thesis by (auto simp: game_table_def)
qed

lemma patch_entries_parts:
  "set buildlocker_offsets \<subseteq> set patch_entries"
  "set patch_data_offsets \<subseteq> set patch_entries"
  "set var_res_label_offsets \<subseteq> set patch_entries"
  "set release_fps_offsets \<subseteq> set patch_entries"
  "set ddm_label_offsets \<subseteq> set patch_entries"
  "set resolution_target_offsets \<subseteq> set patch_entries"
  "set cheat_code_offsets \<subseteq> set patch_entries"
  "set patch_base_offsets \<subseteq> set patch_entries"
  "set dynamic_seasonal_offsets \<subseteq> set patch_entries"
  by (auto simp: patch_entries_def)

lemma buildlocker_keys:
  assumes "game_table e"
  shows
    "PatchTable e ''patch_buildlocker_01_nop'' = Done 0xF6C"
    "PatchTable e ''patch_buildlocker_02_movz'' = Done 0xFD4"
    "PatchTable e ''patch_buildlocker_03_adrl'' = Done 0xFA4"
    "PatchTable e ''patch_buildlocker_04_adrl'' = Done 0x1040"
    "PatchTable e ''patch_buildlocker_05_adrl'' = Done 0x1228"
    "PatchTable e ''patch_buildlocker_06_movz'' = Done 0x1088"
    "PatchTable e ''patch_buildlocker_07_bytes'' = Done 0x10FC"
    "PatchTable e ''patch_buildlocker_08_bytes'' = Done 0x1128"
    "PatchTable e ''patch_buildlocker_09_nop'' = Done 0x1224"
  using game_table_group[OF assms, of buildlocker_offsets, OF patch_entries_parts(1)] unfolding buildlocker_offsets_def by simp_all

lemma patch_data_keys:
  assumes "game_table e"
  shows
    "PatchTable e ''data_build_locker_format_rw'' = Done 0xE6D9E4"
    "PatchTable e ''data_release_fps_format_rw'' = Done 0xE46144"
    "PatchTable e ''data_release_fps_pos_x_ro'' = Done 0x1098658"
    "PatchTable e ''data_release_fps_pos_y_ro'' = Done 0x109865C"
  using game_table_group[OF assms, of patch_data_offsets, OF patch_entries_parts(2)] unfolding patch_data_offsets_def by simp_all

lemma var_res_label_keys:
  assumes "game_table e"
  shows
    "PatchTable e ''patch_var_res_label_01_movz'' = Done 0x3CC20"
    "PatchTable e ''patch_var_res_label_02_movz'' = Done 0x3CC78"
    "PatchTable e ''patch_var_res_label_03_movk'' = Done 0x3CC7C"
  using game_table_group[OF assms, of var_res_label_offsets, OF patch_entries_parts(3)] unfolding var_res_label_offsets_def by simp_all

lemma release_fps_keys:
  assumes "game_table e"
  shows
    "PatchTable e ''patch_release_fps_label_01_movz'' = Done 0x3F654"
    "PatchTable e ''patch_release_fps_label_02_nop'' = Done 0x3F69C"
    "PatchTable e ''patch_release_fps_label_03_adrl'' = Done 0x3F6A0"
    "PatchTable e ''patch_release_fps_label_04_nop'' = Done 0x3F840"
    "PatchTable e ''patch_release_fps_label_05_nop'' = Done 0x3F8E4"
    "PatchTable e ''patch_release_fps_label_06_nop'' = Done 0x3F9A8"
    "PatchTable e ''patch_release_fps_label_07_nop'' = Done 0x3FA68"
    "PatchTable e ''patch_release_fps_label_08_nop'' = Done 0x3FB80"
    "PatchTable e ''patch_release_fps_label_09_nop'' = Done 0x3FC7C"
    "PatchTable e ''patch_release_fps_label_10_nop'' = Done 0x3FD78"
  using game_table_group[OF assms, of release_fps_offsets, OF patch_entries_parts(4)] unfolding release_fps_offsets_def by simp_all

lemma ddm_label_keys:
  assumes "game_table e"
  shows
    "PatchTable e ''patch_ddm_labels_01_movz'' = Done 0x3E530"
    "PatchTable e ''patch_ddm_labels_02_adrl'' = Done 0x3E568"
    "PatchTable e ''patch_ddm_labels_03_adrl'' = Done 0x3E580"
    "PatchTable e ''patch_ddm_labels_04_adrl'' = Done 0x3E58C"
    "PatchTable e ''patch_ddm_labels_05_movz'' = Done 0x3E594"
    "PatchTable e ''patch_ddm_labels_06_movz'' = Done 0x3FE78"
    "PatchTable e ''patch_ddm_labels_07_adrl'' = Done 0x3FE3C"
    "PatchTable e ''patch_ddm_labels_08_adrl'' = Done 0x3FF18"
    "PatchTable e ''patch_ddm_labels_09_adrl'' = Done 0x3FF28"
    "PatchTable e ''patch_ddm_labels_10_movz'' = Done 0x3FF20"
  using game_table_group[OF assms, of ddm_label_offsets, OF patch_entries_parts(5)] unfolding ddm_label_offsets_def by simp_all

lemma resolution_target_keys:
  assumes "game_table e"
  shows
    "PatchTable e ''patch_resolution_targets_08_movz'' = Done 0x276A60"
    "PatchTable e ''patch_resolution_targets_09_movz'' = Done 0x276A6C"
    "PatchTable e ''patch_resolution_targets_01_movz'' = Done 0xE7858"
    "PatchTable e ''patch_resolution_targets_02_movk'' = Done 0xE7860"
    "PatchTable e ''patch_resolution_targets_03_movz'' = Done 0xE785C"
    "PatchTable e ''patch_resolution_targets_04_movk'' = Done 0xE7864"
  using game_table_group[OF assms, of resolution_target_offsets, OF patch_entries_parts(6)] unfolding resolution_target_offsets_def by simp_all

lemma cheat_code_keys:
  assumes "game_table e"
  shows
    "PatchTable e ''patch_cheat_alloc_errors_01_movz'' = Done 0xA2AD04"
    "PatchTable e ''patch_cheat_alloc_errors_02_bytes'' = Done 0xA37C70"
    "PatchTable e ''patch_cheat_extra_gr_orbs_elites_01_movz'' = Done 0x844BE4"
    "PatchTable e ''patch_cheat_drop_anything_01_movn'' = Done 0x504C78"
    "PatchTable e ''patch_cheat_guaranteed_legendaries_01_nop'' = Done 0x88F82C"
    "PatchTable e ''patch_cheat_guaranteed_legendaries_02_nop'' = Done 0x88F834"
    "PatchTable e ''patch_cheat_guaranteed_legendaries_03_branch'' = Done 0x88F83C"
    "PatchTable e ''patch_cheat_guaranteed_legendaries_04_nop'' = Done 0x88F9C4"
    "PatchTable e ''patch_cheat_guaranteed_legendaries_05_branch'' = Done 0x88F9E0"
    "PatchTable e ''patch_cheat_instant_portal_01_movz'' = Done 0x9E3250"
    "PatchTable e ''patch_cheat_no_cooldowns_01_bytes'' = Done 0x7396D0"
    "PatchTable e ''patch_cheat_no_cooldowns_02_bytes'' = Done 0x7F8960"
    "PatchTable e ''patch_cheat_no_cooldowns_03_bytes'' = Done 0x9BC53C"
    "PatchTable e ''patch_cheat_no_cooldowns_04_bytes'' = Done 0x9BC828"
    "PatchTable e ''patch_cheat_instant_identify_01_nop'' = Done 0x20636C"
    "PatchTable e ''patch_cheat_instant_craft_01_add_imm'' = Done 0x40F9B0"
    "PatchTable e ''patch_cheat_instant_enchant_01_add_imm'' = Done 0x1DCFA4"
    "PatchTable e ''patch_cheat_cube_instant_craft_01_movz'' = Done 0x236D20"
    "PatchTable e ''patch_cheat_cube_instant_craft_02_movz'' = Done 0x236D24"
    "PatchTable e ''patch_cheat_cube_instant_craft_03_movz'' = Done 0x236D28"
    "PatchTable e ''patch_cheat_cube_instant_craft_04_movz'' = Done 0x236D30"
    "PatchTable e ''patch_cheat_cube_no_consume_01_ret'' = Done 0x8874D0"
    "PatchTable e ''patch_cheat_gem_upgrade_01_bytes'' = Done 0x6A255C"
    "PatchTable e ''patch_cheat_gem_speed_01_bytes'' = Done 0x349B98"
    "PatchTable e ''patch_cheat_gem_lvl150_01_bytes'' = Done 0xC72F7C"
    "PatchTable e ''patch_cheat_gem_lvl150_02_movz'' = Done 0xC72F80"
    "PatchTable e ''patch_cheat_gem_lvl150_03_bytes'' = Done 0xC72F84"
    "PatchTable e ''patch_cheat_gem_lvl150_04_ret'' = Done 0xC72F88"
    "PatchTable e ''patch_cheat_gem_lvl150_05_bytes'' = Done 0x7DF958"
    "PatchTable e ''patch_cheat_multi_legendary_01_branch'' = Done 0x4FB9E4"
    "PatchTable e ''patch_cheat_any_gem_any_slot_01_movz'' = Done 0x4F9F1C"
    "PatchTable e ''patch_cheat_any_gem_any_slot_02_branch'' = Done 0x4F9F24"
    "PatchTable e ''patch_cheat_auto_pickup_01_nop'' = Done 0x4F98DC"
  using game_table_group[OF assms, of cheat_code_offsets, OF patch_entries_parts(7)] unfolding cheat_code_offsets_def by simp_all

lemma patch_base_keys:
  assumes "game_table e"
  shows
    "PatchTable e ''patch_infinite_mp_01_resource_bl'' = Done 0x47AD0C"
    "PatchTable e ''patch_hideonline_02_movz'' = Done 0x61620"
    "PatchTable e ''patch_hideonline_03_ret'' = Done 0x61624"
    "PatchTable e ''patch_hideonline_04_movz'' = Done 0x3627EC"
    "PatchTable e ''patch_hideonline_05_movz'' = Done 0x362800"
    "PatchTable e ''patch_hideonline_06_bytes'' = Done 0x362840"
    "PatchTable e ''patch_hideonline_07_movz'' = Done 0x362844"
    "PatchTable e ''patch_hideonline_08_movz'' = Done 0x221324"
    "PatchTable e ''patch_hideonline_09_movz'' = Done 0x221338"
    "PatchTable e ''patch_hideonline_10_bytes'' = Done 0x221378"
    "PatchTable e ''patch_hideonline_11_movz'' = Done 0x22137C"
    "PatchTable e ''patch_signin_01_movz'' = Done 0x56B10"
    "PatchTable e ''patch_signin_02_ret'' = Done 0x56B14"
    "PatchTable e ''patch_autosave_string_01_adrl'' = Done 0x335B68"
    "PatchTable e ''patch_start_string_01_adrl'' = Done 0x3656B8"
    "PatchTable e ''patch_local_logging_01_movz'' = Done 0x5F0"
    "PatchTable e ''patch_dupe_noequip_01_nop'' = Done 0x802944"
    "PatchTable e ''patch_dupe_stub_01_ret'' = Done 0x3E180"
    "PatchTable e ''patch_dupe_stub_02_ret'' = Done 0x481160"
    "PatchTable e ''patch_dupe_stub_03_ret'' = Done 0x483D00"
    "PatchTable e ''patch_dupe_stub_04_ret'' = Done 0x7B71D0"
    "PatchTable e ''patch_trace_stat_path_01_adrl'' = Done 0x7B1C50"
    "PatchTable e ''patch_handicap_unlock_01_movz'' = Done 0x5281B0"
    "PatchTable e ''patch_handicap_unlock_02_ret'' = Done 0x5281B4"
    "PatchTable e ''patch_easykill_01_movz'' = Done 0x97F55C"
    "PatchTable e ''patch_easykill_02_movk'' = Done 0x97F560"
  using game_table_group[OF assms, of patch_base_offsets, OF patch_entries_parts(8)] unfolding patch_base_offsets_def by simp_all

lemma dynamic_seasonal_keys:
  assumes "game_table e"
  shows
    "PatchTable e ''patch_dynamic_seasonal_10_nop'' = Done 0x4CACB8"
    "PatchTable e ''patch_dynamic_seasonal_03_movz'' = Done 0x351CBC"
    "PatchTable e ''patch_dynamic_seasonal_04_movz'' = Done 0x5FF0C"
    "PatchTable e ''patch_dynamic_seasonal_05_movz'' = Done 0x1BD140"
    "PatchTable e ''patch_dynamic_seasonal_08_movz'' = Done 0x1BF5F0"
    "PatchTable e ''patch_dynamic_seasonal_09_ret'' = Done 0x1BF5F4"
  using game_table_group[OF assms, of dynamic_seasonal_offsets, OF patch_entries_parts(9)] unfolding dynamic_seasonal_offsets_def by simp_all

lemma buildlocker_offs:
  assumes "game_table e"
  shows
    "patch_off e ''patch_buildlocker_01_nop'' = 0xF6C"
    "patch_off e ''patch_buildlocker_02_movz'' = 0xFD4"
    "patch_off e ''patch_buildlocker_03_adrl'' = 0xFA4"
    "patch_off e ''patch_buildlocker_04_adrl'' = 0x1040"
    "patch_off e ''patch_buildlocker_05_adrl'' = 0x1228"
    "patch_off e ''patch_buildlocker_06_movz'' = 0x1088"
    "patch_off e ''patch_buildlocker_07_bytes'' = 0x10FC"
    "patch_off e ''patch_buildlocker_08_bytes'' = 0x1128"
    "patch_off e ''patch_buildlocker_09_nop'' = 0x1224"
  by (simp_all only: patch_off_def buildlocker_keys[OF assms] outcome.case)

lemma patch_data_offs:
  assumes "game_table e"
  shows
    "patch_off e ''data_build_locker_format_rw'' = 0xE6D9E4"
    "patch_off e ''data_release_fps_format_rw'' = 0xE46144"
    "patch_off e ''data_release_fps_pos_x_ro'' = 0x1098658"
    "patch_off e ''data_release_fps_pos_y_ro'' = 0x109865C"
  by (simp_all only: patch_off_def patch_data_keys[OF assms] outcome.case)

lemma var_res_label_offs:
  assumes "game_table e"
  shows
    "patch_off e ''patch_var_res_label_01_movz'' = 0x3CC20"
    "patch_off e ''patch_var_res_label_02_movz'' = 0x3CC78"
    "patch_off e ''patch_var_res_label_03_movk'' = 0x3CC7C"
  by (simp_all only: patch_off_def var_res_label_keys[OF assms] outcome.case)

lemma release_fps_offs:
  assumes "game_table e"
  shows
    "patch_off e ''patch_release_fps_label_01_movz'' = 0x3F654"
    "patch_off e ''patch_release_fps_label_02_nop'' = 0x3F69C"
    "patch_off e ''patch_release_fps_label_03_adrl'' = 0x3F6A0"
    "patch_off e ''patch_release_fps_label_04_nop'' = 0x3F840"
    "patch_off e ''patch_release_fps_label_05_nop'' = 0x3F8E4"
    "patch_off e ''patch_release_fps_label_06_nop'' = 0x3F9A8"
    "patch_off e ''patch_release_fps_label_07_nop'' = 0x3FA68"
    "patch_off e ''patch_release_fps_label_08_nop'' = 0x3FB80"
    "patch_off e ''patch_release_fps_label_09_nop'' = 0x3FC7C"
    "patch_off e ''patch_release_fps_label_10_nop'' = 0x3FD78"
  by (simp_all only: patch_off_def release_fps_keys[OF assms] outcome.case)

lemma ddm_label_offs:
  assumes "game_table e"
  shows
    "patch_off e ''patch_ddm_labels_01_movz'' = 0x3E530"
    "patch_off e ''patch_ddm_labels_02_adrl'' = 0x3E568"
    "patch_off e ''patch_ddm_labels_03_adrl'' = 0x3E580"
    "patch_off e ''patch_ddm_labels_04_adrl'' = 0x3E58C"
    "patch_off e ''patch_ddm_labels_05_movz'' = 0x3E594"
    "patch_off e ''patch_ddm_labels_06_movz'' = 0x3FE78"
    "patch_off e ''patch_ddm_labels_07_adrl'' = 0x3FE3C"
    "patch_off e ''patch_ddm_labels_08_adrl'' = 0x3FF18"
    "patch_off e ''patch_ddm_labels_09_adrl'' = 0x3FF28"
    "patch_off e ''patch_ddm_labels_10_movz'' = 0x3FF20"
  by (simp_all only: patch_off_def ddm_label_keys[OF assms] outcome.case)

lemma resolution_target_offs:
  assumes "game_table e"
  shows
    "patch_off e ''patch_resolution_targets_08_movz'' = 0x276A60"
    "patch_off e ''patch_resolution_targets_09_movz'' = 0x276A6C"
    "patch_off e ''patch_resolution_targets_01_movz'' = 0xE7858"
    "patch_off e ''patch_resolution_targets_02_movk'' = 0xE7860"
    "patch_off e ''patch_resolution_targets_03_movz'' = 0xE785C"
    "patch_off e ''patch_resolution_targets_04_movk'' = 0xE7864"
  by (simp_all only: patch_off_def resolution_target_keys[OF assms] outcome.case)

lemma cheat_code_offs:
  assumes "game_table e"
  shows
    "patch_off e ''patch_cheat_alloc_errors_01_movz'' = 0xA2AD04"
    "patch_off e ''patch_cheat_alloc_errors_02_bytes'' = 0xA37C70"
    "patch_off e ''patch_cheat_extra_gr_orbs_elites_01_movz'' = 0x844BE4"
    "patch_off e ''patch_cheat_drop_anything_01_movn'' = 0x504C78"
    "patch_off e ''patch_cheat_guaranteed_legendaries_01_nop'' = 0x88F82C"
    "patch_off e ''patch_cheat_guaranteed_legendaries_02_nop'' = 0x88F834"
    "patch_off e ''patch_cheat_guaranteed_legendaries_03_branch'' = 0x88F83C"
    "patch_off e ''patch_cheat_guaranteed_legendaries_04_nop'' = 0x88F9C4"
    "patch_off e ''patch_cheat_guaranteed_legendaries_05_branch'' = 0x88F9E0"
    "patch_off e ''patch_cheat_instant_portal_01_movz'' = 0x9E3250"
    "patch_off e ''patch_cheat_no_cooldowns_01_bytes'' = 0x7396D0"
    "patch_off e ''patch_cheat_no_cooldowns_02_bytes'' = 0x7F8960"
    "patch_off e ''patch_cheat_no_cooldowns_03_bytes'' = 0x9BC53C"
    "patch_off e ''patch_cheat_no_cooldowns_04_bytes'' = 0x9BC828"
    "patch_off e ''patch_cheat_instant_identify_01_nop'' = 0x20636C"
    "patch_off e ''patch_cheat_instant_craft_01_add_imm'' = 0x40F9B0"
    "patch_off e ''patch_cheat_instant_enchant_01_add_imm'' = 0x1DCFA4"
    "patch_off e ''patch_cheat_cube_instant_craft_01_movz'' = 0x236D20"
    "patch_off e ''patch_cheat_cube_instant_craft_02_movz'' = 0x236D24"
    "patch_off e ''patch_cheat_cube_instant_craft_03_movz'' = 0x236D28"
    "patch_off e ''patch_cheat_cube_instant_craft_04_movz'' = 0x236D30"
    "patch_off e ''patch_cheat_cube_no_consume_01_ret'' = 0x8874D0"
    "patch_off e ''patch_cheat_gem_upgrade_01_bytes'' = 0x6A255C"
    "patch_off e ''patch_cheat_gem_speed_01_bytes'' = 0x349B98"
    "patch_off e ''patch_cheat_gem_lvl150_01_bytes'' = 0xC72F7C"
    "patch_off e ''patch_cheat_gem_lvl150_02_movz'' = 0xC72F80"
    "patch_off e ''patch_cheat_gem_lvl150_03_bytes'' = 0xC72F84"
    "patch_off e ''patch_cheat_gem_lvl150_04_ret'' = 0xC72F88"
    "patch_off e ''patch_cheat_gem_lvl150_05_bytes'' = 0x7DF958"
    "patch_off e ''patch_cheat_multi_legendary_01_branch'' = 0x4FB9E4"
    "patch_off e ''patch_cheat_any_gem_any_slot_01_movz'' = 0x4F9F1C"
    "patch_off e ''patch_cheat_any_gem_any_slot_02_branch'' = 0x4F9F24"
    "patch_off e ''patch_cheat_auto_pickup_01_nop'' = 0x4F98DC"
  by (simp_all only: patch_off_def cheat_code_keys[OF assms] outcome.case)

lemma patch_base_offs:
  assumes "game_table e"
  shows
    "patch_off e ''patch_infinite_mp_01_resource_bl'' = 0x47AD0C"
    "patch_off e ''patch_hideonline_02_movz'' = 0x61620"
    "patch_off e ''patch_hideonline_03_ret'' = 0x61624"
    "patch_off e ''patch_hideonline_04_movz'' = 0x3627EC"
    "patch_off e ''patch_hideonline_05_movz'' = 0x362800"
    "patch_off e ''patch_hideonline_06_bytes'' = 0x362840"
    "patch_off e ''patch_hideonline_07_movz'' = 0x362844"
    "patch_off e ''patch_hideonline_08_movz'' = 0x221324"
    "patch_off e ''patch_hideonline_09_movz'' = 0x221338"
    "patch_off e ''patch_hideonline_10_bytes'' = 0x221378"
    "patch_off e ''patch_hideonline_11_movz'' = 0x22137C"
    "patch_off e ''patch_signin_01_movz'' = 0x56B10"
    "patch_off e ''patch_signin_02_ret'' = 0x56B14"
    "patch_off e ''patch_autosave_string_01_adrl'' = 0x335B68"
    "patch_off e ''patch_start_string_01_adrl'' = 0x3656B8"
    "patch_off e ''patch_local_logging_01_movz'' = 0x5F0"
    "patch_off e ''patch_dupe_noequip_01_nop'' = 0x802944"
    "patch_off e ''patch_dupe_stub_01_ret'' = 0x3E180"
    "patch_off e ''patch_dupe_stub_02_ret'' = 0x481160"
    "patch_off e ''patch_dupe_stub_03_ret'' = 0x483D00"
    "patch_off e ''patch_dupe_stub_04_ret'' = 0x7B71D0"
    "patch_off e ''patch_trace_stat_path_01_adrl'' = 0x7B1C50"
    "patch_off e ''patch_handicap_unlock_01_movz'' = 0x5281B0"
    "patch_off e ''patch_handicap_unlock_02_ret'' = 0x5281B4"
    "patch_off e ''patch_easykill_01_movz'' = 0x97F55C"
    "patch_off e ''patch_easykill_02_movk'' = 0x97F560"
  by (simp_all only: patch_off_def patch_base_keys[OF assms] outcome.case)

lemma dynamic_seasonal_offs:
  assumes "game_table e"
  shows
    "patch_off e ''patch_dynamic_seasonal_10_nop'' = 0x4CACB8"
    "patch_off e ''patch_dynamic_seasonal_03_movz'' = 0x351CBC"
    "patch_off e ''patch_dynamic_seasonal_04_movz'' = 0x5FF0C"
    "patch_off e ''patch_dynamic_seasonal_05_movz'' = 0x1BD140"
    "patch_off e ''patch_dynamic_seasonal_08_movz'' = 0x1BF5F0"
    "patch_off e ''patch_dynamic_seasonal_09_ret'' = 0x1BF5F4"
  by (simp_all only: patch_off_def dynamic_seasonal_keys[OF assms] outcome.case)

lemmas patch_keys = buildlocker_keys patch_data_keys var_res_label_keys release_fps_keys ddm_label_keys resolution_target_keys cheat_code_keys patch_base_keys dynamic_seasonal_keys

section \<open>The sites\<close>

text \<open>A site is an offset into the image and a number of bytes.\<close>

type_synonym site = "nat \<times> nat"

definition site_of :: "u64 \<times> u8 list \<Rightarrow> site" where
  "site_of w = (unat (fst w), length (snd w))"

definition apart :: "site \<Rightarrow> site \<Rightarrow> bool" where
  "apart s t \<longleftrightarrow> fst s + snd s \<le> fst t \<or> fst t + snd t \<le> fst s"

definition sites :: "patch_env \<Rightarrow> patch_op list \<Rightarrow> site list" where
  "sites e ops = map site_of (ops_writes e (patch_off e) ops)"

lemma sites_Nil [simp]: "sites e [] = []"
  by (simp add: sites_def)

lemma sites_append [simp]: "sites e (xs @ ys) = sites e xs @ sites e ys"
  by (simp add: sites_def)

definition cheat_sites :: "site list" where
  "cheat_sites =
     [
      (0xA2AD04, 4), (0xA37C70, 4)]
     @ [
      (0x844BE4, 4)]
     @ [
      (0x504C78, 4)]
     @ [
      (0x88F82C, 4), (0x88F834, 4), (0x88F83C, 4), (0x88F9C4, 4), (0x88F9E0, 4)]
     @ [
      (0x9E3250, 4)]
     @ [
      (0x7396D0, 4), (0x7F8960, 4), (0x9BC53C, 4), (0x9BC828, 4)]
     @ [
      (0x20636C, 4)]
     @ [
      (0x40F9B0, 4)]
     @ [
      (0x1DCFA4, 4)]
     @ [
      (0x236D20, 4), (0x236D24, 4), (0x236D28, 4), (0x236D30, 4)]
     @ [
      (0x8874D0, 4)]
     @ [
      (0x6A255C, 4)]
     @ [
      (0x349B98, 4)]
     @ [
      (0xC72F7C, 4), (0xC72F80, 4), (0xC72F84, 4), (0xC72F88, 4), (0x7DF958, 4)]
     @ [
      (0x4FB9E4, 4)]
     @ [
      (0x4F9F1C, 4), (0x4F9F24, 4)]
     @ [
      (0x4F98DC, 4)]"

definition base_sites :: "site list" where
  "base_sites =
     cheat_sites
     @ [
      (0x56B10, 4), (0x56B14, 4)]
     @ [
      (0x47AD0C, 4)]
     @ [
      (0x335B68, 4), (0x335B6C, 4), (0x3656B8, 4), (0x3656BC, 4), (0x5F0, 4)]
     @ [
      (0x802944, 4), (0x3E180, 4), (0x481160, 4), (0x483D00, 4), (0x7B71D0, 4)]
     @ [
      (0x7B1C50, 4), (0x7B1C54, 4)]
     @ [
      (0x61620, 4), (0x61624, 4), (0x3627EC, 4), (0x362800, 4), (0x362840, 4), (0x362844, 4),
      (0x221324, 4), (0x221338, 4), (0x221378, 4), (0x22137C, 4)]
     @ [
      (0x5281B0, 4), (0x5281B4, 4)]
     @ [
      (0x97F55C, 4), (0x97F560, 4)]"

definition buildlocker_sites :: "site list" where
  "buildlocker_sites =
    [
     (0xF6C, 4), (0xFD4, 4), (0xFA4, 4), (0xFA8, 4), (0x1040, 4), (0x1044, 4), (0x1228, 4),
     (0x122C, 4), (0xE6D9E4, 21), (0x1088, 4), (0x10FC, 4), (0x1128, 4), (0x1224, 4)]"

definition resolution_sites :: "site list" where
  "resolution_sites =
     [
      (0x276A60, 4), (0x276A6C, 4)]
     @ [
      (0xE7770, 4), (0xE77A0, 4)]
     @ [
      (0xE7858, 4), (0xE7860, 4), (0xE785C, 4), (0xE7864, 4)]"

definition heap_sites :: "site list" where
  "heap_sites =
    [
     (0xA36B34, 4)]"

definition seasonal_sites :: "site list" where
  "seasonal_sites =
    [
     (0x351CBC, 4), (0x5FF0C, 4), (0x1BD140, 4), (0x1BF5F0, 4), (0x1BF5F4, 4)]"

definition gate_sites :: "site list" where
  "gate_sites =
    [
     (0x4CACB8, 4)]"

definition label_sites :: "site list" where
  "label_sites =
    [
     (0x3CC20, 4), (0x3CC78, 4), (0x3CC7C, 4), (0x3F654, 4), (0xE46144, 10), (0x1098658, 4),
     (0x109865C, 4), (0x3F69C, 4), (0x3F6A0, 4), (0x3F6A4, 4), (0x3F840, 4), (0x3F8E4, 4),
     (0x3F9A8, 4), (0x3FA68, 4), (0x3FB80, 4), (0x3FC7C, 4), (0x3FD78, 4), (0x3E530, 4),
     (0x3E568, 4), (0x3E56C, 4), (0x3E580, 4), (0x3E584, 4), (0x3E58C, 4), (0x3E590, 4),
     (0x3E594, 4), (0x3FE78, 4), (0x3FE3C, 4), (0x3FE40, 4), (0x3FF18, 4), (0x3FF1C, 4),
     (0x3FF28, 4), (0x3FF2C, 4), (0x3FF20, 4)]"

definition all_sites :: "site list" where
  "all_sites =
     (heap_sites @ seasonal_sites @ buildlocker_sites @ resolution_sites @ base_sites) @ gate_sites @ label_sites"

lemmas site_groups =
  cheat_sites_def base_sites_def buildlocker_sites_def resolution_sites_def heap_sites_def seasonal_sites_def
  gate_sites_def label_sites_def

section \<open>No overlap\<close>

lemma sorted_wrt_Cons: "sorted_wrt P (x # xs) \<longleftrightarrow> list_all (P x) xs \<and> sorted_wrt P xs"
  by (simp add: list_all_iff)

lemma apart_pairs: "apart (a, n) (b, k) \<longleftrightarrow> a + n \<le> b \<or> b + k \<le> a"
  by (simp add: apart_def)

lemma all_sites_apart: "sorted_wrt apart all_sites"
  unfolding all_sites_def site_groups append.simps
  by (simp only: sorted_wrt_Cons list.pred_inject sorted_wrt.simps(1) apart_pairs simp_thms arith_simps rel_simps)

definition hook_offsets :: "(u32 \<times> string) list" where
  "hook_offsets =
     early_hook_offsets @ utility_hook_offsets @ season_hook_offsets @ lobby_hook_offsets @ debugging_hook_offsets"

definition boot_sites :: "site list" where
  "boot_sites = heap_sites @ seasonal_sites @ buildlocker_sites @ resolution_sites @ base_sites"

text \<open>A trampoline covers at most five words (\<open>hook_impl\<close>): 20 bytes from the hooked address.\<close>

lemma hooks_clear: "list_all (\<lambda>h. list_all (apart (unat (fst h), 20)) (boot_sites @ gate_sites)) hook_offsets"
  unfolding hook_offsets_def early_hook_offsets_def utility_hook_offsets_def season_hook_offsets_def
    lobby_hook_offsets_def debugging_hook_offsets_def
  by (simp, simp only: boot_sites_def site_groups append.simps list.pred_inject apart_pairs simp_thms
      arith_simps rel_simps)

section \<open>Which sites a body writes\<close>

lemma length_chars [simp]: "length (chars s n) = length s + n"
  by (simp add: chars_def)

definition op_sites :: "patch_env \<Rightarrow> patch_op \<Rightarrow> site list" where
  "op_sites e x = map site_of (op_writes e (patch_off e) x)"

lemma sites_Cons [simp]: "sites e (x # xs) = op_sites e x @ sites e xs"
  by (simp add: sites_def op_sites_def)

lemma op_sites_simps [simp]:
  "op_sites e (Patch key inst) = [(unat (patch_off e key), 4)]"
  "op_sites e (Patch_at a inst) = [(unat a, 4)]"
  "op_sites e (Patch_dword key bs) = [(unat (patch_off e key), length bs)]"
  "op_sites e (MakeAdrlPatch key obj reg) = [(unat (patch_off e key), 4), (unat (patch_off e key + 4), 4)]"
  "op_sites e (Store_Rw key bs) = [(unat (patch_off e key), length bs)]"
  "op_sites e (Store_Ro key bs) = [(unat (patch_off e key), length bs)]"
  "op_sites e (XVarBool_Set var v) = []"
  "op_sites e (XVarUint32_Set var u) = []"
  "op_sites e (Call ops) = sites e ops"
  by (simp_all add: op_sites_def Adrl_words_def Let_def sites_def ops_writes_def site_of_def)

lemma subseq_guarded: "sites e ops = ss \<Longrightarrow> subseq (sites e (guarded b ops)) ss"
  by (simp add: guarded_def)

lemma subseq_eqI: "xs = ys \<Longrightarrow> subseq xs ys"
  by simp

lemma subseq_guard: "subseq xs (if b then ys else []) \<Longrightarrow> subseq xs ys"
  by (cases b) (auto dest: list_emb_Nil2)

lemmas by_groups = list_emb_append_mono subseq_guarded subseq_eqI

lemma cheat_ops_sites:
  assumes "game_table e"
  shows "subseq (sites e (PortCheatCodes_ops cfg)) cheat_sites"
proof (cases "rc_active (rare_cheats cfg)")
  case True
  then have n: "\<not> \<not> rc_active (rare_cheats cfg)" by simp
  show ?thesis
    unfolding PortCheatCodes_ops_def cheat_sites_def Let_def if_not_P[OF n] sites_append
    by (intro by_groups) (simp_all add: cheat_code_offs[OF assms])
qed (simp add: PortCheatCodes_ops_def)

lemma infinite_mp_sites:
  assumes "game_table e"
  shows "sites e (PatchInfiniteMp_ops b) = [(0x47AD0C, 4)]"
  by (simp add: PatchInfiniteMp_ops_def k_infinite_mp_restore_call_def patch_base_offs[OF assms])

lemma base_ops_sites:
  assumes "game_table e"
  shows "subseq (sites e (PatchBase_ops cfg)) base_sites"
proof -
  have cheats: "subseq (sites e [Call (PortCheatCodes_ops cfg)]) cheat_sites"
    using cheat_ops_sites[OF assms] by simp
  have infinite_mp: "sites e [Call (PatchInfiniteMp_ops b)] = [(0x47AD0C, 4)]" for b
    by (simp add: infinite_mp_sites[OF assms])
  show ?thesis
    unfolding PatchBase_ops_def base_sites_def sites_append infinite_mp
    by (intro by_groups cheats) (simp_all add: hide_online_def patch_base_offs[OF assms])
qed

lemma PatchBuildlocker_ops_sites:
  assumes "game_table e"
  shows "subseq (sites e (PatchBuildlocker_ops cfg)) buildlocker_sites"
  by (simp add: PatchBuildlocker_ops_def buildlocker_sites_def buildlocker_offs[OF assms] patch_data_offs[OF assms])

lemma resolution_ops_sites:
  assumes "game_table e"
  shows "subseq (sites e (PatchResolutionTargets_ops dev cfg)) resolution_sites"
  unfolding PatchResolutionTargets_ops_def Let_def resolution_sites_def sites_append
  by (simp add: resolution_target_offs[OF assms])

lemma heap_ops_sites: "sites e (PatchGraphicsPersistentHeapEarly_ops dev) = heap_sites"
  by (simp add: PatchGraphicsPersistentHeapEarly_ops_def heap_sites_def)

lemma gate_ops_sites:
  assumes "game_table e"
  shows "subseq (sites e (fst (SetDynamicSeasonalPatchArmed cfg armed g))) gate_sites"
  by (simp add: SetDynamicSeasonalPatchArmed_def Let_def gate_sites_def k_dynamic_seasonal_restore_tbz_def
      dynamic_seasonal_offs[OF assms])

lemma seasonal_ops_sites:
  assumes "game_table e"
  shows "sites e (fst (PatchDynamicSeasonal_ops cfg g)) =
     (if sea_active (seasons cfg) then seasonal_sites else []) @ sites e (fst (SetDynamicSeasonalPatchArmed cfg False g))"
  by (simp add: PatchDynamicSeasonal_ops_def Let_def seasonal_sites_def dynamic_seasonal_offs[OF assms] case_prod_beta)

section \<open>Start-up\<close>

text \<open>
  The bodies that run before the game loop: \<open>exl_main\<close> patches the heap size, the
  \<open>MainInit\<close> hook runs the functions of its plan.  \<open>PatchDynamicEvents\<close> writes no code.
\<close>

definition patch_body :: "u32 option \<Rightarrow> PatchConfig \<Rightarrow> string \<Rightarrow> patch_op list" where
  "patch_body dev cfg fn =
     (if fn = ''PatchDynamicSeasonal'' then fst (PatchDynamicSeasonal_ops cfg \<lparr>gate_applied = False, gate_generation = 0\<rparr>)
      else if fn = ''PatchBuildlocker'' then PatchBuildlocker_ops cfg
      else if fn = ''PatchResolutionTargets'' then PatchResolutionTargets_ops dev cfg
      else if fn = ''PatchBase'' then PatchBase_ops cfg
      else [])"

definition boot_bodies :: "u32 option \<Rightarrow> PatchConfig \<Rightarrow> patch_op list list" where
  "boot_bodies dev cfg =
     PatchGraphicsPersistentHeapEarly_ops dev # map (\<lambda>p. patch_body dev cfg (snd p)) (patch_plan cfg)"

fun run_bodies :: "patch_env \<Rightarrow> patch_op list list \<Rightarrow> patch_state \<Rightarrow> patch_state outcome" where
  "run_bodies e [] s = Done s"
| "run_bodies e (b # bs) s = bind_outcome (run_patch e b s) (run_bodies e bs)"

section \<open>Bytes after a run\<close>

lemma store_bytes_nth:
  "unat (x - a) < length bs \<Longrightarrow> length bs < 2 ^ 64 \<Longrightarrow> store_bytes m a bs x = bs ! unat (x - a)"
proof (induction bs arbitrary: m a)
  case (Cons b bs)
  show ?case
  proof (cases "x = a")
    case True
    then have "unat (x - (a + 1)) = 2 ^ 64 - 1"
      by (simp add: unsigned_minus_1_eq_mask mask_eq_exp_minus_1)
    then show ?thesis using True Cons.prems(2) store_bytes_other[of bs x "a + 1" "m(a := b)"] by simp
  next
    case False
    then have "unat (x - (a + 1)) = unat (x - a) - 1" "0 < unat (x - a)"
      using unat_minus_one[of "x - a"] by (auto simp: diff_diff_eq unat_gt_0)
    then show ?thesis using Cons by (auto simp: nth_Cons')
  qed
qed simp

definition in_write :: "u64 \<Rightarrow> u64 \<times> u8 list \<Rightarrow> bool" where
  "in_write x w \<longleftrightarrow> unat (x - fst w) < length (snd w)"

definition fits :: "u64 \<times> u8 list \<Rightarrow> bool" where
  "fits w \<longleftrightarrow> unat (fst w) + length (snd w) < 2 ^ 64 - 1"

lemma in_write_bounds:
  assumes "in_write x w" "fits w"
  shows "unat (fst w) \<le> unat x \<and> unat x < unat (fst w) + length (snd w)"
proof -
  have "unat (fst w + (x - fst w)) = unat (fst w) + unat (x - fst w)"
    using assms unfolding in_write_def fits_def by (subst unat_add_lem [THEN iffD1]) simp_all
  then show ?thesis using assms(1) by (simp add: in_write_def)
qed

lemma apart_writes:
  assumes "apart (site_of v) (site_of w)" "fits v" "fits w" "in_write x v"
  shows "\<not> in_write x w"
  using in_write_bounds[of x v] in_write_bounds[of x w] assms by (auto simp: apart_def site_of_def)

lemma store_writes_other: "\<forall>w \<in> set ws. \<not> in_write x w \<Longrightarrow> store_writes ws m x = m x"
proof (induction ws arbitrary: m)
  case (Cons w ws)
  then show ?case by (cases w) (simp add: in_write_def store_bytes_other)
qed simp

lemma store_writes_nth:
  assumes "sorted_wrt apart (map site_of ws)" "\<forall>w \<in> set ws. fits w" "w \<in> set ws" "in_write x w"
  shows "store_writes ws m x = snd w ! unat (x - fst w)"
  using assms
proof (induction ws arbitrary: m)
  case (Cons v ws)
  obtain a bs where v: "v = (a, bs)" by force
  show ?case
  proof (cases "w = v")
    case True
    have "\<forall>u \<in> set ws. \<not> in_write x u"
      using Cons.prems apart_writes[of v _ x] True by (auto simp: sorted_wrt_map)
    then show ?thesis
      using True Cons.prems(2,4) v store_bytes_nth[of x a bs m]
      by (simp add: store_writes_other in_write_def fits_def)
  next
    case False
    then show ?thesis using Cons v by simp
  qed
qed simp

lemma run_bodies_correct:
  assumes "\<forall>b \<in> set bodies. \<forall>k \<in> set (concat (map op_keys b)). PatchTable e k = Done (off k)"
    "\<forall>b \<in> set bodies. \<forall>w \<in> set (ops_writes e off b). fits w"
  shows "\<exists>fs. run_bodies e bodies s = Done \<lparr>ps_mem = store_writes (concat (map (ops_writes e off) bodies)) (ps_mem s),
       ps_flushes = ps_flushes s @ fs, ps_calls = ps_calls s @ concat (map op_calls (concat bodies))\<rparr>
     \<and> (\<forall>x. store_writes (concat (map (ops_writes e off) bodies)) (ps_mem s) x \<noteq> ps_mem s x \<longrightarrow>
          covered (pe_pages e) fs x
          \<or> (\<exists>w \<in> set (concat (map (op_stores off) (concat bodies))). in_write x w))"
  using assms
proof (induction bodies arbitrary: s)
  case (Cons b bodies)
  let ?m = "store_writes (ops_writes e off b) (ps_mem s)"
  obtain fs where b: "run_patch e b s = Done \<lparr>ps_mem = ?m, ps_flushes = ps_flushes s @ fs, ps_calls = ps_calls s @ concat (map op_calls b)\<rparr>"
    "\<forall>x. ?m x \<noteq> ps_mem s x \<longrightarrow> covered (pe_pages e) fs x \<or> (\<exists>w \<in> set (concat (map (op_stores off) b)). in_write x w)"
    using run_patch_correct[of b e off s] Cons.prems by (auto simp: fits_def in_write_def case_prod_beta)
  let ?s = "\<lparr>ps_mem = ?m, ps_flushes = ps_flushes s @ fs, ps_calls = ps_calls s @ concat (map op_calls b)\<rparr>"
  let ?ws = "concat (map (ops_writes e off) bodies)"
  let ?st = "\<lambda>b. set (concat (map (op_stores off) b))"
  obtain fs' where r: "run_bodies e bodies ?s = Done \<lparr>ps_mem = store_writes ?ws ?m,
       ps_flushes = ps_flushes s @ fs @ fs', ps_calls = ps_calls s @ concat (map op_calls b) @ concat (map op_calls (concat bodies))\<rparr>"
    and c: "\<forall>x. store_writes ?ws ?m x \<noteq> ?m x \<longrightarrow> covered (pe_pages e) fs' x \<or> (\<exists>w \<in> ?st (concat bodies). in_write x w)"
    using Cons.IH[of ?s] Cons.prems by auto
  have "covered (pe_pages e) (fs @ fs') x \<or> (\<exists>w \<in> ?st (concat (b # bodies)). in_write x w)"
    if "store_writes ?ws ?m x \<noteq> ps_mem s x" for x
  proof (cases "?m x = ps_mem s x")
    case True
    then have "covered (pe_pages e) fs' x \<or> (\<exists>w \<in> ?st (concat bodies). in_write x w)" using that c by simp
    then show ?thesis by auto
  next
    case False
    then have "covered (pe_pages e) fs x \<or> (\<exists>w \<in> ?st b. in_write x w)" using b(2) by blast
    then show ?thesis by auto
  qed
  then show ?case using b(1) r by (intro exI[of _ "fs @ fs'"]) simp
qed (auto intro: exI[of _ "[]"])

lemma set_subseq: "subseq xs ys \<Longrightarrow> x \<in> set xs \<Longrightarrow> x \<in> set ys"
  by (induction rule: list_emb.induct) auto

lemma sorted_wrt_subseq: "subseq xs ys \<Longrightarrow> sorted_wrt P ys \<Longrightarrow> sorted_wrt P xs"
proof (induction rule: list_emb.induct)
  case (list_emb_Cons2 x y xs ys)
  then show ?case using set_subseq[OF list_emb_Cons2(2)] by auto
qed auto

section \<open>The boot image\<close>

definition resolves :: "patch_env \<Rightarrow> patch_op list \<Rightarrow> bool" where
  "resolves e ops \<longleftrightarrow> list_all (\<lambda>k. PatchTable e k = Done (patch_off e k)) (concat (map op_keys ops))"

lemma resolves_simps [simp]:
  "resolves e []" "resolves e (x # xs) \<longleftrightarrow> list_all (\<lambda>k. PatchTable e k = Done (patch_off e k)) (op_keys x) \<and> resolves e xs"
  "resolves e (xs @ ys) \<longleftrightarrow> resolves e xs \<and> resolves e ys"
  "resolves e (guarded b xs) \<longleftrightarrow> (b \<longrightarrow> resolves e xs)"
  by (auto simp: resolves_def guarded_def)

lemma resolves_Call: "list_all (\<lambda>k. PatchTable e k = Done (patch_off e k)) (op_keys (Call ops)) = resolves e ops"
  by (simp add: resolves_def)

lemma cheat_ops_resolve: "game_table e \<Longrightarrow> resolves e (PortCheatCodes_ops cfg)"
  by (simp add: PortCheatCodes_ops_def Let_def cheat_code_keys cheat_code_offs)

lemma infinite_mp_resolve: "game_table e \<Longrightarrow> resolves e (PatchInfiniteMp_ops b)"
  by (simp add: PatchInfiniteMp_ops_def patch_base_keys patch_base_offs)

lemma base_ops_resolve: "game_table e \<Longrightarrow> resolves e (PatchBase_ops cfg)"
  by (simp add: PatchBase_ops_def hide_online_def resolves_Call patch_base_keys patch_base_offs
      cheat_ops_resolve infinite_mp_resolve del: op_keys.simps(9))

lemma buildlocker_ops_resolve: "game_table e \<Longrightarrow> resolves e (PatchBuildlocker_ops cfg)"
  by (simp add: PatchBuildlocker_ops_def buildlocker_keys buildlocker_offs patch_data_keys patch_data_offs)

lemma resolution_ops_resolve: "game_table e \<Longrightarrow> resolves e (PatchResolutionTargets_ops dev cfg)"
  by (simp add: PatchResolutionTargets_ops_def Let_def resolution_target_keys resolution_target_offs)

lemma gate_ops_resolve: "game_table e \<Longrightarrow> resolves e (fst (SetDynamicSeasonalPatchArmed cfg b g))"
  by (simp add: SetDynamicSeasonalPatchArmed_def Let_def dynamic_seasonal_keys dynamic_seasonal_offs)

lemma seasonal_ops_resolve: "game_table e \<Longrightarrow> resolves e (fst (PatchDynamicSeasonal_ops cfg g))"
  by (simp add: PatchDynamicSeasonal_ops_def Let_def case_prod_beta resolves_Call gate_ops_resolve
      dynamic_seasonal_keys dynamic_seasonal_offs del: op_keys.simps(9))

lemmas ops_resolve =
  base_ops_resolve buildlocker_ops_resolve resolution_ops_resolve seasonal_ops_resolve gate_ops_resolve
  infinite_mp_resolve

lemma boot_bodies_resolve:
  assumes "game_table e"
  shows "\<forall>b \<in> set (boot_bodies dev cfg). resolves e b"
proof -
  have "resolves e (PatchGraphicsPersistentHeapEarly_ops dev)"
    by (simp add: PatchGraphicsPersistentHeapEarly_ops_def)
  then show ?thesis using ops_resolve[OF assms] by (auto simp: boot_bodies_def patch_body_def)
qed

lemma boot_bodies_sites:
  assumes "game_table e"
  shows "subseq (concat (map (sites e) (boot_bodies dev cfg))) boot_sites"
proof -
  have eq: "concat (map (sites e) (boot_bodies dev cfg)) =
      sites e (PatchGraphicsPersistentHeapEarly_ops dev)
      @ (if sea_active (seasons cfg)
         then sites e (fst (PatchDynamicSeasonal_ops cfg \<lparr>gate_applied = False, gate_generation = 0\<rparr>)) else [])
      @ (if ov_active (overlays cfg) \<and> buildlocker_watermark (overlays cfg) then sites e (PatchBuildlocker_ops cfg) else [])
      @ (if rh_active (resolution_hack cfg) then sites e (PatchResolutionTargets_ops dev cfg) else [])
      @ sites e (PatchBase_ops cfg)"
    by (simp add: boot_bodies_def patch_plan_def patch_body_def)
  have guard: "subseq xs ys \<Longrightarrow> subseq (if b then xs else []) ys" for b and xs ys :: "site list" by simp
  have gate0: "sites e (fst (PatchDynamicSeasonal_ops cfg \<lparr>gate_applied = False, gate_generation = 0\<rparr>))
      = (if sea_active (seasons cfg) then seasonal_sites else [])"
    by (simp add: seasonal_ops_sites[OF assms] SetDynamicSeasonalPatchArmed_def Let_def)
  show ?thesis
    unfolding eq boot_sites_def
    by (intro list_emb_append_mono guard subseq_eqI[OF heap_ops_sites] subseq_eqI[OF gate0, THEN subseq_guard]
        PatchBuildlocker_ops_sites[OF assms] resolution_ops_sites[OF assms] base_ops_sites[OF assms])
qed

lemma boot_sites_apart: "sorted_wrt apart boot_sites"
proof -
  have "all_sites = boot_sites @ gate_sites @ label_sites" by (simp add: all_sites_def boot_sites_def)
  then show ?thesis using all_sites_apart by (metis sorted_wrt_append)
qed

lemma boot_sites_low: "list_all (\<lambda>s. fst s + snd s < 0x1000000) boot_sites"
  unfolding boot_sites_def site_groups by simp

definition boot_writes :: "patch_env \<Rightarrow> u32 option \<Rightarrow> PatchConfig \<Rightarrow> (u64 \<times> u8 list) list" where
  "boot_writes e dev cfg = concat (map (ops_writes e (patch_off e)) (boot_bodies dev cfg))"

lemma boot_writes_sites:
  assumes "game_table e"
  shows "subseq (map site_of (boot_writes e dev cfg)) boot_sites"
  using boot_bodies_sites[OF assms, of dev cfg] by (simp add: boot_writes_def map_concat sites_def[abs_def] comp_def)

lemma boot_writes_ok:
  assumes "game_table e"
  shows "sorted_wrt apart (map site_of (boot_writes e dev cfg))" "\<forall>w \<in> set (boot_writes e dev cfg). fits w"
    "\<forall>w \<in> set (boot_writes e dev cfg). site_of w \<in> set boot_sites"
proof -
  note sub = boot_writes_sites[OF assms, of dev cfg]
  show "sorted_wrt apart (map site_of (boot_writes e dev cfg))"
    by (rule sorted_wrt_subseq[OF sub boot_sites_apart])
  show m: "\<forall>w \<in> set (boot_writes e dev cfg). site_of w \<in> set boot_sites"
    using set_subseq[OF sub] by auto
  show "\<forall>w \<in> set (boot_writes e dev cfg). fits w"
  proof
    fix w assume "w \<in> set (boot_writes e dev cfg)"
    then have "fst (site_of w) + snd (site_of w) < 0x1000000"
      using m boot_sites_low by (auto simp: list_all_iff)
    then show "fits w" by (simp add: site_of_def fits_def)
  qed
qed

lemma store_writes_find:
  assumes "sorted_wrt apart (map site_of ws)" "\<forall>w \<in> set ws. fits w"
  shows "store_writes ws m x =
    (case List.find (in_write x) ws of Some (a, bs) \<Rightarrow> bs ! unat (x - a) | None \<Rightarrow> m x)"
proof (cases "List.find (in_write x) ws")
  case None
  then have "\<forall>w \<in> set ws. \<not> in_write x w" by (metis find_None_iff)
  then show ?thesis using None by (simp add: store_writes_other)
next
  case (Some w)
  then have w: "w \<in> set ws" "in_write x w" by (auto simp: find_Some_iff)
  obtain a bs where "w = (a, bs)" by force
  then show ?thesis using store_writes_nth[OF assms w] Some by simp
qed

definition stores :: "patch_env \<Rightarrow> patch_op list \<Rightarrow> (u64 \<times> u8 list) list" where
  "stores e ops = concat (map (op_stores (patch_off e)) ops)"

lemma stores_simps [simp]:
  "stores e [] = []" "stores e (x # xs) = op_stores (patch_off e) x @ stores e xs"
  "stores e (xs @ ys) = stores e xs @ stores e ys"
  "stores e (guarded b xs) = (if b then stores e xs else [])"
  by (simp_all add: stores_def guarded_def)

lemma stores_concat [simp]: "stores e (concat bs) = concat (map (stores e) bs)"
  by (induction bs) simp_all

lemma op_stores_Call: "op_stores (patch_off e) (Call ops) = stores e ops"
  by (simp add: stores_def)

lemma boot_stores:
  assumes "game_table e"
  shows "\<forall>w \<in> set (stores e (concat (boot_bodies dev cfg))). w = (0xE6D9E4, chars ''%s%s%d.%d.%d'' 9)"
proof -
  have none: "stores e (PatchGraphicsPersistentHeapEarly_ops dev) = []" "stores e (PatchResolutionTargets_ops dev cfg) = []"
    by (simp_all add: PatchGraphicsPersistentHeapEarly_ops_def PatchResolutionTargets_ops_def Let_def)
  have "stores e (fst (SetDynamicSeasonalPatchArmed cfg b g)) = []" for b g
    by (simp add: SetDynamicSeasonalPatchArmed_def Let_def)
  then have sea: "stores e (fst (PatchDynamicSeasonal_ops cfg g)) = []" for g
    by (simp add: PatchDynamicSeasonal_ops_def Let_def case_prod_beta op_stores_Call del: op_stores.simps(3))
  have cheats: "stores e (PortCheatCodes_ops cfg) = []"
    by (simp add: PortCheatCodes_ops_def Let_def)
  have inf: "stores e (PatchInfiniteMp_ops b) = []" for b
    by (simp add: PatchInfiniteMp_ops_def)
  have base: "stores e (PatchBase_ops cfg) = []"
    using cheats inf by (simp add: PatchBase_ops_def hide_online_def op_stores_Call del: op_stores.simps(3))
  have "\<forall>w \<in> set (stores e (PatchBuildlocker_ops cfg)). w = (0xE6D9E4, chars ''%s%s%d.%d.%d'' 9)"
    by (simp add: PatchBuildlocker_ops_def patch_data_offs[OF assms])
  then show ?thesis
    unfolding stores_concat boot_bodies_def using none sea base by (auto simp: patch_body_def split: if_splits)
qed

section \<open>An environment with this table\<close>

lemma distinct_Cons: "distinct (x # xs) \<longleftrightarrow> list_all (\<lambda>y. x \<noteq> y) xs \<and> distinct xs"
  by (auto simp: list_all_iff)

lemma distinct_patch_keys: "distinct (map snd patch_entries)"
  unfolding patch_entries_def patch_data_offsets_def buildlocker_offsets_def var_res_label_offsets_def
    release_fps_offsets_def ddm_label_offsets_def resolution_target_offsets_def dynamic_seasonal_offsets_def
    cheat_code_offsets_def patch_base_offsets_def append.simps list.map snd_conv
  by (simp only: distinct_Cons list.pred_inject distinct.simps(1) list.inject char.inject list.distinct simp_thms)

definition test_env :: patch_env where
  "test_env =
     \<lparr>pe_pages = \<lparr>Pages.m_Ro = 0x8000000, Pages.m_Rw = 0x50000000\<rparr>,
      pe_lookup = (\<lambda>k. case map_of (map (\<lambda>(o', k). (k, o')) patch_entries) k of
                     Some o' \<Rightarrow> Address (0x8000000 + ucast o') | None \<Rightarrow> MissingEntry),
      pe_start = 0x8000000, pe_object = (\<lambda>obj. 0x9000010)\<rparr>"

lemma game_table_test: "game_table test_env"
proof -
  have "map_of (map (\<lambda>(o', k). (k, o')) patch_entries) k = Some o'" if "(o', k) \<in> set patch_entries" for o' k
    using that distinct_patch_keys by (intro map_of_is_SomeI) (auto simp: comp_def case_prod_beta image_iff intro!: bexI[of _ "(o', k)"])
  then show ?thesis by (auto simp: game_table_def test_env_def)
qed

section \<open>Properties\<close>

text \<open>
  C22: The image after start-up is determined.  With the offset table of the supported build
  the patch functions that run before the game loop all complete, every byte one of them
  writes holds the value that write asked for (no patch undoes another), every other byte is
  the one the game shipped, and each changed byte of code has been cleaned from the data
  cache and invalidated in the instruction cache; the one exception is the watermark format
  string, which is data.
\<close>

theorem boot_patches_exact:
  assumes "game_table e"
  shows "\<exists>fs. run_bodies e (boot_bodies dev cfg) s =
      Done \<lparr>ps_mem = (\<lambda>x. case List.find (in_write x) (boot_writes e dev cfg) of
                        Some (a, bs) \<Rightarrow> bs ! unat (x - a) | None \<Rightarrow> ps_mem s x),
            ps_flushes = ps_flushes s @ fs,
            ps_calls = ps_calls s @ concat (map op_calls (concat (boot_bodies dev cfg)))\<rparr>
    \<and> (\<forall>x. (\<exists>w \<in> set (boot_writes e dev cfg). in_write x w \<and> snd w ! unat (x - fst w) \<noteq> ps_mem s x) \<longrightarrow>
         (\<exists>(rw, ro, sz) \<in> set fs. RwFromAddr (pe_pages e) x - rw < sz \<and> RoFromAddr (pe_pages e) x - ro < sz)
         \<or> 0xE6D9E4 \<le> unat x \<and> unat x < 0xE6D9E4 + 21)"
proof -
  note ok = boot_writes_ok[OF assms, of dev cfg]
  have "\<forall>b \<in> set (boot_bodies dev cfg). \<forall>k \<in> set (concat (map op_keys b)). PatchTable e k = Done (patch_off e k)"
    using boot_bodies_resolve[OF assms, of dev cfg] unfolding resolves_def list_all_iff by blast
  moreover have "\<forall>b \<in> set (boot_bodies dev cfg). \<forall>w \<in> set (ops_writes e (patch_off e) b). fits w"
    using ok(2) by (auto simp: boot_writes_def)
  ultimately obtain fs where fs: "run_bodies e (boot_bodies dev cfg) s =
      Done \<lparr>ps_mem = store_writes (boot_writes e dev cfg) (ps_mem s), ps_flushes = ps_flushes s @ fs,
        ps_calls = ps_calls s @ concat (map op_calls (concat (boot_bodies dev cfg)))\<rparr>"
    and c: "\<And>x. store_writes (boot_writes e dev cfg) (ps_mem s) x \<noteq> ps_mem s x \<Longrightarrow>
        covered (pe_pages e) fs x
        \<or> (\<exists>w \<in> set (stores e (concat (boot_bodies dev cfg))). in_write x w)"
    using run_bodies_correct[of "boot_bodies dev cfg" e "patch_off e" s] unfolding boot_writes_def stores_def by blast
  have "covered (pe_pages e) fs x \<or> 0xE6D9E4 \<le> unat x \<and> unat x < 0xE6D9E4 + 21"
    if "w \<in> set (boot_writes e dev cfg)" "in_write x w" "snd w ! unat (x - fst w) \<noteq> ps_mem s x" for x w
  proof -
    have "store_writes (boot_writes e dev cfg) (ps_mem s) x \<noteq> ps_mem s x"
      using store_writes_nth[OF ok(1,2) that(1,2)] that(3) by simp
    from c[OF this] show ?thesis
    proof (elim disjE bexE)
      fix v assume "v \<in> set (stores e (concat (boot_bodies dev cfg)))" "in_write x v"
      then have v: "in_write x (0xE6D9E4, chars ''%s%s%d.%d.%d'' 9)" using boot_stores[OF assms, of dev cfg] by metis
      show ?thesis using in_write_bounds[OF v] by (simp add: fits_def)
    qed simp
  qed
  then have cov: "\<exists>(rw, ro, sz) \<in> set fs. RwFromAddr (pe_pages e) x - rw < sz \<and> RoFromAddr (pe_pages e) x - ro < sz"
    if "w \<in> set (boot_writes e dev cfg)" "in_write x w" "snd w ! unat (x - fst w) \<noteq> ps_mem s x"
      "\<not> (0xE6D9E4 \<le> unat x \<and> unat x < 0xE6D9E4 + 21)" for x w
    using that unfolding covered_def covers_def list_ex_iff by blast
  have m: "store_writes (boot_writes e dev cfg) (ps_mem s) =
      (\<lambda>x. case List.find (in_write x) (boot_writes e dev cfg) of Some (a, bs) \<Rightarrow> bs ! unat (x - a) | None \<Rightarrow> ps_mem s x)"
    by (rule ext, rule store_writes_find[OF ok(1,2)])
  show ?thesis
  proof (intro exI[of _ fs] conjI allI impI)
    show "run_bodies e (boot_bodies dev cfg) s =
      Done \<lparr>ps_mem = (\<lambda>x. case List.find (in_write x) (boot_writes e dev cfg) of
                        Some (a, bs) \<Rightarrow> bs ! unat (x - a) | None \<Rightarrow> ps_mem s x),
            ps_flushes = ps_flushes s @ fs,
            ps_calls = ps_calls s @ concat (map op_calls (concat (boot_bodies dev cfg)))\<rparr>"
      unfolding fs m ..
  qed (use cov in blast)
qed

theorem boot_patches_exact_witness:
  "\<exists>s'. run_bodies test_env (boot_bodies None default_PatchConfig) \<lparr>ps_mem = (\<lambda>x. 0), ps_flushes = [], ps_calls = []\<rparr> = Done s'
     \<and> (\<forall>x. ps_mem s' x = (case List.find (in_write x) (boot_writes test_env None default_PatchConfig) of
                              Some (a, bs) \<Rightarrow> bs ! unat (x - a) | None \<Rightarrow> 0))"
proof -
  let ?s = "\<lparr>ps_mem = (\<lambda>x. 0), ps_flushes = [], ps_calls = []\<rparr>"
  obtain fs where "run_bodies test_env (boot_bodies None default_PatchConfig) ?s =
      Done \<lparr>ps_mem = (\<lambda>x. case List.find (in_write x) (boot_writes test_env None default_PatchConfig) of
                        Some (a, bs) \<Rightarrow> bs ! unat (x - a) | None \<Rightarrow> ps_mem ?s x),
            ps_flushes = ps_flushes ?s @ fs,
            ps_calls = ps_calls ?s @ concat (map op_calls (concat (boot_bodies None default_PatchConfig)))\<rparr>"
    using boot_patches_exact[OF game_table_test, of None default_PatchConfig ?s] by (elim exE conjE)
  then show ?thesis by (intro exI conjI) (assumption, simp split: option.split)
qed

text \<open>
  Patches never collide.  With the offset table of the supported build, the sites of all
  patch functions (the label patches and the armed and disarmed gate included, for any
  settings) are pairwise disjoint byte ranges of the image, and those applied at run time are
  clear of the 20 bytes that a trampoline may take at each hooked address.
\<close>

lemma patch_sites_disjoint:
  assumes "game_table e"
  shows "sorted_wrt apart (sites e (PatchGraphicsPersistentHeapEarly_ops dev)
       @ sites e (fst (PatchDynamicSeasonal_ops cfg \<lparr>gate_applied = False, gate_generation = 0\<rparr>))
       @ sites e (PatchBuildlocker_ops cfg) @ sites e (PatchResolutionTargets_ops dev cfg) @ sites e (PatchBase_ops cfg)
       @ sites e (fst (SetDynamicSeasonalPatchArmed cfg b g))
       @ sites e PatchVarResLabel_ops @ sites e PatchReleaseFPSLabel_ops @ sites e PatchDDMLabels_ops)
    \<and> (\<forall>h \<in> set hook_offsets. \<forall>w \<in> set (boot_writes e dev cfg). apart (unat (fst h), 20) (site_of w))
    \<and> (\<forall>h \<in> set hook_offsets. \<forall>s \<in> set (sites e (fst (SetDynamicSeasonalPatchArmed cfg b g))). apart (unat (fst h), 20) s)"
proof (intro conjI)
  have labels: "sites e PatchVarResLabel_ops @ sites e PatchReleaseFPSLabel_ops @ sites e PatchDDMLabels_ops = label_sites"
    by (simp add: PatchVarResLabel_ops_def PatchReleaseFPSLabel_ops_def PatchDDMLabels_ops_def label_sites_def
        var_res_label_offs[OF assms] release_fps_offs[OF assms] ddm_label_offs[OF assms] patch_data_offs[OF assms] u32_bytes_def)
  have gate0: "sites e (fst (PatchDynamicSeasonal_ops cfg \<lparr>gate_applied = False, gate_generation = 0\<rparr>))
      = (if sea_active (seasons cfg) then seasonal_sites else [])"
    by (simp add: seasonal_ops_sites[OF assms] SetDynamicSeasonalPatchArmed_def Let_def)
  have "subseq (sites e (PatchGraphicsPersistentHeapEarly_ops dev)
       @ sites e (fst (PatchDynamicSeasonal_ops cfg \<lparr>gate_applied = False, gate_generation = 0\<rparr>))
       @ sites e (PatchBuildlocker_ops cfg) @ sites e (PatchResolutionTargets_ops dev cfg) @ sites e (PatchBase_ops cfg)
       @ sites e (fst (SetDynamicSeasonalPatchArmed cfg b g)) @ label_sites) all_sites"
    unfolding all_sites_def append_assoc
    by (intro list_emb_append_mono subseq_eqI[OF heap_ops_sites] subseq_eqI[OF gate0, THEN subseq_guard]
        PatchBuildlocker_ops_sites[OF assms] resolution_ops_sites[OF assms] base_ops_sites[OF assms]
        gate_ops_sites[OF assms] subseq_eqI refl)
  from sorted_wrt_subseq[OF this all_sites_apart]
  show "sorted_wrt apart (sites e (PatchGraphicsPersistentHeapEarly_ops dev)
       @ sites e (fst (PatchDynamicSeasonal_ops cfg \<lparr>gate_applied = False, gate_generation = 0\<rparr>))
       @ sites e (PatchBuildlocker_ops cfg) @ sites e (PatchResolutionTargets_ops dev cfg) @ sites e (PatchBase_ops cfg)
       @ sites e (fst (SetDynamicSeasonalPatchArmed cfg b g))
       @ sites e PatchVarResLabel_ops @ sites e PatchReleaseFPSLabel_ops @ sites e PatchDDMLabels_ops)"
    unfolding labels .
  show "\<forall>h \<in> set hook_offsets. \<forall>w \<in> set (boot_writes e dev cfg). apart (unat (fst h), 20) (site_of w)"
    using hooks_clear boot_writes_ok(3)[OF assms, of dev cfg] by (simp add: list_all_iff)
  show "\<forall>h \<in> set hook_offsets. \<forall>s \<in> set (sites e (fst (SetDynamicSeasonalPatchArmed cfg b g))). apart (unat (fst h), 20) s"
    using hooks_clear set_subseq[OF gate_ops_sites[OF assms, of cfg b g]] by (simp add: list_all_iff)
qed

end
