(* ===== verification/Patch_Runtime.thy ===== *)
theory Patch_Runtime
  imports Patch_Sites Runtime_Apply
begin

text \<open>
  The patched image while the game runs: settings applied through \<open>runtime_apply.cpp\<close> and
  the seasonal gate of \<open>patches.cpp\<close>, which the \<open>GameCommonDataInit\<close> hook of \<open>main.cpp\<close>
  evaluates for every new game.  The patch sites follow the configuration in every reachable state.
\<close>

section \<open>Bytes at a site\<close>

definition bytes_at :: "store \<Rightarrow> u64 \<Rightarrow> u8 list \<Rightarrow> bool" where
  "bytes_at m a bs \<longleftrightarrow> list_all (\<lambda>i. m (a + of_nat i) = bs ! i) [0..<length bs]"

lemma in_write_index:
  assumes "i < length bs" "fits (a, bs)"
  shows "in_write (a + of_nat i) (a, bs)" "unat (a + of_nat i - a) = i"
proof -
  have "i < 2 ^ 64" using assms by (simp add: fits_def)
  then show "unat (a + of_nat i - a) = i" by (simp add: unat_of_nat_u64)
  then show "in_write (a + of_nat i) (a, bs)" using assms(1) by (simp add: in_write_def)
qed

lemma store_writes_bytes:
  assumes "sorted_wrt apart (map site_of ws)" "\<forall>w \<in> set ws. fits w" "(a, bs) \<in> set ws"
  shows "bytes_at (store_writes ws m) a bs"
  unfolding bytes_at_def list_all_iff
proof
  fix i assume "i \<in> set [0..<length bs]"
  then have i: "i < length bs" by simp
  have "fits (a, bs)" using assms by blast
  then show "store_writes ws m (a + of_nat i) = bs ! i"
    using store_writes_nth[OF assms in_write_index(1)[OF i]] in_write_index(2)[OF i] by simp
qed

lemma store_writes_keep:
  assumes "\<forall>w \<in> set ws. apart (unat a, length bs) (site_of w)" "\<forall>w \<in> set ws. fits w" "fits (a, bs)"
    "bytes_at m a bs"
  shows "bytes_at (store_writes ws m) a bs"
  unfolding bytes_at_def list_all_iff
proof
  fix i assume "i \<in> set [0..<length bs]"
  then have i: "i < length bs" by simp
  have "\<not> in_write (a + of_nat i) w" if "w \<in> set ws" for w
    using apart_writes[of "(a, bs)" w] assms(1-3) that in_write_index(1)[OF i assms(3)] by (simp add: site_of_def)
  then show "store_writes ws m (a + of_nat i) = bs ! i"
    using assms(4) i by (simp add: store_writes_other bytes_at_def list_all_iff)
qed

section \<open>The running game\<close>

record running =
  ru_config :: PatchConfig
  ru_image :: patch_state
  ru_gate :: gate

text \<open>An operation of the patch functions that moves the gate.\<close>

definition run_gated :: "patch_env \<Rightarrow> patch_op list \<times> gate \<Rightarrow> patch_state \<times> gate \<Rightarrow> (patch_state \<times> gate) outcome" where
  "run_gated e og s = bind_outcome (run_patch e (fst og) (fst s)) (\<lambda>im. Done (im, snd og))"

text \<open>What an effect of \<open>ApplyPatchConfigRuntime\<close> does to the image; \<open>PatchDynamicEvents\<close> writes no code.\<close>

fun do_effect :: "patch_env \<Rightarrow> PatchConfig \<Rightarrow> effect \<Rightarrow> patch_state \<times> gate \<Rightarrow> (patch_state \<times> gate) outcome" where
  "do_effect e cfg (XVarOnlineServicePTR b) s = run_gated e ([XVarBool_Set ''g_varOnlineServicePTR'' b], snd s) s"
| "do_effect e cfg (XVarExperimentalScheduling b) s =
     run_gated e ([XVarBool_Set ''g_varExperimentalScheduling'' b], snd s) s"
| "do_effect e cfg (PatchInfiniteMp b) s = run_gated e (PatchInfiniteMp_ops b, snd s) s"
| "do_effect e cfg PatchBuildlocker s = run_gated e (PatchBuildlocker_ops cfg, snd s) s"
| "do_effect e cfg PatchDynamicEvents s = Done s"
| "do_effect e cfg PatchDynamicSeasonal s = run_gated e (PatchDynamicSeasonal_ops cfg (snd s)) s"
| "do_effect e cfg UpdateDynamicSeasonalForSpawn s =
     run_gated e (UpdateDynamicSeasonalForSpawn_ops cfg None (snd s)) s"

fun do_effects :: "patch_env \<Rightarrow> PatchConfig \<Rightarrow> effect list \<Rightarrow> patch_state \<times> gate \<Rightarrow> (patch_state \<times> gate) outcome" where
  "do_effects e cfg [] s = Done s"
| "do_effects e cfg (x # xs) s = bind_outcome (do_effect e cfg x s) (do_effects e cfg xs)"

text \<open>
  What happens to the image while the game runs: the player applies a configuration, or a game
  is created with the given creation flags (no flags: null parameters).
\<close>

datatype action = Apply_Config PatchConfig | Game_Init "u32 option"

definition act :: "patch_env \<Rightarrow> action \<Rightarrow> running \<Rightarrow> running outcome" where
  "act e a r =
     (case a of
        Apply_Config config \<Rightarrow>
          (let (cur, result, es) = ApplyPatchConfigRuntime (ru_config r) config
           in bind_outcome (do_effects e cur es (ru_image r, ru_gate r))
                (\<lambda>(im, g). Done \<lparr>ru_config = cur, ru_image = im, ru_gate = g\<rparr>))
      | Game_Init flags \<Rightarrow>
          bind_outcome (run_gated e (UpdateDynamicSeasonalForSpawn_ops (ru_config r) flags (ru_gate r)) (ru_image r, ru_gate r))
            (\<lambda>(im, g). Done (r\<lparr>ru_image := im, ru_gate := g\<rparr>)))"

text \<open>After start-up, which runs the patch functions and leaves the gate closed.\<close>

definition booted :: "patch_env \<Rightarrow> u32 option \<Rightarrow> PatchConfig \<Rightarrow> patch_state \<Rightarrow> running outcome" where
  "booted e dev cfg s =
     bind_outcome (run_bodies e (boot_bodies dev cfg) s)
       (\<lambda>im. Done \<lparr>ru_config = cfg, ru_image = im, ru_gate = \<lparr>gate_applied = False, gate_generation = 0\<rparr>\<rparr>)"

inductive reachable :: "patch_env \<Rightarrow> u32 option \<Rightarrow> patch_state \<Rightarrow> running \<Rightarrow> bool" for e dev s where
  boot: "booted e dev cfg s = Done r \<Longrightarrow> reachable e dev s r"
| step: "reachable e dev s r \<Longrightarrow> act e a r = Done r' \<Longrightarrow> reachable e dev s r'"

section \<open>Running a body\<close>

text \<open>Bodies that may run at any time: their keys resolve and they write at known sites only.\<close>

definition tame :: "patch_env \<Rightarrow> patch_op list \<Rightarrow> bool" where
  "tame e ops \<longleftrightarrow> resolves e ops \<and> list_all fits (ops_writes e (patch_off e) ops)
     \<and> sorted_wrt apart (sites e ops) \<and> set (sites e ops) \<subseteq> set (boot_sites @ gate_sites)"

lemma run_tame:
  assumes "tame e ops"
  shows "\<exists>fs cs. run_patch e ops s = Done \<lparr>ps_mem = store_writes (ops_writes e (patch_off e) ops) (ps_mem s),
    ps_flushes = ps_flushes s @ fs, ps_calls = ps_calls s @ cs\<rparr>"
  using run_patch_correct[of ops e "patch_off e" s] assms
  by (fastforce simp: tame_def resolves_def list_all_iff fits_def)

lemma sites_low: "list_all (\<lambda>s. fst s + snd s < 0x1000000) (boot_sites @ gate_sites)"
  using boot_sites_low by (simp add: gate_sites_def)

lemma tameI:
  assumes "resolves e ops" "subseq (sites e ops) ss" "sorted_wrt apart ss" "set ss \<subseteq> set (boot_sites @ gate_sites)"
  shows "tame e ops"
proof -
  have sub: "set (sites e ops) \<subseteq> set (boot_sites @ gate_sites)"
    using set_subseq[OF assms(2)] assms(4) by blast
  have "fits w" if "w \<in> set (ops_writes e (patch_off e) ops)" for w
  proof -
    have "site_of w \<in> set (boot_sites @ gate_sites)" using sub that by (auto simp: sites_def)
    then have "fst (site_of w) + snd (site_of w) < 0x1000000" using sites_low by (simp only: list_all_iff)
    then show "fits w" by (simp add: site_of_def fits_def)
  qed
  then show ?thesis
    using assms(1) sub sorted_wrt_subseq[OF assms(2,3)] by (simp add: tame_def list_all_iff)
qed

lemma apart_sym: "apart s t \<Longrightarrow> apart t s"
  by (auto simp: apart_def)

lemma sorted_wrt_pair:
  "sorted_wrt apart xs \<Longrightarrow> s \<in> set xs \<Longrightarrow> t \<in> set xs \<Longrightarrow> s \<noteq> t \<Longrightarrow> apart s t"
  by (induction xs) (auto intro: apart_sym)

lemma known_apart: "sorted_wrt apart (boot_sites @ gate_sites)"
proof -
  have "all_sites = (boot_sites @ gate_sites) @ label_sites" by (simp add: all_sites_def boot_sites_def)
  then show ?thesis using all_sites_apart by (metis sorted_wrt_append)
qed

definition mp_site :: site where "mp_site = (0x47AD0C, 4)"
definition gate_site :: site where "gate_site = (0x4CACB8, 4)"

lemma known_sites: "mp_site \<in> set base_sites" "gate_sites = [gate_site]" "mp_site \<noteq> gate_site"
  by (simp_all add: base_sites_def mp_site_def gate_sites_def gate_site_def)

lemma groups_apart:
  "\<forall>s \<in> set seasonal_sites. apart mp_site s \<and> apart gate_site s"
  "\<forall>s \<in> set buildlocker_sites. apart mp_site s \<and> apart gate_site s"
  by (simp_all add: seasonal_sites_def buildlocker_sites_def mp_site_def gate_site_def apart_def)

lemma sub_sorted: "sorted_wrt apart seasonal_sites" "sorted_wrt apart buildlocker_sites"
  using boot_sites_apart unfolding boot_sites_def sorted_wrt_append by blast+

lemma tame_bodies:
  assumes "game_table e"
  shows "tame e [XVarBool_Set v b]" "tame e (PatchInfiniteMp_ops b)" "tame e (PatchBuildlocker_ops cfg)"
    "tame e (fst (SetDynamicSeasonalPatchArmed cfg b g))" "tame e (fst (PatchDynamicSeasonal_ops cfg g))"
    "tame e (fst (UpdateDynamicSeasonalForSpawn_ops cfg fl g))"
proof -
  show "tame e [XVarBool_Set v b]" by (simp add: tame_def sites_def)
  show "tame e (PatchInfiniteMp_ops b)"
    using known_sites(1) by (intro tameI[of e _ "[mp_site]"])
      (simp_all add: ops_resolve[OF assms] infinite_mp_sites[OF assms] mp_site_def boot_sites_def)
  show "tame e (PatchBuildlocker_ops cfg)"
    by (rule tameI[OF ops_resolve(2)[OF assms] PatchBuildlocker_ops_sites[OF assms] sub_sorted(2)])
      (auto simp: boot_sites_def)
  show gate: "tame e (fst (SetDynamicSeasonalPatchArmed cfg b g))" for b
    by (rule tameI[OF ops_resolve(5)[OF assms] gate_ops_sites[OF assms]]) (auto simp: known_sites(2))
  have s: "sites e (fst (PatchDynamicSeasonal_ops cfg g)) =
      (if sea_active (seasons cfg) then seasonal_sites else []) @ sites e (fst (SetDynamicSeasonalPatchArmed cfg False g))"
    by (rule seasonal_ops_sites[OF assms])
  show "tame e (fst (PatchDynamicSeasonal_ops cfg g))"
  proof (rule tameI[OF ops_resolve(4)[OF assms]])
    show "subseq (sites e (fst (PatchDynamicSeasonal_ops cfg g))) (seasonal_sites @ gate_sites)"
      unfolding s by (intro list_emb_append_mono gate_ops_sites[OF assms]) simp
    show "sorted_wrt apart (seasonal_sites @ gate_sites)"
      using sub_sorted(1) groups_apart(1) by (auto simp: sorted_wrt_append known_sites(2) intro: apart_sym)
  qed (auto simp: boot_sites_def)
  show "tame e (fst (UpdateDynamicSeasonalForSpawn_ops cfg fl g))"
    using gate by (simp add: UpdateDynamicSeasonalForSpawn_ops_def Let_def)
qed

section \<open>What each step keeps\<close>

definition within_sites :: "store \<Rightarrow> store \<Rightarrow> bool" where
  "within_sites m0 m \<longleftrightarrow>
     (\<forall>x. m x \<noteq> m0 x \<longrightarrow> (\<exists>t \<in> set (boot_sites @ gate_sites). fst t \<le> unat x \<and> unat x < fst t + snd t))"

lemma within_tame:
  assumes "tame e ops" "within_sites m0 m"
  shows "within_sites m0 (store_writes (ops_writes e (patch_off e) ops) m)"
  unfolding within_sites_def
proof (intro allI impI)
  fix x assume x: "store_writes (ops_writes e (patch_off e) ops) m x \<noteq> m0 x"
  show "\<exists>t \<in> set (boot_sites @ gate_sites). fst t \<le> unat x \<and> unat x < fst t + snd t"
  proof (cases "m x = m0 x")
    case True
    then obtain w where w: "w \<in> set (ops_writes e (patch_off e) ops)" "in_write x w"
      using x store_writes_other by metis
    then have "fits w" "site_of w \<in> set (boot_sites @ gate_sites)"
      using assms(1) by (auto simp: tame_def sites_def list_all_iff)
    then show ?thesis using in_write_bounds[OF w(2)] by (intro bexI[of _ "site_of w"]) (simp_all add: site_of_def)
  qed (use assms(2) in \<open>simp add: within_sites_def\<close>)
qed

lemma keep_tame:
  assumes "tame e ops" "\<forall>s \<in> set (sites e ops). apart (unat a, length bs) s" "fits (a, bs)" "bytes_at m a bs"
  shows "bytes_at (store_writes (ops_writes e (patch_off e) ops) m) a bs"
  using assms by (intro store_writes_keep) (auto simp: tame_def sites_def list_all_iff)

lemma run_gated_tame:
  assumes "tame e (fst og)"
  shows "\<exists>im. run_gated e og s = Done (im, snd og)
     \<and> ps_mem im = store_writes (ops_writes e (patch_off e) (fst og)) (ps_mem (fst s))"
  using run_tame[OF assms, of "fst s"] by (auto simp: run_gated_def)

definition mp_bytes :: "bool \<Rightarrow> u8 list" where
  "mp_bytes b = (if b then u32_bytes Nop else k_infinite_mp_restore_call)"

definition gate_bytes :: "bool \<Rightarrow> u8 list" where
  "gate_bytes b = (if b then u32_bytes Nop else k_dynamic_seasonal_restore_tbz)"

definition image_ok :: "store \<Rightarrow> bool \<Rightarrow> patch_state \<times> gate \<Rightarrow> bool" where
  "image_ok m0 b s \<longleftrightarrow>
     bytes_at (ps_mem (fst s)) 0x47AD0C (mp_bytes b)
   \<and> bytes_at (ps_mem (fst s)) 0x4CACB8 (gate_bytes (gate_applied (snd s)))
   \<and> within_sites m0 (ps_mem (fst s))"

lemma site_bytes [simp]:
  "length (mp_bytes b) = 4" "length (gate_bytes b) = 4" "fits (0x47AD0C, mp_bytes b)" "fits (0x4CACB8, gate_bytes b)"
  by (simp_all add: mp_bytes_def gate_bytes_def k_infinite_mp_restore_call_def k_dynamic_seasonal_restore_tbz_def fits_def)

lemma step_elsewhere:
  assumes "tame e ops" "\<forall>s \<in> set (sites e ops). apart mp_site s \<and> apart gate_site s" "image_ok m0 b s"
  shows "\<exists>im. run_gated e (ops, snd s) s = Done (im, snd s) \<and> image_ok m0 b (im, snd s)"
proof -
  obtain im where im: "run_gated e (ops, snd s) s = Done (im, snd s)"
    "ps_mem im = store_writes (ops_writes e (patch_off e) ops) (ps_mem (fst s))"
    using run_gated_tame[of e "(ops, snd s)" s] assms(1) by auto
  then show ?thesis
    using assms keep_tame[OF assms(1), where a = "0x47AD0C" and bs = "mp_bytes b"]
      keep_tame[OF assms(1), where a = "0x4CACB8" and bs = "gate_bytes (gate_applied (snd s))"]
      within_tame[OF assms(1)]
    by (simp add: image_ok_def mp_site_def gate_site_def)
qed

lemma step_infinite_mp:
  assumes "game_table e" "image_ok m0 b s"
  shows "\<exists>im. run_gated e (PatchInfiniteMp_ops c, snd s) s = Done (im, snd s) \<and> image_ok m0 c (im, snd s)"
proof -
  note t = tame_bodies(2)[OF assms(1), of c]
  obtain im where im: "run_gated e (PatchInfiniteMp_ops c, snd s) s = Done (im, snd s)"
    "ps_mem im = store_writes (ops_writes e (patch_off e) (PatchInfiniteMp_ops c)) (ps_mem (fst s))"
    using run_gated_tame[of e "(PatchInfiniteMp_ops c, snd s)" s] t by auto
  have "(0x47AD0C, mp_bytes c) \<in> set (ops_writes e (patch_off e) (PatchInfiniteMp_ops c))"
    by (simp add: PatchInfiniteMp_ops_def mp_bytes_def patch_base_offs[OF assms(1)])
  then have "bytes_at (ps_mem im) 0x47AD0C (mp_bytes c)"
    unfolding im(2) using t by (intro store_writes_bytes) (auto simp: tame_def sites_def list_all_iff)
  moreover have "bytes_at (ps_mem im) 0x4CACB8 (gate_bytes (gate_applied (snd s)))"
    unfolding im(2) using assms(2)
    by (intro keep_tame[OF t]) (simp_all add: infinite_mp_sites[OF assms(1)] image_ok_def apart_def)
  ultimately show ?thesis
    using im within_tame[OF t] assms(2) by (simp add: image_ok_def)
qed

lemma gate_writes:
  assumes "game_table e" "SetDynamicSeasonalPatchArmed cfg a g = (ops, g')"
  shows "gate_applied g' \<longleftrightarrow> sea_active (seasons cfg) \<and> a"
    "ops_writes e (patch_off e) ops =
      (if gate_applied g = gate_applied g' then [] else [(0x4CACB8, gate_bytes (gate_applied g'))])"
  using assms(2)
  by (auto simp: SetDynamicSeasonalPatchArmed_def Let_def gate_bytes_def dynamic_seasonal_offs[OF assms(1)] split: if_splits)

lemma step_gate_after:
  assumes "game_table e" "tame e ops'" "SetDynamicSeasonalPatchArmed cfg a (snd s) = (ops, g')"
    "ops_writes e (patch_off e) ops' = ws @ ops_writes e (patch_off e) ops"
    "\<forall>w \<in> set ws. apart mp_site (site_of w) \<and> apart gate_site (site_of w)" "image_ok m0 b s"
  shows "\<exists>im. run_gated e (ops', g') s = Done (im, g') \<and> image_ok m0 b (im, g')"
proof -
  obtain im where im: "run_gated e (ops', g') s = Done (im, g')"
    "ps_mem im = store_writes (ops_writes e (patch_off e) ops') (ps_mem (fst s))"
    using run_gated_tame[of e "(ops', g')" s] assms(2) by auto
  note g = gate_writes[OF assms(1,3)]
  have "apart mp_site (site_of (0x4CACB8, gate_bytes c))" for c
    by (simp add: site_of_def mp_site_def apart_def)
  then have "bytes_at (ps_mem im) 0x47AD0C (mp_bytes b)"
    unfolding im(2) using assms(5,6) g(2)
    by (intro keep_tame[OF assms(2)]) (auto simp: sites_def assms(4) image_ok_def mp_site_def)
  moreover have "bytes_at (ps_mem im) 0x4CACB8 (gate_bytes (gate_applied g'))"
  proof (cases "gate_applied (snd s) = gate_applied g'")
    case True
    then show ?thesis
      unfolding im(2) using assms(5,6) g(2)
      by (intro keep_tame[OF assms(2)]) (auto simp: sites_def assms(4) image_ok_def gate_site_def)
  next
    case False
    then have "(0x4CACB8, gate_bytes (gate_applied g')) \<in> set (ops_writes e (patch_off e) ops')"
      using g(2) assms(4) by simp
    then show ?thesis
      unfolding im(2) using assms(2) by (intro store_writes_bytes) (auto simp: tame_def sites_def list_all_iff)
  qed
  ultimately show ?thesis using im within_tame[OF assms(2)] assms(6) by (simp add: image_ok_def)
qed

lemma step_gate:
  assumes "game_table e" "image_ok m0 b s"
  shows "\<exists>im g'. run_gated e (SetDynamicSeasonalPatchArmed cfg a (snd s)) s = Done (im, g')
     \<and> image_ok m0 b (im, g') \<and> (gate_applied g' \<longleftrightarrow> sea_active (seasons cfg) \<and> a)"
proof -
  obtain ops g' where g: "SetDynamicSeasonalPatchArmed cfg a (snd s) = (ops, g')" by force
  have "tame e ops" using tame_bodies(4)[OF assms(1), of cfg a "snd s"] g by simp
  then obtain im where "run_gated e (ops, g') s = Done (im, g')" "image_ok m0 b (im, g')"
    using step_gate_after[OF assms(1) _ g, of ops "[]"] assms(2) by auto
  then show ?thesis using gate_writes(1)[OF assms(1) g] g by auto
qed

lemma step_seasonal:
  assumes "game_table e" "image_ok m0 b s"
  shows "\<exists>im g'. run_gated e (PatchDynamicSeasonal_ops cfg (snd s)) s = Done (im, g')
     \<and> image_ok m0 b (im, g') \<and> \<not> gate_applied g'"
proof -
  obtain ops g' where g: "SetDynamicSeasonalPatchArmed cfg False (snd s) = (ops, g')" by force
  obtain ops' where p: "PatchDynamicSeasonal_ops cfg (snd s) = (ops', g')"
    using g by (cases "sea_active (seasons cfg)") (auto simp: PatchDynamicSeasonal_ops_def)
  have t: "tame e ops'" using tame_bodies(5)[OF assms(1), of cfg "snd s"] p by simp
  have "\<exists>ws. ops_writes e (patch_off e) ops' = ws @ ops_writes e (patch_off e) ops
      \<and> (\<forall>w \<in> set ws. apart mp_site (site_of w) \<and> apart gate_site (site_of w))"
  proof (cases "sea_active (seasons cfg)")
    case True
    then show ?thesis
      using g p by (auto simp: PatchDynamicSeasonal_ops_def ops_writes_def dynamic_seasonal_offs[OF assms(1)]
          site_of_def mp_site_def gate_site_def apart_def)
  next
    case False
    then show ?thesis using g p by (auto simp: PatchDynamicSeasonal_ops_def)
  qed
  then obtain ws where "ops_writes e (patch_off e) ops' = ws @ ops_writes e (patch_off e) ops"
      "\<forall>w \<in> set ws. apart mp_site (site_of w) \<and> apart gate_site (site_of w)" by blast
  then obtain im where "run_gated e (ops', g') s = Done (im, g')" "image_ok m0 b (im, g')"
    using step_gate_after[OF assms(1) t g] assms(2) by blast
  then show ?thesis using gate_writes(1)[OF assms(1) g] p by auto
qed

section \<open>Applying a configuration\<close>

definition planned_effects :: "PatchConfig \<Rightarrow> PatchConfig \<Rightarrow> effect list" where
  "planned_effects prev cur =
     [XVarOnlineServicePTR (spoof_ptr (seasons cur)), XVarExperimentalScheduling (exp_scheduler (resolution_hack cur))]
     @ (if infinite_mp_effective prev \<noteq> infinite_mp_effective cur then [PatchInfiniteMp (infinite_mp_effective cur)] else [])
     @ (if buildlocker_on cur \<and> \<not> buildlocker_on prev then [PatchBuildlocker] else [])
     @ (if ev_active (events cur) then [PatchDynamicEvents] else [])
     @ (if sea_active (seasons cur) then [PatchDynamicSeasonal]
        else if sea_active (seasons prev) then [UpdateDynamicSeasonalForSpawn] else [])"

lemma apply_effects:
  "snd (apply_infinite_mp prev cur s) = snd s @
     (if infinite_mp_effective prev \<noteq> infinite_mp_effective cur then [PatchInfiniteMp (infinite_mp_effective cur)] else [])"
  "snd (apply_buildlocker prev cur s) = snd s @ (if buildlocker_on cur \<and> \<not> buildlocker_on prev then [PatchBuildlocker] else [])"
  "snd (apply_dynamic prev cur s) = snd s @ (if ev_active (events cur) then [PatchDynamicEvents] else [])
     @ (if sea_active (seasons cur) then [PatchDynamicSeasonal]
        else if sea_active (seasons prev) then [UpdateDynamicSeasonalForSpawn] else [])"
  by (simp_all add: apply_infinite_mp_def apply_buildlocker_def apply_dynamic_def Let_def split: prod.split)

lemma ApplyPatchConfigRuntime_parts:
  assumes "ApplyPatchConfigRuntime prev config = (cur, r, es)"
  shows "cur = config\<lparr>initialized := True, defaults_only := False\<rparr>" "es = planned_effects prev cur"
proof -
  show c: "cur = config\<lparr>initialized := True, defaults_only := False\<rparr>"
    using assms by (simp add: ApplyPatchConfigRuntime_def Let_def case_prod_beta)
  have "es = snd (apply_dynamic prev cur (apply_buildlocker prev cur (apply_infinite_mp prev cur
      (new_result, [XVarOnlineServicePTR (spoof_ptr (seasons cur)), XVarExperimentalScheduling (exp_scheduler (resolution_hack cur))]))))"
    using assms unfolding c by (simp add: ApplyPatchConfigRuntime_def Let_def case_prod_beta)
  then show "es = planned_effects prev cur"
    by (simp only: apply_effects snd_conv append_assoc planned_effects_def)
qed

lemma bind_outcome_assoc: "bind_outcome (bind_outcome x f) g = bind_outcome x (\<lambda>y. bind_outcome (f y) g)"
  by (cases x) simp_all

lemma do_effects_append:
  "do_effects e cfg (xs @ ys) s = bind_outcome (do_effects e cfg xs s) (do_effects e cfg ys)"
proof (induction xs arbitrary: s)
  case (Cons x xs)
  have "do_effects e cfg (xs @ ys) = (\<lambda>s. bind_outcome (do_effects e cfg xs s) (do_effects e cfg ys))"
    by (rule ext) (rule Cons.IH)
  then show ?case by (simp add: bind_outcome_assoc)
qed simp

definition closed_unless :: "PatchConfig \<Rightarrow> gate \<Rightarrow> bool" where
  "closed_unless cfg g \<longleftrightarrow> (gate_applied g \<longrightarrow> sea_active (seasons cfg))"

lemma effects_ok:
  assumes t: "game_table e" and i: "image_ok m0 (infinite_mp_effective prev) s" and c: "closed_unless prev (snd s)"
  shows "\<exists>s'. do_effects e cur (planned_effects prev cur) s = Done s'
     \<and> image_ok m0 (infinite_mp_effective cur) s' \<and> closed_unless cur (snd s')"
proof -
  have xv: "\<exists>im. run_gated e ([XVarBool_Set v b], snd s) s = Done (im, snd s) \<and> image_ok m0 c (im, snd s)"
    if "image_ok m0 c s" for v b c s
    by (rule step_elsewhere[OF tame_bodies(1)[OF t] _ that]) (simp add: sites_def)
  obtain s1 where s1: "do_effects e cur [XVarOnlineServicePTR (spoof_ptr (seasons cur)),
        XVarExperimentalScheduling (exp_scheduler (resolution_hack cur))] s = Done s1"
      "image_ok m0 (infinite_mp_effective prev) s1" "snd s1 = snd s"
  proof -
    obtain im where im: "do_effect e cur (XVarOnlineServicePTR (spoof_ptr (seasons cur))) s = Done (im, snd s)"
      "image_ok m0 (infinite_mp_effective prev) (im, snd s)" using xv[OF i] by fastforce
    obtain im' where "do_effect e cur (XVarExperimentalScheduling (exp_scheduler (resolution_hack cur))) (im, snd s) = Done (im', snd s)"
      "image_ok m0 (infinite_mp_effective prev) (im', snd s)" using xv[OF im(2)] by fastforce
    with im that[of "(im', snd s)"] show ?thesis by (simp del: do_effect.simps)
  qed
  obtain s2 where s2: "do_effects e cur (if infinite_mp_effective prev \<noteq> infinite_mp_effective cur
        then [PatchInfiniteMp (infinite_mp_effective cur)] else []) s1 = Done s2"
      "image_ok m0 (infinite_mp_effective cur) s2" "snd s2 = snd s"
  proof (cases "infinite_mp_effective prev = infinite_mp_effective cur")
    case False
    obtain im where "do_effect e cur (PatchInfiniteMp (infinite_mp_effective cur)) s1 = Done (im, snd s1)"
      "image_ok m0 (infinite_mp_effective cur) (im, snd s1)"
      using step_infinite_mp[OF t s1(2), of "infinite_mp_effective cur"] by auto
    with False s1(3) that[of "(im, snd s1)"] show ?thesis by (simp del: do_effect.simps)
  qed (use s1 that[of s1] in simp)
  have elsewhere: "\<forall>x \<in> set (sites e (PatchBuildlocker_ops cur)). apart mp_site x \<and> apart gate_site x"
    using groups_apart(2) set_subseq[OF PatchBuildlocker_ops_sites[OF t]] by blast
  obtain s3 where s3: "do_effects e cur (if buildlocker_on cur \<and> \<not> buildlocker_on prev then [PatchBuildlocker] else []) s2 = Done s3"
      "image_ok m0 (infinite_mp_effective cur) s3" "snd s3 = snd s"
  proof (cases "buildlocker_on cur \<and> \<not> buildlocker_on prev")
    case True
    obtain im where "do_effect e cur PatchBuildlocker s2 = Done (im, snd s2)"
      "image_ok m0 (infinite_mp_effective cur) (im, snd s2)"
      using step_elsewhere[OF tame_bodies(3)[OF t] elsewhere s2(2)] by auto
    with True s2(3) that[of "(im, snd s2)"] show ?thesis by (simp del: do_effect.simps)
  qed (use s2(2,3) that[of s2] in auto)
  have s4: "do_effects e cur (if ev_active (events cur) then [PatchDynamicEvents] else []) s3 = Done s3" by simp
  obtain s5 where s5: "do_effects e cur (if sea_active (seasons cur) then [PatchDynamicSeasonal]
        else if sea_active (seasons prev) then [UpdateDynamicSeasonalForSpawn] else []) s3 = Done s5"
      "image_ok m0 (infinite_mp_effective cur) s5" "closed_unless cur (snd s5)"
  proof (cases "sea_active (seasons cur)")
    case True
    then show ?thesis using step_seasonal[OF t s3(2), of cur] that by (fastforce simp: closed_unless_def)
  next
    case inactive: False
    show ?thesis
    proof (cases "sea_active (seasons prev)")
      case True
      then show ?thesis
        using step_gate[OF t s3(2), of cur False] inactive that
        by (fastforce simp: closed_unless_def UpdateDynamicSeasonalForSpawn_ops_def)
    qed (use inactive that s3 c in \<open>simp add: closed_unless_def\<close>)
  qed
  show ?thesis
    unfolding planned_effects_def do_effects_append using s1(1) s2(1) s3(1) s4 s5 by simp
qed

definition game_inv :: "store \<Rightarrow> running \<Rightarrow> bool" where
  "game_inv m0 r \<longleftrightarrow>
     image_ok m0 (infinite_mp_effective (ru_config r)) (ru_image r, ru_gate r) \<and> closed_unless (ru_config r) (ru_gate r)"

text \<open>Every action succeeds and keeps the invariant; a new game sets the gate from its flags.\<close>

lemma act_ok:
  assumes t: "game_table e" and i: "game_inv m0 r"
  shows "\<exists>r'. act e a r = Done r' \<and> game_inv m0 r'
     \<and> (case a of Apply_Config config \<Rightarrow> True
        | Game_Init flags \<Rightarrow> ru_config r' = ru_config r \<and>
            (gate_applied (ru_gate r') \<longleftrightarrow> sea_active (seasons (ru_config r)) \<and> (\<exists>f. flags = Some f \<and> bit f 18)))"
proof (cases a)
  case (Apply_Config config)
  obtain cur res es where ap: "ApplyPatchConfigRuntime (ru_config r) config = (cur, res, es)" by (cases "ApplyPatchConfigRuntime (ru_config r) config")
  then have "es = planned_effects (ru_config r) cur" using ApplyPatchConfigRuntime_parts by blast
  then obtain s' where "do_effects e cur es (ru_image r, ru_gate r) = Done s'"
      "image_ok m0 (infinite_mp_effective cur) s'" "closed_unless cur (snd s')"
    using effects_ok[OF t, of m0 "ru_config r" "(ru_image r, ru_gate r)" cur] i by (auto simp: game_inv_def)
  then show ?thesis using Apply_Config ap by (cases s') (auto simp: act_def game_inv_def)
next
  case (Game_Init flags)
  let ?cfg = "ru_config r"
  have bit18: "f AND 262144 = 0 \<longleftrightarrow> \<not> bit f 18" for f :: u32
    using bit_iff_and_push_bit_not_eq_0[of f 18] by simp
  define a where "a = (\<exists>f. flags = Some f \<and> bit f 18)"
  have u: "UpdateDynamicSeasonalForSpawn_ops ?cfg flags (ru_gate r) = SetDynamicSeasonalPatchArmed ?cfg a (ru_gate r)"
    by (auto simp: UpdateDynamicSeasonalForSpawn_ops_def SetDynamicSeasonalPatchArmed_def Let_def a_def bit18 split: option.splits)
  have "image_ok m0 (infinite_mp_effective ?cfg) (ru_image r, ru_gate r)" using i by (simp add: game_inv_def)
  from step_gate[OF t this, of ?cfg a] obtain im g' where
    "run_gated e (UpdateDynamicSeasonalForSpawn_ops ?cfg flags (ru_gate r)) (ru_image r, ru_gate r) = Done (im, g')"
    "image_ok m0 (infinite_mp_effective ?cfg) (im, g')" "gate_applied g' \<longleftrightarrow> sea_active (seasons ?cfg) \<and> a"
    unfolding u by auto
  then show ?thesis using Game_Init by (auto simp: act_def game_inv_def closed_unless_def a_def)
qed

lemma boot_ok:
  assumes t: "game_table e" and tbz: "bytes_at (ps_mem s) 0x4CACB8 k_dynamic_seasonal_restore_tbz"
  shows "\<exists>r. booted e dev cfg s = Done r \<and> game_inv (ps_mem s) r \<and> ru_config r = cfg"
proof -
  note ok = boot_writes_ok[OF t, of dev cfg]
  obtain im where im: "run_bodies e (boot_bodies dev cfg) s = Done im" "ps_mem im = store_writes (boot_writes e dev cfg) (ps_mem s)"
    using run_bodies_correct[of "boot_bodies dev cfg" e "patch_off e" s] boot_bodies_resolve[OF t, of dev cfg] ok(2)
    by (auto simp: resolves_def list_all_iff boot_writes_def)
  have base: "PatchBase_ops cfg \<in> set (boot_bodies dev cfg)"
    by (simp add: boot_bodies_def patch_plan_def patch_body_def)
  have "Call (PatchInfiniteMp_ops (infinite_mp_effective cfg)) \<in> set (PatchBase_ops cfg)"
    by (simp add: PatchBase_ops_def infinite_mp_effective_def)
  moreover have "(0x47AD0C, mp_bytes b) \<in> set (op_writes e (patch_off e) (Call (PatchInfiniteMp_ops b)))" for b
    by (simp add: PatchInfiniteMp_ops_def mp_bytes_def patch_base_offs[OF t])
  ultimately have "(0x47AD0C, mp_bytes (infinite_mp_effective cfg)) \<in> set (ops_writes e (patch_off e) (PatchBase_ops cfg))"
    unfolding ops_writes_def set_concat set_map by blast
  then have "(0x47AD0C, mp_bytes (infinite_mp_effective cfg)) \<in> set (boot_writes e dev cfg)"
    using base by (auto simp: boot_writes_def)
  then have mp: "bytes_at (ps_mem im) 0x47AD0C (mp_bytes (infinite_mp_effective cfg))"
    unfolding im(2) using ok by (intro store_writes_bytes)
  have far: "\<forall>x \<in> set boot_sites. apart gate_site x"
    using known_apart unfolding sorted_wrt_append known_sites(2) by (simp add: apart_sym)
  have "bytes_at (ps_mem im) 0x4CACB8 (gate_bytes False)"
    unfolding im(2)
  proof (rule store_writes_keep)
    show "\<forall>w \<in> set (boot_writes e dev cfg). apart (unat (0x4CACB8 :: u64), length (gate_bytes False)) (site_of w)"
      using ok(3) far by (simp add: gate_site_def)
    show "bytes_at (ps_mem s) 0x4CACB8 (gate_bytes False)" using tbz by (simp add: gate_bytes_def)
  qed (use ok(2) in simp_all)
  moreover have "within_sites (ps_mem s) (ps_mem im)"
    unfolding within_sites_def
  proof (intro allI impI)
    fix x assume "ps_mem im x \<noteq> ps_mem s x"
    then obtain w where w: "w \<in> set (boot_writes e dev cfg)" "in_write x w"
      using store_writes_other unfolding im(2) by metis
    then show "\<exists>t \<in> set (boot_sites @ gate_sites). fst t \<le> unat x \<and> unat x < fst t + snd t"
      using in_write_bounds[OF w(2)] ok(2,3) by (intro bexI[of _ "site_of w"]) (auto simp: site_of_def)
  qed
  ultimately show ?thesis using im(1) mp by (simp add: booted_def game_inv_def image_ok_def closed_unless_def)
qed

lemma reachable_inv:
  assumes "reachable e dev s r" "game_table e" "bytes_at (ps_mem s) 0x4CACB8 k_dynamic_seasonal_restore_tbz"
  shows "game_inv (ps_mem s) r"
  using assms
proof (induction rule: reachable.induct)
  case (boot cfg r)
  then show ?case using boot_ok[OF boot(2,3), of dev cfg] by auto
next
  case (step r a r')
  then show ?case using act_ok[OF step(4), of "ps_mem s" r a] by auto
qed

lemma load_bytes_at:
  assumes "bytes_at m a (u32_bytes w)"
  shows "load_u32 m a = w"
proof -
  have n: "[0..<4] = [0, 1, 2, 3 :: nat]" by (simp add: upt_rec)
  have "m a = ucast w" "m (a + 1) = ucast (drop_bit 8 w)" "m (a + 2) = ucast (drop_bit 16 w)" "m (a + 3) = ucast (drop_bit 24 w)"
    using assms by (simp_all add: bytes_at_def u32_bytes_def n)
  then show ?thesis
    using load_u32_stored[of m a w] by (simp add: load_u32_def u32_bytes_def)
qed

lemma site_words:
  "mp_bytes b = u32_bytes (if b then Nop else 0x97FFFF41)"
  "gate_bytes b = u32_bytes (if b then Nop else 0x369000A8)"
  by (simp_all add: mp_bytes_def gate_bytes_def k_infinite_mp_restore_call_def k_dynamic_seasonal_restore_tbz_def u32_bytes_def)

section \<open>Properties\<close>


text \<open>An image that holds the checked instruction; a seasonal game is created after start-up.\<close>

definition test_image :: patch_state where
  "test_image = \<lparr>ps_mem = store_bytes (\<lambda>x. 0) 0x4CACB8 k_dynamic_seasonal_restore_tbz, ps_flushes = [], ps_calls = []\<rparr>"


end
