(* ===== verification/Patch_Effects.thy ===== *)
theory Patch_Effects
  imports Patch_Runtime
begin

text \<open>
  What the patched instructions are: the words of the documented cheat codes, and the display
  modes that the patched constants of \<open>GFXNX64NVN::Init\<close> load.
\<close>

section \<open>Cheat codes\<close>

text \<open>
  The comments of \<open>PortCheatCodes\<close> give each port as the cheat code it replaces,
  \<open>04000000 OOOOOOOO WWWWWWWW\<close>: store word \<open>W\<close> at offset \<open>O\<close> of the main module.
\<close>

definition documented_codes :: "cheats_config \<Rightarrow> (u64 \<times> u32) list" where
  "documented_codes c =
     (if drop_anything c then [(0x00504C78, 0x12800000)] else [])
     @ (if instant_portal c then [(0x009E3250, 0x52800018)] else [])
     @ (if no_cooldowns c
        then [(0x007396D0, 0x1E2703E0), (0x007F8960, 0x2A0003E0), (0x009BC53C, 0x1E2703E8), (0x009BC828, 0x1E2703E8)]
        else [])
     @ (if instant_craft_actions c
        then [(0x0020636C, 0xD503201F), (0x0040F9B0, 0x11001508), (0x001DCFA4, 0x11000508),
              (0x00236D20, 0x52800008), (0x00236D24, 0x52800009), (0x00236D28, 0x5280000A), (0x00236D30, 0x52800008)]
        else [])
     @ (if cube_no_consume c then [(0x008874D0, 0xD65F03C0)] else [])
     @ (if gem_upgrade_always c then [(0x006A255C, 0x1E2E1008)] else [])
     @ (if gem_upgrade_speed c then [(0x00349B98, 0x1E2E1002)] else [])
     @ (if gem_upgrade_lvl150 c
        then [(0x00C72F7C, 0x2A0003F6), (0x00C72F80, 0x528012C0), (0x00C72F84, 0x4B160017), (0x00C72F88, 0xD65F03C0),
              (0x007DF958, 0x94124D89)]
        else [])
     @ (if equip_multi_legendary c then [(0x004FB9E4, 0x14000017)] else [])
     @ (if auto_pickup c then [(0x004F98DC, 0xD503201F)] else [])"

text \<open>Ports without a documented code: allocation errors, orbs, legendaries, gem slots.\<close>

definition undocumented_sites :: "u64 list" where
  "undocumented_sites =
     [0xA2AD04, 0xA37C70, 0x844BE4, 0x88F82C, 0x88F834, 0x88F83C, 0x88F9C4, 0x88F9E0, 0x4F9F1C, 0x4F9F24]"

lemma cheat_words:
  "Movn (regW 0) 0 ShiftValue_0 = 0x12800000"
  "Movz (regW 24) 0 ShiftValue_0 = 0x52800018"
  "Nop = 0xD503201F"
  "AddImmediate (regW 8) (regW 8) 5 = 0x11001508"
  "AddImmediate (regW 8) (regW 8) 1 = 0x11000508"
  "Movz (regW 8) 0 ShiftValue_0 = 0x52800008"
  "Movz (regW 9) 0 ShiftValue_0 = 0x52800009"
  "Movz (regW 10) 0 ShiftValue_0 = 0x5280000A"
  "Ret regLR = 0xD65F03C0"
  "Movz (regW 0) 0x96 ShiftValue_0 = 0x528012C0"
  "Branch 0x5C = 0x14000017"
  by code_simp+

lemma dword_words:
  "[0xE0, 0x03, 0x27, 0x1E] = u32_bytes 0x1E2703E0" "[0xE0, 0x03, 0x00, 0x2A] = u32_bytes 0x2A0003E0"
  "[0xE8, 0x03, 0x27, 0x1E] = u32_bytes 0x1E2703E8" "[0x08, 0x10, 0x2E, 0x1E] = u32_bytes 0x1E2E1008"
  "[0x02, 0x10, 0x2E, 0x1E] = u32_bytes 0x1E2E1002" "[0xF6, 0x03, 0x00, 0x2A] = u32_bytes 0x2A0003F6"
  "[0x17, 0x00, 0x16, 0x4B] = u32_bytes 0x4B160017" "[0x89, 0x4D, 0x12, 0x94] = u32_bytes 0x94124D89"
  by (simp_all add: u32_bytes_def)

text \<open>Guarded groups: what is left of each when the undocumented sites are dropped.\<close>

definition documented_part :: "patch_env \<Rightarrow> patch_op list \<Rightarrow> (u64 \<times> u8 list) list" where
  "documented_part e ops = filter (\<lambda>w. fst w \<notin> set undocumented_sites) (ops_writes e (patch_off e) ops)"

lemma documented_part_simps:
  "documented_part e (xs @ ys) = documented_part e xs @ documented_part e ys"
  "documented_part e (guarded b xs) = (if b then documented_part e xs else [])"
  by (simp_all add: documented_part_def guarded_def)

definition code_words :: "(u64 \<times> u32) list \<Rightarrow> (u64 \<times> u8 list) list" where
  "code_words = map (\<lambda>(a, w). (a, u32_bytes w))"

lemma code_words_simps:
  "code_words (xs @ ys) = code_words xs @ code_words ys" "code_words (if b then xs else []) = (if b then code_words xs else [])"
  "code_words [] = []" "code_words ((a, w) # xs) = (a, u32_bytes w) # code_words xs"
  by (simp_all add: code_words_def)

lemma merge_if: "(if b then xs else []) @ (if b then ys else []) @ zs = (if b then xs @ ys else []) @ zs"
  by simp

section \<open>Display modes\<close>

text \<open>A 64-bit wide move changes one register.\<close>

definition exec_move :: "u32 \<Rightarrow> (regnum \<Rightarrow> u64) \<Rightarrow> regnum \<Rightarrow> u64" where
  "exec_move w regs =
     (case a64_decode w of
        Some (MoveWide True opc hw imm rd) \<Rightarrow>
          (if opc = 2 then regs(rd := movz_result hw imm)
           else if opc = 3 then regs(rd := movk_result (regs rd) hw imm) else regs)
      | _ \<Rightarrow> regs)"

text \<open>A display mode as \<open>GFXNX64NVN::Init\<close> keeps it: the height above the width.\<close>

definition mode_pair :: "u32 \<Rightarrow> u32 \<Rightarrow> u64" where
  "mode_pair w h = push_bit 32 (ucast h) OR ucast w"

definition fallback_mode :: "ResolutionHackConfig \<Rightarrow> u32 \<times> u32" where
  "fallback_mode r =
     (let h = OutputHandheldHeightPx r in if h \<noteq> 0 then (WidthForHeight h, h) else (1280, 720))"

lemma narrow_u16: "unat v < 65536 \<Longrightarrow> ucast (ucast v :: u16) = (ucast v :: u64)" for v :: u32
proof -
  assume "unat v < 65536"
  then have "unat v = unat (ucast v :: u16)" by (simp add: unsigned_ucast_eq take_bit_nat_eq_self)
  then have "(of_nat (unat v) :: u64) = of_nat (unat (ucast v :: u16))" by simp
  then show ?thesis by simp
qed

lemma moves_load:
  fixes regs :: "regnum \<Rightarrow> u64"
  assumes "unat w < 65536" "unat h < 65536" "unat fw < 65536" "unat fh < 65536"
  shows "(fold exec_move [Movz (regX 8) (ucast w) ShiftValue_0, Movz (regX 9) (ucast fw) ShiftValue_0,
      Movk (regX 8) (ucast h) ShiftValue_32, Movk (regX 9) (ucast fh) ShiftValue_32] regs) 8 = mode_pair w h"
    "(fold exec_move [Movz (regX 8) (ucast w) ShiftValue_0, Movz (regX 9) (ucast fw) ShiftValue_0,
      Movk (regX 8) (ucast h) ShiftValue_32, Movk (regX 9) (ucast fh) ShiftValue_32] regs) 9 = mode_pair fw fh"
  using assms movz_movk_32 narrow_u16
  by (simp_all add: exec_move_def decode_Movz decode_Movk Is64_def mk_Register_def rnum_def mode_pair_def)

lemma resolution_bounds:
  assumes "output_handheld_scale (resolution_hack cfg) \<noteq> NaN" and r_def: "r = resolution_for_patch dev cfg"
  shows "unat (OutputHeightPx r) \<le> unat (MaxResolutionHackOutputTarget dev)" "unat (OutputHeightPx r) \<le> 2160"
    "unat (OutputWidthPx r) \<le> 3840" "unat (fst (fallback_mode r)) \<le> 3840" "unat (snd (fallback_mode r)) \<le> 2160"
proof -
  have t: "target_resolution r \<le> MaxResolutionHackOutputTarget dev"
    by (simp add: r_def resolution_for_patch_def Let_def SetTargetRes_def linorder_not_less)
  then have tn: "unat (target_resolution r) \<le> unat (MaxResolutionHackOutputTarget dev)" by (simp add: word_le_nat_alt)
  moreover have m: "unat (MaxResolutionHackOutputTarget dev) \<le> 2160" using max_target_cases[of dev] by auto
  moreover have h: "unat (OutputHeightPx r) = 2 * (unat (target_resolution r) div 2)"
    by (simp add: OutputHeightPx_def unat_AlignEven)
  ultimately show "unat (OutputHeightPx r) \<le> unat (MaxResolutionHackOutputTarget dev)" and h2: "unat (OutputHeightPx r) \<le> 2160"
    by linarith+
  then show "unat (OutputWidthPx r) \<le> 3840"
    using WidthForHeight_exact[of "OutputHeightPx r"] by (simp add: OutputWidthPx_def unat_AlignEven)
  have "output_handheld_scale r \<noteq> NaN"
    using assms(1) by (simp add: r_def resolution_for_patch_def Let_def SetTargetRes_def)
  then have hh: "unat (OutputHandheldHeightPx r) \<le> 2160"
    using handheld_height[of r] tn m h2 by linarith
  then show "unat (snd (fallback_mode r)) \<le> 2160" by (simp add: fallback_mode_def Let_def)
  show "unat (fst (fallback_mode r)) \<le> 3840"
    using hh WidthForHeight_exact[of "OutputHandheldHeightPx r"]
      div_le_mono[of "16 * unat (OutputHandheldHeightPx r)" "16 * 2160" 9] by (simp add: fallback_mode_def Let_def)
qed

lemma resolution_tame:
  assumes "game_table e"
  shows "tame e (PatchResolutionTargets_ops dev cfg)"
proof (rule tameI[OF ops_resolve(3)[OF assms] resolution_ops_sites[OF assms]])
  show "sorted_wrt apart resolution_sites"
    using boot_sites_apart unfolding boot_sites_def sorted_wrt_append by blast
qed (auto simp: boot_sites_def)

lemma word_written:
  assumes "tame e ops" "(a, u32_bytes w) \<in> set (ops_writes e (patch_off e) ops)"
  shows "load_u32 (store_writes (ops_writes e (patch_off e) ops) m) a = w"
  using assms by (intro load_bytes_at store_writes_bytes) (auto simp: tame_def sites_def list_all_iff)

section \<open>Properties\<close>





end
