(* ===== verification/Stack_Trace.thy ===== *)
theory Stack_Trace
  imports Mem_Layout
begin

text \<open>
  Walking the frame records of a stack (\<open>source/lib/util/stack_trace.hpp\<close>) and the traces
  printed from it (\<open>DumpStackTrace\<close> in \<open>source/program/d3/util.cpp\<close>).  Memory is read in
  64-bit words.  The checks that a derived iterator adds are arguments.
\<close>

section \<open>The iterator\<close>

type_synonym word_mem = "u64 \<Rightarrow> u64"

record AbstractIterator =
  m_Fp :: u64
  m_Lr :: u64
  m_PrevFp :: u64
  m_Stack :: Range

definition mk_AbstractIterator :: "u64 \<Rightarrow> u64 \<Rightarrow> Range \<Rightarrow> AbstractIterator" where
  "mk_AbstractIterator fp lr stack = \<lparr>m_Fp = fp, m_Lr = lr, m_PrevFp = 0, m_Stack = stack\<rparr>"

text \<open>\<open>struct Frame\<close>: the saved frame pointer, then the return address.\<close>

definition frame_Fp :: "word_mem \<Rightarrow> u64 \<Rightarrow> u64" where "frame_Fp mem a = mem a"
definition frame_Lr :: "word_mem \<Rightarrow> u64 \<Rightarrow> u64" where "frame_Lr mem a = mem (a + 8)"

definition IsValidLrImpl :: "(u64 \<Rightarrow> bool) \<Rightarrow> u64 \<Rightarrow> bool" where
  "IsValidLrImpl IsValidLr lr =
     (if lr = 0 then False
      else if lr mod 4 \<noteq> 0 then False
      else IsValidLr lr)"

definition GetStackPointer :: "AbstractIterator \<Rightarrow> u64" where
  "GetStackPointer it = (if m_Fp it = 0 then GetEnd (m_Stack it) - 8 else m_Fp it - 8)"

definition GetReturnAddress :: "AbstractIterator \<Rightarrow> u64" where
  "GetReturnAddress it = m_Lr it"

definition IsValid :: "AbstractIterator \<Rightarrow> bool" where
  "IsValid it =
     (if m_Fp it = 0 then False
      else if m_Fp it mod 8 \<noteq> 0 then False
      else if \<not> InRange (m_Stack it) (m_Fp it) then False
      else if m_Fp it \<le> m_PrevFp it then False
      else True)"

definition Step ::
  "(u64 \<Rightarrow> bool) \<Rightarrow> (u64 \<Rightarrow> bool) \<Rightarrow> word_mem \<Rightarrow> AbstractIterator \<Rightarrow> AbstractIterator \<times> bool" where
  "Step IsValidLr IsValidPointer mem it =
     (if \<not> IsValid it then (it, False)
      else
        let frame = m_Fp it in
        if \<not> IsValidPointer frame then (it, False)
        else
          let it = it\<lparr>m_PrevFp := m_Fp it, m_Lr := frame_Lr mem frame, m_Fp := frame_Fp mem frame\<rparr> in
          if \<not> IsValidLrImpl IsValidLr (m_Lr it) then (it\<lparr>m_Lr := 0\<rparr>, False)
          else (it, True))"

fun StepN ::
  "(u64 \<Rightarrow> bool) \<Rightarrow> (u64 \<Rightarrow> bool) \<Rightarrow> word_mem \<Rightarrow> nat \<Rightarrow> AbstractIterator \<Rightarrow> AbstractIterator \<times> bool" where
  "StepN vlr vptr mem 0 it = (it, True)"
| "StepN vlr vptr mem (Suc depth) it =
     (case Step vlr vptr mem it of
        (it', ok) \<Rightarrow> if \<not> ok then (it', False) else StepN vlr vptr mem depth it')"

text \<open>\<open>Walk\<close>: the delegate is called for each valid position, and may see the iterator.\<close>

partial_function (option) Walk ::
  "(u64 \<Rightarrow> bool) \<Rightarrow> (u64 \<Rightarrow> bool) \<Rightarrow> word_mem \<Rightarrow> (AbstractIterator \<Rightarrow> 's \<Rightarrow> 's) \<Rightarrow> AbstractIterator \<Rightarrow> 's \<Rightarrow> (AbstractIterator \<times> 's) option" where
  "Walk vlr vptr mem delegate it s =
     (if IsValid it then Walk vlr vptr mem delegate (fst (Step vlr vptr mem it)) (delegate it s)
      else Some (it, s))"

text \<open>\<open>struct Iterator\<close> accepts every pointer and return address.\<close>

definition mk_Iterator :: "u64 \<Rightarrow> Range \<Rightarrow> AbstractIterator" where
  "mk_Iterator fp stack = mk_AbstractIterator fp 0 stack"

definition Iterator_Step :: "word_mem \<Rightarrow> AbstractIterator \<Rightarrow> AbstractIterator \<times> bool" where
  "Iterator_Step mem = Step (\<lambda>lr. True) (\<lambda>p. True) mem"

section \<open>Printing a trace\<close>

text \<open>The return addresses that \<open>while (it.Step() && depth < maxDepth)\<close> goes through, from \<open>depth\<close> on.\<close>

function trace_loop :: "word_mem \<Rightarrow> nat \<Rightarrow> nat \<Rightarrow> AbstractIterator \<Rightarrow> u64 list" where
  "trace_loop mem maxDepth depth it =
     (case Iterator_Step mem it of
        (it', ok) \<Rightarrow>
          if ok \<and> depth < maxDepth then GetReturnAddress it' # trace_loop mem maxDepth (depth + 1) it'
          else [])"
  by pat_completeness auto
termination by (relation "measure (\<lambda>(mem, maxDepth, depth, it). maxDepth - depth)") auto

declare trace_loop.simps [simp del]

text \<open>A line of the trace: the label and the address, with its module when it has one.\<close>

datatype trace_line = No_Frame_Pointer | Title | In_Module nat string u64 u64 | Outside nat u64

definition PrintAddressWithModule :: "ModuleInfo option list \<Rightarrow> (ModuleInfo \<Rightarrow> string) \<Rightarrow> nat \<Rightarrow> u64 \<Rightarrow> trace_line" where
  "PrintAddressWithModule infos name_of depth address =
     (case TryGetModule infos address of
        Some m \<Rightarrow> In_Module depth (take s_ModulePathLengthMax (name_of m)) (address - rg_start (m_Total m)) address
      | None \<Rightarrow> Outside depth address)"

definition DumpStackTrace ::
  "ModuleInfo option list \<Rightarrow> (ModuleInfo \<Rightarrow> string) \<Rightarrow> word_mem \<Rightarrow> Range \<Rightarrow> u64 \<Rightarrow> nat \<Rightarrow> trace_line list" where
  "DumpStackTrace infos name_of mem stack fp maxDepth =
     (if fp = 0 then [No_Frame_Pointer]
      else
        Title # map (\<lambda>(depth, a). PrintAddressWithModule infos name_of depth a)
          (enumerate 0 (trace_loop mem maxDepth 0 (mk_Iterator fp stack))))"

section \<open>Walking ends\<close>

lemma IsValid_iff:
  "IsValid it \<longleftrightarrow> m_Fp it \<noteq> 0 \<and> m_Fp it mod 8 = 0 \<and> InRange (m_Stack it) (m_Fp it) \<and> m_PrevFp it < m_Fp it"
  by (auto simp: IsValid_def)

lemma Step_moves:
  assumes "IsValid it" "vptr (m_Fp it)"
  shows "m_PrevFp (fst (Step vlr vptr mem it)) = m_Fp it" "m_Stack (fst (Step vlr vptr mem it)) = m_Stack it"
    "m_Fp (fst (Step vlr vptr mem it)) = frame_Fp mem (m_Fp it)"
  using assms by (simp_all add: Step_def Let_def)

text \<open>Distance from the frame pointer to the end of the address space, in frames of 8 bytes.\<close>

definition room :: "AbstractIterator \<Rightarrow> nat" where
  "room it = (if IsValid it then unat (GetEnd (m_Stack it)) - unat (m_Fp it) else 0)"

lemma Step_room:
  assumes "IsValid it" "vptr (m_Fp it)"
  shows "room (fst (Step vlr vptr mem it)) < room it"
proof -
  let ?i = "fst (Step vlr vptr mem it)"
  have r: "m_Fp it < GetEnd (m_Stack it)" using assms(1) by (simp add: IsValid_iff InRange_def)
  show ?thesis
  proof (cases "IsValid ?i")
    case True
    then have "m_Fp it < m_Fp ?i" using Step_moves[of it vptr vlr mem, OF assms] by (simp add: IsValid_iff)
    moreover have "m_Fp ?i < GetEnd (m_Stack it)"
      using True Step_moves[of it vptr vlr mem, OF assms] by (simp add: IsValid_iff InRange_def)
    ultimately show ?thesis
      using assms(1) True Step_moves[of it vptr vlr mem, OF assms] by (simp add: room_def word_less_nat_alt)
  next
    case False
    then show ?thesis using assms(1) r by (simp add: room_def word_less_nat_alt)
  qed
qed

text \<open>The frames a walk visits, in order.\<close>

definition visit_frame :: "AbstractIterator \<Rightarrow> u64 list \<Rightarrow> u64 list" where
  "visit_frame it fs = fs @ [m_Fp it]"

lemma Walk_frames:
  assumes "\<forall>p. vptr p"
  shows "\<exists>it' new. Walk vlr vptr mem visit_frame it fs = Some (it', fs @ new) \<and> \<not> IsValid it'
     \<and> sorted_wrt (<) new \<and> (\<forall>f \<in> set new. m_PrevFp it < f \<and> InRange (m_Stack it) f \<and> f mod 8 = 0 \<and> f \<noteq> 0)"
proof (induction "room it" arbitrary: it fs rule: less_induct)
  case less
  show ?case
  proof (cases "IsValid it")
    case False
    then show ?thesis by (subst Walk.simps) simp
  next
    case True
    let ?i = "fst (Step vlr vptr mem it)"
    have p: "vptr (m_Fp it)" using assms by simp
    note mv = Step_moves[of it vptr vlr mem, OF True p]
    obtain it' new where n: "Walk vlr vptr mem visit_frame ?i (fs @ [m_Fp it]) = Some (it', (fs @ [m_Fp it]) @ new)"
      "\<not> IsValid it'" "sorted_wrt (<) new" "\<forall>f \<in> set new. m_PrevFp ?i < f \<and> InRange (m_Stack ?i) f \<and> f mod 8 = 0 \<and> f \<noteq> 0"
      using less[OF Step_room[of it vptr vlr mem, OF True p], of "fs @ [m_Fp it]"] assms by blast
    have w: "Walk vlr vptr mem visit_frame it fs = Some (it', fs @ (m_Fp it # new))"
      using True n(1) by (subst Walk.simps) (simp add: visit_frame_def)
    have v: "m_PrevFp it < m_Fp it" "InRange (m_Stack it) (m_Fp it)" "m_Fp it mod 8 = 0" "m_Fp it \<noteq> 0"
      using True by (simp_all add: IsValid_iff)
    show ?thesis
      using w n(2,3,4) v mv by (intro exI[of _ it'] exI[of _ "m_Fp it # new"]) (auto intro: less_trans)
  qed
qed

lemma strict_length:
  fixes ks :: "nat list"
  assumes "sorted_wrt (<) ks" "\<forall>k \<in> set ks. a \<le> k \<and> k < b"
  shows "length ks \<le> b - a"
proof -
  have "distinct ks" using assms(1) strict_sorted_iff by blast
  moreover have "set ks \<subseteq> {a..<b}" using assms(2) by auto
  ultimately show ?thesis using card_mono[of "{a..<b}" "set ks"] by (simp add: distinct_card)
qed

lemma frames_length:
  assumes "sorted_wrt (<) fs" "\<forall>f \<in> set fs. InRange st f \<and> f mod 8 = 0"
  shows "length fs \<le> unat (rg_size st) div 8 + 1"
proof (cases "unat (rg_start st) + unat (rg_size st) < 2 ^ 64")
  case True
  then have e: "unat (GetEnd st) = unat (rg_start st) + unat (rg_size st)"
    unfolding GetEnd_def by (subst unat_add_lem [THEN iffD1]) simp_all
  define ks where "ks = map (\<lambda>f. unat f div 8) fs"
  have eight: "unat f = 8 * (unat f div 8)" if "f \<in> set fs" for f
  proof -
    have "f mod 8 = 0" using assms(2) that by blast
    then have "unat (f mod 8) = 0" by simp
    then have "unat f mod 8 = 0" by (simp add: unat_mod)
    then show ?thesis by presburger
  qed
  have "sorted_wrt (\<lambda>f g. unat f div 8 < unat g div 8) fs"
  proof (rule sorted_wrt_mono_rel[OF _ assms(1)])
    fix f g assume "f \<in> set fs" "g \<in> set fs" "f < g"
    then show "unat f div 8 < unat g div 8" using eight[of f] eight[of g] by (simp add: word_less_nat_alt)
  qed
  then have "sorted_wrt (<) ks" by (simp add: ks_def sorted_wrt_map)
  moreover have "\<forall>k \<in> set ks. (unat (rg_start st) + 7) div 8 \<le> k \<and> k < (unat (rg_start st) + unat (rg_size st) + 7) div 8"
  proof
    fix k assume "k \<in> set ks"
    then obtain f where f: "f \<in> set fs" "k = unat f div 8" by (auto simp: ks_def)
    then have "unat (rg_start st) \<le> unat f" "unat f < unat (rg_start st) + unat (rg_size st)"
      using assms(2) e by (auto simp: InRange_def word_le_nat_alt word_less_nat_alt)
    then show "(unat (rg_start st) + 7) div 8 \<le> k \<and> k < (unat (rg_start st) + unat (rg_size st) + 7) div 8"
      using eight[OF f(1)] f(2) by linarith
  qed
  ultimately have len: "length ks \<le> (unat (rg_start st) + unat (rg_size st) + 7) div 8 - (unat (rg_start st) + 7) div 8"
    by (rule strict_length)
  have bnd: "(a + n + 7) div 8 - (a + 7) div 8 \<le> n div 8 + 1" for a n :: nat
  proof -
    have "(a + 7 + n) div 8 = (a + 7) div 8 + n div 8 + ((a + 7) mod 8 + n mod 8) div 8" by (rule div_add1_eq)
    moreover have "(a + 7) mod 8 < 8" "n mod 8 < 8" by simp_all
    then have "((a + 7) mod 8 + n mod 8) div 8 \<le> 1" by linarith
    moreover have "a + n + 7 = a + 7 + n" by simp
    ultimately have "(a + n + 7) div 8 \<le> (a + 7) div 8 + n div 8 + 1" by (metis add_left_mono)
    then show ?thesis by (simp only: le_diff_conv add.commute add.left_commute add.assoc)
  qed
  show ?thesis using le_trans[OF len bnd] by (simp only: ks_def length_map)
next
  case False
  have "fs = []"
  proof (rule ccontr)
    assume "fs \<noteq> []"
    then obtain f where f: "InRange st f" using assms(2) by (cases fs) auto
    then have "rg_start st < rg_start st + rg_size st" by (auto simp: InRange_def GetEnd_def)
    then show False using False no_olen_add_nat[of "rg_start st" "rg_size st"] by (simp add: word_le_nat_alt word_less_nat_alt)
  qed
  then show ?thesis by simp
qed

text \<open>A derived iterator that rejects a pointer leaves \<open>Walk\<close> where it is.\<close>

lemma Step_rejected: "\<not> vptr (m_Fp it) \<Longrightarrow> fst (Step vlr vptr mem it) = it"
  by (simp add: Step_def)

lemma Walk_stuck_aux:
  assumes "Walk vlr vptr mem delegate it s = Some y"
  shows "IsValid it \<longrightarrow> vptr (m_Fp it)"
proof (rule Walk.raw_induct[where P = "\<lambda>vlr vptr mem delegate it s y. IsValid it \<longrightarrow> vptr (m_Fp it)", OF _ assms])
  fix W :: "(u64 \<Rightarrow> bool) \<Rightarrow> (u64 \<Rightarrow> bool) \<Rightarrow> word_mem \<Rightarrow> (AbstractIterator \<Rightarrow> 's \<Rightarrow> 's) \<Rightarrow> AbstractIterator \<Rightarrow> 's
      \<Rightarrow> (AbstractIterator \<times> 's) option"
    and vlr vptr mem delegate it s y
  assume ih: "\<And>vlr vptr mem delegate it s y. W vlr vptr mem delegate it s = Some y \<Longrightarrow> IsValid it \<longrightarrow> vptr (m_Fp it)"
    and body: "(if IsValid it then W vlr vptr mem delegate (fst (Step vlr vptr mem it)) (delegate it s) else Some (it, s)) = Some y"
  show "IsValid it \<longrightarrow> vptr (m_Fp it)"
    using ih[of vlr vptr mem delegate "fst (Step vlr vptr mem it)" "delegate it s" y] body Step_rejected[of vptr it vlr mem]
    by (cases "vptr (m_Fp it)") auto
qed

lemma Walk_stuck: "IsValid it \<Longrightarrow> \<not> vptr (m_Fp it) \<Longrightarrow> Walk vlr vptr mem delegate it s = None"
  using Walk_stuck_aux[of vlr vptr mem delegate it s] by (cases "Walk vlr vptr mem delegate it s") simp_all

section \<open>Traces\<close>

text \<open>A chain of frame records that grows towards the stack's end and ends with a null pointer.\<close>

fun frame_chain :: "word_mem \<Rightarrow> Range \<Rightarrow> u64 \<Rightarrow> u64 \<Rightarrow> (u64 \<times> u64) list \<Rightarrow> bool" where
  "frame_chain mem st prev fp [] \<longleftrightarrow> fp = 0"
| "frame_chain mem st prev fp ((f, lr) # rest) \<longleftrightarrow>
     f = fp \<and> fp \<noteq> 0 \<and> fp mod 8 = 0 \<and> InRange st fp \<and> prev < fp
   \<and> mem (fp + 8) = lr \<and> lr \<noteq> 0 \<and> lr mod 4 = 0 \<and> frame_chain mem st fp (mem fp) rest"

lemma trace_loop_chain:
  "frame_chain mem st prev fp frames \<Longrightarrow>
   trace_loop mem n depth \<lparr>m_Fp = fp, m_Lr = lr, m_PrevFp = prev, m_Stack = st\<rparr> = take (n - depth) (map snd frames)"
proof (induction frames arbitrary: prev fp lr depth)
  case Nil
  then show ?case by (subst trace_loop.simps) (simp add: Iterator_Step_def Step_def IsValid_def)
next
  case (Cons fr rest)
  obtain f l where fr: "fr = (f, l)" by force
  have step: "Iterator_Step mem \<lparr>m_Fp = fp, m_Lr = lr, m_PrevFp = prev, m_Stack = st\<rparr>
      = (\<lparr>m_Fp = mem fp, m_Lr = l, m_PrevFp = fp, m_Stack = st\<rparr>, True)"
    using Cons.prems fr
    by (auto simp: Iterator_Step_def Step_def IsValid_def IsValidLrImpl_def frame_Lr_def frame_Fp_def Let_def)
  show ?case
  proof (cases "depth < n")
    case True
    then have "n - depth = Suc (n - Suc depth)" by simp
    then show ?thesis
      using step Cons.IH[of fp "mem fp" "depth + 1" l] Cons.prems fr True
      by (subst trace_loop.simps) (simp add: GetReturnAddress_def)
  next
    case False
    then show ?thesis using step by (subst trace_loop.simps) simp
  qed
qed

section \<open>Properties\<close>

text \<open>
  C26: Walking a stack ends.  With an iterator that accepts every pointer (\<open>struct Iterator\<close>),
  \<open>Walk\<close> returns for any memory contents: it calls the delegate for strictly ascending,
  aligned frame pointers inside the stack, at most one for every 8 bytes of it and one more.
  With an iterator that rejects the current valid frame pointer it never returns, because
  \<open>Walk\<close> ignores the result of \<open>Step\<close>.
\<close>

theorem walk_ends_unless_rejected:
  "((\<forall>p. vptr p) \<longrightarrow>
      (\<exists>it' fs. Walk vlr vptr mem visit_frame it [] = Some (it', fs) \<and> \<not> IsValid it' \<and> sorted_wrt (<) fs
        \<and> (\<forall>f \<in> set fs. m_PrevFp it < f \<and> InRange (m_Stack it) f \<and> f mod 8 = 0)
        \<and> length fs \<le> unat (rg_size (m_Stack it)) div 8 + 1))
   \<and> (IsValid it \<and> \<not> vptr (m_Fp it) \<longrightarrow> (\<forall>(delegate :: AbstractIterator \<Rightarrow> 's \<Rightarrow> 's) s. Walk vlr vptr mem delegate it s = None))"
proof (intro conjI impI allI)
  assume "\<forall>p. vptr p"
  from Walk_frames[OF this, of vlr mem it "[]"] obtain it' fs where
    "Walk vlr vptr mem visit_frame it [] = Some (it', fs)" "\<not> IsValid it'" "sorted_wrt (<) fs"
    "\<forall>f \<in> set fs. m_PrevFp it < f \<and> InRange (m_Stack it) f \<and> f mod 8 = 0 \<and> f \<noteq> 0" by auto
  then show "\<exists>it' fs. Walk vlr vptr mem visit_frame it [] = Some (it', fs) \<and> \<not> IsValid it' \<and> sorted_wrt (<) fs
      \<and> (\<forall>f \<in> set fs. m_PrevFp it < f \<and> InRange (m_Stack it) f \<and> f mod 8 = 0)
      \<and> length fs \<le> unat (rg_size (m_Stack it)) div 8 + 1"
    using frames_length[of fs "m_Stack it"] by (intro exI[of _ it'] exI[of _ fs] conjI) blast+
next
  fix delegate :: "AbstractIterator \<Rightarrow> 's \<Rightarrow> 's" and s
  assume "IsValid it \<and> \<not> vptr (m_Fp it)"
  then show "Walk vlr vptr mem delegate it s = None" by (intro Walk_stuck) simp_all
qed

text \<open>
  A printed trace is the call chain.  For a chain of frame records on the stack, \<open>DumpStackTrace\<close>
  prints the title and the return addresses of the innermost frames in order, at most
  \<open>maxDepth\<close> of them, each with its module and the offset in it when it has one.
\<close>

lemma dumped_trace_is_chain:
  assumes "frame_chain mem st 0 fp frames" "fp \<noteq> 0"
  shows "DumpStackTrace infos name_of mem st fp maxDepth =
    Title # map (\<lambda>(depth, a). PrintAddressWithModule infos name_of depth a)
      (enumerate 0 (take maxDepth (map snd frames)))"
  using trace_loop_chain[OF assms(1), of maxDepth 0 0] assms(2)
  by (simp add: DumpStackTrace_def mk_Iterator_def mk_AbstractIterator_def)

section \<open>A small stack\<close>

text \<open>Two frames at 0x100 and 0x120 of a stack of 256 bytes.\<close>

definition small_stack :: Range where "small_stack = \<lparr>rg_start = 0x100, rg_size = 0x100\<rparr>"

definition small_mem :: word_mem where
  "small_mem = (\<lambda>a. 0)(0x100 := 0x120, 0x108 := 0x8001000, 0x120 := 0, 0x128 := 0x8002000)"

theorem walk_ends_unless_rejected_witness:
  "\<exists>it' fs. Walk (\<lambda>lr. True) (\<lambda>p. True) small_mem visit_frame (mk_Iterator 0x100 small_stack) [] = Some (it', fs)
     \<and> length fs \<le> 33"
  using walk_ends_unless_rejected[of "\<lambda>p. True" "\<lambda>lr. True" small_mem "mk_Iterator 0x100 small_stack"]
  by (auto simp: mk_Iterator_def mk_AbstractIterator_def small_stack_def)

end
