(* ===== verification/Input_Block.thy ===== *)
theory Input_Block
  imports Startup
begin

text \<open>
  Keeping input from the game while the overlay has it
  (\<open>source/program/gui2/input/hid_block.cpp\<close>): the blocking mode, the scope in which one
  thread still sees the real input, as atomic steps of concurrent threads, the hooks of the
  \<open>nn::hid\<close> functions and their installation.
\<close>

section \<open>Blocking mode\<close>

text \<open>The atomic variables, and \<open>g_hid_hooks_installed\<close>.\<close>

record hid_state =
  g_block_gamepad_input_to_game :: bool
  g_allow_left_stick_passthrough :: bool
  g_hid_passthrough_depth :: s32
  g_hid_passthrough_thread :: u64
  g_hid_hooks_installed :: bool

definition hid_start :: hid_state where
  "hid_start = \<lparr>g_block_gamepad_input_to_game = False, g_allow_left_stick_passthrough = False,
     g_hid_passthrough_depth = 0, g_hid_passthrough_thread = 0, g_hid_hooks_installed = False\<rparr>"

definition SetBlockGamepadInputToGame :: "bool \<Rightarrow> hid_state \<Rightarrow> hid_state" where
  "SetBlockGamepadInputToGame block st = st\<lparr>g_block_gamepad_input_to_game := block\<rparr>"

definition SetAllowLeftStickPassthrough :: "bool \<Rightarrow> hid_state \<Rightarrow> hid_state" where
  "SetAllowLeftStickPassthrough allow st = st\<lparr>g_allow_left_stick_passthrough := allow\<rparr>"

datatype GamepadBlockMode = Unblocked | Full_Block | LeftStickOnly

text \<open>\<open>token\<close> is the address of the current thread, 0 when there is none.\<close>

definition GetGamepadBlockMode :: "hid_state \<Rightarrow> u64 \<Rightarrow> GamepadBlockMode" where
  "GetGamepadBlockMode st token =
     (if \<not> g_block_gamepad_input_to_game st then Unblocked
      else
        let allow_left_stick = g_allow_left_stick_passthrough st;
            depth = g_hid_passthrough_depth st
        in if sint depth \<le> 0 then (if allow_left_stick then LeftStickOnly else Full_Block)
           else
             let passthrough_thread = g_hid_passthrough_thread st
             in if passthrough_thread \<noteq> 0 \<and> passthrough_thread = token then Unblocked
                else if allow_left_stick then LeftStickOnly else Full_Block)"

section \<open>The passthrough scope\<close>

text \<open>
  The constructor and the destructor of \<open>ScopedHidPassthroughForOverlay\<close>, cut where they
  touch a shared variable.  \<open>Entered\<close> and \<open>Left\<close> carry what the atomic addition returned.
\<close>

datatype scope_pc = Idle | Entered s32 | Checked | Left s32 | Depth_Reset

definition ctor_enter :: "u64 \<Rightarrow> hid_state \<Rightarrow> (hid_state \<times> scope_pc) outcome" where
  "ctor_enter token st =
     (if token = 0 then Aborted ''Failed to get current thread token''
      else
        let prev = g_hid_passthrough_depth st
        in if \<not> 0 \<le> sint prev then Aborted ''HID passthrough depth underflow on enter''
           else Done (st\<lparr>g_hid_passthrough_depth := prev + 1\<rparr>, Entered prev))"

definition ctor_owner :: "u64 \<Rightarrow> s32 \<Rightarrow> hid_state \<Rightarrow> (hid_state \<times> scope_pc) outcome" where
  "ctor_owner token prev st =
     (if prev = 0 then Done (st\<lparr>g_hid_passthrough_thread := token\<rparr>, Idle)
      else if g_hid_passthrough_thread st \<noteq> token then Aborted ''HID passthrough entered on different thread''
      else Done (st, Idle))"

definition dtor_check :: "u64 \<Rightarrow> hid_state \<Rightarrow> (hid_state \<times> scope_pc) outcome" where
  "dtor_check token st =
     (let owner = g_hid_passthrough_thread st
      in if token = 0 then Aborted ''Failed to get current thread token''
         else if \<not> (owner = 0 \<or> owner = token) then Aborted ''HID passthrough exited on different thread''
         else Done (st, Checked))"

definition dtor_leave :: "hid_state \<Rightarrow> (hid_state \<times> scope_pc) outcome" where
  "dtor_leave st =
     (let prev = g_hid_passthrough_depth st
      in if \<not> 0 < sint prev then Aborted ''HID passthrough depth underflow on exit''
         else Done (st\<lparr>g_hid_passthrough_depth := prev - 1\<rparr>, if sint prev \<le> 1 then Left prev else Idle))"

definition dtor_reset :: "hid_state \<Rightarrow> (hid_state \<times> scope_pc) outcome" where
  "dtor_reset st = Done (st\<lparr>g_hid_passthrough_depth := 0\<rparr>, Depth_Reset)"

definition dtor_clear :: "hid_state \<Rightarrow> (hid_state \<times> scope_pc) outcome" where
  "dtor_clear st = Done (st\<lparr>g_hid_passthrough_thread := 0\<rparr>, Idle)"

text \<open>
  What a thread does next: it opens a scope, or destroys the innermost of the \<open>nest\<close> scopes
  it has constructed, or goes on in the constructor or destructor it is in.  Threads nest at
  most \<open>depth_limit\<close> scopes.
\<close>

record scope_thread =
  th_pc :: scope_pc
  th_nest :: nat

definition thread_moves :: "nat \<Rightarrow> u64 \<Rightarrow> hid_state \<Rightarrow> scope_thread \<Rightarrow> (hid_state \<times> scope_thread) outcome list" where
  "thread_moves depth_limit token st th =
     (let n = th_nest th;
          moved = (\<lambda>n'. map_outcome (\<lambda>(st', pc). (st', \<lparr>th_pc = pc, th_nest = n'\<rparr>)))
      in case th_pc th of
           Idle \<Rightarrow>
             (if n < depth_limit then [moved n (ctor_enter token st)] else [])
             @ (if 0 < n then [moved n (dtor_check token st)] else [])
         | Entered prev \<Rightarrow> [moved (n + 1) (ctor_owner token prev st)]
         | Checked \<Rightarrow>
             [map_outcome (\<lambda>(st', pc). (st', \<lparr>th_pc = pc, th_nest = if pc = Idle then n - 1 else n\<rparr>)) (dtor_leave st)]
         | Left prev \<Rightarrow> [moved n (dtor_reset st)]
         | Depth_Reset \<Rightarrow> [moved (n - 1) (dtor_clear st)])"

text \<open>Threads by token; the overlay may change what is blocked at any time.  An abort ends the process.\<close>

type_synonym hid_world = "(hid_state \<times> (u64 \<Rightarrow> scope_thread)) outcome"

inductive hid_step :: "nat \<Rightarrow> u64 set \<Rightarrow> hid_world \<Rightarrow> hid_world \<Rightarrow> bool" for depth_limit users where
  move: "token \<in> users \<Longrightarrow> m \<in> set (thread_moves depth_limit token st (ths token)) \<Longrightarrow>
     hid_step depth_limit users (Done (st, ths)) (map_outcome (\<lambda>(st', th). (st', ths(token := th))) m)"
| block: "hid_step depth_limit users (Done (st, ths)) (Done (SetBlockGamepadInputToGame b st, ths))"
| allow: "hid_step depth_limit users (Done (st, ths)) (Done (SetAllowLeftStickPassthrough b st, ths))"

definition no_scopes :: "u64 \<Rightarrow> scope_thread" where
  "no_scopes = (\<lambda>token. \<lparr>th_pc = Idle, th_nest = 0\<rparr>)"

section \<open>Hooked reads\<close>

text \<open>The pad states all have the members of \<open>NpadBaseState\<close>.\<close>

record AnalogStickState =
  stick_X :: s32
  stick_Y :: s32

record NpadBaseState =
  mSamplingNumber :: u64
  mButtons :: u64
  mAnalogStickL :: AnalogStickState
  mAnalogStickR :: AnalogStickState
  mAttributes :: u32
  npad_reserved :: "u8 list"

record MouseState =
  mouse_samplingNumber :: u64
  mouse_x :: s32
  mouse_y :: s32
  deltaX :: s32
  deltaY :: s32
  wheelDeltaX :: s32
  wheelDeltaY :: s32
  mouse_buttons :: u32
  mouse_attributes :: u32

record KeyboardState =
  keyboard_samplingNumber :: u64
  modifiers :: u32
  keyboard_keys :: "256 word"

definition no_stick :: AnalogStickState where "no_stick = \<lparr>stick_X = 0, stick_Y = 0\<rparr>"

definition no_pad :: NpadBaseState where
  "no_pad = \<lparr>mSamplingNumber = 0, mButtons = 0, mAnalogStickL = no_stick, mAnalogStickR = no_stick,
     mAttributes = 0, npad_reserved = [0, 0, 0, 0]\<rparr>"

definition no_mouse :: MouseState where
  "no_mouse = \<lparr>mouse_samplingNumber = 0, mouse_x = 0, mouse_y = 0, deltaX = 0, deltaY = 0,
     wheelDeltaX = 0, wheelDeltaY = 0, mouse_buttons = 0, mouse_attributes = 0\<rparr>"

definition no_keyboard :: KeyboardState where
  "no_keyboard = \<lparr>keyboard_samplingNumber = 0, modifiers = 0, keyboard_keys = 0\<rparr>"

text \<open>Null pointers are \<open>None\<close>; an output array is a list at least \<open>cnt\<close> long.\<close>

definition ClearNpadButtonsAndRightStick :: "NpadBaseState \<Rightarrow> NpadBaseState" where
  "ClearNpadButtonsAndRightStick s = s\<lparr>mButtons := 0, mAnalogStickR := no_stick\<rparr>"

definition ResetNpadState :: "NpadBaseState \<Rightarrow> NpadBaseState" where
  "ResetNpadState s = no_pad"

text \<open>\<open>for (int i = 0; i < cnt; ++i)\<close> over an array that may be null.\<close>

definition for_states :: "(NpadBaseState \<Rightarrow> NpadBaseState) \<Rightarrow> int \<Rightarrow> NpadBaseState list option \<Rightarrow> NpadBaseState list option" where
  "for_states f cnt out =
     (case out of
        None \<Rightarrow> None
      | Some xs \<Rightarrow> if cnt \<le> 0 then Some xs else Some (fold (\<lambda>i xs. xs[i := f (xs ! i)]) [0..<nat cnt] xs))"

definition ResetNpadStates :: "int \<Rightarrow> NpadBaseState list option \<Rightarrow> NpadBaseState list option" where
  "ResetNpadStates = for_states ResetNpadState"

text \<open>
  The callbacks.  \<open>Orig\<close> is the hooked function: what it leaves in the outputs, and its
  result.  \<open>token\<close> is the calling thread.
\<close>

definition HidGetNpadStateHook ::
  "hid_state \<Rightarrow> u64 \<Rightarrow> (NpadBaseState option \<Rightarrow> NpadBaseState option) \<Rightarrow> NpadBaseState option \<Rightarrow> NpadBaseState option" where
  "HidGetNpadStateHook st token Orig out =
     (let mode = GetGamepadBlockMode st token
      in if mode \<noteq> Unblocked then
           if mode = LeftStickOnly then map_option ClearNpadButtonsAndRightStick (Orig out)
           else map_option ResetNpadState out
         else Orig out)"

definition HidGetNpadStatesHook ::
  "hid_state \<Rightarrow> u64 \<Rightarrow> (NpadBaseState list option \<Rightarrow> int \<Rightarrow> NpadBaseState list option) \<Rightarrow>
   NpadBaseState list option \<Rightarrow> int \<Rightarrow> NpadBaseState list option" where
  "HidGetNpadStatesHook st token Orig out cnt =
     (let mode = GetGamepadBlockMode st token
      in if mode \<noteq> Unblocked then
           if mode = LeftStickOnly then for_states ClearNpadButtonsAndRightStick cnt (Orig out cnt)
           else ResetNpadStates cnt out
         else Orig out cnt)"

type_synonym detail_outputs = "s32 \<times> s32 option \<times> NpadBaseState list option"

definition HidDetailGetNpadStatesHook ::
  "hid_state \<Rightarrow> u64 \<Rightarrow> (s32 option \<Rightarrow> NpadBaseState list option \<Rightarrow> int \<Rightarrow> detail_outputs) \<Rightarrow>
   s32 option \<Rightarrow> NpadBaseState list option \<Rightarrow> int \<Rightarrow> detail_outputs" where
  "HidDetailGetNpadStatesHook st token Orig out_count out cnt =
     (let mode = GetGamepadBlockMode st token
      in if mode \<noteq> Unblocked then
           if mode = LeftStickOnly then
             (let (rc, out_count, out) = Orig out_count out cnt
              in (rc, out_count, for_states ClearNpadButtonsAndRightStick cnt out))
           else (0, map_option (\<lambda>_. 0) out_count, ResetNpadStates cnt out)
         else Orig out_count out cnt)"

definition HidGetMouseStateHook ::
  "hid_state \<Rightarrow> u64 \<Rightarrow> (MouseState option \<Rightarrow> MouseState option) \<Rightarrow> MouseState option \<Rightarrow> MouseState option" where
  "HidGetMouseStateHook st token Orig out =
     (if GetGamepadBlockMode st token \<noteq> Unblocked then map_option (\<lambda>_. no_mouse) out else Orig out)"

definition HidGetKeyboardStateHook ::
  "hid_state \<Rightarrow> u64 \<Rightarrow> (KeyboardState option \<Rightarrow> KeyboardState option) \<Rightarrow> KeyboardState option \<Rightarrow> KeyboardState option" where
  "HidGetKeyboardStateHook st token Orig out =
     (if GetGamepadBlockMode st token \<noteq> Unblocked then map_option (\<lambda>_. no_keyboard) out else Orig out)"

section \<open>One thread with scopes\<close>

text \<open>What the shared variables hold at each point of the only thread that opens scopes.\<close>

fun scope_at :: "nat \<Rightarrow> u64 \<Rightarrow> hid_state \<Rightarrow> scope_pc \<Rightarrow> nat \<Rightarrow> bool" where
  "scope_at depth_limit o' st Idle n \<longleftrightarrow> n \<le> depth_limit \<and> g_hid_passthrough_depth st = of_nat n
     \<and> g_hid_passthrough_thread st = (if n = 0 then 0 else o')"
| "scope_at depth_limit o' st (Entered prev) n \<longleftrightarrow> n < depth_limit \<and> prev = of_nat n \<and> g_hid_passthrough_depth st = of_nat (n + 1)
     \<and> g_hid_passthrough_thread st = (if n = 0 then 0 else o')"
| "scope_at depth_limit o' st Checked n \<longleftrightarrow> 0 < n \<and> n \<le> depth_limit \<and> g_hid_passthrough_depth st = of_nat n
     \<and> g_hid_passthrough_thread st = o'"
| "scope_at depth_limit o' st (Left prev) n \<longleftrightarrow> n = 1 \<and> 0 < depth_limit \<and> g_hid_passthrough_depth st = 0 \<and> g_hid_passthrough_thread st = o'"
| "scope_at depth_limit o' st Depth_Reset n \<longleftrightarrow> n = 1 \<and> 0 < depth_limit \<and> g_hid_passthrough_depth st = 0 \<and> g_hid_passthrough_thread st = o'"

lemma sint_of_nat_small: "n < 2 ^ 31 \<Longrightarrow> sint (of_nat n :: s32) = int n"
  by (simp add: signed_of_nat signed_take_bit_int_eq_self)

lemma of_nat_eq_small: "n < 2 ^ 31 \<Longrightarrow> (of_nat n :: s32) = 0 \<longleftrightarrow> n = 0"
  using sint_of_nat_small[of n] by (auto simp del: of_nat_0)

definition scope_ok :: "nat \<Rightarrow> u64 \<Rightarrow> hid_world \<Rightarrow> bool" where
  "scope_ok depth_limit o' w \<longleftrightarrow>
     (case w of
        Done (st, ths) \<Rightarrow> scope_at depth_limit o' st (th_pc (ths o')) (th_nest (ths o')) \<and> (\<forall>t. t \<noteq> o' \<longrightarrow> ths t = no_scopes t)
      | _ \<Rightarrow> False)"

lemma scope_at_flags [simp]:
  "scope_at depth_limit o' (st\<lparr>g_block_gamepad_input_to_game := b\<rparr>) pc n = scope_at depth_limit o' st pc n"
  "scope_at depth_limit o' (st\<lparr>g_allow_left_stick_passthrough := b\<rparr>) pc n = scope_at depth_limit o' st pc n"
  by (cases pc; simp)+

lemma thread_move_ok:
  assumes "o' \<noteq> 0" "depth_limit < 2 ^ 31" "m \<in> set (thread_moves depth_limit o' st th)" "scope_at depth_limit o' st (th_pc th) (th_nest th)"
  shows "\<exists>st' th'. m = Done (st', th') \<and> scope_at depth_limit o' st' (th_pc th') (th_nest th')"
proof (cases "th_pc th")
  case Idle
  then show ?thesis
    using assms sint_of_nat_small[of "th_nest th"]
    by (auto simp: thread_moves_def ctor_enter_def dtor_check_def Let_def split: if_splits)
next
  case (Entered prev)
  then show ?thesis
    using assms of_nat_eq_small[of "th_nest th"]
    by (auto simp: thread_moves_def ctor_owner_def Let_def split: if_splits)
next
  case Checked
  then show ?thesis
    using assms sint_of_nat_small[of "th_nest th"]
    by (cases "th_nest th = 1") (auto simp: thread_moves_def dtor_leave_def Let_def of_nat_diff split: if_splits)
next
  case (Left prev)
  then show ?thesis using assms by (auto simp: thread_moves_def dtor_reset_def Let_def)
next
  case Depth_Reset
  then show ?thesis using assms by (auto simp: thread_moves_def dtor_clear_def Let_def)
qed

lemma scope_ok_step:
  assumes "hid_step depth_limit {o'} w w'" "scope_ok depth_limit o' w" "o' \<noteq> 0" "depth_limit < 2 ^ 31"
  shows "scope_ok depth_limit o' w'"
  using assms(1)
proof (cases rule: hid_step.cases)
  case (move token m st ths)
  then have "\<exists>st' th'. m = Done (st', th') \<and> scope_at depth_limit o' st' (th_pc th') (th_nest th')"
    using assms(2-4) by (intro thread_move_ok) (auto simp: scope_ok_def)
  then show ?thesis using move assms(2) by (auto simp: scope_ok_def)
qed (use assms(2) in \<open>auto simp: scope_ok_def SetBlockGamepadInputToGame_def SetAllowLeftStickPassthrough_def\<close>)

lemma scope_ok_steps:
  assumes "(hid_step depth_limit {o'})\<^sup>*\<^sup>* (Done (hid_start, no_scopes)) w" "o' \<noteq> 0" "depth_limit < 2 ^ 31"
  shows "scope_ok depth_limit o' w"
  using assms(1)
proof (induction rule: rtranclp_induct)
  case base
  show ?case by (simp add: scope_ok_def no_scopes_def hid_start_def)
next
  case (step w w')
  then show ?case using scope_ok_step assms(2,3) by blast
qed

section \<open>Loops over states\<close>

lemma fold_update_length: "length (fold (\<lambda>i xs. xs[i := f (xs ! i)]) is xs) = length xs"
  by (induction "is" arbitrary: xs) simp_all

lemma fold_update_prefix:
  "n \<le> length xs \<Longrightarrow> fold (\<lambda>i xs. xs[i := f (xs ! i)]) [0..<n] xs = map f (take n xs) @ drop n xs"
proof (induction n)
  case (Suc n)
  then have "fold (\<lambda>i xs. xs[i := f (xs ! i)]) [0..<n] xs = map f (take n xs) @ drop n xs" by simp
  then show ?case
    using Suc.prems by (simp add: take_Suc_conv_app_nth nth_append list_update_append Cons_nth_drop_Suc[symmetric])
qed simp

lemma ResetNpadState_const: "ResetNpadState = (\<lambda>s. no_pad)"
  by (simp add: fun_eq_iff ResetNpadState_def)

lemma for_states_eq:
  assumes "nat cnt \<le> length xs"
  shows "for_states f cnt (Some xs) = Some (map f (take (nat cnt) xs) @ drop (nat cnt) xs)"
  using assms fold_update_prefix[of "nat cnt" xs f] by (simp add: for_states_def)

section \<open>Properties\<close>

text \<open>
  C35: Only the overlay's thread passes.  If one thread opens passthrough scopes, nested at most
  \<open>depth_limit < 2^31\<close> deep, then whatever other threads read and however blocking is switched
  meanwhile, no assertion of the constructor or destructor fails; every other thread sees the
  blocking mode that is set; and the thread itself, between its scope operations, sees the
  real input exactly when nothing is blocked or it holds a scope.
\<close>

theorem passthrough_single_thread:
  assumes "(hid_step depth_limit {o'})\<^sup>*\<^sup>* (Done (hid_start, no_scopes)) w" "o' \<noteq> 0" "depth_limit < 2 ^ 31"
  shows "\<exists>st ths. w = Done (st, ths)
     \<and> (\<forall>t. t \<noteq> o' \<longrightarrow> GetGamepadBlockMode st t =
          (if \<not> g_block_gamepad_input_to_game st then Unblocked
           else if g_allow_left_stick_passthrough st then LeftStickOnly else Full_Block))
     \<and> (th_pc (ths o') = Idle \<longrightarrow>
          (GetGamepadBlockMode st o' = Unblocked \<longleftrightarrow> \<not> g_block_gamepad_input_to_game st \<or> 0 < th_nest (ths o')))"
proof -
  have "scope_ok depth_limit o' w" by (rule scope_ok_steps[OF assms])
  then obtain st ths where w: "w = Done (st, ths)" and at: "scope_at depth_limit o' st (th_pc (ths o')) (th_nest (ths o'))"
    by (auto simp: scope_ok_def split: outcome.splits)
  have owner: "g_hid_passthrough_thread st = 0 \<or> g_hid_passthrough_thread st = o'"
    using at by (cases "th_pc (ths o')") (auto split: if_splits)
  show ?thesis
    using w at owner assms(2,3) sint_of_nat_small[of "th_nest (ths o')"]
    by (auto simp: GetGamepadBlockMode_def Let_def split: if_splits)
qed

text \<open>The thread 0x1000 opens a scope while everything is blocked.\<close>

definition blocked_start :: hid_state where
  "blocked_start = SetBlockGamepadInputToGame True hid_start"

lemma enter_scope:
  assumes "token \<noteq> 0" "token \<in> users" "0 < depth_limit" "th_pc (ths token) = Idle" "th_nest (ths token) = 0"
    "g_hid_passthrough_depth st = 0"
  shows "(hid_step depth_limit users)\<^sup>*\<^sup>* (Done (st, ths))
     (Done (st\<lparr>g_hid_passthrough_depth := 1, g_hid_passthrough_thread := token\<rparr>,
            ths(token := \<lparr>th_pc = Idle, th_nest = 1\<rparr>)))"
proof -
  let ?s1 = "st\<lparr>g_hid_passthrough_depth := 1\<rparr>" and ?t1 = "ths(token := \<lparr>th_pc = Entered 0, th_nest = 0\<rparr>)"
  have "hid_step depth_limit users (Done (st, ths)) (map_outcome (\<lambda>(st', th). (st', ths(token := th)))
      (map_outcome (\<lambda>(st', pc). (st', \<lparr>th_pc = pc, th_nest = 0\<rparr>)) (ctor_enter token st)))"
    using assms by (intro hid_step.move) (simp_all add: thread_moves_def)
  then have "hid_step depth_limit users (Done (st, ths)) (Done (?s1, ?t1))" using assms by (simp add: ctor_enter_def)
  moreover have "hid_step depth_limit users (Done (?s1, ?t1)) (map_outcome (\<lambda>(st', th). (st', ?t1(token := th)))
      (map_outcome (\<lambda>(st', pc). (st', \<lparr>th_pc = pc, th_nest = 1\<rparr>)) (ctor_owner token 0 ?s1)))"
    using assms by (intro hid_step.move) (simp_all add: thread_moves_def)
  ultimately show ?thesis by (simp add: ctor_owner_def)
qed

theorem passthrough_single_thread_witness:
  "\<exists>st ths. (hid_step 1 {0x1000})\<^sup>*\<^sup>* (Done (hid_start, no_scopes)) (Done (st, ths))
     \<and> GetGamepadBlockMode st 0x1000 = Unblocked \<and> GetGamepadBlockMode st 0x2000 = Full_Block"
proof -
  let ?st = "blocked_start\<lparr>g_hid_passthrough_depth := 1, g_hid_passthrough_thread := 0x1000\<rparr>"
  let ?ths = "no_scopes(0x1000 := \<lparr>th_pc = Idle, th_nest = 1\<rparr>)"
  have "hid_step 1 {0x1000} (Done (hid_start, no_scopes)) (Done (blocked_start, no_scopes))"
    unfolding blocked_start_def by (rule hid_step.block)
  moreover have "(hid_step 1 {0x1000})\<^sup>*\<^sup>* (Done (blocked_start, no_scopes)) (Done (?st, ?ths))"
    by (rule enter_scope) (simp_all add: no_scopes_def blocked_start_def SetBlockGamepadInputToGame_def hid_start_def)
  ultimately have r: "(hid_step 1 {0x1000})\<^sup>*\<^sup>* (Done (hid_start, no_scopes)) (Done (?st, ?ths))"
    by (rule converse_rtranclp_into_rtranclp)
  show ?thesis
    using r passthrough_single_thread[OF r] by (intro exI[of _ ?st] exI[of _ ?ths])
      (auto simp: blocked_start_def SetBlockGamepadInputToGame_def hid_start_def)
qed

text \<open>
  C36: The scope cannot be handed from one thread to another.  Two threads whose scopes do not
  overlap can still bring the process down: when the second opens its scope between the
  decrement and the resets of the first one's destructor, the resets wipe out the second
  scope, its thread is blocked although it holds a scope, and its destructor aborts.
\<close>

theorem passthrough_handover_race:
  "\<exists>st ths. (hid_step 1 {0x1000, 0x2000})\<^sup>*\<^sup>* (Done (hid_start, no_scopes)) (Done (st, ths))
     \<and> th_nest (ths 0x1000) = 0 \<and> th_nest (ths 0x2000) = 1 \<and> th_pc (ths 0x2000) = Idle
     \<and> GetGamepadBlockMode st 0x2000 = Full_Block
     \<and> (hid_step 1 {0x1000, 0x2000})\<^sup>*\<^sup>* (Done (st, ths)) (Aborted ''HID passthrough depth underflow on exit'')"
proof -
  let ?R = "hid_step 1 {0x1000, 0x2000}"
  let ?s1 = "blocked_start\<lparr>g_hid_passthrough_depth := 1, g_hid_passthrough_thread := 0x1000\<rparr>"
  let ?t1 = "no_scopes(0x1000 := \<lparr>th_pc = Idle, th_nest = 1\<rparr>)"
  let ?s2 = "?s1\<lparr>g_hid_passthrough_depth := 0\<rparr>" and ?t2 = "no_scopes(0x1000 := \<lparr>th_pc = Left 1, th_nest = 1\<rparr>)"
  let ?s3 = "?s2\<lparr>g_hid_passthrough_depth := 1, g_hid_passthrough_thread := 0x2000\<rparr>"
  let ?t3 = "?t2(0x2000 := \<lparr>th_pc = Idle, th_nest = 1\<rparr>)"
  let ?s4 = "?s3\<lparr>g_hid_passthrough_depth := 0, g_hid_passthrough_thread := 0\<rparr>"
  let ?t4 = "?t3(0x1000 := \<lparr>th_pc = Idle, th_nest = 0\<rparr>)"
  note defs = thread_moves_def dtor_check_def dtor_leave_def dtor_reset_def dtor_clear_def no_scopes_def
    blocked_start_def SetBlockGamepadInputToGame_def hid_start_def
  have move: "?R (Done (st, ths)) w" if "token \<in> {0x1000, 0x2000}"
    "m \<in> set (thread_moves 1 token st (ths token))" "w = map_outcome (\<lambda>(st', th). (st', ths(token := th))) m"
    for token m st ths w
    using that hid_step.move by metis
  have r1: "?R\<^sup>*\<^sup>* (Done (hid_start, no_scopes)) (Done (?s1, ?t1))"
  proof (rule converse_rtranclp_into_rtranclp)
    show "?R (Done (hid_start, no_scopes)) (Done (blocked_start, no_scopes))"
      unfolding blocked_start_def by (rule hid_step.block)
    show "?R\<^sup>*\<^sup>* (Done (blocked_start, no_scopes)) (Done (?s1, ?t1))"
      by (rule enter_scope) (simp_all add: defs)
  qed
  have r2: "?R (Done (?s1, ?t1)) (Done (?s1, ?t1(0x1000 := \<lparr>th_pc = Checked, th_nest = 1\<rparr>)))"
    by (rule move[where token = "0x1000" and m = "Done (?s1, \<lparr>th_pc = Checked, th_nest = 1\<rparr>)"]) (simp_all add: defs)
  have r3: "?R (Done (?s1, ?t1(0x1000 := \<lparr>th_pc = Checked, th_nest = 1\<rparr>))) (Done (?s2, ?t2))"
    by (rule move[where token = "0x1000" and m = "Done (?s2, \<lparr>th_pc = Left 1, th_nest = 1\<rparr>)"]) (simp_all add: defs)
  have r4: "?R\<^sup>*\<^sup>* (Done (?s2, ?t2)) (Done (?s3, ?t3))"
    by (rule enter_scope) (simp_all add: defs)
  have r5: "?R (Done (?s3, ?t3)) (Done (?s3\<lparr>g_hid_passthrough_depth := 0\<rparr>, ?t3(0x1000 := \<lparr>th_pc = Depth_Reset, th_nest = 1\<rparr>)))"
    by (rule move[where token = "0x1000" and m = "Done (?s3\<lparr>g_hid_passthrough_depth := 0\<rparr>, \<lparr>th_pc = Depth_Reset, th_nest = 1\<rparr>)"])
      (simp_all add: defs fun_upd_twist)
  have r6: "?R (Done (?s3\<lparr>g_hid_passthrough_depth := 0\<rparr>, ?t3(0x1000 := \<lparr>th_pc = Depth_Reset, th_nest = 1\<rparr>))) (Done (?s4, ?t4))"
    by (rule move[where token = "0x1000" and m = "Done (?s4, \<lparr>th_pc = Idle, th_nest = 0\<rparr>)"]) (simp_all add: defs fun_upd_twist)
  have chain: "?R\<^sup>*\<^sup>* w0 w6" if "?R\<^sup>*\<^sup>* w0 w1" "?R w1 w2" "?R w2 w3" "?R\<^sup>*\<^sup>* w3 w4" "?R w4 w5" "?R w5 w6" for w0 w1 w2 w3 w4 w5 w6
    using that by (meson rtranclp.rtrancl_into_rtrancl rtranclp_trans)
  have two: "?R\<^sup>*\<^sup>* w0 w2" if "?R w0 w1" "?R w1 w2" for w0 w1 w2
    using that by (meson converse_rtranclp_into_rtranclp r_into_rtranclp)
  note reach = chain[OF r1 r2 r3 r4 r5 r6]
  have c1: "?R (Done (?s4, ?t4)) (Done (?s4, ?t4(0x2000 := \<lparr>th_pc = Checked, th_nest = 1\<rparr>)))"
    by (rule move[where token = "0x2000" and m = "Done (?s4, \<lparr>th_pc = Checked, th_nest = 1\<rparr>)"]) (simp_all add: defs)
  have c2: "?R (Done (?s4, ?t4(0x2000 := \<lparr>th_pc = Checked, th_nest = 1\<rparr>))) (Aborted ''HID passthrough depth underflow on exit'')"
    by (rule move[where token = "0x2000" and m = "Aborted ''HID passthrough depth underflow on exit''"]) (simp_all add: defs)
  have crash: "?R\<^sup>*\<^sup>* (Done (?s4, ?t4)) (Aborted ''HID passthrough depth underflow on exit'')"
    by (rule two[OF c1 c2])
  have blocked: "GetGamepadBlockMode ?s4 0x2000 = Full_Block"
    by (simp add: GetGamepadBlockMode_def defs)
  show ?thesis
    using reach crash blocked by (intro exI[of _ ?s4] exI[of _ ?t4] conjI) (assumption | simp)+
qed



end
