(* ===== verification/Pubfiles.thy ===== *)
theory Pubfiles
  imports Hashes Config_Types
begin

text \<open>
  Published files (\<open>source/program/d3/hooks/season_events.hpp\<close> and the file and string helpers
  of \<open>source/program/d3/util.cpp\<close>): the cache of retrieved files on the SD card, the texts the
  mod puts in their place, and the three callbacks that combine them.  Blizzard strings are
  objects over a heap of blocks; the file functions of the game are parameters.
\<close>

section \<open>Paths\<close>

text \<open>The tail pointer moves past each separator; \<open>None\<close> is a null path.\<close>

fun filename_tail :: "string \<Rightarrow> string \<Rightarrow> string" where
  "filename_tail tail [] = tail"
| "filename_tail tail (c # it) = filename_tail (if c = CHR ''/'' \<or> c = CHR 0x5C then it else tail) it"

definition GetFilenameTail :: "string option \<Rightarrow> string option" where
  "GetFilenameTail path = map_option (\<lambda>p. filename_tail p p) path"

definition g_szBaseDir :: string where "g_szBaseDir = ''sd:/config/d3hack-nx''"
definition g_szPubfileCacheDir :: string where "g_szPubfileCacheDir = ''sd:/config/d3hack-nx/pubfiles''"

text \<open>\<open>out\<close> is the written buffer, empty when the path does not fit.\<close>

definition BuildPubfileCachePath :: "nat \<Rightarrow> string option \<Rightarrow> string option" where
  "BuildPubfileCachePath out_size filename =
     (if out_size = 0 then None
      else case filename of
        None \<Rightarrow> None
      | Some f \<Rightarrow>
          if f = [] then None
          else case GetFilenameTail (Some f) of
            None \<Rightarrow> None
          | Some tail \<Rightarrow>
              if tail = [] then None
              else
                let out = g_szPubfileCacheDir @ ''/'' @ tail; written = length out
                in if written = 0 \<or> out_size \<le> written then None else Some out)"

section \<open>Strings of the game\<close>

text \<open>Where \<open>m_elements\<close> points: nowhere, at \<open>m_storage\<close> of the object itself, or at a block.\<close>

datatype blz_ptr = Null_Ptr | Own_Storage | Block u64

record blz_string =
  m_elements :: blz_ptr
  m_size :: u64
  m_capacity :: u64
  m_capacity_is_embedded :: bool
  m_storage :: "u8 list"

definition mk_basic_string :: blz_string where
  "mk_basic_string = \<lparr>m_elements = Own_Storage, m_size = 0, m_capacity = 15, m_capacity_is_embedded = True,
     m_storage = replicate 16 0\<rparr>"

type_synonym heap = "u64 \<Rightarrow> u8 list option"

text \<open>
  \<open>SigmaMemoryNew(n, 0, nullptr, true)\<close>: \<open>new\<close> chooses the address, 0 for none; the block is
  cleared.  \<open>SigmaMemoryFree\<close> of a block.
\<close>

type_synonym sigma_allocator = "heap \<Rightarrow> u64 \<Rightarrow> u64"

definition SigmaMemoryNew :: "sigma_allocator \<Rightarrow> u64 \<Rightarrow> heap \<Rightarrow> u64 option \<times> heap" where
  "SigmaMemoryNew new n h =
     (let a = new h n in if a = 0 then (None, h) else (Some a, h(a := Some (replicate (unat n) 0))))"

definition SigmaMemoryFree :: "u64 \<Rightarrow> heap \<Rightarrow> heap" where
  "SigmaMemoryFree a h = h(a := None)"

text \<open>\<open>data\<close> holds the bytes behind the source pointer, \<open>None\<close> for a null pointer.\<close>

definition ReplaceBlzString :: "sigma_allocator \<Rightarrow> blz_string \<Rightarrow> u8 list option \<Rightarrow> u64 \<Rightarrow> heap \<Rightarrow> blz_string \<times> heap" where
  "ReplaceBlzString new dst data len h =
     (let h = (case m_elements dst of Block a \<Rightarrow> SigmaMemoryFree a h | _ \<Rightarrow> h) in
      case SigmaMemoryNew new (len + 1) h of
        (None, h) \<Rightarrow>
          (dst\<lparr>m_elements := Null_Ptr, m_size := 0, m_capacity := 0, m_capacity_is_embedded := False\<rparr>, h)
      | (Some buf, h) \<Rightarrow>
          let bs = (case h buf of Some bs \<Rightarrow> bs | None \<Rightarrow> []);
              bs = (case data of
                      Some d \<Rightarrow> if len \<noteq> 0 then take (unat len) d @ drop (unat len) bs else bs
                    | None \<Rightarrow> bs);
              bs = bs[unat len := 0]
          in (dst\<lparr>m_elements := Block buf, m_size := len, m_capacity := len, m_capacity_is_embedded := False\<rparr>,
              h(buf := Some bs)))"

definition ReplaceBlzString_c :: "sigma_allocator \<Rightarrow> blz_string \<Rightarrow> string option \<Rightarrow> heap \<Rightarrow> blz_string \<times> heap" where
  "ReplaceBlzString_c new dst data h =
     (let safe_data = bytes (case data of Some s \<Rightarrow> s | None \<Rightarrow> [])
      in ReplaceBlzString new dst (Some safe_data) (of_nat (length safe_data)) h)"

text \<open>The bytes behind \<open>m_elements\<close>.\<close>

definition blz_bytes :: "blz_string \<Rightarrow> heap \<Rightarrow> u8 list" where
  "blz_bytes s h =
     (case m_elements s of
        Block a \<Rightarrow> (case h a of Some bs \<Rightarrow> bs | None \<Rightarrow> [])
      | _ \<Rightarrow> m_storage s)"

section \<open>Texts\<close>

fun dec_digits :: "nat \<Rightarrow> string" where
  "dec_digits n = (if n < 10 then [char_of (48 + n)] else dec_digits (n div 10) @ [char_of (48 + n mod 10)])"

declare dec_digits.simps [simp del]

definition NL :: string where "NL = [CHR 0x0A]"
definition QT :: string where "QT = [CHR 0x22]"

definition BuildSeasonSwapString :: "u32 \<Rightarrow> string" where
  "BuildSeasonSwapString seasonNumber =
     ''# Format for dates MUST be: '' @ QT @ '' ? ? ? , DD MMM YYYY hh : mm:ss UTC'' @ QT @ NL
     @ ''# The Day of Month(DD) MUST be 2 - digit; use either preceding zero or trailing space'' @ NL
     @ ''[Season '' @ dec_digits (unat seasonNumber) @ '']'' @ NL
     @ ''Start '' @ QT @ ''Sat, 09 Feb 2025 00:00:00 GMT'' @ QT @ NL
     @ ''End '' @ QT @ ''Tue, 09 Feb 2036 01:00:00 GMT'' @ QT @ NL @ NL"

definition BoolToConfig :: "bool \<Rightarrow> string" where
  "BoolToConfig v = (if v then ''1'' else ''0'')"

definition AppendConfigLine :: "string \<Rightarrow> string \<Rightarrow> string \<Rightarrow> string" where
  "AppendConfigLine out key v = (((out @ key) @ '' '' @ QT) @ v) @ QT @ NL"

definition AppendConfigBool :: "string \<Rightarrow> string \<Rightarrow> bool \<Rightarrow> string" where
  "AppendConfigBool out key v = AppendConfigLine out key (BoolToConfig v)"

text \<open>The arguments of the calls that build the configuration text, in order.\<close>

definition config_lines :: "season_flags \<Rightarrow> (string \<times> (string + bool)) list" where
  "config_lines ev =
     [(''HeroPublishFrequencyMinutes'', Inl ''30''), (''EnableCrossPlatformSaveMigration'', Inl ''1''),
      (''SeasonalGlobalLeaderboardsEnabled'', Inl ''1''), (''EnableDiablo4Advertisement'', Inl ''1''),
      (''CommunityBuffStart'', Inl ''???, 16 Sep 2023 00:00:00 GMT''),
      (''CommunityBuffEnd'', Inl ''???, 01 Dec 2027 01:00:00 GMT''),
      (''CommunityBuffDoubleGoblins'', Inr (ev DoubleTreasureGoblins)),
      (''CommunityBuffDoubleBountyBags'', Inr (ev DoubleBountyBags)),
      (''CommunityBuffRoyalGrandeur'', Inr (ev RoyalGrandeur)),
      (''CommunityBuffLegacyOfNightmares'', Inr (ev LegacyOfNightmares)),
      (''CommunityBuffTriunesWill'', Inr (ev TriunesWill)), (''CommunityBuffPandemonium'', Inr (ev Pandemonium)),
      (''CommunityBuffKanaiPowers'', Inr (ev KanaiPowers)),
      (''CommunityBuffTrialsOfTempests'', Inr (ev TrialsOfTempests)), (''CommunityBuffSeasonOnly'', Inr False),
      (''CommunityBuffShadowClones'', Inr (ev ShadowClones)),
      (''CommunityBuffFourthKanaisCubeSlot'', Inr (ev FourthKanaisCubeSlot)),
      (''CommunityBuffEtherealItems'', Inr (ev EtherealItems)), (''CommunityBuffSoulShards'', Inr (ev SoulShards)),
      (''CommunityBuffSwarmRifts'', Inr (ev SwarmRifts)), (''CommunityBuffSanctifiedItems'', Inr (ev SanctifiedItems)),
      (''CommunityBuffDarkAlchemy'', Inr (ev DarkAlchemy)), (''CommunityBuffParagonCap'', Inr False),
      (''CommunityBuffNestingPortals'', Inr (ev NestingPortals)),
      (''CommunityBuffLegendaryFind'', Inl ''1337420666999.9''), (''CommunityBuffGoldFind'', Inl ''1337420666999.8''),
      (''CommunityBuffXP'', Inl ''1337420666999.7''), (''CommunityBuffEasterEggWorld'', Inr (ev EasterEggWorldEnabled)),
      (''CommunityBuffDoubleRiftKeystones'', Inr (ev DoubleRiftKeystones)),
      (''CommunityBuffDoubleBloodShards'', Inr (ev DoubleBloodShards)), (''UpdateVersion'', Inl ''1'')]"

definition BuildConfigSwapString :: "season_flags \<Rightarrow> string" where
  "BuildConfigSwapString ev =
     foldl (\<lambda>out (key, v). case v of Inl s \<Rightarrow> AppendConfigLine out key s | Inr b \<Rightarrow> AppendConfigBool out key b)
       [] (config_lines ev)"

definition kEmptyBlacklist :: string where
  "kEmptyBlacklist = ''# Blacklist overridden by d3hack'' @ NL @ ''[GBID]'' @ NL @ NL @ ''[SNO]'' @ NL"

section \<open>State\<close>

text \<open>
  The string objects: the one the game hands over, and the six static ones of the mod.  A
  shared pointer is its \<open>m_pointer\<close>; \<open>None\<close> outside is a null \<open>pszFileData\<close>.
\<close>

datatype string_ref =
    Given | Fallback_Config | Fallback_Seasons | Fallback_Blacklist | Cached_Config | Cached_Seasons | Cached_Blacklist

type_synonym file_data = "string_ref option option"

text \<open>
  The file functions of the game and \<open>nn::fs::CreateDirectory\<close>, on a state \<open>'w\<close> of the card.
  \<open>FileReadIntoMemory\<close> gives the contents, which it puts into a new block.
\<close>

record 'w file_api =
  api_CreateDirectory :: "string \<Rightarrow> 'w \<Rightarrow> 'w"
  api_FileCreate :: "string \<Rightarrow> 'w \<Rightarrow> 'w"
  api_FileOpen :: "string \<Rightarrow> u32 \<Rightarrow> 'w \<Rightarrow> bool \<times> 'w"
  api_FileWrite :: "string \<Rightarrow> u8 list \<Rightarrow> u32 \<Rightarrow> 'w \<Rightarrow> bool \<times> 'w"
  api_FileClose :: "string \<Rightarrow> 'w \<Rightarrow> 'w"
  api_FileExists :: "string \<Rightarrow> 'w \<Rightarrow> bool"
  api_FileReadIntoMemory :: "string \<Rightarrow> 'w \<Rightarrow> u8 list option"

text \<open>
  \<open>pb_local_frees\<close> counts the calls of \<open>SigmaMemoryFree\<close> with the address of a local
  variable, which is no block; the request flags are \<open>None\<close> behind a null pointer.
\<close>

record 'w pub =
  pb_heap :: heap
  pb_strings :: "string_ref \<Rightarrow> blz_string"
  pb_card :: 'w
  pb_local_frees :: nat
  pb_config_flag :: "u32 option"
  pb_seasons_flag :: "u8 option"
  pb_blacklist_flag :: "u8 option"

definition ClearConfigRequestFlag :: "'w pub \<Rightarrow> 'w pub" where
  "ClearConfigRequestFlag st = st\<lparr>pb_config_flag := map_option (\<lambda>_. 0) (pb_config_flag st)\<rparr>"

definition ClearSeasonsRequestFlag :: "'w pub \<Rightarrow> 'w pub" where
  "ClearSeasonsRequestFlag st = st\<lparr>pb_seasons_flag := map_option (\<lambda>_. 0) (pb_seasons_flag st)\<rparr>"

definition ClearBlacklistRequestFlag :: "'w pub \<Rightarrow> 'w pub" where
  "ClearBlacklistRequestFlag st = st\<lparr>pb_blacklist_flag := map_option (\<lambda>_. 0) (pb_blacklist_flag st)\<rparr>"

section \<open>Files\<close>

definition EnsurePubfileCacheDir :: "'w file_api \<Rightarrow> 'w pub \<Rightarrow> 'w pub" where
  "EnsurePubfileCacheDir api st =
     st\<lparr>pb_card := api_CreateDirectory api g_szPubfileCacheDir
          (api_CreateDirectory api g_szBaseDir (api_CreateDirectory api ''sd:/config'' (pb_card st)))\<rparr>"

definition write_file :: "'w file_api \<Rightarrow> string \<Rightarrow> u8 list \<Rightarrow> bool \<Rightarrow> 'w \<Rightarrow> bool \<times> 'w" where
  "write_file api szPath buf bSuccess w =
     (let (opened, w) = api_FileOpen api szPath 2 (api_FileCreate api szPath w)
      in if opened then
           (let (written, w) = api_FileWrite api szPath buf (- 1) w
            in (if written then True else bSuccess, api_FileClose api szPath w))
         else (bSuccess, w))"

definition WriteTestFile :: "'w file_api \<Rightarrow> string \<Rightarrow> u8 list \<Rightarrow> 'w pub \<Rightarrow> bool \<times> 'w pub" where
  "WriteTestFile api szPath buf st =
     (let (ok, w) = write_file api szPath buf False (pb_card st) in (ok, st\<lparr>pb_card := w\<rparr>))"

definition ReadFileToBuffer ::
  "'w file_api \<Rightarrow> sigma_allocator \<Rightarrow> string \<Rightarrow> 'w pub \<Rightarrow> (u64 \<times> u32) option \<times> 'w pub" where
  "ReadFileToBuffer api new szPath st =
     (if \<not> api_FileExists api szPath (pb_card st) then (None, st)
      else case api_FileReadIntoMemory api szPath (pb_card st) of
        None \<Rightarrow> (None, st)
      | Some bs \<Rightarrow>
          (case SigmaMemoryNew new (of_nat (length bs)) (pb_heap st) of
             (None, h) \<Rightarrow> (None, st)
           | (Some buf, h) \<Rightarrow> (Some (buf, of_nat (length bs)), st\<lparr>pb_heap := h(buf := Some bs)\<rparr>)))"

section \<open>Shared strings\<close>

definition EnsureSharedPtrData :: "file_data \<Rightarrow> string_ref \<Rightarrow> file_data" where
  "EnsureSharedPtrData pszFileData fallback =
     (case pszFileData of
        None \<Rightarrow> None
      | Some None \<Rightarrow> Some (Some fallback)
      | Some (Some r) \<Rightarrow> Some (Some r))"

text \<open>\<open>None\<close> is the result false; the output pointers are never null in the program.\<close>

definition GetBlzStringData :: "file_data \<Rightarrow> 'w pub \<Rightarrow> u8 list option" where
  "GetBlzStringData pszFileData st =
     (case pszFileData of
        Some (Some r) \<Rightarrow>
          (let str = pb_strings st r; size' = m_size str
           in if size' = 0 then None else Some (take (unat size') (blz_bytes str (pb_heap st))))
      | _ \<Rightarrow> None)"

definition HasPubfileData :: "file_data \<Rightarrow> 'w pub \<Rightarrow> bool" where
  "HasPubfileData pszFileData st \<longleftrightarrow> GetBlzStringData pszFileData st \<noteq> None"

definition CachePubfile :: "'w file_api \<Rightarrow> string \<Rightarrow> file_data \<Rightarrow> 'w pub \<Rightarrow> bool \<times> 'w pub" where
  "CachePubfile api cache_path pszFileData st =
     (case GetBlzStringData pszFileData st of
        None \<Rightarrow> (False, st)
      | Some data \<Rightarrow> WriteTestFile api cache_path data (EnsurePubfileCacheDir api st))"

text \<open>Replacing the contents of the object behind the shared pointer.\<close>

definition replace_at :: "(blz_string \<Rightarrow> heap \<Rightarrow> blz_string \<times> heap) \<Rightarrow> file_data \<Rightarrow> 'w pub \<Rightarrow> 'w pub" where
  "replace_at f pszFileData st =
     (case pszFileData of
        Some (Some r) \<Rightarrow>
          (let (str, h) = f (pb_strings st r) (pb_heap st)
           in st\<lparr>pb_strings := (pb_strings st)(r := str), pb_heap := h\<rparr>)
      | _ \<Rightarrow> st)"

text \<open>The buffer is to be released with \<open>SigmaMemoryFree(&buffer, nullptr)\<close>.\<close>

definition LoadCachedPubfile ::
  "'w file_api \<Rightarrow> sigma_allocator \<Rightarrow> string \<Rightarrow> file_data \<Rightarrow> string_ref \<Rightarrow> 'w pub \<Rightarrow> bool \<times> file_data \<times> 'w pub" where
  "LoadCachedPubfile api new cache_path pszFileData fallback st =
     (if pszFileData = None then (False, pszFileData, st)
      else case ReadFileToBuffer api new cache_path st of
        (None, st) \<Rightarrow> (False, pszFileData, st)
      | (Some (buffer, size'), st) \<Rightarrow>
          (let pszFileData = EnsureSharedPtrData pszFileData fallback;
               st = replace_at (\<lambda>str h. ReplaceBlzString new str (h buffer) (ucast size') h) pszFileData st;
               st = st\<lparr>pb_local_frees := pb_local_frees st + 1\<rparr>
           in (True, pszFileData, st)))"

definition OverrideConfigIfNeeded ::
  "PatchConfig \<Rightarrow> sigma_allocator \<Rightarrow> file_data \<Rightarrow> 'w pub \<Rightarrow> file_data \<times> 'w pub" where
  "OverrideConfigIfNeeded cfg new pszFileData st =
     (if pszFileData = None \<or> \<not> ev_active (events cfg) then (pszFileData, st)
      else
        let pszFileData = EnsureSharedPtrData pszFileData Fallback_Config;
            swap = BuildConfigSwapString (ev_flags (events cfg))
        in (pszFileData, replace_at (\<lambda>str. ReplaceBlzString_c new str (Some swap)) pszFileData st))"

text \<open>The season text is a string of the game itself: its contents and size are copied.\<close>

definition OverrideSeasonsIfNeeded ::
  "PatchConfig \<Rightarrow> sigma_allocator \<Rightarrow> file_data \<Rightarrow> 'w pub \<Rightarrow> file_data \<times> 'w pub" where
  "OverrideSeasonsIfNeeded cfg new pszFileData st =
     (if pszFileData = None \<or> \<not> sea_active (seasons cfg) then (pszFileData, st)
      else
        let pszFileData = EnsureSharedPtrData pszFileData Fallback_Seasons;
            swap = bytes (BuildSeasonSwapString (current_season (seasons cfg)))
        in (pszFileData, replace_at (\<lambda>str. ReplaceBlzString new str (Some swap) (of_nat (length swap))) pszFileData st))"

definition OverrideBlacklistIfNeeded :: "sigma_allocator \<Rightarrow> file_data \<Rightarrow> 'w pub \<Rightarrow> file_data \<times> 'w pub" where
  "OverrideBlacklistIfNeeded new pszFileData st =
     (if pszFileData = None then (pszFileData, st)
      else
        let pszFileData = EnsureSharedPtrData pszFileData Fallback_Blacklist
        in (pszFileData, replace_at (\<lambda>str. ReplaceBlzString_c new str (Some kEmptyBlacklist)) pszFileData st))"

section \<open>Callbacks\<close>

text \<open>What a callback does: it drops the request, or calls the hooked function.\<close>

datatype retrieved = Request_Cleared | Orig s32 file_data

definition k_config_cache_name :: string where "k_config_cache_name = ''config.txt''"
definition k_seasons_cache_fallback :: string where "k_seasons_cache_fallback = ''seasons_config.txt''"
definition k_blacklist_cache_fallback :: string where "k_blacklist_cache_fallback = ''blacklist_config.txt''"
definition k_cache_path_max :: nat where "k_cache_path_max = 512"

text \<open>The command line names the files, unless it is missing or its name is empty.\<close>

definition GetSeasonsConfigFilename :: "string option \<Rightarrow> string" where
  "GetSeasonsConfigFilename params = (case params of Some n \<Rightarrow> if n \<noteq> [] then n else k_seasons_cache_fallback | None \<Rightarrow> k_seasons_cache_fallback)"

definition GetBlacklistConfigFilename :: "string option \<Rightarrow> string" where
  "GetBlacklistConfigFilename params = (case params of Some n \<Rightarrow> if n \<noteq> [] then n else k_blacklist_cache_fallback | None \<Rightarrow> k_blacklist_cache_fallback)"

text \<open>The part the three callbacks share: cache what was retrieved, else use the cache.\<close>

definition through_cache ::
  "'w file_api \<Rightarrow> sigma_allocator \<Rightarrow> string option \<Rightarrow> string_ref \<Rightarrow> s32 \<Rightarrow> file_data \<Rightarrow> 'w pub \<Rightarrow> s32 \<times> file_data \<times> 'w pub" where
  "through_cache api new path fallback eResult pszFileData st =
     (let has_data = HasPubfileData pszFileData st;
          st = (case path of
                  Some cache_path \<Rightarrow>
                    if eResult = 0 \<or> has_data then snd (CachePubfile api cache_path pszFileData st) else st
                | None \<Rightarrow> st)
      in case path of
           Some cache_path \<Rightarrow>
             if eResult \<noteq> 0 \<or> \<not> has_data then
               (let (loaded, pszFileData, st) = LoadCachedPubfile api new cache_path pszFileData fallback st
                in (if loaded then 0 else eResult, pszFileData, st))
             else (eResult, pszFileData, st)
         | None \<Rightarrow> (eResult, pszFileData, st))"

definition ConfigFileRetrieved ::
  "'w file_api \<Rightarrow> sigma_allocator \<Rightarrow> PatchConfig \<Rightarrow> s32 \<Rightarrow> file_data \<Rightarrow> 'w pub \<Rightarrow> retrieved \<times> 'w pub" where
  "ConfigFileRetrieved api new cfg eResult pszFileData st =
     (if \<not> initialized cfg then (Request_Cleared, ClearConfigRequestFlag st)
      else
        let path = BuildPubfileCachePath k_cache_path_max (Some k_config_cache_name);
            (result, pszFileData, st) = through_cache api new path Cached_Config eResult pszFileData st
        in if ev_active (events cfg) then
             (let (pszFileData, st) = OverrideConfigIfNeeded cfg new pszFileData st in (Orig 0 pszFileData, st))
           else (Orig result pszFileData, st))"

definition SeasonsFileRetrieved ::
  "'w file_api \<Rightarrow> sigma_allocator \<Rightarrow> PatchConfig \<Rightarrow> string option \<Rightarrow> s32 \<Rightarrow> file_data \<Rightarrow> 'w pub \<Rightarrow> retrieved \<times> 'w pub" where
  "SeasonsFileRetrieved api new cfg params eResult pszFileData st =
     (if \<not> initialized cfg then (Request_Cleared, ClearSeasonsRequestFlag st)
      else
        let path = BuildPubfileCachePath k_cache_path_max (Some (GetSeasonsConfigFilename params));
            (result, pszFileData, st) = through_cache api new path Cached_Seasons eResult pszFileData st
        in if sea_active (seasons cfg) then
             (let (pszFileData, st) = OverrideSeasonsIfNeeded cfg new pszFileData st in (Orig 0 pszFileData, st))
           else (Orig result pszFileData, st))"

definition BlacklistFileRetrieved ::
  "'w file_api \<Rightarrow> sigma_allocator \<Rightarrow> PatchConfig \<Rightarrow> string option \<Rightarrow> s32 \<Rightarrow> file_data \<Rightarrow> 'w pub \<Rightarrow> retrieved \<times> 'w pub" where
  "BlacklistFileRetrieved api new cfg params eResult pszFileData st =
     (if \<not> initialized cfg then (Request_Cleared, ClearBlacklistRequestFlag st)
      else
        let path = BuildPubfileCachePath k_cache_path_max (Some (GetBlacklistConfigFilename params));
            (result, pszFileData, st) = through_cache api new path Cached_Blacklist eResult pszFileData st;
            (pszFileData, st) = OverrideBlacklistIfNeeded new pszFileData st
        in (Orig result pszFileData, st))"

text \<open>The mail box is reachable without a lobby while seasons are overridden.\<close>

definition MailboxCheckLobbyConnection :: "PatchConfig \<Rightarrow> bool \<Rightarrow> bool" where
  "MailboxCheckLobbyConnection cfg orig = (if initialized cfg \<and> sea_active (seasons cfg) then True else orig)"

section \<open>The cache path\<close>

lemma filename_tail_suffix:
  "(\<exists>d. path = d @ tail \<and> (d = [] \<or> last d = CHR ''/'' \<or> last d = CHR 0x5C)) \<Longrightarrow>
   \<exists>ps. tail = ps @ it \<and> CHR ''/'' \<notin> set ps \<and> CHR 0x5C \<notin> set ps \<Longrightarrow>
   \<exists>d. path = d @ filename_tail tail it \<and> (d = [] \<or> last d = CHR ''/'' \<or> last d = CHR 0x5C)
     \<and> CHR ''/'' \<notin> set (filename_tail tail it) \<and> CHR 0x5C \<notin> set (filename_tail tail it)"
proof (induction tail it rule: filename_tail.induct)
  case (2 tail c it)
  obtain d ps where d: "path = d @ tail" "d = [] \<or> last d = CHR ''/'' \<or> last d = CHR 0x5C"
    and ps: "tail = ps @ c # it" "CHR ''/'' \<notin> set ps" "CHR 0x5C \<notin> set ps" using "2.prems" by blast
  show ?case
  proof (cases "c = CHR ''/'' \<or> c = CHR 0x5C")
    case True
    have "\<exists>d. path = d @ it \<and> (d = [] \<or> last d = CHR ''/'' \<or> last d = CHR 0x5C)"
      using d ps True by (intro exI[of _ "d @ ps @ [c]"]) auto
    moreover have "\<exists>ps. it = ps @ it \<and> CHR ''/'' \<notin> set ps \<and> CHR 0x5C \<notin> set ps" by simp
    ultimately show ?thesis using "2.IH" True by simp
  next
    case False
    have "\<exists>qs. tail = qs @ it \<and> CHR ''/'' \<notin> set qs \<and> CHR 0x5C \<notin> set qs"
      using ps False by (intro exI[of _ "ps @ [c]"]) auto
    then show ?thesis using "2.IH" False d by auto
  qed
qed auto

lemma GetFilenameTail_spec:
  "\<exists>d. path = d @ filename_tail path path \<and> (d = [] \<or> last d = CHR ''/'' \<or> last d = CHR 0x5C)
     \<and> CHR ''/'' \<notin> set (filename_tail path path) \<and> CHR 0x5C \<notin> set (filename_tail path path)"
  by (rule filename_tail_suffix) auto

section \<open>Strings\<close>

text \<open>An allocator that gives a new block as long as fewer than \<open>k\<close> are in use.\<close>

definition sigma_ok :: "nat \<Rightarrow> sigma_allocator \<Rightarrow> bool" where
  "sigma_ok k new \<longleftrightarrow> (\<forall>h n. card (dom h) < k \<longrightarrow> new h n \<noteq> 0 \<and> h (new h n) = None)"

lemma card_dom_upd: "card (dom (h(a := v))) \<le> card (dom h) + 1" for h :: heap
  by (cases v) (auto simp: card_insert_if intro: le_trans[OF card_Diff1_le])

lemma card_dom_free: "card (dom (SigmaMemoryFree a h)) \<le> card (dom h)" for h :: heap
  by (auto simp: SigmaMemoryFree_def intro: card_mono)

lemma ReplaceBlzString_spec:
  assumes "sigma_ok k new" "unat len \<le> length d" "unat len < 2 ^ 64 - 1" "ReplaceBlzString new dst (Some d) len h = (s', h')"
    "card (dom h) < k"
  shows "m_size s' = len" "take (unat len) (blz_bytes s' h') = take (unat len) d"
    "m_elements dst \<noteq> Block b \<Longrightarrow> h b \<noteq> None \<Longrightarrow> h' b = h b \<and> m_elements s' \<noteq> Block b"
    "card (dom h') \<le> card (dom h) + 1"
proof -
  define h0 where "h0 = (case m_elements dst of Block a \<Rightarrow> SigmaMemoryFree a h | _ \<Rightarrow> h)"
  define a where "a = new h0 (len + 1)"
  have c: "card (dom h0) \<le> card (dom h)" using card_dom_free by (auto simp: h0_def split: blz_ptr.splits)
  then have a: "a \<noteq> 0" "h0 a = None" using assms(1,5) by (simp_all add: a_def sigma_ok_def)
  have l: "unat (len + 1) = unat len + 1" using assms(3) by (subst unat_add_lem[THEN iffD1]) simp_all
  let ?z = "replicate (unat len + 1) (0 :: u8)"
  have r: "(s', h') = (dst\<lparr>m_elements := Block a, m_size := len, m_capacity := len, m_capacity_is_embedded := False\<rparr>,
      (h0(a := Some ?z))(a := Some ((if len \<noteq> 0 then take (unat len) d @ drop (unat len) ?z else ?z)[unat len := 0])))"
    using assms(4) a l unfolding ReplaceBlzString_def h0_def[symmetric] SigmaMemoryNew_def a_def[symmetric] Let_def
    by (auto split: if_splits)
  then show "m_size s' = len" by simp
  have "h' = h0(a := h' a)" using r by auto
  then show "card (dom h') \<le> card (dom h) + 1" using card_dom_upd[of h0 a "h' a"] c by simp
  show "take (unat len) (blz_bytes s' h') = take (unat len) d"
    using r assms(2) by (auto simp: blz_bytes_def list_update_append)
  show "h' b = h b \<and> m_elements s' \<noteq> Block b" if "m_elements dst \<noteq> Block b" "h b \<noteq> None" for b
  proof -
    have "h0 b = h b" using that(1) by (auto simp: h0_def SigmaMemoryFree_def split: blz_ptr.splits)
    then show ?thesis using r a that(2) by auto
  qed
qed

lemma replaced_data:
  assumes "sigma_ok k new" "unat len \<le> length d" "unat len < 2 ^ 64 - 1" "0 < unat len" "card (dom (pb_heap st)) < k"
    "st' = replace_at (\<lambda>str h. ReplaceBlzString new str (Some d) len h) (Some (Some r)) st"
  shows "GetBlzStringData (Some (Some r)) st' = Some (take (unat len) d)"
    "pb_card st' = pb_card st" "pb_local_frees st' = pb_local_frees st"
    "m_elements (pb_strings st r) \<noteq> Block b \<Longrightarrow> pb_heap st b \<noteq> None \<Longrightarrow>
       pb_heap st' b = pb_heap st b \<and> m_elements (pb_strings st' r) \<noteq> Block b"
proof -
  obtain s' h' where r: "ReplaceBlzString new (pb_strings st r) (Some d) len (pb_heap st) = (s', h')"
    by (cases "ReplaceBlzString new (pb_strings st r) (Some d) len (pb_heap st)")
  note spec = ReplaceBlzString_spec[OF assms(1-3) r assms(5)]
  have "len \<noteq> 0" using assms(4) by auto
  then show "GetBlzStringData (Some (Some r)) st' = Some (take (unat len) d)"
    using spec(1,2) by (simp add: assms(6) replace_at_def r GetBlzStringData_def)
  show "pb_card st' = pb_card st" "pb_local_frees st' = pb_local_frees st"
    by (simp_all add: assms(6) replace_at_def r)
  show "m_elements (pb_strings st r) \<noteq> Block b \<Longrightarrow> pb_heap st b \<noteq> None \<Longrightarrow>
       pb_heap st' b = pb_heap st b \<and> m_elements (pb_strings st' r) \<noteq> Block b"
    using spec(3) by (simp add: assms(6) replace_at_def r)
qed

lemma unat_length:
  "length xs < 2 ^ 64 - 1 \<Longrightarrow> unat (of_nat (length xs) :: u64) = length xs"
  by (simp add: unat_of_nat take_bit_nat_eq_self)

lemma replaced_text:
  assumes "sigma_ok k new" "length d < 2 ^ 64 - 1" "d \<noteq> []" "card (dom (pb_heap st)) < k"
  shows "GetBlzStringData (Some (Some r))
      (replace_at (\<lambda>str. ReplaceBlzString new str (Some d) (of_nat (length d))) (Some (Some r)) st) = Some d"
  using replaced_data(1)[OF assms(1), of "of_nat (length d)" d st "replace_at _ _ st" r] assms(2,3,4)
  by (simp add: unat_length)

lemma ReplaceBlzString_c_some:
  "ReplaceBlzString_c new str (Some t) = ReplaceBlzString new str (Some (bytes t)) (of_nat (length (bytes t)))"
  by (simp add: fun_eq_iff ReplaceBlzString_c_def Let_def)

lemma GetBlzStringData_frees [simp]: "GetBlzStringData psz (st\<lparr>pb_local_frees := n\<rparr>) = GetBlzStringData psz st"
  by (simp add: GetBlzStringData_def Let_def split: option.splits)

lemma EnsureSharedPtrData_some:
  "psz \<noteq> None \<Longrightarrow> \<exists>r. EnsureSharedPtrData psz fb = Some (Some r)"
  by (cases psz; cases "the psz") (auto simp: EnsureSharedPtrData_def)

section \<open>Texts\<close>

definition config_line :: "string \<times> (string + bool) \<Rightarrow> string \<times> string" where
  "config_line kv = (fst kv, case snd kv of Inl s \<Rightarrow> s | Inr b \<Rightarrow> BoolToConfig b)"

lemma BuildConfigSwapString_concat:
  "BuildConfigSwapString ev = concat (map (\<lambda>(k, v). k @ '' '' @ QT @ v @ QT @ NL) (map config_line (config_lines ev)))"
proof -
  have "foldl (\<lambda>out (key, v). case v of Inl s \<Rightarrow> AppendConfigLine out key s | Inr b \<Rightarrow> AppendConfigBool out key b) out ls
      = out @ concat (map (\<lambda>(k, v). k @ '' '' @ QT @ v @ QT @ NL) (map config_line ls))" for out ls
    by (induction ls arbitrary: out)
      (auto simp: AppendConfigLine_def AppendConfigBool_def config_line_def split: sum.splits)
  from this[of "[]" "config_lines ev"] show ?thesis by (simp add: BuildConfigSwapString_def)
qed

lemma config_text_length: "length (BuildConfigSwapString ev) < 4096" "BuildConfigSwapString ev \<noteq> []"
  unfolding BuildConfigSwapString_concat
  by (simp_all add: config_lines_def config_line_def NL_def QT_def BoolToConfig_def)

lemma dec_digits_length: "length (dec_digits n) \<le> n + 1"
proof (induction n rule: dec_digits.induct)
  case (1 n)
  show ?case using 1 by (subst dec_digits.simps) auto
qed

lemma season_text_length: "length (BuildSeasonSwapString n) < 2 ^ 33" "BuildSeasonSwapString n \<noteq> []"
proof -
  have "unat n < 2 ^ 32" using unsigned_less[of n] by simp
  then show "length (BuildSeasonSwapString n) < 2 ^ 33"
    using dec_digits_length[of "unat n"] by (simp add: BuildSeasonSwapString_def NL_def QT_def)
  show "BuildSeasonSwapString n \<noteq> []" by (simp add: BuildSeasonSwapString_def)
qed

text \<open>Reading a text of lines \<open>key "value"\<close>.\<close>

fun lines_of :: "string \<Rightarrow> string \<Rightarrow> string list" where
  "lines_of acc [] = []"
| "lines_of acc (c # cs) = (if c = CHR 0x0A then rev acc # lines_of [] cs else lines_of (c # acc) cs)"

definition read_line :: "string \<Rightarrow> string \<times> string" where
  "read_line l = (takeWhile (\<lambda>c. c \<noteq> CHR 0x20) l, butlast (drop 2 (dropWhile (\<lambda>c. c \<noteq> CHR 0x20) l)))"

lemma lines_of_line: "CHR 0x0A \<notin> set l \<Longrightarrow> lines_of acc (l @ CHR 0x0A # rest) = (rev acc @ l) # lines_of [] rest"
  by (induction l arbitrary: acc) auto

lemma read_line_made:
  assumes "CHR 0x20 \<notin> set k"
  shows "read_line (k @ '' '' @ QT @ v @ QT) = (k, v)"
proof -
  have "takeWhile (\<lambda>c. c \<noteq> CHR 0x20) (k @ '' '' @ QT @ v @ QT) = k"
    "dropWhile (\<lambda>c. c \<noteq> CHR 0x20) (k @ '' '' @ QT @ v @ QT) = '' '' @ QT @ v @ QT"
    using assms by (auto simp: takeWhile_append dropWhile_append)
  then show ?thesis by (simp add: read_line_def QT_def butlast_append)
qed

definition plain_entry :: "string \<times> string \<Rightarrow> bool" where
  "plain_entry kv \<longleftrightarrow> CHR 0x20 \<notin> set (fst kv) \<and> CHR 0x0A \<notin> set (fst kv) \<and> CHR 0x0A \<notin> set (snd kv)"

lemma read_lines_made:
  "list_all plain_entry kvs \<Longrightarrow> map read_line (lines_of [] (concat (map (\<lambda>(k, v). k @ '' '' @ QT @ v @ QT @ NL) kvs))) = kvs"
proof (induction kvs)
  case (Cons kv kvs)
  obtain k v where kv: "kv = (k, v)" by (cases kv)
  have "CHR 0x0A \<notin> set (k @ '' '' @ QT @ v @ QT)" using Cons.prems kv by (simp add: plain_entry_def QT_def)
  from lines_of_line[OF this, of "[]"] show ?case
    using Cons kv read_line_made[of k v] by (simp add: plain_entry_def NL_def)
qed simp

section \<open>Callbacks\<close>

lemma through_cache_psz:
  assumes "through_cache api new path fb res psz st = (res', psz', st')"
  shows "psz \<noteq> None \<Longrightarrow> psz' \<noteq> None"
proof -
  assume "psz \<noteq> None"
  then obtain y r where p: "psz = Some y" and r: "EnsureSharedPtrData (Some y) fb = Some (Some r)"
    using EnsureSharedPtrData_some by blast
  show "psz' \<noteq> None"
    using assms unfolding p by (auto simp: through_cache_def LoadCachedPubfile_def Let_def r split: option.splits prod.splits if_splits)
qed

lemma replace_at_card:
  assumes "sigma_ok k new" "unat len \<le> length d" "unat len < 2 ^ 64 - 1" "card (dom (pb_heap st)) < k"
  shows "card (dom (pb_heap (replace_at (\<lambda>str h. ReplaceBlzString new str (Some d) len h) psz st))) \<le> card (dom (pb_heap st)) + 1"
  using ReplaceBlzString_spec(4)[OF assms(1-3) _ assms(4)]
  by (auto simp: replace_at_def split: option.splits prod.splits)

lemma ReadFileToBuffer_spec:
  assumes "ReadFileToBuffer api new path st = (x, st')"
  shows "card (dom (pb_heap st')) \<le> card (dom (pb_heap st)) + 1"
    "x = Some (b, n) \<Longrightarrow> \<exists>bs. pb_heap st' b = Some bs \<and> n = of_nat (length bs)"
  using assms
  by (auto simp: ReadFileToBuffer_def SigmaMemoryNew_def Let_def card_insert_if split: option.splits if_splits)

lemma size_in_u64: "unat (ucast (of_nat n :: u32) :: u64) \<le> n" "unat (ucast (of_nat n :: u32) :: u64) < 2 ^ 64 - 1"
proof -
  have e: "unat (ucast (of_nat n :: u32) :: u64) = n mod 2 ^ 32"
    by (simp add: unsigned_ucast_eq unat_of_nat take_bit_eq_mod mod_mod_cancel)
  then show "unat (ucast (of_nat n :: u32) :: u64) \<le> n" by simp
  have "n mod 2 ^ 32 < (2 ^ 32 :: nat)" by simp
  also have "\<dots> < 2 ^ 64 - 1" by simp
  finally show "unat (ucast (of_nat n :: u32) :: u64) < 2 ^ 64 - 1" unfolding e .
qed

lemma CachePubfile_heap [simp]: "pb_heap (snd (CachePubfile api path psz st)) = pb_heap st"
  by (auto simp: CachePubfile_def WriteTestFile_def EnsurePubfileCacheDir_def Let_def split: option.splits prod.splits)

lemma LoadCachedPubfile_card:
  assumes "sigma_ok k new" "card (dom (pb_heap st)) + 1 < k" "LoadCachedPubfile api new path psz fb st = (ok, psz', st')"
  shows "card (dom (pb_heap st')) \<le> card (dom (pb_heap st)) + 2"
proof (cases "psz = None")
  case False
  obtain x st1 where rd: "ReadFileToBuffer api new path st = (x, st1)" by (cases "ReadFileToBuffer api new path st")
  note spec = ReadFileToBuffer_spec[OF rd]
  show ?thesis
  proof (cases x)
    case None
    then show ?thesis using assms(3) False rd spec(1) by (simp add: LoadCachedPubfile_def)
  next
    case (Some bn)
    obtain b n where bn: "bn = (b, n)" by (cases bn)
    obtain bs where bs: "pb_heap st1 b = Some bs" "n = of_nat (length bs)" using spec(2)[of b n] Some bn by blast
    let ?psz = "EnsureSharedPtrData psz fb" and ?len = "ucast (of_nat (length bs) :: u32) :: u64"
    have eq: "replace_at (\<lambda>str h. ReplaceBlzString new str (h b) ?len h) ?psz st1
        = replace_at (\<lambda>str h. ReplaceBlzString new str (Some bs) ?len h) ?psz st1"
      using bs(1) by (simp add: replace_at_def split: option.splits)
    have "card (dom (pb_heap (replace_at (\<lambda>str h. ReplaceBlzString new str (Some bs) ?len h) ?psz st1))) \<le> card (dom (pb_heap st1)) + 1"
      using spec(1) assms(2) by (intro replace_at_card[OF assms(1) size_in_u64]) linarith
    then have "card (dom (pb_heap (replace_at (\<lambda>str h. ReplaceBlzString new str (h b) ?len h) ?psz st1))) \<le> card (dom (pb_heap st)) + 2"
      unfolding eq using spec(1) by linarith
    moreover have "st' = (replace_at (\<lambda>str h. ReplaceBlzString new str (h b) ?len h) ?psz st1)
        \<lparr>pb_local_frees := pb_local_frees (replace_at (\<lambda>str h. ReplaceBlzString new str (h b) ?len h) ?psz st1) + 1\<rparr>"
      using assms(3) False rd Some bn bs(2) by (auto simp: LoadCachedPubfile_def Let_def)
    ultimately show ?thesis by simp
  qed
qed (use assms(3) in \<open>simp add: LoadCachedPubfile_def\<close>)

lemma through_cache_card:
  assumes "sigma_ok k new" "card (dom (pb_heap st)) + 1 < k" "through_cache api new path fb res psz st = (res', psz', st')"
  shows "card (dom (pb_heap st')) \<le> card (dom (pb_heap st)) + 2"
proof -
  have load: "card (dom (pb_heap st2)) \<le> card (dom (pb_heap st)) + 2"
    if "LoadCachedPubfile api new p psz fb st1 = (ok, psz2, st2)" "pb_heap st1 = pb_heap st" for p st1 ok psz2 st2
    using LoadCachedPubfile_card[OF assms(1) _ that(1)] assms(2) that(2) by simp
  show ?thesis
    using assms(3) load by (auto simp: through_cache_def Let_def split: option.splits prod.splits if_splits)
qed

section \<open>Properties\<close>

text \<open>
  Cache files stay in the cache directory.  When a cache path is built it is the cache
  directory, a slash and the part of the given name after its last separator, which holds no
  separator itself and is not empty; it fits the buffer with its terminator.  It is not built
  exactly when the name is missing, ends with a separator, or makes the path too long.
\<close>

lemma cache_path_inside:
  "(BuildPubfileCachePath n (Some name) = Some out \<longleftrightarrow>
      (\<exists>d tail. name = d @ tail \<and> (d = [] \<or> last d = CHR ''/'' \<or> last d = CHR 0x5C)
         \<and> CHR ''/'' \<notin> set tail \<and> CHR 0x5C \<notin> set tail \<and> tail \<noteq> []
         \<and> out = g_szPubfileCacheDir @ ''/'' @ tail \<and> length out < n))
   \<and> BuildPubfileCachePath n None = None"
proof -
  let ?t = "filename_tail name name"
  obtain d where d: "name = d @ ?t" "d = [] \<or> last d = CHR ''/'' \<or> last d = CHR 0x5C" "CHR ''/'' \<notin> set ?t" "CHR 0x5C \<notin> set ?t"
    using GetFilenameTail_spec by blast
  have unique: "tail = ?t" if t: "name = e @ tail" "e = [] \<or> last e = CHR ''/'' \<or> last e = CHR 0x5C"
    "CHR ''/'' \<notin> set tail" "CHR 0x5C \<notin> set tail" for e tail
  proof -
    have "d @ ?t = e @ tail" using d(1) t(1) by simp
    then consider us where "d = e @ us" "us @ ?t = tail" | us where "e = d @ us" "?t = us @ tail"
      by (auto simp: append_eq_append_conv2)
    then show ?thesis
    proof cases
      case 1
      have "us = []" using d(2) 1 t(3,4) by (metis Un_iff append_is_Nil_conv last_appendR last_in_set set_append)
      then show ?thesis using 1 by simp
    next
      case 2
      have "us = []" using t(2) 2 d(3,4) by (metis Un_iff append_is_Nil_conv last_appendR last_in_set set_append)
      then show ?thesis using 2 by simp
    qed
  qed
  have "BuildPubfileCachePath n (Some name) = Some out \<longleftrightarrow>
      ?t \<noteq> [] \<and> out = g_szPubfileCacheDir @ ''/'' @ ?t \<and> length out < n"
    using d(1) by (auto simp: BuildPubfileCachePath_def GetFilenameTail_def Let_def split: if_splits)
  also have "\<dots> \<longleftrightarrow> (\<exists>d tail. name = d @ tail \<and> (d = [] \<or> last d = CHR ''/'' \<or> last d = CHR 0x5C)
         \<and> CHR ''/'' \<notin> set tail \<and> CHR 0x5C \<notin> set tail \<and> tail \<noteq> []
         \<and> out = g_szPubfileCacheDir @ ''/'' @ tail \<and> length out < n)"
    using d unique by metis
  finally show ?thesis by (simp add: BuildPubfileCachePath_def)
qed

text \<open>
  The configuration text says what is configured.  Read back line by line, the text that
  replaces the game's configuration file has the keys of the calls that build it, each once,
  and the value of each event is 1 exactly when the event is enabled.
\<close>

lemma config_text_entries:
  "map read_line (lines_of [] (BuildConfigSwapString ev)) = map config_line (config_lines ev)
   \<and> distinct (map fst (config_lines ev))
   \<and> list_all (\<lambda>(key, flag). map_of (map read_line (lines_of [] (BuildConfigSwapString ev))) key = Some (if ev flag then ''1'' else ''0''))
       [(''CommunityBuffDoubleGoblins'', DoubleTreasureGoblins), (''CommunityBuffDoubleBountyBags'', DoubleBountyBags),
        (''CommunityBuffRoyalGrandeur'', RoyalGrandeur), (''CommunityBuffLegacyOfNightmares'', LegacyOfNightmares),
        (''CommunityBuffTriunesWill'', TriunesWill), (''CommunityBuffPandemonium'', Pandemonium),
        (''CommunityBuffKanaiPowers'', KanaiPowers), (''CommunityBuffTrialsOfTempests'', TrialsOfTempests),
        (''CommunityBuffShadowClones'', ShadowClones), (''CommunityBuffFourthKanaisCubeSlot'', FourthKanaisCubeSlot),
        (''CommunityBuffEtherealItems'', EtherealItems), (''CommunityBuffSoulShards'', SoulShards),
        (''CommunityBuffSwarmRifts'', SwarmRifts), (''CommunityBuffSanctifiedItems'', SanctifiedItems),
        (''CommunityBuffDarkAlchemy'', DarkAlchemy), (''CommunityBuffNestingPortals'', NestingPortals),
        (''CommunityBuffEasterEggWorld'', EasterEggWorldEnabled), (''CommunityBuffDoubleRiftKeystones'', DoubleRiftKeystones),
        (''CommunityBuffDoubleBloodShards'', DoubleBloodShards)]"
proof -
  have "list_all plain_entry (map config_line (config_lines ev))"
    by (simp add: config_lines_def config_line_def plain_entry_def BoolToConfig_def)
  then have r: "map read_line (lines_of [] (BuildConfigSwapString ev)) = map config_line (config_lines ev)"
    unfolding BuildConfigSwapString_concat by (rule read_lines_made)
  show ?thesis
    unfolding r by (simp add: config_lines_def config_line_def BoolToConfig_def)
qed


text \<open>
  What the code expects of the card: a file that was created, opened for writing, written and
  closed exists and reads back as what was written.
\<close>

definition card_keeps :: "'w file_api \<Rightarrow> bool" where
  "card_keeps api \<longleftrightarrow>
     (\<forall>path data w. data \<noteq> [] \<longrightarrow>
        (let (ok, w') = write_file api path data False w
         in ok \<and> api_FileExists api path w' \<and> api_FileReadIntoMemory api path w' = Some data))"

lemma cached_config_path:
  "BuildPubfileCachePath k_cache_path_max (Some k_config_cache_name) = Some ''sd:/config/d3hack-nx/pubfiles/config.txt''"
  by (simp add: BuildPubfileCachePath_def GetFilenameTail_def k_cache_path_max_def k_config_cache_name_def g_szPubfileCacheDir_def)

lemma caches_retrieved:
  assumes "card_keeps api" "GetBlzStringData psz st = Some data" "data \<noteq> []"
  shows "api_FileExists api path (pb_card (snd (CachePubfile api path psz st)))"
    "api_FileReadIntoMemory api path (pb_card (snd (CachePubfile api path psz st))) = Some data"
  using assms(1)[unfolded card_keeps_def, rule_format, OF assms(3), of path "pb_card (EnsurePubfileCacheDir api st)"] assms(2)
  by (auto simp: CachePubfile_def WriteTestFile_def Let_def split: prod.splits)

lemma loads_cached:
  assumes "sigma_ok k new" "api_FileExists api path (pb_card st)" "api_FileReadIntoMemory api path (pb_card st) = Some data"
    "data \<noteq> []" "length data < 2 ^ 32" "psz \<noteq> None" "\<forall>r b. m_elements (pb_strings st r) = Block b \<longrightarrow> pb_heap st b \<noteq> None"
    "card (dom (pb_heap st)) + 1 < k"
  shows "\<exists>psz' st' buffer. LoadCachedPubfile api new path psz fb st = (True, psz', st')
     \<and> GetBlzStringData psz' st' = Some data \<and> pb_local_frees st' = pb_local_frees st + 1
     \<and> pb_heap st buffer = None \<and> pb_heap st' buffer = Some data
     \<and> (\<exists>r. psz' = Some (Some r) \<and> m_elements (pb_strings st' r) \<noteq> Block buffer)"
proof -
  define a where "a = new (pb_heap st) (of_nat (length data))"
  have a: "a \<noteq> 0" "pb_heap st a = None" using assms(1,8) by (simp_all add: a_def sigma_ok_def)
  define st1 where "st1 = st\<lparr>pb_heap := (pb_heap st)(a := Some data)\<rparr>"
  have rd: "ReadFileToBuffer api new path st = (Some (a, of_nat (length data)), st1)"
    using assms(2,3) a by (simp add: ReadFileToBuffer_def SigmaMemoryNew_def Let_def st1_def flip: a_def)
  have n: "unat (of_nat (length data) :: u32) = length data"
    using assms(5) by (simp add: unat_of_nat take_bit_nat_eq_self)
  have len: "unat (ucast (of_nat (length data) :: u32) :: u64) = length data"
    using n assms(5) by (simp add: unsigned_ucast_eq take_bit_nat_eq_self)
  obtain r where r: "EnsureSharedPtrData psz fb = Some (Some r)" using EnsureSharedPtrData_some[OF assms(6)] by blast
  let ?len = "ucast (of_nat (length data) :: u32) :: u64"
  define st2 where "st2 = replace_at (\<lambda>str h. ReplaceBlzString new str (h a) ?len h) (Some (Some r)) st1"
  have h: "replace_at (\<lambda>str h. ReplaceBlzString new str (h a) ?len h) (Some (Some r)) st1
      = replace_at (\<lambda>str h. ReplaceBlzString new str (Some data) ?len h) (Some (Some r)) st1"
    by (simp add: replace_at_def st1_def)
  have st2: "st2 = replace_at (\<lambda>str h. ReplaceBlzString new str (Some data) ?len h) (Some (Some r)) st1"
    by (simp only: st2_def h)
  have "card (dom (pb_heap st1)) < k" using card_dom_upd[of "pb_heap st" a "Some data"] assms(8) by (simp add: st1_def del: dom_fun_upd)
  note rep = replaced_data[OF assms(1), of ?len data, OF _ _ _ this st2]
  have "m_elements (pb_strings st1 r) \<noteq> Block a" using assms(7)[rule_format, of r a] a(2) by (auto simp: st1_def)
  then have keep: "pb_heap st2 a = Some data" "m_elements (pb_strings st2 r) \<noteq> Block a"
    using rep(4)[of a] len assms(4,5) by (auto simp: st1_def)
  have "LoadCachedPubfile api new path psz fb st = (True, Some (Some r), st2\<lparr>pb_local_frees := pb_local_frees st2 + 1\<rparr>)"
    using assms(6) by (simp add: LoadCachedPubfile_def rd r Let_def st2_def)
  moreover have "GetBlzStringData (Some (Some r)) st2 = Some data" "pb_local_frees st2 = pb_local_frees st"
    using rep(1,3) len assms(4,5) by (simp_all add: st1_def)
  ultimately show ?thesis using keep a(2)
    by (intro exI[of _ "Some (Some r)"] exI[of _ "st2\<lparr>pb_local_frees := pb_local_frees st2 + 1\<rparr>"] exI[of _ a])
      simp
qed


section \<open>A card in memory\<close>

definition mem_card :: "(string \<Rightarrow> u8 list option) file_api" where
  "mem_card = \<lparr>api_CreateDirectory = (\<lambda>p w. w), api_FileCreate = (\<lambda>p w. w(p := Some [])),
     api_FileOpen = (\<lambda>p m w. (w p \<noteq> None, w)), api_FileWrite = (\<lambda>p d off w. (True, w(p := Some d))),
     api_FileClose = (\<lambda>p w. w), api_FileExists = (\<lambda>p w. w p \<noteq> None), api_FileReadIntoMemory = (\<lambda>p w. w p)\<rparr>"

lemma mem_card_keeps: "card_keeps mem_card"
  by (simp add: card_keeps_def mem_card_def write_file_def Let_def)

text \<open>Four blocks at most.\<close>

definition four_blocks :: sigma_allocator where
  "four_blocks h n = (case find (\<lambda>a. h a = None) [0x1000, 0x2000, 0x3000, 0x4000] of Some a \<Rightarrow> a | None \<Rightarrow> 0)"

lemma four_blocks_ok: "sigma_ok 4 four_blocks"
  unfolding sigma_ok_def
proof (intro allI impI)
  fix h :: heap and n :: u64
  assume c: "card (dom h) < 4"
  have "\<not> {0x1000, 0x2000, 0x3000, 0x4000} \<subseteq> dom h"
    using c card_mono[of "dom h" "{0x1000, 0x2000, 0x3000, 0x4000}"] by auto
  then show "four_blocks h n \<noteq> 0 \<and> h (four_blocks h n) = None"
    by (auto simp: four_blocks_def)
qed

definition start_pub :: "(string \<Rightarrow> u8 list option) pub" where
  "start_pub = \<lparr>pb_heap = (\<lambda>a. None), pb_strings = (\<lambda>r. mk_basic_string), pb_card = (\<lambda>p. None), pb_local_frees = 0,
     pb_config_flag = Some 1, pb_seasons_flag = None, pb_blacklist_flag = None\<rparr>"

text \<open>A short file held in the storage of the object itself.\<close>

definition retrieved_pub :: "(string \<Rightarrow> u8 list option) pub" where
  "retrieved_pub = start_pub\<lparr>pb_strings := (\<lambda>r. mk_basic_string)(Given := mk_basic_string\<lparr>m_size := 2, m_storage := [7, 9, 0]\<rparr>)\<rparr>"

definition loaded_config :: PatchConfig where
  "loaded_config = default_PatchConfig\<lparr>initialized := True, events := default_events\<lparr>ev_active := True\<rparr>\<rparr>"



end
