(* ===== verification/Game_Log.thy ===== *)
theory Game_Log
  imports System_Buffer Pubfiles
begin

text \<open>
  The log of the mod (\<open>source/program/logging.cpp\<close>,
  \<open>source/program/loggers.hpp\<close>, \<open>source/lib/log/logger_mgr.hpp\<close>): the formatted
  line, the debug output, and the game log, whose lines are kept in a buffer of at most
  64 KiB until the game can take them.  The allocator of the buffer is the parameter of
  System_Buffer.  What \<open>vsnprintf\<close> would write without a bound is an input.
\<close>

section \<open>State\<close>

text \<open>
  \<open>lg_trace\<close>: \<open>TraceInternal_Log\<close> is bound; \<open>lg_stream_api\<close>: the three functions that
  configure the streams are; \<open>lg_em\<close>: \<open>ptEMGlobals\<close> is set, with the two flags of the
  error manager.  \<open>lg_alloc\<close>: the game has made its allocator.
\<close>

datatype KeyEventLevel = KeyEventLevel_Info | KeyEventLevel_Warning | KeyEventLevel_Error

datatype em_call =
    EnableLocalLogging bool
  | SetLogStreamDirectory string
  | SetLogStreamFilename nat string

record 'h log_state =
  lg_heap :: 'h
  lg_alloc :: bool
  s_game_log_buffer :: "buffer option"
  lg_trace :: bool
  lg_stream_api :: bool
  lg_em :: bool
  lg_handling_error :: bool
  lg_in_exception :: bool
  lg_game_lines :: "string list"
  lg_debug_lines :: "string list"
  lg_em_calls :: "em_call list"
  g_key_event_sink :: bool
  lg_key_events :: "(KeyEventLevel \<times> string) list"

definition NUL :: char where "NUL = CHR 0x00"
definition NEWLINE :: char where "NEWLINE = CHR 0x0A"

definition LogBufferSize :: nat where "LogBufferSize = 256"
definition kGameLogBufferMaxBytes :: nat where "kGameLogBufferMaxBytes = 64 * 1024"
definition kGameLogPrefix :: string where "kGameLogPrefix = '': ''"

definition kLogStreams :: "(nat \<times> string) list" where
  "kLogStreams =
     [(0, ''Debug.txt''), (1, ''Boot.txt''), (2, ''Sync.txt''), (3, ''Streaming.log''),
      (4, ''Battlenet.log''), (5, ''locks.log''), (6, ''Notifications.log''), (7, ''Trade.log''),
      (8, ''Leaderboard.log''), (9, ''RiftStats.log'')]"

section \<open>The game log\<close>

definition IsGameLogReady :: "'h log_state \<Rightarrow> bool" where
  "IsGameLogReady st \<longleftrightarrow> lg_trace st \<and> lg_em st"

definition GetGameLogBuffer :: "'h log_state \<Rightarrow> buffer option \<times> 'h log_state" where
  "GetGameLogBuffer st =
     (case s_game_log_buffer st of
        Some b \<Rightarrow> (Some b, st)
      | None \<Rightarrow>
          if \<not> lg_alloc st then (None, st)
          else (Some new_buffer, st\<lparr>s_game_log_buffer := Some new_buffer\<rparr>))"

definition ReleaseGameLogBuffer :: "'h allocator \<Rightarrow> 'h log_state \<Rightarrow> 'h log_state" where
  "ReleaseGameLogBuffer al st =
     (case s_game_log_buffer st of
        None \<Rightarrow> st
      | Some b \<Rightarrow> st\<lparr>lg_heap := destroy (Some al) (lg_heap st) b, s_game_log_buffer := None\<rparr>)"

text \<open>\<open>%.*s\<close> stops at a terminator.\<close>

definition trace_log :: "string \<Rightarrow> 'h log_state \<Rightarrow> 'h log_state" where
  "trace_log s st = st\<lparr>lg_game_lines := lg_game_lines st @ [s]\<rparr>"

definition percent_s :: "string \<Rightarrow> string" where "percent_s s = takeWhile (\<lambda>c. c \<noteq> NUL) s"

definition EmitGameLogLine :: "string \<Rightarrow> 'h log_state \<Rightarrow> 'h log_state" where
  "EmitGameLogLine line st = (if \<not> lg_trace st then st else trace_log (percent_s line) st)"

text \<open>The loop over the lines of the buffer: \<open>memchr\<close> from the cursor on.\<close>

function flush_lines :: "string \<Rightarrow> 'h log_state \<Rightarrow> 'h log_state" where
  "flush_lines s st =
     (if s = [] then st
      else case dropWhile (\<lambda>c. c \<noteq> NEWLINE) s of
        [] \<Rightarrow> EmitGameLogLine s st
      | _ # rest \<Rightarrow> flush_lines rest (EmitGameLogLine (takeWhile (\<lambda>c. c \<noteq> NEWLINE) s @ [NEWLINE]) st))"
  by pat_completeness auto
termination
proof (relation "measure (\<lambda>(s, st). length s)")
  fix s :: string and c rest
  assume "dropWhile (\<lambda>c. c \<noteq> NEWLINE) s = c # rest"
  then have "length (c # rest) \<le> length s" by (metis length_dropWhile_le)
  then show "((rest, EmitGameLogLine (takeWhile (\<lambda>c. c \<noteq> NEWLINE) s @ [NEWLINE]) st), (s, st))
      \<in> measure (\<lambda>(s, st). length s)" for st :: "'a log_state"
    by simp
qed simp

declare flush_lines.simps [simp del]

definition FlushGameLogBufferIfReady :: "'h allocator \<Rightarrow> 'h log_state \<Rightarrow> 'h log_state" where
  "FlushGameLogBufferIfReady al st =
     (case s_game_log_buffer st of
        None \<Rightarrow> st
      | Some b \<Rightarrow>
          if \<not> IsGameLogReady st \<or> bf_size b = 0 then st
          else ReleaseGameLogBuffer al (flush_lines (bf_view b) st))"

text \<open>A statement on the buffer: the results of the three appends are not used.\<close>

definition append_log :: "'h allocator \<Rightarrow> string \<Rightarrow> 'h \<times> buffer \<Rightarrow> 'h \<times> buffer" where
  "append_log al s hb = (case Append (Some al) (fst hb) (snd hb) s of (h, b, _) \<Rightarrow> (h, b))"

definition GameLogMaybeBuffered :: "'h allocator \<Rightarrow> string \<Rightarrow> 'h log_state \<Rightarrow> 'h log_state" where
  "GameLogMaybeBuffered al str st =
     (if str = [] then st
      else if IsGameLogReady st then trace_log ('': '' @ percent_s str @ [NEWLINE]) st
      else case GetGameLogBuffer st of
        (None, st) \<Rightarrow> st
      | (Some b, st) \<Rightarrow>
          if \<not> bf_ok b then st
          else if kGameLogBufferMaxBytes < bf_size b + (length kGameLogPrefix + length str + 1) then st
          else case append_log al [NEWLINE] (append_log al str (append_log al kGameLogPrefix (lg_heap st, b))) of
            (h, b) \<Rightarrow> st\<lparr>lg_heap := h, s_game_log_buffer := Some b\<rparr>)"

definition ConfigureGameFileLogging :: "'h allocator \<Rightarrow> 'h log_state \<Rightarrow> 'h log_state" where
  "ConfigureGameFileLogging al st =
     (if \<not> lg_stream_api st then st
      else FlushGameLogBufferIfReady al
        (st\<lparr>lg_em_calls := lg_em_calls st @ [EnableLocalLogging True, SetLogStreamDirectory g_szBaseDir]
              @ map (\<lambda>(stream, filename). SetLogStreamFilename stream filename) kLogStreams\<rparr>))"

section \<open>Printing\<close>

text \<open>
  \<open>VLog\<close>: what fits the buffer of \<open>LogBufferSize\<close> bytes; the loggers get it as a string
  view.  \<open>formatted\<close> is the text the format and its arguments stand for.
\<close>

definition VLog_text :: "string \<Rightarrow> string" where
  "VLog_text formatted = take (min (length formatted) (LogBufferSize - 1)) formatted"

definition LogV :: "string \<Rightarrow> 'h log_state \<Rightarrow> 'h log_state" where
  "LogV formatted st = st\<lparr>lg_debug_lines := lg_debug_lines st @ [VLog_text formatted]\<rparr>"

definition PrintV :: "'h allocator \<Rightarrow> string \<Rightarrow> 'h log_state \<Rightarrow> 'h log_state" where
  "PrintV al formatted st =
     (let skip_game_logging = lg_em st \<and> (lg_handling_error st \<or> lg_in_exception st);
          st = LogV formatted st
      in if skip_game_logging then st else GameLogMaybeBuffered al (VLog_text formatted) st)"

definition EmitKeyEvent :: "KeyEventLevel \<Rightarrow> string \<Rightarrow> 'h log_state \<Rightarrow> 'h log_state" where
  "EmitKeyEvent level msg st =
     (if g_key_event_sink st then st\<lparr>lg_key_events := lg_key_events st @ [(level, msg)]\<rparr> else st)"

definition KeyEventFmt :: "'h allocator \<Rightarrow> KeyEventLevel \<Rightarrow> string \<Rightarrow> 'h log_state \<Rightarrow> 'h log_state" where
  "KeyEventFmt al level formatted st =
     (let buf = percent_s (take 511 formatted) in EmitKeyEvent level buf (PrintV al buf st))"

definition SetKeyEventSink :: "bool \<Rightarrow> 'h log_state \<Rightarrow> 'h log_state" where
  "SetKeyEventSink sink st = st\<lparr>g_key_event_sink := sink\<rparr>"

section \<open>The buffered log\<close>

text \<open>The messages that are kept: in order, each while it fits beside those before.\<close>

definition log_entry :: "string \<Rightarrow> string" where
  "log_entry m = kGameLogPrefix @ m @ [NEWLINE]"

fun kept :: "nat \<Rightarrow> string list \<Rightarrow> string list" where
  "kept n [] = []"
| "kept n (m # ms) =
     (if m = [] \<or> kGameLogBufferMaxBytes < n + length (log_entry m) then kept n ms
      else m # kept (n + length (log_entry m)) ms)"

definition log_bytes :: "string list \<Rightarrow> nat" where
  "log_bytes ms = sum_list (map (length \<circ> log_entry) ms)"

lemma kept_all:
  "[] \<notin> set ms \<Longrightarrow> n + log_bytes ms \<le> kGameLogBufferMaxBytes \<Longrightarrow> kept n ms = ms"
  by (induction ms arbitrary: n) (auto simp: log_bytes_def)

lemma append_log_spec:
  assumes "allocator_laws al live" "buffer_inv (snd hb)" "append_log al s hb = hb'"
  shows "buffer_inv (snd hb')"
    "owns live others (fst hb) (snd hb) \<Longrightarrow> owns live others (fst hb') (snd hb')"
    "bf_ok (snd hb') \<Longrightarrow> bf_ok (snd hb) \<and> bf_view (snd hb') = bf_view (snd hb) @ s"
    "bf_size (snd hb') \<le> bf_size (snd hb) + length s"
proof -
  obtain h b r where A: "Append (Some al) (fst hb) (snd hb) s = (h, b, r)" by (metis prod_cases3)
  then have e: "hb' = (h, b)" using assms(3) by (simp add: append_log_def)
  note spec = Append_spec[OF assms(1,2) A]
  have len: "buffer_inv b' \<Longrightarrow> length (bf_view b') = bf_size b'" for b'
    by (simp add: buffer_inv_def bf_view_def)
  show "buffer_inv (snd hb')" using spec e by simp
  show "owns live others (fst hb') (snd hb')" if "owns live others (fst hb) (snd hb)"
    using spec[of others] e that by simp
  show "bf_ok (snd hb) \<and> bf_view (snd hb') = bf_view (snd hb) @ s" if "bf_ok (snd hb')"
    using spec e that by (cases r) auto
  show "bf_size (snd hb') \<le> bf_size (snd hb) + length s"
    using spec e len[of b] len[OF assms(2)] by (cases r) (auto simp flip: len)
qed

text \<open>
  \<open>log_inv\<close>: before the game takes the log, with \<open>ms\<close> kept so far: the buffer holds them
  unless it is marked as failed.
\<close>

definition log_inv :: "('h \<Rightarrow> u64 set) \<Rightarrow> u64 set \<Rightarrow> string list \<Rightarrow> 'h log_state \<Rightarrow> bool" where
  "log_inv live others ms st \<longleftrightarrow>
     (case s_game_log_buffer st of
        None \<Rightarrow> live (lg_heap st) = others \<and> ms = []
      | Some b \<Rightarrow> buffer_inv b \<and> owns live others (lg_heap st) b \<and> bf_size b \<le> kGameLogBufferMaxBytes
          \<and> (bf_ok b \<longrightarrow> bf_view b = concat (map log_entry ms)))"

lemma view_length: "buffer_inv b \<Longrightarrow> length (bf_view b) = bf_size b"
  by (simp add: buffer_inv_def bf_view_def)

lemma log_bytes_append [simp]: "log_bytes (ms @ ns) = log_bytes ms + log_bytes ns"
  by (simp add: log_bytes_def)

lemma length_log_entries: "length (concat (map log_entry ms)) = log_bytes ms"
  by (simp add: log_bytes_def length_concat o_def)

lemma append_entry:
  assumes laws: "allocator_laws al live" and inv: "buffer_inv b" "owns live others h b"
    and run: "append_log al [NEWLINE] (append_log al m (append_log al kGameLogPrefix (h, b))) = (h', b')"
  shows "buffer_inv b'" "owns live others h' b'" "bf_size b' \<le> bf_size b + length (log_entry m)"
    "bf_ok b' \<Longrightarrow> bf_ok b \<and> bf_view b' = bf_view b @ log_entry m"
proof -
  define hb1 where "hb1 = append_log al kGameLogPrefix (h, b)"
  define hb2 where "hb2 = append_log al m hb1"
  have run': "append_log al [NEWLINE] hb2 = (h', b')" using run by (simp add: hb1_def hb2_def)
  note s1 = append_log_spec[OF laws, of "(h, b)" kGameLogPrefix hb1]
  note s2 = append_log_spec[OF laws, of hb1 m hb2]
  note s3 = append_log_spec[OF laws, of hb2 "[NEWLINE]" "(h', b')"]
  have i1: "buffer_inv (snd hb1)" using s1(1) inv hb1_def by simp
  have i2: "buffer_inv (snd hb2)" using s2(1)[OF i1] hb2_def by simp
  show "buffer_inv b'" using s3(1)[OF i2 run'] by simp
  show "owns live others h' b'" using s1(2) s2(2) s3(2) inv i1 i2 hb1_def hb2_def run' by simp
  show "bf_size b' \<le> bf_size b + length (log_entry m)"
    using s1(4) s2(4)[OF i1] s3(4)[OF i2 run'] inv hb1_def hb2_def by (simp add: log_entry_def)
  show "bf_ok b \<and> bf_view b' = bf_view b @ log_entry m" if "bf_ok b'"
    using s1(3) s2(3)[OF i1] s3(3)[OF i2 run'] inv hb1_def hb2_def that by (simp add: log_entry_def)
qed

text \<open>One message printed before the game is ready.\<close>

definition keeps :: "string list \<Rightarrow> string \<Rightarrow> string list" where
  "keeps ms m = ms @ kept (log_bytes ms) [m]"

lemma GameLogMaybeBuffered_early:
  assumes laws: "allocator_laws al live" and "\<not> IsGameLogReady st" "lg_alloc st" "log_inv live others ms st"
  shows "log_inv live others (keeps ms m) (GameLogMaybeBuffered al m st)"
proof (cases "m = []")
  case True
  then show ?thesis using assms(4) by (simp add: GameLogMaybeBuffered_def keeps_def)
next
  case False
  define b where "b = (case s_game_log_buffer st of None \<Rightarrow> new_buffer | Some b \<Rightarrow> b)"
  define st1 where "st1 = st\<lparr>s_game_log_buffer := Some b\<rparr>"
  have get: "GetGameLogBuffer st = (Some b, st1)"
    using assms(3) by (cases "s_game_log_buffer st") (simp_all add: GetGameLogBuffer_def b_def st1_def)
  have b: "buffer_inv b" "owns live others (lg_heap st) b" "bf_size b \<le> kGameLogBufferMaxBytes"
    "bf_ok b \<Longrightarrow> bf_view b = concat (map log_entry ms)"
    using assms(4) new_buffer_ok
    by (auto simp: log_inv_def b_def kGameLogBufferMaxBytes_def new_buffer_def bf_view_def split: option.splits)
  have size_b: "bf_ok b \<Longrightarrow> bf_size b = log_bytes ms"
    using view_length[OF b(1)] b(4) length_log_entries[of ms] by simp
  have entry: "length (log_entry m) = length kGameLogPrefix + length m + 1" by (simp add: log_entry_def)
  obtain h' b' where run: "append_log al [NEWLINE] (append_log al m (append_log al kGameLogPrefix (lg_heap st, b))) = (h', b')"
    by fastforce
  note app = append_entry[OF laws b(1,2) run]
  consider (failed) "\<not> bf_ok b" | (full) "bf_ok b" "kGameLogBufferMaxBytes < bf_size b + length (log_entry m)"
    | (room) "bf_ok b" "bf_size b + length (log_entry m) \<le> kGameLogBufferMaxBytes" by linarith
  then show ?thesis
  proof cases
    case failed
    then show ?thesis using b False assms(2) by (simp add: GameLogMaybeBuffered_def get log_inv_def st1_def)
  next
    case full
    then have "GameLogMaybeBuffered al m st = st1" "keeps ms m = ms"
      using False assms(2) size_b entry by (simp_all add: GameLogMaybeBuffered_def get keeps_def)
    then show ?thesis using b by (simp add: log_inv_def st1_def)
  next
    case room
    then have "GameLogMaybeBuffered al m st = st1\<lparr>lg_heap := h', s_game_log_buffer := Some b'\<rparr>" "keeps ms m = ms @ [m]"
      using False assms(2) size_b entry run by (simp_all add: GameLogMaybeBuffered_def get keeps_def st1_def)
    then show ?thesis using app room b by (simp add: log_inv_def)
  qed
qed

text \<open>Printing early changes nothing else.\<close>

lemma PrintV_early_frame:
  assumes "\<not> lg_em st"
  shows "lg_game_lines (PrintV al t st) = lg_game_lines st" "lg_em (PrintV al t st) = lg_em st"
    "lg_trace (PrintV al t st) = lg_trace st" "lg_alloc (PrintV al t st) = lg_alloc st"
    "lg_stream_api (PrintV al t st) = lg_stream_api st" "lg_debug_lines (PrintV al t st) = lg_debug_lines st @ [VLog_text t]"
    "lg_handling_error (PrintV al t st) = lg_handling_error st" "lg_in_exception (PrintV al t st) = lg_in_exception st"
  using assms
  by (auto simp: PrintV_def LogV_def GameLogMaybeBuffered_def IsGameLogReady_def GetGameLogBuffer_def Let_def
      split: option.splits prod.splits)

lemma prints_early:
  assumes "allocator_laws al live" "\<not> lg_em st" "lg_alloc st" "log_inv live others ms st"
    and st': "st' = fold (PrintV al) ts st"
  shows "log_inv live others (ms @ kept (log_bytes ms) (map VLog_text ts)) st'"
    "lg_game_lines st' = lg_game_lines st" "\<not> lg_em st'" "lg_trace st' = lg_trace st"
    "lg_alloc st'" "lg_stream_api st' = lg_stream_api st"
    "lg_debug_lines st' = lg_debug_lines st @ map VLog_text ts"
    "lg_handling_error st' = lg_handling_error st" "lg_in_exception st' = lg_in_exception st"
proof -
  have all: "log_inv live others (ms @ kept (log_bytes ms) (map VLog_text ts)) (fold (PrintV al) ts st)
    \<and> lg_game_lines (fold (PrintV al) ts st) = lg_game_lines st \<and> \<not> lg_em (fold (PrintV al) ts st)
    \<and> lg_trace (fold (PrintV al) ts st) = lg_trace st \<and> lg_alloc (fold (PrintV al) ts st)
    \<and> lg_stream_api (fold (PrintV al) ts st) = lg_stream_api st
    \<and> lg_debug_lines (fold (PrintV al) ts st) = lg_debug_lines st @ map VLog_text ts
    \<and> lg_handling_error (fold (PrintV al) ts st) = lg_handling_error st
    \<and> lg_in_exception (fold (PrintV al) ts st) = lg_in_exception st"
    using assms(2-4)
  proof (induction ts arbitrary: st ms)
    case (Cons t ts)
    have "log_inv live others ms (LogV t st)" using Cons.prems(3) by (auto simp: log_inv_def LogV_def split: option.splits)
    then have "log_inv live others (keeps ms (VLog_text t)) (PrintV al t st)"
      using GameLogMaybeBuffered_early[OF assms(1), of "LogV t st" others ms "VLog_text t"] Cons.prems(1,2)
      by (simp add: PrintV_def IsGameLogReady_def LogV_def)
    moreover have "keeps ms (VLog_text t) @ kept (log_bytes (keeps ms (VLog_text t))) (map VLog_text ts)
        = ms @ kept (log_bytes ms) (map VLog_text (t # ts))"
      by (auto simp: keeps_def log_bytes_def)
    ultimately show ?case
      using Cons.IH[of "PrintV al t st" "keeps ms (VLog_text t)"] Cons.prems(1,2)
      by (simp add: PrintV_early_frame)
  qed simp
  then show "log_inv live others (ms @ kept (log_bytes ms) (map VLog_text ts)) st'"
    "lg_game_lines st' = lg_game_lines st" "\<not> lg_em st'" "lg_trace st' = lg_trace st"
    "lg_alloc st'" "lg_stream_api st' = lg_stream_api st"
    "lg_debug_lines st' = lg_debug_lines st @ map VLog_text ts"
    "lg_handling_error st' = lg_handling_error st" "lg_in_exception st' = lg_in_exception st"
    unfolding st' by blast+
qed


text \<open>Flushing: the lines of the buffer, each ending at its newline.\<close>

lemma flush_lines_frame:
  "lg_heap (flush_lines s st) = lg_heap st" "s_game_log_buffer (flush_lines s st) = s_game_log_buffer st"
  "lg_debug_lines (flush_lines s st) = lg_debug_lines st"
proof -
  have "lg_heap (flush_lines s st) = lg_heap st \<and> s_game_log_buffer (flush_lines s st) = s_game_log_buffer st
      \<and> lg_debug_lines (flush_lines s st) = lg_debug_lines st"
    by (induction s st rule: flush_lines.induct)
      (subst (1 2 3) flush_lines.simps, auto simp: EmitGameLogLine_def trace_log_def split: list.splits)
  then show "lg_heap (flush_lines s st) = lg_heap st" "s_game_log_buffer (flush_lines s st) = s_game_log_buffer st"
    "lg_debug_lines (flush_lines s st) = lg_debug_lines st" by blast+
qed

lemma percent_s_id: "NUL \<notin> set s \<Longrightarrow> percent_s s = s"
  by (auto simp: percent_s_def takeWhile_eq_all_conv)

definition one_line :: "string \<Rightarrow> bool" where
  "one_line s \<longleftrightarrow> s \<noteq> [] \<and> NEWLINE \<notin> set (butlast s)"

lemma flush_lines_text:
  assumes "lg_trace st" "NUL \<notin> set s"
  shows "\<exists>ls. lg_game_lines (flush_lines s st) = lg_game_lines st @ ls \<and> concat ls = s \<and> list_all one_line ls"
  using assms
proof (induction s st rule: flush_lines.induct)
  case (1 s st)
  show ?case
  proof (cases "s = []")
    case True
    then show ?thesis by (simp add: flush_lines.simps)
  next
    case False
    show ?thesis
    proof (cases "dropWhile (\<lambda>c. c \<noteq> NEWLINE) s")
      case Nil
      then have "NEWLINE \<notin> set s" by (auto simp: dropWhile_eq_Nil_conv)
      then have "one_line s" using False by (auto simp: one_line_def dest: in_set_butlastD)
      moreover have "flush_lines s st = EmitGameLogLine s st" 
        using False Nil by (simp add: flush_lines.simps[of s st] del: dropWhile_eq_Nil_conv)
      ultimately show ?thesis using 1(2,3)
        by (intro exI[of _ "[s]"]) (simp add: EmitGameLogLine_def trace_log_def percent_s_id)
    next
      case (Cons c rest)
      let ?line = "takeWhile (\<lambda>c. c \<noteq> NEWLINE) s @ [NEWLINE]"
      have c: "c = NEWLINE" using hd_dropWhile[of "\<lambda>c. c \<noteq> NEWLINE" s] Cons by simp
      then have s: "s = ?line @ rest" using takeWhile_dropWhile_id[of "\<lambda>c. c \<noteq> NEWLINE" s] Cons by simp
      have nul: "NUL \<notin> set ?line" "NUL \<notin> set rest" using 1(3) arg_cong[OF s, of set] by auto
      have "one_line ?line" by (auto simp: one_line_def butlast_append dest: set_takeWhileD)
      moreover have "lg_game_lines (EmitGameLogLine ?line st) = lg_game_lines st @ [?line]" "lg_trace (EmitGameLogLine ?line st)"
        using 1(2) nul(1) by (simp_all add: EmitGameLogLine_def trace_log_def percent_s_id)
      moreover obtain ls where "lg_game_lines (flush_lines rest (EmitGameLogLine ?line st))
          = lg_game_lines (EmitGameLogLine ?line st) @ ls" "concat ls = rest" "list_all one_line ls"
        using 1(1)[OF False Cons] calculation(3) nul(2) by blast
      moreover have "flush_lines s st = flush_lines rest (EmitGameLogLine ?line st)"
        using False Cons by (subst flush_lines.simps) simp
      ultimately show ?thesis using s by (intro exI[of _ "?line # ls"]) simp
    qed
  qed
qed

text \<open>Messages printed once the game is ready.\<close>

definition direct_lines :: "string list \<Rightarrow> string list" where
  "direct_lines ts = map (\<lambda>t. log_entry (percent_s (VLog_text t))) (filter (\<lambda>t. t \<noteq> []) ts)"

lemma VLog_text_Nil [simp]: "VLog_text t = [] \<longleftrightarrow> t = []"
  by (cases t) (simp_all add: VLog_text_def LogBufferSize_def)

lemma prints_ready:
  assumes "IsGameLogReady st" "\<not> lg_handling_error st" "\<not> lg_in_exception st"
  shows "fold (PrintV al) ts st
    = st\<lparr>lg_debug_lines := lg_debug_lines st @ map VLog_text ts, lg_game_lines := lg_game_lines st @ direct_lines ts\<rparr>"
  using assms
proof (induction ts arbitrary: st)
  case Nil
  then show ?case by (simp add: direct_lines_def)
next
  case (Cons t ts)
  define st1 where "st1 = PrintV al t st"
  have st1: "st1 = st\<lparr>lg_debug_lines := lg_debug_lines st @ [VLog_text t], lg_game_lines := lg_game_lines st @ direct_lines [t]\<rparr>"
    using Cons.prems
    by (simp add: st1_def PrintV_def LogV_def GameLogMaybeBuffered_def IsGameLogReady_def trace_log_def direct_lines_def
        log_entry_def kGameLogPrefix_def)
  then have "fold (PrintV al) ts st1
      = st1\<lparr>lg_debug_lines := lg_debug_lines st1 @ map VLog_text ts, lg_game_lines := lg_game_lines st1 @ direct_lines ts\<rparr>"
    using Cons.prems by (intro Cons.IH) (simp_all add: IsGameLogReady_def)
  then show ?case by (simp add: st1_def[symmetric]) (simp add: st1 direct_lines_def)
qed


section \<open>Properties\<close>


text \<open>The state of the mod before the game has started.\<close>

definition log_boot :: "(u64 list) log_state" where
  "log_boot = \<lparr>lg_heap = [], lg_alloc = True, s_game_log_buffer = None, lg_trace = True, lg_stream_api = True,
     lg_em = False, lg_handling_error = False, lg_in_exception = False, lg_game_lines = [], lg_debug_lines = [],
     lg_em_calls = [], g_key_event_sink = False, lg_key_events = []\<rparr>"

definition log_run :: "(u64 list) log_state" where
  "log_run = fold (PrintV bump) [''boot'', ''load''] log_boot"

lemma log_run_buffer: "\<exists>b. s_game_log_buffer log_run = Some b \<and> bf_ok b"
  by (simp add: log_run_def log_boot_def PrintV_def LogV_def GameLogMaybeBuffered_def IsGameLogReady_def
      GetGameLogBuffer_def VLog_text_def LogBufferSize_def kGameLogBufferMaxBytes_def kGameLogPrefix_def append_log_def
      Append_def Reserve_def grow_target_def new_buffer_def size_t_max_def bump_def Let_def)


end
