(* ===== verification/Challenge_Wire.thy ===== *)
theory Challenge_Wire
  imports Prelude
begin

text \<open>
  The reader of the protobuf wire format that recognises weekly challenge data
  (\<open>source/program/d3/hooks/debug.hpp\<close>: \<open>ReadVarint\<close>,
  \<open>ParseWeeklyChallengeTopLevel\<close>), and the format it reads, as an encoder.  A message is the
  list of its bytes; \<open>idx\<close> is the index the code keeps.
\<close>

section \<open>The reader\<close>

function ReadVarint_loop :: "u8 list \<Rightarrow> nat \<Rightarrow> nat \<Rightarrow> u64 \<Rightarrow> bool \<times> nat \<times> u64" where
  "ReadVarint_loop data idx shift out =
     (if idx < length data \<and> shift < 64 then
        let byte = data ! idx; idx = idx + 1; out = out OR push_bit shift (ucast (byte AND 0x7F))
        in if byte AND 0x80 = 0 then (True, idx, out) else ReadVarint_loop data idx (shift + 7) out
      else (False, idx, out))"
  by pat_completeness auto
termination by (relation "measure (\<lambda>(data, idx, shift, out). length data - idx)") auto

declare ReadVarint_loop.simps [simp del]

definition ReadVarint :: "u8 list \<Rightarrow> nat \<Rightarrow> bool \<times> nat \<times> u64" where
  "ReadVarint data idx = ReadVarint_loop data idx 0 0"

lemma ReadVarint_loop_advances:
  "ReadVarint_loop data idx shift out = (True, idx', v) \<Longrightarrow> idx < idx' \<and> idx' \<le> length data"
proof (induction data idx shift out rule: ReadVarint_loop.induct)
  case (1 data idx shift out)
  show ?case
  proof (cases "idx < length data \<and> shift < 64")
    case True
    note ih = 1(1)[OF True refl refl refl]
    show ?thesis using True 1(2) ih
      by (subst (asm) (1) ReadVarint_loop.simps) (auto simp: Let_def split: if_splits)
  next
    case False
    then show ?thesis using 1(2) by (subst (asm) ReadVarint_loop.simps) auto
  qed
qed

record weekly =
  has1 :: bool
  has2 :: bool
  has3 :: bool
  has4 :: bool
  f1 :: u32
  f2 :: u32
  f3 :: u32
  f4 :: u64

definition weekly_none :: weekly where
  "weekly_none = \<lparr>has1 = False, has2 = False, has3 = False, has4 = False, f1 = 0, f2 = 0, f3 = 0, f4 = 0\<rparr>"

definition varint_field :: "u32 \<Rightarrow> u64 \<Rightarrow> weekly \<Rightarrow> weekly" where
  "varint_field field v w = (if field = 4 then w\<lparr>f4 := v, has4 := True\<rparr> else w)"

definition bytes_field :: "u32 \<Rightarrow> u64 \<Rightarrow> weekly \<Rightarrow> weekly" where
  "bytes_field field len w =
     (if field = 1 then w\<lparr>f1 := ucast len, has1 := True\<rparr>
      else if field = 2 then w\<lparr>f2 := ucast len, has2 := True\<rparr>
      else if field = 3 then w\<lparr>f3 := ucast len, has3 := True\<rparr>
      else w)"

function weekly_loop :: "u8 list \<Rightarrow> nat \<Rightarrow> weekly \<Rightarrow> weekly" where
  "weekly_loop data idx w =
     (if length data \<le> idx then w
      else case ReadVarint data idx of
        (False, _, _) \<Rightarrow> w
      | (True, idx1, tag) \<Rightarrow>
          let field = ucast (drop_bit 3 tag) :: u32; wire = ucast (tag AND 7) :: u32
          in if wire = 0 then
               (case ReadVarint data idx1 of
                  (False, _, _) \<Rightarrow> w
                | (True, idx2, v) \<Rightarrow> weekly_loop data idx2 (varint_field field v w))
             else if wire = 2 then
               (case ReadVarint data idx1 of
                  (False, _, _) \<Rightarrow> w
                | (True, idx2, len) \<Rightarrow>
                    if of_nat (length data - idx2) < len then w
                    else weekly_loop data (idx2 + unat len) (bytes_field field len w))
             else w)"
  by pat_completeness auto
termination
  by (relation "measure (\<lambda>(data, idx, w). length data - idx)")
    (auto simp: ReadVarint_def dest!: ReadVarint_loop_advances sym[of "(True, _)"])

declare weekly_loop.simps [simp del]

text \<open>\<open>data\<close> is \<open>None\<close> for a null string or one without contents.\<close>

definition ParseWeeklyChallengeTopLevel :: "u8 list option \<Rightarrow> bool \<times> weekly" where
  "ParseWeeklyChallengeTopLevel data =
     (case data of
        None \<Rightarrow> (False, weekly_none)
      | Some bs \<Rightarrow>
          if bs = [] then (False, weekly_none)
          else let w = weekly_loop bs 0 weekly_none in (has1 w \<and> has2 w \<and> has3 w \<and> has4 w, w))"

section \<open>The format\<close>

fun varint :: "nat \<Rightarrow> u8 list" where
  "varint n = (if n < 128 then [of_nat n] else of_nat (128 + n mod 128) # varint (n div 128))"

declare varint.simps [simp del]

datatype wire_value = Varint u64 | Bytes "u8 list"

fun encode_field :: "nat \<times> wire_value \<Rightarrow> u8 list" where
  "encode_field (k, Varint v) = varint (8 * k) @ varint (unat v)"
| "encode_field (k, Bytes bs) = varint (8 * k + 2) @ varint (length bs) @ bs"

definition encode_message :: "(nat \<times> wire_value) list \<Rightarrow> u8 list" where
  "encode_message fs = concat (map encode_field fs)"

section \<open>Reading what was encoded\<close>

lemma bit_of_nat_word: "bit (of_nat n :: 'a::len word) k \<longleftrightarrow> k < LENGTH('a) \<and> bit n k"
  by transfer (simp add: bit_take_bit_iff bit_of_nat_iff)

lemma varint_byte:
  assumes "n < 256"
  shows "(of_nat n :: u8) AND 0x80 = 0 \<longleftrightarrow> n < 128"
    "(ucast ((of_nat n :: u8) AND 0x7F) :: u64) = of_nat (n mod 128)"
proof -
  have u: "unat (of_nat n :: u8) = n" using assms by (simp add: unat_of_nat)
  have "(of_nat n :: u8) AND 2 ^ 7 = 0 \<longleftrightarrow> \<not> bit (of_nat n :: u8) 7" by (rule and_exp_eq_0_iff_not_bit)
  also have "bit (of_nat n :: u8) 7 \<longleftrightarrow> bit n 7" by (simp add: bit_of_nat_word)
  also have "\<dots> \<longleftrightarrow> odd (n div 128)" by (simp add: bit_iff_odd)
  also have "\<dots> \<longleftrightarrow> \<not> n < 128"
  proof -
    have "n div 128 = 0 \<or> n div 128 = 1" using assms by arith
    then show ?thesis by (auto simp: div_eq_0_iff)
  qed
  finally show "(of_nat n :: u8) AND 0x80 = 0 \<longleftrightarrow> n < 128" by simp
  have "(of_nat n :: u8) AND 0x7F = take_bit 7 (of_nat n)" by (simp add: take_bit_eq_mask mask_eq_exp_minus_1)
  then have "unat ((of_nat n :: u8) AND 0x7F) = take_bit 7 (unat (of_nat n :: u8))"
    by (simp only: unsigned_take_bit_eq)
  then have "unat ((of_nat n :: u8) AND 0x7F) = n mod 128" by (simp only: u take_bit_eq_mod) simp
  then show "(ucast ((of_nat n :: u8) AND 0x7F) :: u64) = of_nat (n mod 128)"
    by (metis of_nat_unat)
qed

lemma push_bit_split:
  "push_bit s (of_nat n :: u64) = push_bit s (of_nat (n mod 128)) OR push_bit (s + 7) (of_nat (n div 128))"
proof (rule bit_word_eqI)
  fix k :: nat
  assume "k < LENGTH(64)"
  then have k: "k < 64" by simp
  have m: "bit (n mod 128) j \<longleftrightarrow> j < 7 \<and> bit n j" for j
    using bit_take_bit_iff[of 7 n j] by (simp add: take_bit_eq_mod)
  have d: "bit (n div 128) j \<longleftrightarrow> bit n (j + 7)" for j
    using bit_drop_bit_eq[of 7 n] by (simp add: drop_bit_eq_div fun_eq_iff add.commute)
  show "bit (push_bit s (of_nat n :: u64)) k
      = bit (push_bit s (of_nat (n mod 128)) OR push_bit (s + 7) (of_nat (n div 128)) :: u64) k"
  proof -
    have "\<not> k - s < 7 \<Longrightarrow> k - (s + 7) + 7 = k - s" by arith
    then show ?thesis using k by (cases "k - s < 7") (auto simp: bit_simps bit_of_nat_word m d not_less)
  qed
qed

lemma ReadVarint_loop_varint:
  assumes "data = pre @ varint n @ post" "s < 64" "n * 2 ^ s < 2 ^ 64"
  shows "ReadVarint_loop data (length pre) s out = (True, length pre + length (varint n), out OR push_bit s (of_nat n))"
  using assms
proof (induction n arbitrary: pre s out rule: varint.induct)
  case (1 n)
  show ?case
  proof (cases "n < 128")
    case True
    then have v: "varint n = [of_nat n]" by (simp add: varint.simps)
    have "n mod 128 = n" using True by simp
    moreover have "data ! length pre = of_nat n" "length pre < length data" by (simp_all add: 1(2) v)
    ultimately show ?thesis using 1(3) True varint_byte[of n]
      by (subst ReadVarint_loop.simps) (simp add: v)
  next
    case False
    let ?b = "of_nat (128 + n mod 128) :: u8"
    have v: "varint n = ?b # varint (n div 128)" using False by (simp add: varint.simps[of n])
    have b: "?b AND 0x80 \<noteq> 0" "(ucast (?b AND 0x7F) :: u64) = of_nat (n mod 128)"
      using varint_byte[of "128 + n mod 128"] by auto
    have "128 * 2 ^ s \<le> n * 2 ^ s" using False by (intro mult_le_mono1) simp
    then have "128 * 2 ^ s < (2 :: nat) ^ 64" using 1(4) by (rule le_less_trans)
    then have "(2 :: nat) ^ (s + 7) < 2 ^ 64" by (simp add: power_add)
    then have s: "s + 7 < 64" using power_less_imp_less_exp[of "2 :: nat" "s + 7" 64] by simp
    have "n div 128 * 128 \<le> n" by simp
    then have "n div 128 * 2 ^ (s + 7) \<le> n * 2 ^ s"
      by (simp add: power_add mult.commute mult.left_commute)
    then have n: "n div 128 * 2 ^ (s + 7) < 2 ^ 64" using 1(4) by linarith
    have "ReadVarint_loop data (length (pre @ [?b])) (s + 7) (out OR push_bit s (of_nat (n mod 128)))
        = (True, length (pre @ [?b]) + length (varint (n div 128)),
           (out OR push_bit s (of_nat (n mod 128))) OR push_bit (s + 7) (of_nat (n div 128)))"
      by (rule 1(1)[OF False _ s n]) (simp add: 1(2) v)
    moreover have "ReadVarint_loop data (length pre) s out
        = ReadVarint_loop data (length (pre @ [?b])) (s + 7) (out OR push_bit s (of_nat (n mod 128)))"
    proof -
      have "data ! length pre = ?b" "length pre < length data" by (simp_all add: 1(2) v)
      then show ?thesis using 1(3) b by (subst ReadVarint_loop.simps) simp
    qed
    ultimately show ?thesis by (simp add: v push_bit_split[of s n] or.assoc)
  qed
qed

lemma ReadVarint_varint:
  assumes "data = pre @ varint n @ post" "n < 2 ^ 64"
  shows "ReadVarint data (length pre) = (True, length pre + length (varint n), of_nat n)"
  using ReadVarint_loop_varint[OF assms(1), of 0 0] assms(2) by (simp add: ReadVarint_def)

lemma varint_nonempty: "varint n \<noteq> []"
  by (simp add: varint.simps)


lemma key_fields:
  assumes "k < 2 ^ 29" "t < 8"
  shows "(ucast (drop_bit 3 (of_nat (8 * k + t) :: u64)) :: u32) = of_nat k"
    "(ucast ((of_nat (8 * k + t) :: u64) AND 7) :: u32) = of_nat t"
proof -
  have u: "unat (of_nat (8 * k + t) :: u64) = 8 * k + t" using assms by (simp add: unat_of_nat del: of_nat_add of_nat_mult)
  have c: "(ucast x :: u32) = of_nat (unat x)" for x :: u64 by simp
  have "(ucast (drop_bit 3 (of_nat (8 * k + t) :: u64)) :: u32) = of_nat (drop_bit 3 (8 * k + t))"
    by (simp only: c unat_drop_bit_eq u)
  also have "drop_bit 3 (8 * k + t) = k" using assms by (simp add: drop_bit_eq_div)
  finally show "(ucast (drop_bit 3 (of_nat (8 * k + t) :: u64)) :: u32) = of_nat k" .
  have "(of_nat (8 * k + t) :: u64) AND 7 = take_bit 3 (of_nat (8 * k + t))"
    by (simp only: take_bit_eq_mask) (simp add: mask_eq_exp_minus_1)
  then have "(ucast ((of_nat (8 * k + t) :: u64) AND 7) :: u32) = of_nat (take_bit 3 (8 * k + t))"
    by (simp only: c unsigned_take_bit_eq u)
  also have "take_bit 3 (8 * k + t) = t" using assms by (simp add: take_bit_eq_mod)
  finally show "(ucast ((of_nat (8 * k + t) :: u64) AND 7) :: u32) = of_nat t" .
qed

section \<open>Properties\<close>

text \<open>What a message of fields says: the last occurrence of a field wins.\<close>

fun field_effect :: "nat \<times> wire_value \<Rightarrow> weekly \<Rightarrow> weekly" where
  "field_effect (k, Varint v) w = varint_field (of_nat k) v w"
| "field_effect (k, Bytes bs) w = bytes_field (of_nat k) (of_nat (length bs)) w"

definition sendable :: "nat \<times> wire_value \<Rightarrow> bool" where
  "sendable kv \<longleftrightarrow> fst kv < 2 ^ 29"

lemma weekly_loop_field:
  assumes "data = pre @ encode_field f @ post" "sendable f" "length data < 2 ^ 64"
  shows "weekly_loop data (length pre) w = weekly_loop data (length pre + length (encode_field f)) (field_effect f w)"
proof -
  obtain k v where f: "f = (k, v)" by (cases f)
  have k: "k < 2 ^ 29" using assms(2) f by (simp add: sendable_def)
  define t where "t = (case v of Varint _ \<Rightarrow> 0 | Bytes _ \<Rightarrow> (2 :: nat))"
  have t: "t < 8" by (simp add: t_def split: wire_value.splits)
  define key where "key = varint (8 * k + t)"
  define rest where "rest = (case v of Varint x \<Rightarrow> varint (unat x) | Bytes bs \<Rightarrow> varint (length bs) @ bs)"
  have enc: "encode_field f = key @ rest" by (simp add: f key_def rest_def t_def split: wire_value.splits)
  have L: "length (encode_field f) = length key + length rest" using enc by simp
  have tag: "ReadVarint data (length pre) = (True, length pre + length key, of_nat (8 * k + t))"
    using ReadVarint_varint[of data pre "8 * k + t" "rest @ post"] k t by (simp add: assms(1) enc key_def)
  have nonempty: "length pre < length data" using varint_nonempty by (simp add: assms(1) enc key_def)
  note kf = key_fields[OF k t]
  show ?thesis
  proof (cases v)
    case (Varint x)
    have val: "ReadVarint data (length pre + length key) = (True, length pre + length key + length rest, x)"
      using ReadVarint_varint[of data "pre @ key" "unat x" post] unsigned_less[of x, where ?'a = nat]
      by (simp add: assms(1) enc rest_def Varint)
    have "field_effect f w = varint_field (of_nat k) x w" by (simp add: f Varint)
    then show ?thesis using nonempty tag val kf
      by (subst weekly_loop.simps) (simp add: Varint L t_def Let_def add.assoc)
  next
    case (Bytes bs)
    have len: "length bs < 2 ^ 64" using assms(1,3) by (simp add: f Bytes)
    have val: "ReadVarint data (length pre + length key) = (True, length pre + length key + length (varint (length bs)), of_nat (length bs))"
      using ReadVarint_varint[of data "pre @ key" "length bs" "bs @ post"] len
      by (simp add: assms(1) enc rest_def Bytes)
    have u: "unat (of_nat (length bs) :: u64) = length bs" using len by (simp add: unat_of_nat)
    define left where "left = length data - (length pre + length key + length (varint (length bs)))"
    have "length bs \<le> left" by (simp add: left_def assms(1) enc rest_def Bytes)
    moreover have "left < 2 ^ 64" using assms(3) by (simp add: left_def)
    ultimately have "\<not> (of_nat left :: u64) < of_nat (length bs)" using len by (simp add: word_less_nat_alt unat_of_nat)
    moreover have "field_effect f w = bytes_field (of_nat k) (of_nat (length bs)) w" by (simp add: f Bytes)
    ultimately show ?thesis using nonempty tag val kf u
      by (subst weekly_loop.simps) (simp add: Bytes L rest_def t_def Let_def add.assoc left_def)
  qed
qed

lemma weekly_loop_message:
  assumes "data = pre @ encode_message fs" "list_all sendable fs" "length data < 2 ^ 64"
  shows "weekly_loop data (length pre) w = fold field_effect fs w"
  using assms
proof (induction fs arbitrary: pre w)
  case Nil
  then show ?case by (subst weekly_loop.simps) (simp add: encode_message_def)
next
  case (Cons f fs)
  have d: "data = pre @ encode_field f @ encode_message fs" "data = (pre @ encode_field f) @ encode_message fs"
    using Cons.prems(1) by (simp_all add: encode_message_def)
  have "weekly_loop data (length pre) w = weekly_loop data (length (pre @ encode_field f)) (field_effect f w)"
    using weekly_loop_field[OF d(1)] Cons.prems(2,3) by simp
  also have "\<dots> = fold field_effect fs (field_effect f w)"
    using Cons.IH[OF d(2)] Cons.prems(2,3) by simp
  finally show ?case by simp
qed


definition byte_fields :: "nat \<Rightarrow> (nat \<times> wire_value) list \<Rightarrow> u8 list list" where
  "byte_fields k fs = [bs. (j, Bytes bs) \<leftarrow> fs, j = k]"

definition varint_fields :: "nat \<Rightarrow> (nat \<times> wire_value) list \<Rightarrow> u64 list" where
  "varint_fields k fs = [v. (j, Varint v) \<leftarrow> fs, j = k]"

definition last_size :: "u8 list list \<Rightarrow> u32" where
  "last_size xs = (if xs = [] then 0 else of_nat (length (last xs)))"

lemma of_nat_key:
  assumes "k < 2 ^ 29" "c < 8"
  shows "(of_nat k :: u32) = of_nat c \<longleftrightarrow> k = c"
  using assms by (auto simp: word_unat_eq_iff unat_of_nat)

lemma field_effect_fold:
  assumes "list_all sendable fs"
  shows "fold field_effect fs weekly_none =
    \<lparr>has1 = byte_fields 1 fs \<noteq> [], has2 = byte_fields 2 fs \<noteq> [], has3 = byte_fields 3 fs \<noteq> [],
     has4 = varint_fields 4 fs \<noteq> [], f1 = last_size (byte_fields 1 fs), f2 = last_size (byte_fields 2 fs),
     f3 = last_size (byte_fields 3 fs), f4 = (if varint_fields 4 fs = [] then 0 else last (varint_fields 4 fs))\<rparr>"
  using assms
proof (induction fs rule: rev_induct)
  case Nil
  then show ?case by (simp add: weekly_none_def byte_fields_def varint_fields_def last_size_def)
next
  case (snoc f fs)
  obtain k v where f: "f = (k, v)" by (cases f)
  have k: "k < 2 ^ 29" using snoc.prems f by (simp add: sendable_def)
  note key = of_nat_key[OF k, of 1] of_nat_key[OF k, of 2] of_nat_key[OF k, of 3] of_nat_key[OF k, of 4]
  have size: "(ucast (of_nat n :: u64) :: u32) = of_nat n" for n
    by (rule bit_word_eqI) (auto simp: bit_unsigned_iff bit_of_nat_word)
  show ?case using snoc key
    by (cases v) (auto simp: f varint_field_def bytes_field_def byte_fields_def varint_fields_def last_size_def size)
qed

text \<open>
  C31: The reader understands the format.  On any encoded message shorter than 2^64 bytes with
  field numbers below 2^29 the parser answers yes exactly when the fields 1 to 3 occur as bytes
  and the field 4 as a varint, and gives the sizes of the last occurrences of the first three
  and the last value of the fourth, whatever other varint and byte fields surround them.
\<close>
theorem challenge_message_read:
  assumes "list_all sendable fs" "fs \<noteq> []" "length (encode_message fs) < 2 ^ 64"
  shows "ParseWeeklyChallengeTopLevel (Some (encode_message fs)) =
    (byte_fields 1 fs \<noteq> [] \<and> byte_fields 2 fs \<noteq> [] \<and> byte_fields 3 fs \<noteq> [] \<and> varint_fields 4 fs \<noteq> [],
     \<lparr>has1 = byte_fields 1 fs \<noteq> [], has2 = byte_fields 2 fs \<noteq> [], has3 = byte_fields 3 fs \<noteq> [],
      has4 = varint_fields 4 fs \<noteq> [], f1 = last_size (byte_fields 1 fs), f2 = last_size (byte_fields 2 fs),
      f3 = last_size (byte_fields 3 fs), f4 = (if varint_fields 4 fs = [] then 0 else last (varint_fields 4 fs))\<rparr>)"
proof -
  have "encode_message fs \<noteq> []"
    using assms(2) varint_nonempty by (cases fs; cases "hd fs"; cases "snd (hd fs)") (auto simp: encode_message_def)
  moreover have "weekly_loop (encode_message fs) 0 weekly_none = fold field_effect fs weekly_none"
    using weekly_loop_message[of "encode_message fs" "[]" fs weekly_none] assms by simp
  ultimately show ?thesis
    by (simp add: ParseWeeklyChallengeTopLevel_def field_effect_fold[OF assms(1)] Let_def)
qed

definition sample_fields :: "(nat \<times> wire_value) list" where
  "sample_fields = [(1, Bytes [7]), (9, Varint 300), (2, Bytes []), (3, Bytes [1, 2, 3]), (4, Varint 1000), (2, Bytes [5, 6])]"

theorem challenge_message_read_witness:
  "fst (ParseWeeklyChallengeTopLevel (Some (encode_message sample_fields)))
   \<and> f2 (snd (ParseWeeklyChallengeTopLevel (Some (encode_message sample_fields)))) = 2
   \<and> f4 (snd (ParseWeeklyChallengeTopLevel (Some (encode_message sample_fields)))) = 1000"
proof -
  have v: "varint n = (if n < 128 then [of_nat n] else of_nat (128 + n mod 128) # varint (n div 128))" for n
    by (simp add: varint.simps[of n])
  have "length (encode_message sample_fields) < 2 ^ 64"
    by (simp add: sample_fields_def encode_message_def v)
  then show ?thesis
    using challenge_message_read[of sample_fields]
    by (simp add: sample_fields_def sendable_def byte_fields_def varint_fields_def last_size_def)
qed

end
