(* ===== verification/Aligned_Alloc.thy ===== *)
theory Aligned_Alloc
  imports Prelude
begin

text \<open>
  \<open>malloc\<close>, \<open>aligned_alloc\<close>, \<open>calloc\<close> and \<open>free\<close> of the mod on the allocator of the game
  (\<open>source/program/nn_malloc.cpp\<close>).  A block of the game's allocator is over-allocated; the
  pointer given out is aligned inside it and the eight bytes before it hold the block's
  address.  Memory is a function on addresses, so the header really lies among the bytes of
  the block.  \<open>nn::mem::StandardAllocator\<close> is a parameter: where it puts a block, given those
  in use, or 0.
\<close>

section \<open>Memory and the game's allocator\<close>

record heap_state =
  hs_blocks :: "(u64 \<times> u64) list"
  hs_bytes :: "u64 \<Rightarrow> u8"

type_synonym standard_allocator = "(u64 \<times> u64) list \<Rightarrow> u64 \<Rightarrow> u64"

definition raw_Allocate :: "standard_allocator \<Rightarrow> u64 \<Rightarrow> heap_state \<Rightarrow> u64 \<times> heap_state" where
  "raw_Allocate pick n h =
     (let p = pick (hs_blocks h) n
      in if p = 0 then (0, h) else (p, h\<lparr>hs_blocks := (p, n) # hs_blocks h\<rparr>))"

definition raw_Free :: "u64 \<Rightarrow> heap_state \<Rightarrow> heap_state" where
  "raw_Free p h = h\<lparr>hs_blocks := filter (\<lambda>b. fst b \<noteq> p) (hs_blocks h)\<rparr>"

text \<open>A pointer in memory, least significant byte first.\<close>

definition ptr_byte :: "u64 \<Rightarrow> u64 \<Rightarrow> u8" where
  "ptr_byte v i = ucast (drop_bit (8 * unat i) v)"

definition store_ptr :: "u64 \<Rightarrow> u64 \<Rightarrow> (u64 \<Rightarrow> u8) \<Rightarrow> u64 \<Rightarrow> u8" where
  "store_ptr a v mem = (\<lambda>x. if x - a < 8 then ptr_byte v (x - a) else mem x)"

definition load_ptr :: "u64 \<Rightarrow> (u64 \<Rightarrow> u8) \<Rightarrow> u64" where
  "load_ptr a mem =
     fold (\<lambda>i v. v OR push_bit (8 * i) (ucast (mem (a + of_nat i)))) [0..<8] 0"

section \<open>The functions\<close>

definition kSystemMinAlign :: u64 where "kSystemMinAlign = 0x20"
definition header_size :: u64 where "header_size = 8"
definition max_size :: u64 where "max_size = - 1"

definition IsPowerOfTwo :: "u64 \<Rightarrow> bool" where
  "IsPowerOfTwo n \<longleftrightarrow> n \<noteq> 0 \<and> n AND (n - 1) = 0"

definition malloc_AlignUp :: "u64 \<Rightarrow> u64 \<Rightarrow> u64" where
  "malloc_AlignUp n alignment = (n + alignment - 1) AND NOT (alignment - 1)"

definition AllocateAligned ::
  "standard_allocator option \<Rightarrow> u64 \<Rightarrow> u64 \<Rightarrow> bool \<Rightarrow> heap_state \<Rightarrow> u64 \<times> heap_state" where
  "AllocateAligned al n alignment clear h =
     (case al of
        None \<Rightarrow> (0, h)
      | Some pick \<Rightarrow>
          if \<not> IsPowerOfTwo alignment \<or> alignment < 8 then (0, h)
          else if max_size - alignment - header_size < n then (0, h)
          else
            let total = n + alignment + header_size
            in case raw_Allocate pick total h of
                 (raw, h) \<Rightarrow>
                   if raw = 0 then (0, h)
                   else
                     let start = raw + header_size;
                         aligned = malloc_AlignUp start alignment;
                         h = h\<lparr>hs_bytes := store_ptr (aligned - header_size) raw (hs_bytes h)\<rparr>;
                         h = (if clear \<and> 0 < n
                              then h\<lparr>hs_bytes := (\<lambda>x. if x - aligned < n then 0 else hs_bytes h x)\<rparr> else h)
                     in (aligned, h))"

definition FreeAligned :: "standard_allocator option \<Rightarrow> u64 \<Rightarrow> heap_state \<Rightarrow> heap_state" where
  "FreeAligned al ptr h =
     (if al = None \<or> ptr = 0 then h else raw_Free (load_ptr (ptr - header_size) (hs_bytes h)) h)"

definition malloc :: "standard_allocator option \<Rightarrow> u64 \<Rightarrow> heap_state \<Rightarrow> u64 \<times> heap_state" where
  "malloc al n h = AllocateAligned al n kSystemMinAlign False h"

definition aligned_alloc :: "standard_allocator option \<Rightarrow> u64 \<Rightarrow> u64 \<Rightarrow> heap_state \<Rightarrow> u64 \<times> heap_state" where
  "aligned_alloc al alignment n h = (if alignment = 0 then (0, h) else AllocateAligned al n alignment False h)"

definition calloc :: "standard_allocator option \<Rightarrow> u64 \<Rightarrow> u64 \<Rightarrow> heap_state \<Rightarrow> u64 \<times> heap_state" where
  "calloc al cnt n h =
     (if cnt = 0 \<or> n = 0 then (0, h)
      else if max_size div n < cnt then (0, h)
      else AllocateAligned al (cnt * n) kSystemMinAlign True h)"

definition free :: "standard_allocator option \<Rightarrow> u64 \<Rightarrow> heap_state \<Rightarrow> heap_state" where
  "free al ptr h = FreeAligned al ptr h"

section \<open>Use of the heap\<close>

text \<open>
  A client calls the functions, frees what it holds, and writes into its objects; \<open>objects\<close>
  are the live pointers with their size and alignment.
\<close>

datatype heap_op = Malloc u64 | Aligned_Alloc u64 u64 | Calloc u64 u64 | Free_Op u64 | Write_Byte u64 u8

type_synonym objects = "(u64 \<times> u64 \<times> u64) list"

definition hold :: "u64 \<Rightarrow> u64 \<Rightarrow> u64 \<times> heap_state \<Rightarrow> objects \<Rightarrow> heap_state \<times> objects" where
  "hold n alignment r os = (snd r, if fst r = 0 then os else (fst r, n, alignment) # os)"

fun heap_op_ok :: "objects \<Rightarrow> heap_op \<Rightarrow> bool" where
  "heap_op_ok os (Free_Op p) = (p = 0 \<or> p \<in> fst ` set os)"
| "heap_op_ok os (Write_Byte x b) = list_ex (\<lambda>(p, n, a). x - p < n) os"
| "heap_op_ok os _ = True"

fun do_heap_op :: "standard_allocator option \<Rightarrow> heap_op \<Rightarrow> heap_state \<times> objects \<Rightarrow> heap_state \<times> objects" where
  "do_heap_op al (Malloc n) (h, os) = hold n kSystemMinAlign (malloc al n h) os"
| "do_heap_op al (Aligned_Alloc a n) (h, os) = hold n a (aligned_alloc al a n h) os"
| "do_heap_op al (Calloc c n) (h, os) = hold (c * n) kSystemMinAlign (calloc al c n h) os"
| "do_heap_op al (Free_Op p) (h, os) = (free al p h, filter (\<lambda>ob. fst ob \<noteq> p) os)"
| "do_heap_op al (Write_Byte x b) (h, os) = (h\<lparr>hs_bytes := (hs_bytes h)(x := b)\<rparr>, os)"

inductive heap_reachable :: "standard_allocator option \<Rightarrow> heap_state \<times> objects \<Rightarrow> bool" for al where
  start: "hs_blocks h = [] \<Longrightarrow> heap_reachable al (h, [])"
| step: "heap_reachable al (h, os) \<Longrightarrow> heap_op_ok os op \<Longrightarrow> heap_reachable al (do_heap_op al op (h, os))"

text \<open>
  What the game's allocator promises: a new block lies in the address space and apart from
  the blocks in use.
\<close>

definition apart :: "u64 \<Rightarrow> u64 \<Rightarrow> u64 \<Rightarrow> u64 \<Rightarrow> bool" where
  "apart p n q m \<longleftrightarrow> unat p + unat n \<le> unat q \<or> unat q + unat m \<le> unat p"

definition allocator_promise :: "standard_allocator \<Rightarrow> bool" where
  "allocator_promise pick \<longleftrightarrow>
     (\<forall>bs n. pick bs n \<noteq> 0 \<longrightarrow>
        unat (pick bs n) + unat n \<le> 2 ^ 64 \<and> (\<forall>(q, m) \<in> set bs. apart (pick bs n) n q m))"

section \<open>Powers of two\<close>

lemma power_of_two_nat: "0 < n \<Longrightarrow> n AND (n - 1) = 0 \<Longrightarrow> \<exists>k. (n :: nat) = 2 ^ k"
proof (induction n rule: less_induct)
  case (less n)
  show ?case
  proof (cases "even n")
    case True
    then obtain m where m: "n = 2 * m" by blast
    then have "0 < m" "m < n" using less.prems(1) by auto
    have "(2 * m) AND (2 * m - 1) = 2 * (m AND (m - 1))"
    proof -
      have "(2 * m - 1) div 2 = m - 1" using \<open>0 < m\<close> by arith
      then show ?thesis using and_nat_rec[of "2 * m" "2 * m - 1"] by simp
    qed
    then have "m AND (m - 1) = 0" using less.prems(2) m by simp
    then obtain k where "m = 2 ^ k" using less.IH[OF \<open>m < n\<close> \<open>0 < m\<close>] by blast
    then show ?thesis using m by (metis power_Suc)
  next
    case False
    then have "n AND (n - 1) = 2 * (n div 2 AND ((n - 1) div 2))" using and_nat_rec[of n "n - 1"] by auto
    moreover have "(n - 1) div 2 = n div 2" using False by (elim oddE) simp
    ultimately have "n div 2 = 0" using less.prems(2) by simp
    then have "n = 2 ^ 0" using less.prems(1) by simp
    then show ?thesis by blast
  qed
qed

lemma IsPowerOfTwo_cases:
  assumes "IsPowerOfTwo a"
  obtains k where "a = 2 ^ k" "k < 64" "unat a = 2 ^ k"
proof -
  have "a \<noteq> 0" "a AND (a - 1) = 0" using assms by (auto simp: IsPowerOfTwo_def)
  then have "unat a AND (unat a - 1) = 0" "0 < unat a"
    using unsigned_and_eq[of a "a - 1", where ?'a = nat] by (auto simp: unat_minus_one unat_gt_0)
  then obtain k where k: "unat a = 2 ^ k" using power_of_two_nat by blast
  moreover have "unat a < 2 ^ 64" using unsigned_less[of a, where ?'a = nat] by simp
  then have "k < 64" using k by (metis nat_power_less_imp_less zero_less_numeral)
  moreover have "unat (2 ^ k :: u64) = 2 ^ k"
  proof -
    have "(2 :: nat) ^ k < 2 ^ 64" using \<open>k < 64\<close> by (intro power_strict_increasing) simp_all
    then show ?thesis using unat_of_nat[of "2 ^ k", where ?'a = 64] by simp
  qed
  then have "a = 2 ^ k" using k by (simp add: word_unat_eq_iff)
  ultimately show ?thesis using that by blast
qed

lemma unat_AlignUp:
  assumes "IsPowerOfTwo a" "unat s + unat a \<le> 2 ^ 64"
  shows "unat a dvd unat (malloc_AlignUp s a)" "unat s \<le> unat (malloc_AlignUp s a)"
    "unat (malloc_AlignUp s a) < unat s + unat a"
proof -
  obtain k where k: "a = 2 ^ k" "k < 64" "unat a = 2 ^ k" using assms(1) by (rule IsPowerOfTwo_cases)
  have m: "a - 1 = mask k" using k by (simp add: mask_eq_decr_exp)
  define t where "t = s + a - 1"
  have t: "unat t = unat s + unat a - 1"
  proof -
    have "a \<noteq> 0" using assms(1) by (simp add: IsPowerOfTwo_def)
    then have "unat (a - 1) = unat a - 1" "0 < unat a" by (simp_all add: unat_minus_one unat_gt_0)
    moreover have "t = s + (a - 1)" by (simp add: t_def)
    ultimately show ?thesis using assms(2) by (simp add: unat_word_ariths)
  qed
  have "malloc_AlignUp s a = push_bit k (drop_bit k t)"
    unfolding malloc_AlignUp_def m t_def[symmetric] by (rule bit_word_eqI) (auto simp: bit_simps)
  then have "unat (malloc_AlignUp s a) = take_bit 64 (push_bit k (unat (drop_bit k t)))"
    by (simp only: unsigned_push_bit_eq) simp
  then have "unat (malloc_AlignUp s a) = take_bit 64 (unat t div 2 ^ k * 2 ^ k)"
    using k(1,3) by (simp add: push_bit_eq_mult drop_bit_eq_div unat_div_distrib)
  moreover have "unat t div 2 ^ k * 2 ^ k \<le> unat t" by simp
  moreover have "unat t < 2 ^ 64" using unsigned_less[of t, where ?'a = nat] by simp
  moreover have "x < 2 ^ 64 \<Longrightarrow> take_bit 64 x = x" for x :: nat by (rule take_bit_nat_eq_self)
  ultimately have e: "unat (malloc_AlignUp s a) = unat t div 2 ^ k * 2 ^ k"
    by (metis order_le_less_trans)
  then show "unat a dvd unat (malloc_AlignUp s a)" using k by simp
  have "unat t < unat t div 2 ^ k * 2 ^ k + 2 ^ k"
    by (metis div_mult_mod_eq mod_less_divisor nat_add_left_cancel_less zero_less_numeral zero_less_power)
  then show "unat s \<le> unat (malloc_AlignUp s a)" using e t k by linarith
  show "unat (malloc_AlignUp s a) < unat s + unat a"
  proof -
    have "0 < unat a" using k(3) by simp
    then have "unat t < unat s + unat a" using t by linarith
    then show ?thesis using e \<open>unat t div 2 ^ k * 2 ^ k \<le> unat t\<close> by linarith
  qed
qed


section \<open>Headers\<close>

lemma load_ptr_cong:
  assumes "\<And>i. i < 8 \<Longrightarrow> mem' (a + of_nat i) = mem (a + of_nat i)"
  shows "load_ptr a mem' = load_ptr a mem"
  unfolding load_ptr_def by (rule fold_cong) (simp_all add: assms)

lemma bit_fold_or:
  "bit (fold (\<lambda>i w. w OR f i) xs (0 :: u64)) n \<longleftrightarrow> (\<exists>i \<in> set xs. bit (f i) n)"
proof -
  have "bit (fold (\<lambda>i w. w OR f i) xs z) n \<longleftrightarrow> bit z n \<or> (\<exists>i \<in> set xs. bit (f i) n)" for z :: u64
    by (induction xs arbitrary: z) (auto simp: bit_or_iff)
  then show ?thesis by simp
qed

lemma load_store_ptr: "load_ptr a (store_ptr a v mem) = v"
proof -
  have "load_ptr a (store_ptr a v mem)
      = fold (\<lambda>i w. w OR push_bit (8 * i) (ucast (ptr_byte v (of_nat i)))) [0..<8] 0"
    unfolding load_ptr_def by (rule fold_cong) (auto simp: store_ptr_def word_less_nat_alt unat_of_nat)
  also have "\<dots> = v"
  proof (rule bit_word_eqI)
    fix n :: nat
    assume "n < LENGTH(64)"
    then have n: "n < 64" by simp
    have "bit (push_bit (8 * i) (ucast (ptr_byte v (of_nat i))) :: u64) n \<longleftrightarrow> i = n div 8 \<and> bit v n"
      if "i < 8" for i
    proof -
      have "8 * unat (of_nat i :: u64) = 8 * i" using that by (simp add: unat_of_nat)
      then show ?thesis using n by (auto simp: ptr_byte_def bit_simps)
    qed
    then show "bit (fold (\<lambda>i w. w OR push_bit (8 * i) (ucast (ptr_byte v (of_nat i)))) [0..<8] (0 :: u64)) n = bit v n"
      unfolding bit_fold_or using n by (auto simp: div_less_iff_less_mult)
  qed
  finally show ?thesis .
qed

definition block_of :: "heap_state \<Rightarrow> u64 \<Rightarrow> u64" where
  "block_of h p = load_ptr (p - header_size) (hs_bytes h)"

lemma header_address:
  assumes "8 \<le> unat (p :: u64)" "i < 8"
  shows "unat (p - header_size + of_nat i) = unat p - 8 + i"
proof -
  have "unat (p - header_size) = unat p - 8" using assms(1) by (simp add: header_size_def unat_sub_if')
  moreover have "unat (of_nat i :: u64) = i" using assms(2) by (simp add: unat_of_nat)
  moreover have "unat p < 2 ^ 64" using unsigned_less[of p, where ?'a = nat] by simp
  ultimately show ?thesis using assms by (simp add: unat_plus_if')
qed

text \<open>Membership in an object, as the code tests it and as an interval.\<close>

lemma in_object:
  assumes "unat (p :: u64) + unat n \<le> 2 ^ 64"
  shows "x - p < n \<longleftrightarrow> unat p \<le> unat x \<and> unat x < unat p + unat n"
proof -
  have "unat p < 2 ^ 64" "unat x < 2 ^ 64" "unat n < 2 ^ 64"
    using unsigned_less[of p, where ?'a = nat] unsigned_less[of x, where ?'a = nat]
      unsigned_less[of n, where ?'a = nat] by simp_all
  then show ?thesis using assms by (auto simp: word_less_nat_alt unat_sub_if')
qed

section \<open>Invariant\<close>

text \<open>An object in its block: the header names the block, and both lie inside it.\<close>

definition fits :: "heap_state \<Rightarrow> u64 \<times> u64 \<times> u64 \<Rightarrow> u64 \<times> u64 \<Rightarrow> bool" where
  "fits h ob b =
     (case (ob, b) of ((p, n, a), (r, m)) \<Rightarrow>
        block_of h p = r \<and> r \<noteq> 0 \<and> unat r + 8 \<le> unat p \<and> unat p + unat n \<le> unat r + unat m
      \<and> unat r + unat m \<le> 2 ^ 64 \<and> unat a dvd unat p)"

definition heap_inv :: "heap_state \<Rightarrow> objects \<Rightarrow> bool" where
  "heap_inv h os \<longleftrightarrow>
     list_all2 (fits h) os (hs_blocks h) \<and> sorted_wrt (\<lambda>(r, m) (q, l). apart r m q l) (hs_blocks h)"

lemma fits_blocks [simp]: "fits (h\<lparr>hs_blocks := bs\<rparr>) = fits h"
  by (simp add: fun_eq_iff fits_def block_of_def)

lemma fits_frame:
  assumes "fits h (p, n, a) b"
    and "\<And>x. unat p - 8 \<le> unat x \<Longrightarrow> unat x < unat p \<Longrightarrow> hs_bytes h' x = hs_bytes h x"
  shows "fits h' (p, n, a) b"
proof -
  have "8 \<le> unat p" using assms(1) by (auto simp: fits_def split: prod.splits)
  then have "block_of h' p = block_of h p"
    unfolding block_of_def by (intro load_ptr_cong assms(2)) (simp_all add: header_address)
  then show ?thesis using assms(1) by (simp add: fits_def split: prod.splits)
qed

lemma filter_both:
  "list_all2 P xs ys \<Longrightarrow> (\<And>x y. (x, y) \<in> set (zip xs ys) \<Longrightarrow> f x = g y) \<Longrightarrow>
     list_all2 P (filter f xs) (filter g ys)"
  by (induction xs ys rule: list_all2_induct) auto

lemma sorted_wrt_filter_apart:
  "sorted_wrt P xs \<Longrightarrow> sorted_wrt P (filter f xs)"
  by (rule sorted_wrt_filter)

text \<open>Two different objects have different blocks, which are apart.\<close>

lemma objects_apart:
  assumes "heap_inv h os" "i < length os" "j < length os" "i \<noteq> j"
  shows "apart (fst (hs_blocks h ! i)) (snd (hs_blocks h ! i)) (fst (hs_blocks h ! j)) (snd (hs_blocks h ! j))"
proof -
  have l: "length os = length (hs_blocks h)" using assms(1) by (auto simp: heap_inv_def dest: list_all2_lengthD)
  have "sorted_wrt (\<lambda>(r, m) (q, l). apart r m q l) (hs_blocks h)" using assms(1) by (simp add: heap_inv_def)
  then have s: "apart (fst (hs_blocks h ! i)) (snd (hs_blocks h ! i)) (fst (hs_blocks h ! j)) (snd (hs_blocks h ! j))"
    if "i < j" "j < length (hs_blocks h)" for i j
    using that by (auto simp: sorted_wrt_iff_nth_less case_prod_beta)
  show ?thesis
  proof (cases "i < j")
    case True
    then show ?thesis using s[of i j] assms(3) l by simp
  next
    case False
    then have "j < i" using assms(4) by simp
    then show ?thesis using s[of j i] assms(2) l by (auto simp: apart_def)
  qed
qed

lemma fits_at:
  assumes "heap_inv h os" "i < length os"
  shows "fits h (os ! i) (hs_blocks h ! i)"
  using assms by (auto simp: heap_inv_def list_all2_conv_all_nth)


lemma objects_from_header_on:
  assumes "heap_inv h os" "i < length os" "j < length os" "i \<noteq> j"
    and "os ! i = (p, n, a)" "os ! j = (q, l, c)"
    and "unat p - 8 \<le> unat x" "unat x < unat p + unat n"
  shows "\<not> (unat q - 8 \<le> unat x \<and> unat x < unat q + unat l)"
  using objects_apart[OF assms(1-4)] fits_at[OF assms(1,2)] fits_at[OF assms(1,3)] assms(5-8)
  by (auto simp: fits_def apart_def split: prod.splits)

text \<open>A change of the bytes outside all headers keeps the invariant.\<close>

lemma heap_inv_bytes:
  assumes "heap_inv h os" "hs_blocks h' = hs_blocks h"
    and "\<And>p n a x. (p, n, a) \<in> set os \<Longrightarrow> unat p - 8 \<le> unat x \<Longrightarrow> unat x < unat p \<Longrightarrow>
        hs_bytes h' x = hs_bytes h x"
  shows "heap_inv h' os"
proof -
  have "list_all2 (fits h) os (hs_blocks h)" using assms(1) by (simp add: heap_inv_def)
  then have "list_all2 (fits h') os (hs_blocks h)"
  proof (rule list.rel_mono_strong)
    fix ob b
    assume "ob \<in> set os" "fits h ob b"
    moreover obtain p n a where "ob = (p, n, a)" by (cases ob)
    ultimately show "fits h' ob b" using assms(3)[of p n a] fits_frame[of h p n a b h'] by simp
  qed
  then show ?thesis using assms(1,2) by (simp add: heap_inv_def)
qed

section \<open>Every operation keeps the invariant\<close>

lemma AllocateAligned_cases:
  assumes "allocator_promise pick" "AllocateAligned (Some pick) n a clear h = (p, h')"
  obtains (none) "p = 0" "h' = h"
  | (some) r m where "r = pick (hs_blocks h) m" "unat m = unat n + unat a + 8" "r \<noteq> 0"
    "unat r + 8 \<le> unat p" "unat p + unat n \<le> unat r + unat m" "unat r + unat m \<le> 2 ^ 64" "unat a dvd unat p"
    "hs_blocks h' = (r, m) # hs_blocks h" "block_of h' p = r"
    "\<And>x. \<not> (unat p - 8 \<le> unat x \<and> unat x < unat p + unat n) \<Longrightarrow> hs_bytes h' x = hs_bytes h x"
    "\<And>x. clear \<Longrightarrow> unat p \<le> unat x \<Longrightarrow> unat x < unat p + unat n \<Longrightarrow> hs_bytes h' x = 0"
proof -
  define m where "m = n + a + header_size"
  define r where "r = pick (hs_blocks h) m"
  show ?thesis
  proof (cases "IsPowerOfTwo a \<and> 8 \<le> a \<and> n \<le> max_size - a - header_size \<and> r \<noteq> 0")
    case False
    then show ?thesis using assms(2) none
      by (auto simp: AllocateAligned_def raw_Allocate_def m_def r_def Let_def not_less not_le split: if_splits)
  next
    case True
    then have pow: "IsPowerOfTwo a" and a8: "8 \<le> unat a" and fit: "n \<le> max_size - a - header_size" and r0: "r \<noteq> 0"
      by (auto simp: word_le_nat_alt)
    obtain k where k: "k < 64" "unat a = 2 ^ k" using pow by (rule IsPowerOfTwo_cases)
    have "(2 :: nat) ^ k \<le> 2 ^ 63" using k(1) by (intro power_increasing) simp_all
    then have "unat a \<le> 2 ^ 63" using k(2) by simp
    have "unat (max_size - a - header_size) = 2 ^ 64 - 9 - unat a"
      using \<open>unat a \<le> 2 ^ 63\<close> by (simp add: max_size_def header_size_def unat_sub_if')
    then have "unat n + unat a + 8 < 2 ^ 64"
      using fit \<open>unat a \<le> 2 ^ 63\<close> by (simp add: word_le_nat_alt)
    then have um: "unat m = unat n + unat a + 8"
      by (simp add: m_def header_size_def unat_plus_if')
    have room: "unat r + unat m \<le> 2 ^ 64"
      using assms(1) r0 by (simp add: allocator_promise_def r_def)
    define q where "q = malloc_AlignUp (r + header_size) a"
    have us: "unat (r + header_size) = unat r + 8"
      using room um a8 by (simp add: header_size_def unat_plus_if')
    have q: "unat a dvd unat q" "unat r + 8 \<le> unat q" "unat q < unat r + 8 + unat a"
      using unat_AlignUp[OF pow, of "r + header_size"] room um us by (simp_all add: q_def)
    have p: "p = q" and h': "hs_blocks h' = (r, m) # hs_blocks h"
      and b: "hs_bytes h' = (if clear \<and> 0 < n then (\<lambda>x. if x - q < n then 0 else store_ptr (q - header_size) r (hs_bytes h) x)
                 else store_ptr (q - header_size) r (hs_bytes h))"
      using assms(2) True
      by (auto simp: AllocateAligned_def raw_Allocate_def m_def r_def q_def Let_def not_less not_le
          split: if_splits cong: if_cong)
    have qn: "unat q + unat n \<le> unat r + unat m" using q um by linarith
    note inq = in_object[of q n] in_object[of "q - header_size" 8]
    have uq: "unat (q - header_size) = unat q - 8" using q(2) by (simp add: header_size_def unat_sub_if')
    have st: "store_ptr (q - header_size) r mem x = mem x" if "\<not> (unat q - 8 \<le> unat x \<and> unat x < unat q)" for mem x
    proof -
      have "\<not> x - (q - header_size) < 8"
        using inq(2) uq that q(2) qn room by auto
      then show ?thesis by (simp add: store_ptr_def)
    qed
    show ?thesis
    proof (rule some[of r m])
      show "block_of h' p = r"
      proof -
        have "load_ptr (q - header_size) (hs_bytes h') = load_ptr (q - header_size) (store_ptr (q - header_size) r (hs_bytes h))"
        proof (rule load_ptr_cong)
          fix i :: nat
          assume "i < 8"
          then have "unat (q - header_size + of_nat i) < unat q" using header_address[of q i] q(2) by simp
          then have "\<not> unat q \<le> unat (q - header_size + of_nat i)" by simp
          moreover have "q - header_size + of_nat i - q < n \<longleftrightarrow> unat q \<le> unat (q - header_size + of_nat i)
              \<and> unat (q - header_size + of_nat i) < unat q + unat n"
            by (rule in_object) (use qn room in linarith)
          ultimately have "\<not> q - header_size + of_nat i - q < n" by blast
          then show "hs_bytes h' (q - header_size + of_nat i) = store_ptr (q - header_size) r (hs_bytes h) (q - header_size + of_nat i)"
            by (simp add: b)
        qed
        then show ?thesis by (simp add: block_of_def p load_store_ptr)
      qed
      show "hs_bytes h' x = hs_bytes h x" if "\<not> (unat p - 8 \<le> unat x \<and> unat x < unat p + unat n)" for x
      proof -
        have "x - q < n \<longleftrightarrow> unat q \<le> unat x \<and> unat x < unat q + unat n"
          by (rule in_object) (use qn room in linarith)
        moreover have "\<not> (unat q \<le> unat x \<and> unat x < unat q + unat n)" using that p by auto
        ultimately have "\<not> x - q < n" by blast
        moreover have "\<not> (unat q - 8 \<le> unat x \<and> unat x < unat q)" using that p by auto
        then have "store_ptr (q - header_size) r (hs_bytes h) x = hs_bytes h x" by (rule st)
        ultimately show ?thesis by (simp add: b)
      qed
      show "hs_bytes h' x = 0" if "clear" "unat p \<le> unat x" "unat x < unat p + unat n" for x
      proof -
        have "x - q < n \<longleftrightarrow> unat q \<le> unat x \<and> unat x < unat q + unat n"
          by (rule in_object) (use qn room in linarith)
        then have "x - q < n" using that(2,3) p by simp
        moreover have "0 < n" using that(2,3) by (simp add: word_less_nat_alt)
        ultimately show ?thesis using that(1) b by simp
      qed
    qed (use p q qn room um h' r0 in \<open>simp_all add: r_def\<close>)
  qed
qed


lemma AllocateAligned_inv:
  assumes "allocator_promise pick" "heap_inv h os" "AllocateAligned (Some pick) n a clear h = (p, h')"
  shows "heap_inv h' (if p = 0 then os else (p, n, a) # os)"
    "(q, l, c) \<in> set os \<Longrightarrow> unat q \<le> unat x \<Longrightarrow> unat x < unat q + unat l \<Longrightarrow> hs_bytes h' x = hs_bytes h x"
proof -
  have both: "heap_inv h' (if p = 0 then os else (p, n, a) # os)
      \<and> ((q, l, c) \<in> set os \<longrightarrow> unat q \<le> unat x \<longrightarrow> unat x < unat q + unat l \<longrightarrow> hs_bytes h' x = hs_bytes h x)" for q l c x
    using assms(1,3)
  proof (cases rule: AllocateAligned_cases)
    case none
    then show ?thesis using assms(2) by simp
  next
    case (some r m)
    have new: "apart r m (fst b) (snd b)" if "b \<in> set (hs_blocks h)" for b
      using assms(1) some(1,3) that by (auto simp: allocator_promise_def case_prod_beta)
    have out: "hs_bytes h' x = hs_bytes h x"
      if "(q, l, c) \<in> set os" "unat q - 8 \<le> unat x" "unat x < unat q + unat l" for q l c x
    proof -
      from that(1)[unfolded in_set_conv_nth] obtain i where i: "i < length os" "os ! i = (q, l, c)" by blast
      then have "i < length (hs_blocks h)" using assms(2) by (auto simp: heap_inv_def dest: list_all2_lengthD)
      then have "apart r m (fst (hs_blocks h ! i)) (snd (hs_blocks h ! i))" by (intro new) simp
      then show ?thesis using fits_at[OF assms(2) i(1)] i(2) that some(4,5)
        by (intro some(10)) (auto simp: fits_def apart_def split: prod.splits)
    qed
    have "heap_inv (h'\<lparr>hs_blocks := hs_blocks h\<rparr>) os"
      by (rule heap_inv_bytes[OF assms(2)]) (auto intro: out simp: less_le_trans)
    then have old: "list_all2 (fits h') os (hs_blocks h)"
      by (simp add: heap_inv_def)
    have "fits h' (p, n, a) (r, m)" using some by (simp add: fits_def)
    moreover have "p \<noteq> 0" using some(4) by auto
    ultimately have "heap_inv h' (if p = 0 then os else (p, n, a) # os)"
      using old assms(2) new some(8) by (auto simp: heap_inv_def)
    moreover have "(q, l, c) \<in> set os \<longrightarrow> unat q \<le> unat x \<longrightarrow> unat x < unat q + unat l \<longrightarrow> hs_bytes h' x = hs_bytes h x"
      using out[of q l c x] by simp
    ultimately show ?thesis ..
  qed
  show "heap_inv h' (if p = 0 then os else (p, n, a) # os)" using both by blast
  show "(q, l, c) \<in> set os \<Longrightarrow> unat q \<le> unat x \<Longrightarrow> unat x < unat q + unat l \<Longrightarrow> hs_bytes h' x = hs_bytes h x"
    using both by blast
qed

lemma raw_Free_inv:
  assumes "heap_inv h os" "(p, n, a) \<in> set os"
  shows "heap_inv (raw_Free (block_of h p) h) (filter (\<lambda>ob. fst ob \<noteq> p) os)"
proof -
  have l: "length os = length (hs_blocks h)" using assms(1) by (auto simp: heap_inv_def dest: list_all2_lengthD)
  have same: "fst ob \<noteq> p \<longleftrightarrow> fst b \<noteq> block_of h p" if "(ob, b) \<in> set (zip os (hs_blocks h))" for ob b
  proof -
    from that[unfolded in_set_zip] obtain i where i: "i < length os" "os ! i = ob" "hs_blocks h ! i = b" by auto
    from assms(2)[unfolded in_set_conv_nth] obtain j where j: "j < length os" "os ! j = (p, n, a)" by blast
    show ?thesis
    proof (cases "i = j")
      case True
      then show ?thesis using fits_at[OF assms(1) i(1)] i j by (auto simp: fits_def split: prod.splits)
    next
      case False
      then show ?thesis
        using objects_apart[OF assms(1) i(1) j(1)] fits_at[OF assms(1) i(1)] fits_at[OF assms(1) j(1)] i j
        by (auto simp: fits_def apart_def split: prod.splits)
    qed
  qed
  have "list_all2 (fits h) (filter (\<lambda>ob. fst ob \<noteq> p) os) (filter (\<lambda>b. fst b \<noteq> block_of h p) (hs_blocks h))"
    using assms(1) same by (intro filter_both) (auto simp: heap_inv_def)
  then show ?thesis using assms(1) by (simp add: heap_inv_def raw_Free_def sorted_wrt_filter)
qed


lemma free_inv:
  assumes "heap_inv h os" "p = 0 \<or> p \<in> fst ` set os"
  shows "heap_inv (free (Some pick) p h) (filter (\<lambda>ob. fst ob \<noteq> p) os)" "hs_bytes (free (Some pick) p h) = hs_bytes h"
proof -
  show "hs_bytes (free (Some pick) p h) = hs_bytes h" by (simp add: free_def FreeAligned_def raw_Free_def)
  show "heap_inv (free (Some pick) p h) (filter (\<lambda>ob. fst ob \<noteq> p) os)"
  proof (cases "p = 0")
    case True
    have "fst ob \<noteq> 0" if "ob \<in> set os" for ob
    proof -
      from that[unfolded in_set_conv_nth] obtain i where "i < length os" "os ! i = ob" by blast
      then show ?thesis using fits_at[OF assms(1), of i] by (auto simp: fits_def split: prod.splits)
    qed
    then have "filter (\<lambda>ob. fst ob \<noteq> p) os = os" using True by (simp add: filter_id_conv)
    then show ?thesis using assms(1) True by (simp add: free_def FreeAligned_def)
  next
    case False
    then obtain n a where "(p, n, a) \<in> set os" using assms(2) by auto
    then show ?thesis using raw_Free_inv[OF assms(1)] False by (simp add: free_def FreeAligned_def block_of_def)
  qed
qed

lemma write_inv:
  assumes "heap_inv h os" "(p, n, a) \<in> set os" "x - p < n"
  shows "heap_inv (h\<lparr>hs_bytes := (hs_bytes h)(x := b)\<rparr>) os"
proof -
  from assms(2)[unfolded in_set_conv_nth] obtain i where i: "i < length os" "os ! i = (p, n, a)" by blast
  have "unat p + unat n \<le> 2 ^ 64" using fits_at[OF assms(1) i(1)] i(2) by (auto simp: fits_def split: prod.splits)
  from in_object[OF this] have x: "unat p \<le> unat x" "unat x < unat p + unat n" using assms(3) by blast+
  show ?thesis
  proof (rule heap_inv_bytes[OF assms(1)])
    fix q l c y :: u64
    assume q: "(q, l, c) \<in> set os" and y: "unat q - 8 \<le> unat y" "unat y < unat q"
    from q[unfolded in_set_conv_nth] obtain j where j: "j < length os" "os ! j = (q, l, c)" by blast
    have "y \<noteq> x"
    proof (cases "i = j")
      case True
      then show ?thesis using i j x y by auto
    next
      case False
      moreover have "unat p - 8 \<le> unat x" using x by simp
      ultimately show ?thesis using objects_from_header_on[OF assms(1) i(1) j(1) _ i(2) j(2), of x] x y by auto
    qed
    then show "hs_bytes (h\<lparr>hs_bytes := (hs_bytes h)(x := b)\<rparr>) y = hs_bytes h y" by simp
  qed simp
qed

lemma hold_inv:
  assumes "allocator_promise pick" "heap_inv h os" "r = AllocateAligned (Some pick) n a clear h \<or> r = (0, h)"
  shows "heap_inv (fst (hold n a r os)) (snd (hold n a r os))"
    "(q, l, c) \<in> set os \<Longrightarrow> unat q \<le> unat x \<Longrightarrow> unat x < unat q + unat l \<Longrightarrow>
      hs_bytes (fst (hold n a r os)) x = hs_bytes h x"
proof -
  have "heap_inv (fst (hold n a r os)) (snd (hold n a r os)) \<and>
      ((q, l, c) \<in> set os \<longrightarrow> unat q \<le> unat x \<longrightarrow> unat x < unat q + unat l \<longrightarrow>
        hs_bytes (fst (hold n a r os)) x = hs_bytes h x)" for q l c x
    using assms(3)
  proof
    assume r: "r = AllocateAligned (Some pick) n a clear h"
    obtain p h' where ph: "AllocateAligned (Some pick) n a clear h = (p, h')" by fastforce
    show ?thesis using AllocateAligned_inv[OF assms(1,2) ph] by (cases "p = 0") (simp_all add: hold_def r ph)
  next
    assume "r = (0, h)"
    then show ?thesis using assms(2) by (simp add: hold_def)
  qed
  then show "heap_inv (fst (hold n a r os)) (snd (hold n a r os))"
    "(q, l, c) \<in> set os \<Longrightarrow> unat q \<le> unat x \<Longrightarrow> unat x < unat q + unat l \<Longrightarrow>
      hs_bytes (fst (hold n a r os)) x = hs_bytes h x" by blast+
qed

lemma heap_op_step:
  assumes "allocator_promise pick" "heap_inv h os" "heap_op_ok os op"
  shows "heap_inv (fst (do_heap_op (Some pick) op (h, os))) (snd (do_heap_op (Some pick) op (h, os)))"
    "(q, l, c) \<in> set os \<Longrightarrow> unat q \<le> unat x \<Longrightarrow> unat x < unat q + unat l \<Longrightarrow> (\<forall>b. op \<noteq> Write_Byte x b) \<Longrightarrow>
      hs_bytes (fst (do_heap_op (Some pick) op (h, os))) x = hs_bytes h x"
proof -
  note simps = malloc_def aligned_alloc_def calloc_def
  have h0: "hold n a (if e then (0, h) else AllocateAligned (Some pick) n a clear h) os
      = hold n a (if e then (0, h) else AllocateAligned (Some pick) n a clear h) os" for n a e clear ..
  note hold = hold_inv[OF assms(1,2)]
  show "heap_inv (fst (do_heap_op (Some pick) op (h, os))) (snd (do_heap_op (Some pick) op (h, os)))"
  proof (cases op)
    case (Malloc n)
    show ?thesis unfolding Malloc do_heap_op.simps simps by (rule hold(1)[of _ _ _ False]) simp
  next
    case (Aligned_Alloc a n)
    show ?thesis unfolding Aligned_Alloc do_heap_op.simps simps by (rule hold(1)[of _ _ _ False]) simp
  next
    case (Calloc c n)
    show ?thesis unfolding Calloc do_heap_op.simps simps by (rule hold(1)[of _ _ _ True]) simp
  next
    case (Free_Op p)
    then show ?thesis using free_inv(1)[OF assms(2)] assms(3) by simp
  next
    case (Write_Byte y b)
    then show ?thesis using write_inv[OF assms(2)] assms(3) by (auto simp: list_ex_iff)
  qed
  show "hs_bytes (fst (do_heap_op (Some pick) op (h, os))) x = hs_bytes h x"
    if "(q, l, c) \<in> set os" "unat q \<le> unat x" "unat x < unat q + unat l" "\<forall>b. op \<noteq> Write_Byte x b"
  proof (cases op)
    case (Malloc n)
    show ?thesis unfolding Malloc do_heap_op.simps simps by (rule hold(2)[OF _ that(1-3), of _ _ _ False]) simp
  next
    case (Aligned_Alloc a n)
    show ?thesis unfolding Aligned_Alloc do_heap_op.simps simps by (rule hold(2)[OF _ that(1-3), of _ _ _ False]) simp
  next
    case (Calloc c n)
    show ?thesis unfolding Calloc do_heap_op.simps simps by (rule hold(2)[OF _ that(1-3), of _ _ _ True]) simp
  next
    case (Free_Op p)
    then show ?thesis using free_inv(2)[OF assms(2)] assms(3) by simp
  next
    case (Write_Byte y b)
    then show ?thesis using that(4) by auto
  qed
qed

lemma heap_reachable_inv:
  assumes "heap_reachable (Some pick) (h, os)" "allocator_promise pick"
  shows "heap_inv h os"
  using assms(1)
proof (induction "(h, os)" arbitrary: h os rule: heap_reachable.induct)
  case start
  then show ?case by (simp add: heap_inv_def)
next
  case (step h0 os0 op)
  then show ?case using heap_op_step(1)[OF assms(2) step(2,3)] by (metis fst_conv snd_conv)
qed


lemma AllocateAligned_null:
  assumes "allocator_promise pick" "AllocateAligned (Some pick) n 32 clear h = (p, h')"
  shows "p \<noteq> 0 \<longleftrightarrow> unat n + 40 < 2 ^ 64 \<and> pick (hs_blocks h) (40 + n) \<noteq> 0"
proof -
  have pow: "IsPowerOfTwo 32" by (simp add: IsPowerOfTwo_def)
  have room: "max_size - 32 - 8 < n \<longleftrightarrow> \<not> unat n + 40 < 2 ^ 64"
    using unsigned_less[of n, where ?'a = nat]
    by (simp add: max_size_def word_less_nat_alt not_less) linarith
  show ?thesis
  proof (cases "unat n + 40 < 2 ^ 64 \<and> pick (hs_blocks h) (40 + n) \<noteq> 0")
    case False
    then have "p = 0" using assms(2) pow room
      by (auto simp: header_size_def AllocateAligned_def raw_Allocate_def Let_def split: if_splits)
    then show ?thesis using False by blast
  next
    case True
    then have "hs_blocks h' = (pick (hs_blocks h) (40 + n), 40 + n) # hs_blocks h"
      using assms(2) pow room
      by (auto simp: header_size_def AllocateAligned_def raw_Allocate_def Let_def split: if_splits)
    then have "h' \<noteq> h" by auto
    moreover have "p \<noteq> 0 \<or> h' = h" using assms by (cases rule: AllocateAligned_cases) auto
    ultimately show ?thesis using True by blast
  qed
qed

section \<open>Properties\<close>

text \<open>
  C30: The heap stays sound.  Whatever a client allocates, frees and writes, live objects and
  blocks of the game's allocator correspond one to one, so nothing leaks and nothing is freed
  twice.  Each object is aligned as asked, lies with its header inside its block, and its
  header still names the block; objects with their headers never overlap.
\<close>
theorem aligned_heap:
  assumes "heap_reachable (Some pick) (h, os)" "allocator_promise pick"
  shows "list_all2 (\<lambda>(p, n, a) (r, m).
        load_ptr (p - 8) (hs_bytes h) = r \<and> unat r + 8 \<le> unat p \<and> unat p + unat n \<le> unat r + unat m
      \<and> unat a dvd unat p) os (hs_blocks h)
    \<and> sorted_wrt (\<lambda>(p, n, a) (q, l, c). unat p + unat n \<le> unat q - 8 \<or> unat q + unat l \<le> unat p - 8) os"
proof
  have inv: "heap_inv h os" by (rule heap_reachable_inv[OF assms])
  then have "list_all2 (fits h) os (hs_blocks h)" by (simp add: heap_inv_def)
  then show "list_all2 (\<lambda>(p, n, a) (r, m).
        load_ptr (p - 8) (hs_bytes h) = r \<and> unat r + 8 \<le> unat p \<and> unat p + unat n \<le> unat r + unat m
      \<and> unat a dvd unat p) os (hs_blocks h)"
    by (rule list_all2_mono) (auto simp: fits_def block_of_def header_size_def)
  show "sorted_wrt (\<lambda>(p, n, a) (q, l, c). unat p + unat n \<le> unat q - 8 \<or> unat q + unat l \<le> unat p - 8) os"
    unfolding sorted_wrt_iff_nth_less
  proof (intro allI impI)
    fix i j
    assume ij: "i < j" "j < length os"
    then show "(\<lambda>(p, n, a) (q, l, c). unat p + unat n \<le> unat q - 8 \<or> unat q + unat l \<le> unat p - 8) (os ! i) (os ! j)"
      using objects_apart[OF inv, of i j] fits_at[OF inv, of i] fits_at[OF inv, of j]
      by (auto simp: fits_def apart_def split: prod.splits)
  qed
qed

text \<open>A bump allocator, and a client that allocates ten bytes and writes the sixth.\<close>

definition bump_pick :: standard_allocator where
  "bump_pick bs n =
     (let e = fold (\<lambda>(p, m). max (unat p + unat m)) bs 0x1000
      in if e + unat n \<le> 2 ^ 64 \<and> e < 2 ^ 64 then of_nat e else 0)"

lemma bump_fold_ge: "x \<le> fold (\<lambda>(p, m). max (unat p + unat m)) bs x"
  by (induction bs arbitrary: x) (auto intro: order_trans[OF max.cobounded2])

lemma bump_fold:
  "(q, m) \<in> set bs \<Longrightarrow> unat (q :: u64) + unat (m :: u64) \<le> fold (\<lambda>(p, m). max (unat p + unat m)) bs x"
proof (induction bs arbitrary: x)
  case (Cons b bs)
  show ?case
  proof (cases "b = (q, m)")
    case True
    have "unat q + unat m \<le> max (unat q + unat m) x" by simp
    also have "\<dots> \<le> fold (\<lambda>(p, m). max (unat p + unat m)) bs (max (unat q + unat m) x)" by (rule bump_fold_ge)
    finally show ?thesis using True by simp
  next
    case False
    then show ?thesis using Cons by (cases b) auto
  qed
qed simp

lemma bump_promise: "allocator_promise bump_pick"
proof -
  have "unat (bump_pick bs n) + unat n \<le> 2 ^ 64 \<and> (\<forall>(q, m) \<in> set bs. apart (bump_pick bs n) n q m)"
    if "bump_pick bs n \<noteq> 0" for bs n
  proof -
    define e where "e = fold (\<lambda>(p, m). max (unat (p :: u64) + unat (m :: u64))) bs 0x1000"
    have e: "e + unat n \<le> 2 ^ 64" "e < 2 ^ 64" "bump_pick bs n = of_nat e"
      using that by (auto simp: bump_pick_def e_def[symmetric] Let_def split: if_splits)
    then have "unat (bump_pick bs n) = e" by (simp add: unat_of_nat)
    moreover have "unat q + unat m \<le> e" if "(q, m) \<in> set bs" for q m
      using bump_fold[OF that] by (simp add: e_def)
    ultimately show ?thesis using e(1) by (auto simp: apart_def)
  qed
  then show ?thesis by (simp add: allocator_promise_def)
qed

definition bump_start :: heap_state where "bump_start = \<lparr>hs_blocks = [], hs_bytes = (\<lambda>x. 0)\<rparr>"

definition bump_run :: "heap_state \<times> objects" where
  "bump_run = do_heap_op (Some bump_pick) (Write_Byte 0x1025 7) (do_heap_op (Some bump_pick) (Malloc 10) (bump_start, []))"

lemma bump_malloc:
  "malloc (Some bump_pick) 10 bump_start =
     (0x1020, \<lparr>hs_blocks = [(0x1000, 50)], hs_bytes = store_ptr 0x1018 0x1000 (\<lambda>x. 0)\<rparr>)"
  by (simp add: malloc_def AllocateAligned_def kSystemMinAlign_def IsPowerOfTwo_def max_size_def header_size_def
      raw_Allocate_def bump_start_def bump_pick_def malloc_AlignUp_def Let_def)

lemma bump_run_value:
  "bump_run = (\<lparr>hs_blocks = [(0x1000, 50)], hs_bytes = (store_ptr 0x1018 0x1000 (\<lambda>x. 0))(0x1025 := 7)\<rparr>,
     [(0x1020, 10, 0x20)])"
  by (simp add: bump_run_def bump_malloc hold_def kSystemMinAlign_def)

lemma bump_reachable: "heap_reachable (Some bump_pick) bump_run"
proof -
  have "heap_reachable (Some bump_pick) (bump_start, [])" by (rule start) (simp add: bump_start_def)
  then have one: "heap_reachable (Some bump_pick) (do_heap_op (Some bump_pick) (Malloc 10) (bump_start, []))"
    by (rule step) simp
  have eq: "do_heap_op (Some bump_pick) (Malloc 10) (bump_start, [])
      = (\<lparr>hs_blocks = [(0x1000, 50)], hs_bytes = store_ptr 0x1018 0x1000 (\<lambda>x. 0)\<rparr>, [(0x1020, 10, 0x20)])"
    by (simp add: bump_malloc hold_def kSystemMinAlign_def)
  show ?thesis using one unfolding bump_run_def eq by (rule step) simp
qed

theorem aligned_heap_witness:
  "snd bump_run = [(0x1020, 10, 0x20)] \<and> load_ptr 0x1018 (hs_bytes (fst bump_run)) = 0x1000"
  using aligned_heap[of bump_pick "fst bump_run" "snd bump_run"] bump_reachable bump_promise
  by (simp add: bump_run_value)

text \<open>
  Nothing but its owner changes an object.  In a sound heap any allocation or release, and
  any write to another object, leaves every byte of every live object as it was.
\<close>
lemma heap_keeps_contents:
  assumes "heap_reachable (Some pick) (h, os)" "allocator_promise pick" "heap_op_ok os op"
    and "(p, n, a) \<in> set os" "x - p < n" "\<forall>b. op \<noteq> Write_Byte x b"
  shows "hs_bytes (fst (do_heap_op (Some pick) op (h, os))) x = hs_bytes h x"
proof -
  have inv: "heap_inv h os" by (rule heap_reachable_inv[OF assms(1,2)])
  from assms(4)[unfolded in_set_conv_nth] obtain i where i: "i < length os" "os ! i = (p, n, a)" by blast
  have "unat p + unat n \<le> 2 ^ 64" using fits_at[OF inv i(1)] i(2) by (auto simp: fits_def split: prod.splits)
  from in_object[OF this, of x] have "unat p \<le> unat x" "unat x < unat p + unat n" using assms(5) by blast+
  then show ?thesis using heap_op_step(2)[OF assms(2) inv assms(3,4)] assms(6) by blast
qed

text \<open>
  \<open>calloc\<close> gives what was asked or nothing.  It succeeds exactly when the product of its
  arguments, taken without wrap-around, is positive and leaves room for alignment and header,
  and the game's allocator delivers; then all those bytes are zero.
\<close>
lemma calloc_exact:
  assumes "allocator_promise pick" "calloc (Some pick) c n h = (p, h')"
  shows "(p \<noteq> 0 \<longleftrightarrow> 0 < unat c * unat n \<and> unat c * unat n + 40 < 2 ^ 64 \<and> pick (hs_blocks h) (40 + c * n) \<noteq> 0)
    \<and> (p \<noteq> 0 \<longrightarrow> (\<forall>x. unat p \<le> unat x \<longrightarrow> unat x < unat p + unat c * unat n \<longrightarrow> hs_bytes h' x = 0))"
proof (cases "c = 0 \<or> n = 0")
  case True
  then show ?thesis using assms(2) by (auto simp: calloc_def)
next
  case False
  then have n0: "0 < unat n" "0 < unat c" by (auto simp: unat_gt_0)
  have guard: "max_size div n < c \<longleftrightarrow> 2 ^ 64 \<le> unat c * unat n"
  proof -
    have "unat max_size = 2 ^ 64 - 1" by (simp add: max_size_def unsigned_minus_1_eq_mask mask_eq_exp_minus_1)
    then have "unat (max_size div n) = (2 ^ 64 - 1) div unat n" by (simp add: unat_div)
    then have "max_size div n < c \<longleftrightarrow> (2 ^ 64 - 1) div unat n < unat c" by (simp add: word_less_nat_alt)
    also have "\<dots> \<longleftrightarrow> 2 ^ 64 - 1 < unat c * unat n" using n0(1) by (simp add: div_less_iff_less_mult)
    finally show ?thesis by (auto simp: less_eq_Suc_le)
  qed
  show ?thesis
  proof (cases "2 ^ 64 \<le> unat c * unat n")
    case True
    then show ?thesis using assms(2) False guard by (auto simp: calloc_def)
  next
    case fits: False
    then have u: "unat (c * n) = unat c * unat n" by (simp add: unat_word_ariths)
    have run: "AllocateAligned (Some pick) (c * n) 32 True h = (p, h')"
      using assms(2) False guard fits by (simp add: calloc_def kSystemMinAlign_def)
    have "p \<noteq> 0 \<longrightarrow> (\<forall>x. unat p \<le> unat x \<longrightarrow> unat x < unat p + unat (c * n) \<longrightarrow> hs_bytes h' x = 0)"
      using assms(1) run by (cases rule: AllocateAligned_cases) auto
    then show ?thesis using AllocateAligned_null[OF assms(1) run] u n0 by simp
  qed
qed

end
