(* ===== verification/Challenge_Rifts.thy ===== *)
theory Challenge_Rifts
  imports Challenge_Wire Pubfiles Patcher Armv8_Operands Mem_Layout Aligned_Alloc
begin

text \<open>
  Challenge rifts (\<open>source/program/d3/hooks/debug.hpp\<close>, \<open>PopulateChallengeRiftData\<close> of
  \<open>source/program/d3/util.cpp\<close>): which addresses may be read, the gate of the reward save
  path in the game image, the remembered challenge number and the cached files, the files a
  rift is filled from, and the hooks that keep rewards obtainable.  The functions of the game
  (the protobuf parser, its random numbers, the hooked originals) are parameters.
\<close>

section \<open>Readable addresses\<close>

definition IsProbablyReadablePtr :: "ModuleInfo option list \<Rightarrow> regions \<Rightarrow> u64 \<Rightarrow> bool" where
  "IsProbablyReadablePtr infos rs addr =
     (if addr = 0 then False
      else if TryGetModule infos addr \<noteq> None then True
      else InRange (s_Heap rs) addr \<or> InRange (s_Alias rs) addr \<or> InRange (s_Aslr rs) addr \<or> InRange (s_Stack rs) addr)"

fun clamp_to_ranges :: "Range list \<Rightarrow> u64 \<Rightarrow> u64 \<Rightarrow> u64" where
  "clamp_to_ranges [] addr len = len"
| "clamp_to_ranges (r # rs) addr len =
     (if \<not> InRange r addr then clamp_to_ranges rs addr len
      else if GetEnd r \<le> addr then 0
      else min len (GetEnd r - addr))"

definition ClampReadableLen :: "ModuleInfo option list \<Rightarrow> regions \<Rightarrow> u64 \<Rightarrow> u64 \<Rightarrow> u64" where
  "ClampReadableLen infos rs addr len =
     (if \<not> IsProbablyReadablePtr infos rs addr \<or> len = 0 then 0
      else if TryGetModule infos addr \<noteq> None then len
      else clamp_to_ranges [s_Heap rs, s_Alias rs, s_Aslr rs, s_Stack rs] addr len)"

section \<open>The reward save gate\<close>

definition kChallengeSaveGatePrimaryOff :: u64 where "kChallengeSaveGatePrimaryOff = 0x4EE18"
definition kChallengeSaveGateFallbackOff :: u64 where "kChallengeSaveGateFallbackOff = 0x4EF28"
definition kPrimaryRestoreInsn :: u32 where "kPrimaryRestoreInsn = 0x54000EE9"
definition kFallbackRestoreInsn :: u32 where "kFallbackRestoreInsn = 0x54FFF7A8"
definition kPrimaryBypassInsn :: u32 where "kPrimaryBypassInsn = 0x14000001"
definition kFallbackBypassInsn :: u32 where "kFallbackBypassInsn = 0x17FFFFBD"

record gate_state =
  gt_image :: store
  gt_flushes :: "flush list"
  g_reward_save_gate_patched :: bool

definition gate_words :: "bool \<Rightarrow> (u64 \<times> u8 list) list" where
  "gate_words enabled =
     (if enabled then
        [(kChallengeSaveGatePrimaryOff, u32_bytes kPrimaryBypassInsn),
         (kChallengeSaveGateFallbackOff, u32_bytes kFallbackBypassInsn)]
      else
        [(kChallengeSaveGatePrimaryOff, u32_bytes kPrimaryRestoreInsn),
         (kChallengeSaveGateFallbackOff, u32_bytes kFallbackRestoreInsn)])"

definition SetRewardSaveGateBypass :: "Pages \<Rightarrow> bool \<Rightarrow> gate_state \<Rightarrow> gate_state" where
  "SetRewardSaveGateBypass p enabled st =
     (if g_reward_save_gate_patched st = enabled then st
      else
        let jest = mk_RandomAccessPatcher (gt_image st);
            jest = fold (\<lambda>(offset, bs). Random_Write p offset bs) (gate_words enabled) jest;
            jest = Random_Destroy p jest
        in \<lparr>gt_image = r_mem jest, gt_flushes = gt_flushes st @ r_flushes jest, g_reward_save_gate_patched = enabled\<rparr>)"

section \<open>The challenge number\<close>

record challenge_state =
  g_last_challenge_number :: u32
  s_last_challenge_num :: u32

definition SetLastChallengeNumber :: "u32 \<Rightarrow> challenge_state \<Rightarrow> challenge_state" where
  "SetLastChallengeNumber challenge_num st =
     (if challenge_num \<noteq> 0 then st\<lparr>g_last_challenge_number := challenge_num\<rparr> else st)"

text \<open>\<open>globals\<close> is \<open>SGameGlobalsGet()\<close>, 0 for null.\<close>

definition GetCurrentChallengeNumber :: "(u64 \<Rightarrow> bool) \<Rightarrow> store \<Rightarrow> u64 \<Rightarrow> challenge_state \<Rightarrow> u32" where
  "GetCurrentChallengeNumber readable mem globals st =
     (if g_last_challenge_number st \<noteq> 0 then g_last_challenge_number st
      else if globals = 0 then 1
      else
        let challenge_addr = globals + 0x2198;
            challenge_num = (if readable challenge_addr then load_u32 mem challenge_addr else 0)
        in if challenge_num \<noteq> 0 then challenge_num else 1)"

section \<open>Rewards\<close>

text \<open>The players in the order \<open>PlayerGetFirstAll\<close> gives them, each with its last rewarded number.\<close>

definition rearm_value :: "u32 \<Rightarrow> u32" where
  "rearm_value challenge_num = (if 1 < challenge_num then challenge_num - 1 else 1)"

definition OpenChallengeRift_rearm :: "bool \<Rightarrow> u32 \<Rightarrow> u32 list \<Rightarrow> u32 list" where
  "OpenChallengeRift_rearm active weekly_num players =
     (if active then map (\<lambda>before. if before \<noteq> rearm_value weekly_num then rearm_value weekly_num else before) players
      else players)"

text \<open>The hook on the reward handler; \<open>orig\<close> is the handler of the game, \<open>None\<close> a null player.\<close>

definition ChallengeRiftHandleChallengeRewards ::
  "bool \<Rightarrow> u32 \<Rightarrow> (u32 list \<Rightarrow> u32 list) \<Rightarrow> nat option \<Rightarrow> u32 list \<Rightarrow> u32 list" where
  "ChallengeRiftHandleChallengeRewards active challenge_num orig player ps =
     (let ps = (case player of Some i \<Rightarrow> if active then ps[i := rearm_value challenge_num] else ps | None \<Rightarrow> ps);
          ps = orig ps
      in case player of Some i \<Rightarrow> if active then ps[i := 1] else ps | None \<Rightarrow> ps)"

text \<open>A reward about to be saved: its has-bits and season.\<close>

record challenge_reward =
  has_bits :: u32
  season_earned :: u32

definition ChallengeRiftRewardEarned_tag :: "bool \<Rightarrow> bool \<Rightarrow> u32 \<Rightarrow> challenge_reward \<Rightarrow> challenge_reward" where
  "ChallengeRiftRewardEarned_tag active reward_ptr_ok cur_season r =
     (if \<not> active then r
      else if reward_ptr_ok \<and> cur_season \<noteq> 0 then r\<lparr>has_bits := has_bits r OR 8, season_earned := cur_season\<rparr>
      else r)"

text \<open>The scan of the reward list of a player; the result is (aborted, has current, first untagged).\<close>

definition kMaxRewardNodes :: nat where "kMaxRewardNodes = 4096"
definition kNodeNextOff :: u64 where "kNodeNextOff = 0x8"
definition kNodeSeasonEarnedOff :: u64 where "kNodeSeasonEarnedOff = 0x48"
definition kRewardsListSentinelOff :: u64 where "kRewardsListSentinelOff = 0xDD88"
definition kRewardsListHeadOff :: u64 where "kRewardsListHeadOff = 0xDD90"

function scan_rewards ::
  "(u64 \<Rightarrow> bool) \<Rightarrow> store \<Rightarrow> u32 \<Rightarrow> u64 \<Rightarrow> nat \<Rightarrow> u64 \<Rightarrow> u64 \<Rightarrow> bool \<times> bool \<times> u64" where
  "scan_rewards readable mem cur_season sentinel visited first_zero node =
     (if node = 0 \<or> node = sentinel then (False, False, first_zero)
      else if kMaxRewardNodes < visited + 1 then (True, False, first_zero)
      else
        let season_addr = node + kNodeSeasonEarnedOff; next_addr = node + kNodeNextOff
        in if \<not> readable season_addr \<or> \<not> readable next_addr then (True, False, first_zero)
           else
             let season = load_u32 mem season_addr
             in if season = cur_season then (False, True, first_zero)
                else scan_rewards readable mem cur_season sentinel (visited + 1)
                  (if season = 0 \<and> first_zero = 0 then node else first_zero) (load_ptr next_addr mem))"
  by pat_completeness auto
termination
  by (relation "measure (\<lambda>(readable, mem, cur, sentinel, visited, fz, node). kMaxRewardNodes - visited)") auto

declare scan_rewards.simps [simp del]

definition GrantReward_tag :: "bool \<Rightarrow> (u64 \<Rightarrow> bool) \<Rightarrow> u32 \<Rightarrow> u64 \<Rightarrow> store \<Rightarrow> store" where
  "GrantReward_tag active readable cur_season player mem =
     (if \<not> active \<or> player = 0 \<or> cur_season = 0 then mem
      else
        let sentinel = player + kRewardsListSentinelOff;
            head_ptr_addr = player + kRewardsListHeadOff;
            node = (if readable head_ptr_addr then load_ptr head_ptr_addr mem else 0)
        in case scan_rewards readable mem cur_season sentinel 0 0 node of
             (scan_aborted, has_current, first_zero) \<Rightarrow>
               if \<not> scan_aborted \<and> \<not> has_current \<and> first_zero \<noteq> 0 then
                 if \<not> readable (first_zero + kNodeSeasonEarnedOff) then mem
                 else store_bytes mem (first_zero + kNodeSeasonEarnedOff) (u32_bytes cur_season)
               else mem)"

section \<open>The files of a rift\<close>

text \<open>The fields of the configuration the mod writes; the rest is kept as it was parsed.\<close>

record 'p challenge_data =
  challenge_number :: u32
  challenge_start_unix_time :: s64
  challenge_last_broadcast_unix_time :: s64
  challenge_end_unix_time_console :: s64
  challenge_rest :: 'p

text \<open>The parser of the game: whether the bytes were accepted, and the message it leaves.\<close>

type_synonym 'm parser = "u8 list \<Rightarrow> 'm \<Rightarrow> bool \<times> 'm"

definition string_bytes :: "blz_string \<Rightarrow> heap \<Rightarrow> u8 list" where
  "string_bytes s h = take (unat (m_size s)) (blz_bytes s h)"

text \<open>\<open>sFileData\<close> is freed at the end of its scope; the file buffer is not.\<close>

definition PopulateData ::
  "'w file_api \<Rightarrow> sigma_allocator \<Rightarrow> 'm parser \<Rightarrow> 'm \<Rightarrow> string \<Rightarrow> 'w pub \<Rightarrow> bool \<times> 'm \<times> 'w pub" where
  "PopulateData api new parse dest szPath st =
     (case ReadFileToBuffer api new szPath st of
        (None, st) \<Rightarrow> (False, dest, st)
      | (Some (pFileBuffer, dwSize), st) \<Rightarrow>
          (case ReplaceBlzString new mk_basic_string (pb_heap st pFileBuffer) (ucast dwSize) (pb_heap st) of
             (sFileData, h) \<Rightarrow>
               let dest = snd (parse (string_bytes sFileData h) dest);
                   h = (case m_elements sFileData of Block a \<Rightarrow> SigmaMemoryFree a h | _ \<Rightarrow> h)
               in (True, dest, st\<lparr>pb_heap := h, pb_local_frees := pb_local_frees st + 1\<rparr>)))"

text \<open>The result is (filled, from the cache, message, state).\<close>

definition PopulateDataWithFallback ::
  "'w file_api \<Rightarrow> sigma_allocator \<Rightarrow> 'm parser \<Rightarrow> 'm \<Rightarrow> string \<Rightarrow> string \<Rightarrow> 'w pub \<Rightarrow> bool \<times> bool \<times> 'm \<times> 'w pub" where
  "PopulateDataWithFallback api new parse dest cache_path local_path st =
     (case PopulateData api new parse dest cache_path st of
        (True, dest, st) \<Rightarrow> (True, True, dest, st)
      | (False, dest, st) \<Rightarrow>
          (case PopulateData api new parse dest local_path st of
             (ok, dest, st) \<Rightarrow> (ok, False, dest, st)))"

text \<open>\<open>challengerift_%02u.dat\<close>.\<close>

definition rift_name :: "u32 \<Rightarrow> string" where
  "rift_name n = ''challengerift_'' @ (if n < 10 then ''0'' else []) @ dec_digits (unat n) @ ''.dat''"

definition k_rift_config :: string where "k_rift_config = ''/challengerift_config.dat''"

text \<open>\<open>rand a b\<close> is \<open>GameRandRangeInt(a, b)\<close> on the state of the generator.\<close>

definition PopulateChallengeRiftData ::
  "'w file_api \<Rightarrow> sigma_allocator \<Rightarrow> 'p challenge_data parser \<Rightarrow> 'q parser \<Rightarrow> (s32 \<Rightarrow> s32 \<Rightarrow> 'r \<Rightarrow> s32 \<times> 'r) \<Rightarrow>
   rifts_config \<Rightarrow> 'p challenge_data \<Rightarrow> 'q \<Rightarrow> 'r \<Rightarrow> 'w pub \<Rightarrow>
   bool \<times> 'p challenge_data \<times> 'q \<times> 'r \<times> 'w pub" where
  "PopulateChallengeRiftData api new parse_conf parse_data rand cfg conf data r st =
     (let nMin = range_start cfg; nMax = range_end cfg;
          (nPick, r) = (if cr_random cfg then rand nMin nMax r else (nMin, r))
      in case PopulateDataWithFallback api new parse_conf conf (g_szPubfileCacheDir @ k_rift_config)
                (g_szBaseDir @ ''/rift_data'' @ k_rift_config) st of
           (configOk, config_from_cache, conf, st) \<Rightarrow>
             let (conf, r) = (if configOk then
                    let (conf, r) = (if \<not> config_from_cache
                                     then let (n, r) = rand 0 900 r in (conf\<lparr>challenge_number := n\<rparr>, r)
                                     else (conf, r))
                    in (conf\<lparr>challenge_start_unix_time := 0, challenge_last_broadcast_unix_time := 0,
                             challenge_end_unix_time_console := 0x7FFFFFFF\<rparr>, r)
                  else (conf, r));
                 cache_pick = (if config_from_cache then challenge_number conf else nPick)
             in case PopulateDataWithFallback api new parse_data data (g_szPubfileCacheDir @ ''/'' @ rift_name cache_pick)
                       (g_szBaseDir @ ''/rift_data/'' @ rift_name nPick) st of
                  (dataOk, data_from_cache, data, st) \<Rightarrow> (configOk \<and> dataOk, conf, data, r, st))"

text \<open>The callback: the result code becomes success when both messages were filled.\<close>

definition STORAGE_SUCCESS :: s32 where "STORAGE_SUCCESS = 0"

definition ChallengeRiftCallback ::
  "PatchConfig \<Rightarrow> bool \<times> 'p challenge_data \<times> 'q \<times> 'r \<times> 'w pub \<Rightarrow> s32 \<Rightarrow> 'p challenge_data \<Rightarrow> 'q \<Rightarrow>
   s32 \<times> 'p challenge_data \<times> 'q" where
  "ChallengeRiftCallback cfg populated res conf data =
     (if cr_active (challenge_rifts cfg) then
        (case populated of (ok, conf, data, _) \<Rightarrow> (if ok then STORAGE_SUCCESS else res, conf, data))
      else (res, conf, data))"

section \<open>Caching what is parsed\<close>

datatype message_kind = Challenge_Data u32 | Weekly_Data | Other_Message

definition CacheChallengeRiftRaw ::
  "PatchConfig \<Rightarrow> 'w file_api \<Rightarrow> string \<Rightarrow> u8 list option \<Rightarrow> 'w pub \<Rightarrow> bool \<times> 'w pub" where
  "CacheChallengeRiftRaw cfg api filename data st =
     (case data of
        None \<Rightarrow> (False, st)
      | Some bs \<Rightarrow>
          if \<not> enable_pubfile_dump (debug cfg) then (False, st)
          else if bs = [] then (False, st)
          else case BuildPubfileCachePath 512 (Some filename) of
            None \<Rightarrow> (False, st)
          | Some cache_path \<Rightarrow> WriteTestFile api cache_path bs (EnsurePubfileCacheDir api st))"

text \<open>After the original returned \<open>ok\<close> and left a message of the given kind.\<close>

definition ParsePartialFromStringHook ::
  "PatchConfig \<Rightarrow> 'w file_api \<Rightarrow> message_kind \<Rightarrow> bool \<Rightarrow> u8 list option \<Rightarrow> challenge_state \<times> 'w pub \<Rightarrow> challenge_state \<times> 'w pub" where
  "ParsePartialFromStringHook cfg api kind ok data s =
     (case s of (cs, st) \<Rightarrow>
        if ok \<and> data \<noteq> None then
          (case kind of
             Challenge_Data n \<Rightarrow>
               (SetLastChallengeNumber n (cs\<lparr>s_last_challenge_num := n\<rparr>),
                snd (CacheChallengeRiftRaw cfg api ''challengerift_config.dat'' data st))
           | Weekly_Data \<Rightarrow>
               (cs, snd (CacheChallengeRiftRaw cfg api (rift_name (s_last_challenge_num cs)) data st))
           | Other_Message \<Rightarrow> (cs, st))
        else (cs, st))"

section \<open>Lemmas\<close>

text \<open>What the card holds under a path, as the reader sees it.\<close>

definition card_file :: "'w file_api \<Rightarrow> 'w \<Rightarrow> string \<Rightarrow> u8 list option" where
  "card_file api w path = (if api_FileExists api path w then api_FileReadIntoMemory api path w else None)"

lemma PopulateData_spec:
  assumes "sigma_ok k new" "card (dom (pb_heap st)) + 2 \<le> k" "card_file api (pb_card st) path = f"
    and "\<And>bs. f = Some bs \<Longrightarrow> length bs < 2 ^ 32"
    and "PopulateData api new parse dest path st = (ok, dest', st')"
  shows "ok \<longleftrightarrow> f \<noteq> None" "dest' = (case f of None \<Rightarrow> dest | Some bs \<Rightarrow> snd (parse bs dest))"
    "pb_card st' = pb_card st" "card (dom (pb_heap st')) \<le> card (dom (pb_heap st)) + (if f = None then 0 else 1)"
    "pb_local_frees st' = pb_local_frees st + (if f = None then 0 else 1)"
proof -
  have all: "(ok \<longleftrightarrow> f \<noteq> None) \<and> dest' = (case f of None \<Rightarrow> dest | Some bs \<Rightarrow> snd (parse bs dest))
    \<and> pb_card st' = pb_card st \<and> card (dom (pb_heap st')) \<le> card (dom (pb_heap st)) + (if f = None then 0 else 1)
    \<and> pb_local_frees st' = pb_local_frees st + (if f = None then 0 else 1)"
  proof (cases f)
    case None
    then have "ReadFileToBuffer api new path st = (None, st)"
      using assms(3) by (auto simp: card_file_def ReadFileToBuffer_def split: if_splits option.splits)
    then show ?thesis using assms(5) None by (simp add: PopulateData_def)
  next
    case (Some bs)
    define a where "a = new (pb_heap st) (of_nat (length bs))"
    have a: "a \<noteq> 0" "pb_heap st a = None" using assms(1,2) by (simp_all add: a_def sigma_ok_def)
    define h where "h = (pb_heap st)(a := Some bs)"
    have rd: "ReadFileToBuffer api new path st = (Some (a, of_nat (length bs)), st\<lparr>pb_heap := h\<rparr>)"
      using assms(3) a(1) unfolding Some
      by (auto simp: card_file_def ReadFileToBuffer_def SigmaMemoryNew_def a_def[symmetric] h_def split: if_splits)
    have ch: "card (dom h) \<le> card (dom (pb_heap st)) + 1" unfolding h_def by (rule card_dom_upd)
    have len: "unat (ucast (of_nat (length bs) :: u32) :: u64) = length bs"
      using assms(4)[OF Some] by (simp add: unsigned_ucast_eq unat_of_nat take_bit_nat_eq_self)
    obtain s h' where rep: "ReplaceBlzString new mk_basic_string (Some bs) (ucast (of_nat (length bs) :: u32)) h = (s, h')"
      by fastforce
    note spec = ReplaceBlzString_spec[OF assms(1) _ _ rep]
    have sp: "m_size s = ucast (of_nat (length bs) :: u32)" "take (length bs) (blz_bytes s h') = bs"
      "card (dom h') \<le> card (dom h) + 1"
      using spec len assms(2) assms(4)[OF Some] ch by auto
    define h2 where "h2 = (case m_elements s of Block b \<Rightarrow> SigmaMemoryFree b h' | _ \<Rightarrow> h')"
    have ha: "h a = Some bs" by (simp add: h_def)
    have "PopulateData api new parse dest path st = (True, snd (parse bs dest),
        st\<lparr>pb_heap := h2, pb_local_frees := pb_local_frees st + 1\<rparr>)"
      using rd ha rep sp(1,2) len by (simp add: PopulateData_def string_bytes_def h2_def Let_def)
    moreover have "card (dom h2) \<le> card (dom (pb_heap st)) + 1"
    proof -
      define c where "c = new h (ucast (of_nat (length bs) :: u32) + 1)"
      have c: "c \<noteq> 0" "h c = None" using assms(1,2) ch by (simp_all add: c_def sigma_ok_def)
      have "m_elements s = Block c \<and> h' = h(c := h' c)"
        using rep c unfolding ReplaceBlzString_def mk_basic_string_def SigmaMemoryNew_def
        by (auto simp: c_def[symmetric] Let_def)
      then have "h2 = h(c := None)" by (auto simp: h2_def SigmaMemoryFree_def) (metis fun_upd_upd)
      then have "h2 = h" using c(2) by auto
      then show ?thesis using ch by simp
    qed
    ultimately show ?thesis using assms(5) Some by simp
  qed
  then show "ok \<longleftrightarrow> f \<noteq> None" "dest' = (case f of None \<Rightarrow> dest | Some bs \<Rightarrow> snd (parse bs dest))"
    "pb_card st' = pb_card st" "card (dom (pb_heap st')) \<le> card (dom (pb_heap st)) + (if f = None then 0 else 1)"
    "pb_local_frees st' = pb_local_frees st + (if f = None then 0 else 1)" by blast+
qed

text \<open>The first of two files, and the message it leaves.\<close>

definition first_file :: "'a option \<Rightarrow> 'a option \<Rightarrow> 'a option" where
  "first_file c l = (if c = None then l else c)"

definition parsed :: "'m parser \<Rightarrow> 'm \<Rightarrow> u8 list option \<Rightarrow> 'm" where
  "parsed parse m f = (case f of None \<Rightarrow> m | Some bs \<Rightarrow> snd (parse bs m))"

lemma PopulateDataWithFallback_spec:
  assumes "sigma_ok k new" "card (dom (pb_heap st)) + 2 \<le> k"
    and "\<forall>path bs. card_file api (pb_card st) path = Some bs \<longrightarrow> length bs < 2 ^ 32"
    and "PopulateDataWithFallback api new parse dest cache local st = (ok, used_cache, dest', st')"
  defines "c \<equiv> card_file api (pb_card st) cache" and "l \<equiv> card_file api (pb_card st) local"
  shows "ok \<longleftrightarrow> first_file c l \<noteq> None" "used_cache \<longleftrightarrow> c \<noteq> None" "dest' = parsed parse dest (first_file c l)"
    "pb_card st' = pb_card st" "card (dom (pb_heap st')) \<le> card (dom (pb_heap st)) + 1"
    "pb_local_frees st' = pb_local_frees st + (if first_file c l = None then 0 else 1)"
proof -
  obtain ok1 d1 st1 where p1: "PopulateData api new parse dest cache st = (ok1, d1, st1)" by (metis prod_cases3)
  note s1 = PopulateData_spec[OF assms(1,2) c_def[THEN meta_eq_to_obj_eq, symmetric] _ p1]
  have b1: "c = Some bs \<Longrightarrow> length bs < 2 ^ 32" for bs using assms(3) c_def by simp
  note s1 = s1[OF b1]
  have all: "(ok \<longleftrightarrow> first_file c l \<noteq> None) \<and> (used_cache \<longleftrightarrow> c \<noteq> None) \<and> dest' = parsed parse dest (first_file c l)
    \<and> pb_card st' = pb_card st \<and> card (dom (pb_heap st')) \<le> card (dom (pb_heap st)) + 1
    \<and> pb_local_frees st' = pb_local_frees st + (if first_file c l = None then 0 else 1)"
  proof (cases "c = None")
    case False
    then have "ok1" using s1(1) by simp
    then have e: "ok" "used_cache" "dest' = d1" "st' = st1"
      using assms(4) p1 by (auto simp: PopulateDataWithFallback_def)
    then show ?thesis using s1 False by (auto simp: first_file_def parsed_def)
  next
    case True
    then have n: "\<not> ok1" "d1 = dest" "pb_card st1 = pb_card st" "card (dom (pb_heap st1)) \<le> card (dom (pb_heap st))"
      "pb_local_frees st1 = pb_local_frees st"
      using s1 by simp_all
    obtain ok2 d2 st2 where p2: "PopulateData api new parse d1 local st1 = (ok2, d2, st2)" by (metis prod_cases3)
    have e: "ok = ok2" "\<not> used_cache" "dest' = d2" "st' = st2"
      using assms(4) p1 p2 n(1) by (auto simp: PopulateDataWithFallback_def)
    have f2: "card_file api (pb_card st1) local = l" using n(3) by (simp add: l_def)
    have b2: "l = Some bs \<Longrightarrow> length bs < 2 ^ 32" for bs using assms(3) l_def by simp
    have c2: "card (dom (pb_heap st1)) + 2 \<le> k" using n(4) assms(2) by simp
    note s2 = PopulateData_spec[OF assms(1) c2 f2 b2 p2]
    show ?thesis using s2 n True e by (auto simp: first_file_def parsed_def split: if_splits)
  qed
  then show "ok \<longleftrightarrow> first_file c l \<noteq> None" "used_cache \<longleftrightarrow> c \<noteq> None" "dest' = parsed parse dest (first_file c l)"
    "pb_card st' = pb_card st" "card (dom (pb_heap st')) \<le> card (dom (pb_heap st)) + 1"
    "pb_local_frees st' = pb_local_frees st + (if first_file c l = None then 0 else 1)" by blast+
qed

text \<open>The gate: both words, and everything else as it was.\<close>

definition gate_inv :: "store \<Rightarrow> gate_state \<Rightarrow> bool" where
  "gate_inv m st \<longleftrightarrow>
     load_u32 (gt_image st) kChallengeSaveGatePrimaryOff
       = (if g_reward_save_gate_patched st then kPrimaryBypassInsn else kPrimaryRestoreInsn)
   \<and> load_u32 (gt_image st) kChallengeSaveGateFallbackOff
       = (if g_reward_save_gate_patched st then kFallbackBypassInsn else kFallbackRestoreInsn)
   \<and> (\<forall>x. \<not> x - kChallengeSaveGatePrimaryOff < 4 \<longrightarrow> \<not> x - kChallengeSaveGateFallbackOff < 4 \<longrightarrow> gt_image st x = m x)"

lemma store_bytes_4:
  "store_bytes m a [w, x, y, z] = m(a := w, a + 1 := x, a + 2 := y, a + 3 := z)"
  by (simp add: numeral_eq_Suc ac_simps)

lemma gate_image:
  assumes "g_reward_save_gate_patched st \<noteq> enabled"
  shows "gt_image (SetRewardSaveGateBypass p enabled st)
      = fold (\<lambda>(a, bs) m. store_bytes m a bs) (gate_words enabled) (gt_image st)"
  using assms
  by (simp add: SetRewardSaveGateBypass_def gate_words_def Random_Write_def At_store_eq mk_RandomAccessPatcher_def
      Random_Destroy_def Random_Flush_def SetLowest_def SetHighest_def Let_def)

lemma gate_step:
  assumes "gate_inv m st"
  shows "gate_inv m (SetRewardSaveGateBypass p enabled st)"
    "g_reward_save_gate_patched (SetRewardSaveGateBypass p enabled st) = enabled"
proof -
  show flag: "g_reward_save_gate_patched (SetRewardSaveGateBypass p enabled st) = enabled"
    by (simp add: SetRewardSaveGateBypass_def Let_def)
  show "gate_inv m (SetRewardSaveGateBypass p enabled st)"
  proof (cases "g_reward_save_gate_patched st = enabled")
    case True
    then show ?thesis using assms by (simp add: SetRewardSaveGateBypass_def)
  next
    case False
    define a b where "a = (if enabled then kPrimaryBypassInsn else kPrimaryRestoreInsn)"
      and "b = (if enabled then kFallbackBypassInsn else kFallbackRestoreInsn)"
    define mem where "mem = gt_image st"
    have img: "gt_image (SetRewardSaveGateBypass p enabled st)
        = store_bytes (store_bytes mem kChallengeSaveGatePrimaryOff (u32_bytes a)) kChallengeSaveGateFallbackOff (u32_bytes b)"
      unfolding gate_image[OF False] mem_def by (simp add: gate_words_def a_def b_def)
    have "load_u32 (store_bytes (store_bytes mem kChallengeSaveGatePrimaryOff (u32_bytes a)) kChallengeSaveGateFallbackOff (u32_bytes b))
        kChallengeSaveGatePrimaryOff = load_u32 (store_bytes mem kChallengeSaveGatePrimaryOff (u32_bytes a)) kChallengeSaveGatePrimaryOff"
      by (simp add: load_u32_def u32_bytes_def store_bytes_4 kChallengeSaveGatePrimaryOff_def kChallengeSaveGateFallbackOff_def)
    moreover have "store_bytes (store_bytes mem kChallengeSaveGatePrimaryOff (u32_bytes a)) kChallengeSaveGateFallbackOff (u32_bytes b) x = mem x"
      if "\<not> x - kChallengeSaveGatePrimaryOff < 4" "\<not> x - kChallengeSaveGateFallbackOff < 4" for x
      using that by (auto simp: u32_bytes_def store_bytes_4)
    ultimately show ?thesis
      using assms flag by (auto simp: gate_inv_def img load_u32_stored a_def b_def mem_def)
  qed
qed

lemma gate_flushed:
  assumes "gt_image (SetRewardSaveGateBypass p enabled st) x \<noteq> gt_image st x"
  shows "covered p (gt_flushes (SetRewardSaveGateBypass p enabled st)) x"
proof -
  define r where "r = random_run p (gt_image st) (gate_words enabled)"
  have ne: "g_reward_save_gate_patched st \<noteq> enabled" 
    using assms by (cases "g_reward_save_gate_patched st = enabled") (simp_all add: SetRewardSaveGateBypass_def)
  have e: "SetRewardSaveGateBypass p enabled st = \<lparr>gt_image = r_mem (Random_Destroy p r),
      gt_flushes = gt_flushes st @ r_flushes (Random_Destroy p r), g_reward_save_gate_patched = enabled\<rparr>"
    using ne by (simp add: SetRewardSaveGateBypass_def r_def random_run_def Let_def)
  have "random_inv (gt_image st) r"
    unfolding r_def by (rule random_inv_run)
      (auto simp: gate_words_def u32_bytes_def kChallengeSaveGatePrimaryOff_def kChallengeSaveGateFallbackOff_def split: if_splits)
  moreover have "r_mem (Random_Destroy p r) = r_mem r" by (simp add: Random_Destroy_def Random_Flush_def Let_def)
  ultimately show ?thesis
    using assms random_destroy_covered[of "gt_image st" r x p] by (simp add: e)
qed

section \<open>The reward list\<close>

text \<open>A list of nodes in memory, linked by their next pointers up to the sentinel or a null.\<close>

fun reward_chain :: "store \<Rightarrow> u64 \<Rightarrow> u64 \<Rightarrow> u64 list \<Rightarrow> bool" where
  "reward_chain mem sentinel node [] = (node = 0 \<or> node = sentinel)"
| "reward_chain mem sentinel node (n # ns) =
     (node = n \<and> n \<noteq> 0 \<and> n \<noteq> sentinel \<and> reward_chain mem sentinel (load_ptr (n + kNodeNextOff) mem) ns)"

definition node_season :: "store \<Rightarrow> u64 \<Rightarrow> u32" where
  "node_season mem n = load_u32 mem (n + kNodeSeasonEarnedOff)"

definition nodes_readable :: "(u64 \<Rightarrow> bool) \<Rightarrow> u64 list \<Rightarrow> bool" where
  "nodes_readable readable ns = list_all (\<lambda>n. readable (n + kNodeSeasonEarnedOff) \<and> readable (n + kNodeNextOff)) ns"

lemma scan_rewards_chain:
  assumes "reward_chain mem sentinel node ns" "nodes_readable readable ns" "visited + length ns \<le> kMaxRewardNodes"
  shows "if cur \<in> node_season mem ` set ns
     then \<not> fst (scan_rewards readable mem cur sentinel visited fz node)
       \<and> fst (snd (scan_rewards readable mem cur sentinel visited fz node))
     else scan_rewards readable mem cur sentinel visited fz node = (False, False,
       if fz \<noteq> 0 then fz else case filter (\<lambda>n. node_season mem n = 0) ns of [] \<Rightarrow> 0 | n # _ \<Rightarrow> n)"
  using assms
proof (induction ns arbitrary: node visited fz)
  case Nil
  then show ?case by (simp add: scan_rewards.simps[of _ _ _ _ _ _ node])
next
  case (Cons n ns)
  define fz' where "fz' = (if node_season mem n = 0 \<and> fz = 0 then n else fz)"
  have n: "node = n" "n \<noteq> 0" "n \<noteq> sentinel" "reward_chain mem sentinel (load_ptr (n + kNodeNextOff) mem) ns"
    using Cons.prems(1) by auto
  have rd: "readable (n + kNodeSeasonEarnedOff)" "readable (n + kNodeNextOff)" "nodes_readable readable ns"
    using Cons.prems(2) by (auto simp: nodes_readable_def)
  have step: "scan_rewards readable mem cur sentinel visited fz node
      = (if node_season mem n = cur then (False, True, fz)
         else scan_rewards readable mem cur sentinel (visited + 1) fz' (load_ptr (n + kNodeNextOff) mem))"
    using n(1-3) rd(1,2) Cons.prems(3)
    by (subst scan_rewards.simps) (simp add: node_season_def fz'_def Let_def)
  show ?case
  proof (cases "node_season mem n = cur")
    case True
    then show ?thesis using step by auto
  next
    case False
    have "visited + 1 + length ns \<le> kMaxRewardNodes" using Cons.prems(3) by simp
    note ih = Cons.IH[OF n(4) rd(3) this, of fz']
    show ?thesis
    proof (cases "cur \<in> node_season mem ` set ns")
      case True
      then show ?thesis using step False ih by auto
    next
      case no: False
      then have "scan_rewards readable mem cur sentinel visited fz node = (False, False,
          if fz' \<noteq> 0 then fz' else case filter (\<lambda>n. node_season mem n = 0) ns of [] \<Rightarrow> 0 | n # _ \<Rightarrow> n)"
        using step False ih by simp
      then show ?thesis using False no n(2) by (auto simp: fz'_def)
    qed
  qed
qed


section \<open>Properties\<close>


definition sample_conf :: "unit challenge_data" where
  "sample_conf = \<lparr>challenge_number = 0, challenge_start_unix_time = 5, challenge_last_broadcast_unix_time = 5,
     challenge_end_unix_time_console = 6, challenge_rest = ()\<rparr>"

definition sample_card :: "string \<Rightarrow> u8 list option" where
  "sample_card = (\<lambda>p. if p = g_szPubfileCacheDir @ k_rift_config then Some [42]
     else if p = g_szPubfileCacheDir @ ''/'' @ rift_name 42 then Some [1, 2]
     else if p = g_szBaseDir @ ''/rift_data/'' @ rift_name 3 then Some [9] else None)"

definition parse_number :: "unit challenge_data parser" where
  "parse_number bs m = (True, m\<lparr>challenge_number := ucast (hd bs)\<rparr>)"

definition parse_bytes :: "u8 list parser" where "parse_bytes bs m = (bs \<noteq> [], bs)"

definition rift_run :: "bool \<times> unit challenge_data \<times> u8 list \<times> nat \<times> (string \<Rightarrow> u8 list option) pub" where
  "rift_run = PopulateChallengeRiftData mem_card four_blocks parse_number parse_bytes (\<lambda>a b r. (a, r + 1))
     \<lparr>cr_active = True, cr_random = False, range_start = 3, range_end = 9\<rparr> sample_conf [] 0
     (start_pub\<lparr>pb_card := sample_card\<rparr>)"


text \<open>
  C33: The reward gate follows its last request.  From the stock image any sequence of requests
  leaves the gate bypassed exactly when the last one asked for it: then both instructions are
  branches to 0x4EE1C, where only an allowed save went before; otherwise they are the stock
  conditional branches.  No other byte of the image changes, and changed bytes are flushed.
\<close>
theorem reward_gate_tracks:
  assumes "load_u32 (gt_image st) kChallengeSaveGatePrimaryOff = kPrimaryRestoreInsn"
    "load_u32 (gt_image st) kChallengeSaveGateFallbackOff = kFallbackRestoreInsn" "\<not> g_reward_save_gate_patched st"
    and st': "st' = fold (SetRewardSaveGateBypass p) requests st"
  shows "g_reward_save_gate_patched st' = (requests \<noteq> [] \<and> last requests)
    \<and> a64_decode (load_u32 (gt_image st') 0x4EE18)
        = Some (if g_reward_save_gate_patched st' then BrImm False 1 else BrCond 119 9)
    \<and> a64_decode (load_u32 (gt_image st') 0x4EF28)
        = Some (if g_reward_save_gate_patched st' then BrImm False (- 67) else BrCond (- 67) 8)
    \<and> br_target 0x4EE18 (1 :: 26 word) = 0x4EE1C \<and> br_target 0x4EF28 (- 67 :: 26 word) = 0x4EE1C
    \<and> br_target 0x4EE18 (119 :: 19 word) = 0x4EFF4 \<and> br_target 0x4EF28 (- 67 :: 19 word) = 0x4EE1C
    \<and> (\<forall>x. gt_image st' x = gt_image st x \<or> x - 0x4EE18 < 4 \<or> x - 0x4EF28 < 4)
    \<and> (\<forall>x. gt_image st' x = gt_image st x \<or> covered p (gt_flushes st') x)"
proof -
  have inv: "gate_inv (gt_image st) st" using assms(1-3) by (simp add: gate_inv_def)
  have run: "gate_inv m s \<Longrightarrow> gate_inv m (fold (SetRewardSaveGateBypass p) bs s)
      \<and> g_reward_save_gate_patched (fold (SetRewardSaveGateBypass p) bs s)
          = (if bs = [] then g_reward_save_gate_patched s else last bs)" for m s bs
    by (induction bs arbitrary: s) (auto simp: gate_step)
  have grows: "covered p (gt_flushes s) x \<Longrightarrow> covered p (gt_flushes (SetRewardSaveGateBypass p b s)) x" for s x b
    by (simp add: SetRewardSaveGateBypass_def Let_def)
  have flushed: "(gt_image s x \<noteq> m x \<longrightarrow> covered p (gt_flushes s) x) \<Longrightarrow>
      gt_image (fold (SetRewardSaveGateBypass p) bs s) x \<noteq> m x \<longrightarrow>
      covered p (gt_flushes (fold (SetRewardSaveGateBypass p) bs s)) x" for s x m bs
  proof (induction bs arbitrary: s)
    case (Cons b bs)
    have "gt_image (SetRewardSaveGateBypass p b s) x \<noteq> m x \<longrightarrow> covered p (gt_flushes (SetRewardSaveGateBypass p b s)) x"
      using Cons.prems grows gate_flushed[of p b s x] by (metis (no_types))
    then show ?case using Cons.IH by simp
  qed simp
  have final: "gate_inv (gt_image st) st'" "g_reward_save_gate_patched st' = (requests \<noteq> [] \<and> last requests)"
    using run[OF inv, of requests] assms(3) st' by auto
  have dec: "a64_decode kPrimaryBypassInsn = Some (BrImm False 1)" "a64_decode kFallbackBypassInsn = Some (BrImm False (- 67))"
    "a64_decode kPrimaryRestoreInsn = Some (BrCond 119 9)" "a64_decode kFallbackRestoreInsn = Some (BrCond (- 67) 8)"
    by (simp_all add: a64_decode_def fld_def kPrimaryBypassInsn_def kFallbackBypassInsn_def kPrimaryRestoreInsn_def kFallbackRestoreInsn_def)
  have offs: "0x4EE18 = kChallengeSaveGatePrimaryOff" "0x4EF28 = kChallengeSaveGateFallbackOff"
    by (simp_all add: kChallengeSaveGatePrimaryOff_def kChallengeSaveGateFallbackOff_def)
  have words: "a64_decode (load_u32 (gt_image st') kChallengeSaveGatePrimaryOff)
        = Some (if g_reward_save_gate_patched st' then BrImm False 1 else BrCond 119 9)"
    "a64_decode (load_u32 (gt_image st') kChallengeSaveGateFallbackOff)
        = Some (if g_reward_save_gate_patched st' then BrImm False (- 67) else BrCond (- 67) 8)"
    using final(1) dec by (simp_all add: gate_inv_def)
  have targets: "br_target 0x4EE18 (1 :: 26 word) = 0x4EE1C" "br_target 0x4EF28 (- 67 :: 26 word) = 0x4EE1C"
    "br_target 0x4EE18 (119 :: 19 word) = 0x4EFF4" "br_target 0x4EF28 (- 67 :: 19 word) = 0x4EE1C"
    by (simp_all add: br_target_def)
  have others: "gt_image st' x = gt_image st x \<or> x - 0x4EE18 < 4 \<or> x - 0x4EF28 < 4" for x
    using final(1) unfolding gate_inv_def offs by blast
  have "gt_image st' x = gt_image st x \<or> covered p (gt_flushes st') x" for x
    using flushed[of st x "gt_image st" requests] st' by blast
  then show ?thesis using final(2) words targets others unfolding offs by blast
qed

text \<open>A stock image.\<close>

definition stock_gate :: gate_state where
  "stock_gate = \<lparr>gt_image = store_bytes (store_bytes (\<lambda>x. 0) kChallengeSaveGatePrimaryOff (u32_bytes kPrimaryRestoreInsn))
       kChallengeSaveGateFallbackOff (u32_bytes kFallbackRestoreInsn),
     gt_flushes = [], g_reward_save_gate_patched = False\<rparr>"

theorem reward_gate_tracks_witness:
  "a64_decode (load_u32 (gt_image (fold (SetRewardSaveGateBypass \<lparr>m_Ro = 0, m_Rw = 0x1000\<rparr>) [True, False, True] stock_gate)) 0x4EE18)
     = Some (BrImm False 1)"
proof -
  have "load_u32 (gt_image stock_gate) kChallengeSaveGatePrimaryOff = kPrimaryRestoreInsn"
    "load_u32 (gt_image stock_gate) kChallengeSaveGateFallbackOff = kFallbackRestoreInsn" "\<not> g_reward_save_gate_patched stock_gate"
    by (simp_all add: stock_gate_def load_u32_def u32_bytes_def store_bytes_4 kChallengeSaveGatePrimaryOff_def
        kChallengeSaveGateFallbackOff_def kPrimaryRestoreInsn_def kFallbackRestoreInsn_def)
  from reward_gate_tracks[OF this refl, of "\<lparr>m_Ro = 0, m_Rw = 0x1000\<rparr>" "[True, False, True]"]
  show ?thesis by simp
qed

text \<open>
  C34: An untagged reward is made claimable.  For a list of at most 4096 readable rewards the
  hook changes nothing when one already has the current season, and otherwise gives that
  season to the first untagged reward and changes nothing else; afterwards a reward of the
  season exists whenever there was one or an untagged one.
\<close>
theorem untagged_reward_tagged:
  assumes "player \<noteq> 0" "cur_season \<noteq> 0" "readable (player + kRewardsListHeadOff)"
    "reward_chain mem (player + kRewardsListSentinelOff) (load_ptr (player + kRewardsListHeadOff) mem) rewards"
    "nodes_readable readable rewards" "length rewards \<le> 4096"
  defines "mem' \<equiv> GrantReward_tag True readable cur_season player mem"
  shows "mem' = (if cur_season \<in> node_season mem ` set rewards then mem
      else case filter (\<lambda>n. node_season mem n = 0) rewards of
        [] \<Rightarrow> mem
      | n # _ \<Rightarrow> store_bytes mem (n + kNodeSeasonEarnedOff) (u32_bytes cur_season))
    \<and> (cur_season \<in> node_season mem ` set rewards \<or> 0 \<in> node_season mem ` set rewards \<longrightarrow>
        cur_season \<in> node_season mem' ` set rewards)"
proof -
  have len: "0 + length rewards \<le> kMaxRewardNodes" using assms(6) by (simp add: kMaxRewardNodes_def)
  note scan = scan_rewards_chain[OF assms(4,5) len, of cur_season 0]
  have nz: "n \<noteq> 0" if "n \<in> set rewards" for n
  proof -
    have "reward_chain mem s node ns \<Longrightarrow> n \<in> set ns \<Longrightarrow> n \<noteq> 0" for s node ns
      by (induction ns arbitrary: node) auto
    then show ?thesis using assms(4) that by blast
  qed
  show ?thesis
  proof (cases "cur_season \<in> node_season mem ` set rewards")
    case True
    then have "mem' = mem" using scan assms(1-3)
      by (auto simp: mem'_def GrantReward_tag_def Let_def split: prod.splits)
    then show ?thesis using True by simp
  next
    case False
    show ?thesis
    proof (cases "filter (\<lambda>n. node_season mem n = 0) rewards")
      case Nil
      then have "mem' = mem" using scan assms(1-3) False
        by (auto simp: mem'_def GrantReward_tag_def Let_def)
      moreover have "0 \<notin> node_season mem ` set rewards" using Nil by (auto simp: filter_empty_conv)
      ultimately show ?thesis using False Nil by simp
    next
      case (Cons n ns)
      then have n: "n \<in> set rewards" by (metis filter_is_subset list.set_intros(1) subsetD)
      have rd: "readable (n + kNodeSeasonEarnedOff)" using assms(5) n by (simp add: nodes_readable_def list_all_iff)
      have m: "mem' = store_bytes mem (n + kNodeSeasonEarnedOff) (u32_bytes cur_season)"
        using scan assms(1-3) False Cons nz[OF n] rd
        by (simp add: mem'_def GrantReward_tag_def Let_def)
      have "node_season mem' n = cur_season" by (simp add: m node_season_def load_u32_stored)
      then show ?thesis using False Cons m n by (auto intro: rev_image_eqI)
    qed
  qed
qed

text \<open>A player at 0x10000 with one untagged reward at 0x20000.\<close>

definition reward_memory :: store where
  "reward_memory = store_bytes (\<lambda>x. 0) (0x10000 + kRewardsListHeadOff) [0, 0, 2, 0]"

theorem untagged_reward_tagged_witness:
  "node_season (GrantReward_tag True (\<lambda>a. True) 30 0x10000 reward_memory) 0x20000 = 30"
proof -
  have h: "load_ptr (0x10000 + kRewardsListHeadOff) reward_memory = 0x20000"
    by (simp add: load_ptr_def reward_memory_def store_bytes_4 kRewardsListHeadOff_def upt_rec)
  have n: "load_ptr (0x20000 + kNodeNextOff) reward_memory = 0"
    by (simp add: load_ptr_def reward_memory_def store_bytes_4 kRewardsListHeadOff_def kNodeNextOff_def upt_rec)
  have s: "node_season reward_memory 0x20000 = 0"
    by (simp add: node_season_def load_u32_def reward_memory_def store_bytes_4 kRewardsListHeadOff_def kNodeSeasonEarnedOff_def)
  have chain: "reward_chain reward_memory (0x10000 + kRewardsListSentinelOff)
      (load_ptr (0x10000 + kRewardsListHeadOff) reward_memory) [0x20000]"
    by (simp add: h n kRewardsListSentinelOff_def)
  show ?thesis
    using untagged_reward_tagged[where player = "0x10000" and cur_season = 30 and readable = "\<lambda>a. True" and mem = reward_memory
        and rewards = "[0x20000]", OF _ _ _ chain, THEN conjunct2] s
    by (simp add: nodes_readable_def)
qed

text \<open>
  Opening a rift re-arms its reward, except for challenge number 1.  The number in use is
  never 0; every player's last rewarded number becomes the one before it, which differs from it
  exactly when it is not 1.  When the reward handler of the game runs it sees that number too,
  and afterwards the player remembers 1.
\<close>
lemma rewards_rearmed:
  "GetCurrentChallengeNumber readable mem globals cs \<noteq> 0
   \<and> OpenChallengeRift_rearm True n players = replicate (length players) (rearm_value n)
   \<and> (rearm_value n = n \<longleftrightarrow> n = 1)
   \<and> ChallengeRiftHandleChallengeRewards True n orig (Some i) players = (orig (players[i := rearm_value n]))[i := 1]"
proof -
  have "rearm_value n = n \<longleftrightarrow> n = 1" by (auto simp: rearm_value_def)
  moreover have "OpenChallengeRift_rearm True n players = replicate (length players) (rearm_value n)"
    by (induction players) (auto simp: OpenChallengeRift_rearm_def)
  ultimately show ?thesis
    by (auto simp: GetCurrentChallengeNumber_def ChallengeRiftHandleChallengeRewards_def Let_def)
qed

end
