(* ===== verification/Game_Events.thy ===== *)
theory Game_Events
  imports Patches Aligned_Alloc
begin

text \<open>
  Events in the running game (\<open>PatchDynamicEvents\<close> of \<open>source/program/d3/patches.cpp\<close>, the
  variables of \<open>source/program/d3/_util_globals.cpp\<close>): the window of the community buffs is
  repaired where the game left it empty, and every event flag of the configuration is handed
  to its variable.  Memory is bytes; calls of the game's \<open>XVarBool_Set\<close> are recorded.
\<close>

section \<open>The function\<close>

record game_vars =
  gv_mem :: store
  gv_calls :: "(u64 \<times> bool \<times> u32) list"

definition table_address :: "(string \<Rightarrow> lookup_outcome) \<Rightarrow> string \<Rightarrow> u64 outcome" where
  "table_address lookup key =
     (case lookup key of
        Address a \<Rightarrow> Done a
      | PastEnd \<Rightarrow> Aborted ''read past the lookup table''
      | MissingEntry \<Rightarrow> Aborted ''missing lookup entry''
      | NoModule \<Rightarrow> Aborted ''missing module'')"

text \<open>\<open>*reinterpret_cast<T **>(GameOffsetFromTable(key))\<close>.\<close>

definition table_pointer :: "(string \<Rightarrow> lookup_outcome) \<Rightarrow> string \<Rightarrow> game_vars \<Rightarrow> u64 outcome" where
  "table_pointer lookup key st = bind_outcome (table_address lookup key) (\<lambda>a. Done (load_ptr a (gv_mem st)))"

definition kBuffStartFallback :: s64 where "kBuffStartFallback = 1"
definition kBuffEndFallback :: s64 where "kBuffEndFallback = 0x7FFFFFFFFFFFFFFF"

definition repair_window :: "u64 \<Rightarrow> u64 \<Rightarrow> game_vars \<Rightarrow> game_vars" where
  "repair_window buff_start buff_end st =
     (if buff_start \<noteq> 0 \<and> buff_end \<noteq> 0
       \<and> (load_ptr buff_start (gv_mem st) = 0 \<or> load_ptr buff_end (gv_mem st) = 0
          \<or> sint (load_ptr buff_end (gv_mem st)) \<le> sint (load_ptr buff_start (gv_mem st)))
      then st\<lparr>gv_mem := store_ptr buff_end kBuffEndFallback (store_ptr buff_start kBuffStartFallback (gv_mem st))\<rparr>
      else st)"

definition store_egg_flag :: "u64 \<Rightarrow> bool \<Rightarrow> game_vars \<Rightarrow> game_vars" where
  "store_egg_flag egg_flag v st =
     (if egg_flag \<noteq> 0 then st\<lparr>gv_mem := store_bytes (gv_mem st) egg_flag (u32_bytes (if v then 1 else 0))\<rparr> else st)"

text \<open>\<open>if (var) XVarBool_Set(var, v, 3u)\<close>.\<close>

definition set_bool :: "u64 \<Rightarrow> bool \<Rightarrow> game_vars \<Rightarrow> game_vars" where
  "set_bool var v st = (if var \<noteq> 0 then st\<lparr>gv_calls := gv_calls st @ [(var, v, 3)]\<rparr> else st)"

fun set_pointed :: "(string \<Rightarrow> lookup_outcome) \<Rightarrow> (string \<times> bool) list \<Rightarrow> game_vars \<Rightarrow> game_vars outcome" where
  "set_pointed lookup [] st = Done st"
| "set_pointed lookup ((key, v) # kvs) st =
     bind_outcome (table_pointer lookup key st) (\<lambda>var. set_pointed lookup kvs (set_bool var v st))"

definition pointed_vars :: "season_flags \<Rightarrow> (string \<times> bool) list" where
  "pointed_vars ev =
     [(''event_igr'', ev IgrEnabled), (''event_ann'', ev AnniversaryEnabled),
      (''event_egg_xvar'', ev EasterEggWorldEnabled), (''event_enabled'', True), (''event_season_only'', False)]"

text \<open>The variables bound as references, by the key of their address; \<open>ParagonCap\<close> is no flag.\<close>

definition bound_vars :: "season_flags \<Rightarrow> (string \<times> bool) list" where
  "bound_vars ev =
     [(''event_double_keystones'', ev DoubleRiftKeystones), (''event_double_blood_shards'', ev DoubleBloodShards),
      (''event_double_goblins'', ev DoubleTreasureGoblins), (''event_double_bounty_bags'', ev DoubleBountyBags),
      (''event_royal_grandeur'', ev RoyalGrandeur), (''event_legacy_of_nightmares'', ev LegacyOfNightmares),
      (''event_triunes_will'', ev TriunesWill), (''event_pandemonium'', ev Pandemonium),
      (''event_kanai_powers'', ev KanaiPowers), (''event_trials_of_tempests'', ev TrialsOfTempests),
      (''event_shadow_clones'', ev ShadowClones), (''event_fourth_cube_slot'', ev FourthKanaisCubeSlot),
      (''event_ethereal_items'', ev EtherealItems), (''event_soul_shards'', ev SoulShards),
      (''event_swarm_rifts'', ev SwarmRifts), (''event_sanctified_items'', ev SanctifiedItems),
      (''event_dark_alchemy'', ev DarkAlchemy), (''event_nesting_portals'', ev NestingPortals),
      (''event_paragon_cap'', False)]"

text \<open>\<open>statics\<close>: the addresses the references were bound to when the module was initialised.\<close>

definition PatchDynamicEvents_run ::
  "(string \<Rightarrow> lookup_outcome) \<Rightarrow> (string \<Rightarrow> u64) \<Rightarrow> events_config \<Rightarrow> game_vars \<Rightarrow> game_vars outcome" where
  "PatchDynamicEvents_run lookup statics ev st =
     (if \<not> ev_active ev then Done st
      else
        bind_outcome (table_pointer lookup ''event_buff_start'' st) (\<lambda>buff_start.
        bind_outcome (table_pointer lookup ''event_buff_end'' st) (\<lambda>buff_end.
        let st = repair_window buff_start buff_end st in
        bind_outcome (table_pointer lookup ''event_egg_flag'' st) (\<lambda>egg_flag.
        let st = store_egg_flag egg_flag (ev_flags ev EasterEggWorldEnabled) st in
        bind_outcome (set_pointed lookup (pointed_vars (ev_flags ev)) st) (\<lambda>st.
        Done (fold (\<lambda>(key, v). set_bool (statics key) v) (bound_vars (ev_flags ev)) st))))))"

section \<open>Cells that do not overlap\<close>

definition cells_apart :: "u64 \<times> u64 \<Rightarrow> u64 \<times> u64 \<Rightarrow> bool" where
  "cells_apart = (\<lambda>(a, n) (b, m). n \<le> b - a \<and> m \<le> a - b)"

lemma cells_apart_outside:
  assumes "cells_apart (a, n) (b, m)" "x - a < n"
  shows "\<not> x - b < m"
proof -
  define d where "d = b - a"
  define i where "i = x - a"
  have h: "n \<le> d" "m \<le> 0 - d" "i < n" using assms by (auto simp: cells_apart_def d_def i_def)
  then have lt: "unat i < unat d" by (simp add: word_le_nat_alt word_less_nat_alt)
  have "unat (- d) \<le> unat (i - d)"
    using lt unat_sub_if_size[of 0 d] unat_sub_if_size[of i d] by (simp add: word_size)
  then have "\<not> i - d < m" using h(2) by (simp add: word_le_nat_alt word_less_nat_alt)
  then show ?thesis by (simp add: i_def d_def)
qed

lemma load_ptr_store_ptr_apart:
  assumes "cells_apart (a, 8) (b, 8)" shows "load_ptr a (store_ptr b v mem) = load_ptr a mem"
proof (rule load_ptr_cong)
  fix i :: nat assume "i < 8"
  then have "a + of_nat i - a < 8" by (simp add: word_less_nat_alt unat_of_nat)
  then show "store_ptr b v mem (a + of_nat i) = mem (a + of_nat i)"
    using cells_apart_outside[OF assms, of "a + of_nat i"] by (simp add: store_ptr_def)
qed

lemma load_ptr_store_bytes_apart:
  assumes "cells_apart (a, 8) (b, 4)" "length bs = 4" shows "load_ptr a (store_bytes mem b bs) = load_ptr a mem"
proof (rule load_ptr_cong)
  fix i :: nat assume "i < 8"
  then have "a + of_nat i - a < 8" by (simp add: word_less_nat_alt unat_of_nat)
  then have "\<not> a + of_nat i - b < 4" using cells_apart_outside[OF assms(1), of "a + of_nat i"] by simp
  then show "store_bytes mem b bs (a + of_nat i) = mem (a + of_nat i)"
    using assms(2) by (intro store_bytes_other) (simp add: word_less_nat_alt)
qed

lemma cells_apart_flip: "cells_apart p q \<Longrightarrow> cells_apart q p"
  by (auto simp: cells_apart_def split_beta)


lemma load_ptr_repair_window:
  "cells_apart (a, 8) (s, 8) \<Longrightarrow> cells_apart (a, 8) (e, 8) \<Longrightarrow>
   load_ptr a (gv_mem (repair_window s e st)) = load_ptr a (gv_mem st)"
  by (simp add: repair_window_def load_ptr_store_ptr_apart)

lemma load_ptr_store_egg_flag:
  "cells_apart (a, 8) (f, 4) \<Longrightarrow> load_ptr a (gv_mem (store_egg_flag f v st)) = load_ptr a (gv_mem st)"
  by (simp add: store_egg_flag_def load_ptr_store_bytes_apart)

section \<open>What the calls leave in the variables\<close>

lemma set_bool_mem [simp]: "gv_mem (set_bool var v st) = gv_mem st"
  by (simp add: set_bool_def)

lemma fold_set_bool_mem [simp]: "gv_mem (fold (\<lambda>(k, v). set_bool (f k) v) kvs st) = gv_mem st"
  by (induction kvs arbitrary: st) auto

lemma fold_set_bool_calls:
  "0 \<notin> (f \<circ> fst) ` set kvs \<Longrightarrow>
   gv_calls (fold (\<lambda>(k, v). set_bool (f k) v) kvs st) = gv_calls st @ map (\<lambda>(k, v). (f k, v, 3)) kvs"
  by (induction kvs arbitrary: st) (auto simp: set_bool_def)

lemma set_pointed_eq:
  "list_all (\<lambda>(k, v). lookup k = Address (A k)) kvs \<Longrightarrow>
   set_pointed lookup kvs st = Done (fold (\<lambda>(k, v). set_bool (load_ptr (A k) (gv_mem st)) v) kvs st)"
  by (induction kvs arbitrary: st) (auto simp: table_pointer_def table_address_def)

text \<open>The value of a variable after calls: that of the last one.\<close>

definition last_set :: "(u64 \<times> bool \<times> u32) list \<Rightarrow> u64 \<Rightarrow> bool option" where
  "last_set cs var = map_of (rev (map (\<lambda>(a, v, _). (a, v)) cs)) var"

lemma last_set_appended:
  assumes "distinct (map fst kvs)" "(var, v) \<in> set kvs"
  shows "last_set (cs @ map (\<lambda>(a, v). (a, v, n)) kvs) var = Some v"
proof -
  have "map_of (rev kvs) var = Some v"
    using assms by (intro map_of_is_SomeI) (auto simp: rev_map[symmetric])
  moreover have "map (\<lambda>(a, v, _). (a, v)) (map (\<lambda>(a, v). (a, v, n)) kvs) = kvs"
    by (auto simp: comp_def split_beta)
  ultimately show ?thesis by (simp add: last_set_def del: map_map)
qed


section \<open>The events of the configuration reach the game\<close>

definition event_addr :: "(string \<Rightarrow> lookup_outcome) \<Rightarrow> string \<Rightarrow> u64" where
  "event_addr lookup key = address_or_null (lookup key)"

definition event_pointer :: "(string \<Rightarrow> lookup_outcome) \<Rightarrow> store \<Rightarrow> string \<Rightarrow> u64" where
  "event_pointer lookup mem key = load_ptr (event_addr lookup key) mem"

definition pointer_keys :: "string list" where
  "pointer_keys = [''event_buff_start'', ''event_buff_end'', ''event_egg_flag''] @ map fst (pointed_vars (\<lambda>_. False))"

text \<open>The cells the function stores to, before the cells it reads pointers from.\<close>

definition event_cells :: "(string \<Rightarrow> lookup_outcome) \<Rightarrow> store \<Rightarrow> (u64 \<times> u64) list" where
  "event_cells lookup mem =
     [(event_pointer lookup mem ''event_buff_start'', 8), (event_pointer lookup mem ''event_buff_end'', 8),
      (event_pointer lookup mem ''event_egg_flag'', 4)]
     @ map (\<lambda>k. (event_addr lookup k, 8)) pointer_keys"

text \<open>Every variable set, with the value it gets; and the variable of each flag.\<close>

definition event_sets :: "(string \<Rightarrow> lookup_outcome) \<Rightarrow> store \<Rightarrow> season_flags \<Rightarrow> (u64 \<times> bool) list" where
  "event_sets lookup mem ev =
     map (\<lambda>(k, v). (event_pointer lookup mem k, v)) (pointed_vars ev)
     @ map (\<lambda>(k, v). (event_addr lookup k, v)) (bound_vars ev)"

definition event_var :: "(string \<Rightarrow> lookup_outcome) \<Rightarrow> store \<Rightarrow> season_flag \<Rightarrow> u64" where
  "event_var lookup mem flag =
     (case flag of
        IgrEnabled \<Rightarrow> event_pointer lookup mem ''event_igr''
      | AnniversaryEnabled \<Rightarrow> event_pointer lookup mem ''event_ann''
      | EasterEggWorldEnabled \<Rightarrow> event_pointer lookup mem ''event_egg_xvar''
      | DoubleRiftKeystones \<Rightarrow> event_addr lookup ''event_double_keystones''
      | DoubleBloodShards \<Rightarrow> event_addr lookup ''event_double_blood_shards''
      | DoubleTreasureGoblins \<Rightarrow> event_addr lookup ''event_double_goblins''
      | DoubleBountyBags \<Rightarrow> event_addr lookup ''event_double_bounty_bags''
      | RoyalGrandeur \<Rightarrow> event_addr lookup ''event_royal_grandeur''
      | LegacyOfNightmares \<Rightarrow> event_addr lookup ''event_legacy_of_nightmares''
      | TriunesWill \<Rightarrow> event_addr lookup ''event_triunes_will''
      | Pandemonium \<Rightarrow> event_addr lookup ''event_pandemonium''
      | KanaiPowers \<Rightarrow> event_addr lookup ''event_kanai_powers''
      | TrialsOfTempests \<Rightarrow> event_addr lookup ''event_trials_of_tempests''
      | ShadowClones \<Rightarrow> event_addr lookup ''event_shadow_clones''
      | FourthKanaisCubeSlot \<Rightarrow> event_addr lookup ''event_fourth_cube_slot''
      | EtherealItems \<Rightarrow> event_addr lookup ''event_ethereal_items''
      | SoulShards \<Rightarrow> event_addr lookup ''event_soul_shards''
      | SwarmRifts \<Rightarrow> event_addr lookup ''event_swarm_rifts''
      | SanctifiedItems \<Rightarrow> event_addr lookup ''event_sanctified_items''
      | DarkAlchemy \<Rightarrow> event_addr lookup ''event_dark_alchemy''
      | NestingPortals \<Rightarrow> event_addr lookup ''event_nesting_portals'')"

lemma event_var_set: "(event_var lookup mem flag, ev flag) \<in> set (event_sets lookup mem ev)"
  by (cases flag) (simp_all add: event_var_def event_sets_def pointed_vars_def bound_vars_def)

text \<open>When the keys resolve and the pointers are set, in cells that do not overlap.\<close>

definition events_mapped :: "(string \<Rightarrow> lookup_outcome) \<Rightarrow> store \<Rightarrow> bool" where
  "events_mapped lookup mem \<longleftrightarrow>
     list_all (\<lambda>k. lookup k = Address (event_addr lookup k)) pointer_keys
     \<and> list_all (\<lambda>k. event_pointer lookup mem k \<noteq> 0) [''event_buff_start'', ''event_buff_end'', ''event_egg_flag'']
     \<and> sorted_wrt cells_apart (event_cells lookup mem)
     \<and> distinct (0 # map fst (event_sets lookup mem (\<lambda>_. False)))"

lemma event_targets_fst: "map fst (event_sets lookup mem ev) = map fst (event_sets lookup mem (\<lambda>_. False))"
  by (simp add: event_sets_def pointed_vars_def bound_vars_def)

lemma PatchDynamicEvents_run_eq:
  fixes lookup st
  defines "A \<equiv> event_addr lookup" and "p \<equiv> event_pointer lookup (gv_mem st)"
  assumes "events_mapped lookup (gv_mem st)" "ev_active ev"
  defines "st1 \<equiv> repair_window (p ''event_buff_start'') (p ''event_buff_end'') st"
  defines "st2 \<equiv> store_egg_flag (p ''event_egg_flag'') (ev_flags ev EasterEggWorldEnabled) st1"
  shows "PatchDynamicEvents_run lookup A ev st =
    Done (st2\<lparr>gv_calls := gv_calls st @ map (\<lambda>(a, v). (a, v, 3)) (event_sets lookup (gv_mem st) (ev_flags ev))\<rparr>)"
proof -
  have look: "list_all (\<lambda>k. lookup k = Address (A k)) pointer_keys" and dist: "distinct (0 # map fst (event_sets lookup (gv_mem st) (\<lambda>_. False)))"
    and cells: "sorted_wrt cells_apart (event_cells lookup (gv_mem st))"
    using assms(3) by (simp_all add: events_mapped_def A_def)
  have keep: "load_ptr (A k) (gv_mem st2) = p k" "load_ptr (A k) (gv_mem st1) = p k" if "k \<in> set pointer_keys" for k
  proof -
    have "cells_apart (p ''event_buff_start'', 8) (A k, 8)" "cells_apart (p ''event_buff_end'', 8) (A k, 8)"
      "cells_apart (p ''event_egg_flag'', 4) (A k, 8)"
      using cells that by (auto simp: event_cells_def sorted_wrt_append A_def p_def)
    note apart = this[THEN cells_apart_flip]
    show "load_ptr (A k) (gv_mem st2) = p k" "load_ptr (A k) (gv_mem st1) = p k"
      unfolding st2_def st1_def load_ptr_store_egg_flag[OF apart(3)] load_ptr_repair_window[OF apart(1,2)]
      by (simp_all add: p_def event_pointer_def A_def)
  qed
  have tp: "table_pointer lookup k st = Done (p k)" "table_pointer lookup k st1 = Done (p k)" "table_pointer lookup k st2 = Done (p k)"
    if "k \<in> set pointer_keys" for k
    using look that keep[OF that]
    by (auto simp: table_pointer_def table_address_def list_all_iff p_def event_pointer_def A_def)
  have pk: "fst ` set (pointed_vars f) \<subseteq> set pointer_keys" for f by (auto simp: pointer_keys_def pointed_vars_def)
  have la: "list_all (\<lambda>(k, v). lookup k = Address (A k)) (pointed_vars f)" for f
    using look pk[of f] by (force simp: list_all_iff)
  have "fold (\<lambda>(k, v). set_bool (load_ptr (A k) (gv_mem st2)) v) (pointed_vars f) s
      = fold (\<lambda>(k, v). set_bool (p k) v) (pointed_vars f) s" for f s
    using pk[of f] keep(1) by (intro fold_cong) auto
  then have sp: "set_pointed lookup (pointed_vars f) st2 = Done (fold (\<lambda>(k, v). set_bool (p k) v) (pointed_vars f) st2)" for f
    using set_pointed_eq[OF la, of f st2] by simp
  have n0: "0 \<notin> (p \<circ> fst) ` set (pointed_vars f)" "0 \<notin> (A \<circ> fst) ` set (bound_vars f)" for f
  proof -
    have "0 \<notin> fst ` set (event_sets lookup (gv_mem st) f)"
      using dist event_targets_fst[of lookup "gv_mem st" f] by (metis distinct.simps(2) set_map)
    then show "0 \<notin> (p \<circ> fst) ` set (pointed_vars f)" "0 \<notin> (A \<circ> fst) ` set (bound_vars f)"
      by (force simp: event_sets_def p_def A_def image_iff)+
  qed
  have mem: "PatchDynamicEvents_run lookup A ev st = Done (fold (\<lambda>(k, v). set_bool (A k) v) (bound_vars (ev_flags ev))
      (fold (\<lambda>(k, v). set_bool (p k) v) (pointed_vars (ev_flags ev)) st2))"
    using assms(4) by (simp add: PatchDynamicEvents_run_def tp pointer_keys_def Let_def sp flip: st1_def st2_def)
  have c: "gv_calls st2 = gv_calls st" by (simp add: st2_def st1_def store_egg_flag_def repair_window_def)
  have "gv_calls (fold (\<lambda>(k, v). set_bool (A k) v) (bound_vars f) (fold (\<lambda>(k, v). set_bool (p k) v) (pointed_vars f) st2))
      = gv_calls st @ map (\<lambda>(a, v). (a, v, 3)) (event_sets lookup (gv_mem st) f)" for f
    unfolding fold_set_bool_calls[OF n0(2)] fold_set_bool_calls[OF n0(1)] c
    by (simp add: event_sets_def p_def A_def split_beta comp_def)
  then show ?thesis unfolding mem by (intro arg_cong[of _ _ Done] game_vars.equality) simp_all
qed

lemma repair_window_valid:
  fixes s e :: u64 and st :: game_vars
  assumes "s \<noteq> 0" "e \<noteq> 0" "cells_apart (s, 8) (e, 8)"
  defines "m' \<equiv> gv_mem (repair_window s e st)"
  shows "load_ptr s m' \<noteq> 0" "load_ptr e m' \<noteq> 0" "sint (load_ptr s m') < sint (load_ptr e m')"
  using assms
  by (auto simp: repair_window_def load_store_ptr load_ptr_store_ptr_apart kBuffStartFallback_def kBuffEndFallback_def)

lemma store_outside:
  "\<not> x - s < 8 \<Longrightarrow> \<not> x - e < 8 \<Longrightarrow> gv_mem (repair_window s e st) x = gv_mem st x"
  "\<not> x - f < 4 \<Longrightarrow> gv_mem (store_egg_flag f v st) x = gv_mem st x"
  by (auto simp: repair_window_def store_ptr_def store_egg_flag_def word_less_nat_alt intro!: store_bytes_other)

text \<open>
  C38: Every event of the configuration is switched in the game.  With events active and the
  game's table and pointers in place the function ends; then the variable of every event flag
  was last set to the configured value, the Easter egg word agrees, the window of the
  community buffs is not empty, a window that was valid is left alone, and no other byte of
  memory changes.
\<close>
theorem events_reach_game:
  assumes "events_mapped lookup (gv_mem st)" "ev_active ev"
  defines "p \<equiv> event_pointer lookup (gv_mem st)"
  shows "\<exists>st'. PatchDynamicEvents_run lookup (event_addr lookup) ev st = Done st'
     \<and> (\<forall>flag. last_set (gv_calls st') (event_var lookup (gv_mem st) flag) = Some (ev_flags ev flag))
     \<and> load_u32 (gv_mem st') (p ''event_egg_flag'') = (if ev_flags ev EasterEggWorldEnabled then 1 else 0)
     \<and> load_ptr (p ''event_buff_start'') (gv_mem st') \<noteq> 0
     \<and> sint (load_ptr (p ''event_buff_start'') (gv_mem st')) < sint (load_ptr (p ''event_buff_end'') (gv_mem st'))
     \<and> (\<forall>x. gv_mem st' x \<noteq> gv_mem st x \<longrightarrow> x - p ''event_egg_flag'' < 4
          \<or> (x - p ''event_buff_start'' < 8 \<or> x - p ''event_buff_end'' < 8)
             \<and> (load_ptr (p ''event_buff_start'') (gv_mem st) = 0 \<or> load_ptr (p ''event_buff_end'') (gv_mem st) = 0
                \<or> sint (load_ptr (p ''event_buff_end'') (gv_mem st)) \<le> sint (load_ptr (p ''event_buff_start'') (gv_mem st))))"
proof -
  define s e f where "s = p ''event_buff_start''" and "e = p ''event_buff_end''" and "f = p ''event_egg_flag''"
  define st1 where "st1 = repair_window s e st"
  define st2 where "st2 = store_egg_flag f (ev_flags ev EasterEggWorldEnabled) st1"
  have nz: "s \<noteq> 0" "e \<noteq> 0" "f \<noteq> 0" and ap: "cells_apart (s, 8) (e, 8)" "cells_apart (s, 8) (f, 4)" "cells_apart (e, 8) (f, 4)"
    and dist: "distinct (0 # map fst (event_sets lookup (gv_mem st) (\<lambda>_. False)))"
    using assms(1) by (simp_all add: events_mapped_def event_cells_def s_def e_def f_def p_def)
  have run: "PatchDynamicEvents_run lookup (event_addr lookup) ev st = Done (st2\<lparr>gv_calls := gv_calls st @
      map (\<lambda>(a, v). (a, v, 3)) (event_sets lookup (gv_mem st) (ev_flags ev))\<rparr>)"
    unfolding st2_def st1_def s_def e_def f_def p_def by (rule PatchDynamicEvents_run_eq[OF assms(1,2)])
  have "distinct (map fst (event_sets lookup (gv_mem st) (ev_flags ev)))"
    using dist by (simp only: event_targets_fst[of lookup "gv_mem st" "ev_flags ev"] distinct.simps)
  then have set': "last_set (gv_calls st @ map (\<lambda>(a, v). (a, v, 3)) (event_sets lookup (gv_mem st) (ev_flags ev)))
      (event_var lookup (gv_mem st) flag) = Some (ev_flags ev flag)" for flag
    using event_var_set by (rule last_set_appended)
  have egg: "load_u32 (gv_mem st2) f = (if ev_flags ev EasterEggWorldEnabled then 1 else 0)"
    using nz by (simp add: st2_def store_egg_flag_def load_u32_stored)
  have keep: "load_ptr s (gv_mem st2) = load_ptr s (gv_mem st1)" "load_ptr e (gv_mem st2) = load_ptr e (gv_mem st1)"
    by (simp_all add: st2_def load_ptr_store_egg_flag ap)
  have win: "load_ptr s (gv_mem st1) \<noteq> 0" "sint (load_ptr s (gv_mem st1)) < sint (load_ptr e (gv_mem st1))"
    using repair_window_valid[OF nz(1,2) ap(1), of st] by (simp_all add: st1_def)
  have out: "x - f < 4 \<or> (x - s < 8 \<or> x - e < 8) \<and> (load_ptr s (gv_mem st) = 0 \<or> load_ptr e (gv_mem st) = 0
      \<or> sint (load_ptr e (gv_mem st)) \<le> sint (load_ptr s (gv_mem st)))" if "gv_mem st2 x \<noteq> gv_mem st x" for x
  proof (rule ccontr)
    assume h: "\<not> ?thesis"
    then have "gv_mem st2 x = gv_mem st1 x" using store_outside(2) by (simp add: st2_def)
    moreover have "gv_mem st1 x = gv_mem st x"
      using h store_outside(1)[of x s e st] by (cases "x - s < 8 \<or> x - e < 8") (auto simp: st1_def repair_window_def)
    ultimately show False using that by simp
  qed
  show ?thesis unfolding run s_def[symmetric] e_def[symmetric] f_def[symmetric]
    using set' egg win out by (simp add: keep)
qed


text \<open>The supported build at an address, its pointers set, and an empty window.\<close>

definition sample_lookup :: "string \<Rightarrow> lookup_outcome" where
  "sample_lookup k =
     (case map_of (map (\<lambda>(o', k). (k, o')) event_flag_offsets) k of
        Some o' \<Rightarrow> Address (0x8000000000 + ucast o')
      | None \<Rightarrow> MissingEntry)"

definition sample_pointers :: "(u64 \<times> u64) list" where
  "sample_pointers =
     [(0x800114ACB8, 0x9000000000), (0x800114ACC0, 0x9000000008), (0x800114AE38, 0x9000000010), (0x8001154BF0, 0x9000000100),
      (0x8001154C00, 0x9000000200), (0x8001152CC8, 0x9000000300), (0x800114ACD8, 0x9000000400), (0x800114ACE8, 0x9000000500)]"

definition sample_vars :: game_vars where
  "sample_vars = \<lparr>gv_mem = fold (\<lambda>(a, v). store_ptr a v) sample_pointers (\<lambda>x. 0), gv_calls = []\<rparr>"

lemma sample_addr:
  "event_addr sample_lookup k =
     (case map_of (map (\<lambda>(o', k). (k, o')) event_flag_offsets) k of Some o' \<Rightarrow> 0x8000000000 + ucast o' | None \<Rightarrow> 0)"
  by (simp add: event_addr_def sample_lookup_def address_or_null_def split: option.splits)

lemma sample_pointer:
  "list_all (\<lambda>(a, v). load_ptr a (gv_mem sample_vars) = v) sample_pointers"
  by (simp add: sample_vars_def sample_pointers_def load_store_ptr load_ptr_store_ptr_apart cells_apart_def)

lemma sample_mapped: "events_mapped sample_lookup (gv_mem sample_vars)"
  using sample_pointer
  by (simp add: events_mapped_def pointer_keys_def pointed_vars_def bound_vars_def event_cells_def event_sets_def event_pointer_def
      sample_addr event_flag_offsets_def sample_pointers_def cells_apart_def, simp add: sample_lookup_def event_flag_offsets_def)

theorem events_reach_game_witness:
  "\<exists>st'. PatchDynamicEvents_run sample_lookup (event_addr sample_lookup) default_events sample_vars = Done st'
     \<and> last_set (gv_calls st') (event_var sample_lookup (gv_mem sample_vars) DarkAlchemy) = Some True
     \<and> last_set (gv_calls st') (event_var sample_lookup (gv_mem sample_vars) IgrEnabled) = Some False
     \<and> load_ptr (event_pointer sample_lookup (gv_mem sample_vars) ''event_buff_start'') (gv_mem st') \<noteq> 0"
proof -
  have "ev_active default_events" "ev_flags default_events DarkAlchemy" "\<not> ev_flags default_events IgrEnabled"
    by (simp_all add: default_events_def default_config_def flag_row_def D3HACK_SEASON_EVENT_FLAGS_def)
  with events_reach_game[OF sample_mapped, of default_events] show ?thesis by fastforce
qed

end
