(* ===== verification/Symbol_Hooks.thy ===== *)
theory Symbol_Hooks
  imports Rtld Aligned_Alloc Patcher
begin

text \<open>
  Hooks on symbols of other modules: the account functions replaced by
  \<open>source/program/tagnx.cpp\<close>, its cached curl functions, and the installation of the input
  hooks (\<open>InstallHidHooks\<close> of \<open>source/program/gui2/input/hid_block.cpp\<close>).  Symbols are looked
  up with \<open>GetSymbol\<close> in the modules found at start-up; installing a hook is recorded.
\<close>

section \<open>Addresses of symbols\<close>

text \<open>Where \<open>GetSymbol\<close> looks: \<open>None\<close> below is an abort or a chain longer than the fuel.\<close>

record symbol_env =
  se_fuel :: nat
  se_image :: image
  se_data :: module_data
  se_infos :: "ModuleInfo option list"

fun LookupSymbolAddress_in :: "symbol_env \<Rightarrow> string \<Rightarrow> nat list \<Rightarrow> Rtld.objects \<Rightarrow> (u64 \<times> Rtld.objects) option" where
  "LookupSymbolAddress_in e name [] objs = Some (0, objs)"
| "LookupSymbolAddress_in e name (i # is) objs =
     (if \<not> HasModule (se_infos e) i then LookupSymbolAddress_in e name is objs
      else case GetSymbol (se_fuel e) (se_image e) (se_data e) (se_infos e) i name objs of
             None \<Rightarrow> None
           | Some (None, objs) \<Rightarrow> LookupSymbolAddress_in e name is objs
           | Some (Some symbol, objs) \<Rightarrow>
               if st_value (sym_at (se_image e) symbol) = 0 then LookupSymbolAddress_in e name is objs
               else case GetModuleInfo (se_infos e) i of
                      None \<Rightarrow> None
                    | Some info \<Rightarrow> Some (rg_start (m_Total info) + st_value (sym_at (se_image e) symbol), objs))"

definition LookupSymbolAddress :: "symbol_env \<Rightarrow> string \<Rightarrow> Rtld.objects \<Rightarrow> (u64 \<times> Rtld.objects) option" where
  "LookupSymbolAddress e name objs = LookupSymbolAddress_in e name [0..<idx_End] objs"

section \<open>TagNX\<close>

definition kDummyToken :: string where
  "kDummyToken =
     ''eyJhbGciOiJIUzI1NiIsInR5cCI6IkpXVCJ9.eyJhdWQiOiJlZDllMmYwNWQyODZmN2I4Iiwic3ViIjoiMDAwMDAwMDAwMDAwMDA'' @
     ''wMCIsIm5pbnRlbmRvIjp7ImF0IjoxOTk5OTk5OTk5LCJwZGkiOiIwMDAwMDAwMC0wMDAwLTAwMDAtMDAwMC0wMDAwMDAwMDAwMDA'' @
     ''iLCJhdiI6IjAwMDAiLCJhaSI6IjAwMDAwMDAwMDAwMDAwMDAiLCJlZGkiOiIwMDAwMDAwMDAwMDAwMDAwMDAwMDAwMDAwMDAwMDA'' @
     ''wMCJ9LCJpc3MiOiJodHRwczovL2UwZDY3YzUwOWZiMjAzODU4ZWJjYjJmZTNmODhjMmFhLmJhYXMubmludGVuZG8uY29tIiwidHl'' @
     ''wIjoiaWRfdG9rZW4iLCJleHAiOjE5OTk5OTk5OTksImlhdCI6MTk5OTk5OTk5OSwiYnM6ZGlkIjoiMDAwMDAwMDAwMDAwMDAwMCI'' @
     ''sImp0aSI6IjAwMDAwMDAwLTAwMDAtMDAwMC0wMDAwLTAwMDAwMDAwMDAwMCJ9.Q0Hl0DOFQ0AUg728GZIrr9HjgYjdTHli8uuB_s'' @
     ''l0MIg''"

definition kSymEnsureAccount :: string where
  "kSymEnsureAccount = ''_ZN2nn7account36EnsureNetworkServiceAccountAvailableERKNS0_10UserHandleE''"

definition kSymIsAccountAvailable :: string where
  "kSymIsAccountAvailable = ''_ZN2nn7account32IsNetworkServiceAccountAvailableEPbRKNS0_10UserHandleE''"

definition kSymAsyncContextGetResult :: string where
  "kSymAsyncContextGetResult = ''_ZN2nn7account12AsyncContext9GetResultEv''"

definition kSymGetNetworkServiceAccountId :: string where
  "kSymGetNetworkServiceAccountId = ''_ZN2nn7account26GetNetworkServiceAccountIdEPNS0_23NetworkServiceAccountIdERKNS0_10UserHandleE''"

definition kSymLoadNSAIDTokenCache :: string where
  "kSymLoadNSAIDTokenCache = ''_ZN2nn7account37LoadNetworkServiceAccountIdTokenCacheEPmPcmRKNS0_10UserHandleE''"

definition kSymGetNetworkServiceLicenseKind :: string where
  "kSymGetNetworkServiceLicenseKind = ''_ZN2nn7account37AsyncNetworkServiceLicenseInfoContext28GetNetworkServiceLicenseKindEv''"

definition kSymLoadModule :: string where
  "kSymLoadModule = ''_ZN2nn2ro10LoadModuleEPNS0_6ModuleEPKvPvmi''"

text \<open>The flags of a hook by its symbol: installed, and reported as missing.\<close>

record tagnx_state =
  tn_objs :: Rtld.objects
  tn_installed :: "string \<Rightarrow> bool"
  tn_missing_logged :: "string \<Rightarrow> bool"
  tn_installs :: "(string \<times> u64) list"
  tn_log :: "(string \<times> bool) list"

definition InstallHookIfFound :: "symbol_env \<Rightarrow> string \<Rightarrow> tagnx_state \<Rightarrow> tagnx_state option" where
  "InstallHookIfFound e symbol st =
     (if tn_installed st symbol then Some st
      else case LookupSymbolAddress e symbol (tn_objs st) of
             None \<Rightarrow> None
           | Some (addr, objs) \<Rightarrow>
               let st = st\<lparr>tn_objs := objs\<rparr>
               in if addr = 0 then
                    Some (if \<not> tn_missing_logged st symbol
                          then st\<lparr>tn_log := tn_log st @ [(symbol, False)],
                                  tn_missing_logged := (tn_missing_logged st)(symbol := True)\<rparr>
                          else st)
                  else
                    Some (st\<lparr>tn_installs := tn_installs st @ [(symbol, addr)],
                             tn_installed := (tn_installed st)(symbol := True),
                             tn_log := tn_log st @ [(symbol, True)]\<rparr>))"

fun install_all :: "symbol_env \<Rightarrow> string list \<Rightarrow> tagnx_state \<Rightarrow> tagnx_state option" where
  "install_all e [] st = Some st"
| "install_all e (s # ss) st = Option.bind (InstallHookIfFound e s st) (install_all e ss)"

definition account_symbols :: "string list" where
  "account_symbols =
     [kSymEnsureAccount, kSymIsAccountAvailable, kSymAsyncContextGetResult, kSymGetNetworkServiceAccountId,
      kSymLoadNSAIDTokenCache, kSymGetNetworkServiceLicenseKind]"

definition TryInstallHooks :: "symbol_env \<Rightarrow> tagnx_state \<Rightarrow> tagnx_state option" where
  "TryInstallHooks e st = install_all e account_symbols st"

definition TryInstallLoadModuleHook :: "symbol_env \<Rightarrow> tagnx_state \<Rightarrow> tagnx_state option" where
  "TryInstallLoadModuleHook e st = InstallHookIfFound e kSymLoadModule st"

definition tagnx_InstallHooks :: "symbol_env \<Rightarrow> tagnx_state \<Rightarrow> tagnx_state option" where
  "tagnx_InstallHooks e st = Option.bind (TryInstallHooks e st) (TryInstallLoadModuleHook e)"

text \<open>\<open>before\<close> and \<open>after\<close>: where symbols are looked up around the call of the original.\<close>

definition LoadModule_callback :: "symbol_env \<Rightarrow> symbol_env \<Rightarrow> tagnx_state \<Rightarrow> tagnx_state option" where
  "LoadModule_callback before after st = Option.bind (TryInstallHooks before st) (TryInstallHooks after)"

text \<open>The replacements: the result, and what they store behind pointers that are not null.\<close>

definition EnsureNetworkServiceAccountAvailable :: s64 where "EnsureNetworkServiceAccountAvailable = 0"

definition IsNetworkServiceAccountAvailable :: "u64 \<Rightarrow> store \<Rightarrow> s64 \<times> store" where
  "IsNetworkServiceAccountAvailable out_available mem =
     (0, if out_available \<noteq> 0 then mem(out_available := 1) else mem)"

definition AsyncContextGetResult :: s64 where "AsyncContextGetResult = 0"

definition GetNetworkServiceAccountId :: "u64 \<Rightarrow> store \<Rightarrow> s64 \<times> store" where
  "GetNetworkServiceAccountId out_id mem = (0, if out_id \<noteq> 0 then store_ptr out_id 0x69 mem else mem)"

text \<open>\<open>token\<close> is the address of \<open>kDummyToken\<close>.\<close>

definition LoadNSAIDTokenCache :: "u64 \<Rightarrow> u64 \<Rightarrow> u64 \<Rightarrow> store \<Rightarrow> s64 \<times> store" where
  "LoadNSAIDTokenCache token out_size out_ptr mem =
     (let mem = (if out_size \<noteq> 0 then store_ptr out_size (of_nat (length kDummyToken)) mem else mem);
          mem = (if out_ptr \<noteq> 0 then store_ptr out_ptr token mem else mem)
      in (0, mem))"

definition GetNetworkServiceLicenseKind :: s64 where "GetNetworkServiceLicenseKind = 1"

text \<open>A curl function by name: its address is looked up until it is found, then kept.\<close>

record curl_symbol =
  cs_cache :: u64
  cs_missing_logged :: bool

definition ResolveSymbolCached ::
  "symbol_env \<Rightarrow> string \<Rightarrow> curl_symbol \<times> Rtld.objects \<Rightarrow> (u64 \<times> curl_symbol \<times> Rtld.objects) option" where
  "ResolveSymbolCached e name = (\<lambda>(c, objs).
     if cs_cache c \<noteq> 0 then Some (cs_cache c, c, objs)
     else case LookupSymbolAddress e name objs of
            None \<Rightarrow> None
          | Some (addr, objs) \<Rightarrow>
              if addr = 0 then Some (0, c\<lparr>cs_missing_logged := True\<rparr>, objs)
              else Some (addr, c\<lparr>cs_cache := addr\<rparr>, objs))"

text \<open>The wrappers: \<open>call\<close> is the function at an address, applied to the arguments.\<close>

definition curl_call ::
  "symbol_env \<Rightarrow> string \<Rightarrow> 'r \<Rightarrow> (u64 \<Rightarrow> 'r) \<Rightarrow> curl_symbol \<times> Rtld.objects \<Rightarrow> ('r \<times> curl_symbol \<times> Rtld.objects) option" where
  "curl_call e name otherwise call st =
     map_option (\<lambda>(addr, st). (if addr = 0 then otherwise else call addr, st)) (ResolveSymbolCached e name st)"

definition curl_easy_init where
  "curl_easy_init e (call :: u64 \<Rightarrow> u64) = curl_call e ''curl_easy_init'' 0 call"

definition curl_easy_setopt where
  "curl_easy_setopt e (call :: u64 \<Rightarrow> u64 \<Rightarrow> s32 \<Rightarrow> u64 \<Rightarrow> 'w \<Rightarrow> 'w) curl opt data w =
     curl_call e ''curl_easy_setopt'' w (\<lambda>addr. call addr curl opt data w)"

definition curl_slist_append where
  "curl_slist_append e (call :: u64 \<Rightarrow> u64 \<Rightarrow> u64 \<Rightarrow> u64) headers data =
     curl_call e ''curl_slist_append'' 0 (\<lambda>addr. call addr headers data)"

definition curl_easy_perform where
  "curl_easy_perform e (call :: u64 \<Rightarrow> u64 \<Rightarrow> s32) curl =
     curl_call e ''curl_easy_perform'' 0 (\<lambda>addr. call addr curl)"

definition curl_multi_init where
  "curl_multi_init e (call :: u64 \<Rightarrow> s64) = curl_call e ''curl_multi_init'' 0 call"

definition curl_multi_add_handle where
  "curl_multi_add_handle e (call :: u64 \<Rightarrow> s64 \<Rightarrow> u64 \<Rightarrow> 'w \<Rightarrow> 'w) multi_handle easy_handle w =
     curl_call e ''curl_multi_add_handle'' w (\<lambda>addr. call addr multi_handle easy_handle w)"

definition curl_multi_perform where
  "curl_multi_perform e (call :: u64 \<Rightarrow> s64 \<Rightarrow> u64 \<Rightarrow> s64) multi_handle running =
     curl_call e ''curl_multi_perform'' 0 (\<lambda>addr. call addr multi_handle running)"

text \<open>A function that is missing answers like one that succeeds: 0 is also the code of no error.\<close>

lemma curl_missing_is_success:
  assumes "cs_cache c = 0" "LookupSymbolAddress e ''curl_easy_perform'' objs = Some (0, objs')"
  shows "curl_easy_perform e call curl (c, objs) = Some (0, c\<lparr>cs_missing_logged := True\<rparr>, objs')"
  using assms by (simp add: curl_easy_perform_def curl_call_def ResolveSymbolCached_def)

text \<open>A function that was found is called at the same address ever after, without a lookup.\<close>

lemma curl_found_is_kept:
  assumes "ResolveSymbolCached e name st = Some (addr, c, objs)" "addr \<noteq> 0"
  shows "curl_call e' name otherwise call (c, objs') = Some (call addr, c, objs')"
proof -
  have "cs_cache c = addr"
    using assms by (cases st) (auto simp: ResolveSymbolCached_def split: if_splits option.splits)
  then show ?thesis using assms(2) by (simp add: curl_call_def ResolveSymbolCached_def)
qed

section \<open>Input hooks\<close>

definition detail_hooks :: "string list" where
  "detail_hooks =
     map (\<lambda>state. ''_ZN2nn3hid6detail13GetNpadStatesEPiPNS0_'' @ state @ ''EiRKj'')
       [''16NpadFullKeyState'', ''17NpadHandheldState'', ''16NpadJoyDualState'', ''16NpadJoyLeftState'', ''17NpadJoyRightState'']"

text \<open>The functions hooked by their own address, in the order of the installation.\<close>

definition direct_hooks :: "string list" where
  "direct_hooks =
     map (\<lambda>state. ''GetNpadState '' @ state) [''FullKey'', ''Handheld'', ''JoyDual'', ''JoyLeft'', ''JoyRight'']
     @ map (\<lambda>state. ''GetNpadStates '' @ state) [''FullKey'', ''Handheld'', ''JoyDual'', ''JoyLeft'', ''JoyRight'']
     @ [''GetMouseState'', ''GetKeyboardState'']"

record hid_install_state =
  g_hid_hooks_installed :: bool
  hi_objs :: Rtld.objects
  hi_installs :: "(string \<times> u64) list"

fun install_detail_hooks :: "symbol_env \<Rightarrow> string list \<Rightarrow> hid_install_state \<Rightarrow> hid_install_state option" where
  "install_detail_hooks e [] st = Some st"
| "install_detail_hooks e (name # names) st =
     (case LookupSymbolAddress e name (hi_objs st) of
        None \<Rightarrow> None
      | Some (addr, objs) \<Rightarrow>
          install_detail_hooks e names
            (if addr = 0 then st\<lparr>hi_objs := objs\<rparr>
             else st\<lparr>hi_objs := objs, hi_installs := hi_installs st @ [(name, addr)]\<rparr>))"

definition InstallHidHooks :: "symbol_env \<Rightarrow> (string \<Rightarrow> u64) \<Rightarrow> hid_install_state \<Rightarrow> hid_install_state option" where
  "InstallHidHooks e function_address st =
     (if g_hid_hooks_installed st then Some st
      else map_option (\<lambda>st. st\<lparr>g_hid_hooks_installed := True\<rparr>)
        (install_detail_hooks e detail_hooks
          (st\<lparr>hi_installs := hi_installs st @ map (\<lambda>f. (f, function_address f)) direct_hooks\<rparr>)))"

section \<open>Looking a symbol up again\<close>

text \<open>Later runtime objects: those that were initialised are as they were.\<close>

definition objects_extend :: "Rtld.objects \<Rightarrow> Rtld.objects \<Rightarrow> bool" where
  "objects_extend objs objs' \<longleftrightarrow> (\<forall>r. module_base (objs r) \<noteq> 0 \<longrightarrow> objs' r = objs r)"

lemma objects_extend_refl [simp]: "objects_extend objs objs"
  by (simp add: objects_extend_def)

lemma objects_extend_trans: "objects_extend a b \<Longrightarrow> objects_extend b c \<Longrightarrow> objects_extend a c"
  by (metis objects_extend_def)

text \<open>Modules are mapped at addresses other than null.\<close>

definition modules_mapped :: "ModuleInfo option list \<Rightarrow> bool" where
  "modules_mapped infos \<longleftrightarrow> list_all (\<lambda>m. case m of None \<Rightarrow> True | Some i \<Rightarrow> rg_start (m_Total i) \<noteq> 0) infos"

lemma dynamic_loop_base:
  "dynamic_loop img base ds (m, p) = Some (m', p') \<Longrightarrow> module_base m' = module_base m"
proof (induction ds arbitrary: m p)
  case (Cons d ds)
  show ?case
  proof (cases "d_tag d = DT_NULL")
    case False
    then obtain m1 p1 where e: "dynamic_entry img base d (m, p) = Some (m1, p1)"
      "dynamic_loop img base ds (m1, p1) = Some (m', p')"
      using Cons.prems by (auto simp: bind_eq_Some_conv)
    have "module_base m1 = module_base m"
      using e(1) by (auto simp: dynamic_entry_def Let_def split: if_splits)
    then show ?thesis using Cons.IH[OF e(2)] by simp
  qed (use Cons.prems in auto)
qed simp

lemma Initialize_object_base:
  assumes "Initialize_object img base dyn ds this = Some m"
  shows "module_base m = base"
proof -
  obtain m1 p1 where "dynamic_loop img base ds (reset_object base dyn this, 0) = Some (m1, p1)" "m = m1\<lparr>rela_or_rel_plt := p1\<rparr>"
    using assms by (auto simp: Initialize_object_def)
  then show ?thesis using dynamic_loop_base[of img base ds "reset_object base dyn this" 0 m1 p1] by (simp add: reset_object_def)
qed

lemma GetModuleRuntime_at_memo:
  assumes "GetModuleRuntime_at img md infos i objs = Some (r, objs')" "modules_mapped infos" "i < length infos"
  shows "objects_extend objs objs'"
    and "objects_extend objs' objs'' \<Longrightarrow> GetModuleRuntime_at img md infos i objs'' = Some (r, objs'') \<and> objs'' r = objs' r"
proof -
  obtain info where info: "GetModuleInfo infos i = Some info"
    using assms(1) by (auto simp: GetModuleRuntime_at_def split: option.splits)
  then have "infos ! i = Some info" by (simp add: GetModuleInfo_def split: if_splits)
  then have st: "rg_start (m_Total info) \<noteq> 0"
    using assms(2,3) by (auto simp: modules_mapped_def list_all_length dest!: spec[of _ i])
  define mod0 where "mod0 = mod0_at md (m_Mod info)"
  define base where "base = GetModuleRuntime mod0"
  have eq: "GetModuleRuntime_at img md infos i os =
      (if module_base (os base) \<noteq> 0 then Some (base, os)
       else map_option (\<lambda>ob. (base, os(base := ob)))
         (Initialize_object img (rg_start (m_Total info)) (GetDynamic mod0) (dynamic_at md (GetDynamic mod0)) (os base)))" for os
    by (simp add: GetModuleRuntime_at_def info mod0_def base_def Let_def)
  have r: "r = base" "module_base (objs' r) \<noteq> 0" "objects_extend objs objs'"
    using assms(1) st by (auto simp: eq objects_extend_def dest!: Initialize_object_base split: if_splits)
  show "objects_extend objs objs'" by (rule r(3))
  assume "objects_extend objs' objs''"
  then have "objs'' r = objs' r" using r(2) by (simp add: objects_extend_def)
  then show "GetModuleRuntime_at img md infos i objs'' = Some (r, objs'') \<and> objs'' r = objs' r"
    using r by (simp add: eq)
qed

lemma GetSymbol_memo:
  assumes "GetSymbol fuel img md infos i name objs = Some (res, objs')" "modules_mapped infos" "i < length infos"
  shows "objects_extend objs objs'"
    and "objects_extend objs' objs'' \<Longrightarrow> GetSymbol fuel img md infos i name objs'' = Some (res, objs'')"
proof -
  obtain r where r: "GetModuleRuntime_at img md infos i objs = Some (r, objs')"
    using assms(1) by (auto simp: GetSymbol_def Let_def split: option.splits)
  note memo = GetModuleRuntime_at_memo[OF r assms(2,3)]
  show "objects_extend objs objs'" by (rule memo(1))
  show "GetSymbol fuel img md infos i name objs'' = Some (res, objs'')" if "objects_extend objs' objs''"
    using assms(1) r memo(2)[OF that] by (auto simp: GetSymbol_def Let_def)
qed

lemma LookupSymbolAddress_in_memo:
  assumes "LookupSymbolAddress_in e name ks objs = Some (a, objs')" "modules_mapped (se_infos e)"
    "list_all (\<lambda>i. i < length (se_infos e)) ks"
  shows "objects_extend objs objs'
    \<and> (\<forall>objs''. objects_extend objs' objs'' \<longrightarrow> LookupSymbolAddress_in e name ks objs'' = Some (a, objs''))"
  using assms
proof (induction ks arbitrary: objs)
  case (Cons i ks)
  show ?case
  proof (cases "HasModule (se_infos e) i")
    case False
    then show ?thesis using Cons by auto
  next
    case True
    then obtain res objs1 where g: "GetSymbol (se_fuel e) (se_image e) (se_data e) (se_infos e) i name objs = Some (res, objs1)"
      using Cons.prems(1) by (auto split: option.splits)
    have i: "i < length (se_infos e)" using Cons.prems(3) by simp
    note memo = GetSymbol_memo[OF g Cons.prems(2) i]
    show ?thesis
    proof (cases "res = None \<or> (\<exists>s. res = Some s \<and> st_value (sym_at (se_image e) s) = 0)")
      case next': True
      then have "LookupSymbolAddress_in e name ks objs1 = Some (a, objs')" using Cons.prems(1) True g by auto
      from Cons.IH[OF this Cons.prems(2)] Cons.prems(3)
      have ih: "objects_extend objs1 objs'"
        "\<And>objs''. objects_extend objs' objs'' \<Longrightarrow> LookupSymbolAddress_in e name ks objs'' = Some (a, objs'')" by auto
      show ?thesis
      proof (intro conjI allI impI)
        show "objects_extend objs objs'" using memo(1) ih(1) by (rule objects_extend_trans)
        fix objs'' assume x: "objects_extend objs' objs''"
        then show "LookupSymbolAddress_in e name (i # ks) objs'' = Some (a, objs'')"
          using next' True memo(2)[OF objects_extend_trans[OF ih(1) x]] ih(2)[OF x] by auto
      qed
    next
      case False
      then have "objs' = objs1" using Cons.prems(1) True g by (auto split: option.splits)
      then show ?thesis using False Cons.prems(1) True g memo by (auto split: option.splits)
    qed
  qed
qed simp

definition symbols_usable :: "symbol_env \<Rightarrow> bool" where
  "symbols_usable e \<longleftrightarrow> modules_mapped (se_infos e) \<and> length (se_infos e) = idx_End"

lemma LookupSymbolAddress_memo:
  assumes "LookupSymbolAddress e name objs = Some (a, objs')" "symbols_usable e"
  shows "objects_extend objs objs'" "objects_extend objs' objs'' \<Longrightarrow> LookupSymbolAddress e name objs'' = Some (a, objs'')"
  using LookupSymbolAddress_in_memo[of e name "[0..<idx_End]" objs a objs'] assms
  by (auto simp: LookupSymbolAddress_def symbols_usable_def list_all_iff)

section \<open>Installing twice\<close>

text \<open>What is known of a symbol after an attempt, and stays true.\<close>

definition hook_settled :: "symbol_env \<Rightarrow> tagnx_state \<Rightarrow> string \<Rightarrow> bool" where
  "hook_settled e st s \<longleftrightarrow>
     (if tn_installed st s
      then \<exists>a. a \<noteq> 0 \<and> (s, a) \<in> set (tn_installs st) \<and> LookupSymbolAddress e s (tn_objs st) = Some (a, tn_objs st)
      else tn_missing_logged st s \<and> LookupSymbolAddress e s (tn_objs st) = Some (0, tn_objs st))"

text \<open>The list of installed hooks agrees with the flags, and names each hook once.\<close>

definition tagnx_ok :: "tagnx_state \<Rightarrow> bool" where
  "tagnx_ok st \<longleftrightarrow> distinct (map fst (tn_installs st)) \<and> (\<forall>s. s \<in> fst ` set (tn_installs st) \<longleftrightarrow> tn_installed st s)"

lemma hook_settled_again: "hook_settled e st s \<Longrightarrow> InstallHookIfFound e s st = Some st"
  by (auto simp: hook_settled_def InstallHookIfFound_def Let_def split: if_splits)

lemma install_all_append: "install_all e (xs @ ys) st = Option.bind (install_all e xs st) (install_all e ys)"
proof (induction xs arbitrary: st)
  case (Cons x xs)
  then show ?case by (cases "InstallHookIfFound e x st") simp_all
qed simp

lemma install_all_one: "install_all e [s] = InstallHookIfFound e s"
proof
  show "install_all e [s] st = InstallHookIfFound e s st" for st
    by (cases "InstallHookIfFound e s st") simp_all
qed

lemma install_all_settled: "list_all (hook_settled e st) ss \<Longrightarrow> install_all e ss st = Some st"
  by (induction ss) (simp_all add: hook_settled_again)

lemma InstallHookIfFound_settles:
  assumes "InstallHookIfFound e s st = Some st'" "symbols_usable e" "tagnx_ok st"
    "tn_installed st s \<longrightarrow> hook_settled e st s"
  shows "tagnx_ok st'" "hook_settled e st' s" "hook_settled e st s' \<Longrightarrow> hook_settled e st' s'"
    "tn_installed st' s' \<Longrightarrow> s' \<noteq> s \<Longrightarrow> tn_installed st s'"
proof -
  have "tagnx_ok st' \<and> hook_settled e st' s \<and> (hook_settled e st s' \<longrightarrow> hook_settled e st' s')
      \<and> (tn_installed st' s' \<longrightarrow> s' \<noteq> s \<longrightarrow> tn_installed st s')"
  proof (cases "tn_installed st s")
    case True
    then show ?thesis using assms by (auto simp: InstallHookIfFound_def)
  next
    case False
    then obtain a objs where l: "LookupSymbolAddress e s (tn_objs st) = Some (a, objs)"
      using assms(1) by (auto simp: InstallHookIfFound_def split: option.splits)
    note memo = LookupSymbolAddress_memo[OF l assms(2)]
    have self: "LookupSymbolAddress e s objs = Some (a, objs)" by (rule memo(2)) simp
    have keep: "LookupSymbolAddress e s' (tn_objs st) = Some (x, tn_objs st) \<Longrightarrow> LookupSymbolAddress e s' objs = Some (x, objs)" for x
      using LookupSymbolAddress_memo(2)[OF _ assms(2) memo(1)] .
    show ?thesis
    proof (cases "a = 0")
      case True
      have "tn_installs st' = tn_installs st" "tn_installed st' = tn_installed st" "tn_objs st' = objs"
        "tn_missing_logged st' = (tn_missing_logged st)(s := True)"
        using assms(1) False l True by (auto simp: InstallHookIfFound_def Let_def split: if_splits)
      then show ?thesis using assms(3) False True self keep by (auto simp: tagnx_ok_def hook_settled_def)
    next
      case a: False
      then have "tn_installs st' = tn_installs st @ [(s, a)]" "tn_installed st' = (tn_installed st)(s := True)" "tn_objs st' = objs"
        "tn_missing_logged st' = tn_missing_logged st"
        using assms(1) False l by (auto simp: InstallHookIfFound_def Let_def split: if_splits)
      then show ?thesis using assms(3) False a self keep by (auto simp: tagnx_ok_def hook_settled_def)
    qed
  qed
  then show "tagnx_ok st'" "hook_settled e st' s" "hook_settled e st s' \<Longrightarrow> hook_settled e st' s'"
    "tn_installed st' s' \<Longrightarrow> s' \<noteq> s \<Longrightarrow> tn_installed st s'" by blast+
qed

lemma install_all_settles:
  assumes "install_all e ss st = Some st'" "symbols_usable e" "tagnx_ok st" "\<forall>s. tn_installed st s \<longrightarrow> hook_settled e st s"
  shows "tagnx_ok st' \<and> (\<forall>s. tn_installed st' s \<longrightarrow> hook_settled e st' s) \<and> list_all (hook_settled e st') ss
    \<and> (\<forall>s. hook_settled e st s \<longrightarrow> hook_settled e st' s)"
  using assms
proof (induction ss arbitrary: st)
  case (Cons s ss)
  obtain st1 where st1: "InstallHookIfFound e s st = Some st1" "install_all e ss st1 = Some st'"
    using Cons.prems(1) by (auto simp: bind_eq_Some_conv)
  note h = InstallHookIfFound_settles[OF st1(1) Cons.prems(2,3)]
  have inst: "\<forall>x. tn_installed st1 x \<longrightarrow> hook_settled e st1 x"
    using h Cons.prems(4) by metis
  have "tagnx_ok st1" using h(1) Cons.prems(4) by blast
  from Cons.IH[OF st1(2) Cons.prems(2) this inst] show ?case using h(2,3) Cons.prems(4) by auto
qed auto



text \<open>One module with one symbol, in the layout of \<open>tiny_image\<close>.\<close>

definition loader_image :: image where
  "loader_image = tiny_image\<lparr>str_at := (\<lambda>x. if x = 0x5402 then kSymLoadModule else ''f'')\<rparr>"

definition loader_env :: symbol_env where
  "loader_env = \<lparr>se_fuel = 4, se_image = loader_image, se_data = tiny_data,
     se_infos = Some (no_module\<lparr>m_Total := \<lparr>rg_start = 0x5000, rg_size = 0x1000\<rparr>, m_Mod := 0x5040\<rparr>) # replicate 12 None\<rparr>"

definition tagnx_start :: tagnx_state where
  "tagnx_start = \<lparr>tn_objs = (\<lambda>_. no_object), tn_installed = (\<lambda>_. False), tn_missing_logged = (\<lambda>_. False),
     tn_installs = [], tn_log = []\<rparr>"

lemma loader_initialize: "Initialize_object loader_image 0x5000 0x5080 tiny_dynamic no_object = Some tiny_object"
  by (simp add: Initialize_object_def tiny_dynamic_def dynamic_entry_def reset_object_def tiny_object_def no_object_def
      DT_defs Let_def loader_image_def tiny_image_def sizeof_Rela_def)

lemma loader_runtime:
  assumes "objs 0x5040 = no_object \<or> objs 0x5040 = tiny_object"
  shows "GetModuleRuntime_at loader_image tiny_data (se_infos loader_env) 0 objs = Some (0x5040, objs(0x5040 := tiny_object))"
proof -
  have i: "GetModuleInfo (se_infos loader_env) 0 = Some (no_module\<lparr>m_Total := \<lparr>rg_start = 0x5000, rg_size = 0x1000\<rparr>, m_Mod := 0x5040\<rparr>)"
    by (simp add: GetModuleInfo_def HasModule_def loader_env_def)
  have r: "GetModuleRuntime (mod0_at tiny_data (m_Mod (no_module\<lparr>m_Total := \<lparr>rg_start = 0x5000, rg_size = 0x1000\<rparr>, m_Mod := 0x5040\<rparr>))) = 0x5040"
    and d: "GetDynamic (mod0_at tiny_data (m_Mod (no_module\<lparr>m_Total := \<lparr>rg_start = 0x5000, rg_size = 0x1000\<rparr>, m_Mod := 0x5040\<rparr>))) = 0x5080"
    by (simp_all add: GetModuleRuntime_def GetDynamic_def GetPointer_def tiny_data_def Let_def)
  from assms show ?thesis
  proof
    assume o: "objs 0x5040 = no_object"
    have b: "module_base no_object = 0" by (simp add: no_object_def)
    have y: "dynamic_at tiny_data 0x5080 = tiny_dynamic" by (simp add: tiny_data_def)
    show ?thesis unfolding GetModuleRuntime_at_def i option.case Let_def r d o b
      by (simp add: y loader_initialize)
  next
    assume o: "objs 0x5040 = tiny_object"
    then have u: "objs(0x5040 := tiny_object) = objs" by (simp add: fun_upd_idem)
    have b: "module_base tiny_object \<noteq> 0" by (simp add: tiny_object_def)
    show ?thesis unfolding u GetModuleRuntime_at_def i option.case Let_def r d o
      using b by simp
  qed
qed

lemma loader_chain:
  assumes "name \<noteq> ''f''"
  shows "chain_walk 4 loader_image tiny_object name 2 = Some (if name = kSymLoadModule then Some 0x5330 else None)"
proof -
  have n: "(4 :: nat) = Suc (Suc (Suc (Suc 0)))" by simp
  have s: "sym_addr tiny_object (ucast (2 :: u32)) = 0x5330" "sym_addr tiny_object (ucast (1 :: u32)) = 0x5318"
    "str_at loader_image (dynstr tiny_object + ucast (st_name (sym_at loader_image 0x5330))) = kSymLoadModule"
    "str_at loader_image (dynstr tiny_object + ucast (st_name (sym_at loader_image 0x5318))) = ''f''"
    "\<not> is_common (sym_at loader_image 0x5330)"
    "word32_at loader_image (hash_chain tiny_object + 4 * ucast (2 :: u32)) = 1"
    "word32_at loader_image (hash_chain tiny_object + 4 * ucast (1 :: u32)) = 0"
    by (simp_all add: loader_image_def tiny_image_def tiny_object_def no_object_def sym_addr_def sizeof_Sym_def
        is_common_def SHN_COMMON_def)
  show ?thesis unfolding n chain_walk.simps Let_def s
    using assms s(5) by simp
qed

lemma loader_lookup:
  assumes "objs 0x5040 = no_object \<or> objs 0x5040 = tiny_object" "name \<noteq> ''f''"
  shows "LookupSymbolAddress loader_env name objs =
     Some (if name = kSymLoadModule then 0x5040 else 0, objs(0x5040 := tiny_object))"
proof -
  have o: "hash_nbucket_value tiny_object = 1" "word32_at loader_image (hash_bucket tiny_object + 4 * 0) = 2"
    by (simp_all add: tiny_object_def no_object_def loader_image_def tiny_image_def)
  have m: "b mod 1 = (0 :: u64)" for b by simp
  have g: "GetSymbol 4 loader_image tiny_data (se_infos loader_env) 0 name objs =
      Some (if name = kSymLoadModule then Some 0x5330 else None, objs(0x5040 := tiny_object))"
    unfolding GetSymbol_def loader_runtime[of objs, OF assms(1)] option.case prod.case Let_def fun_upd_same o(1) m o(2) loader_chain[OF assms(2)]
    by simp
  have e: "se_fuel loader_env = 4" "se_image loader_env = loader_image" "se_data loader_env = tiny_data" by (simp_all add: loader_env_def)
  have h: "HasModule (se_infos loader_env) 0" "\<not> HasModule (se_infos loader_env) (Suc i)" if "i < 12" for i
    using that by (simp_all add: HasModule_def loader_env_def)
  have rest: "LookupSymbolAddress_in loader_env name (map Suc ks) os = Some (0, os)" if "list_all (\<lambda>i. i < 12) ks" for ks os
    using that h(2) by (induction ks) simp_all
  have ix: "[0..<idx_End] = 0 # map Suc [0..<12]" by (simp add: idx_End_def map_Suc_upt upt_conv_Cons)
  have v: "st_value (sym_at loader_image 0x5330) = 0x40" by (simp add: loader_image_def tiny_image_def)
  have i: "GetModuleInfo (se_infos loader_env) 0 = Some (no_module\<lparr>m_Total := \<lparr>rg_start = 0x5000, rg_size = 0x1000\<rparr>, m_Mod := 0x5040\<rparr>)"
    by (simp add: GetModuleInfo_def HasModule_def loader_env_def)
  show ?thesis
    using rest[of "[0..<12]"] h(1)[of 0]
    by (simp add: LookupSymbolAddress_def ix e g v i list_all_iff del: upt_Suc upt_0)
qed


section \<open>The token\<close>

text \<open>
  The mangled name of the hooked function has a character buffer where the replacement stores a
  pointer: the caller finds the address of the token in its buffer and no byte of its text, but
  the length of the text in the size.
\<close>
lemma dummy_token_not_copied:
  assumes "out_size \<noteq> 0" "buffer \<noteq> 0" "out_size - buffer \<ge> 8" "buffer - out_size \<ge> 8"
    and "LoadNSAIDTokenCache token out_size buffer mem = (rc, mem')"
  shows "rc = 0" "load_ptr buffer mem' = token" "x - buffer \<ge> 8 \<Longrightarrow> x - out_size \<ge> 8 \<Longrightarrow> mem' x = mem x"
    "length kDummyToken = 605"
proof -
  have m: "mem' = store_ptr buffer token (store_ptr out_size (of_nat (length kDummyToken)) mem)" and "rc = 0"
    using assms by (auto simp: LoadNSAIDTokenCache_def Let_def)
  then show "rc = 0" "load_ptr buffer mem' = token" by (simp_all add: load_store_ptr)
  show "x - buffer \<ge> 8 \<Longrightarrow> x - out_size \<ge> 8 \<Longrightarrow> mem' x = mem x"
    by (auto simp: m store_ptr_def linorder_not_less[symmetric])
  show "length kDummyToken = 605" by (simp add: kDummyToken_def)
qed

end
