(* ===== verification/Texture_Clamp.thy ===== *)
theory Texture_Clamp
  imports Config_Types Mem_Layout Patcher
begin

text \<open>
  Texture creation and display modes (\<open>source/program/d3/hooks/nvn.hpp\<close>, \<open>resolution.hpp\<close>,
  \<open>VarResHook\<close> of \<open>util.hpp\<close>): oversized textures are scaled down to a limit, swap-chain
  textures get the output size, depth and full-size targets are left alone, and a render
  target reports a scaled size in handheld mode.  Floats are rationals rounded to 24 bits.
\<close>

section \<open>Limits and formats\<close>

record NVNTexInfo =
  eTexFormat :: u32
  tx_MSAALevel :: u32
  dwLastFrameUsed :: u32
  tx_eType :: u32
  dwPixelWidth :: u32
  dwPixelHeight :: u32
  dwPixelDepth :: u32
  dwMipLevels :: u32
  tx_tMemory :: "u8 list"
  bTargetUpdated :: u32
  bIsWindowTexture :: u32

definition hack_clamps :: "ResolutionHackConfig \<Rightarrow> bool" where
  "hack_clamps c \<longleftrightarrow> rh_active c \<and> Config_Types.ClampTexturesEnabled c"

definition GetClampDims :: "ResolutionHackConfig \<Rightarrow> (u32 \<times> u32) option" where
  "GetClampDims c =
     (if \<not> hack_clamps c then None
      else
        let limitH = ClampTextureHeightPx c; limitW = ClampTextureWidthPx c
        in if limitW \<noteq> 0 \<and> limitH \<noteq> 0 then Some (limitW, limitH) else None)"

definition IsDepthFormat :: "u32 \<Rightarrow> bool" where
  "IsDepthFormat fmt \<longleftrightarrow> fmt \<in> {0x31, 0x32, 0x33, 0x34, 0x35, 0x36}"

section \<open>Scaling\<close>

text \<open>\<open>static_cast<float>\<close> of a 32-bit number, which is always finite.\<close>

definition f32_of_u32 :: "u32 \<Rightarrow> rat" where "f32_of_u32 v = rnd 24 (- 126) (of_nat (unat v))"

text \<open>\<open>std::min(a, b)\<close>.\<close>

definition fp_min :: "fp \<Rightarrow> fp \<Rightarrow> fp" where "fp_min a b = (if fp_less b a then b else a)"

definition LocalCalcRenderScale :: "u32 \<Rightarrow> u32 \<Rightarrow> u32 \<Rightarrow> u32 \<Rightarrow> fp" where
  "LocalCalcRenderScale width height limitW limitH =
     (if width = 0 \<or> height = 0 then Fin 1
      else
        let scale = Fin 1;
            scale = (if limitW < width then fp_div to_f32 (Fin (f32_of_u32 limitW)) (f32_of_u32 width) else scale);
            scale = (if limitH < height
                     then fp_min (fp_div to_f32 (Fin (f32_of_u32 limitH)) (f32_of_u32 height)) scale
                     else scale);
            scale = fp_min scale (Fin 1)
        in if fp_leq scale (Fin 0) then Fin 1 else scale)"

definition LocalScaleDim :: "u32 \<Rightarrow> fp \<Rightarrow> u32" where
  "LocalScaleDim px scale =
     (let scaled = fp_to_u32 (fp_mul to_f32 scale (f32_of_u32 px));
          scaled = scaled AND NOT 1
      in max scaled 2)"

text \<open>\<open>1u + floor(log2(double(n)))\<close>: the number of binary digits of \<open>n\<close>, which is not 0.\<close>

definition max_mips :: "u32 \<Rightarrow> u32" where "max_mips longest = of_nat (floorlog 2 (unat longest))"

definition limit_mips :: "u32 \<Rightarrow> u32 \<Rightarrow> NVNTexInfo \<Rightarrow> NVNTexInfo" where
  "limit_mips w h tex =
     (if 1 < dwMipLevels tex then tex\<lparr>dwMipLevels := min (dwMipLevels tex) (max_mips (max w h))\<rparr> else tex)"

section \<open>Where the call comes from\<close>

definition kSwapchainTexCreateLrOffsets :: "u64 list" where
  "kSwapchainTexCreateLrOffsets = [0xE6988, 0xE69BC, 0xE69F0]"

definition IsSwapchainTexCreateLR :: "u64 \<Rightarrow> bool" where
  "IsSwapchainTexCreateLR lrOffset \<longleftrightarrow> list_ex (\<lambda>lr. lrOffset = lr \<or> lrOffset + 4 = lr) kSwapchainTexCreateLrOffsets"

text \<open>\<open>name\<close> is the text in the array, without its terminator.\<close>

record TexDefCallInfo =
  td_fmt :: u32
  td_width :: u32
  td_height :: u32
  td_usage :: u32
  td_flags :: u32
  td_namePtr :: u64
  td_hasName :: bool
  td_valid :: bool
  td_name :: string

fun strstr_found :: "string \<Rightarrow> string \<Rightarrow> bool" where
  "strstr_found [] needle \<longleftrightarrow> needle = []"
| "strstr_found (c # s) needle \<longleftrightarrow> take (length needle) (c # s) = needle \<or> strstr_found s needle"

definition TexDefNameContains :: "TexDefCallInfo \<Rightarrow> string \<Rightarrow> bool" where
  "TexDefNameContains info needle \<longleftrightarrow>
     (if \<not> td_hasName info \<or> td_name info = [] \<or> needle = [] then False else strstr_found (td_name info) needle)"

definition IsBackbufferDepthName :: "TexDefCallInfo \<Rightarrow> bool" where
  "IsBackbufferDepthName info \<longleftrightarrow> TexDefNameContains info ''BACKBUFFER_DEPTH'' \<or> TexDefNameContains info ''BACKBUFFER''"

definition IsFullResEffectName :: "TexDefCallInfo \<Rightarrow> bool" where
  "IsFullResEffectName info \<longleftrightarrow> TexDefNameContains info ''BACKBUFFER'' \<or> TexDefNameContains info ''SCREEN_''"

definition IsCriticalDepthName :: "TexDefCallInfo \<Rightarrow> bool" where
  "IsCriticalDepthName info \<longleftrightarrow> IsBackbufferDepthName info \<or> TexDefNameContains info ''DEPTH Effect RT''"

definition IsClampableDepthName :: "TexDefCallInfo \<Rightarrow> bool" where
  "IsClampableDepthName info \<longleftrightarrow> TexDefNameContains info ''Shadow'' \<or> TexDefNameContains info ''DepthTarget''"

text \<open>At most \<open>n\<close> characters of the text at an address.\<close>

fun copy_name :: "nat \<Rightarrow> store \<Rightarrow> u64 \<Rightarrow> string" where
  "copy_name 0 mem p = []"
| "copy_name (Suc n) mem p = (if mem p = 0 then [] else char_of (unat (mem p)) # copy_name n mem (p + 1))"

text \<open>The registers of the hooked instruction: \<open>W1, W2, W3, W5, W6, X20\<close>.\<close>

definition CaptureTexDefCreateCall ::
  "ModuleInfo option list \<Rightarrow> store \<Rightarrow> u32 \<Rightarrow> u32 \<Rightarrow> u32 \<Rightarrow> u32 \<Rightarrow> u32 \<Rightarrow> u64 \<Rightarrow> TexDefCallInfo" where
  "CaptureTexDefCreateCall infos mem w1 w2 w3 w5 w6 x20 =
     (let named = x20 \<noteq> 0 \<and> TryGetModule infos x20 \<noteq> None
      in \<lparr>td_fmt = w1, td_width = w2, td_height = w3, td_usage = w5, td_flags = w6, td_namePtr = x20,
          td_hasName = named, td_valid = True, td_name = (if named then copy_name 63 mem x20 else [])\<rparr>)"

section \<open>The hook on texture creation\<close>

text \<open>The last part of the hook: the texture is scaled into the limits, without antialiasing.\<close>

definition clamp_tex :: "u32 \<Rightarrow> u32 \<Rightarrow> NVNTexInfo \<Rightarrow> NVNTexInfo" where
  "clamp_tex limit_w limit_h tex =
     (let w = (if dwPixelWidth tex \<noteq> 0 then dwPixelWidth tex else 1);
          h = (if dwPixelHeight tex \<noteq> 0 then dwPixelHeight tex else 1);
          scale = LocalCalcRenderScale w h limit_w limit_h;
          newW = LocalScaleDim w scale; newH = LocalScaleDim h scale;
          tex = limit_mips newW newH (tex\<lparr>dwPixelWidth := newW, dwPixelHeight := newH\<rparr>)
      in if tx_MSAALevel tex \<noteq> 0 then tex\<lparr>tx_MSAALevel := 0\<rparr> else tex)"

text \<open>
  \<open>arg2\<close>, \<open>arg3\<close> and \<open>lrOffset\<close> are \<open>W2\<close>, \<open>W3\<close> and the offset of the return address in the
  game; \<open>matchedTexdef\<close> says that the last texture definition describes this texture.
\<close>

definition is_depth_texture :: "bool \<Rightarrow> TexDefCallInfo \<Rightarrow> NVNTexInfo \<Rightarrow> bool" where
  "is_depth_texture matchedTexdef td tex =
     (let depthFmt = IsDepthFormat (eTexFormat tex);
          texdefDepth = matchedTexdef \<and> td_flags td AND 2 \<noteq> 0;
          texdefDepthTag = matchedTexdef \<and> TexDefNameContains td ''DEPTH''
      in depthFmt \<or> texdefDepth \<or> texdefDepthTag)"

text \<open>The early returns of the hook, in order.\<close>

definition leaves_size ::
  "ResolutionHackConfig \<Rightarrow> u32 \<Rightarrow> u32 \<Rightarrow> bool \<Rightarrow> TexDefCallInfo \<Rightarrow> u32 \<Rightarrow> u32 \<Rightarrow> NVNTexInfo \<Rightarrow> bool" where
  "leaves_size c arg2 arg3 matchedTexdef td limit_w limit_h tex =
     (let width = dwPixelWidth tex; height = dwPixelHeight tex;
          outW = OutputWidthPx c; outH = OutputHeightPx c;
          depthTarget = matchedTexdef \<and> td_flags td AND 2 \<noteq> 0;
          isWindow = arg3 \<noteq> 0;
          isDepth = is_depth_texture matchedTexdef td tex;
          criticalDepth = matchedTexdef \<and> IsCriticalDepthName td;
          clampableDepth = matchedTexdef \<and> IsClampableDepthName td \<and> outH \<noteq> 0 \<and> 1280 < outH
      in if isDepth \<and> (\<not> clampableDepth \<or> criticalDepth) then True
         else if matchedTexdef \<and> (outH \<noteq> 0 \<and> outH \<le> 1280) \<and> IsFullResEffectName td then True
         else if isWindow then True
         else if arg2 = 0 then True
         else if \<not> (limit_w < width \<or> limit_h < height \<or> height = 0) then True
         else if depthTarget \<and> outW \<noteq> 0 \<and> outH \<noteq> 0 \<and> width = outW \<and> height = outH then True
         else if depthTarget \<and> IsBackbufferDepthName td then True
         else False)"

text \<open>The result is \<open>g_lastTexDef\<close> and the texture.\<close>

definition NVNTexInfoCreate ::
  "ResolutionHackConfig \<Rightarrow> u32 \<Rightarrow> u32 \<Rightarrow> u64 \<Rightarrow> TexDefCallInfo \<Rightarrow> NVNTexInfo \<Rightarrow> TexDefCallInfo \<times> NVNTexInfo" where
  "NVNTexInfoCreate c arg2 arg3 lrOffset g_lastTexDef tex =
     (let width = dwPixelWidth tex; height = dwPixelHeight tex;
          outW = OutputWidthPx c; outH = OutputHeightPx c
      in if rh_active c \<and> outW \<noteq> 0 \<and> outH \<noteq> 0 \<and> IsSwapchainTexCreateLR lrOffset then
           (g_lastTexDef,
            if width \<noteq> outW \<or> height \<noteq> outH
            then limit_mips outW outH (tex\<lparr>dwPixelWidth := outW, dwPixelHeight := outH\<rparr>)
            else tex)
         else
           let last = g_lastTexDef;
               matchedTexdef = td_valid last \<and> td_width last = width \<and> td_height last = height \<and> td_fmt last = eTexFormat tex;
               g_lastTexDef = (if matchedTexdef then g_lastTexDef\<lparr>td_valid := False\<rparr> else g_lastTexDef)
           in case GetClampDims c of
                None \<Rightarrow> (g_lastTexDef, tex)
              | Some (limit_w, limit_h) \<Rightarrow>
                  let tex = (if arg3 = 0 \<and> is_depth_texture matchedTexdef last tex \<and> 1280 < outH \<and> tx_MSAALevel tex \<noteq> 0
                             then tex\<lparr>tx_MSAALevel := 0\<rparr> else tex)
                  in if leaves_size c arg2 arg3 matchedTexdef last limit_w limit_h tex then (g_lastTexDef, tex)
                     else (g_lastTexDef, clamp_tex limit_w limit_h tex))"

section \<open>Display modes and render targets\<close>

record DisplayMode =
  dm_Flags :: u32
  dm_WindowMode :: u32
  nWinLeft :: s32
  nWinTop :: s32
  nWinWidth :: s32
  nWinHeight :: s32
  dwUIOptWidth :: u32
  dwUIOptHeight :: u32
  dm_Width :: u32
  dm_Height :: u32
  nRefreshRate :: s32
  dwBitDepth :: u32
  dm_MSAALevel :: u32
  flAspectRatio :: fp

text \<open>\<open>orig\<close> is the mode the game asks for.\<close>

definition GfxGetDesiredDisplayMode :: "ResolutionHackConfig \<Rightarrow> DisplayMode \<Rightarrow> DisplayMode" where
  "GfxGetDesiredDisplayMode c orig =
     (if \<not> rh_active c then orig
      else
        let extra = rh_extra c; r = orig;
            r = (if 0 \<le> sint (window_left extra) then r\<lparr>nWinLeft := window_left extra\<rparr> else r);
            r = (if 0 \<le> sint (window_top extra) then r\<lparr>nWinTop := window_top extra\<rparr> else r);
            r = (if 0 < sint (window_width extra) then r\<lparr>nWinWidth := window_width extra\<rparr> else r);
            r = (if 0 < sint (window_height extra) then r\<lparr>nWinHeight := window_height extra\<rparr> else r);
            r = (if 0 < sint (ui_opt_width extra) then r\<lparr>dwUIOptWidth := ui_opt_width extra\<rparr> else r);
            r = (if 0 < sint (ui_opt_height extra) then r\<lparr>dwUIOptHeight := ui_opt_height extra\<rparr> else r);
            r = (if 0 < sint (refresh_rate extra) then r\<lparr>nRefreshRate := refresh_rate extra\<rparr> else r);
            r = (if 0 < sint (bit_depth extra) then r\<lparr>dwBitDepth := bit_depth extra\<rparr> else r);
            r = (if 0 \<le> sint (msaa_level extra) then r\<lparr>dm_MSAALevel := msaa_level extra\<rparr> else r);
            r = (if 0 < sint (render_width extra) then r\<lparr>dm_Width := render_width extra\<rparr> else r);
            r = (if 0 < sint (render_height extra) then r\<lparr>dm_Height := render_height extra\<rparr> else r);
            refresh_aspect = 0 < sint (render_width extra) \<or> 0 < sint (render_height extra)
        in if refresh_aspect \<and> dm_Height r \<noteq> 0
           then r\<lparr>flAspectRatio := fp_div to_f32 (Fin (f32_of_u32 (dm_Width r))) (f32_of_u32 (dm_Height r))\<rparr>
           else r)"

definition rt_scale_min :: rat where "rt_scale_min = rnd 24 (- 126) (2 / 5)"
definition rt_scale_default :: rat where "rt_scale_default = rnd 24 (- 126) (4 / 5)"

definition rt_scale :: "fp \<Rightarrow> fp" where
  "rt_scale g_rt_scale = (if fp_leq (Fin rt_scale_min) g_rt_scale then clamp g_rt_scale (Fin rt_scale_min) (Fin 1) else Fin rt_scale_default)"

text \<open>\<open>std::lroundf\<close> of a product, as a 32-bit number; the product is finite.\<close>

definition scaled_px :: "u32 \<Rightarrow> fp \<Rightarrow> u32" where
  "scaled_px v scale = (case fp_mul to_f32 scale (f32_of_u32 v) of Fin x \<Rightarrow> word_of_int (round_away x) | _ \<Rightarrow> 0)"

definition GetRenderTargetCurrentResolution :: "u32 \<Rightarrow> u32 \<Rightarrow> bool \<Rightarrow> fp \<Rightarrow> NVNTexInfo \<Rightarrow> u32 \<times> u32" where
  "GetRenderTargetCurrentResolution dev_w dev_h is_docked g_rt_scale tex =
     (let tex_w = dwPixelWidth tex; tex_h = dwPixelHeight tex;
          scaled = (scaled_px tex_w (rt_scale g_rt_scale), scaled_px tex_h (rt_scale g_rt_scale))
      in if (tex_w = dev_w \<and> tex_h = dev_h) \<or> (tex_w = drop_bit 1 dev_w \<and> tex_h = drop_bit 1 dev_h) then
           (if is_docked then (tex_w, tex_h) else scaled)
         else if tex_w = drop_bit 2 dev_w \<and> tex_h = drop_bit 2 dev_h \<and> \<not> is_docked then scaled
         else (tex_w, tex_h))"

text \<open>The smallest and largest scale of the variable resolution.\<close>

definition VarRes_percents :: "ResolutionHackConfig \<Rightarrow> (fp \<times> fp) option" where
  "VarRes_percents c =
     (if rh_active c then
        let min_pct = clamp (min_res_scale c) (Fin 10) (Fin 100);
            max_pct = clamp (max_res_scale c) min_pct (Fin 100)
        in Some (fp_mul to_f32 min_pct percent, fp_mul to_f32 max_pct percent)
      else None)"


section \<open>Scaled sizes\<close>

lemma fp_min_Fin [simp]: "fp_min (Fin a) (Fin b) = Fin (min a b)"
  by (simp add: fp_min_def min_def not_less)

lemma unsigned_rat_nonneg [simp]: "0 \<le> (unsigned (d :: u32) :: rat)"
  using of_nat_0_le_iff[of "unat d", where 'a = rat] by simp

lemma f32_of_small: "unat v < 16777216 \<Longrightarrow> f32_of_u32 v = of_nat (unat v)"
  using rnd24_of_nat[of "unat v"] by (simp add: f32_of_u32_def)

text \<open>The two 24-bit roundings of a scale factor and of a product with it.\<close>

lemma to_f32_quotient:
  fixes l w :: nat
  assumes "0 < l" "l < w" "w < 16777216"
  obtains y where "to_f32 (of_nat l / of_nat w) = Fin y" "\<bar>y * of_nat w - of_nat l\<bar> \<le> of_nat l / 16777216" "0 < y" "y \<le> 1"
proof -
  define x where "x = (of_nat l :: rat) / of_nat w"
  have lw: "(1 :: rat) \<le> of_nat l" "(of_nat l :: rat) < of_nat w" "(of_nat w :: rat) < 16777216"
    using assms of_nat_le_iff[of 1 l, where 'a = rat] of_nat_less_iff[of w 16777216, where 'a = rat] by simp_all
  have x: "1 / 16777216 \<le> x" "x \<le> 1" using lw by (simp_all add: x_def field_simps)
  obtain y where y: "to_f32 x = Fin y" "1 / 16777216 \<le> y" "y \<le> 1"
    using to_f32_between[of "1 / 16777216" x 1] x rnd24_quotient[of 1 24] rnd24_of_nat[of 1] by force
  have yr: "y = rnd 24 (- 126) x"
  proof -
    have "0 \<le> rnd 24 (- 126) x" "rnd 24 (- 126) x \<le> 1"
      using rnd_nonneg[of x] rnd_mono[of x 1 24 "- 126"] x rnd24_of_nat[of 1] by auto
    then show ?thesis using y(1) by (simp add: to_f32_def with_range_Fin)
  qed
  have "2 powi - 126 \<le> (1 / 16777216 :: rat)" using powi_2_mono[of "- 126" "- 24"] by (simp add: power_int_minus)
  then have "2 powi - 126 \<le> \<bar>x\<bar>" using x by simp
  then have "\<bar>y - x\<bar> \<le> x / 16777216"
    using rnd_error[of "- 126" x 24] x by (simp add: yr power_int_minus field_simps)
  then have "\<bar>y - x\<bar> * of_nat w \<le> x / 16777216 * of_nat w" by (rule mult_right_mono) simp
  moreover have xw: "x * of_nat w = of_nat l" using lw by (simp add: x_def)
  then have "x / 16777216 * of_nat w = of_nat l / 16777216" by simp
  moreover have "\<bar>y - x\<bar> * of_nat w = \<bar>(y - x) * of_nat w\<bar>" by (simp add: abs_mult)
  moreover have "(y - x) * of_nat w = y * of_nat w - of_nat l" using xw by (simp add: left_diff_distrib)
  ultimately have "\<bar>y * of_nat w - of_nat l\<bar> \<le> of_nat l / 16777216" by metis
  then show thesis using that[of y] y by (simp add: x_def)
qed


lemma LocalScaleDim_floor:
  assumes "unat d < 16777216" "to_f32 (y * of_nat (unat d)) = Fin z" "0 \<le> z" "z < 4294967296"
  shows "unat (LocalScaleDim d (Fin y)) = max 2 (2 * (nat \<lfloor>z\<rfloor> div 2))"
proof -
  have z: "0 \<le> \<lfloor>z\<rfloor>" "\<lfloor>z\<rfloor> \<le> 4294967295" using assms(3,4) by linarith+
  have "fp_to_u32 (fp_mul to_f32 (Fin y) (f32_of_u32 d)) = word_of_int \<lfloor>z\<rfloor>"
    using assms z by (simp add: f32_of_small fp_to_u32_def trunc_def)
  moreover have "unat (word_of_int \<lfloor>z\<rfloor> :: u32) = nat \<lfloor>z\<rfloor>"
    using z by (simp add: unsigned_of_int take_bit_int_eq_self)
  ultimately show ?thesis
    using unat_AlignEven[of "word_of_int \<lfloor>z\<rfloor>"]
    by (simp add: LocalScaleDim_def AlignEven_def max_def word_le_nat_alt)
qed

lemma LocalScaleDim_le:
  fixes L :: nat
  assumes "unat d < 16777216" "0 \<le> y" "y * of_nat (unat d) \<le> of_nat L + 1 / 2" "L < 8388607"
  shows "unat (LocalScaleDim d (Fin y)) \<le> max 2 (2 * (L div 2))"
proof -
  define b where "b = (of_int (2 * int L + 1) :: rat) / 2 ^ 1"
  have lr: "(of_nat L :: rat) < 8388607" using of_nat_less_iff[of L 8388607, where 'a = rat] assms(4) by simp
  have b: "b = of_nat L + 1 / 2" by (simp add: b_def)
  have "rnd 24 (- 126) b = b" unfolding b_def using assms(4) by (intro rnd24_quotient) simp_all
  moreover have "0 \<le> y * of_nat (unat d)" using assms(2) by simp
  ultimately obtain z where z: "to_f32 (y * of_nat (unat d)) = Fin z" "0 \<le> z" "z \<le> b"
    using to_f32_between[of 0 "y * of_nat (unat d)" b] assms(3) lr rnd24_of_nat[of 0] by (auto simp: b)
  have "\<lfloor>z\<rfloor> \<le> int L" using z(3) b by (simp add: floor_le_iff)
  then have "nat \<lfloor>z\<rfloor> \<le> L" by simp
  moreover have "z < 4294967296" using z(3) lr b by linarith
  ultimately show ?thesis using LocalScaleDim_floor[OF assms(1) z(1,2)] by (simp add: div_le_mono max_def)
qed

lemma LocalScaleDim_ge:
  fixes L :: nat
  assumes "unat d < 16777216" "0 \<le> y" "y \<le> 1" "of_nat L - 1 / 2 \<le> y * of_nat (unat d)" "0 < L" "L < 8388607"
  shows "L \<le> unat (LocalScaleDim d (Fin y)) + 2"
proof -
  define a where "a = (of_int (2 * int L - 1) :: rat) / 2 ^ 1"
  have dr: "(of_nat (unat d) :: rat) < 16777216" using of_nat_less_iff[of "unat d" 16777216, where 'a = rat] assms(1) by simp
  have a: "a = of_nat L - 1 / 2" by (simp add: a_def)
  have "1 \<le> (of_nat L :: rat)" using assms(5) of_nat_le_iff[of 1 L, where 'a = rat] by simp
  moreover have "rnd 24 (- 126) a = a" unfolding a_def using assms(5,6) by (intro rnd24_quotient) simp_all
  moreover have "y * of_nat (unat d) \<le> 1 * of_nat (unat d)" using assms(3) by (rule mult_right_mono) simp
  moreover have "rnd 24 (- 126) (of_nat (unat d)) = (of_nat (unat d) :: rat)" using assms(1) by (rule rnd24_of_nat)
  ultimately obtain z where z: "to_f32 (y * of_nat (unat d)) = Fin z" "a \<le> z" "z \<le> of_nat (unat d)"
    using to_f32_between[of a "y * of_nat (unat d)" "of_nat (unat d)"] assms(4) dr by (auto simp: a)
  have "0 \<le> z" using z(2) a \<open>1 \<le> of_nat L\<close> by linarith
  moreover have "z < 4294967296" using z(3) dr by linarith
  moreover have "int L - 1 \<le> \<lfloor>z\<rfloor>" using z(2) a by (simp add: le_floor_iff)
  then have "L \<le> 2 * (nat \<lfloor>z\<rfloor> div 2) + 2" by linarith
  ultimately show ?thesis using LocalScaleDim_floor[OF assms(1) z(1)] by (simp add: max_def)
qed


text \<open>The factor of one dimension: 1 when it is inside its limit.\<close>

lemma dimension_factor:
  fixes w l :: u32
  assumes "0 < unat w" "unat w < 16777216" "0 < unat l" "unat l < 8388607"
  obtains y where "(if l < w then fp_div to_f32 (Fin (f32_of_u32 l)) (f32_of_u32 w) else Fin 1) = Fin y" "0 < y" "y \<le> 1"
    and "y * of_nat (unat w) \<le> of_nat (min (unat w) (unat l)) + 1 / 2"
    and "l < w \<Longrightarrow> of_nat (unat l) - 1 / 2 \<le> y * of_nat (unat w)" "\<not> l < w \<Longrightarrow> y = 1"
proof (cases "l < w")
  case True
  then have lw: "unat l < unat w" by (simp add: word_less_nat_alt)
  obtain y where y: "to_f32 (of_nat (unat l) / of_nat (unat w)) = Fin y"
    "\<bar>y * of_nat (unat w) - of_nat (unat l)\<bar> \<le> of_nat (unat l) / 16777216" "0 < y" "y \<le> 1"
    using to_f32_quotient[OF assms(3) lw assms(2)] by blast
  have "(of_nat (unat l) :: rat) < 8388607" using of_nat_less_iff[of "unat l" 8388607, where 'a = rat] assms(4) by simp
  then have "(of_nat (unat l) :: rat) / 16777216 \<le> 1 / 2" by simp
  then have "\<bar>y * of_nat (unat w) - of_nat (unat l)\<bar> \<le> 1 / 2" using y(2) by linarith
  then have "y * of_nat (unat w) \<le> of_nat (unat l) + 1 / 2" "of_nat (unat l) - 1 / 2 \<le> y * of_nat (unat w)" by linarith+
  moreover have "fp_div to_f32 (Fin (f32_of_u32 l)) (f32_of_u32 w) = Fin y"
    using y(1) assms lw by (simp add: f32_of_small)
  ultimately show thesis using that[of y] True y(3,4) lw by simp
next
  case False
  then show thesis using that[of 1] by (simp add: word_less_nat_alt min_def not_less)
qed

lemma LocalCalcRenderScale_spec:
  assumes "0 < unat w" "unat w < 16777216" "0 < unat h" "unat h < 16777216"
    and "0 < unat lw" "unat lw < 8388607" "0 < unat lh" "unat lh < 8388607"
  obtains y where "LocalCalcRenderScale w h lw lh = Fin y" "0 < y" "y \<le> 1"
    and "y * of_nat (unat w) \<le> of_nat (min (unat w) (unat lw)) + 1 / 2"
    and "y * of_nat (unat h) \<le> of_nat (min (unat h) (unat lh)) + 1 / 2"
    and "lw < w \<or> lh < h \<Longrightarrow> lw < w \<and> of_nat (unat lw) - 1 / 2 \<le> y * of_nat (unat w)
        \<or> lh < h \<and> of_nat (unat lh) - 1 / 2 \<le> y * of_nat (unat h)"
proof -
  obtain a where a: "(if lw < w then fp_div to_f32 (Fin (f32_of_u32 lw)) (f32_of_u32 w) else Fin 1) = Fin a" "0 < a" "a \<le> 1"
    "a * of_nat (unat w) \<le> of_nat (min (unat w) (unat lw)) + 1 / 2"
    "lw < w \<Longrightarrow> of_nat (unat lw) - 1 / 2 \<le> a * of_nat (unat w)" "\<not> lw < w \<Longrightarrow> a = 1"
    using dimension_factor[OF assms(1,2,5,6)] by blast
  obtain b where b: "(if lh < h then fp_div to_f32 (Fin (f32_of_u32 lh)) (f32_of_u32 h) else Fin 1) = Fin b" "0 < b" "b \<le> 1"
    "b * of_nat (unat h) \<le> of_nat (min (unat h) (unat lh)) + 1 / 2"
    "lh < h \<Longrightarrow> of_nat (unat lh) - 1 / 2 \<le> b * of_nat (unat h)" "\<not> lh < h \<Longrightarrow> b = 1"
    using dimension_factor[OF assms(3,4,7,8)] by blast
  have nz: "w \<noteq> 0" "h \<noteq> 0" using assms(1,3) by auto
  have m: "(if lh < h then fp_min (fp_div to_f32 (Fin (f32_of_u32 lh)) (f32_of_u32 h)) (Fin a) else Fin a) = Fin (min b a)"
    using b a(3) by (cases "lh < h") (auto simp: min_def)
  have eq: "LocalCalcRenderScale w h lw lh = Fin (min b a)"
    unfolding LocalCalcRenderScale_def Let_def a(1) m using nz a(2,3) b(2,3) by (simp add: min_def)
  have le: "min b a * of_nat (unat w) \<le> a * of_nat (unat w)" "min b a * of_nat (unat h) \<le> b * of_nat (unat h)"
    by (simp_all add: mult_right_mono)
  have ge: "lw < w \<and> of_nat (unat lw) - 1 / 2 \<le> min b a * of_nat (unat w)
      \<or> lh < h \<and> of_nat (unat lh) - 1 / 2 \<le> min b a * of_nat (unat h)" if over: "lw < w \<or> lh < h"
  proof (cases "lh < h \<and> b \<le> a")
    case True
    then show ?thesis using b(5) by (simp add: min_def)
  next
    case False
    then have "a \<le> b" using a(3) b(6) by (cases "lh < h") auto
    moreover have "lw < w" using False over a(6) b(3) by (cases "lw < w") auto
    ultimately show ?thesis using a(5) by (simp add: min_def)
  qed
  show thesis by (rule that[OF eq _ _ order_trans[OF le(1) a(4)] order_trans[OF le(2) b(4)] ge]) (use a b in auto)
qed


lemma scaled_texture:
  fixes w h lw lh :: u32
  assumes "0 < unat w" "unat w < 8388607" "0 < unat h" "unat h < 8388607"
    and "0 < unat lw" "unat lw < 8388607" "0 < unat lh" "unat lh < 8388607"
  defines "s \<equiv> LocalCalcRenderScale w h lw lh"
  shows "unat (LocalScaleDim w s) \<le> max 2 (2 * (min (unat w) (unat lw) div 2))"
    and "unat (LocalScaleDim h s) \<le> max 2 (2 * (min (unat h) (unat lh) div 2))"
    and "2 \<le> unat (LocalScaleDim w s)" "2 \<le> unat (LocalScaleDim h s)"
    and "even (unat (LocalScaleDim w s))" "even (unat (LocalScaleDim h s))"
    and "lw < w \<or> lh < h \<Longrightarrow> unat lw \<le> unat (LocalScaleDim w s) + 2 \<or> unat lh \<le> unat (LocalScaleDim h s) + 2"
proof -
  have big: "unat w < 16777216" "unat h < 16777216" using assms by simp_all
  obtain y where y: "LocalCalcRenderScale w h lw lh = Fin y" "0 < y" "y \<le> 1"
    "y * of_nat (unat w) \<le> of_nat (min (unat w) (unat lw)) + 1 / 2"
    "y * of_nat (unat h) \<le> of_nat (min (unat h) (unat lh)) + 1 / 2"
    "lw < w \<or> lh < h \<Longrightarrow> lw < w \<and> of_nat (unat lw) - 1 / 2 \<le> y * of_nat (unat w)
        \<or> lh < h \<and> of_nat (unat lh) - 1 / 2 \<le> y * of_nat (unat h)"
    using LocalCalcRenderScale_spec[OF assms(1) big(1) assms(3) big(2) assms(5-8)] by blast
  have y0: "0 \<le> y" using y(2) by simp
  show "unat (LocalScaleDim w s) \<le> max 2 (2 * (min (unat w) (unat lw) div 2))"
    "unat (LocalScaleDim h s) \<le> max 2 (2 * (min (unat h) (unat lh) div 2))"
    unfolding s_def y(1) using assms by (intro LocalScaleDim_le big y0 y(4,5); simp)+
  have fl: "\<exists>k. unat (LocalScaleDim d s) = max 2 (2 * k)" for d
    using unat_AlignEven[of "fp_to_u32 (fp_mul to_f32 s (f32_of_u32 d))"]
    by (auto simp: LocalScaleDim_def AlignEven_def max_def word_le_nat_alt)
  then show "2 \<le> unat (LocalScaleDim w s)" "2 \<le> unat (LocalScaleDim h s)"
    "even (unat (LocalScaleDim w s))" "even (unat (LocalScaleDim h s))"
    by (metis even_mult_iff even_numeral max.cobounded1 max_def)+
  show "unat lw \<le> unat (LocalScaleDim w s) + 2 \<or> unat lh \<le> unat (LocalScaleDim h s) + 2" if "lw < w \<or> lh < h"
    using y(6)[OF that] LocalScaleDim_ge[OF big(1) y0 y(3), of "unat lw"] LocalScaleDim_ge[OF big(2) y0 y(3), of "unat lh"] assms(5-8)
    unfolding s_def y(1) by blast
qed


section \<open>Created textures\<close>

lemma max_mips_bound:
  assumes "0 < unat n" "1 < unat m" "m \<le> max_mips n"
  shows "2 ^ (unat m - 1) \<le> unat n"
proof -
  have "unat n < 2 ^ 32" using unsigned_less[of n, where 'a = nat] by simp
  then have "floorlog 2 (unat n) \<le> 32" by (intro floorlog_leI) simp_all
  then have "unat (max_mips n) = floorlog 2 (unat n)" by (simp add: max_mips_def unat_of_nat)
  then have "unat m - 1 \<le> floorlog 2 (unat n) - 1" using assms(3) by (simp add: word_le_nat_alt)
  then have "(2 :: nat) ^ (unat m - 1) \<le> 2 ^ (floorlog 2 (unat n) - 1)" by (rule power_increasing) simp
  also have "\<dots> \<le> unat n" using floorlog_bounds[of "unat n" 2] assms(1) by simp
  finally show ?thesis .
qed

lemma limit_mips_fields [simp]:
  "dwPixelWidth (limit_mips w h t) = dwPixelWidth t" "dwPixelHeight (limit_mips w h t) = dwPixelHeight t"
  "dwMipLevels (limit_mips w h t) = (if 1 < dwMipLevels t then min (dwMipLevels t) (max_mips (max w h)) else dwMipLevels t)"
  by (simp_all add: limit_mips_def)

lemma limit_mips_bound:
  assumes "0 < unat (max w h)" "1 < unat (dwMipLevels (limit_mips w h t))"
  shows "2 ^ (unat (dwMipLevels (limit_mips w h t)) - 1) \<le> unat (max w h)"
proof (rule max_mips_bound[OF assms])
  show "dwMipLevels (limit_mips w h t) \<le> max_mips (max w h)"
    using assms(2) by (auto simp: word_less_nat_alt split: if_splits)
qed

text \<open>What the hook can do, by cases.\<close>

definition swapchain_call :: "ResolutionHackConfig \<Rightarrow> u64 \<Rightarrow> bool" where
  "swapchain_call c lrOffset \<longleftrightarrow> rh_active c \<and> OutputWidthPx c \<noteq> 0 \<and> OutputHeightPx c \<noteq> 0 \<and> IsSwapchainTexCreateLR lrOffset"

definition oversized :: "u32 \<Rightarrow> u32 \<Rightarrow> NVNTexInfo \<Rightarrow> bool" where
  "oversized lw lh tex \<longleftrightarrow> lw < dwPixelWidth tex \<or> lh < dwPixelHeight tex \<or> dwPixelHeight tex = 0"

lemma NVNTexInfoCreate_swapchain:
  "swapchain_call c lr \<Longrightarrow> NVNTexInfoCreate c arg2 arg3 lr td tex = (td,
     if dwPixelWidth tex \<noteq> OutputWidthPx c \<or> dwPixelHeight tex \<noteq> OutputHeightPx c
     then limit_mips (OutputWidthPx c) (OutputHeightPx c) (tex\<lparr>dwPixelWidth := OutputWidthPx c, dwPixelHeight := OutputHeightPx c\<rparr>)
     else tex)"
  by (simp add: NVNTexInfoCreate_def swapchain_call_def Let_def)

lemma NVNTexInfoCreate_cases:
  assumes "\<not> swapchain_call c lr"
  shows "(\<exists>m. snd (NVNTexInfoCreate c arg2 arg3 lr td tex) = tex\<lparr>tx_MSAALevel := m\<rparr>)
    \<or> (\<exists>lw lh m. GetClampDims c = Some (lw, lh) \<and> oversized lw lh tex \<and> arg3 = 0 \<and> arg2 \<noteq> 0
         \<and> snd (NVNTexInfoCreate c arg2 arg3 lr td tex) = clamp_tex lw lh (tex\<lparr>tx_MSAALevel := m\<rparr>))"
proof (cases "GetClampDims c")
  case None
  then have "snd (NVNTexInfoCreate c arg2 arg3 lr td tex) = tex\<lparr>tx_MSAALevel := tx_MSAALevel tex\<rparr>"
    using assms by (auto simp: NVNTexInfoCreate_def swapchain_call_def Let_def)
  then show ?thesis by blast
next
  case (Some lims)
  obtain lw lh where l: "GetClampDims c = Some (lw, lh)" using Some by (cases lims) simp
  define b where "b = (td_valid td \<and> td_width td = dwPixelWidth tex \<and> td_height td = dwPixelHeight tex \<and> td_fmt td = eTexFormat tex)"
  define t1 where "t1 = (if arg3 = 0 \<and> is_depth_texture b td tex \<and> 1280 < OutputHeightPx c \<and> tx_MSAALevel tex \<noteq> 0
      then tex\<lparr>tx_MSAALevel := 0\<rparr> else tex)"
  have m: "\<exists>m. t1 = tex\<lparr>tx_MSAALevel := m\<rparr>"
    unfolding t1_def by (auto intro: exI[of _ "tx_MSAALevel tex"])
  have "oversized lw lh t1 = oversized lw lh tex" by (simp add: t1_def oversized_def)
  then have "\<not> leaves_size c arg2 arg3 b td lw lh t1 \<Longrightarrow> oversized lw lh tex \<and> arg3 = 0 \<and> arg2 \<noteq> 0"
    by (auto simp: leaves_size_def oversized_def Let_def split: if_splits)
  moreover have "snd (NVNTexInfoCreate c arg2 arg3 lr td tex) =
      (if leaves_size c arg2 arg3 b td lw lh t1 then t1 else clamp_tex lw lh t1)"
    using assms unfolding NVNTexInfoCreate_def swapchain_call_def Let_def l b_def t1_def
    by (simp only: option.case prod.case if_False if_distrib[of snd] snd_conv)
  ultimately show ?thesis using m l by (cases "leaves_size c arg2 arg3 b td lw lh t1") auto
qed


lemma clamp_tex_fields:
  "dwPixelWidth (clamp_tex lw lh tex) =
     (let w = (if dwPixelWidth tex \<noteq> 0 then dwPixelWidth tex else 1); h = (if dwPixelHeight tex \<noteq> 0 then dwPixelHeight tex else 1)
      in LocalScaleDim w (LocalCalcRenderScale w h lw lh))"
  "dwPixelHeight (clamp_tex lw lh tex) =
     (let w = (if dwPixelWidth tex \<noteq> 0 then dwPixelWidth tex else 1); h = (if dwPixelHeight tex \<noteq> 0 then dwPixelHeight tex else 1)
      in LocalScaleDim h (LocalCalcRenderScale w h lw lh))"
  "dwMipLevels (clamp_tex lw lh tex) =
     dwMipLevels (limit_mips (dwPixelWidth (clamp_tex lw lh tex)) (dwPixelHeight (clamp_tex lw lh tex)) tex)"
  by (simp_all add: clamp_tex_def Let_def)

lemma clamp_dims_bounds:
  assumes "GetClampDims c = Some (lw, lh)" "unat (clamp_texture_resolution c) \<in> {100..9999}"
  shows "unat lh = unat (clamp_texture_resolution c)" "unat lw = 16 * unat (clamp_texture_resolution c) div 9"
    "2 \<le> unat lw" "2 \<le> unat lh" "unat lw < 8388607" "unat lh < 8388607"
proof -
  have l: "lw = WidthForHeight (clamp_texture_resolution c)" "lh = clamp_texture_resolution c"
    using assms(1) by (auto simp: GetClampDims_def ClampTextureHeightPx_def ClampTextureWidthPx_def Let_def split: if_splits)
  have "unat (clamp_texture_resolution c) \<le> 16384" using assms(2) by simp
  then show "unat lw = 16 * unat (clamp_texture_resolution c) div 9" unfolding l by (rule WidthForHeight_exact)
  moreover have "2 \<le> 16 * unat (clamp_texture_resolution c) div 9" "16 * unat (clamp_texture_resolution c) div 9 < 8388607"
    using assms(2) unfolding atLeastAtMost_iff by linarith+
  ultimately show "unat lh = unat (clamp_texture_resolution c)" "2 \<le> unat lw" "2 \<le> unat lh" "unat lw < 8388607" "unat lh < 8388607"
    using assms(2) l(2) by simp_all
qed

lemma clamp_tex_bounds:
  fixes lw lh :: u32 and tex :: NVNTexInfo
  assumes "unat (dwPixelWidth tex) < 8388607" "unat (dwPixelHeight tex) < 8388607"
    and "2 \<le> unat lw" "unat lw < 8388607" "2 \<le> unat lh" "unat lh < 8388607"
  defines "W \<equiv> unat (dwPixelWidth (clamp_tex lw lh tex))" and "H \<equiv> unat (dwPixelHeight (clamp_tex lw lh tex))"
  shows "even W \<and> even H" "2 \<le> W \<and> 2 \<le> H" "W \<le> unat lw \<and> H \<le> unat lh"
    "W \<le> max 2 (unat (dwPixelWidth tex)) \<and> H \<le> max 2 (unat (dwPixelHeight tex))"
    "lw < dwPixelWidth tex \<or> lh < dwPixelHeight tex \<Longrightarrow> unat lw \<le> W + 2 \<or> unat lh \<le> H + 2"
proof -
  define w where "w = (if dwPixelWidth tex \<noteq> 0 then dwPixelWidth tex else 1)"
  define h where "h = (if dwPixelHeight tex \<noteq> 0 then dwPixelHeight tex else 1)"
  have pos: "0 < unat w" "unat w < 8388607" "0 < unat h" "unat h < 8388607" "0 < unat lw" "0 < unat lh"
    using assms(1,2) by (simp_all add: w_def h_def unat_gt_0) (use assms(3,5) in auto)
  have wh: "unat w \<le> max 1 (unat (dwPixelWidth tex))" "unat h \<le> max 1 (unat (dwPixelHeight tex))"
    by (simp_all add: w_def h_def)
  note t = scaled_texture[OF pos(1-5) assms(4) pos(6) assms(6)]
  have eq: "W = unat (LocalScaleDim w (LocalCalcRenderScale w h lw lh))" "H = unat (LocalScaleDim h (LocalCalcRenderScale w h lw lh))"
    by (simp_all add: W_def H_def clamp_tex_fields w_def h_def Let_def)
  show "even W \<and> even H" "2 \<le> W \<and> 2 \<le> H" unfolding eq using t(3-6) by simp_all
  have le: "W \<le> max 2 (min (unat w) (unat lw))" "H \<le> max 2 (min (unat h) (unat lh))"
    unfolding eq using t(1,2) by linarith+
  show "W \<le> unat lw \<and> H \<le> unat lh" using le assms(3,5) by linarith
  show "W \<le> max 2 (unat (dwPixelWidth tex)) \<and> H \<le> max 2 (unat (dwPixelHeight tex))" using le wh by linarith
  show "unat lw \<le> W + 2 \<or> unat lh \<le> H + 2" if "lw < dwPixelWidth tex \<or> lh < dwPixelHeight tex"
  proof -
    have "lw < w \<or> lh < h" using that by (auto simp: w_def h_def word_less_nat_alt)
    then show ?thesis unfolding eq by (rule t(7))
  qed
qed


lemma clamp_tex_mips:
  fixes lw lh :: u32 and tex :: NVNTexInfo
  assumes "2 \<le> unat (dwPixelWidth (clamp_tex lw lh tex))"
  defines "t \<equiv> clamp_tex lw lh tex"
  shows "dwMipLevels t \<le> dwMipLevels tex"
    "1 < dwMipLevels t \<Longrightarrow> 2 ^ (unat (dwMipLevels t) - 1) \<le> max (unat (dwPixelWidth t)) (unat (dwPixelHeight t))"
proof -
  have m: "dwMipLevels t = dwMipLevels (limit_mips (dwPixelWidth t) (dwPixelHeight t) tex)"
    unfolding t_def by (rule clamp_tex_fields)
  show "dwMipLevels t \<le> dwMipLevels tex" unfolding m by simp
  have mx: "unat (max (dwPixelWidth t) (dwPixelHeight t)) = max (unat (dwPixelWidth t)) (unat (dwPixelHeight t))"
    by (simp add: max_def word_le_nat_alt)
  then have "0 < unat (max (dwPixelWidth t) (dwPixelHeight t))" using assms(1) by (simp add: t_def)
  moreover assume "1 < dwMipLevels t"
  then have "1 < unat (dwMipLevels t)" by (simp add: word_less_nat_alt)
  ultimately show "2 ^ (unat (dwMipLevels t) - 1) \<le> max (unat (dwPixelWidth t)) (unat (dwPixelHeight t))"
    using limit_mips_bound[of "dwPixelWidth t" "dwPixelHeight t" tex] by (simp only: m[symmetric] mx)
qed

text \<open>
  C39: Created textures stay inside the limit.  For a limit in the configured range and a texture
  smaller than 2^23 that is no part of the swap chain, the hook keeps the size, or it scales
  a texture that exceeds the limit: then both sides are even, at least 2, within the limits
  and no larger than before except up to 2, one of them is within two pixels of its limit
  when a side exceeded it, and no mip level is smaller than one pixel.  A plain colour texture,
  unmatched and drawn to no window, is always inside afterwards.
\<close>
theorem created_texture_fits:
  fixes c lrOffset arg2 arg3 td tex
  assumes "unat (clamp_texture_resolution c) \<in> {100..9999}" "\<not> swapchain_call c lrOffset"
    and "unat (dwPixelWidth tex) < 8388607" "unat (dwPixelHeight tex) < 8388607"
  defines "t \<equiv> snd (NVNTexInfoCreate c arg2 arg3 lrOffset td tex)" and "lh \<equiv> unat (clamp_texture_resolution c)"
  defines "lw \<equiv> 16 * lh div 9" and "W \<equiv> unat (dwPixelWidth t)" and "H \<equiv> unat (dwPixelHeight t)"
  shows "(dwPixelWidth t = dwPixelWidth tex \<and> dwPixelHeight t = dwPixelHeight tex \<and> dwMipLevels t = dwMipLevels tex
      \<or> arg3 = 0 \<and> (lw < unat (dwPixelWidth tex) \<or> lh < unat (dwPixelHeight tex) \<or> dwPixelHeight tex = 0)
        \<and> even W \<and> even H \<and> 2 \<le> W \<and> W \<le> lw \<and> 2 \<le> H \<and> H \<le> lh
        \<and> W \<le> max 2 (unat (dwPixelWidth tex)) \<and> H \<le> max 2 (unat (dwPixelHeight tex))
        \<and> (lw < unat (dwPixelWidth tex) \<or> lh < unat (dwPixelHeight tex) \<longrightarrow> lw \<le> W + 2 \<or> lh \<le> H + 2)
        \<and> dwMipLevels t \<le> dwMipLevels tex \<and> (1 < dwMipLevels t \<longrightarrow> 2 ^ (unat (dwMipLevels t) - 1) \<le> max W H))
    \<and> (rh_active c \<and> arg2 \<noteq> 0 \<and> arg3 = 0 \<and> \<not> td_valid td \<and> \<not> IsDepthFormat (eTexFormat tex) \<longrightarrow> W \<le> lw \<and> H \<le> lh)"
proof -
  have fits: "even W \<and> even H" "2 \<le> W \<and> 2 \<le> H" "W \<le> lw \<and> H \<le> lh"
    "W \<le> max 2 (unat (dwPixelWidth tex)) \<and> H \<le> max 2 (unat (dwPixelHeight tex))"
    "lw < unat (dwPixelWidth tex) \<or> lh < unat (dwPixelHeight tex) \<Longrightarrow> lw \<le> W + 2 \<or> lh \<le> H + 2"
    "dwMipLevels t \<le> dwMipLevels tex" "1 < dwMipLevels t \<longrightarrow> 2 ^ (unat (dwMipLevels t) - 1) \<le> max W H"
    "oversized l l' tex \<longleftrightarrow> lw < unat (dwPixelWidth tex) \<or> lh < unat (dwPixelHeight tex) \<or> dwPixelHeight tex = 0"
    if d: "GetClampDims c = Some (l, l')" "t = clamp_tex l l' (tex\<lparr>tx_MSAALevel := m\<rparr>)" for l l' m
  proof -
    note b = clamp_dims_bounds[OF d(1) assms(1)]
    have l: "lw = unat l" "lh = unat l'" using b by (simp_all add: lw_def lh_def)
    note cb = clamp_tex_bounds[of "tex\<lparr>tx_MSAALevel := m\<rparr>" l l']
    show "even W \<and> even H" "2 \<le> W \<and> 2 \<le> H" "W \<le> lw \<and> H \<le> lh"
      "W \<le> max 2 (unat (dwPixelWidth tex)) \<and> H \<le> max 2 (unat (dwPixelHeight tex))"
      "lw < unat (dwPixelWidth tex) \<or> lh < unat (dwPixelHeight tex) \<Longrightarrow> lw \<le> W + 2 \<or> lh \<le> H + 2"
      using cb b assms(3,4) unfolding W_def H_def d(2) l by (simp_all add: word_less_nat_alt)
    then have "2 \<le> unat (dwPixelWidth (clamp_tex l l' (tex\<lparr>tx_MSAALevel := m\<rparr>)))" by (simp add: W_def d(2))
    note mi = clamp_tex_mips[OF this]
    show "dwMipLevels t \<le> dwMipLevels tex" "1 < dwMipLevels t \<longrightarrow> 2 ^ (unat (dwMipLevels t) - 1) \<le> max W H"
      using mi unfolding W_def H_def d(2) by simp_all
    show "oversized l l' tex \<longleftrightarrow> lw < unat (dwPixelWidth tex) \<or> lh < unat (dwPixelHeight tex) \<or> dwPixelHeight tex = 0"
      by (simp add: oversized_def l word_less_nat_alt)
  qed
  have plain: "W \<le> lw \<and> H \<le> lh"
    if h: "rh_active c" "arg2 \<noteq> 0" "arg3 = 0" "\<not> td_valid td" "\<not> IsDepthFormat (eTexFormat tex)"
  proof -
    have r0: "clamp_texture_resolution c \<noteq> 0" using assms(1) by auto
    define l where "l = WidthForHeight (clamp_texture_resolution c)"
    have "unat l = 16 * unat (clamp_texture_resolution c) div 9"
      unfolding l_def using assms(1) by (intro WidthForHeight_exact) simp
    then have "l \<noteq> 0" using assms(1) by auto
    then have d: "GetClampDims c = Some (l, clamp_texture_resolution c)"
      using h(1) r0 by (simp add: GetClampDims_def hack_clamps_def Config_Types.ClampTexturesEnabled_def
          ClampTextureHeightPx_def ClampTextureWidthPx_def l_def Let_def)
    note b = clamp_dims_bounds[OF d assms(1)]
    have "t = (if oversized l (clamp_texture_resolution c) tex then clamp_tex l (clamp_texture_resolution c) tex else tex)"
      using assms(2) h d by (auto simp: t_def NVNTexInfoCreate_def swapchain_call_def leaves_size_def is_depth_texture_def oversized_def Let_def)
    moreover have "tex = tex\<lparr>tx_MSAALevel := tx_MSAALevel tex\<rparr>" by simp
    ultimately show ?thesis
      using fits(3)[OF d, of "tx_MSAALevel tex"] b
      by (cases "oversized l (clamp_texture_resolution c) tex")
        (auto simp: oversized_def W_def H_def lw_def lh_def word_less_nat_alt not_less)
  qed
  from NVNTexInfoCreate_cases[OF assms(2), of arg2 arg3 td tex] show ?thesis
  proof (elim disjE exE conjE)
    fix m assume "snd (NVNTexInfoCreate c arg2 arg3 lrOffset td tex) = tex\<lparr>tx_MSAALevel := m\<rparr>"
    then have "dwPixelWidth t = dwPixelWidth tex" "dwPixelHeight t = dwPixelHeight tex" "dwMipLevels t = dwMipLevels tex"
      by (simp_all add: t_def)
    then show ?thesis using plain by blast
  next
    fix l l' m
    assume h: "GetClampDims c = Some (l, l')" "oversized l l' tex" "arg3 = 0"
      "snd (NVNTexInfoCreate c arg2 arg3 lrOffset td tex) = clamp_tex l l' (tex\<lparr>tx_MSAALevel := m\<rparr>)"
    have d: "t = clamp_tex l l' (tex\<lparr>tx_MSAALevel := m\<rparr>)" using h(4) by (simp add: t_def)
    show ?thesis using fits[OF h(1) d] h(2,3) plain by blast
  qed
qed


definition sample_texture :: NVNTexInfo where
  "sample_texture = \<lparr>eTexFormat = 0x25, tx_MSAALevel = 2, dwLastFrameUsed = 0, tx_eType = 1, dwPixelWidth = 4096,
     dwPixelHeight = 4096, dwPixelDepth = 1, dwMipLevels = 13, tx_tMemory = [], bTargetUpdated = 0, bIsWindowTexture = 0\<rparr>"

definition no_texdef :: TexDefCallInfo where
  "no_texdef = \<lparr>td_fmt = 0, td_width = 0, td_height = 0, td_usage = 0, td_flags = 0, td_namePtr = 0, td_hasName = False,
     td_valid = False, td_name = []\<rparr>"

theorem created_texture_fits_witness:
  "let t = snd (NVNTexInfoCreate default_resolution_hack 1 0 0x1000 no_texdef sample_texture)
   in unat (dwPixelHeight t) \<le> 1152 \<and> unat (dwPixelWidth t) \<le> 2048 \<and> even (unat (dwPixelHeight t))"
proof -
  have "unat (clamp_texture_resolution default_resolution_hack) \<in> {100..9999}" "\<not> swapchain_call default_resolution_hack 0x1000"
    "unat (dwPixelWidth sample_texture) < 8388607" "unat (dwPixelHeight sample_texture) < 8388607"
    by (simp_all add: default_resolution_hack_def kClampTextureResolutionDefault_def swapchain_call_def IsSwapchainTexCreateLR_def
        kSwapchainTexCreateLrOffsets_def sample_texture_def)
  note t = created_texture_fits[OF this, of 1 0 no_texdef]
  moreover have "rh_active default_resolution_hack" "\<not> td_valid no_texdef" "\<not> IsDepthFormat (eTexFormat sample_texture)"
    "unat (clamp_texture_resolution default_resolution_hack) = 1152" "unat (dwPixelHeight sample_texture) = 4096"
    by (simp_all add: default_resolution_hack_def kClampTextureResolutionDefault_def no_texdef_def sample_texture_def IsDepthFormat_def)
  ultimately show ?thesis by (auto simp: Let_def)
qed

section \<open>Render targets\<close>

lemma rt_scale_min_value: "rt_scale_min = 13421773 / 33554432"
proof -
  have "round_even (67108864 / 5) = 13421773" by (rule round_even_unique) simp
  then show ?thesis
    unfolding rt_scale_min_def
    by (subst rnd_at_exponent[of "- 2"]) (simp_all add: power_int_def power_divide)
qed

lemma rt_scale_default_value: "rt_scale_default = 13421773 / 16777216"
proof -
  have "round_even (67108864 / 5) = 13421773" by (rule round_even_unique) simp
  then show ?thesis
    unfolding rt_scale_default_def
    by (subst rnd_at_exponent[of "- 1"]) (simp_all add: power_int_def power_divide)
qed

lemma rt_scale_range:
  obtains s where "rt_scale g = Fin s" "2 / 5 \<le> s" "s \<le> 1"
proof (cases "fp_leq (Fin rt_scale_min) g")
  case True
  then have "g \<noteq> NaN" by (auto simp: fp_leq_def)
  moreover have "rt_scale_min \<le> 1" by (simp add: rt_scale_min_value)
  ultimately obtain x where "clamp g (Fin rt_scale_min) (Fin 1) = Fin x" "rt_scale_min \<le> x" "x \<le> 1"
    using clamp_cases[of rt_scale_min 1 g] by blast
  then show thesis using that[of x] True by (simp add: rt_scale_def rt_scale_min_value)
next
  case False
  then show thesis using that[of rt_scale_default] by (simp add: rt_scale_def rt_scale_default_value)
qed

lemma scaled_px_range:
  assumes "unat v < 16777216"
  shows "2 * unat v div 5 \<le> unat (scaled_px v (rt_scale g))" "unat (scaled_px v (rt_scale g)) \<le> unat v"
proof -
  obtain s where s: "rt_scale g = Fin s" "2 / 5 \<le> s" "s \<le> 1" by (rule rt_scale_range)
  define n where "n = unat v"
  define k where "k = 2 * n div 5"
  have n: "n < 16777216" "f32_of_u32 v = of_nat n" using assms f32_of_small[OF assms] by (simp_all add: n_def)
  have k: "5 * k \<le> 2 * n" "k < 16777216" using n(1) by (simp_all add: k_def)
  have "5 * (of_nat k :: rat) \<le> 2 * of_nat n" using of_nat_mono[OF k(1), where 'a = rat] by simp
  then have "of_nat k \<le> 2 / 5 * (of_nat n :: rat)" by simp
  also have "\<dots> \<le> s * of_nat n" using s(2) by (intro mult_right_mono) simp_all
  finally have lo: "of_nat k \<le> s * of_nat n" .
  have "s * of_nat n \<le> 1 * of_nat n" using s(3) by (intro mult_right_mono) simp_all
  then have hi: "s * of_nat n \<le> of_nat n" by simp
  have "(of_nat n :: rat) < 2 ^ 64" using of_nat_less_iff[of n 16777216, where 'a = rat] n(1) by simp
  then obtain z where z: "to_f32 (s * of_nat n) = Fin z" "of_nat k \<le> z" "z \<le> of_nat n"
    using to_f32_between[OF _ lo hi _ rnd24_of_nat[OF k(2)] rnd24_of_nat[OF n(1)]] by auto
  have r: "int k \<le> round_away z" "round_away z \<le> int n"
    using round_away_bounds[of "int k" z "int n"] z(2,3) by simp_all
  have "scaled_px v (rt_scale g) = word_of_int (round_away z)" by (simp add: scaled_px_def s n z(1))
  moreover have "unat (word_of_int (round_away z) :: u32) = nat (round_away z)"
    using r n(1) by (simp add: unsigned_of_int take_bit_int_eq_self)
  ultimately have "unat (scaled_px v (rt_scale g)) = nat (round_away z)" by simp
  then have "k \<le> unat (scaled_px v (rt_scale g))" "unat (scaled_px v (rt_scale g)) \<le> n" using r by linarith+
  then show "2 * unat v div 5 \<le> unat (scaled_px v (rt_scale g))" "unat (scaled_px v (rt_scale g)) \<le> unat v"
    by (simp_all only: n_def k_def)
qed

text \<open>
  A render target never reports more than its texture and never less than two fifths of it,
  whatever the configured scale; docked it reports the texture itself.
\<close>
lemma render_target_within_texture:
  assumes "unat (dwPixelWidth tex) < 16777216" "unat (dwPixelHeight tex) < 16777216"
    and "GetRenderTargetCurrentResolution dev_w dev_h docked g tex = (w, h)"
  shows "unat w \<le> unat (dwPixelWidth tex) \<and> unat h \<le> unat (dwPixelHeight tex)
    \<and> 2 * unat (dwPixelWidth tex) div 5 \<le> unat w \<and> 2 * unat (dwPixelHeight tex) div 5 \<le> unat h
    \<and> (docked \<longrightarrow> w = dwPixelWidth tex \<and> h = dwPixelHeight tex)"
  using assms(3) scaled_px_range[OF assms(1), of g] scaled_px_range[OF assms(2), of g]
  by (auto simp: GetRenderTargetCurrentResolution_def Let_def split: if_splits)


text \<open>The variable resolution always gets an ordered range of fractions.\<close>

lemma variable_resolution_ordered:
  assumes "rh_active c" "min_res_scale c \<noteq> NaN" "max_res_scale c \<noteq> NaN"
  obtains a b where "VarRes_percents c = Some (Fin a, Fin b)" "0 \<le> a" "a \<le> b" "b \<le> 1"
proof -
  obtain x where x: "clamp (min_res_scale c) (Fin 10) (Fin 100) = Fin x" "10 \<le> x" "x \<le> 100"
    using clamp_cases[of 10 100 "min_res_scale c"] assms(2) by auto
  obtain y where y: "clamp (max_res_scale c) (Fin x) (Fin 100) = Fin y" "x \<le> y" "y \<le> 100"
    using clamp_cases[of x 100 "max_res_scale c"] assms(3) x(3) by auto
  have pos: "0 < x" "0 < y" using x y by linarith+
  obtain a where a: "to_f32 (x * percent) = Fin a" "0 \<le> a" "a \<le> 1" using to_f32_scale_percent[OF pos(1) x(3)] by blast
  obtain b where b: "to_f32 (y * percent) = Fin b" "0 \<le> b" "b \<le> 1" using to_f32_scale_percent[OF pos(2) y(3)] by blast
  have le: "x * percent \<le> y * percent" "0 \<le> x * percent" using y(2) pos percent_bounds(1) by simp_all
  have "a = rnd 24 (- 126) (x * percent)" "b = rnd 24 (- 126) (y * percent)"
    using a(1) b(1) by (auto simp: to_f32_def with_range_def split: if_splits)
  then have "a \<le> b" using rnd_mono[OF le(2,1), of 24 "- 126"] by simp
  then show thesis using that[of a b] a b x y assms(1) by (simp add: VarRes_percents_def)
qed

end
