(* ===== verification/Spec2Isabelle.thy ===== *)
theory Spec2Isabelle
  imports Hook_Pool Runtime_Apply Log_Once Startup Patch_Effects Stack_Trace Input_Block Pubfiles Game_Log Challenge_Rifts Game_Events Symbol_Hooks Texture_Clamp
begin

text \<open>Verification library of the d3hack mod.\<close>

end
